(* ===== verification/Prelude.thy ===== *)
theory Prelude
  imports Complex_Main
    "HOL-Library.AList"
    "HOL-Library.Product_Lexorder"
    "HOL-Library.List_Lexorder"
    "HOL-Library.Char_ord"
begin

text \<open>
  Shared vocabulary of the development.

  \<^item> \<open>seconds\<close>: a Python \<open>float\<close> holding a clock value or a duration, as an exact rational.
    The code only adds, subtracts, compares, and divides such values; rounding is not modelled.
  \<^item> \<open>('k, 'v) dict\<close>: a Python \<open>dict\<close>, as an association list in insertion order.
    \<open>dict_set\<close> overwrites in place and appends a new key, as \<open>d[k] = v\<close> does.
  \<^item> strings are Python strings of code points below 256 (\<open>char\<close>), for which \<open>strip\<close> and
    \<open>lower\<close> are written out.
  \<^item> \<open>run\<close>: a sequence of operations on a state, with the locales \<open>machine\<close> and
    \<open>ranked_machine\<close> that lift one-step laws to whole runs.
\<close>

section \<open>Types\<close>

type_synonym seconds = rat
type_synonym ('k, 'v) dict = "('k \<times> 'v) list"

named_theorems result_elims "inversion of operations that return an error or a value"
named_theorems model_defs "unfolding of the small accessors of the model"

section \<open>Dictionaries\<close>

abbreviation dict_get :: "('k, 'v) dict \<Rightarrow> 'k \<Rightarrow> 'v option" where
  "dict_get \<equiv> map_of"

abbreviation dict_set :: "'k \<Rightarrow> 'v \<Rightarrow> ('k, 'v) dict \<Rightarrow> ('k, 'v) dict" where
  "dict_set \<equiv> AList.update"

definition dict_keys :: "('k, 'v) dict \<Rightarrow> 'k list" where
  "dict_keys d = map fst d"

definition dict_values :: "('k, 'v) dict \<Rightarrow> 'v list" where
  "dict_values d = map snd d"

text \<open>Every dictionary built by assignments has distinct keys.\<close>

definition dict_ok :: "('k, 'v) dict \<Rightarrow> bool" where
  "dict_ok d \<longleftrightarrow> distinct (map fst d)"

lemma dict_ok_Nil [simp]: "dict_ok []"
  by (simp add: dict_ok_def)

lemma dict_ok_set [simp, intro]: "dict_ok d \<Longrightarrow> dict_ok (dict_set k v d)"
  by (simp add: dict_ok_def distinct_update)

lemma dict_get_set [simp]:
  "dict_get (dict_set k v d) k' = (if k' = k then Some v else dict_get d k')"
  by (simp add: update_conv')

lemma dict_set_fresh: "dict_get d k = None \<Longrightarrow> dict_set k v d = d @ [(k, v)]"
  by (induction d) (auto split: if_splits)

lemma dict_set_split:
  assumes "dict_ok d" and "dict_get d k = Some w"
  obtains pre post where "d = pre @ (k, w) # post" and "dict_set k v d = pre @ (k, v) # post"
    and "k \<notin> fst ` set pre" and "k \<notin> fst ` set post"
proof -
  have "\<exists>pre post. d = pre @ (k, w) # post \<and> dict_set k v d = pre @ (k, v) # post
      \<and> k \<notin> fst ` set pre \<and> k \<notin> fst ` set post"
    using assms
  proof (induction d)
    case Nil
    then show ?case by simp
  next
    case (Cons p d)
    show ?case
    proof (cases "fst p = k")
      case True
      with Cons.prems have "p # d = [] @ (k, w) # d" and "k \<notin> fst ` set d"
        by (auto simp: dict_ok_def)
      moreover from True have "dict_set k v (p # d) = [] @ (k, v) # d" by (cases p) simp
      ultimately show ?thesis by (intro exI[of _ "[]"] exI[of _ d]) simp
    next
      case False
      with Cons obtain pre post where *: "d = pre @ (k, w) # post"
        "dict_set k v d = pre @ (k, v) # post" "k \<notin> fst ` set pre" "k \<notin> fst ` set post"
        by (auto simp: dict_ok_def split: if_splits)
      with False show ?thesis
        by (intro exI[of _ "p # pre"] exI[of _ post]) (cases p, simp)
    qed
  qed
  then show ?thesis using that by blast
qed

lemma dict_get_in: "dict_get d k = Some v \<Longrightarrow> (k, v) \<in> set d"
  by (rule map_of_SomeD)

lemma dict_in_get: "dict_ok d \<Longrightarrow> (k, v) \<in> set d \<Longrightarrow> dict_get d k = Some v"
  by (simp add: dict_ok_def)

lemma dict_set_in:
  assumes "dict_ok d"
  shows "(j, u) \<in> set (dict_set k v d) \<longleftrightarrow> (if j = k then u = v else (j, u) \<in> set d)"
  using assms
  by (metis dict_get_in dict_get_set dict_in_get dict_ok_set option.inject)

lemma dict_set_length:
  "length (dict_set k v d) = (if dict_get d k = None then Suc (length d) else length d)"
  by (induction d) auto

text \<open>Sums and counts over the values of a dictionary, before and after an assignment.\<close>

lemma sum_list_dict_set_fresh:
  "dict_get d k = None \<Longrightarrow>
    sum_list (map f (dict_values (dict_set k v d))) =
      sum_list (map f (dict_values d)) + (f v :: 'n :: comm_monoid_add)"
  by (simp add: dict_set_fresh dict_values_def)

lemma sum_list_dict_set_old:
  assumes "dict_ok d" and "dict_get d k = Some w"
  shows "sum_list (map f (dict_values (dict_set k v d))) + f w =
    sum_list (map f (dict_values d)) + (f v :: 'n :: comm_monoid_add)"
  by (rule dict_set_split[OF assms, of v]) (simp add: dict_values_def algebra_simps)

lemma filter_length_dict_set_old:
  assumes "dict_ok d" and "dict_get d k = Some w"
  shows "length (filter P (dict_values (dict_set k v d))) + of_bool (P w) =
    length (filter P (dict_values d)) + of_bool (P v)"
  by (rule dict_set_split[OF assms, of v]) (simp add: dict_values_def)

lemma dict_values_get:
  assumes "dict_ok d"
  shows "v \<in> set (dict_values d) \<longleftrightarrow> (\<exists>k. dict_get d k = Some v)"
  using dict_in_get[OF assms] by (force simp: dict_values_def dest: dict_get_in)

section \<open>Python strings and lists\<close>

definition py_space :: "char \<Rightarrow> bool" where
  "py_space c \<longleftrightarrow> (let n = of_char c :: nat in
     (9 \<le> n \<and> n \<le> 13) \<or> (28 \<le> n \<and> n \<le> 32) \<or> n = 133 \<or> n = 160)"

definition strip :: "string \<Rightarrow> string" where
  "strip s = rev (dropWhile py_space (rev (dropWhile py_space s)))"

definition lower_char :: "char \<Rightarrow> char" where
  "lower_char c = (let n = of_char c :: nat in
     if (65 \<le> n \<and> n \<le> 90) \<or> (192 \<le> n \<and> n \<le> 222 \<and> n \<noteq> 215)
     then char_of (n + 32) else c)"

definition lower :: "string \<Rightarrow> string" where
  "lower s = map lower_char s"

definition starts_with :: "string \<Rightarrow> string \<Rightarrow> bool" where
  "starts_with s p \<longleftrightarrow> take (length p) s = p"

fun str_contains :: "string \<Rightarrow> string \<Rightarrow> bool" where
  "str_contains [] p \<longleftrightarrow> p = []"
| "str_contains (c # s) p \<longleftrightarrow> starts_with (c # s) p \<or> str_contains s p"

text \<open>The slice \<open>xs[:n]\<close>: a negative bound counts from the end.\<close>

definition py_upto :: "int \<Rightarrow> 'a list \<Rightarrow> 'a list" where
  "py_upto n xs = (if 0 \<le> n then take (nat n) xs else take (nat (int (length xs) + n)) xs)"

lemma set_py_upto: "set (py_upto n xs) \<subseteq> set xs"
  by (simp add: py_upto_def set_take_subset)

lemma length_py_upto: "0 \<le> n \<Longrightarrow> int (length (py_upto n xs)) \<le> n"
  by (simp add: py_upto_def)

text \<open>\<open>dict.fromkeys(xs)\<close>: the first occurrence of each element, in order.\<close>

fun dedup_from :: "'a list \<Rightarrow> 'a list \<Rightarrow> 'a list" where
  "dedup_from seen [] = []"
| "dedup_from seen (x # xs) =
     (if x \<in> set seen then dedup_from seen xs else x # dedup_from (seen @ [x]) xs)"

definition dedup :: "'a list \<Rightarrow> 'a list" where
  "dedup xs = dedup_from [] xs"

lemma set_dedup_from: "set (dedup_from seen xs) = set xs - set seen"
  by (induction seen xs rule: dedup_from.induct) auto

lemma distinct_dedup_from: "distinct (dedup_from seen xs)"
  by (induction seen xs rule: dedup_from.induct) (auto simp: set_dedup_from)

lemma set_dedup [simp]: "set (dedup xs) = set xs"
  by (simp add: dedup_def set_dedup_from)

lemma distinct_dedup [simp]: "distinct (dedup xs)"
  by (simp add: dedup_def distinct_dedup_from)

text \<open>\<open>min(xs, key=f)\<close>: the first element whose key is least.\<close>

fun min_by :: "('a \<Rightarrow> 'k :: linorder) \<Rightarrow> 'a \<Rightarrow> 'a list \<Rightarrow> 'a" where
  "min_by f b [] = b"
| "min_by f b (x # xs) = min_by f (if f x < f b then x else b) xs"

lemma min_by_in: "min_by f b xs \<in> insert b (set xs)"
  by (induction f b xs rule: min_by.induct) auto

lemma min_by_le_acc: "f (min_by f b xs) \<le> f b"
proof (induction f b xs rule: min_by.induct)
  case (2 f b x xs)
  then show ?case by (cases "f x < f b") auto
qed simp

lemma min_by_le: "y \<in> insert b (set xs) \<Longrightarrow> f (min_by f b xs) \<le> f y"
proof (induction f b xs rule: min_by.induct)
  case (1 f b)
  then show ?case by simp
next
  case (2 f b x xs)
  have le: "f (min_by f (if f x < f b then x else b) xs) \<le> f (if f x < f b then x else b)"
    by (rule min_by_le_acc)
  from 2 le show ?case by (auto split: if_splits intro: order_trans)
qed

section \<open>JSON values\<close>

text \<open>What \<open>json.loads\<close> returns: \<open>None\<close>, booleans, numbers, strings, lists and string-keyed
  dictionaries.\<close>

datatype json =
  JNull
| JBool bool
| JInt int
| JFloat rat
| JStr string
| JList "json list"
| JObj "(string \<times> json) list"

section \<open>Results\<close>

text \<open>A raised exception is \<open>Inl\<close>, a returned value \<open>Inr\<close>; \<open>res_bind\<close> is what
  happens at the end of a statement: an exception skips the rest.\<close>

definition res_bind :: "'e + 'a \<Rightarrow> ('a \<Rightarrow> 'e + 'b) \<Rightarrow> 'e + 'b" where
  "res_bind r f = (case r of Inl e \<Rightarrow> Inl e | Inr x \<Rightarrow> f x)"

lemma res_bind_simps [simp]: "res_bind (Inl e) f = Inl e" "res_bind (Inr x) f = f x"
  by (simp_all add: res_bind_def)

lemma res_bind_Inr [result_elims]: "res_bind r f = Inr y \<longleftrightarrow> (\<exists>x. r = Inr x \<and> f x = Inr y)"
  by (cases r) auto

lemma res_bind_Inl: "res_bind r f = Inl e \<longleftrightarrow> r = Inl e \<or> (\<exists>x. r = Inr x \<and> f x = Inl e)"
  by (cases r) auto

text \<open>A list comprehension whose body may raise.\<close>

fun res_map :: "('a \<Rightarrow> 'e + 'b) \<Rightarrow> 'a list \<Rightarrow> 'e + 'b list" where
  "res_map f [] = Inr []"
| "res_map f (x # xs) = res_bind (f x) (\<lambda>y. res_bind (res_map f xs) (\<lambda>ys. Inr (y # ys)))"

lemma res_map_cong [fundef_cong]:
  "xs = ys \<Longrightarrow> (\<And>x. x \<in> set ys \<Longrightarrow> f x = g x) \<Longrightarrow> res_map f xs = res_map g ys"
  by (induction xs arbitrary: ys) auto

lemma res_map_map: "(\<And>x. x \<in> set xs \<Longrightarrow> f (g x) = Inr x) \<Longrightarrow> res_map f (map g xs) = Inr xs"
  by (induction xs) auto

lemma res_map_Inr_length: "res_map f xs = Inr ys \<Longrightarrow> length ys = length xs"
  by (induction xs arbitrary: ys) (auto simp: res_bind_Inr)

section \<open>Runs of a component\<close>

fun run :: "('s \<Rightarrow> 'e \<Rightarrow> 's) \<Rightarrow> 's \<Rightarrow> 'e list \<Rightarrow> 's" where
  "run step s [] = s"
| "run step s (e # es) = run step (step s e) es"

lemma run_append: "run step s (es @ fs) = run step (run step s es) fs"
  by (induction es arbitrary: s) auto

lemma run_snoc: "run step s (es @ [e]) = step (run step s es) e"
  by (simp add: run_append)

text \<open>
  A component is a step function and an invariant that each step keeps (for the events the
  component's callers may issue).
\<close>

locale machine =
  fixes step :: "'s \<Rightarrow> 'e \<Rightarrow> 's"
    and inv :: "'s \<Rightarrow> bool"
    and ok :: "'e \<Rightarrow> bool"
  assumes inv_step: "inv s \<Longrightarrow> ok e \<Longrightarrow> inv (step s e)"
begin

lemma inv_run: "inv s \<Longrightarrow> list_all ok es \<Longrightarrow> inv (run step s es)"
  by (induction es arbitrary: s) (auto intro: inv_step)

lemma run_keeps:
  assumes "\<And>s e. inv s \<Longrightarrow> ok e \<Longrightarrow> P s \<Longrightarrow> P (step s e)"
  shows "inv s \<Longrightarrow> list_all ok es \<Longrightarrow> P s \<Longrightarrow> P (run step s es)"
  using assms by (induction es arbitrary: s) (auto intro: inv_step)

end

text \<open>A component with a counter that no step decreases: a version, a generation, a fence.\<close>

locale ranked_machine = machine +
  fixes rank :: "'s \<Rightarrow> 'r :: preorder"
  assumes rank_step: "inv s \<Longrightarrow> ok e \<Longrightarrow> rank s \<le> rank (step s e)"
begin

lemma rank_run: "inv s \<Longrightarrow> list_all ok es \<Longrightarrow> rank s \<le> rank (run step s es)"
proof (induction es arbitrary: s)
  case (Cons e es)
  then have "rank s \<le> rank (step s e)" and "inv (step s e)"
    by (auto intro: rank_step inv_step)
  moreover from Cons have "rank (step s e) \<le> rank (run step (step s e) es)"
    using \<open>inv (step s e)\<close> by simp
  ultimately show ?case by (auto intro: order_trans)
qed simp

end

end
