(* ===== verification/Circuit.thy ===== *)
theory Circuit
  imports Prelude
begin

text \<open>
  The process-local model circuit breaker (\<open>src/open_deep_research/models/circuit.py\<close>).

  A \<open>breaker\<close> is one \<open>ModelCircuitBreaker\<close>: its sliding windows, its three-state circuit, its
  generation counter. Each method is a function of the clock reading \<open>now\<close> it takes under the
  breaker's lock; \<open>circuit_step\<close> is any sequence of them, with arbitrary (also stale) permits.
  The registry maps a normalised model id to its breaker. \<open>fp\<close> stands for the SHA-256 digest
  of the policy's canonical JSON (\<open>ModelCircuitPolicy.fingerprint\<close>).
\<close>

section \<open>Policies, permits and observations\<close>

datatype circuit_state = CLOSED | OPEN | HALF_OPEN

datatype circuit_failure_kind = CF_MODEL_UNAVAILABLE | CF_RATE_LIMITED | CF_TRANSIENT

fun circuit_failure_value :: "circuit_failure_kind \<Rightarrow> string" where
  "circuit_failure_value CF_MODEL_UNAVAILABLE = ''model_unavailable''"
| "circuit_failure_value CF_RATE_LIMITED = ''rate_limited''"
| "circuit_failure_value CF_TRANSIENT = ''transient''"

record circuit_policy =
  failure_threshold :: int
  failure_window_seconds :: seconds
  open_cooldown_seconds :: seconds
  max_cooldown_seconds :: seconds
  slow_ratio_threshold :: rat
  slow_min_samples :: int
  first_packet_probe :: string
  slow_first_packet_threshold_seconds :: seconds

definition default_circuit_policy :: circuit_policy where
  "default_circuit_policy = \<lparr>failure_threshold = 5, failure_window_seconds = 300,
     open_cooldown_seconds = 60, max_cooldown_seconds = 600, slow_ratio_threshold = 1 / 2,
     slow_min_samples = 4, first_packet_probe = ''shadow'',
     slow_first_packet_threshold_seconds = 8\<rparr>"

record circuit_permit =
  permit_model_id :: string
  permit_generation :: nat
  is_probe :: bool

record circuit_open_error =
  err_model_id :: string
  err_state :: circuit_state
  err_retry_after :: "seconds option"
  err_reason :: string

record circuit_transition =
  tr_model_id :: string
  tr_from :: circuit_state
  tr_to :: circuit_state
  tr_reason :: string
  tr_timestamp :: seconds
  tr_failure_count :: nat
  tr_slow_count :: nat
  tr_sample_count :: nat
  tr_slow_ratio :: rat
  tr_cooldown :: seconds
  tr_forced_probe :: bool

record circuit_snapshot =
  snap_model_id :: string
  snap_state :: circuit_state
  snap_fingerprint :: string
  snap_failure_count :: nat
  snap_slow_count :: nat
  snap_sample_count :: nat
  snap_slow_ratio :: rat
  snap_opened_at :: "seconds option"
  snap_cooldown :: seconds
  snap_retry_after :: "seconds option"
  snap_probe_in_flight :: bool

text \<open>\<open>ModelCircuitSnapshot.rejecting\<close>\<close>

definition snap_rejecting :: "circuit_snapshot \<Rightarrow> bool" where
  "snap_rejecting s =
     (case snap_state s of
        HALF_OPEN \<Rightarrow> snap_probe_in_flight s
      | OPEN \<Rightarrow> (case snap_retry_after s of None \<Rightarrow> True | Some r \<Rightarrow> r > 0)
      | CLOSED \<Rightarrow> False)"

section \<open>The breaker\<close>

record breaker =
  br_model_id :: string
  br_policy :: circuit_policy
  br_state :: circuit_state
  br_failures :: "seconds list"
  br_slow_samples :: "(seconds \<times> bool) list"
  br_opened_at :: "seconds option"
  br_cooldown :: seconds
  br_reopens :: nat
  br_generation :: nat
  br_probe_in_flight :: bool

definition new_breaker :: "string \<Rightarrow> circuit_policy \<Rightarrow> breaker" where
  "new_breaker m p = \<lparr>br_model_id = m, br_policy = p, br_state = CLOSED, br_failures = [],
     br_slow_samples = [], br_opened_at = None, br_cooldown = open_cooldown_seconds p,
     br_reopens = 0, br_generation = 0, br_probe_in_flight = False\<rparr>"

definition policy_matches :: "(circuit_policy \<Rightarrow> string) \<Rightarrow> circuit_policy \<Rightarrow> breaker \<Rightarrow> bool" where
  "policy_matches fp p b \<longleftrightarrow> fp (br_policy b) = fp p"

definition prune :: "seconds \<Rightarrow> breaker \<Rightarrow> breaker" where
  "prune now b =
     (let cutoff = now - failure_window_seconds (br_policy b) in
      b\<lparr>br_failures := dropWhile (\<lambda>t. t < cutoff) (br_failures b),
        br_slow_samples := dropWhile (\<lambda>s. fst s < cutoff) (br_slow_samples b)\<rparr>)"

text \<open>\<open>_counts\<close>: failures, slow samples, samples, and the share of slow samples.\<close>

definition slow_count :: "breaker \<Rightarrow> nat" where
  "slow_count b = length (filter snd (br_slow_samples b))"

definition slow_ratio :: "breaker \<Rightarrow> rat" where
  "slow_ratio b =
     (if br_slow_samples b = [] then 0
      else of_nat (slow_count b) / of_nat (length (br_slow_samples b)))"

definition transition ::
    "breaker \<Rightarrow> circuit_state \<Rightarrow> circuit_state \<Rightarrow> string \<Rightarrow> seconds \<Rightarrow> bool \<Rightarrow> circuit_transition" where
  "transition b from to reason now forced =
     \<lparr>tr_model_id = br_model_id b, tr_from = from, tr_to = to, tr_reason = reason,
      tr_timestamp = now, tr_failure_count = length (br_failures b),
      tr_slow_count = slow_count b, tr_sample_count = length (br_slow_samples b),
      tr_slow_ratio = slow_ratio b, tr_cooldown = br_cooldown b, tr_forced_probe = forced\<rparr>"

definition open_circuit ::
    "string \<Rightarrow> seconds \<Rightarrow> circuit_state \<Rightarrow> bool \<Rightarrow> breaker \<Rightarrow> circuit_transition option \<times> breaker" where
  "open_circuit reason now from probe_failure b =
     (let b1 = (if probe_failure
                then b\<lparr>br_reopens := br_reopens b + 1,
                       br_cooldown := min (max_cooldown_seconds (br_policy b))
                         (open_cooldown_seconds (br_policy b) * 2 ^ (br_reopens b + 1))\<rparr>
                else b\<lparr>br_cooldown := open_cooldown_seconds (br_policy b)\<rparr>);
          b2 = b1\<lparr>br_state := OPEN, br_opened_at := Some now, br_probe_in_flight := False,
                  br_generation := br_generation b + 1\<rparr>
      in (Some (transition b2 from OPEN reason now False), b2))"

definition retry_after :: "seconds \<Rightarrow> breaker \<Rightarrow> seconds" where
  "retry_after now b =
     (let opened_at = (case br_opened_at b of Some t \<Rightarrow> t | None \<Rightarrow> now)
      in max 0 (br_cooldown b - (now - opened_at)))"

definition before_call ::
    "seconds \<Rightarrow> breaker \<Rightarrow>
      (circuit_open_error + circuit_permit \<times> circuit_transition option) \<times> breaker" where
  "before_call now b0 =
     (let b = prune now b0 in
      case br_state b of
        OPEN \<Rightarrow>
          if retry_after now b > 0
          then (Inl \<lparr>err_model_id = br_model_id b, err_state = OPEN,
                     err_retry_after = Some (retry_after now b),
                     err_reason = ''cooldown_active''\<rparr>, b)
          else
            (let b' = b\<lparr>br_state := HALF_OPEN, br_probe_in_flight := True,
                        br_generation := br_generation b + 1\<rparr>
             in (Inr (\<lparr>permit_model_id = br_model_id b, permit_generation = br_generation b',
                       is_probe = True\<rparr>,
                      Some (transition b' OPEN HALF_OPEN ''cooldown_elapsed'' now False)), b'))
      | HALF_OPEN \<Rightarrow>
          if br_probe_in_flight b
          then (Inl \<lparr>err_model_id = br_model_id b, err_state = HALF_OPEN,
                     err_retry_after = None, err_reason = ''half_open_probe_in_flight''\<rparr>, b)
          else (Inr (\<lparr>permit_model_id = br_model_id b, permit_generation = br_generation b,
                      is_probe = True\<rparr>, None), b\<lparr>br_probe_in_flight := True\<rparr>)
      | CLOSED \<Rightarrow>
          (Inr (\<lparr>permit_model_id = br_model_id b, permit_generation = br_generation b,
                 is_probe = False\<rparr>, None), b))"

definition force_half_open ::
    "seconds \<Rightarrow> breaker \<Rightarrow> circuit_transition option \<times> breaker" where
  "force_half_open now b0 =
     (let b = prune now b0 in
      if br_state b \<noteq> OPEN then (None, b)
      else
        (let b' = b\<lparr>br_state := HALF_OPEN, br_probe_in_flight := False,
                    br_generation := br_generation b + 1\<rparr>
         in (Some (transition b' OPEN HALF_OPEN ''all_candidates_open'' now True), b')))"

definition permit_current :: "circuit_permit \<Rightarrow> breaker \<Rightarrow> bool" where
  "permit_current p b \<longleftrightarrow>
     permit_model_id p = br_model_id b \<and> permit_generation p = br_generation b"

definition record_success ::
    "seconds \<Rightarrow> circuit_permit \<Rightarrow> seconds option \<Rightarrow> breaker \<Rightarrow>
      circuit_transition option \<times> breaker" where
  "record_success now p ttft b0 =
     (let b = prune now b0; pol = br_policy b in
      if \<not> permit_current p b then (None, b)
      else if is_probe p \<and> br_state b = HALF_OPEN then
        (let b' = b\<lparr>br_failures := [], br_slow_samples := [], br_state := CLOSED,
                    br_opened_at := None, br_probe_in_flight := False, br_reopens := 0,
                    br_cooldown := open_cooldown_seconds pol,
                    br_generation := br_generation b + 1\<rparr>
         in (Some (transition b' HALF_OPEN CLOSED ''probe_succeeded'' now False), b'))
      else if br_state b \<noteq> CLOSED then (None, b)
      else
        (let b1 = (case ttft of
                     None \<Rightarrow> b
                   | Some t \<Rightarrow> b\<lparr>br_slow_samples := br_slow_samples b @
                       [(now, t > slow_first_packet_threshold_seconds pol)]\<rparr>)
         in if first_packet_probe pol \<noteq> ''enforced'' then (None, b1)
            else if int (length (br_slow_samples b1)) \<ge> slow_min_samples pol
                 \<and> slow_ratio b1 \<ge> slow_ratio_threshold pol \<and> slow_count b1 > 0
            then open_circuit ''slow_first_packet_ratio'' now CLOSED False b1
            else (None, b1)))"

definition record_failure ::
    "seconds \<Rightarrow> circuit_permit \<Rightarrow> circuit_failure_kind \<Rightarrow> breaker \<Rightarrow>
      circuit_transition option \<times> breaker" where
  "record_failure now p kind b0 =
     (let b = prune now b0 in
      if \<not> permit_current p b then (None, b)
      else
        (let b1 = b\<lparr>br_failures := br_failures b @ [now]\<rparr> in
         if is_probe p \<and> br_state b1 = HALF_OPEN
         then open_circuit (''probe_failed:'' @ circuit_failure_value kind) now HALF_OPEN True b1
         else if br_state b1 = CLOSED
              \<and> int (length (br_failures b1)) \<ge> failure_threshold (br_policy b1)
         then open_circuit (''failure_threshold:'' @ circuit_failure_value kind) now CLOSED False b1
         else (None, b1)))"

definition record_inconclusive ::
    "seconds \<Rightarrow> circuit_permit \<Rightarrow> breaker \<Rightarrow> circuit_transition option \<times> breaker" where
  "record_inconclusive now p b0 =
     (let b = prune now b0 in
      if \<not> permit_current p b then (None, b)
      else if \<not> is_probe p \<or> br_state b \<noteq> HALF_OPEN then (None, b)
      else
        (let b' = b\<lparr>br_state := OPEN, br_opened_at := Some now, br_probe_in_flight := False,
                    br_generation := br_generation b + 1\<rparr>
         in (Some (transition b' HALF_OPEN OPEN ''probe_inconclusive'' now False), b')))"

definition breaker_snapshot ::
    "(circuit_policy \<Rightarrow> string) \<Rightarrow> seconds \<Rightarrow> breaker \<Rightarrow> circuit_snapshot \<times> breaker" where
  "breaker_snapshot fp now b0 =
     (let b = prune now b0 in
      (\<lparr>snap_model_id = br_model_id b, snap_state = br_state b,
        snap_fingerprint = fp (br_policy b), snap_failure_count = length (br_failures b),
        snap_slow_count = slow_count b, snap_sample_count = length (br_slow_samples b),
        snap_slow_ratio = slow_ratio b, snap_opened_at = br_opened_at b,
        snap_cooldown = br_cooldown b,
        snap_retry_after = (if br_state b = OPEN then Some (retry_after now b) else None),
        snap_probe_in_flight = br_probe_in_flight b\<rparr>, b))"

section \<open>One-step facts\<close>

lemma prune_simps [simp]:
  "br_model_id (prune now b) = br_model_id b"
  "br_policy (prune now b) = br_policy b"
  "br_state (prune now b) = br_state b"
  "br_opened_at (prune now b) = br_opened_at b"
  "br_cooldown (prune now b) = br_cooldown b"
  "br_reopens (prune now b) = br_reopens b"
  "br_generation (prune now b) = br_generation b"
  "br_probe_in_flight (prune now b) = br_probe_in_flight b"
  "permit_current p (prune now b) = permit_current p b"
  "retry_after t (prune now b) = retry_after t b"
  by (simp_all add: prune_def Let_def permit_current_def retry_after_def)

lemma prune_failures:
  "br_failures (prune now b) =
     dropWhile (\<lambda>t. t < now - failure_window_seconds (br_policy b)) (br_failures b)"
  by (simp add: prune_def Let_def)

lemma length_prune_failures: "length (br_failures (prune now b)) \<le> length (br_failures b)"
  by (simp add: prune_failures length_dropWhile_le)

lemmas breaker_op_defs =
  before_call_def force_half_open_def record_success_def record_failure_def
  record_inconclusive_def breaker_snapshot_def open_circuit_def Let_def

section \<open>Sequences of operations\<close>

text \<open>Any caller may interleave the breaker's methods, with permits of any generation.\<close>

datatype circuit_event =
  BeforeCall
| ForceHalfOpen
| RecordSuccess circuit_permit "seconds option"
| RecordFailure circuit_permit circuit_failure_kind
| RecordInconclusive circuit_permit
| TakeSnapshot

fun circuit_step :: "breaker \<Rightarrow> seconds \<times> circuit_event \<Rightarrow> breaker" where
  "circuit_step b (now, BeforeCall) = snd (before_call now b)"
| "circuit_step b (now, ForceHalfOpen) = snd (force_half_open now b)"
| "circuit_step b (now, RecordSuccess p ttft) = snd (record_success now p ttft b)"
| "circuit_step b (now, RecordFailure p k) = snd (record_failure now p k b)"
| "circuit_step b (now, RecordInconclusive p) = snd (record_inconclusive now p b)"
| "circuit_step b (now, TakeSnapshot) = snd (breaker_snapshot (\<lambda>_. []) now b)"

text \<open>
  The invariant of one breaker: an open circuit knows when it opened; only a half-open circuit
  has a probe in flight; the cool-down is the policy's base, doubled once per failed probe in a
  row and capped; a closed circuit has forgotten the back-off and holds fewer failures than the
  threshold.
\<close>

definition cooldown_after :: "circuit_policy \<Rightarrow> nat \<Rightarrow> seconds" where
  "cooldown_after p k =
     (if k = 0 then open_cooldown_seconds p
      else min (max_cooldown_seconds p) (open_cooldown_seconds p * 2 ^ k))"

definition breaker_inv :: "breaker \<Rightarrow> bool" where
  "breaker_inv b \<longleftrightarrow>
     (br_state b = OPEN \<longrightarrow> br_opened_at b \<noteq> None) \<and>
     (br_probe_in_flight b \<longrightarrow> br_state b = HALF_OPEN) \<and>
     br_cooldown b = cooldown_after (br_policy b) (br_reopens b) \<and>
     (br_state b = CLOSED \<longrightarrow> br_reopens b = 0 \<and> br_opened_at b = None) \<and>
     (br_state b = CLOSED \<longrightarrow> int (length (br_failures b)) < failure_threshold (br_policy b))"

lemma breaker_inv_new: "0 < failure_threshold p \<Longrightarrow> breaker_inv (new_breaker m p)"
  by (simp add: breaker_inv_def new_breaker_def cooldown_after_def)

lemma breaker_inv_prune: "breaker_inv b \<Longrightarrow> breaker_inv (prune now b)"
  using length_prune_failures[of now b] by (auto simp: breaker_inv_def)

lemma breaker_inv_open:
  assumes "breaker_inv b \<or> (br_cooldown b = cooldown_after (br_policy b) (br_reopens b))"
    and "\<not> pf \<Longrightarrow> br_reopens b = 0"
  shows "breaker_inv (snd (open_circuit r now f pf b))"
  using assms by (auto simp: breaker_inv_def open_circuit_def Let_def cooldown_after_def)

lemma before_call_inv: "breaker_inv b \<Longrightarrow> breaker_inv (snd (before_call now b))"
  using breaker_inv_prune[of b now]
  by (auto simp: before_call_def Let_def breaker_inv_def split: circuit_state.splits)

lemma force_half_open_inv: "breaker_inv b \<Longrightarrow> breaker_inv (snd (force_half_open now b))"
  using breaker_inv_prune[of b now]
  by (auto simp: force_half_open_def Let_def breaker_inv_def)

lemma record_inconclusive_inv: "breaker_inv b \<Longrightarrow> breaker_inv (snd (record_inconclusive now p b))"
  using breaker_inv_prune[of b now]
  by (auto simp: record_inconclusive_def Let_def breaker_inv_def)

lemma record_failure_inv: "breaker_inv b \<Longrightarrow> breaker_inv (snd (record_failure now p k b))"
  using breaker_inv_prune[of b now]
  by (auto simp: record_failure_def Let_def breaker_inv_def open_circuit_def cooldown_after_def)

lemma record_success_inv:
  assumes "breaker_inv b" and "0 < failure_threshold (br_policy b)"
  shows "breaker_inv (snd (record_success now p t b))"
  using breaker_inv_prune[OF assms(1), of now] assms(2)
  by (auto simp: record_success_def Let_def breaker_inv_def open_circuit_def cooldown_after_def
      split: option.splits)

lemma circuit_step_policy [simp]: "br_policy (circuit_step b e) = br_policy b"
  by (cases e; cases "snd e")
    (auto simp: breaker_op_defs split: circuit_state.splits option.splits)

lemma circuit_step_model_id [simp]: "br_model_id (circuit_step b e) = br_model_id b"
  by (cases e; cases "snd e")
    (auto simp: breaker_op_defs split: circuit_state.splits option.splits)

lemma circuit_step_inv:
  assumes "breaker_inv b" and "0 < failure_threshold (br_policy b)"
  shows "breaker_inv (circuit_step b e)"
proof (cases e)
  case (Pair now a)
  with assms show ?thesis
    by (cases a) (simp_all add: before_call_inv force_half_open_inv record_success_inv
        record_failure_inv record_inconclusive_inv breaker_inv_prune breaker_snapshot_def Let_def)
qed

text \<open>
  \<open>next_probe b\<close> is a lower bound of the generation of the next probe permit: it never
  decreases, and granting a probe raises it above the granted generation.
\<close>

definition next_probe :: "breaker \<Rightarrow> nat" where
  "next_probe b = (if br_probe_in_flight b then br_generation b + 1 else br_generation b)"

lemma circuit_step_next_probe: "next_probe b \<le> next_probe (circuit_step b e)"
  by (cases e; cases "snd e")
    (auto simp: breaker_op_defs next_probe_def split: circuit_state.splits option.splits)

lemma circuit_step_generation: "br_generation b \<le> br_generation (circuit_step b e)"
  by (cases e; cases "snd e")
    (auto simp: breaker_op_defs split: circuit_state.splits option.splits)

definition breaker_ok :: "breaker \<Rightarrow> bool" where
  "breaker_ok b \<longleftrightarrow> breaker_inv b \<and> 0 < failure_threshold (br_policy b)"

interpretation circuit: ranked_machine circuit_step breaker_ok "\<lambda>_. True" next_probe
  by unfold_locales
    (simp_all add: breaker_ok_def circuit_step_inv circuit_step_next_probe)

lemma breaker_ok_new: "0 < failure_threshold p \<Longrightarrow> breaker_ok (new_breaker m p)"
  by (simp add: breaker_ok_def breaker_inv_new) (simp add: new_breaker_def)

lemma run_policy [simp]: "br_policy (run circuit_step b es) = br_policy b"
  by (induction es arbitrary: b) simp_all

text \<open>The probe permits a run grants, in order.\<close>

definition granted_probe :: "breaker \<Rightarrow> seconds \<times> circuit_event \<Rightarrow> nat list" where
  "granted_probe b e =
     (if snd e = BeforeCall
      then (case fst (before_call (fst e) b) of
              Inl _ \<Rightarrow> []
            | Inr (p, _) \<Rightarrow> if is_probe p then [permit_generation p] else [])
      else [])"

fun granted_probes :: "breaker \<Rightarrow> (seconds \<times> circuit_event) list \<Rightarrow> nat list" where
  "granted_probes b [] = []"
| "granted_probes b (e # es) = granted_probe b e @ granted_probes (circuit_step b e) es"

lemma granted_probe_eq:
  "granted_probe b (now, a) =
     (if a = BeforeCall \<and> br_state b = OPEN \<and> retry_after now b \<le> 0 then [br_generation b + 1]
      else if a = BeforeCall \<and> br_state b = HALF_OPEN \<and> \<not> br_probe_in_flight b
      then [br_generation b] else [])"
  by (cases "br_state b") (simp_all add: granted_probe_def before_call_def Let_def)

lemma granted_probe_bounds:
  "g \<in> set (granted_probe b e) \<Longrightarrow> next_probe b \<le> g \<and> g < next_probe (circuit_step b e)"
  by (cases e)
    (auto simp: granted_probe_eq before_call_def next_probe_def Let_def split: if_splits)

lemma granted_probe_cases: "granted_probe b e = [] \<or> (\<exists>g. granted_probe b e = [g])"
  by (auto simp: granted_probe_def split: sum.splits)

lemma granted_probes_ge:
  "g \<in> set (granted_probes b es) \<Longrightarrow> next_probe b \<le> g"
proof (induction es arbitrary: b)
  case (Cons e es)
  then show ?case
    using granted_probe_bounds[of g b e] circuit_step_next_probe[of b e]
    by (auto intro: order_trans)
qed simp

section \<open>Properties\<close>

text \<open>A breaker created for a policy with a positive failure threshold satisfies its
  invariant after any sequence of method calls at any clock readings, with any permits.\<close>

lemma breaker_run_inv:
  "0 < failure_threshold p \<Longrightarrow> breaker_inv (run circuit_step (new_breaker m p) es)"
  using circuit.inv_run[OF breaker_ok_new[of p m], of es] by (simp add: breaker_ok_def list_all_iff)

text \<open>C27. Two probe permits are never granted for the same generation: along any run the
  generations of the granted probes strictly increase.\<close>

theorem probes_unique: "sorted_wrt (<) (granted_probes b es)"
proof (induction es arbitrary: b)
  case (Cons e es)
  have "\<forall>g \<in> set (granted_probe b e). \<forall>h \<in> set (granted_probes (circuit_step b e) es). g < h"
    using granted_probe_bounds[of _ b e] granted_probes_ge[of _ "circuit_step b e" es]
    by (meson less_le_trans)
  moreover have "sorted_wrt (<) (granted_probe b e)"
    using granted_probe_cases[of b e] by auto
  ultimately show ?case using Cons by (simp add: sorted_wrt_append)
qed simp

text \<open>A breaker that trips on the second failure, used by the witnesses.\<close>

definition small_policy :: circuit_policy where
  "small_policy = default_circuit_policy\<lparr>failure_threshold := 2\<rparr>"

definition small_breaker :: breaker where
  "small_breaker = new_breaker ''m'' small_policy"

definition small_permit :: circuit_permit where
  "small_permit = \<lparr>permit_model_id = ''m'', permit_generation = 0, is_probe = False\<rparr>"

lemmas small_defs = small_policy_def small_breaker_def small_permit_def
  default_circuit_policy_def new_breaker_def

lemma breaker_run_inv_witness:
  "0 < failure_threshold small_policy \<and>
   breaker_inv (run circuit_step (new_breaker ''m'' small_policy)
     [(1, BeforeCall), (2, RecordFailure small_permit CF_TRANSIENT),
      (3, RecordFailure small_permit CF_TRANSIENT), (70, BeforeCall)])"
proof -
  have h: "0 < failure_threshold small_policy" by (simp add: small_defs)
  show ?thesis using h breaker_run_inv[OF h] by blast
qed

text \<open>The probe permit an open circuit grants, and the breaker right after granting it.\<close>

definition probe_permit :: "breaker \<Rightarrow> circuit_permit" where
  "probe_permit b = \<lparr>permit_model_id = br_model_id b, permit_generation = br_generation b + 1,
     is_probe = True\<rparr>"

definition probing :: "seconds \<Rightarrow> breaker \<Rightarrow> breaker" where
  "probing now b = (prune now b)\<lparr>br_state := HALF_OPEN, br_probe_in_flight := True,
     br_generation := br_generation b + 1\<rparr>"

lemma before_call_open:
  "br_state b = OPEN \<Longrightarrow> br_opened_at b = Some t \<Longrightarrow>
     before_call now b =
       (if now < t + br_cooldown b
        then (Inl \<lparr>err_model_id = br_model_id b, err_state = OPEN,
                err_retry_after = Some (t + br_cooldown b - now),
                err_reason = ''cooldown_active''\<rparr>, prune now b)
        else (Inr (probe_permit b,
                Some (transition (probing now b) OPEN HALF_OPEN ''cooldown_elapsed'' now False)),
              probing now b))"
  by (simp add: before_call_def retry_after_def Let_def max_def probe_permit_def probing_def)

lemma probing_simps [simp]:
  "br_state (probing now b) = HALF_OPEN"
  "br_probe_in_flight (probing now b) = True"
  "fst (before_call now' (probing now b)) = Inl \<lparr>err_model_id = br_model_id b,
     err_state = HALF_OPEN, err_retry_after = None, err_reason = ''half_open_probe_in_flight''\<rparr>"
  by (simp_all add: probing_def before_call_def Let_def)

lemma probing_outcomes:
  "snd (record_success now' (probe_permit b) ttft (probing now b)) =
     (new_breaker (br_model_id b) (br_policy b))\<lparr>br_generation := br_generation b + 2\<rparr>"
  "br_state (snd (record_failure now' (probe_permit b) k (probing now b))) = OPEN"
  "br_opened_at (snd (record_failure now' (probe_permit b) k (probing now b))) = Some now'"
  "br_cooldown (snd (record_failure now' (probe_permit b) k (probing now b))) =
     cooldown_after (br_policy b) (br_reopens b + 1)"
  "br_state (snd (record_inconclusive now' (probe_permit b) (probing now b))) = OPEN"
  "br_opened_at (snd (record_inconclusive now' (probe_permit b) (probing now b))) = Some now'"
  "br_cooldown (snd (record_inconclusive now' (probe_permit b) (probing now b))) = br_cooldown b"
  by (simp_all add: probing_def probe_permit_def permit_current_def new_breaker_def Let_def
      record_success_def record_failure_def record_inconclusive_def open_circuit_def
      cooldown_after_def)

text \<open>The recovery cycle of an open circuit. Before the cool-down is over a call is rejected
  and told the time left. From then on the first call gets the one probe and further calls are
  rejected; the probe's success closes the circuit with empty windows and the base cool-down,
  its failure reopens it with the back-off exponent one higher, and an inconclusive result
  reopens it with the same cool-down.\<close>

lemma recovery_cycle:
  assumes "br_state b = OPEN" and "br_opened_at b = Some t"
  shows "if now < t + br_cooldown b
    then \<exists>e. fst (before_call now b) = Inl e \<and>
           err_retry_after e = Some (t + br_cooldown b - now)
    else (\<exists>tr. before_call now b = (Inr (probe_permit b, Some tr), probing now b)) \<and>
         (\<exists>e. fst (before_call now' (probing now b)) = Inl e) \<and>
         snd (record_success now' (probe_permit b) ttft (probing now b)) =
           (new_breaker (br_model_id b) (br_policy b))\<lparr>br_generation := br_generation b + 2\<rparr> \<and>
         (let f = snd (record_failure now' (probe_permit b) k (probing now b)) in
            br_state f = OPEN \<and> br_opened_at f = Some now' \<and>
            br_cooldown f = cooldown_after (br_policy b) (br_reopens b + 1)) \<and>
         (let i = snd (record_inconclusive now' (probe_permit b) (probing now b)) in
            br_state i = OPEN \<and> br_opened_at i = Some now' \<and> br_cooldown i = br_cooldown b)"
  by (simp add: before_call_open[OF assms] probing_outcomes Let_def)

definition tripped_breaker :: breaker where
  "tripped_breaker = run circuit_step small_breaker
     [(1, RecordFailure small_permit CF_TRANSIENT), (2, RecordFailure small_permit CF_TRANSIENT)]"

lemma tripped_breaker_eq:
  "tripped_breaker = small_breaker\<lparr>br_state := OPEN, br_failures := [1, 2],
     br_opened_at := Some 2, br_generation := 1\<rparr>"
  by (simp add: tripped_breaker_def small_defs record_failure_def prune_def permit_current_def
      open_circuit_def Let_def)

lemma recovery_cycle_witness:
  "br_state tripped_breaker = OPEN \<and> br_opened_at tripped_breaker = Some 2 \<and>
   (\<exists>e. fst (before_call 10 tripped_breaker) = Inl e \<and> err_retry_after e = Some 52) \<and>
   (\<exists>tr. before_call 62 tripped_breaker =
     (Inr (probe_permit tripped_breaker, Some tr), probing 62 tripped_breaker))"
proof -
  have h: "br_state tripped_breaker = OPEN" "br_opened_at tripped_breaker = Some 2"
    and c: "br_cooldown tripped_breaker = 60"
    by (simp_all add: tripped_breaker_eq small_defs)
  show ?thesis
    using recovery_cycle[OF h, of 10 0 None CF_TRANSIENT]
      recovery_cycle[OF h, of 62 0 None CF_TRANSIENT] h c by simp
qed

section \<open>The failure window\<close>

text \<open>
  Under a monotonic clock the recorded failures are in time order and not in the future, so
  pruning the front of the deque keeps exactly the failures inside the window.
\<close>

definition times_ok :: "seconds \<Rightarrow> breaker \<Rightarrow> bool" where
  "times_ok now b \<longleftrightarrow> sorted (br_failures b) \<and> (\<forall>t \<in> set (br_failures b). t \<le> now)"

lemma sorted_dropWhile_less:
  "sorted xs \<Longrightarrow> dropWhile (\<lambda>t. t < c) xs = filter (\<lambda>t. (c :: 'a :: linorder) \<le> t) xs"
proof (induction xs)
  case (Cons x xs)
  show ?case
  proof (cases "x < c")
    case False
    with Cons.prems have "\<forall>y \<in> set (x # xs). c \<le> y" by auto
    with False show ?thesis by (simp add: filter_id_conv)
  qed (use Cons in auto)
qed simp

lemma times_ok_mono: "times_ok t b \<Longrightarrow> t \<le> now \<Longrightarrow> times_ok now b"
  by (auto simp: times_ok_def intro: order_trans)

lemma times_ok_prune: "times_ok now b \<Longrightarrow> times_ok now (prune t b)"
  by (auto simp: times_ok_def prune_failures sorted_dropWhile dest: set_dropWhileD)

lemma times_ok_append:
  "times_ok now b \<Longrightarrow> times_ok now (b\<lparr>br_failures := br_failures b @ [now]\<rparr>)"
  by (auto simp: times_ok_def sorted_append)

lemma times_ok_cong: "br_failures b' = br_failures b \<Longrightarrow> times_ok now b' = times_ok now b"
  by (simp add: times_ok_def)

lemma circuit_step_times:
  assumes "times_ok t b" and "t \<le> now"
  shows "times_ok now (circuit_step b (now, a))"
proof -
  have p: "times_ok now (prune now b)" by (rule times_ok_prune[OF times_ok_mono[OF assms]])
  have c: "times_ok now b'" if "br_failures b' = br_failures (prune now b) \<or>
      br_failures b' = br_failures (prune now b) @ [now] \<or> br_failures b' = []" for b'
    using that p times_ok_append[OF p] by (auto simp: times_ok_def)
  show ?thesis
    by (cases a; rule c)
      (auto simp: breaker_op_defs split: circuit_state.splits option.splits)
qed

lemma run_times:
  "times_ok t b \<Longrightarrow> sorted (t # map fst es) \<Longrightarrow>
    times_ok (last (t # map fst es)) (run circuit_step b es)"
proof (induction es arbitrary: t b)
  case (Cons e es)
  obtain now a where e: "e = (now, a)" by (cases e)
  with Cons.prems have "times_ok now (circuit_step b e)"
    by (simp add: circuit_step_times)
  with Cons e show ?case by (auto intro: order_trans)
qed simp

text \<open>Under a monotonic clock a closed circuit opens on a failure exactly when the failures
  inside the window, this one included, reach the threshold.\<close>

lemma trips_exactly:
  assumes "sorted (0 # map fst es @ [now])"
    and "b = run circuit_step (new_breaker m p) es"
    and "br_state b = CLOSED" and "permit_current pt b"
  shows "br_state (snd (record_failure now pt k b)) = OPEN \<longleftrightarrow>
    failure_threshold p \<le>
      1 + int (length (filter (\<lambda>t. now - failure_window_seconds p \<le> t) (br_failures b)))"
proof -
  have "times_ok 0 (new_breaker m p)" by (simp add: times_ok_def new_breaker_def)
  moreover have "sorted (0 # map fst es)" using assms(1) by (simp add: sorted_append)
  ultimately have "times_ok (last (0 # map fst es)) b" unfolding assms(2) by (rule run_times)
  then have s: "sorted (br_failures b)" by (simp add: times_ok_def)
  have pol: "br_policy b = p" unfolding assms(2) run_policy by (simp add: new_breaker_def)
  show ?thesis
    using assms(3,4)
    by (simp add: record_failure_def Let_def open_circuit_def prune_failures pol
        sorted_dropWhile_less[OF s] add.commute)
qed

lemma trips_exactly_witness:
  "sorted (0 # map fst [(1 :: seconds, RecordFailure small_permit CF_TRANSIENT)] @ [5]) \<and>
   br_state (snd (record_failure 5 small_permit CF_TRANSIENT
     (run circuit_step small_breaker [(1, RecordFailure small_permit CF_TRANSIENT)]))) = OPEN"
proof -
  let ?b = "run circuit_step (new_breaker ''m'' small_policy)
      [(1, RecordFailure small_permit CF_TRANSIENT)]"
  have b: "?b = small_breaker\<lparr>br_failures := [1]\<rparr>"
    by (simp add: small_defs record_failure_def prune_def permit_current_def Let_def)
  have h: "br_state ?b = CLOSED" "permit_current small_permit ?b"
    unfolding b by (simp_all add: small_defs permit_current_def)
  have s: "sorted (0 # map fst [(1 :: seconds, RecordFailure small_permit CF_TRANSIENT)] @ [5])"
    by simp
  have "failure_threshold small_policy \<le> 1 + int (length
      (filter (\<lambda>t. 5 - failure_window_seconds small_policy \<le> t) (br_failures ?b)))"
    unfolding b by (simp add: small_defs)
  then show ?thesis
    using trips_exactly[OF s refl h, of CF_TRANSIENT] s by (simp add: small_breaker_def)
qed

end
