(* ===== verification/Circuit_Registry.thy ===== *)
theory Circuit_Registry
  imports Circuit
begin

text \<open>
  \<open>ModelCircuitRegistry\<close> of \<open>src/open_deep_research/models/circuit.py\<close>: breakers by normalised
  model id, and the choice of a candidate in a fallback chain. A breaker object handed out by
  the registry is the entry of its key; a method call on it is an update of that entry.
  \<open>clk i\<close> is the clock reading of the snapshot of candidate \<open>i\<close>, and \<open>clk (length ids)\<close> the
  one of the forced transition.
\<close>

record circuit_registry =
  reg_breakers :: "(string, breaker) dict"
  reg_warned :: "(string \<times> string \<times> string) list"

definition empty_registry :: circuit_registry where
  "empty_registry = \<lparr>reg_breakers = [], reg_warned = []\<rparr>"

definition get_or_create ::
    "(circuit_policy \<Rightarrow> string) \<Rightarrow> string \<Rightarrow> circuit_policy \<Rightarrow> circuit_registry \<Rightarrow>
      breaker option \<times> circuit_registry" where
  "get_or_create fp m p reg =
     (let key = strip m in
      if key = [] then (None, reg)
      else case dict_get (reg_breakers reg) key of
        None \<Rightarrow>
          (Some (new_breaker key p),
           reg\<lparr>reg_breakers := dict_set key (new_breaker key p) (reg_breakers reg)\<rparr>)
      | Some b \<Rightarrow>
          if \<not> policy_matches fp p b
          then (let mk = (key, fp (br_policy b), fp p)
                in (None, if mk \<in> set (reg_warned reg) then reg
                          else reg\<lparr>reg_warned := mk # reg_warned reg\<rparr>))
          else (Some b, reg))"

definition registry_get ::
    "(circuit_policy \<Rightarrow> string) \<Rightarrow> string \<Rightarrow> circuit_policy option \<Rightarrow> circuit_registry \<Rightarrow>
      breaker option" where
  "registry_get fp m pol reg =
     (case dict_get (reg_breakers reg) (strip m) of
        None \<Rightarrow> None
      | Some b \<Rightarrow> (case pol of
           None \<Rightarrow> Some b
         | Some p \<Rightarrow> if policy_matches fp p b then Some b else None))"

definition put_breaker :: "string \<Rightarrow> breaker \<Rightarrow> circuit_registry \<Rightarrow> circuit_registry" where
  "put_breaker key b reg = reg\<lparr>reg_breakers := dict_set key b (reg_breakers reg)\<rparr>"

text \<open>\<open>snapshots\<close>: one pruned snapshot per known breaker.\<close>

definition registry_snapshots ::
    "(circuit_policy \<Rightarrow> string) \<Rightarrow> (string \<Rightarrow> seconds) \<Rightarrow> circuit_registry \<Rightarrow>
      circuit_snapshot list \<times> circuit_registry" where
  "registry_snapshots fp clk reg =
     (map (\<lambda>(k, b). fst (breaker_snapshot fp (clk k) b)) (reg_breakers reg),
      reg\<lparr>reg_breakers := map (\<lambda>(k, b). (k, snd (breaker_snapshot fp (clk k) b)))
        (reg_breakers reg)\<rparr>)"

text \<open>The loop of \<open>select_candidate_index\<close>: \<open>Inl i\<close> returns early with candidate \<open>i\<close>,
  \<open>Inr snaps\<close> ends with the snapshots of all candidates, each of them rejecting.\<close>

fun select_scan ::
    "(circuit_policy \<Rightarrow> string) \<Rightarrow> (nat \<Rightarrow> seconds) \<Rightarrow> circuit_policy \<Rightarrow> (nat \<times> string) list \<Rightarrow>
      (nat \<times> string \<times> circuit_snapshot) list \<Rightarrow> circuit_registry \<Rightarrow>
      (nat + (nat \<times> string \<times> circuit_snapshot) list) \<times> circuit_registry" where
  "select_scan fp clk pol [] snaps reg = (Inr snaps, reg)"
| "select_scan fp clk pol ((i, m) # cs) snaps reg =
     (case registry_get fp m (Some pol) reg of
        None \<Rightarrow> (Inl i, reg)
      | Some b \<Rightarrow>
          (let (s, b') = breaker_snapshot fp (clk i) b;
               reg' = put_breaker (strip m) b' reg
           in if \<not> snap_rejecting s then (Inl i, reg')
              else select_scan fp clk pol cs (snaps @ [(i, strip m, s)]) reg'))"

definition opened_key :: "seconds option \<Rightarrow> nat \<times> seconds" where
  "opened_key t = (case t of Some x \<Rightarrow> (0, x) | None \<Rightarrow> (1, 0))"

datatype select_error = EmptyCandidateChain

definition select_start :: "int \<Rightarrow> nat \<Rightarrow> nat" where
  "select_start start_index n = nat (min (max 0 start_index) (int n - 1))"

definition select_candidate_index ::
    "(circuit_policy \<Rightarrow> string) \<Rightarrow> (nat \<Rightarrow> seconds) \<Rightarrow> string list \<Rightarrow> circuit_policy \<Rightarrow> int \<Rightarrow> bool \<Rightarrow>
      circuit_registry \<Rightarrow>
      (select_error + nat \<times> circuit_transition option) \<times> circuit_registry" where
  "select_candidate_index fp clk ids pol start_index force reg =
     (if ids = [] then (Inl EmptyCandidateChain, reg)
      else
        (let start = select_start start_index (length ids) in
         case select_scan fp clk pol (drop start (List.enumerate 0 ids)) [] reg of
           (Inl i, reg') \<Rightarrow> (Inr (i, None), reg')
         | (Inr snaps, reg') \<Rightarrow>
             if \<not> force then (Inr (start, None), reg')
             else
               (case filter (\<lambda>x. snap_state (snd (snd x)) = OPEN) snaps of
                  [] \<Rightarrow> (Inr (start, None), reg')
                | x # xs \<Rightarrow>
                    (let (i, key, _) = min_by (\<lambda>y. opened_key (snap_opened_at (snd (snd y)))) x xs
                     in case dict_get (reg_breakers reg') key of
                          None \<Rightarrow> (Inr (i, None), reg')
                        | Some b \<Rightarrow>
                            (let (tr, b') = force_half_open (clk (length ids)) b
                             in (Inr (i, tr), put_breaker key b' reg'))))))"

section \<open>What a snapshot leaves alone\<close>

text \<open>A snapshot prunes the windows; everything the admission decision reads is unchanged.\<close>

definition core ::
    "breaker \<Rightarrow> circuit_state \<times> circuit_policy \<times> seconds option \<times> bool \<times> seconds" where
  "core b = (br_state b, br_policy b, br_opened_at b, br_probe_in_flight b, br_cooldown b)"

definition same_cores :: "circuit_registry \<Rightarrow> circuit_registry \<Rightarrow> bool" where
  "same_cores r r' \<longleftrightarrow> (\<forall>k. map_option core (dict_get (reg_breakers r') k) =
                         map_option core (dict_get (reg_breakers r) k))"

lemma same_cores_refl [simp]: "same_cores r r"
  by (simp add: same_cores_def)

lemma same_cores_trans: "same_cores r r' \<Longrightarrow> same_cores r' r'' \<Longrightarrow> same_cores r r''"
  by (simp add: same_cores_def)

lemma core_prune [simp]: "core (prune now b) = core b"
  by (simp add: core_def)

lemma core_fields:
  assumes "core b = core b'"
  shows "br_state b = br_state b'" "br_policy b = br_policy b'"
    "br_opened_at b = br_opened_at b'" "br_probe_in_flight b = br_probe_in_flight b'"
    "br_cooldown b = br_cooldown b'" "retry_after t b = retry_after t b'"
  using assms by (simp_all add: core_def retry_after_def)

lemma snd_breaker_snapshot [simp]: "snd (breaker_snapshot fp now b) = prune now b"
  by (simp add: breaker_snapshot_def Let_def)

definition rejects :: "seconds \<Rightarrow> breaker \<Rightarrow> bool" where
  "rejects now b \<longleftrightarrow> (\<exists>e. fst (before_call now b) = Inl e)"

lemma rejects_iff:
  "rejects now b \<longleftrightarrow>
     (br_state b = OPEN \<and> retry_after now b > 0) \<or> (br_state b = HALF_OPEN \<and> br_probe_in_flight b)"
  by (cases "br_state b") (simp_all add: rejects_def before_call_def Let_def)

lemma snap_rejecting_iff: "snap_rejecting (fst (breaker_snapshot fp now b)) = rejects now b"
  by (cases "br_state b")
    (simp_all add: rejects_iff snap_rejecting_def breaker_snapshot_def Let_def)

lemma rejects_core: "core b = core b' \<Longrightarrow> rejects now b = rejects now b'"
  by (metis core_fields(1,4,6) rejects_iff)

lemma put_breaker_same_cores:
  "dict_get (reg_breakers reg) k = Some b \<Longrightarrow> core b' = core b \<Longrightarrow>
    same_cores reg (put_breaker k b' reg)"
  by (simp add: same_cores_def put_breaker_def)

lemma registry_get_Some:
  "registry_get fp m (Some pol) reg = Some b \<longleftrightarrow>
     dict_get (reg_breakers reg) (strip m) = Some b \<and> policy_matches fp pol b"
  by (auto simp: registry_get_def split: option.splits if_splits)

lemma registry_get_same_cores:
  assumes "same_cores r r'"
  shows "registry_get fp m (Some pol) r' = None \<longleftrightarrow> registry_get fp m (Some pol) r = None"
    and "registry_get fp m (Some pol) r' = Some b' \<Longrightarrow>
      \<exists>b. registry_get fp m (Some pol) r = Some b \<and> core b' = core b"
proof -
  have eq: "map_option core (dict_get (reg_breakers r') (strip m)) =
      map_option core (dict_get (reg_breakers r) (strip m))"
    using assms by (simp add: same_cores_def)
  have pm: "policy_matches fp pol x = policy_matches fp pol y" if "core x = core y" for x y
    using that by (simp add: policy_matches_def core_def)
  from eq show "registry_get fp m (Some pol) r' = None \<longleftrightarrow> registry_get fp m (Some pol) r = None"
    by (cases "dict_get (reg_breakers r') (strip m)"; cases "dict_get (reg_breakers r) (strip m)")
      (auto simp: registry_get_def dest: pm)
  from eq show "registry_get fp m (Some pol) r' = Some b' \<Longrightarrow>
      \<exists>b. registry_get fp m (Some pol) r = Some b \<and> core b' = core b"
    by (cases "dict_get (reg_breakers r') (strip m)"; cases "dict_get (reg_breakers r) (strip m)")
      (auto simp: registry_get_def dest: pm split: if_splits)
qed

text \<open>A candidate is blocked when it has a matching breaker that rejects a call at its reading.\<close>

definition blocked ::
    "(circuit_policy \<Rightarrow> string) \<Rightarrow> (nat \<Rightarrow> seconds) \<Rightarrow> circuit_policy \<Rightarrow> circuit_registry \<Rightarrow>
      nat \<times> string \<Rightarrow> bool" where
  "blocked fp clk pol reg c =
     (case registry_get fp (snd c) (Some pol) reg of
        None \<Rightarrow> False
      | Some b \<Rightarrow> rejects (clk (fst c)) b)"

lemma blocked_same_cores:
  "same_cores r r' \<Longrightarrow> blocked fp clk pol r' c = blocked fp clk pol r c"
  using registry_get_same_cores[of r r' fp "snd c" pol]
  by (cases "registry_get fp (snd c) (Some pol) r'")
    (auto simp: blocked_def dest: rejects_core[of _ _ "clk (fst c)"])

text \<open>What the scan returns, in terms of the registry it started from.\<close>

definition snap_of ::
    "(circuit_policy \<Rightarrow> string) \<Rightarrow> circuit_policy \<Rightarrow> circuit_registry \<Rightarrow> nat \<times> string \<Rightarrow>
      nat \<times> string \<times> circuit_snapshot \<Rightarrow> bool" where
  "snap_of fp pol reg c x \<longleftrightarrow>
     fst x = fst c \<and> fst (snd x) = strip (snd c) \<and>
     (\<exists>b. registry_get fp (snd c) (Some pol) reg = Some b \<and>
        snap_state (snd (snd x)) = br_state b \<and> snap_opened_at (snd (snd x)) = br_opened_at b)"

lemma snap_of_same_cores:
  "same_cores r r' \<Longrightarrow> snap_of fp pol r' c x \<Longrightarrow> snap_of fp pol r c x"
  using registry_get_same_cores(2)[of r r' fp "snd c" pol]
  by (auto simp: snap_of_def core_def)

lemma select_scan_Cons:
  "select_scan fp clk pol ((i, m) # cs) snaps reg =
     (case registry_get fp m (Some pol) reg of
        None \<Rightarrow> (Inl i, reg)
      | Some b \<Rightarrow>
          if \<not> rejects (clk i) b then (Inl i, put_breaker (strip m) (prune (clk i) b) reg)
          else select_scan fp clk pol cs
            (snaps @ [(i, strip m, fst (breaker_snapshot fp (clk i) b))])
            (put_breaker (strip m) (prune (clk i) b) reg))"
  by (auto simp: Let_def case_prod_beta snap_rejecting_iff split: option.splits)

lemma select_scan_spec:
  "select_scan fp clk pol cs snaps reg = (res, reg') \<Longrightarrow>
    same_cores reg reg' \<and>
    (case res of
       Inl i \<Rightarrow> \<exists>pre m post. cs = pre @ (i, m) # post \<and> list_all (blocked fp clk pol reg) pre \<and>
                 \<not> blocked fp clk pol reg (i, m)
     | Inr out \<Rightarrow> list_all (blocked fp clk pol reg) cs \<and>
                 (\<exists>new. out = snaps @ new \<and> list_all2 (snap_of fp pol reg) cs new))"
proof (induction cs arbitrary: snaps reg)
  case Nil
  then show ?case by auto
next
  case (Cons c cs)
  obtain i m where c: "c = (i, m)" by (cases c)
  note step = Cons.prems[unfolded c select_scan_Cons]
  have here: "\<not> blocked fp clk pol reg (i, m) \<Longrightarrow> \<exists>pre m' post. (i, m) # cs = pre @ (i, m') # post \<and>
      list_all (blocked fp clk pol reg) pre \<and> \<not> blocked fp clk pol reg (i, m')"
    by (rule exI[of _ "[]"]) auto
  show ?case
  proof (cases "registry_get fp m (Some pol) reg")
    case None
    with step have "res = Inl i" "reg' = reg" by auto
    moreover from None have "\<not> blocked fp clk pol reg (i, m)" by (simp add: blocked_def)
    ultimately show ?thesis using here by (simp add: c)
  next
    case (Some b)
    let ?s = "fst (breaker_snapshot fp (clk i) b)"
    let ?reg = "put_breaker (strip m) (prune (clk i) b) reg"
    have same: "same_cores reg ?reg"
      using Some by (auto simp: registry_get_Some intro!: put_breaker_same_cores)
    have blk: "blocked fp clk pol reg (i, m) = rejects (clk i) b"
      using Some by (simp add: blocked_def)
    show ?thesis
    proof (cases "rejects (clk i) b")
      case False
      with step Some have "res = Inl i" "reg' = ?reg" by auto
      with same blk False show ?thesis using here by (simp add: c)
    next
      case True
      with step Some have r: "select_scan fp clk pol cs (snaps @ [(i, strip m, ?s)]) ?reg = (res, reg')"
        by simp
      have head: "snap_of fp pol reg (i, m) (i, strip m, ?s)"
        using Some by (simp add: snap_of_def breaker_snapshot_def Let_def)
      note IH = Cons.IH[OF r]
      have s2: "same_cores reg reg'" using IH same by (blast intro: same_cores_trans)
      have all: "list_all (blocked fp clk pol ?reg) xs = list_all (blocked fp clk pol reg) xs" for xs
        by (simp add: list_all_iff blocked_same_cores[OF same])
      show ?thesis
      proof (cases res)
        case (Inl j)
        with IH obtain pre m' post where "cs = pre @ (j, m') # post"
          "list_all (blocked fp clk pol reg) pre" "\<not> blocked fp clk pol reg (j, m')"
          by (auto simp: all blocked_same_cores[OF same])
        then have "\<exists>pre m' post. (i, m) # cs = pre @ (j, m') # post \<and>
            list_all (blocked fp clk pol reg) pre \<and> \<not> blocked fp clk pol reg (j, m')"
          using blk True by (intro exI[of _ "(i, m) # pre"]) auto
        with Inl s2 show ?thesis by (simp add: c)
      next
        case (Inr out)
        with IH obtain new where "out = (snaps @ [(i, strip m, ?s)]) @ new"
          and l2: "list_all2 (snap_of fp pol ?reg) cs new"
          and lb: "list_all (blocked fp clk pol reg) cs"
          by (auto simp: all)
        moreover have "list_all2 (snap_of fp pol reg) cs new"
          using l2 by (rule list_all2_mono) (rule snap_of_same_cores[OF same])
        ultimately show ?thesis using Inr s2 blk True head c by auto
      qed
    qed
  qed
qed

section \<open>The selected candidate\<close>

definition candidates :: "string list \<Rightarrow> int \<Rightarrow> (nat \<times> string) list" where
  "candidates ids start = drop (select_start start (length ids)) (List.enumerate 0 ids)"

lemma candidates_nth: "(i, m) \<in> set (candidates ids start) \<Longrightarrow> i < length ids \<and> m = ids ! i"
  by (auto simp: candidates_def in_set_enumerate_eq dest!: in_set_dropD)

lemma candidates_sorted: "sorted_wrt (\<lambda>c d. fst c < fst d) (candidates ids start)"
proof -
  have "sorted_wrt (<) (map fst (List.enumerate 0 ids))"
    by (simp add: sorted_wrt_upt)
  then have "sorted_wrt (\<lambda>c d. fst c < fst d) (List.enumerate 0 ids)"
    by (simp only: sorted_wrt_map)
  then show ?thesis by (simp add: candidates_def sorted_wrt_drop)
qed

lemma select_start_less: "0 < n \<Longrightarrow> select_start start n < n"
  by (cases n) (auto simp: select_start_def intro: le_less_trans[OF nat_mono[OF min.cobounded2]])

lemma candidates_ne: "ids \<noteq> [] \<Longrightarrow> candidates ids start \<noteq> []"
  using select_start_less[of "length ids" start] by (simp add: candidates_def)

lemma start_in_candidates:
  assumes "ids \<noteq> []"
  shows "(select_start start (length ids), ids ! select_start start (length ids))
    \<in> set (candidates ids start)"
proof -
  have lt: "select_start start (length ids) < length ids"
    using assms by (simp add: select_start_less)
  then have "candidates ids start ! 0 =
      (select_start start (length ids), ids ! select_start start (length ids))"
    by (simp add: candidates_def nth_enumerate_eq)
  then show ?thesis using candidates_ne[OF assms, of start] by (metis length_greater_0_conv nth_mem)
qed

lemma rejects_antimono: "rejects now b \<Longrightarrow> t \<le> now \<Longrightarrow> rejects t b"
  by (auto simp: rejects_iff retry_after_def Let_def split: option.splits)

lemma same_cores_get:
  "same_cores r r' \<Longrightarrow> dict_get (reg_breakers r) k = Some b \<Longrightarrow>
    \<exists>b'. dict_get (reg_breakers r') k = Some b' \<and> core b' = core b"
  by (auto simp: same_cores_def) (metis option.map_disc_iff option.map_sel option.exhaust_sel option.distinct(1) option.sel option.simps(9))

text \<open>As long as one candidate of the chain is not blocked, selection returns the first such
  candidate without forcing anything, and a call to the returned candidate at any later clock
  reading is admitted by its breaker (or it has no matching breaker at all).\<close>

lemma select_first_available:
  assumes "select_candidate_index fp clk ids pol start force reg = (Inr (i, tr), reg')"
    and "c \<in> set (candidates ids start)" and "\<not> blocked fp clk pol reg c"
  shows "tr = None \<and> (i, ids ! i) \<in> set (candidates ids start) \<and> i \<le> fst c \<and>
    (\<forall>d \<in> set (candidates ids start). fst d < i \<longrightarrow> blocked fp clk pol reg d) \<and>
    (\<forall>b now. registry_get fp (ids ! i) (Some pol) reg' = Some b \<and> clk i \<le> now \<longrightarrow> \<not> rejects now b)"
proof -
  have ne: "ids \<noteq> []" using assms(2) by (auto simp: candidates_def)
  obtain res reg1 where scan: "select_scan fp clk pol (candidates ids start) [] reg = (res, reg1)"
    by (cases "select_scan fp clk pol (candidates ids start) [] reg")
  note spec = select_scan_spec[OF scan]
  have "\<not> list_all (blocked fp clk pol reg) (candidates ids start)"
    using assms(2,3) by (auto simp: list_all_iff)
  with spec obtain j where res: "res = Inl j" by (cases res) auto
  with assms(1) scan ne have ji: "j = i" "tr = None" "reg' = reg1"
    by (auto simp: select_candidate_index_def candidates_def Let_def)
  from spec res ji obtain pre m post where split: "candidates ids start = pre @ (i, m) # post"
    and pre: "list_all (blocked fp clk pol reg) pre" and nb: "\<not> blocked fp clk pol reg (i, m)"
    and same: "same_cores reg reg'" by auto
  have m: "m = ids ! i" using candidates_nth[of i m ids start] split by simp
  have sorted: "\<forall>d \<in> set post. i < fst d" "\<forall>d \<in> set pre. fst d < i"
    using candidates_sorted[of ids start] by (auto simp: split sorted_wrt_append)
  have low: "\<forall>d \<in> set (candidates ids start). fst d < i \<longrightarrow> blocked fp clk pol reg d"
    using pre sorted by (auto simp: split list_all_iff)
  have "i \<le> fst c" using low assms(2,3) by force
  moreover have "\<not> rejects now b"
    if b: "registry_get fp (ids ! i) (Some pol) reg' = Some b" and le: "clk i \<le> now" for b now
  proof -
    from registry_get_same_cores(2)[OF same b]
    have "\<not> rejects (clk i) b" using nb by (auto simp: blocked_def m dest: rejects_core)
    with le show ?thesis using rejects_antimono by blast
  qed
  ultimately show ?thesis using ji split m low by auto
qed

lemma list_all2_snap_pick:
  assumes "list_all2 (snap_of fp pol reg) cs new" and "x \<in> set new"
  shows "\<exists>m b. (fst x, m) \<in> set cs \<and> fst (snd x) = strip m \<and>
    registry_get fp m (Some pol) reg = Some b \<and>
    snap_state (snd (snd x)) = br_state b \<and> snap_opened_at (snd (snd x)) = br_opened_at b"
  using assms by (induction rule: list_all2_induct) (auto simp: snap_of_def)

lemma list_all2_snap_of:
  assumes "list_all2 (snap_of fp pol reg) cs new" and "c \<in> set cs"
    and "registry_get fp (snd c) (Some pol) reg = Some b"
  shows "\<exists>x \<in> set new. snap_state (snd (snd x)) = br_state b \<and>
    snap_opened_at (snd (snd x)) = br_opened_at b"
  using assms by (induction rule: list_all2_induct) (auto simp: snap_of_def)

lemma force_open_breaker:
  assumes "br_state b = OPEN"
  shows "fst (force_half_open now b) \<noteq> None"
    and "br_state (snd (force_half_open now b)) = HALF_OPEN"
    and "\<not> br_probe_in_flight (snd (force_half_open now b))"
    and "\<not> rejects t (snd (force_half_open now b))"
  using assms by (simp_all add: force_half_open_def Let_def rejects_iff)

text \<open>When every candidate is blocked and some of them are OPEN, selection forces the one that
  opened first (\<open>force_if_all_open\<close>): its breaker becomes half-open with no probe in flight, so
  the next call to it is admitted as the probe at any clock reading.\<close>

lemma select_forces_oldest:
  assumes "select_candidate_index fp clk ids pol start True reg = (Inr (i, tr), reg')"
    and "list_all (blocked fp clk pol reg) (candidates ids start)"
    and "(j, m) \<in> set (candidates ids start)"
    and "registry_get fp m (Some pol) reg = Some bj" and "br_state bj = OPEN"
  shows "\<exists>b b'. registry_get fp (ids ! i) (Some pol) reg = Some b \<and> br_state b = OPEN \<and>
    opened_key (br_opened_at b) \<le> opened_key (br_opened_at bj) \<and>
    registry_get fp (ids ! i) (Some pol) reg' = Some b' \<and>
    br_state b' = HALF_OPEN \<and> \<not> br_probe_in_flight b' \<and> \<not> rejects now b' \<and> tr \<noteq> None"
proof -
  let ?key = "\<lambda>y. opened_key (snap_opened_at (snd (snd y)))"
  have ne: "ids \<noteq> []" using assms(3) by (auto simp: candidates_def)
  obtain res reg1 where scan: "select_scan fp clk pol (candidates ids start) [] reg = (res, reg1)"
    by (cases "select_scan fp clk pol (candidates ids start) [] reg")
  note spec = select_scan_spec[OF scan]
  with assms(2) obtain new where res: "res = Inr new"
    and l2: "list_all2 (snap_of fp pol reg) (candidates ids start) new"
    and same: "same_cores reg reg1" by (cases res) auto
  let ?opens = "filter (\<lambda>x. snap_state (snd (snd x)) = OPEN) new"
  obtain xj where xj: "xj \<in> set ?opens" "snap_opened_at (snd (snd xj)) = br_opened_at bj"
    using list_all2_snap_of[OF l2 assms(3)] assms(4,5) by auto
  then obtain x xs where opens: "?opens = x # xs" by (cases ?opens) auto
  define best where "best = min_by ?key x xs"
  have best: "best \<in> set ?opens" "?key best \<le> ?key xj"
    using min_by_in[of ?key x xs] min_by_le[of xj x xs ?key] xj(1) opens
    unfolding best_def by auto
  obtain m' b where b: "(fst best, m') \<in> set (candidates ids start)"
    "fst (snd best) = strip m'" "registry_get fp m' (Some pol) reg = Some b"
    "br_state b = OPEN" "snap_opened_at (snd (snd best)) = br_opened_at b"
    using list_all2_snap_pick[OF l2, of best] best(1) by auto
  have m': "m' = ids ! fst best" using candidates_nth[OF b(1)] by simp
  obtain b1 where b1: "dict_get (reg_breakers reg1) (strip m') = Some b1" "core b1 = core b"
    using same_cores_get[OF same, of "strip m'" b] b(3) by (auto simp: registry_get_Some)
  have fin: "i = fst best" "tr = fst (force_half_open (clk (length ids)) b1)"
    "reg' = put_breaker (strip m') (snd (force_half_open (clk (length ids)) b1)) reg1"
    using assms(1) scan res ne opens b(2) b1(1)
    by (auto simp: select_candidate_index_def candidates_def[symmetric] Let_def case_prod_beta
        best_def[symmetric])
  have o1: "br_state b1 = OPEN" using core_fields(1)[OF b1(2)] b(4) by simp
  have pm: "policy_matches fp pol (snd (force_half_open (clk (length ids)) b1))"
    using b(3) core_fields(2)[OF b1(2)]
    by (simp add: registry_get_Some policy_matches_def force_half_open_def Let_def)
  show ?thesis
    using b best(2) xj(2) fin m' pm force_open_breaker[OF o1, of "clk (length ids)"]
      force_open_breaker(4)[OF o1, of now "clk (length ids)"]
    by (intro exI[of _ b] exI[of _ "snd (force_half_open (clk (length ids)) b1)"])
      (simp add: registry_get_Some put_breaker_def)
qed

text \<open>Witnesses: a chain whose first candidate is cooling down, and one where both are.\<close>

definition two_models :: circuit_registry where
  "two_models = \<lparr>reg_breakers =
     [(''a'', small_breaker\<lparr>br_model_id := ''a'', br_state := OPEN, br_opened_at := Some 5\<rparr>),
      (''b'', small_breaker\<lparr>br_model_id := ''b'', br_state := OPEN, br_opened_at := Some 3\<rparr>)],
     reg_warned = []\<rparr>"

lemma strip_ab [simp]: "strip ''a'' = ''a''" "strip ''b'' = ''b''" "strip '' c'' = ''c''"
  by (simp_all add: strip_def py_space_def)

lemma select_first_available_witness:
  "fst (select_candidate_index (\<lambda>_. ''fp'') (\<lambda>_. 10) [''a'', '' c''] small_policy 0 True two_models)
     = Inr (1, None) \<and>
   (1, '' c'') \<in> set (candidates [''a'', '' c''] 0)"
proof -
  let ?sel = "select_candidate_index (\<lambda>_. ''fp'') (\<lambda>_. 10) [''a'', '' c''] small_policy 0 True two_models"
  have c: "candidates [''a'', '' c''] 0 = [(0, ''a''), (1, '' c'')]"
    by (simp add: candidates_def select_start_def)
  have e: "\<exists>reg'. ?sel = (Inr (1, None), reg')"
    by (simp add: select_candidate_index_def select_start_def select_scan_Cons registry_get_def
        two_models_def policy_matches_def rejects_iff retry_after_def small_defs put_breaker_def
        del: select_scan.simps)
  have nb: "\<not> blocked (\<lambda>_. ''fp'') (\<lambda>_. 10) small_policy two_models (1, '' c'')"
    by (simp add: blocked_def registry_get_def two_models_def)
  from e obtain reg' where e': "?sel = (Inr (1, None), reg')" by blast
  show ?thesis
    using select_first_available[OF e', of "(1, '' c'')"] nb e' c by simp
qed

lemma select_forces_oldest_witness:
  "\<exists>reg' tr b'. select_candidate_index (\<lambda>_. ''fp'') (\<lambda>_. 10) [''a'', ''b''] small_policy 0 True
      two_models = (Inr (1, tr), reg') \<and>
    registry_get (\<lambda>_. ''fp'') ''b'' (Some small_policy) reg' = Some b' \<and> \<not> rejects 11 b'"
proof -
  let ?sel = "select_candidate_index (\<lambda>_. ''fp'') (\<lambda>_. 10) [''a'', ''b''] small_policy 0 True two_models"
  have c: "candidates [''a'', ''b''] 0 = [(0, ''a''), (1, ''b'')]"
    by (simp add: candidates_def select_start_def)
  have e: "\<exists>tr reg'. ?sel = (Inr (1, tr), reg')"
    by (simp add: select_candidate_index_def select_start_def registry_get_def
        two_models_def policy_matches_def retry_after_def small_defs put_breaker_def
        breaker_snapshot_def prune_def Let_def snap_rejecting_def opened_key_def
        force_half_open_def)
  then obtain tr reg' where e': "?sel = (Inr (1, tr), reg')" by blast
  have bl: "list_all (blocked (\<lambda>_. ''fp'') (\<lambda>_. 10) small_policy two_models)
      (candidates [''a'', ''b''] 0)"
    by (simp add: c blocked_def registry_get_def two_models_def policy_matches_def rejects_iff
        retry_after_def small_defs)
  let ?a = "small_breaker\<lparr>br_model_id := ''a'', br_state := OPEN, br_opened_at := Some 5\<rparr>"
  have a: "(0, ''a'') \<in> set (candidates [''a'', ''b''] 0)"
    "registry_get (\<lambda>_. ''fp'') ''a'' (Some small_policy) two_models = Some ?a" "br_state ?a = OPEN"
    by (simp_all add: c registry_get_def two_models_def policy_matches_def)
  from select_forces_oldest[OF e' bl a, of 11] e' show ?thesis by auto
qed

end
