(* ===== verification/Budgets.thy ===== *)
theory Budgets
  imports Prelude
begin

text \<open>
  The durable run budget (\<open>src/open_deep_research/budgets.py\<close>).

  \<open>ledger\<close> is the content of \<open>budget_ledger.json\<close>; a method of \<open>RunBudgetLedger\<close> reads it
  under the inter-process lock, changes it and writes it back, so it is a function from the old
  content to a result and the new content (the missing file is the empty ledger; a file that is
  not rewritten is returned unchanged). \<open>BudgetGate\<close> composes these methods. A reservation's
  random id and creation time are arguments (\<open>stamp\<close>).
\<close>

section \<open>Dimensions and policies\<close>

datatype budget_dimension =
  MODEL_CALLS | TOOL_CALLS | INPUT_TOKENS | OUTPUT_TOKENS | COST_MICRO_USD | FETCH_CALLS

text \<open>Iteration over the enumeration class, in declaration order.\<close>

instantiation budget_dimension :: enum
begin

definition "enum_budget_dimension =
  [MODEL_CALLS, TOOL_CALLS, INPUT_TOKENS, OUTPUT_TOKENS, COST_MICRO_USD, FETCH_CALLS]"

definition "enum_all_budget_dimension P \<longleftrightarrow>
  list_all P [MODEL_CALLS, TOOL_CALLS, INPUT_TOKENS, OUTPUT_TOKENS, COST_MICRO_USD, FETCH_CALLS]"

definition "enum_ex_budget_dimension P \<longleftrightarrow>
  list_ex P [MODEL_CALLS, TOOL_CALLS, INPUT_TOKENS, OUTPUT_TOKENS, COST_MICRO_USD, FETCH_CALLS]"

instance
proof
  show "(UNIV :: budget_dimension set) = set enum_class.enum"
    by (auto simp: enum_budget_dimension_def) (metis budget_dimension.exhaust)
  show "distinct (enum_class.enum :: budget_dimension list)"
    by (simp add: enum_budget_dimension_def)
  show "enum_class.enum_all P \<longleftrightarrow> Ball UNIV P" for P :: "budget_dimension \<Rightarrow> bool"
    by (auto simp: enum_all_budget_dimension_def) (metis budget_dimension.exhaust)
  show "enum_class.enum_ex P \<longleftrightarrow> Bex UNIV P" for P :: "budget_dimension \<Rightarrow> bool"
    by (auto simp: enum_ex_budget_dimension_def) (metis budget_dimension.exhaust)
qed

end

record run_budget_policy =
  max_model_calls :: "int option"
  max_tool_calls :: "int option"
  max_input_tokens :: "int option"
  max_output_tokens :: "int option"
  max_cost_micro_usd :: "int option"
  max_fetch_calls :: "int option"

fun limit_for :: "run_budget_policy \<Rightarrow> budget_dimension \<Rightarrow> int option" where
  "limit_for p MODEL_CALLS = max_model_calls p"
| "limit_for p TOOL_CALLS = max_tool_calls p"
| "limit_for p INPUT_TOKENS = max_input_tokens p"
| "limit_for p OUTPUT_TOKENS = max_output_tokens p"
| "limit_for p COST_MICRO_USD = max_cost_micro_usd p"
| "limit_for p FETCH_CALLS = max_fetch_calls p"

section \<open>The ledger\<close>

datatype reservation_status = RESERVED | SETTLED | RELEASED | UNCERTAIN

record reservation =
  res_id :: string
  res_key :: string
  res_dimension :: budget_dimension
  res_reserved :: int
  res_actual :: "int option"
  res_status :: reservation_status
  res_created_at :: seconds

record ledger =
  reservations :: "(string, reservation) dict"
  exhausted :: "budget_dimension option"

definition empty_ledger :: ledger where
  "empty_ledger = \<lparr>reservations = [], exhausted = None\<rparr>"

datatype budget_error =
  NonPositiveAmount | ReservationMismatch | BudgetExhausted budget_dimension
| NegativeActual | MissingReservation string | AlreadySettledDifferently
| ModelPriceNotConfigured | DeadlineExceeded string

text \<open>What one reservation weighs: the actual usage once known, else the reserved amount.\<close>

definition res_amount :: "reservation \<Rightarrow> int" where
  "res_amount r = (case res_actual r of Some a \<Rightarrow> a | None \<Rightarrow> res_reserved r)"

definition counts_for :: "budget_dimension \<Rightarrow> reservation \<Rightarrow> bool" where
  "counts_for d r \<longleftrightarrow>
     res_dimension r = d \<and> res_status r \<in> {RESERVED, SETTLED, UNCERTAIN}"

definition used :: "ledger \<Rightarrow> budget_dimension \<Rightarrow> int" where
  "used l d = sum_list (map res_amount (filter (counts_for d) (dict_values (reservations l))))"

definition put_reservation :: "string \<Rightarrow> reservation \<Rightarrow> ledger \<Rightarrow> ledger" where
  "put_reservation k r l = l\<lparr>reservations := dict_set k r (reservations l)\<rparr>"

definition reserve ::
    "run_budget_policy \<Rightarrow> string \<times> seconds \<Rightarrow> string \<Rightarrow> budget_dimension \<Rightarrow> int \<Rightarrow> ledger \<Rightarrow>
      (budget_error + reservation) \<times> ledger" where
  "reserve p stamp key d amount l =
     (if amount \<le> 0 then (Inl NonPositiveAmount, l)
      else case dict_get (reservations l) key of
        Some r \<Rightarrow>
          if res_dimension r \<noteq> d \<or> res_reserved r \<noteq> amount then (Inl ReservationMismatch, l)
          else (Inr r, l)
      | None \<Rightarrow>
          if (case limit_for p d of None \<Rightarrow> False | Some cap \<Rightarrow> used l d + amount > cap)
          then (Inl (BudgetExhausted d), l\<lparr>exhausted := Some d\<rparr>)
          else (let r = \<lparr>res_id = fst stamp, res_key = key, res_dimension = d,
                         res_reserved = amount, res_actual = None, res_status = RESERVED,
                         res_created_at = snd stamp\<rparr>
                in (Inr r, put_reservation key r l)))"

definition settle ::
    "run_budget_policy \<Rightarrow> string \<Rightarrow> int \<Rightarrow> ledger \<Rightarrow> (budget_error + reservation) \<times> ledger" where
  "settle p key actual l =
     (if actual < 0 then (Inl NegativeActual, l)
      else case dict_get (reservations l) key of
        None \<Rightarrow> (Inl (MissingReservation key), l)
      | Some r \<Rightarrow>
          if res_status r = SETTLED
          then (if res_actual r \<noteq> Some actual then (Inl AlreadySettledDifferently, l)
                else (Inr r, l))
          else (let r' = r\<lparr>res_actual := Some actual, res_status := SETTLED\<rparr>;
                    l' = put_reservation key r' l;
                    d = res_dimension r
                in (Inr r',
                    if (case limit_for p d of None \<Rightarrow> False | Some cap \<Rightarrow> used l' d > cap)
                    then l'\<lparr>exhausted := Some d\<rparr> else l')))"

definition release :: "string \<Rightarrow> ledger \<Rightarrow> reservation option \<times> ledger" where
  "release key l =
     (case dict_get (reservations l) key of
        None \<Rightarrow> (None, l)
      | Some r \<Rightarrow>
          if res_status r = SETTLED then (Some r, l)
          else (let r' = r\<lparr>res_actual := Some 0, res_status := RELEASED\<rparr>
                in (Some r', put_reservation key r' l)))"

definition mark_uncertain :: "string \<Rightarrow> ledger \<Rightarrow> reservation option \<times> ledger" where
  "mark_uncertain key l =
     (case dict_get (reservations l) key of
        None \<Rightarrow> (None, l)
      | Some r \<Rightarrow>
          if res_status r \<in> {SETTLED, RELEASED} then (Some r, l)
          else (let r' = r\<lparr>res_status := UNCERTAIN\<rparr>
                in (Some r', put_reservation key r' l)))"

text \<open>\<open>outstanding_by_dimension\<close> and \<open>snapshot\<close> read the ledger.\<close>

definition outstanding :: "ledger \<Rightarrow> budget_dimension \<Rightarrow> int" where
  "outstanding l d = sum_list (map res_amount
     (filter (\<lambda>r. res_dimension r = d \<and> res_status r \<in> {RESERVED, UNCERTAIN})
       (dict_values (reservations l))))"

definition outstanding_by_dimension :: "ledger \<Rightarrow> (budget_dimension, int) dict" where
  "outstanding_by_dimension l = map (\<lambda>d. (d, outstanding l d)) enum_class.enum"

record budget_snapshot =
  snap_usage :: "(budget_dimension, int) dict"
  snap_exhausted :: bool
  snap_exhausted_dimension :: "budget_dimension option"

definition ledger_snapshot :: "ledger \<Rightarrow> budget_snapshot" where
  "ledger_snapshot l = \<lparr>snap_usage = map (\<lambda>d. (d, used l d)) enum_class.enum,
     snap_exhausted = (exhausted l \<noteq> None), snap_exhausted_dimension = exhausted l\<rparr>"

section \<open>Prices\<close>

definition after_colon :: "string \<Rightarrow> string" where
  "after_colon s = (case dropWhile (\<lambda>c. c \<noteq> CHR '':'') s of [] \<Rightarrow> s | _ # t \<Rightarrow> t)"

text \<open>\<open>round\<close>: to the nearest integer, ties to the even one.\<close>

definition py_round :: "rat \<Rightarrow> int" where
  "py_round x = (let f = \<lfloor>x\<rfloor>; r = x - of_int f in
     if r < 1 / 2 then f else if r > 1 / 2 then f + 1 else if even f then f else f + 1)"

type_synonym price_table = "(string, (string, rat) dict) dict"

definition price_keys :: "price_table \<Rightarrow> string list" where
  "price_keys costs = sort_key (\<lambda>k. - int (length k)) (dict_keys costs)"

definition match_price :: "string \<Rightarrow> price_table \<Rightarrow> string option" where
  "match_price model costs =
     List.find (\<lambda>k. starts_with model k \<or> starts_with (after_colon model) k) (price_keys costs)"

definition rate_of :: "string \<Rightarrow> (string, rat) dict \<Rightarrow> rat" where
  "rate_of k rates = (case dict_get rates k of Some r \<Rightarrow> r | None \<Rightarrow> 0)"

definition estimate_cost_micro_usd ::
    "string \<Rightarrow> int \<Rightarrow> int \<Rightarrow> price_table \<Rightarrow> budget_error + int" where
  "estimate_cost_micro_usd model input_tokens output_tokens costs =
     (if costs = [] then Inl ModelPriceNotConfigured
      else case match_price model costs of
        None \<Rightarrow> Inl ModelPriceNotConfigured
      | Some k \<Rightarrow>
          (let rates = the (dict_get costs k);
               usd = (of_int input_tokens * rate_of ''input'' rates
                      + of_int output_tokens * rate_of ''output'' rates) / 1000000
           in Inr (py_round (usd * 1000000))))"

section \<open>The gate\<close>

record budget_config =
  max_run_model_calls :: "int option"
  max_run_tool_calls :: "int option"
  max_run_input_tokens :: "int option"
  max_run_output_tokens :: "int option"
  max_run_cost_micro_usd :: "int option"
  max_fetches_per_run :: "int option"
  run_deadline_seconds :: "seconds option"
  model_costs_per_million :: price_table

definition budget_policy_from_config :: "budget_config \<Rightarrow> run_budget_policy option" where
  "budget_policy_from_config c =
     (let p = \<lparr>max_model_calls = max_run_model_calls c, max_tool_calls = max_run_tool_calls c,
               max_input_tokens = max_run_input_tokens c,
               max_output_tokens = max_run_output_tokens c,
               max_cost_micro_usd = max_run_cost_micro_usd c,
               max_fetch_calls = max_fetches_per_run c\<rparr>
      in if max_model_calls p = None \<and> max_tool_calls p = None \<and> max_input_tokens p = None \<and>
            max_output_tokens p = None \<and> max_cost_micro_usd p = None \<and> max_fetch_calls p = None
         then None else Some p)"

text \<open>A gate: \<open>gate_policy = None\<close> is a gate without a ledger.\<close>

record budget_gate =
  gate_policy :: "run_budget_policy option"
  deadline_at :: "seconds option"
  cost_pricing :: price_table

definition gate_from_config :: "budget_config \<Rightarrow> seconds option \<Rightarrow> seconds \<Rightarrow> budget_gate" where
  "gate_from_config c started_at now =
     \<lparr>gate_policy = budget_policy_from_config c,
      deadline_at = (case run_deadline_seconds c of
          None \<Rightarrow> None
        | Some s \<Rightarrow> if s = 0 then None
                   else Some ((case started_at of Some t \<Rightarrow> t | None \<Rightarrow> now) + s)),
      cost_pricing = model_costs_per_million c\<rparr>"

definition gate_enabled :: "budget_gate \<Rightarrow> bool" where
  "gate_enabled g \<longleftrightarrow> gate_policy g \<noteq> None \<or> deadline_at g \<noteq> None"

definition check_deadline :: "budget_gate \<Rightarrow> string \<Rightarrow> seconds \<Rightarrow> budget_error + unit" where
  "check_deadline g stage now =
     (case deadline_at g of
        None \<Rightarrow> Inr ()
      | Some t \<Rightarrow> if now \<ge> t then Inl (DeadlineExceeded stage) else Inr ())"

text \<open>One step of \<open>reserve_model_call\<close>: a reservation to make, or the error of the estimate.\<close>

type_synonym plan_step = "budget_error + string \<times> budget_dimension \<times> int"

definition model_call_plan ::
    "run_budget_policy \<Rightarrow> price_table \<Rightarrow> string \<Rightarrow> int \<Rightarrow> int \<Rightarrow> string \<Rightarrow> plan_step list" where
  "model_call_plan p pricing key est_in est_out model =
     [Inr (key, MODEL_CALLS, 1)]
     @ (if max_input_tokens p = None then []
        else [Inr (key @ '':input'', INPUT_TOKENS, max 1 est_in)])
     @ (if max_output_tokens p = None then []
        else [Inr (key @ '':output'', OUTPUT_TOKENS, max 1 est_out)])
     @ (if max_cost_micro_usd p = None then []
        else case estimate_cost_micro_usd model (max 1 est_in) (max 1 est_out) pricing of
          Inl e \<Rightarrow> [Inl e]
        | Inr c \<Rightarrow> if c > 0 then [Inr (key @ '':cost'', COST_MICRO_USD, c)] else [])"

definition release_all :: "string list \<Rightarrow> ledger \<Rightarrow> ledger" where
  "release_all keys l = fold (\<lambda>k l. snd (release k l)) keys l"

text \<open>Run the plan; on the first error release what this call reserved and re-raise.\<close>

fun run_plan ::
    "run_budget_policy \<Rightarrow> (nat \<Rightarrow> string \<times> seconds) \<Rightarrow> plan_step list \<Rightarrow> string list \<Rightarrow> ledger \<Rightarrow>
      (budget_error + unit) \<times> ledger" where
  "run_plan p stamps [] reserved_keys l = (Inr (), l)"
| "run_plan p stamps (Inl e # steps) reserved_keys l = (Inl e, release_all reserved_keys l)"
| "run_plan p stamps (Inr (k, d, a) # steps) reserved_keys l =
     (case reserve p (stamps (length reserved_keys)) k d a l of
        (Inl e, l') \<Rightarrow> (Inl e, release_all reserved_keys l')
      | (Inr _, l') \<Rightarrow> run_plan p stamps steps (reserved_keys @ [k]) l')"

definition reserve_model_call ::
    "budget_gate \<Rightarrow> seconds \<Rightarrow> (nat \<Rightarrow> string \<times> seconds) \<Rightarrow> string \<Rightarrow> int \<Rightarrow> int \<Rightarrow> string \<Rightarrow> ledger \<Rightarrow>
      (budget_error + unit) \<times> ledger" where
  "reserve_model_call g now stamps key est_in est_out model l =
     (case check_deadline g ''model'' now of
        Inl e \<Rightarrow> (Inl e, l)
      | Inr _ \<Rightarrow>
          (case gate_policy g of
             None \<Rightarrow> (Inr (), l)
           | Some p \<Rightarrow>
               run_plan p stamps (model_call_plan p (cost_pricing g) key est_in est_out model) [] l))"

text \<open>\<open>_settle\<close> swallows the missing key; other errors propagate.\<close>

definition gate_settle ::
    "budget_gate \<Rightarrow> string \<Rightarrow> int \<Rightarrow> ledger \<Rightarrow> (budget_error + unit) \<times> ledger" where
  "gate_settle g key actual l =
     (case gate_policy g of
        None \<Rightarrow> (Inr (), l)
      | Some p \<Rightarrow>
          (case settle p key actual l of
             (Inl (MissingReservation k), l') \<Rightarrow> (Inr (), l')
           | (Inl e, l') \<Rightarrow> (Inl e, l')
           | (Inr _, l') \<Rightarrow> (Inr (), l')))"

text \<open>Sequencing of statements on the ledger: an error skips the rest.\<close>

definition then_do ::
    "(budget_error + unit) \<times> ledger \<Rightarrow> (ledger \<Rightarrow> (budget_error + unit) \<times> ledger) \<Rightarrow>
      (budget_error + unit) \<times> ledger" where
  "then_do r f = (case r of (Inl e, l) \<Rightarrow> (Inl e, l) | (Inr _, l) \<Rightarrow> f l)"

definition settle_model_call ::
    "budget_gate \<Rightarrow> string \<Rightarrow> int \<Rightarrow> int \<Rightarrow> string \<Rightarrow> ledger \<Rightarrow> (budget_error + unit) \<times> ledger" where
  "settle_model_call g key input_tokens output_tokens model l =
     then_do (gate_settle g key 1 l) (\<lambda>l.
     then_do (case gate_policy g of
                None \<Rightarrow> (Inr (), l)
              | Some p \<Rightarrow> if max_input_tokens p = None then (Inr (), l)
                         else gate_settle g (key @ '':input'') input_tokens l) (\<lambda>l.
     then_do (case gate_policy g of
                None \<Rightarrow> (Inr (), l)
              | Some p \<Rightarrow> if max_output_tokens p = None then (Inr (), l)
                         else gate_settle g (key @ '':output'') output_tokens l) (\<lambda>l.
     (case gate_policy g of
        None \<Rightarrow> (Inr (), l)
      | Some p \<Rightarrow> if max_cost_micro_usd p = None then (Inr (), l)
                 else (case estimate_cost_micro_usd model input_tokens output_tokens
                         (cost_pricing g) of
                         Inl e \<Rightarrow> (Inl e, l)
                       | Inr c \<Rightarrow> gate_settle g (key @ '':cost'') c l)))))"

definition fail_model_call ::
    "budget_gate \<Rightarrow> string \<Rightarrow> bool \<Rightarrow> ledger \<Rightarrow> (budget_error + unit) \<times> ledger" where
  "fail_model_call g key uncertain l =
     (case gate_policy g of
        None \<Rightarrow> (Inr (), l)
      | Some p \<Rightarrow>
          then_do (gate_settle g key 1 l) (\<lambda>l.
            (Inr (), fold (\<lambda>suffix l. snd ((if uncertain then mark_uncertain else release)
                             (key @ '':'' @ suffix) l))
                       [''input'', ''output'', ''cost''] l)))"

definition gate_outstanding :: "budget_gate \<Rightarrow> ledger \<Rightarrow> (budget_dimension, int) dict" where
  "gate_outstanding g l =
     (if gate_policy g = None then map (\<lambda>d. (d, 0)) enum_class.enum
      else outstanding_by_dimension l)"

definition gate_reserve ::
    "budget_gate \<Rightarrow> string \<times> seconds \<Rightarrow> string \<Rightarrow> budget_dimension \<Rightarrow> int \<Rightarrow> ledger \<Rightarrow>
      (budget_error + unit) \<times> ledger" where
  "gate_reserve g stamp key d amount l =
     (case gate_policy g of
        None \<Rightarrow> (Inr (), l)
      | Some p \<Rightarrow> (case reserve p stamp key d amount l of
                    (Inl e, l') \<Rightarrow> (Inl e, l') | (Inr _, l') \<Rightarrow> (Inr (), l')))"

definition reserve_tool_call ::
    "budget_gate \<Rightarrow> seconds \<Rightarrow> string \<times> seconds \<Rightarrow> string \<Rightarrow> ledger \<Rightarrow>
      (budget_error + unit) \<times> ledger" where
  "reserve_tool_call g now stamp key l =
     (case check_deadline g ''tool'' now of
        Inl e \<Rightarrow> (Inl e, l)
      | Inr _ \<Rightarrow> gate_reserve g stamp key TOOL_CALLS 1 l)"

definition settle_tool_call ::
    "budget_gate \<Rightarrow> string \<Rightarrow> ledger \<Rightarrow> (budget_error + unit) \<times> ledger" where
  "settle_tool_call g key l = gate_settle g key 1 l"

definition reserve_fetch_call ::
    "budget_gate \<Rightarrow> string \<times> seconds \<Rightarrow> string \<Rightarrow> ledger \<Rightarrow> (budget_error + unit) \<times> ledger" where
  "reserve_fetch_call g stamp key l = gate_reserve g stamp key FETCH_CALLS 1 l"

section \<open>Usage under an assignment\<close>

definition weight :: "budget_dimension \<Rightarrow> reservation \<Rightarrow> int" where
  "weight d r = (if counts_for d r then res_amount r else 0)"

lemma used_weight: "used l d = sum_list (map (weight d) (dict_values (reservations l)))"
  unfolding used_def weight_def[abs_def] by (simp add: sum_list_map_filter')

lemma put_reservation_simps [simp]:
  "reservations (put_reservation k r l) = dict_set k r (reservations l)"
  "exhausted (put_reservation k r l) = exhausted l"
  by (simp_all add: put_reservation_def)

lemma used_exhausted [simp]: "used (l\<lparr>exhausted := x\<rparr>) d = used l d"
  by (simp add: used_def)

lemma used_put_fresh:
  "dict_get (reservations l) k = None \<Longrightarrow> used (put_reservation k r l) d = used l d + weight d r"
  by (simp add: used_weight sum_list_dict_set_fresh)

lemma used_put_old:
  "dict_ok (reservations l) \<Longrightarrow> dict_get (reservations l) k = Some r \<Longrightarrow>
    used (put_reservation k r' l) d = used l d - weight d r + weight d r'"
  using sum_list_dict_set_old[of "reservations l" k r "weight d" r'] by (simp add: used_weight)

definition res_ok :: "reservation \<Rightarrow> bool" where
  "res_ok r \<longleftrightarrow> 0 < res_reserved r \<and> (case res_actual r of None \<Rightarrow> True | Some a \<Rightarrow> 0 \<le> a)"

definition ledger_ok :: "ledger \<Rightarrow> bool" where
  "ledger_ok l \<longleftrightarrow> dict_ok (reservations l) \<and> list_all res_ok (dict_values (reservations l))"

lemma ledger_okD: "ledger_ok l \<Longrightarrow> dict_get (reservations l) k = Some r \<Longrightarrow> res_ok r"
  by (auto simp: ledger_ok_def list_all_iff dict_values_get)

lemma ledger_ok_dict: "ledger_ok l \<Longrightarrow> dict_ok (reservations l)"
  by (simp add: ledger_ok_def)

lemma ledger_ok_put: "ledger_ok l \<Longrightarrow> res_ok r \<Longrightarrow> ledger_ok (put_reservation k r l)"
  by (auto simp: ledger_ok_def list_all_iff dict_values_get split: if_splits)

lemma ledger_ok_exhausted [simp]: "ledger_ok (l\<lparr>exhausted := x\<rparr>) = ledger_ok l"
  by (simp add: ledger_ok_def)

lemma ledger_ok_empty: "ledger_ok empty_ledger"
  by (simp add: ledger_ok_def empty_ledger_def dict_values_def)

lemma res_ok_amount: "res_ok r \<Longrightarrow> 0 \<le> res_amount r"
  by (auto simp: res_ok_def res_amount_def split: option.splits)

lemma weight_nonneg: "res_ok r \<Longrightarrow> 0 \<le> weight d r"
  by (simp add: weight_def res_ok_amount)

lemma weight_released [simp]: "res_status r = RELEASED \<Longrightarrow> weight d r = 0"
  by (simp add: weight_def counts_for_def)

section \<open>Ledger operations one by one\<close>

lemma reserve_cases:
  obtains (rejected) e where "reserve p st k d a l = (Inl e, l)" "\<forall>x. e \<noteq> BudgetExhausted x"
  | (full) cap where "reserve p st k d a l = (Inl (BudgetExhausted d), l\<lparr>exhausted := Some d\<rparr>)"
      "dict_get (reservations l) k = None" "limit_for p d = Some cap" "cap < used l d + a" "0 < a"
  | (known) r where "reserve p st k d a l = (Inr r, l)" "dict_get (reservations l) k = Some r"
      "res_dimension r = d" "res_reserved r = a"
  | (fresh) r where "reserve p st k d a l = (Inr r, put_reservation k r l)"
      "dict_get (reservations l) k = None" "0 < a" "res_status r = RESERVED" "res_actual r = None"
      "res_reserved r = a" "res_dimension r = d" "\<forall>cap. limit_for p d = Some cap \<longrightarrow> used l d + a \<le> cap"
proof -
  consider "a \<le> 0" | "0 < a" "dict_get (reservations l) k \<noteq> None"
    | "0 < a" "dict_get (reservations l) k = None" by fastforce
  then show ?thesis
  proof cases
    case 1
    then show ?thesis by (intro rejected) (auto simp: reserve_def)
  next
    case 2
    then obtain r where r: "dict_get (reservations l) k = Some r" by auto
    show ?thesis
    proof (cases "res_dimension r = d \<and> res_reserved r = a")
      case True
      with 2 r show ?thesis by (intro known[of r]) (auto simp: reserve_def)
    next
      case False
      with 2 r show ?thesis by (intro rejected[of ReservationMismatch]) (auto simp: reserve_def)
    qed
  next
    case 3
    show ?thesis
    proof (cases "case limit_for p d of None \<Rightarrow> False | Some cap \<Rightarrow> used l d + a > cap")
      case True
      with 3 show ?thesis
        by (intro full[of "the (limit_for p d)"]) (auto simp: reserve_def split: option.splits)
    next
      case False
      with 3 show ?thesis
        by (intro fresh[of "snd (undefined, \<lparr>res_id = fst st, res_key = k, res_dimension = d,
            res_reserved = a, res_actual = None, res_status = RESERVED, res_created_at = snd st\<rparr>)"])
          (auto simp: reserve_def Let_def split: option.splits)
    qed
  qed
qed

lemma weight_fresh:
  "res_status r = RESERVED \<Longrightarrow> res_actual r = None \<Longrightarrow>
    weight d r = (if res_dimension r = d then res_reserved r else 0)"
  by (simp add: weight_def counts_for_def res_amount_def)

lemma release_used_le: "ledger_ok l \<Longrightarrow> used (snd (release k l)) d \<le> used l d"
  by (auto simp: release_def Let_def used_put_old ledger_ok_dict weight_nonneg ledger_okD
      split: option.splits)

lemma res_ok_update:
  "res_ok r \<Longrightarrow> res_ok (r\<lparr>res_status := st\<rparr>)"
  "res_ok r \<Longrightarrow> 0 \<le> a \<Longrightarrow> res_ok (r\<lparr>res_actual := Some a, res_status := st\<rparr>)"
  by (auto simp: res_ok_def split: option.splits)

lemma release_ok: "ledger_ok l \<Longrightarrow> ledger_ok (snd (release k l))"
  by (auto simp: release_def Let_def intro!: ledger_ok_put res_ok_update(2) dest: ledger_okD
      split: option.splits)

lemma mark_uncertain_ok: "ledger_ok l \<Longrightarrow> ledger_ok (snd (mark_uncertain k l))"
  by (auto simp: mark_uncertain_def Let_def intro!: ledger_ok_put res_ok_update(1) dest: ledger_okD
      split: option.splits)

lemma settle_ok: "ledger_ok l \<Longrightarrow> ledger_ok (snd (settle p k a l))"
  by (auto simp: settle_def Let_def intro!: ledger_ok_put res_ok_update(2) dest: ledger_okD
      split: option.splits)

lemma reserve_ok: "ledger_ok l \<Longrightarrow> ledger_ok (snd (reserve p st k d a l))"
  by (cases rule: reserve_cases[of p st k d a l]) (auto intro!: ledger_ok_put simp: res_ok_def)

lemma mark_uncertain_used:
  assumes "ledger_ok l"
  shows "used (snd (mark_uncertain k l)) d = used l d"
proof (cases "dict_get (reservations l) k")
  case (Some r)
  then show ?thesis
    using assms by (cases "res_status r")
      (auto simp: mark_uncertain_def Let_def used_put_old ledger_ok_dict weight_def
        counts_for_def res_amount_def split: option.splits)
qed (simp add: mark_uncertain_def)

section \<open>Sequences of ledger operations\<close>

datatype ledger_event =
  EReserve "string \<times> seconds" string budget_dimension int
| ESettle string int
| ERelease string
| EMarkUncertain string

fun ledger_step :: "run_budget_policy \<Rightarrow> ledger \<Rightarrow> ledger_event \<Rightarrow> ledger" where
  "ledger_step p l (EReserve st k d a) = snd (reserve p st k d a l)"
| "ledger_step p l (ESettle k a) = snd (settle p k a l)"
| "ledger_step p l (ERelease k) = snd (release k l)"
| "ledger_step p l (EMarkUncertain k) = snd (mark_uncertain k l)"

definition within_limits :: "run_budget_policy \<Rightarrow> ledger \<Rightarrow> bool" where
  "within_limits p l \<longleftrightarrow> (\<forall>d cap. limit_for p d = Some cap \<longrightarrow> used l d \<le> cap)"

definition limits_ok :: "run_budget_policy \<Rightarrow> bool" where
  "limits_ok p \<longleftrightarrow> list_all (\<lambda>d. case limit_for p d of None \<Rightarrow> True | Some cap \<Rightarrow> 0 \<le> cap)
     enum_class.enum"

lemma limits_okD: "limits_ok p \<Longrightarrow> limit_for p d = Some cap \<Longrightarrow> 0 \<le> cap"
  by (cases d) (auto simp: limits_ok_def enum_budget_dimension_def)

lemma used_empty [simp]: "used empty_ledger d = 0"
  by (simp add: used_def empty_ledger_def dict_values_def)

definition ledger_inv :: "run_budget_policy \<Rightarrow> ledger \<Rightarrow> bool" where
  "ledger_inv p l \<longleftrightarrow> ledger_ok l \<and> (exhausted l = None \<longrightarrow> within_limits p l)"

lemma ledger_step_ok: "ledger_ok l \<Longrightarrow> ledger_ok (ledger_step p l e)"
  by (cases e) (simp_all add: reserve_ok settle_ok release_ok mark_uncertain_ok)

lemma ledger_step_exhausted: "exhausted l \<noteq> None \<Longrightarrow> exhausted (ledger_step p l e) \<noteq> None"
  by (cases e)
    (auto simp: reserve_def settle_def release_def mark_uncertain_def Let_def split: option.splits)

lemma reserve_within:
  "within_limits p l \<Longrightarrow> within_limits p (snd (reserve p st k d a l))"
  by (cases rule: reserve_cases[of p st k d a l])
    (auto simp: within_limits_def used_put_fresh weight_fresh)

lemma used_settle:
  assumes "ledger_ok l" "dict_get (reservations l) k = Some r" "res_status r \<noteq> SETTLED" "0 \<le> a"
  shows "used (snd (settle p k a l)) d =
    used l d - weight d r + (if res_dimension r = d then a else 0)"
  using assms
  by (simp add: settle_def Let_def used_put_old ledger_ok_dict weight_def counts_for_def
      res_amount_def)

lemma settle_same:
  assumes "\<not> (0 \<le> a \<and> (\<exists>r. dict_get (reservations l) k = Some r \<and> res_status r \<noteq> SETTLED))"
  shows "snd (settle p k a l) = l"
  using assms by (auto simp: settle_def split: option.splits)

lemma settle_flag:
  assumes "ledger_ok l" "exhausted l = None \<longrightarrow> within_limits p l"
  shows "exhausted (snd (settle p k a l)) = None \<longrightarrow> within_limits p (snd (settle p k a l))"
proof (cases "0 \<le> a \<and> (\<exists>r. dict_get (reservations l) k = Some r \<and> res_status r \<noteq> SETTLED)")
  case False
  from settle_same[OF this, of p] assms show ?thesis by simp
next
  case True
  then obtain r where r: "dict_get (reservations l) k = Some r" "res_status r \<noteq> SETTLED" "0 \<le> a"
    by auto
  show ?thesis
  proof (intro impI)
    assume ex: "exhausted (snd (settle p k a l)) = None"
    let ?l = "put_reservation k (r\<lparr>res_actual := Some a, res_status := SETTLED\<rparr>) l"
    have l': "snd (settle p k a l) = ?l"
      and cap: "\<forall>cap. limit_for p (res_dimension r) = Some cap \<longrightarrow> used ?l (res_dimension r) \<le> cap"
      using ex r by (auto simp: settle_def Let_def split: option.splits if_splits)
    have "exhausted l = None" using ex l' by simp
    with assms have "within_limits p l" by simp
    moreover have "used ?l d \<le> used l d" if "d \<noteq> res_dimension r" for d
      using used_settle[OF assms(1) r, of p d] weight_nonneg[OF ledger_okD[OF assms(1) r(1)]] that
      by (simp add: l' weight_def counts_for_def)
    ultimately show "within_limits p (snd (settle p k a l))"
      using cap unfolding l' within_limits_def by (metis order_trans)
  qed
qed

lemma ledger_step_inv: "ledger_inv p l \<Longrightarrow> ledger_inv p (ledger_step p l e)"
proof (cases e)
  case (EReserve st k d a)
  then show "ledger_inv p l \<Longrightarrow> ?thesis"
    using reserve_within[of p l st k d a] ledger_step_exhausted[of l p e]
    by (auto simp: ledger_inv_def reserve_ok)
next
  case (ESettle k a)
  then show "ledger_inv p l \<Longrightarrow> ?thesis"
    by (simp add: ledger_inv_def settle_ok settle_flag)
next
  case (ERelease k)
  then show "ledger_inv p l \<Longrightarrow> ?thesis"
    using release_used_le[of l k] ledger_step_exhausted[of l p e]
    by (auto simp: ledger_inv_def release_ok within_limits_def intro: order_trans[OF release_used_le])
next
  case (EMarkUncertain k)
  then show "ledger_inv p l \<Longrightarrow> ?thesis"
    using ledger_step_exhausted[of l p e]
    by (auto simp: ledger_inv_def mark_uncertain_ok within_limits_def mark_uncertain_used)
qed

interpretation budget: ranked_machine "ledger_step p" "ledger_inv p" "\<lambda>_. True"
    "\<lambda>l. exhausted l \<noteq> None" for p
  by unfold_locales (use ledger_step_exhausted in \<open>auto simp: ledger_step_inv\<close>)

lemma ledger_inv_empty: "limits_ok p \<Longrightarrow> ledger_inv p empty_ledger"
  by (auto simp: ledger_inv_def ledger_ok_empty within_limits_def dest: limits_okD)

section \<open>A reservation keeps its identity\<close>

definition holds_reservation ::
    "string \<Rightarrow> string \<Rightarrow> budget_dimension \<Rightarrow> int \<Rightarrow> ledger \<Rightarrow> bool" where
  "holds_reservation k i d a l \<longleftrightarrow>
     (case dict_get (reservations l) k of
        None \<Rightarrow> False
      | Some r \<Rightarrow> res_id r = i \<and> res_dimension r = d \<and> res_reserved r = a)"

lemma holds_reservation_put:
  "holds_reservation k i d a l \<Longrightarrow>
    (k' = k \<Longrightarrow> res_id r = i \<and> res_dimension r = d \<and> res_reserved r = a) \<Longrightarrow>
    holds_reservation k i d a (put_reservation k' r l)"
  by (auto simp: holds_reservation_def)

lemma holds_reservation_exhausted [simp]:
  "holds_reservation k i d a (l\<lparr>exhausted := x\<rparr>) = holds_reservation k i d a l"
  by (simp add: holds_reservation_def)

lemma ledger_step_holds:
  assumes "holds_reservation k i d a l"
  shows "holds_reservation k i d a (ledger_step p l e)"
proof (cases e)
  case (EReserve st k' d' a')
  then show ?thesis using assms
    by (cases rule: reserve_cases[of p st k' d' a' l])
      (auto intro!: holds_reservation_put simp: holds_reservation_def split: option.splits)
qed (use assms in \<open>auto simp: settle_def release_def mark_uncertain_def Let_def
      holds_reservation_def split: option.splits\<close>)

lemma run_holds:
  "holds_reservation k i d a l \<Longrightarrow> holds_reservation k i d a (run (ledger_step p) l es)"
  by (induction es arbitrary: l) (simp_all add: ledger_step_holds)

lemma reserve_holds:
  assumes "reserve p st k d a l = (Inr r, l')"
  shows "holds_reservation k (res_id r) d a l'"
  by (cases rule: reserve_cases[of p st k d a l])
    (use assms in \<open>auto simp: holds_reservation_def\<close>)

section \<open>Rolling back a failed model call\<close>

definition held_weight :: "ledger \<Rightarrow> string list \<Rightarrow> budget_dimension \<Rightarrow> int" where
  "held_weight l ks d = sum_list (map (\<lambda>k. weight d (the (dict_get (reservations l) k))) ks)"

definition open_key :: "ledger \<Rightarrow> string \<Rightarrow> bool" where
  "open_key l k \<longleftrightarrow> (\<exists>r. dict_get (reservations l) k = Some r \<and> res_status r = RESERVED)"

lemma release_open:
  assumes "ledger_ok l" "open_key l k"
  shows "used (snd (release k l)) d = used l d - weight d (the (dict_get (reservations l) k))"
    and "dict_get (reservations (snd (release k l))) k' =
      (if k' = k then map_option (\<lambda>r. r\<lparr>res_actual := Some 0, res_status := RELEASED\<rparr>)
        (dict_get (reservations l) k) else dict_get (reservations l) k')"
  using assms by (auto simp: release_def open_key_def Let_def used_put_old ledger_ok_dict)

lemma release_all_Cons: "release_all (k # ks) l = release_all ks (snd (release k l))"
  by (simp add: release_all_def)

lemma release_all_spec:
  "ledger_ok l \<Longrightarrow> distinct ks \<Longrightarrow> list_all (open_key l) ks \<Longrightarrow>
    used (release_all ks l) d = used l d - held_weight l ks d \<and>
    dict_get (reservations (release_all ks l)) k' =
      (if k' \<in> set ks then map_option (\<lambda>r. r\<lparr>res_actual := Some 0, res_status := RELEASED\<rparr>)
        (dict_get (reservations l) k') else dict_get (reservations l) k')"
proof (induction ks arbitrary: l)
  case Nil
  then show ?case by (simp add: release_all_def held_weight_def)
next
  case (Cons k ks)
  let ?l = "snd (release k l)"
  have o: "open_key l k" and d: "k \<notin> set ks" and ok: "ledger_ok ?l"
    using Cons.prems by (auto simp: release_ok)
  have same: "dict_get (reservations ?l) j = dict_get (reservations l) j" if "j \<in> set ks" for j
    using that d release_open(2)[OF Cons.prems(1) o, of j] by auto
  have "list_all (open_key ?l) ks"
    using Cons.prems(3) same by (auto simp: list_all_iff open_key_def)
  note IH = Cons.IH[OF ok _ this]
  have "held_weight ?l ks d = held_weight l ks d"
    unfolding held_weight_def using same by (intro arg_cong[where f = sum_list] map_cong) auto
  then show ?case
    using IH Cons.prems release_open[OF Cons.prems(1) o] d
    by (auto simp: release_all_Cons held_weight_def)
qed

text \<open>\<open>l\<close> is \<open>l0\<close> plus the open reservations of \<open>ks\<close>.\<close>

definition extends :: "ledger \<Rightarrow> string list \<Rightarrow> ledger \<Rightarrow> bool" where
  "extends l0 ks l \<longleftrightarrow> ledger_ok l \<and> distinct ks \<and> list_all (open_key l) ks \<and>
     (\<forall>k. k \<in> set ks \<longrightarrow> dict_get (reservations l0) k = None) \<and>
     (\<forall>k. k \<notin> set ks \<longrightarrow> dict_get (reservations l) k = dict_get (reservations l0) k) \<and>
     (\<forall>d. used l d = used l0 d + held_weight l ks d)"

definition plan_keys :: "plan_step list \<Rightarrow> string list" where
  "plan_keys steps = concat (map (\<lambda>s. case s of Inl _ \<Rightarrow> [] | Inr (k, _) \<Rightarrow> [k]) steps)"

definition plan_amount :: "plan_step list \<Rightarrow> budget_dimension \<Rightarrow> int" where
  "plan_amount steps d = sum_list
     (map (\<lambda>s. case s of Inl _ \<Rightarrow> 0 | Inr (_, d', a) \<Rightarrow> if d' = d then a else 0) steps)"

definition rolled_back :: "ledger \<Rightarrow> ledger \<Rightarrow> bool" where
  "rolled_back l0 l \<longleftrightarrow>
     (\<forall>d. used l d = used l0 d) \<and>
     (\<forall>k. dict_get (reservations l) k = dict_get (reservations l0) k \<or>
        dict_get (reservations l0) k = None \<and>
        (\<exists>r. dict_get (reservations l) k = Some r \<and> res_status r = RELEASED))"

lemma extends_release_all:
  assumes "extends l0 ks l"
  shows "rolled_back l0 (release_all ks l)"
proof -
  have spec: "used (release_all ks l) d = used l d - held_weight l ks d"
    "dict_get (reservations (release_all ks l)) k' =
      (if k' \<in> set ks then map_option (\<lambda>r. r\<lparr>res_actual := Some 0, res_status := RELEASED\<rparr>)
        (dict_get (reservations l) k') else dict_get (reservations l) k')" for d k'
    using release_all_spec[of l ks d k'] assms by (auto simp: extends_def)
  then show ?thesis
    using assms by (auto simp: rolled_back_def extends_def list_all_iff open_key_def)
qed

lemma extends_exhausted [simp]: "extends l0 ks (l\<lparr>exhausted := x\<rparr>) = extends l0 ks l"
  by (simp add: extends_def held_weight_def open_key_def list_all_iff)

lemma extends_put:
  assumes "extends l0 ks l" "dict_get (reservations l) k = None" "k \<notin> set ks"
    and "res_status r = RESERVED" "res_ok r"
  shows "extends l0 (ks @ [k]) (put_reservation k r l)"
proof -
  have "held_weight (put_reservation k r l) ks d = held_weight l ks d" for d
    unfolding held_weight_def using assms(3)
    by (intro arg_cong[where f = sum_list] map_cong) auto
  then show ?thesis
    using assms by (auto simp: extends_def ledger_ok_put list_all_iff open_key_def used_put_fresh
        held_weight_def)
qed

lemma run_plan_spec:
  assumes "extends l0 ks l" "distinct (plan_keys steps)"
    "\<forall>k \<in> set (plan_keys steps). k \<notin> set ks \<and> dict_get (reservations l0) k = None"
    "run_plan p stamps steps ks l = (res, l')"
  shows "case res of Inl _ \<Rightarrow> rolled_back l0 l'
     | Inr _ \<Rightarrow> (\<forall>d. used l' d = used l d + plan_amount steps d) \<and>
         (within_limits p l \<longrightarrow> within_limits p l')"
  using assms
proof (induction p stamps steps ks l rule: run_plan.induct)
  case (1 p stamps ks l)
  then show ?case by (auto simp: plan_amount_def)
next
  case (2 p stamps e steps ks l)
  then show ?case by (auto simp: extends_release_all)
next
  case (3 p stamps k d a steps ks l)
  have keys: "k \<notin> set ks" "dict_get (reservations l0) k = None"
    "dict_get (reservations l) k = None" "k \<notin> set (plan_keys steps)"
    using "3.prems" by (auto simp: plan_keys_def extends_def)
  let ?st = "stamps (length ks)"
  show ?case
  proof (cases rule: reserve_cases[of p ?st k d a l])
    case (rejected e)
    with 3 show ?thesis by (auto simp: extends_release_all)
  next
    case (full cap)
    with 3 show ?thesis by (auto simp: extends_release_all)
  next
    case (known r)
    with keys show ?thesis by simp
  next
    case (fresh r)
    let ?l = "put_reservation k r l"
    have ext: "extends l0 (ks @ [k]) ?l"
      using fresh by (intro extends_put[OF "3.prems"(1) keys(3,1)]) (simp_all add: res_ok_def)
    have within: "within_limits p l \<longrightarrow> within_limits p ?l"
      using reserve_within[of p l ?st k d a] fresh(1) by simp
    have used: "used ?l d' = used l d' + (if d = d' then a else 0)" for d'
      using fresh by (simp add: used_put_fresh weight_fresh)
    have "case res of Inl _ \<Rightarrow> rolled_back l0 l'
       | Inr _ \<Rightarrow> (\<forall>d. used l' d = used ?l d + plan_amount steps d) \<and>
           (within_limits p ?l \<longrightarrow> within_limits p l')"
    proof (rule "3.IH"[OF fresh(1)[symmetric] refl ext])
      show "distinct (plan_keys steps)" using "3.prems"(2) by (simp add: plan_keys_def)
      show "\<forall>k' \<in> set (plan_keys steps). k' \<notin> set (ks @ [k]) \<and> dict_get (reservations l0) k' = None"
        using "3.prems"(3) keys(4) by (auto simp: plan_keys_def)
      show "run_plan p stamps steps (ks @ [k]) ?l = (res, l')"
        using "3.prems"(4) fresh(1) by simp
    qed
    then show ?thesis
      using within used by (auto simp: plan_amount_def split: sum.splits)
  qed
qed

lemma model_call_plan_keys:
  "distinct (plan_keys (model_call_plan p pricing key i out m)) \<and>
   set (plan_keys (model_call_plan p pricing key i out m)) \<subseteq>
     {key, key @ '':input'', key @ '':output'', key @ '':cost''}"
  by (auto simp: plan_keys_def model_call_plan_def split: sum.splits)

lemma extends_refl: "ledger_ok l \<Longrightarrow> extends l [] l"
  by (simp add: extends_def held_weight_def)

section \<open>Properties\<close>

text \<open>C28. Whatever sequence of reserve, settle, release and mark-uncertain operations runs on a new
  ledger, a run that is not flagged exhausted is within every configured limit, and a dimension
  over its limit means the flag is set.\<close>

theorem budget_never_silently_exceeded:
  assumes "limits_ok p" and "l = run (ledger_step p) empty_ledger es"
    and "limit_for p d = Some cap"
  shows "used l d \<le> cap \<or> snap_exhausted (ledger_snapshot l)"
  using budget.inv_run[OF ledger_inv_empty[OF assms(1)], of es] assms(2,3)
  by (auto simp: ledger_inv_def within_limits_def ledger_snapshot_def list_all_iff)

definition call_policy :: run_budget_policy where
  "call_policy = \<lparr>max_model_calls = Some 2, max_tool_calls = None, max_input_tokens = Some 100,
     max_output_tokens = None, max_cost_micro_usd = None, max_fetch_calls = None\<rparr>"

lemmas budget_eval = reserve_def settle_def release_def mark_uncertain_def put_reservation_def
  used_def dict_values_def counts_for_def res_amount_def Let_def empty_ledger_def call_policy_def

lemma call_policy_ok: "limits_ok call_policy"
  by (simp add: limits_ok_def enum_budget_dimension_def call_policy_def)

theorem budget_never_silently_exceeded_witness:
  "(let l = run (ledger_step call_policy) empty_ledger
      [EReserve (''i'', 0) ''k'' INPUT_TOKENS 60, ESettle ''k'' 130]
    in used l INPUT_TOKENS = 130 \<and> snap_exhausted (ledger_snapshot l))"
proof -
  let ?l = "run (ledger_step call_policy) empty_ledger
      [EReserve (''i'', 0) ''k'' INPUT_TOKENS 60, ESettle ''k'' 130]"
  have u: "used ?l INPUT_TOKENS = 130" by (simp add: budget_eval)
  have c: "limit_for call_policy INPUT_TOKENS = Some 100" by (simp add: call_policy_def)
  show ?thesis
    using budget_never_silently_exceeded[OF call_policy_ok refl c,
        of "[EReserve (''i'', 0) ''k'' INPUT_TOKENS 60, ESettle ''k'' 130]"] u
    by (simp add: Let_def)
qed

text \<open>Reserving is idempotent across any history: once an operation key has been reserved, a
  later reservation of the same amount on the same key returns the same reservation and
  changes nothing, however the ledger was used in between; a different amount or dimension is
  refused.\<close>

lemma reserve_idempotent:
  assumes "reserve p st k d a l = (Inr r, l1)" and "l2 = run (ledger_step p) l1 es"
  shows "(\<exists>r'. reserve p st' k d a l2 = (Inr r', l2) \<and> res_id r' = res_id r) \<and>
    (0 < a' \<longrightarrow> (d', a') \<noteq> (d, a) \<longrightarrow> reserve p st' k d' a' l2 = (Inl ReservationMismatch, l2))"
proof -
  have "0 < a" using assms(1) by (auto simp: reserve_def split: if_splits)
  moreover have "holds_reservation k (res_id r) d a l2"
    using run_holds[OF reserve_holds[OF assms(1)]] assms(2) by simp
  ultimately show ?thesis
    by (auto simp: reserve_def holds_reservation_def split: option.splits)
qed

lemma reserve_idempotent_witness:
  "\<exists>r l1. reserve call_policy (''i'', 0) ''k'' MODEL_CALLS 1 empty_ledger = (Inr r, l1) \<and>
     (\<exists>r'. reserve call_policy (''j'', 9) ''k'' MODEL_CALLS 1
        (run (ledger_step call_policy) l1 [ESettle ''k'' 1, EMarkUncertain ''k'']) =
          (Inr r', run (ledger_step call_policy) l1 [ESettle ''k'' 1, EMarkUncertain ''k'']) \<and>
        res_id r' = res_id r)"
proof -
  obtain r l1 where r: "reserve call_policy (''i'', 0) ''k'' MODEL_CALLS 1 empty_ledger = (Inr r, l1)"
    by (simp add: budget_eval)
  show ?thesis
    using r reserve_idempotent[OF r refl, of "(''j'', 9)" "[ESettle ''k'' 1, EMarkUncertain ''k'']"]
    by blast
qed

text \<open>Reserving a model call is all-or-nothing. With fresh operation keys, an error (a full
  budget, a missing price, the deadline) leaves the usage of every dimension and every earlier
  reservation as they were, and what this call had reserved is released; success charges
  exactly the planned amounts and keeps a ledger within its limits within them.\<close>

lemma reserve_model_call_atomic:
  assumes "ledger_ok l"
    and "list_all (\<lambda>s. dict_get (reservations l) (key @ s) = None)
      [[], '':input'', '':output'', '':cost'']"
    and "reserve_model_call g now stamps key est_in est_out model l = (res, l')"
  shows "case res of
      Inl _ \<Rightarrow> rolled_back l l'
    | Inr _ \<Rightarrow> (case gate_policy g of
        None \<Rightarrow> l' = l
      | Some p \<Rightarrow>
          (\<forall>d. used l' d = used l d +
             plan_amount (model_call_plan p (cost_pricing g) key est_in est_out model) d) \<and>
          (within_limits p l \<longrightarrow> within_limits p l'))"
proof (cases "check_deadline g ''model'' now")
  case (Inl e)
  with assms(3) have "res = Inl e" "l' = l" by (simp_all add: reserve_model_call_def)
  then show ?thesis by (simp add: rolled_back_def)
next
  case (Inr u)
  show ?thesis
  proof (cases "gate_policy g")
    case None
    with Inr assms(3) have "res = Inr ()" "l' = l" by (simp_all add: reserve_model_call_def)
    with None show ?thesis by simp
  next
    case (Some p)
    let ?plan = "model_call_plan p (cost_pricing g) key est_in est_out model"
    have fresh: "\<forall>k \<in> set (plan_keys ?plan). k \<notin> set [] \<and> dict_get (reservations l) k = None"
      using model_call_plan_keys[of p "cost_pricing g" key est_in est_out model] assms(2)
      by (force simp: list_all_iff)
    from Inr Some assms(3) have "run_plan p stamps ?plan [] l = (res, l')"
      by (simp add: reserve_model_call_def)
    from run_plan_spec[OF extends_refl[OF assms(1)] _ fresh this] model_call_plan_keys
    show ?thesis by (cases res) (simp_all add: Some)
  qed
qed

definition tight_gate :: budget_gate where
  "tight_gate = \<lparr>gate_policy = Some call_policy, deadline_at = None, cost_pricing = []\<rparr>"

lemma reserve_model_call_atomic_witness:
  "\<exists>l'. reserve_model_call tight_gate 0 (\<lambda>_. (''i'', 0)) ''op'' 500 10 ''m'' empty_ledger =
      (Inl (BudgetExhausted INPUT_TOKENS), l') \<and> used l' MODEL_CALLS = 0"
proof -
  obtain l' where r: "reserve_model_call tight_gate 0 (\<lambda>_. (''i'', 0)) ''op'' 500 10 ''m'' empty_ledger =
      (Inl (BudgetExhausted INPUT_TOKENS), l')"
    by (simp add: reserve_model_call_def tight_gate_def check_deadline_def model_call_plan_def
        budget_eval)
  have f: "list_all (\<lambda>s. dict_get (reservations empty_ledger) (''op'' @ s) = None)
      [[], '':input'', '':output'', '':cost'']"
    by (simp add: empty_ledger_def)
  show ?thesis
    using reserve_model_call_atomic[OF ledger_ok_empty f r] r by (simp add: rolled_back_def)
qed

text \<open>A released reservation is handed out again for nothing: after \<open>release\<close>, reserving the
  same key, dimension and amount succeeds for every policy, even a zero limit, returns the
  reservation still in status \<open>released\<close>, and adds nothing to the usage.\<close>

lemma released_reservation_reused_free:
  assumes "dict_get (reservations l) k = Some r" and "res_status r \<noteq> SETTLED" and "0 < res_reserved r"
    and "dict_ok (reservations l)"
  shows "\<exists>r'. reserve p st k (res_dimension r) (res_reserved r) (snd (release k l)) =
      (Inr r', snd (release k l)) \<and> res_status r' = RELEASED \<and>
      weight d r' = 0 \<and> used (snd (release k l)) d = used l d - weight d r"
  using assms by (auto simp: release_def reserve_def Let_def used_put_old)

lemma released_reservation_reused_free_witness:
  "\<exists>l r'. reserve (call_policy\<lparr>max_input_tokens := Some 0\<rparr>) (''j'', 1) ''k'' INPUT_TOKENS 60
      (snd (release ''k'' l)) = (Inr r', snd (release ''k'' l)) \<and> res_status r' = RELEASED"
proof -
  let ?r = "\<lparr>res_id = ''i'', res_key = ''k'', res_dimension = INPUT_TOKENS, res_reserved = 60,
      res_actual = None, res_status = RESERVED, res_created_at = 0\<rparr>"
  let ?l = "\<lparr>reservations = [(''k'', ?r)], exhausted = None\<rparr>"
  have h: "dict_get (reservations ?l) ''k'' = Some ?r" "res_status ?r \<noteq> SETTLED"
    "0 < res_reserved ?r" "dict_ok (reservations ?l)"
    by (simp_all add: dict_ok_def)
  show ?thesis
    using released_reservation_reused_free[OF h, of "call_policy\<lparr>max_input_tokens := Some 0\<rparr>"
        "(''j'', 1)" INPUT_TOKENS] by auto
qed

lemma find_sorted_first:
  assumes "sorted (map f xs)" "List.find P xs = Some k" "k' \<in> set xs" "P k'"
  shows "(f k :: 'b :: linorder) \<le> f k'"
  using assms by (induction xs) (auto split: if_splits)

text \<open>Pricing matches the longest priced key that is a prefix of the model id or of the id
  without its provider, and fails exactly when no key is one.\<close>

lemma match_price_longest:
  "case match_price model costs of
     None \<Rightarrow> list_all (\<lambda>k. \<not> starts_with model k \<and> \<not> starts_with (after_colon model) k)
       (dict_keys costs)
   | Some k \<Rightarrow> k \<in> set (dict_keys costs) \<and>
       (starts_with model k \<or> starts_with (after_colon model) k) \<and>
       (\<forall>k'. k' \<in> set (dict_keys costs) \<longrightarrow>
          starts_with model k' \<or> starts_with (after_colon model) k' \<longrightarrow> length k' \<le> length k)"
proof (cases "match_price model costs")
  case None
  then have "\<forall>k \<in> set (dict_keys costs). \<not> starts_with model k \<and> \<not> starts_with (after_colon model) k"
    by (auto simp: match_price_def find_None_iff price_keys_def)
  with None show ?thesis by (simp add: list_all_iff)
next
  case (Some k)
  have sorted: "sorted (map (\<lambda>k. - int (length k)) (price_keys costs))"
    by (simp add: price_keys_def)
  from Some have f: "List.find (\<lambda>k. starts_with model k \<or> starts_with (after_colon model) k)
      (price_keys costs) = Some k" by (simp add: match_price_def)
  have "k \<in> set (price_keys costs)" "starts_with model k \<or> starts_with (after_colon model) k"
    using f by (auto simp: find_Some_iff)
  moreover have "length k' \<le> length k"
    if "k' \<in> set (price_keys costs)"
      "starts_with model k' \<or> starts_with (after_colon model) k'" for k'
    using find_sorted_first[OF sorted f that] by simp
  ultimately show ?thesis using Some by (auto simp: price_keys_def)
qed

lemma match_price_longest_witness:
  "match_price ''openai:gpt-4.1'' [(''gpt-4.1'', []), (''openai:gpt'', [])] = Some ''openai:gpt'' \<and>
   length ''gpt-4.1'' \<le> length ''openai:gpt''"
proof -
  let ?c = "[(''gpt-4.1'', []), (''openai:gpt'', [])] :: price_table"
  have c: "after_colon ''openai:gpt-4.1'' = ''gpt-4.1''" by (simp add: after_colon_def)
  have m: "match_price ''openai:gpt-4.1'' ?c = Some ''openai:gpt''"
    by (simp add: match_price_def price_keys_def dict_keys_def starts_with_def c)
  from match_price_longest[of "''openai:gpt-4.1''" ?c, unfolded m option.case]
  have "''gpt-4.1'' \<in> set (dict_keys ?c) \<longrightarrow>
      starts_with ''openai:gpt-4.1'' ''gpt-4.1'' \<or> starts_with (after_colon ''openai:gpt-4.1'') ''gpt-4.1''
      \<longrightarrow> length ''gpt-4.1'' \<le> length ''openai:gpt''" by blast
  with m c show ?thesis by (simp add: dict_keys_def starts_with_def)
qed

end
