(* ===== verification/Mailbox.thy ===== *)
theory Mailbox
  imports Prelude
begin

text \<open>
  The durable mailbox of the coordination layer (\<open>src/open_deep_research/tasks/mailbox.py\<close>).

  \<open>inbox_state\<close> is what is on disk for one agent: the inbox file (\<open>None\<close> when it does not
  exist yet), the dead-letter file and the corruption marker. Each method of \<open>FileMailbox\<close> runs
  an operation on the loaded inbox under the file lock and writes the inbox back only when the
  operation returns: an exception leaves the inbox file as it was. Clock readings, the new
  message's id and its payload are arguments. Unreadable JSON is not modelled.
\<close>

section \<open>Identifiers\<close>

definition ascii_alnum :: "char \<Rightarrow> bool" where
  "ascii_alnum c \<longleftrightarrow> (let n = of_char c :: nat in
     (48 \<le> n \<and> n \<le> 57) \<or> (65 \<le> n \<and> n \<le> 90) \<or> (97 \<le> n \<and> n \<le> 122))"

text \<open>\<open>[A-Za-z0-9][A-Za-z0-9._-]{0,127}\<close> as a full match.\<close>

definition safe_component :: "string \<Rightarrow> bool" where
  "safe_component s \<longleftrightarrow>
     (case s of [] \<Rightarrow> False
      | c # cs \<Rightarrow> ascii_alnum c \<and> length cs \<le> 127 \<and>
          list_all (\<lambda>x. ascii_alnum x \<or> x = CHR ''.'' \<or> x = CHR ''_'' \<or> x = CHR ''-'') cs)"

definition valid_component :: "string \<Rightarrow> bool" where
  "valid_component s \<longleftrightarrow> safe_component s \<and> \<not> str_contains s ''..''"

section \<open>Messages\<close>

datatype message_status = PENDING | PROCESSING | ACKED | DEAD_LETTER

record mailbox_message =
  message_id :: string
  sequence :: int
  msg_run_id :: string
  sender :: string
  recipient :: string
  msg_type :: string
  priority :: int
  payload :: string
  created_at :: seconds
  msg_status :: message_status
  attempt_count :: int
  lease_owner :: "string option"
  lease_expires_at :: "seconds option"
  acked_at :: "seconds option"
  dedupe_key :: "string option"

record mailbox_file =
  agent_id :: string
  next_sequence :: int
  messages :: "mailbox_message list"

record inbox_state =
  inbox_file :: "mailbox_file option"
  dead_letters :: "mailbox_message list"
  corrupted_marker :: bool

record mailbox_config =
  mb_run_id :: string
  claim_lease_seconds :: seconds
  max_delivery_attempts :: int
  acked_retention_seconds :: seconds
  compaction_threshold :: int

datatype mailbox_error =
  InvalidComponent string string
| CoordinationCorrupted
| NotOwned string

definition validate_component :: "string \<Rightarrow> string \<Rightarrow> mailbox_error + string" where
  "validate_component value kind =
     (if valid_component value then Inr value else Inl (InvalidComponent kind value))"

text \<open>\<open>x or d\<close> for an optional number: \<open>None\<close> and zero are falsy.\<close>

definition or_else :: "seconds option \<Rightarrow> seconds \<Rightarrow> seconds" where
  "or_else x d = (case x of None \<Rightarrow> d | Some t \<Rightarrow> if t = 0 then d else t)"

section \<open>Operations on a loaded inbox\<close>

definition compact :: "mailbox_config \<Rightarrow> seconds \<Rightarrow> mailbox_file \<Rightarrow> mailbox_file" where
  "compact cfg now mb =
     (if int (length (messages mb)) < compaction_threshold cfg then mb
      else (let cutoff = now - acked_retention_seconds cfg
            in mb\<lparr>messages := filter (\<lambda>m. msg_status m \<noteq> ACKED \<or> or_else (acked_at m) now \<ge> cutoff)
                 (messages mb)\<rparr>))"

definition append_dead_letters ::
    "mailbox_message list \<Rightarrow> mailbox_message list \<Rightarrow> mailbox_message list" where
  "append_dead_letters dead existing =
     (if dead = [] then existing
      else existing @ filter (\<lambda>m. message_id m \<notin> message_id ` set existing) dead)"

record send_request =
  req_recipient :: string
  req_sender :: string
  req_type :: string
  req_payload :: string
  req_priority :: int
  req_dedupe_key :: "string option"

definition find_duplicate :: "string option \<Rightarrow> mailbox_message list \<Rightarrow> mailbox_message option" where
  "find_duplicate key ms =
     (case key of
        None \<Rightarrow> None
      | Some k \<Rightarrow> if k = [] then None else List.find (\<lambda>m. dedupe_key m = Some k) ms)"

definition send_op ::
    "mailbox_config \<Rightarrow> string \<Rightarrow> seconds \<Rightarrow> seconds \<Rightarrow> send_request \<Rightarrow> mailbox_file \<Rightarrow>
      mailbox_message \<times> mailbox_file" where
  "send_op cfg new_id created now req mb =
     (case find_duplicate (req_dedupe_key req) (messages mb) of
        Some m \<Rightarrow> (m, mb)
      | None \<Rightarrow>
          (let m = \<lparr>message_id = new_id, sequence = next_sequence mb, msg_run_id = mb_run_id cfg,
                    sender = req_sender req, recipient = req_recipient req,
                    msg_type = req_type req, priority = req_priority req,
                    payload = req_payload req, created_at = created, msg_status = PENDING,
                    attempt_count = 0, lease_owner = None, lease_expires_at = None,
                    acked_at = None, dedupe_key = req_dedupe_key req\<rparr>
           in (m, compact cfg now (mb\<lparr>next_sequence := next_sequence mb + 1,
                                     messages := messages mb @ [m]\<rparr>))))"

text \<open>The first loop of \<open>claim\<close>: expired leases return to pending, exhausted messages die.\<close>

definition recover_lease :: "seconds \<Rightarrow> mailbox_message \<Rightarrow> mailbox_message" where
  "recover_lease now m =
     (if msg_status m = PROCESSING \<and> or_else (lease_expires_at m) 0 \<le> now
      then m\<lparr>msg_status := PENDING, lease_owner := None, lease_expires_at := None\<rparr> else m)"

definition dies :: "mailbox_config \<Rightarrow> mailbox_message \<Rightarrow> bool" where
  "dies cfg m \<longleftrightarrow> msg_status m = PENDING \<and> attempt_count m \<ge> max_delivery_attempts cfg"

definition triage :: "mailbox_config \<Rightarrow> seconds \<Rightarrow> mailbox_message \<Rightarrow> mailbox_message" where
  "triage cfg now m =
     (let m' = recover_lease now m in if dies cfg m' then m'\<lparr>msg_status := DEAD_LETTER\<rparr> else m')"

definition newly_dead :: "mailbox_config \<Rightarrow> seconds \<Rightarrow> mailbox_message list \<Rightarrow> mailbox_message list" where
  "newly_dead cfg now ms =
     map (triage cfg now) (filter (\<lambda>m. dies cfg (recover_lease now m)) ms)"

definition lease_to :: "mailbox_config \<Rightarrow> string \<Rightarrow> seconds \<Rightarrow> mailbox_message \<Rightarrow> mailbox_message" where
  "lease_to cfg consumer now m =
     m\<lparr>msg_status := PROCESSING, attempt_count := attempt_count m + 1,
       lease_owner := Some consumer, lease_expires_at := Some (now + claim_lease_seconds cfg)\<rparr>"

definition claim_key :: "nat \<times> mailbox_message \<Rightarrow> int \<times> int" where
  "claim_key x = (priority (snd x), sequence (snd x))"

definition claim_candidates :: "int \<Rightarrow> mailbox_message list \<Rightarrow> (nat \<times> mailbox_message) list" where
  "claim_candidates limit ms =
     py_upto limit (sort_key claim_key
       (filter (\<lambda>x. msg_status (snd x) = PENDING) (List.enumerate 0 ms)))"

definition claim_op ::
    "mailbox_config \<Rightarrow> string \<Rightarrow> int \<Rightarrow> seconds \<Rightarrow> mailbox_file \<Rightarrow>
      (mailbox_message list \<times> mailbox_message list) \<times> mailbox_file" where
  "claim_op cfg consumer limit now mb =
     (let ms = map (triage cfg now) (messages mb);
          candidates = claim_candidates limit ms;
          chosen = map fst candidates;
          ms' = map (\<lambda>(i, m). if i \<in> set chosen then lease_to cfg consumer now m else m)
                  (List.enumerate 0 ms)
      in ((map (\<lambda>(i, m). lease_to cfg consumer now m) candidates,
           newly_dead cfg now (messages mb)),
          compact cfg now (mb\<lparr>messages := ms'\<rparr>)))"

definition owned_by :: "string \<Rightarrow> mailbox_message \<Rightarrow> bool" where
  "owned_by consumer m \<longleftrightarrow> msg_status m = PROCESSING \<and> lease_owner m = Some consumer"

text \<open>The ownership check of \<open>ack\<close> and \<open>nack\<close>: the first listed message not owned raises.\<close>

definition first_not_owned :: "string \<Rightarrow> string list \<Rightarrow> mailbox_message list \<Rightarrow> mailbox_message option" where
  "first_not_owned consumer ids ms =
     List.find (\<lambda>m. message_id m \<in> set ids \<and> \<not> owned_by consumer m) ms"

definition ack_op ::
    "mailbox_config \<Rightarrow> string \<Rightarrow> string list \<Rightarrow> seconds \<Rightarrow> mailbox_file \<Rightarrow>
      mailbox_error + mailbox_file" where
  "ack_op cfg consumer ids now mb =
     (case first_not_owned consumer ids (messages mb) of
        Some m \<Rightarrow> Inl (NotOwned (message_id m))
      | None \<Rightarrow>
          Inr (compact cfg now (mb\<lparr>messages := map (\<lambda>m.
            if message_id m \<in> set ids
            then m\<lparr>msg_status := ACKED, acked_at := Some now, lease_owner := None,
                   lease_expires_at := None\<rparr>
            else m) (messages mb)\<rparr>)))"

definition nack_one :: "mailbox_config \<Rightarrow> mailbox_message \<Rightarrow> mailbox_message" where
  "nack_one cfg m =
     m\<lparr>lease_owner := None, lease_expires_at := None,
       msg_status := (if attempt_count m \<ge> max_delivery_attempts cfg then DEAD_LETTER else PENDING)\<rparr>"

definition nack_op ::
    "mailbox_config \<Rightarrow> string \<Rightarrow> string list \<Rightarrow> mailbox_file \<Rightarrow>
      mailbox_error + mailbox_message list \<times> mailbox_file" where
  "nack_op cfg consumer ids mb =
     (case first_not_owned consumer ids (messages mb) of
        Some m \<Rightarrow> Inl (NotOwned (message_id m))
      | None \<Rightarrow>
          Inr (filter (\<lambda>m. msg_status m = DEAD_LETTER)
                 (map (nack_one cfg) (filter (\<lambda>m. message_id m \<in> set ids) (messages mb))),
               mb\<lparr>messages := map (\<lambda>m. if message_id m \<in> set ids then nack_one cfg m else m)
                 (messages mb)\<rparr>))"

section \<open>The locked file operations\<close>

definition load_locked :: "string \<Rightarrow> inbox_state \<Rightarrow> (mailbox_error + mailbox_file) \<times> inbox_state" where
  "load_locked agent st =
     (case inbox_file st of
        None \<Rightarrow> (Inr \<lparr>agent_id = agent, next_sequence = 1, messages = []\<rparr>, st)
      | Some mb \<Rightarrow>
          if agent_id mb \<noteq> agent then (Inl CoordinationCorrupted, st\<lparr>corrupted_marker := True\<rparr>)
          else (Inr mb, st))"

definition mailbox_send ::
    "mailbox_config \<Rightarrow> string \<Rightarrow> seconds \<Rightarrow> seconds \<Rightarrow> send_request \<Rightarrow> inbox_state \<Rightarrow>
      (mailbox_error + mailbox_message) \<times> inbox_state" where
  "mailbox_send cfg new_id created now req st =
     (case validate_component (req_sender req) ''sender'' of
        Inl e \<Rightarrow> (Inl e, st)
      | Inr _ \<Rightarrow>
     (case validate_component (req_recipient req) ''agent_id'' of
        Inl e \<Rightarrow> (Inl e, st)
      | Inr agent \<Rightarrow>
     (case load_locked agent st of
        (Inl e, st') \<Rightarrow> (Inl e, st')
      | (Inr mb, st') \<Rightarrow>
          (let (m, mb') = send_op cfg new_id created now req mb
           in (Inr m, st'\<lparr>inbox_file := Some mb'\<rparr>)))))"

definition mailbox_claim ::
    "mailbox_config \<Rightarrow> string \<Rightarrow> string \<Rightarrow> int \<Rightarrow> seconds \<Rightarrow> inbox_state \<Rightarrow>
      (mailbox_error + mailbox_message list) \<times> inbox_state" where
  "mailbox_claim cfg agent consumer limit now st =
     (case validate_component consumer ''consumer_id'' of
        Inl e \<Rightarrow> (Inl e, st)
      | Inr _ \<Rightarrow>
     (case validate_component agent ''agent_id'' of
        Inl e \<Rightarrow> (Inl e, st)
      | Inr _ \<Rightarrow>
     (case load_locked agent st of
        (Inl e, st') \<Rightarrow> (Inl e, st')
      | (Inr mb, st') \<Rightarrow>
          (let ((claimed, dead), mb') = claim_op cfg consumer limit now mb
           in (Inr claimed,
               st'\<lparr>inbox_file := Some mb',
                   dead_letters := append_dead_letters dead (dead_letters st')\<rparr>)))))"

definition mailbox_ack ::
    "mailbox_config \<Rightarrow> string \<Rightarrow> string \<Rightarrow> string list \<Rightarrow> seconds \<Rightarrow> inbox_state \<Rightarrow>
      (mailbox_error + unit) \<times> inbox_state" where
  "mailbox_ack cfg agent consumer ids now st =
     (case validate_component agent ''agent_id'' of
        Inl e \<Rightarrow> (Inl e, st)
      | Inr _ \<Rightarrow>
     (case load_locked agent st of
        (Inl e, st') \<Rightarrow> (Inl e, st')
      | (Inr mb, st') \<Rightarrow>
          (case ack_op cfg consumer ids now mb of
             Inl e \<Rightarrow> (Inl e, st')
           | Inr mb' \<Rightarrow> (Inr (), st'\<lparr>inbox_file := Some mb'\<rparr>))))"

definition mailbox_nack ::
    "mailbox_config \<Rightarrow> string \<Rightarrow> string \<Rightarrow> string list \<Rightarrow> inbox_state \<Rightarrow>
      (mailbox_error + unit) \<times> inbox_state" where
  "mailbox_nack cfg agent consumer ids st =
     (case validate_component agent ''agent_id'' of
        Inl e \<Rightarrow> (Inl e, st)
      | Inr _ \<Rightarrow>
     (case load_locked agent st of
        (Inl e, st') \<Rightarrow> (Inl e, st')
      | (Inr mb, st') \<Rightarrow>
          (case nack_op cfg consumer ids mb of
             Inl e \<Rightarrow> (Inl e, st')
           | Inr (dead, mb') \<Rightarrow>
               (Inr (), st'\<lparr>inbox_file := Some mb',
                  dead_letters := append_dead_letters dead (dead_letters st')\<rparr>))))"

text \<open>
  \<open>wait_and_claim\<close>: one entry of \<open>polls\<close> per iteration, with the wall clock of the claim, the
  monotonic clock read after it and what other processes do to the inbox before it. \<open>None\<close>
  means that the loop is still waiting when the listed iterations are over.
\<close>

fun wait_and_claim ::
    "mailbox_config \<Rightarrow> string \<Rightarrow> string \<Rightarrow> int \<Rightarrow> seconds \<Rightarrow>
      (seconds \<times> seconds \<times> (inbox_state \<Rightarrow> inbox_state)) list \<Rightarrow> inbox_state \<Rightarrow>
      (mailbox_error + mailbox_message list) option \<times> inbox_state" where
  "wait_and_claim cfg agent consumer limit deadline [] st = (None, st)"
| "wait_and_claim cfg agent consumer limit deadline ((now, mtime, others) # polls) st =
     (case mailbox_claim cfg agent consumer limit now (others st) of
        (Inl e, st') \<Rightarrow> (Some (Inl e), st')
      | (Inr ms, st') \<Rightarrow>
          if ms \<noteq> [] \<or> mtime \<ge> deadline then (Some (Inr ms), st')
          else wait_and_claim cfg agent consumer limit deadline polls st')"

record mailbox_stats =
  stat_pending :: nat
  stat_processing :: nat
  stat_acked :: nat
  stat_dead_letter :: nat
  stat_available :: nat

definition count_status :: "message_status \<Rightarrow> mailbox_message list \<Rightarrow> nat" where
  "count_status s ms = length (filter (\<lambda>m. msg_status m = s) ms)"

definition stats_op :: "seconds \<Rightarrow> mailbox_file \<Rightarrow> mailbox_stats" where
  "stats_op now mb =
     (let ms = messages mb in
      \<lparr>stat_pending = count_status PENDING ms, stat_processing = count_status PROCESSING ms,
       stat_acked = count_status ACKED ms, stat_dead_letter = count_status DEAD_LETTER ms,
       stat_available = count_status PENDING ms + length (filter
         (\<lambda>m. msg_status m = PROCESSING \<and> or_else (lease_expires_at m) 0 \<le> now) ms)\<rparr>)"

definition mailbox_stats_of ::
    "string \<Rightarrow> seconds \<Rightarrow> inbox_state \<Rightarrow> (mailbox_error + mailbox_stats) \<times> inbox_state" where
  "mailbox_stats_of agent now st =
     (case validate_component agent ''agent_id'' of
        Inl e \<Rightarrow> (Inl e, st)
      | Inr _ \<Rightarrow>
     (case load_locked agent st of
        (Inl e, st') \<Rightarrow> (Inl e, st')
      | (Inr mb, st') \<Rightarrow> (Inr (stats_op now mb), st'\<lparr>inbox_file := Some mb\<rparr>)))"

section \<open>Sequences of operations on one inbox\<close>

datatype mailbox_event =
  MSend string seconds seconds send_request
| MClaim string int seconds
| MAck string "string list" seconds
| MNack string "string list"

fun mailbox_step :: "mailbox_config \<Rightarrow> mailbox_file \<Rightarrow> mailbox_event \<Rightarrow> mailbox_file" where
  "mailbox_step cfg mb (MSend i c now req) = snd (send_op cfg i c now req mb)"
| "mailbox_step cfg mb (MClaim consumer limit now) = snd (claim_op cfg consumer limit now mb)"
| "mailbox_step cfg mb (MAck consumer ids now) =
     (case ack_op cfg consumer ids now mb of Inl _ \<Rightarrow> mb | Inr mb' \<Rightarrow> mb')"
| "mailbox_step cfg mb (MNack consumer ids) =
     (case nack_op cfg consumer ids mb of Inl _ \<Rightarrow> mb | Inr (_, mb') \<Rightarrow> mb')"

text \<open>The sequence numbers an operation delivers.\<close>

fun delivered :: "mailbox_config \<Rightarrow> mailbox_file \<Rightarrow> mailbox_event \<Rightarrow> int list" where
  "delivered cfg mb (MClaim consumer limit now) =
     map sequence (fst (fst (claim_op cfg consumer limit now mb)))"
| "delivered cfg mb _ = []"

fun deliveries :: "mailbox_config \<Rightarrow> mailbox_file \<Rightarrow> mailbox_event list \<Rightarrow> int list" where
  "deliveries cfg mb [] = []"
| "deliveries cfg mb (e # es) = delivered cfg mb e @ deliveries cfg (mailbox_step cfg mb e) es"

definition new_mailbox :: "string \<Rightarrow> mailbox_file" where
  "new_mailbox agent = \<lparr>agent_id = agent, next_sequence = 1, messages = []\<rparr>"

section \<open>The invariant\<close>

definition message_ok :: "mailbox_config \<Rightarrow> mailbox_message \<Rightarrow> bool" where
  "message_ok cfg m \<longleftrightarrow>
     (msg_status m = PROCESSING \<longleftrightarrow> lease_owner m \<noteq> None) \<and>
     (lease_expires_at m = None \<longleftrightarrow> lease_owner m = None) \<and>
     (msg_status m = ACKED \<longrightarrow> acked_at m \<noteq> None) \<and>
     0 \<le> attempt_count m \<and> attempt_count m \<le> max_delivery_attempts cfg"

definition key_of :: "string option \<Rightarrow> string list" where
  "key_of k = (case k of None \<Rightarrow> [] | Some k \<Rightarrow> if k = [] then [] else [k])"

definition dedupe_keys :: "mailbox_message list \<Rightarrow> string list" where
  "dedupe_keys ms = concat (map (\<lambda>m. key_of (dedupe_key m)) ms)"

definition mailbox_inv :: "mailbox_config \<Rightarrow> mailbox_file \<Rightarrow> bool" where
  "mailbox_inv cfg mb \<longleftrightarrow>
     sorted_wrt (<) (map sequence (messages mb)) \<and>
     (\<forall>m \<in> set (messages mb). sequence m < next_sequence mb \<and> message_ok cfg m) \<and>
     distinct (dedupe_keys (messages mb))"

text \<open>Three list facts: updating messages by position, filtering them, looking one up.\<close>

lemma map_enumerate_keep:
  "(\<And>i m. f (g i m) = f m) \<Longrightarrow>
    map f (map (\<lambda>(i, m). g i m) (List.enumerate n ms)) = map f ms"
  by (induction ms arbitrary: n) auto

lemma set_map_enumerate:
  "x \<in> set (map (\<lambda>(i, m). g i m) (List.enumerate 0 ms)) \<longleftrightarrow>
    (\<exists>i < length ms. x = g i (ms ! i))"
  by (force simp: in_set_enumerate_eq)

lemma dedupe_keys_map:
  assumes "map dedupe_key ms' = map dedupe_key ms"
  shows "dedupe_keys ms' = dedupe_keys ms"
proof -
  have *: "dedupe_keys xs = concat (map key_of (map dedupe_key xs))" for xs
    by (simp add: dedupe_keys_def comp_def)
  show ?thesis unfolding * assms ..
qed

lemma in_dedupe_keys:
  "k \<in> set (dedupe_keys ms) \<longleftrightarrow> k \<noteq> [] \<and> (\<exists>m \<in> set ms. dedupe_key m = Some k)"
  by (force simp: dedupe_keys_def key_of_def split: option.splits if_splits)

lemma dedupe_keys_simps [simp]:
  "dedupe_keys [] = []"
  "dedupe_keys (m # ms) = key_of (dedupe_key m) @ dedupe_keys ms"
  "dedupe_keys (ms @ ms') = dedupe_keys ms @ dedupe_keys ms'"
  by (simp_all add: dedupe_keys_def)

lemma dedupe_keys_filter: "distinct (dedupe_keys ms) \<Longrightarrow> distinct (dedupe_keys (filter P ms))"
proof (induction ms)
  case (Cons m ms)
  have "set (dedupe_keys (filter P ms)) \<subseteq> set (dedupe_keys ms)" by (auto simp: in_dedupe_keys)
  with Cons show ?case by auto
qed simp

lemma sorted_wrt_map_filter:
  "sorted_wrt R (map f ms) \<Longrightarrow> sorted_wrt R (map f (filter P ms))"
  by (induction ms) auto

lemma compact_messages:
  "\<exists>P. messages (compact cfg now mb) = filter P (messages mb) \<and>
    (\<forall>m. msg_status m \<noteq> ACKED \<longrightarrow> P m)"
proof (cases "int (length (messages mb)) < compaction_threshold cfg")
  case True
  then show ?thesis by (intro exI[of _ "\<lambda>_. True"]) (simp add: compact_def)
next
  case False
  then show ?thesis
    by (intro exI[of _ "\<lambda>m. msg_status m \<noteq> ACKED \<or>
        or_else (acked_at m) now \<ge> now - acked_retention_seconds cfg"])
      (simp add: compact_def Let_def)
qed

lemma compact_simps [simp]:
  "next_sequence (compact cfg now mb) = next_sequence mb"
  "agent_id (compact cfg now mb) = agent_id mb"
  by (simp_all add: compact_def Let_def)

lemma compact_subset: "set (messages (compact cfg now mb)) \<subseteq> set (messages mb)"
  using compact_messages[of cfg now mb] by auto

lemma compact_keeps:
  "m \<in> set (messages mb) \<Longrightarrow> msg_status m \<noteq> ACKED \<Longrightarrow> m \<in> set (messages (compact cfg now mb))"
  using compact_messages[of cfg now mb] by auto

lemma compact_inv: "mailbox_inv cfg mb \<Longrightarrow> mailbox_inv cfg (compact cfg now mb)"
  using compact_messages[of cfg now mb]
  by (auto simp: mailbox_inv_def sorted_wrt_map_filter dedupe_keys_filter)

text \<open>Replacing the messages by ones with the same sequence numbers and keys.\<close>

lemma mailbox_inv_replace:
  assumes "mailbox_inv cfg mb" "map sequence ms = map sequence (messages mb)"
    "map dedupe_key ms = map dedupe_key (messages mb)" "\<forall>m \<in> set ms. message_ok cfg m"
  shows "mailbox_inv cfg (mb\<lparr>messages := ms\<rparr>)"
proof -
  have "\<forall>m \<in> set ms. sequence m < next_sequence mb"
  proof
    fix m
    assume "m \<in> set ms"
    then have "sequence m \<in> set (map sequence (messages mb))" using assms(2) by (metis image_eqI set_map)
    then show "sequence m < next_sequence mb" using assms(1) by (auto simp: mailbox_inv_def)
  qed
  then show ?thesis
    using assms dedupe_keys_map[OF assms(3)] by (auto simp: mailbox_inv_def)
qed

lemma new_mailbox_inv: "mailbox_inv cfg (new_mailbox a)"
  by (simp add: mailbox_inv_def new_mailbox_def)

section \<open>Claiming\<close>

lemma triage_simps [simp]:
  "sequence (triage cfg now m) = sequence m"
  "dedupe_key (triage cfg now m) = dedupe_key m"
  "message_id (triage cfg now m) = message_id m"
  "priority (triage cfg now m) = priority m"
  "attempt_count (triage cfg now m) = attempt_count m"
  by (simp_all add: triage_def recover_lease_def Let_def)

lemma triage_ok: "message_ok cfg m \<Longrightarrow> message_ok cfg (triage cfg now m)"
  by (auto simp: triage_def recover_lease_def dies_def message_ok_def Let_def)

lemma triage_pending:
  "msg_status (triage cfg now m) = PENDING \<Longrightarrow> attempt_count m < max_delivery_attempts cfg"
  by (auto simp: triage_def dies_def Let_def recover_lease_def split: if_splits)

lemma triage_held:
  "msg_status m = PROCESSING \<Longrightarrow> lease_expires_at m = Some t \<Longrightarrow> t \<noteq> 0 \<Longrightarrow> now < t \<Longrightarrow>
    triage cfg now m = m"
  by (simp add: triage_def recover_lease_def dies_def or_else_def Let_def)

lemma lease_to_simps [simp]:
  "sequence (lease_to cfg c now m) = sequence m"
  "dedupe_key (lease_to cfg c now m) = dedupe_key m"
  "priority (lease_to cfg c now m) = priority m"
  "attempt_count (lease_to cfg c now m) = attempt_count m + 1"
  "msg_status (lease_to cfg c now m) = PROCESSING"
  "lease_owner (lease_to cfg c now m) = Some c"
  "lease_expires_at (lease_to cfg c now m) = Some (now + claim_lease_seconds cfg)"
  by (simp_all add: lease_to_def)

lemma claim_candidates_in:
  "(i, m) \<in> set (claim_candidates limit ms) \<Longrightarrow> i < length ms \<and> m = ms ! i \<and> msg_status m = PENDING"
  using set_py_upto[of limit "sort_key claim_key (filter (\<lambda>x. msg_status (snd x) = PENDING)
      (List.enumerate 0 ms))"]
  by (auto simp: claim_candidates_def in_set_enumerate_eq)

lemma distinct_py_upto: "distinct xs \<Longrightarrow> distinct (py_upto n xs)"
  by (simp add: py_upto_def)

lemma py_upto_map: "py_upto n (map f xs) = map f (py_upto n xs)"
  by (simp add: py_upto_def take_map)

lemma distinct_candidates: "distinct (map fst (claim_candidates limit ms))"
proof -
  let ?xs = "filter (\<lambda>x. msg_status (snd x) = PENDING) (List.enumerate 0 ms)"
  have "distinct (map fst ?xs)" by (rule distinct_map_filter) simp
  then have "distinct (map fst (sort_key claim_key ?xs))"
    by (simp add: distinct_map)
  then show ?thesis
    by (simp add: claim_candidates_def py_upto_map[symmetric] distinct_py_upto)
qed

definition chosen_indices :: "mailbox_config \<Rightarrow> int \<Rightarrow> seconds \<Rightarrow> mailbox_file \<Rightarrow> nat list" where
  "chosen_indices cfg limit now mb =
     map fst (claim_candidates limit (map (triage cfg now) (messages mb)))"

definition claimed_messages ::
    "mailbox_config \<Rightarrow> string \<Rightarrow> int \<Rightarrow> seconds \<Rightarrow> mailbox_file \<Rightarrow> mailbox_message list" where
  "claimed_messages cfg c limit now mb =
     map (\<lambda>(i, m). if i \<in> set (chosen_indices cfg limit now mb) then lease_to cfg c now m else m)
       (List.enumerate 0 (map (triage cfg now) (messages mb)))"

lemma claim_op_eq:
  "snd (claim_op cfg c limit now mb) =
     compact cfg now (mb\<lparr>messages := claimed_messages cfg c limit now mb\<rparr>)"
  "fst (fst (claim_op cfg c limit now mb)) =
     map (\<lambda>i. lease_to cfg c now (triage cfg now (messages mb ! i)))
       (chosen_indices cfg limit now mb)"
  by (auto simp: claim_op_def claimed_messages_def chosen_indices_def Let_def comp_def
      dest: claim_candidates_in)

lemma chosen_indices_in:
  assumes "i \<in> set (chosen_indices cfg limit now mb)"
  shows "i < length (messages mb)" "msg_status (triage cfg now (messages mb ! i)) = PENDING"
    "attempt_count (messages mb ! i) < max_delivery_attempts cfg"
proof -
  from assms obtain m where m: "(i, m) \<in> set (claim_candidates limit (map (triage cfg now) (messages mb)))"
    by (auto simp: chosen_indices_def)
  from claim_candidates_in[OF m]
  show i: "i < length (messages mb)" and "msg_status (triage cfg now (messages mb ! i)) = PENDING"
    by auto
  then show "attempt_count (messages mb ! i) < max_delivery_attempts cfg"
    using triage_pending by blast
qed

lemma distinct_chosen: "distinct (chosen_indices cfg limit now mb)"
  by (simp add: chosen_indices_def distinct_candidates)

lemma claimed_messages_map:
  "map sequence (claimed_messages cfg c limit now mb) = map sequence (messages mb)"
  "map dedupe_key (claimed_messages cfg c limit now mb) = map dedupe_key (messages mb)"
  unfolding claimed_messages_def by (subst map_enumerate_keep; simp add: comp_def)+

lemma claimed_messages_in:
  "m' \<in> set (claimed_messages cfg c limit now mb) \<longleftrightarrow>
    (\<exists>i < length (messages mb). m' =
      (if i \<in> set (chosen_indices cfg limit now mb)
       then lease_to cfg c now (triage cfg now (messages mb ! i))
       else triage cfg now (messages mb ! i)))"
  unfolding claimed_messages_def by (subst set_map_enumerate) (simp cong: conj_cong)

lemma lease_to_ok:
  "message_ok cfg m \<Longrightarrow> attempt_count m < max_delivery_attempts cfg \<Longrightarrow>
    message_ok cfg (lease_to cfg c now m)"
  by (auto simp: message_ok_def lease_to_def)

lemma claim_inv: "mailbox_inv cfg mb \<Longrightarrow> mailbox_inv cfg (snd (claim_op cfg c limit now mb))"
  unfolding claim_op_eq
  by (intro compact_inv mailbox_inv_replace)
    (auto simp: claimed_messages_map claimed_messages_in mailbox_inv_def
      intro!: lease_to_ok triage_ok chosen_indices_in(3))

section \<open>Sending, acknowledging, releasing\<close>

lemma find_duplicate_None:
  "find_duplicate key ms = None \<longleftrightarrow> set (key_of key) \<inter> set (dedupe_keys ms) = {}"
proof (cases key)
  case (Some k)
  then show ?thesis
    by (cases "k = []") (auto simp: find_duplicate_def find_None_iff in_dedupe_keys key_of_def)
qed (simp add: find_duplicate_def key_of_def)

definition appended :: "mailbox_config \<Rightarrow> string \<Rightarrow> seconds \<Rightarrow> send_request \<Rightarrow> mailbox_file \<Rightarrow> mailbox_file" where
  "appended cfg i created req mb =
     mb\<lparr>next_sequence := next_sequence mb + 1, messages := messages mb @
       [\<lparr>message_id = i, sequence = next_sequence mb, msg_run_id = mb_run_id cfg,
         sender = req_sender req, recipient = req_recipient req,
         msg_type = req_type req, priority = req_priority req,
         payload = req_payload req, created_at = created, msg_status = PENDING,
         attempt_count = 0, lease_owner = None, lease_expires_at = None,
         acked_at = None, dedupe_key = req_dedupe_key req\<rparr>]\<rparr>"

lemma send_op_eq:
  "snd (send_op cfg i c now req mb) =
     (if find_duplicate (req_dedupe_key req) (messages mb) = None
      then compact cfg now (appended cfg i c req mb) else mb)"
  by (simp add: send_op_def appended_def Let_def split: option.splits)

lemma send_inv:
  assumes "mailbox_inv cfg mb" "0 \<le> max_delivery_attempts cfg"
  shows "mailbox_inv cfg (snd (send_op cfg i c now req mb))"
proof (cases "find_duplicate (req_dedupe_key req) (messages mb)")
  case None
  then have "set (key_of (req_dedupe_key req)) \<inter> set (dedupe_keys (messages mb)) = {}"
    by (simp add: find_duplicate_None)
  then have "mailbox_inv cfg (appended cfg i c req mb)"
    using assms
    by (auto simp: appended_def mailbox_inv_def sorted_wrt_append message_ok_def key_of_def
        split: option.splits)
  with None show ?thesis by (simp add: send_op_eq compact_inv)
qed (use assms in \<open>simp add: send_op_def\<close>)

lemma ack_inv:
  assumes "mailbox_inv cfg mb" "ack_op cfg c ids now mb = Inr mb'"
  shows "mailbox_inv cfg mb'"
proof -
  let ?f = "\<lambda>m. if message_id m \<in> set ids
    then m\<lparr>msg_status := ACKED, acked_at := Some now, lease_owner := None, lease_expires_at := None\<rparr>
    else m"
  have "mailbox_inv cfg (mb\<lparr>messages := map ?f (messages mb)\<rparr>)"
    using assms(1)
    by (intro mailbox_inv_replace) (auto simp: mailbox_inv_def message_ok_def comp_def intro: map_cong)
  with assms(2) show ?thesis by (auto simp: ack_op_def compact_inv split: option.splits)
qed

lemma nack_inv:
  assumes "mailbox_inv cfg mb" "nack_op cfg c ids mb = Inr (dead, mb')"
  shows "mailbox_inv cfg mb'"
proof -
  let ?f = "\<lambda>m. if message_id m \<in> set ids then nack_one cfg m else m"
  have "mailbox_inv cfg (mb\<lparr>messages := map ?f (messages mb)\<rparr>)"
    using assms(1)
    by (intro mailbox_inv_replace)
      (auto simp: mailbox_inv_def message_ok_def nack_one_def comp_def intro: map_cong split: if_splits)
  with assms(2) show ?thesis by (auto simp: nack_op_def split: option.splits)
qed

lemma mailbox_step_inv:
  "mailbox_inv cfg mb \<Longrightarrow> 0 \<le> max_delivery_attempts cfg \<Longrightarrow> mailbox_inv cfg (mailbox_step cfg mb e)"
  by (cases e) (auto simp: send_inv claim_inv dest: ack_inv nack_inv split: sum.splits)

interpretation inbox: machine "mailbox_step cfg"
    "\<lambda>mb. mailbox_inv cfg mb \<and> 0 \<le> max_delivery_attempts cfg" "\<lambda>_. True" for cfg
  by unfold_locales (simp add: mailbox_step_inv)

section \<open>How often a message is delivered\<close>

text \<open>The deliveries a sequence number can still have: all of them if it is not assigned yet,
  what is left of them while its message is in the inbox, none once the message is gone.\<close>

definition left_of :: "mailbox_config \<Rightarrow> int \<Rightarrow> mailbox_message \<Rightarrow> int" where
  "left_of cfg s m = (if sequence m = s then max_delivery_attempts cfg - attempt_count m else 0)"

definition remaining :: "mailbox_config \<Rightarrow> int \<Rightarrow> mailbox_file \<Rightarrow> int" where
  "remaining cfg s mb = (if next_sequence mb \<le> s then max_delivery_attempts cfg else 0) +
     sum_list (map (left_of cfg s) (messages mb))"

lemma left_of_nonneg: "message_ok cfg m \<Longrightarrow> 0 \<le> left_of cfg s m"
  by (simp add: left_of_def message_ok_def)

lemma remaining_nonneg:
  "mailbox_inv cfg mb \<Longrightarrow> 0 \<le> max_delivery_attempts cfg \<Longrightarrow> 0 \<le> remaining cfg s mb"
  by (auto simp: remaining_def mailbox_inv_def left_of_nonneg intro!: add_nonneg_nonneg sum_list_nonneg)

lemma sum_list_filter_le:
  "\<forall>x \<in> set xs. 0 \<le> f x \<Longrightarrow> sum_list (map f (filter P xs)) \<le> (sum_list (map f xs) :: int)"
  by (induction xs) auto

lemma remaining_compact:
  assumes "\<forall>m \<in> set (messages mb). message_ok cfg m"
  shows "remaining cfg s (compact cfg now mb) \<le> remaining cfg s mb"
proof -
  obtain P where P: "messages (compact cfg now mb) = filter P (messages mb)"
    using compact_messages by blast
  have "sum_list (map (left_of cfg s) (filter P (messages mb)))
      \<le> sum_list (map (left_of cfg s) (messages mb))"
    using assms by (intro sum_list_filter_le) (simp add: left_of_nonneg)
  with P show ?thesis by (simp add: remaining_def)
qed

lemma remaining_send:
  assumes "mailbox_inv cfg mb" "0 \<le> max_delivery_attempts cfg"
  shows "remaining cfg s (snd (send_op cfg i c now req mb)) \<le> remaining cfg s mb"
proof (cases "find_duplicate (req_dedupe_key req) (messages mb)")
  case None
  have "\<forall>m \<in> set (messages (appended cfg i c req mb)). message_ok cfg m"
    using assms by (auto simp: appended_def mailbox_inv_def message_ok_def)
  then have "remaining cfg s (compact cfg now (appended cfg i c req mb))
      \<le> remaining cfg s (appended cfg i c req mb)"
    by (rule remaining_compact)
  also have "\<dots> = remaining cfg s mb" by (simp add: remaining_def appended_def left_of_def)
  finally show ?thesis using None by (simp add: send_op_eq)
qed (simp add: send_op_def)

lemma remaining_same:
  assumes "map (left_of cfg s) ms = map (left_of cfg s) (messages mb)"
  shows "remaining cfg s (mb\<lparr>messages := ms\<rparr>) = remaining cfg s mb"
  using assms by (simp add: remaining_def)

lemma length_claimed_messages [simp]:
  "length (claimed_messages cfg c limit now mb) = length (messages mb)"
  by (simp add: claimed_messages_def)

lemma claimed_messages_nth:
  "i < length (messages mb) \<Longrightarrow> claimed_messages cfg c limit now mb ! i =
    (if i \<in> set (chosen_indices cfg limit now mb)
     then lease_to cfg c now (triage cfg now (messages mb ! i))
     else triage cfg now (messages mb ! i))"
  by (simp add: claimed_messages_def nth_enumerate_eq)

lemma count_distinct_map:
  "distinct xs \<Longrightarrow> int (count_list (map f xs) y) = (\<Sum>x\<in>set xs. if f x = y then 1 else 0)"
  by (induction xs) auto

lemma remaining_claimed:
  "int (count_list (map sequence (fst (fst (claim_op cfg c limit now mb)))) s) +
     remaining cfg s (mb\<lparr>messages := claimed_messages cfg c limit now mb\<rparr>) = remaining cfg s mb"
proof -
  let ?C = "set (chosen_indices cfg limit now mb)" and ?n = "length (messages mb)"
  let ?hit = "\<lambda>i. if sequence (messages mb ! i) = s then 1 else 0 :: int"
  have sub: "?C \<subseteq> {..<?n}" using chosen_indices_in(1) by auto
  have "int (count_list (map sequence (fst (fst (claim_op cfg c limit now mb)))) s) = (\<Sum>i\<in>?C. ?hit i)"
    by (simp add: claim_op_eq comp_def count_distinct_map[OF distinct_chosen])
  also have "\<dots> = (\<Sum>i<?n. if i \<in> ?C then ?hit i else 0)"
    using sub by (simp add: sum.inter_restrict[symmetric] Int_absorb1)
  finally have count: "int (count_list (map sequence (fst (fst (claim_op cfg c limit now mb)))) s) =
      (\<Sum>i<?n. if i \<in> ?C then ?hit i else 0)" .
  have "(\<Sum>i<?n. left_of cfg s (claimed_messages cfg c limit now mb ! i)) +
      (\<Sum>i<?n. if i \<in> ?C then ?hit i else 0) = (\<Sum>i<?n. left_of cfg s (messages mb ! i))"
    unfolding sum.distrib[symmetric]
    by (rule sum.cong) (auto simp: claimed_messages_nth left_of_def)
  then show ?thesis
    unfolding count by (simp add: remaining_def sum_list_sum_nth atLeast0LessThan)
qed

lemma remaining_step:
  assumes inv: "mailbox_inv cfg mb" "0 \<le> max_delivery_attempts cfg"
  shows "int (count_list (delivered cfg mb e) s) + remaining cfg s (mailbox_step cfg mb e)
    \<le> remaining cfg s mb"
proof (cases e)
  case (MSend i c now req)
  with remaining_send[OF inv] show ?thesis by simp
next
  case (MClaim c limit now)
  have "\<forall>m \<in> set (claimed_messages cfg c limit now mb). message_ok cfg m"
    using inv by (auto simp: claimed_messages_in mailbox_inv_def
        intro!: lease_to_ok triage_ok chosen_indices_in(3))
  with remaining_compact[of "mb\<lparr>messages := claimed_messages cfg c limit now mb\<rparr>" cfg s now]
  show ?thesis
    using remaining_claimed[of cfg c limit now mb s] MClaim
    by (simp add: claim_op_eq(1))
next
  case (MAck c ids now)
  show ?thesis
  proof (cases "first_not_owned c ids (messages mb)")
    case None
    let ?f = "\<lambda>m. if message_id m \<in> set ids
      then m\<lparr>msg_status := ACKED, acked_at := Some now, lease_owner := None, lease_expires_at := None\<rparr>
      else m"
    have ok: "\<forall>m \<in> set (map ?f (messages mb)). message_ok cfg m"
      using inv by (auto simp: mailbox_inv_def message_ok_def)
    have "remaining cfg s (mb\<lparr>messages := map ?f (messages mb)\<rparr>) = remaining cfg s mb"
      by (rule remaining_same) (auto simp: left_of_def comp_def intro: map_cong)
    with remaining_compact[of "mb\<lparr>messages := map ?f (messages mb)\<rparr>" cfg s now] ok
    show ?thesis using None MAck by (simp add: ack_op_def)
  qed (use MAck in \<open>simp add: ack_op_def\<close>)
next
  case (MNack c ids)
  have "remaining cfg s (mb\<lparr>messages := map (\<lambda>m. if message_id m \<in> set ids then nack_one cfg m else m)
      (messages mb)\<rparr>) = remaining cfg s mb"
    by (rule remaining_same) (auto simp: left_of_def nack_one_def comp_def intro: map_cong)
  with MNack show ?thesis by (auto simp: nack_op_def split: option.splits)
qed

lemma remaining_run:
  assumes "mailbox_inv cfg mb" "0 \<le> max_delivery_attempts cfg"
  shows "int (count_list (deliveries cfg mb es) s) \<le> remaining cfg s mb"
  using assms
proof (induction es arbitrary: mb)
  case Nil
  then show ?case by (simp add: remaining_nonneg)
next
  case (Cons e es)
  then have "int (count_list (deliveries cfg (mailbox_step cfg mb e) es) s)
      \<le> remaining cfg s (mailbox_step cfg mb e)"
    by (simp add: mailbox_step_inv)
  with remaining_step[OF Cons.prems, of e s] show ?case by simp
qed

section \<open>A lease excludes other consumers until it expires\<close>

text \<open>The operations that cannot end the lease of \<open>owner\<close> that runs until \<open>until\<close>: claims made
  before it expires, and acknowledgements or releases by other consumers.\<close>

fun leaves_lease :: "string \<Rightarrow> seconds \<Rightarrow> mailbox_event \<Rightarrow> bool" where
  "leaves_lease owner until (MSend i c now req) \<longleftrightarrow> True"
| "leaves_lease owner until (MClaim c limit now) \<longleftrightarrow> now < until"
| "leaves_lease owner until (MAck c ids now) \<longleftrightarrow> c \<noteq> owner"
| "leaves_lease owner until (MNack c ids) \<longleftrightarrow> c \<noteq> owner"

definition held_by :: "string \<Rightarrow> seconds \<Rightarrow> mailbox_message \<Rightarrow> bool" where
  "held_by owner until m \<longleftrightarrow> msg_status m = PROCESSING \<and> lease_owner m = Some owner \<and>
     lease_expires_at m = Some until"

lemma foreign_ids:
  assumes "held_by owner until m" "m \<in> set ms" "c \<noteq> owner" "first_not_owned c ids ms = None"
  shows "message_id m \<notin> set ids"
  using assms by (auto simp: first_not_owned_def find_None_iff held_by_def owned_by_def)

lemma lease_kept:
  assumes held: "held_by owner until m" "m \<in> set (messages mb)" "until \<noteq> 0"
    and e: "leaves_lease owner until e"
  shows "m \<in> set (messages (mailbox_step cfg mb e))"
proof (cases e)
  case (MSend i c now req)
  have "m \<in> set (messages (appended cfg i c req mb))" using held by (simp add: appended_def)
  with MSend held show ?thesis by (auto simp: send_op_eq held_by_def intro: compact_keeps)
next
  case (MClaim c limit now)
  from held(2) obtain i where i: "i < length (messages mb)" "messages mb ! i = m"
    by (auto simp: in_set_conv_nth)
  have same: "triage cfg now m = m"
    using held e MClaim by (intro triage_held[of _ until]) (auto simp: held_by_def)
  then have "i \<notin> set (chosen_indices cfg limit now mb)"
    using chosen_indices_in(2)[of i cfg limit now mb] i held(1) by (auto simp: held_by_def)
  with same i have "claimed_messages cfg c limit now mb ! i = m"
    by (simp add: claimed_messages_nth)
  then have "m \<in> set (claimed_messages cfg c limit now mb)"
    using i(1) by (metis length_claimed_messages nth_mem)
  with MClaim held show ?thesis by (auto simp: claim_op_eq held_by_def intro: compact_keeps)
next
  case (MAck c ids now)
  show ?thesis
  proof (cases "first_not_owned c ids (messages mb)")
    case None
    with foreign_ids[OF held(1,2) _ None] MAck e held show ?thesis
      by (auto simp: ack_op_def held_by_def intro!: compact_keeps image_eqI[of _ _ m])
  qed (use MAck held in \<open>simp add: ack_op_def\<close>)
next
  case (MNack c ids)
  show ?thesis
  proof (cases "first_not_owned c ids (messages mb)")
    case None
    with foreign_ids[OF held(1,2) _ None] MNack e held show ?thesis
      by (auto simp: nack_op_def intro!: image_eqI[of _ _ m])
  qed (use MNack held in \<open>simp add: nack_op_def\<close>)
qed

section \<open>The order in which messages are claimed\<close>

lemma py_upto_take: "\<exists>k. py_upto n xs = take k xs"
  by (auto simp: py_upto_def)

lemma sorted_take_drop:
  assumes "sorted (map f xs)" "x \<in> set (take k xs)" "y \<in> set xs" "y \<notin> set (take k xs)"
  shows "f x \<le> f y"
proof -
  from assms(3,4) have "y \<in> set (drop k xs)"
    by (metis Un_iff append_take_drop_id set_append)
  moreover have "sorted_wrt (\<le>) (map f (take k xs @ drop k xs))" using assms(1) by simp
  ultimately show ?thesis using assms(2) unfolding map_append sorted_wrt_append by auto
qed

definition pending_entries :: "mailbox_config \<Rightarrow> seconds \<Rightarrow> mailbox_file \<Rightarrow> (nat \<times> mailbox_message) list" where
  "pending_entries cfg now mb = sort_key claim_key (filter (\<lambda>x. msg_status (snd x) = PENDING)
     (List.enumerate 0 (map (triage cfg now) (messages mb))))"

lemma claim_candidates_eq:
  "claim_candidates limit (map (triage cfg now) (messages mb)) = py_upto limit (pending_entries cfg now mb)"
  by (simp add: claim_candidates_def pending_entries_def)

lemma candidate_before:
  fixes mb :: mailbox_file
  assumes "x \<in> set (claim_candidates limit (map (triage cfg now) (messages mb)))"
    "i < length (messages mb)" "msg_status (triage cfg now (messages mb ! i)) = PENDING"
    "i \<notin> set (chosen_indices cfg limit now mb)"
  shows "claim_key x \<le> claim_key (i, triage cfg now (messages mb ! i))"
proof -
  let ?y = "(i, triage cfg now (messages mb ! i))"
  obtain k where k: "py_upto limit (pending_entries cfg now mb) = take k (pending_entries cfg now mb)"
    using py_upto_take by blast
  have "?y \<in> set (pending_entries cfg now mb)"
    using assms(2,3) by (auto simp: pending_entries_def in_set_enumerate_eq)
  moreover have "?y \<notin> set (take k (pending_entries cfg now mb))"
    using assms(4) by (force simp: chosen_indices_def claim_candidates_eq k)
  moreover have "sorted (map claim_key (pending_entries cfg now mb))"
    by (simp add: pending_entries_def)
  moreover have "x \<in> set (take k (pending_entries cfg now mb))"
    using assms(1) by (simp add: claim_candidates_eq k)
  ultimately show ?thesis by (metis sorted_take_drop)
qed

lemma claimed_sorted:
  fixes mb :: mailbox_file
  shows "sorted (map claim_key (claim_candidates limit (map (triage cfg now) (messages mb))))"
proof -
  obtain k where k: "py_upto limit (pending_entries cfg now mb) = take k (pending_entries cfg now mb)"
    using py_upto_take by blast
  show ?thesis unfolding claim_candidates_eq k take_map[symmetric]
    by (rule sorted_wrt_take) (simp add: pending_entries_def)
qed

lemma claim_left:
  assumes "m \<in> set (messages (snd (claim_op cfg c limit now mb)))" "msg_status m \<noteq> PROCESSING"
  obtains i where "i < length (messages mb)" "i \<notin> set (chosen_indices cfg limit now mb)"
    "m = triage cfg now (messages mb ! i)"
proof -
  from assms(1) have "m \<in> set (claimed_messages cfg c limit now mb)"
    using compact_subset[of cfg now "mb\<lparr>messages := claimed_messages cfg c limit now mb\<rparr>"]
    by (auto simp: claim_op_eq)
  then obtain i where i: "i < length (messages mb)" "m =
      (if i \<in> set (chosen_indices cfg limit now mb)
       then lease_to cfg c now (triage cfg now (messages mb ! i))
       else triage cfg now (messages mb ! i))"
    by (auto simp: claimed_messages_in)
  with assms(2) have "i \<notin> set (chosen_indices cfg limit now mb)"
    by (metis lease_to_simps(5))
  with i that show thesis by simp
qed

lemma claim_order:
  fixes mb :: mailbox_file
  assumes claimed: "m \<in> set (fst (fst (claim_op cfg c limit now mb)))"
    and left: "m' \<in> set (messages (snd (claim_op cfg c limit now mb)))" "msg_status m' = PENDING"
  shows "(priority m, sequence m) \<le> (priority m', sequence m')"
proof -
  let ?ms = "map (triage cfg now) (messages mb)"
  from claimed obtain x where x: "x \<in> set (claim_candidates limit ?ms)"
    "priority m = priority (snd x)" "sequence m = sequence (snd x)"
    by (auto simp: claim_op_def Let_def)
  obtain i where i: "i < length (messages mb)"
    "i \<notin> set (chosen_indices cfg limit now mb)" "m' = triage cfg now (messages mb ! i)"
    by (rule claim_left[OF left(1)]) (use left(2) in auto)
  from candidate_before[OF x(1) i(1) _ i(2)] i left(2)
  have "claim_key x \<le> claim_key (i, m')" by simp
  then show ?thesis using x by (simp add: claim_key_def)
qed

lemma claim_result_sorted:
  "sorted (map (\<lambda>m. (priority m, sequence m)) (fst (fst (claim_op cfg c limit now mb))))"
proof -
  have "map (\<lambda>m. (priority m, sequence m)) (fst (fst (claim_op cfg c limit now mb))) =
      map claim_key (claim_candidates limit (map (triage cfg now) (messages mb)))"
    by (auto simp: claim_op_def Let_def claim_key_def)
  then show ?thesis by (simp only: claimed_sorted)
qed

lemma claim_result_length:
  "0 \<le> limit \<Longrightarrow> int (length (fst (fst (claim_op cfg c limit now mb)))) \<le> limit"
  by (simp add: claim_op_def Let_def claim_candidates_def length_py_upto)

section \<open>Dead letters\<close>

definition dead_recorded :: "inbox_state \<Rightarrow> bool" where
  "dead_recorded st \<longleftrightarrow> (\<forall>mb m. inbox_file st = Some mb \<longrightarrow> m \<in> set (messages mb) \<longrightarrow>
     msg_status m = DEAD_LETTER \<longrightarrow> message_id m \<in> message_id ` set (dead_letters st))"

text \<open>The operation on the files behind each event.\<close>

fun inbox_step :: "mailbox_config \<Rightarrow> string \<Rightarrow> inbox_state \<Rightarrow> mailbox_event \<Rightarrow> inbox_state" where
  "inbox_step cfg agent st (MSend i c now req) =
     snd (mailbox_send cfg i c now (req\<lparr>req_recipient := agent\<rparr>) st)"
| "inbox_step cfg agent st (MClaim c limit now) = snd (mailbox_claim cfg agent c limit now st)"
| "inbox_step cfg agent st (MAck c ids now) = snd (mailbox_ack cfg agent c ids now st)"
| "inbox_step cfg agent st (MNack c ids) = snd (mailbox_nack cfg agent c ids st)"

lemma append_dead_ids:
  "message_id ` set (append_dead_letters dead existing) =
     message_id ` set dead \<union> message_id ` set existing"
  by (auto simp: append_dead_letters_def)

lemma load_locked_dead:
  assumes "dead_recorded st" "load_locked agent st = (r, st')"
  shows "dead_recorded st'" "r = Inr mb \<Longrightarrow> m \<in> set (messages mb) \<Longrightarrow> msg_status m = DEAD_LETTER \<Longrightarrow>
    message_id m \<in> message_id ` set (dead_letters st')"
  using assms by (auto simp: load_locked_def dead_recorded_def split: option.splits if_splits)

lemma claimed_dead:
  assumes "m \<in> set (messages (snd (claim_op cfg c limit now mb)))" "msg_status m = DEAD_LETTER"
  shows "(\<exists>m0 \<in> set (messages mb). msg_status m0 = DEAD_LETTER \<and> message_id m0 = message_id m) \<or>
    m \<in> set (newly_dead cfg now (messages mb))"
proof -
  obtain i where i: "i < length (messages mb)" "m = triage cfg now (messages mb ! i)"
    by (rule claim_left[OF assms(1)]) (use assms(2) in auto)
  show ?thesis
  proof (cases "dies cfg (recover_lease now (messages mb ! i))")
    case True
    then have "m \<in> set (newly_dead cfg now (messages mb))"
      using i by (auto simp: newly_dead_def)
    then show ?thesis ..
  next
    case False
    then have "msg_status (messages mb ! i) = DEAD_LETTER"
      using i assms(2) by (auto simp: triage_def Let_def recover_lease_def split: if_splits)
    then show ?thesis using i by (intro disjI1 bexI[of _ "messages mb ! i"]) auto
  qed
qed

lemma dead_recorded_write:
  assumes "\<forall>m \<in> set (messages mb'). msg_status m = DEAD_LETTER \<longrightarrow>
      (\<exists>m0 \<in> set (messages mb). msg_status m0 = DEAD_LETTER \<and> message_id m0 = message_id m) \<or>
      m \<in> set dead"
    "\<forall>m \<in> set (messages mb). msg_status m = DEAD_LETTER \<longrightarrow>
      message_id m \<in> message_id ` set existing"
  shows "dead_recorded \<lparr>inbox_file = Some mb', dead_letters = append_dead_letters dead existing,
    corrupted_marker = b\<rparr>"
  using assms unfolding dead_recorded_def by (simp add: append_dead_ids) (metis UnI1 UnI2 image_eqI)

lemma inbox_state_both:
  "st\<lparr>inbox_file := Some mb', dead_letters := append_dead_letters dead (dead_letters st)\<rparr> =
    \<lparr>inbox_file = Some mb', dead_letters = append_dead_letters dead (dead_letters st),
     corrupted_marker = corrupted_marker st\<rparr>"
  for st :: inbox_state
  by simp

lemma inbox_state_only:
  "st\<lparr>inbox_file := Some mb'\<rparr> =
    \<lparr>inbox_file = Some mb', dead_letters = append_dead_letters [] (dead_letters st),
     corrupted_marker = corrupted_marker st\<rparr>"
  for st :: inbox_state
  by (simp add: append_dead_letters_def)

text \<open>What each operation does to the dead-lettered messages of the loaded inbox.\<close>

lemma send_dead:
  assumes "m \<in> set (messages (snd (send_op cfg i c now req mb)))" "msg_status m = DEAD_LETTER"
  shows "m \<in> set (messages mb)"
proof -
  have "m \<in> set (messages (appended cfg i c req mb)) \<or> m \<in> set (messages mb)"
    using assms(1) compact_subset[of cfg now "appended cfg i c req mb"]
    by (auto simp: send_op_eq split: if_splits)
  with assms(2) show ?thesis by (auto simp: appended_def)
qed

lemma ack_dead:
  assumes "ack_op cfg c ids now mb = Inr mb'" "m \<in> set (messages mb')" "msg_status m = DEAD_LETTER"
  shows "m \<in> set (messages mb)"
proof -
  let ?f = "\<lambda>m. if message_id m \<in> set ids
    then m\<lparr>msg_status := ACKED, acked_at := Some now, lease_owner := None, lease_expires_at := None\<rparr>
    else m"
  have "m \<in> ?f ` set (messages mb)"
    using assms(1,2) compact_subset[of cfg now "mb\<lparr>messages := map ?f (messages mb)\<rparr>"]
    by (auto simp: ack_op_def split: option.splits)
  with assms(3) show ?thesis by (auto split: if_splits)
qed

lemma nack_dead:
  assumes "nack_op cfg c ids mb = Inr (dead, mb')" "m \<in> set (messages mb')"
    "msg_status m = DEAD_LETTER"
  shows "m \<in> set (messages mb) \<or> m \<in> set dead"
  using assms by (auto simp: nack_op_def split: option.splits if_splits)

lemma inbox_step_dead:
  assumes "dead_recorded st"
  shows "dead_recorded (inbox_step cfg agent st e)"
proof (cases "validate_component agent ''agent_id''")
  case (Inl err)
  then have "inbox_step cfg agent st e = st"
    by (cases e) (auto simp: mailbox_send_def mailbox_claim_def mailbox_ack_def mailbox_nack_def
        split: sum.splits)
  with assms show ?thesis by simp
next
  case (Inr a)
  then have a: "a = agent" by (simp add: validate_component_def split: if_splits)
  obtain r st' where load: "load_locked agent st = (r, st')" by fastforce
  note loaded = load_locked_dead[OF assms load]
  show ?thesis
  proof (cases r)
    case (Inl err)
    with load loaded(1) Inr a assms show ?thesis
      by (cases e) (auto simp: mailbox_send_def mailbox_claim_def mailbox_ack_def mailbox_nack_def
          split: sum.splits)
  next
    case r: (Inr mb)
    note old = loaded(2)[OF r]
    show ?thesis
    proof (cases e)
      case (MSend i c now req)
      have "dead_recorded (st'\<lparr>inbox_file :=
          Some (snd (send_op cfg i c now (req\<lparr>req_recipient := agent\<rparr>) mb))\<rparr>)"
        unfolding inbox_state_only
        by (rule dead_recorded_write[of _ mb]) (auto dest: send_dead old)
      with MSend Inr a load r assms show ?thesis
        by (auto simp: mailbox_send_def Let_def split: sum.splits prod.splits)
    next
      case (MClaim c limit now)
      have "dead_recorded (st'\<lparr>inbox_file := Some (snd (claim_op cfg c limit now mb)), dead_letters :=
          append_dead_letters (newly_dead cfg now (messages mb)) (dead_letters st')\<rparr>)"
        unfolding inbox_state_both
        by (rule dead_recorded_write[of _ mb]) (auto dest: claimed_dead old)
      moreover have "snd (fst (claim_op cfg c limit now mb)) = newly_dead cfg now (messages mb)"
        by (simp add: claim_op_def Let_def)
      ultimately show ?thesis using MClaim Inr a load r assms
        by (auto simp: mailbox_claim_def Let_def split: sum.splits prod.splits)
    next
      case (MAck c ids now)
      show ?thesis
      proof (cases "ack_op cfg c ids now mb")
        case ack: (Inr mb')
        have "dead_recorded (st'\<lparr>inbox_file := Some mb'\<rparr>)"
          unfolding inbox_state_only
          by (rule dead_recorded_write[of _ mb]) (auto dest: ack_dead[OF ack] old)
        with ack MAck Inr a load r show ?thesis by (simp add: mailbox_ack_def)
      qed (use MAck Inr a load r loaded(1) in \<open>simp add: mailbox_ack_def\<close>)
    next
      case (MNack c ids)
      show ?thesis
      proof (cases "nack_op cfg c ids mb")
        case nack: (Inr p)
        obtain dead mb' where p: "p = (dead, mb')" by fastforce
        have "dead_recorded (st'\<lparr>inbox_file := Some mb',
            dead_letters := append_dead_letters dead (dead_letters st')\<rparr>)"
          unfolding inbox_state_both
          by (rule dead_recorded_write[of _ mb]) (auto dest: nack_dead[OF nack[unfolded p]] old)
        with nack p MNack Inr a load r show ?thesis by (simp add: mailbox_nack_def)
      qed (use MNack Inr a load r loaded(1) in \<open>simp add: mailbox_nack_def\<close>)
    qed
  qed
qed

interpretation inbox_files: machine "inbox_step cfg agent" dead_recorded "\<lambda>_. True" for cfg agent
  by unfold_locales (rule inbox_step_dead)

section \<open>Properties\<close>

text \<open>Identifiers that pass validation are single path segments: at most 128 characters, no
  path separator, not starting with a dot and never containing \<open>..\<close>, so the paths built from
  run, agent and consumer identifiers stay inside the run's directory.\<close>

lemma component_is_path_segment:
  assumes "validate_component value kind = Inr s"
  shows "s = value \<and> s \<noteq> [] \<and> length s \<le> 128 \<and> hd s \<noteq> CHR ''.'' \<and>
    CHR ''/'' \<notin> set s \<and> CHR 0x5C \<notin> set s \<and> \<not> str_contains s ''..''"
proof -
  from assms have s: "s = value" "valid_component s"
    by (simp_all add: validate_component_def split: if_splits)
  then obtain c cs where c: "s = c # cs" "ascii_alnum c" "length cs \<le> 127"
    "list_all (\<lambda>x. ascii_alnum x \<or> x = CHR ''.'' \<or> x = CHR ''_'' \<or> x = CHR ''-'') cs"
    by (auto simp: valid_component_def safe_component_def split: list.splits)
  have "\<not> ascii_alnum (CHR ''/'')" "\<not> ascii_alnum (CHR 0x5C)" "\<not> ascii_alnum (CHR ''.'')"
    by (simp_all add: ascii_alnum_def)
  with c s show ?thesis by (auto simp: valid_component_def list_all_iff)
qed

lemma component_is_path_segment_witness:
  "validate_component ''run-1'' ''run_id'' = Inr ''run-1'' \<and> CHR ''/'' \<notin> set ''run-1''"
proof -
  have v: "validate_component ''run-1'' ''run_id'' = Inr ''run-1''" by code_simp
  from component_is_path_segment[OF v] v show ?thesis by blast
qed

text \<open>At-least-once delivery is bounded: over any sequence of sends, claims, acknowledgements
  and releases, whatever the clocks read and however leases expire, no message (sequence
  number) is handed to consumers more than \<open>max_delivery_attempts\<close> times.\<close>

lemma deliveries_bounded:
  assumes "0 \<le> max_delivery_attempts cfg"
  shows "int (count_list (deliveries cfg (new_mailbox agent) es) s) \<le> max_delivery_attempts cfg"
proof -
  have "int (count_list (deliveries cfg (new_mailbox agent) es) s)
      \<le> remaining cfg s (new_mailbox agent)"
    by (rule remaining_run[OF new_mailbox_inv assms])
  also have "\<dots> \<le> max_delivery_attempts cfg"
    using assms by (simp add: remaining_def new_mailbox_def)
  finally show ?thesis .
qed

definition demo_config :: mailbox_config where
  "demo_config = \<lparr>mb_run_id = ''run'', claim_lease_seconds = 30, max_delivery_attempts = 2,
     acked_retention_seconds = 86400, compaction_threshold = 1000\<rparr>"

definition demo_request :: send_request where
  "demo_request = \<lparr>req_recipient = ''lead'', req_sender = ''worker'', req_type = ''result'',
     req_payload = [], req_priority = 50, req_dedupe_key = Some ''task-1''\<rparr>"

definition demo_events :: "mailbox_event list" where
  "demo_events = [MSend ''m1'' 0 0 demo_request, MSend ''m2'' 1 1 demo_request,
     MClaim ''a'' 20 10, MClaim ''b'' 20 50, MClaim ''c'' 20 90]"

lemma deliveries_bounded_witness:
  "deliveries demo_config (new_mailbox ''lead'') demo_events = [1, 1] \<and>
   int (count_list (deliveries demo_config (new_mailbox ''lead'') demo_events) 1) \<le> 2"
proof -
  have "deliveries demo_config (new_mailbox ''lead'') demo_events = [1, 1]" by code_simp
  moreover have "0 \<le> max_delivery_attempts demo_config" and "max_delivery_attempts demo_config = 2"
    by (simp_all add: demo_config_def)
  ultimately show ?thesis using deliveries_bounded[of demo_config "''lead''" demo_events 1] by simp
qed

text \<open>A claimed message is exclusive: as long as every later claim happens before its lease
  expires and only other consumers acknowledge or release messages, no sequence of operations
  changes the message, and it is not delivered to anybody else.\<close>

lemma lease_is_exclusive:
  assumes "mailbox_inv cfg mb" "0 \<le> max_delivery_attempts cfg"
    "held_by owner until m" "m \<in> set (messages mb)" "until \<noteq> 0"
    "list_all (leaves_lease owner until) es"
  shows "m \<in> set (messages (run (mailbox_step cfg) mb es)) \<and>
    sequence m \<notin> set (deliveries cfg mb es)"
proof -
  have not_delivered: "sequence m \<notin> set (delivered cfg mb e)"
    if "mailbox_inv cfg mb" "m \<in> set (messages mb)" "leaves_lease owner until e" for mb e
  proof (cases e)
    case (MClaim c limit now)
    have "sequence (messages mb ! i) \<noteq> sequence m" if "i \<in> set (chosen_indices cfg limit now mb)" for i
    proof
      assume same: "sequence (messages mb ! i) = sequence m"
      obtain j where j: "j < length (messages mb)" "messages mb ! j = m"
        using \<open>m \<in> set (messages mb)\<close> by (auto simp: in_set_conv_nth)
      have "distinct (map sequence (messages mb))"
        using \<open>mailbox_inv cfg mb\<close> by (auto simp: mailbox_inv_def strict_sorted_iff)
      then have "i = j"
        using same j chosen_indices_in(1)[OF that] by (auto simp: distinct_conv_nth)
      then have "triage cfg now m = m" using assms(3,5) \<open>leaves_lease owner until e\<close> MClaim
        by (intro triage_held[of _ until]) (auto simp: held_by_def)
      with chosen_indices_in(2)[OF that] \<open>i = j\<close> j(2) assms(3) show False
        by (simp add: held_by_def)
    qed
    then have "sequence m \<notin> (\<lambda>i. sequence (messages mb ! i)) ` set (chosen_indices cfg limit now mb)"
      by (metis imageE)
    with MClaim show ?thesis by (simp add: claim_op_eq image_image)
  qed simp_all
  show ?thesis using assms
  proof (induction es arbitrary: mb)
    case (Cons e es)
    then have "m \<in> set (messages (mailbox_step cfg mb e))"
      by (intro lease_kept[of owner until]) auto
    with Cons not_delivered[of mb e] show ?case by (simp add: mailbox_step_inv)
  qed simp
qed

lemma lease_is_exclusive_witness:
  "(let mb = run (mailbox_step demo_config) (new_mailbox ''lead'') (take 3 demo_events) in
    1 \<notin> set (deliveries demo_config mb [MClaim ''b'' 20 39, MAck ''b'' [''m1''] 39]))"
proof -
  let ?mb = "run (mailbox_step demo_config) (new_mailbox ''lead'') (take 3 demo_events)"
  let ?m = "hd (messages ?mb)"
  have pos: "0 \<le> max_delivery_attempts demo_config" by (simp add: demo_config_def)
  have "mailbox_inv demo_config ?mb"
    using inbox.inv_run[of demo_config "new_mailbox ''lead''" "take 3 demo_events"] pos new_mailbox_inv
    by (simp add: list_all_iff)
  moreover have "held_by ''a'' 40 ?m" by code_simp
  moreover have "messages ?mb = [?m]" by code_simp
  then have "?m \<in> set (messages ?mb)" by (metis list.set_intros(1))
  moreover have "sequence ?m = 1" by code_simp
  ultimately show ?thesis
    using lease_is_exclusive[of demo_config ?mb "''a''" 40 ?m "[MClaim ''b'' 20 39, MAck ''b'' [''m1''] 39]"] pos
    by (simp add: Let_def)
qed

text \<open>A claim returns at most \<open>limit\<close> messages, sorted by priority and then by sequence
  number, and every message left pending comes after all of them.\<close>

lemma claim_takes_first:
  assumes "0 \<le> limit" "claim_op cfg c limit now mb = ((claimed, dead), mb')"
  shows "int (length claimed) \<le> limit \<and> sorted (map (\<lambda>m. (priority m, sequence m)) claimed) \<and>
    (\<forall>m \<in> set claimed. \<forall>m' \<in> set (messages mb'). msg_status m' = PENDING \<longrightarrow>
      (priority m, sequence m) \<le> (priority m', sequence m'))"
  using claim_result_length[OF assms(1), of cfg c now mb] claim_result_sorted[of cfg c limit now mb]
    claim_order[of _ cfg c limit now mb] assms(2)
  by auto

lemma claim_takes_first_witness:
  "(let mb = run (mailbox_step demo_config) (new_mailbox ''lead'')
      [MSend ''m1'' 0 0 demo_request, MSend ''m2'' 0 0 (demo_request\<lparr>req_priority := 10, req_dedupe_key := None\<rparr>)]
    in map sequence (fst (fst (claim_op demo_config ''a'' 1 5 mb))) = [2] \<and>
       int (length (fst (fst (claim_op demo_config ''a'' 1 5 mb)))) \<le> 1)"
proof -
  let ?mb = "run (mailbox_step demo_config) (new_mailbox ''lead'')
      [MSend ''m1'' 0 0 demo_request, MSend ''m2'' 0 0 (demo_request\<lparr>req_priority := 10, req_dedupe_key := None\<rparr>)]"
  have "map sequence (fst (fst (claim_op demo_config ''a'' 1 5 ?mb))) = [2]" by code_simp
  moreover obtain claimed dead mb' where op: "claim_op demo_config ''a'' 1 5 ?mb = ((claimed, dead), mb')"
    by (metis prod.collapse)
  moreover from claim_takes_first[OF _ op] have "int (length claimed) \<le> 1" by simp
  ultimately show ?thesis unfolding Let_def by (metis fst_conv)
qed

text \<open>No message is lost to exhaustion silently: in every sequence of operations on the files
  of an agent, each message whose status is dead-letter has its identifier in the dead-letter
  file.\<close>

lemma dead_letters_recorded:
  assumes "dead_recorded st"
  shows "dead_recorded (run (inbox_step cfg agent) st es)"
  using inbox_files.inv_run[of st es cfg agent] assms by (simp add: list_all_iff)

lemma dead_letters_recorded_witness:
  "dead_recorded (run (inbox_step demo_config ''lead'')
     \<lparr>inbox_file = None, dead_letters = [], corrupted_marker = False\<rparr> demo_events)"
  by (rule dead_letters_recorded) (simp add: dead_recorded_def)

text \<open>Sending twice with the same non-empty deduplication key stores one message: in every
  reachable inbox the keys are pairwise distinct, sequence numbers strictly increase, leases and
  statuses agree, and attempt counts stay within the limit.\<close>

lemma mailbox_run_inv:
  assumes "0 \<le> max_delivery_attempts cfg"
  shows "mailbox_inv cfg (run (mailbox_step cfg) (new_mailbox agent) es)"
  using inbox.inv_run[of cfg "new_mailbox agent" es] assms
  by (simp add: new_mailbox_inv list_all_iff)

lemma mailbox_run_inv_witness:
  "mailbox_inv demo_config (run (mailbox_step demo_config) (new_mailbox ''lead'') demo_events)"
  by (rule mailbox_run_inv) (simp add: demo_config_def)

end
