(* ===== verification/Mailbox_Liveness.thy ===== *)
theory Mailbox_Liveness
  imports Mailbox
begin

text \<open>
  No message of a mailbox (\<open>tasks/mailbox.py\<close>) is stuck: while consumers keep claiming, even if each
  one crashes before it acknowledges anything, every message ends acknowledged or in the dead
  letters after a number of claims that depends only on the delivery attempts left.
\<close>

definition live_message :: "mailbox_message \<Rightarrow> bool" where
  "live_message m \<longleftrightarrow> msg_status m \<in> {PENDING, PROCESSING}"

definition delivery_weight :: "mailbox_config \<Rightarrow> mailbox_message \<Rightarrow> nat" where
  "delivery_weight cfg m = (if live_message m then nat (max_delivery_attempts cfg - attempt_count m) + 1 else 0)"

definition attempts_left :: "mailbox_config \<Rightarrow> mailbox_file \<Rightarrow> nat" where
  "attempts_left cfg mb = sum_list (map (delivery_weight cfg) (messages mb))"

definition lease_over :: "seconds \<Rightarrow> mailbox_message \<Rightarrow> bool" where
  "lease_over now m \<longleftrightarrow> (msg_status m = PROCESSING \<longrightarrow> or_else (lease_expires_at m) 0 \<le> now)"

text \<open>Claims by consumers that never answer, each after the lease of the one before has run out.\<close>

fun crashing_claims :: "mailbox_config \<Rightarrow> seconds \<Rightarrow> (string \<times> int \<times> seconds) list \<Rightarrow> bool" where
  "crashing_claims cfg t [] \<longleftrightarrow> True"
| "crashing_claims cfg t ((c, n, now) # rest) \<longleftrightarrow>
     t \<le> now \<and> 1 \<le> n \<and> crashing_claims cfg (now + claim_lease_seconds cfg) rest"

definition claim_events :: "(string \<times> int \<times> seconds) list \<Rightarrow> mailbox_event list" where
  "claim_events = map (\<lambda>(c, n, now). MClaim c n now)"

lemma delivery_weight_triage: "delivery_weight cfg (triage cfg now m) \<le> delivery_weight cfg m"
  by (auto simp: triage_def recover_lease_def delivery_weight_def live_message_def Let_def dies_def)

lemma delivery_weight_triage_died:
  "lease_over now m \<Longrightarrow> live_message m \<Longrightarrow> msg_status (triage cfg now m) \<noteq> PENDING \<Longrightarrow>
    delivery_weight cfg (triage cfg now m) < delivery_weight cfg m"
  by (auto simp: triage_def recover_lease_def delivery_weight_def live_message_def Let_def dies_def lease_over_def
      split: if_splits)

lemma weight_lease:
  "msg_status (triage cfg now m) = PENDING \<Longrightarrow> attempt_count m < max_delivery_attempts cfg \<Longrightarrow>
    delivery_weight cfg (lease_to cfg c now (triage cfg now m)) < delivery_weight cfg m"
  by (auto simp: triage_def recover_lease_def delivery_weight_def live_message_def lease_to_def Let_def dies_def
      split: if_splits)

lemma py_upto_nonempty: "1 \<le> n \<Longrightarrow> xs \<noteq> [] \<Longrightarrow> py_upto n xs \<noteq> []"
  by (simp add: py_upto_def)

lemma chosen_nonempty:
  assumes "1 \<le> n" "i < length (messages mb)" "msg_status (triage cfg now (messages mb ! i)) = PENDING"
  shows "chosen_indices cfg n now mb \<noteq> []"
proof -
  have "(i, triage cfg now (messages mb ! i)) \<in> set (filter (\<lambda>x. msg_status (snd x) = PENDING)
      (List.enumerate 0 (map (triage cfg now) (messages mb))))"
    using assms(2,3) by (simp add: in_set_enumerate_eq)
  then have "filter (\<lambda>x. msg_status (snd x) = PENDING)
      (List.enumerate 0 (map (triage cfg now) (messages mb))) \<noteq> []"
    by (metis list.set(1) empty_iff)
  then have "sort_key claim_key (filter (\<lambda>x. msg_status (snd x) = PENDING)
      (List.enumerate 0 (map (triage cfg now) (messages mb)))) \<noteq> []"
    by (metis set_sort list.set(1) set_empty)
  then show ?thesis
    using py_upto_nonempty[OF assms(1)] by (simp add: chosen_indices_def claim_candidates_def)
qed

lemma sum_list_less:
  fixes f g :: "nat \<Rightarrow> nat"
  assumes "\<And>i. i < n \<Longrightarrow> f i \<le> g i" "k < n" "f k < g k"
  shows "(\<Sum>i<n. f i) < (\<Sum>i<n. g i)"
  by (rule sum_strict_mono_ex1) (use assms in auto)

lemma claimed_weight:
  assumes "1 \<le> n" "\<forall>m \<in> set (messages mb). lease_over now m" "\<exists>m \<in> set (messages mb). live_message m"
  shows "attempts_left cfg (mb\<lparr>messages := claimed_messages cfg c n now mb\<rparr>) < attempts_left cfg mb"
proof -
  let ?ms = "messages mb"
  let ?C = "set (chosen_indices cfg n now mb)"
  let ?f = "\<lambda>i. delivery_weight cfg (claimed_messages cfg c n now mb ! i)" and ?g = "\<lambda>i. delivery_weight cfg (?ms ! i)"
  have chosen: "?f i < ?g i" if "i \<in> ?C" for i
    using chosen_indices_in[OF that] that by (simp add: claimed_messages_nth weight_lease)
  have le: "?f i \<le> ?g i" if "i < length ?ms" for i
    using that chosen[of i] delivery_weight_triage[of cfg now "?ms ! i"] by (cases "i \<in> ?C") (simp_all add: claimed_messages_nth)
  obtain k where k: "k < length ?ms" "live_message (?ms ! k)" using assms(3) by (auto simp: in_set_conv_nth)
  have "\<exists>j < length ?ms. ?f j < ?g j"
  proof (cases "msg_status (triage cfg now (?ms ! k)) = PENDING")
    case True
    obtain j where "j \<in> ?C" using chosen_nonempty[OF assms(1) k(1) True] by (cases "chosen_indices cfg n now mb") auto
    then show ?thesis using chosen chosen_indices_in(1) by blast
  next
    case False
    then have "k \<notin> ?C" using chosen_indices_in(2) by blast
    moreover have "lease_over now (?ms ! k)" using assms(2) k(1) by simp
    ultimately have "?f k < ?g k" using k False by (simp add: claimed_messages_nth delivery_weight_triage_died)
    then show ?thesis using k(1) by blast
  qed
  then obtain j where "j < length ?ms" "?f j < ?g j" by blast
  then have "(\<Sum>i<length ?ms. ?f i) < (\<Sum>i<length ?ms. ?g i)" using sum_list_less[of "length ?ms" ?f ?g j] le by blast
  then show ?thesis by (simp add: attempts_left_def sum_list_sum_nth atLeast0LessThan)
qed

lemma compact_weight: "attempts_left cfg (compact cfg now mb) \<le> attempts_left cfg mb"
proof -
  have "sum_list (map (delivery_weight cfg) (filter P ms)) \<le> sum_list (map (delivery_weight cfg) ms)" for P ms
    by (induction ms) auto
  then show ?thesis using compact_messages[of cfg now mb] by (auto simp: attempts_left_def)
qed

lemma claimed_over:
  assumes "\<forall>m \<in> set (messages mb). lease_over now m" "m \<in> set (claimed_messages cfg c n now mb)"
    and "now + claim_lease_seconds cfg \<le> now'"
  shows "lease_over now' m"
proof -
  obtain i where i: "i < length (messages mb)" "m = claimed_messages cfg c n now mb ! i"
    using assms(2) by (auto simp: in_set_conv_nth)
  show ?thesis
  proof (cases "i \<in> set (chosen_indices cfg n now mb)")
    case True
    then show ?thesis using i assms(3)
      by (auto simp: claimed_messages_nth lease_over_def lease_to_def or_else_def)
  next
    case False
    have "lease_over now (messages mb ! i)" using assms(1) i(1) by simp
    then have "msg_status (triage cfg now (messages mb ! i)) \<noteq> PROCESSING"
      by (auto simp: lease_over_def triage_def recover_lease_def Let_def)
    then show ?thesis using i False by (simp add: claimed_messages_nth lease_over_def)
  qed
qed

lemma claim_step:
  assumes "1 \<le> n" "\<forall>m \<in> set (messages mb). lease_over now m"
  shows "\<forall>m \<in> set (messages (mailbox_step cfg mb (MClaim c n now))). lease_over (now + claim_lease_seconds cfg) m"
    and "attempts_left cfg (mailbox_step cfg mb (MClaim c n now)) \<le> attempts_left cfg mb - 1"
proof -
  let ?mb = "mb\<lparr>messages := claimed_messages cfg c n now mb\<rparr>"
  have step: "mailbox_step cfg mb (MClaim c n now) = compact cfg now ?mb" by (simp add: claim_op_eq)
  have sub: "set (messages (compact cfg now ?mb)) \<subseteq> set (messages ?mb)"
    using compact_messages[of cfg now ?mb] by auto
  then show "\<forall>m \<in> set (messages (mailbox_step cfg mb (MClaim c n now))). lease_over (now + claim_lease_seconds cfg) m"
    using claimed_over[OF assms(2), of _ cfg c n "now + claim_lease_seconds cfg"] unfolding step by auto
  show "attempts_left cfg (mailbox_step cfg mb (MClaim c n now)) \<le> attempts_left cfg mb - 1"
  proof (cases "\<exists>m \<in> set (messages mb). live_message m")
    case True
    have "attempts_left cfg ?mb < attempts_left cfg mb" by (rule claimed_weight[OF assms True])
    then show ?thesis using compact_weight[of cfg now ?mb] unfolding step by linarith
  next
    case False
    then have "claimed_messages cfg c n now mb = map (triage cfg now) (messages mb)"
    proof (intro nth_equalityI)
      fix i
      assume i: "i < length (claimed_messages cfg c n now mb)"
      have "i \<notin> set (chosen_indices cfg n now mb)"
        using False chosen_indices_in(2)[of i cfg n now mb] i
        by (auto simp: live_message_def triage_def recover_lease_def Let_def dies_def split: if_splits)
      then show "claimed_messages cfg c n now mb ! i = map (triage cfg now) (messages mb) ! i"
        using i by (simp add: claimed_messages_nth)
    qed simp
    moreover have "delivery_weight cfg (triage cfg now m) = 0" if "m \<in> set (messages mb)" for m
      using False that delivery_weight_triage[of cfg now m] by (simp add: delivery_weight_def[of cfg m])
    ultimately have "attempts_left cfg ?mb = 0" by (simp add: attempts_left_def comp_def)
    then show ?thesis using compact_weight[of cfg now ?mb] unfolding step by simp
  qed
qed

lemma claims_run:
  assumes "crashing_claims cfg t es" "\<forall>m \<in> set (messages mb). lease_over t m"
  shows "attempts_left cfg (run (mailbox_step cfg) mb (claim_events es)) \<le> attempts_left cfg mb - length es"
  using assms
proof (induction es arbitrary: t mb)
  case Nil
  then show ?case by (simp add: claim_events_def)
next
  case (Cons e es)
  obtain c n now where e: "e = (c, n, now)" by (metis prod_cases3)
  have h: "t \<le> now" "1 \<le> n" "crashing_claims cfg (now + claim_lease_seconds cfg) es" using Cons.prems(1) e by simp_all
  have over: "\<forall>m \<in> set (messages mb). lease_over now m" using Cons.prems(2) h(1) by (auto simp: lease_over_def)
  note s = claim_step[OF h(2) over, of cfg c]
  have "attempts_left cfg (run (mailbox_step cfg) (mailbox_step cfg mb (MClaim c n now)) (claim_events es))
      \<le> attempts_left cfg (mailbox_step cfg mb (MClaim c n now)) - length es"
    by (rule Cons.IH[OF h(3) s(1)])
  then show ?case using s(2) by (simp add: e claim_events_def)
qed

text \<open>C40. Every message settles: if consumers keep claiming, each claim after the lease of the one before
  has run out, then even when every consumer crashes without acknowledging, after as many claims as
  there are delivery attempts left (one more per live message) no message is pending or in
  processing: each has been acknowledged or moved to the dead letters.\<close>

theorem messages_settle:
  assumes "crashing_claims cfg t es" "\<forall>m \<in> set (messages mb). lease_over t m"
    and "attempts_left cfg mb \<le> length es"
    and "m \<in> set (messages (run (mailbox_step cfg) mb (claim_events es)))"
  shows "msg_status m \<in> {ACKED, DEAD_LETTER}"
proof -
  have "attempts_left cfg (run (mailbox_step cfg) mb (claim_events es)) = 0"
    using claims_run[OF assms(1,2)] assms(3) by simp
  then have "delivery_weight cfg m = 0" using assms(4) by (simp add: attempts_left_def)
  then show ?thesis by (cases "msg_status m") (auto simp: delivery_weight_def live_message_def split: if_splits)
qed

definition settle_box :: mailbox_file where
  "settle_box = snd (send_op demo_config ''m1'' 0 0 demo_request (new_mailbox ''b''))"

definition settle_claims :: "(string \<times> int \<times> seconds) list" where
  "settle_claims = map (\<lambda>k. (''c'', 1, of_nat k * claim_lease_seconds demo_config)) [0..<attempts_left demo_config settle_box]"

theorem messages_settle_witness:
  "map msg_status (messages settle_box) = [PENDING] \<and>
   list_all (\<lambda>m. msg_status m \<in> {ACKED, DEAD_LETTER})
     (messages (run (mailbox_step demo_config) settle_box (claim_events settle_claims)))"
proof -
  have "crashing_claims demo_config 0 settle_claims" by code_simp
  moreover have "list_all (lease_over 0) (messages settle_box)" by code_simp
  then have "\<forall>m \<in> set (messages settle_box). lease_over 0 m" by (simp add: list_all_iff)
  moreover have "attempts_left demo_config settle_box \<le> length settle_claims" by (simp add: settle_claims_def)
  ultimately have "list_all (\<lambda>m. msg_status m \<in> {ACKED, DEAD_LETTER})
      (messages (run (mailbox_step demo_config) settle_box (claim_events settle_claims)))"
    using messages_settle unfolding list_all_iff by blast
  moreover have "map msg_status (messages settle_box) = [PENDING]" by code_simp
  ultimately show ?thesis by blast
qed

end
