(* ===== verification/Lease.thy ===== *)
theory Lease
  imports Prelude
begin

text \<open>
  The leader lease of a run (\<open>src/open_deep_research/tasks/lease.py\<close>).

  The lease file is an \<open>option\<close>; \<open>lease_manager\<close> is one \<open>LeaderLeaseManager\<close>. Every method is
  one locked read-modify-write of the file (\<open>locked_update\<close>): an exception raised inside leaves
  the file as it was. Clock readings are arguments, so no assumption is made about clocks of
  different processes. \<open>run_fenced\<close> takes the operation it commits as an argument, a function on
  whatever state \<open>'w\<close> that operation works on.
\<close>

section \<open>State\<close>

record leader_lease =
  lease_run_id :: string
  owner_instance_id :: string
  lease_pid :: int
  lease_acquired_at :: seconds
  heartbeat_at :: seconds
  expires_at :: seconds
  lease_fence :: int

record lease_manager =
  mgr_run_id :: string
  mgr_lease_seconds :: seconds
  owner_id :: string
  mgr_pid :: int
  mgr_fence :: "int option"

datatype lease_error = LeaseConflict string | FenceLost

type_synonym lease_file = "leader_lease option"

section \<open>Operations\<close>

definition locked_update ::
    "(lease_file \<Rightarrow> lease_error + lease_file) \<Rightarrow> lease_file \<Rightarrow> (lease_error + lease_file) \<times> lease_file" where
  "locked_update operation current =
     (case operation current of
        Inl e \<Rightarrow> (Inl e, current)
      | Inr None \<Rightarrow> (Inr None, current)
      | Inr (Some l) \<Rightarrow> (Inr (Some l), Some l))"

definition live :: "seconds \<Rightarrow> leader_lease \<Rightarrow> bool" where
  "live now l \<longleftrightarrow> expires_at l > now"

definition acquire_op :: "lease_manager \<Rightarrow> seconds \<Rightarrow> lease_file \<Rightarrow> lease_error + lease_file" where
  "acquire_op mgr now current =
     (let grant = (\<lambda>acquired fence. Inr (Some \<lparr>lease_run_id = mgr_run_id mgr,
            owner_instance_id = owner_id mgr, lease_pid = mgr_pid mgr,
            lease_acquired_at = acquired, heartbeat_at = now,
            expires_at = now + mgr_lease_seconds mgr, lease_fence = fence\<rparr>))
      in case current of
           None \<Rightarrow> grant now 1
         | Some l \<Rightarrow>
             if live now l \<and> owner_instance_id l \<noteq> owner_id mgr
             then Inl (LeaseConflict (owner_instance_id l))
             else if live now l then grant (lease_acquired_at l) (lease_fence l)
             else grant now (lease_fence l + 1))"

definition acquire ::
    "lease_manager \<Rightarrow> seconds \<Rightarrow> lease_file \<Rightarrow>
      (lease_error + leader_lease) \<times> lease_manager \<times> lease_file" where
  "acquire mgr now file =
     (case locked_update (acquire_op mgr now) file of
        (Inr (Some l), file') \<Rightarrow> (Inr l, mgr\<lparr>mgr_fence := Some (lease_fence l)\<rparr>, file')
      | (Inr None, file') \<Rightarrow> (Inl FenceLost, mgr, file')
      | (Inl e, file') \<Rightarrow> (Inl e, mgr, file'))"

definition expected_token :: "lease_manager \<Rightarrow> int option \<Rightarrow> int option" where
  "expected_token mgr expected = (case expected of None \<Rightarrow> mgr_fence mgr | Some t \<Rightarrow> Some t)"

definition renew_op ::
    "lease_manager \<Rightarrow> int option \<Rightarrow> seconds \<Rightarrow> lease_file \<Rightarrow> lease_error + lease_file" where
  "renew_op mgr token now current =
     (case current of
        None \<Rightarrow> Inl FenceLost
      | Some l \<Rightarrow>
          if owner_instance_id l \<noteq> owner_id mgr then Inl FenceLost
          else if token \<noteq> Some (lease_fence l) then Inl FenceLost
          else if expires_at l \<le> now then Inl FenceLost
          else Inr (Some (l\<lparr>heartbeat_at := now, expires_at := now + mgr_lease_seconds mgr\<rparr>)))"

definition renew ::
    "lease_manager \<Rightarrow> int option \<Rightarrow> seconds \<Rightarrow> lease_file \<Rightarrow>
      (lease_error + leader_lease) \<times> lease_manager \<times> lease_file" where
  "renew mgr expected now file =
     (case locked_update (renew_op mgr (expected_token mgr expected) now) file of
        (Inr (Some l), file') \<Rightarrow> (Inr l, mgr\<lparr>mgr_fence := Some (lease_fence l)\<rparr>, file')
      | (Inr None, file') \<Rightarrow> (Inl FenceLost, mgr, file')
      | (Inl e, file') \<Rightarrow> (Inl e, mgr, file'))"

definition is_owner :: "lease_manager \<Rightarrow> int option \<Rightarrow> seconds \<Rightarrow> lease_file \<Rightarrow> bool" where
  "is_owner mgr expected now file =
     (case file of
        None \<Rightarrow> False
      | Some l \<Rightarrow> owner_instance_id l = owner_id mgr \<and>
          expected_token mgr expected = Some (lease_fence l) \<and> expires_at l > now)"

text \<open>\<open>Inl (Inl e)\<close>: the fence was lost; \<open>Inl (Inr e)\<close>: the committed operation raised.\<close>

definition run_fenced ::
    "lease_manager \<Rightarrow> int \<Rightarrow> seconds \<Rightarrow> ('w \<Rightarrow> ('x + 'r) \<times> 'w) \<Rightarrow> lease_file \<Rightarrow> 'w \<Rightarrow>
      ((lease_error + 'x) + 'r) \<times> 'w" where
  "run_fenced mgr token now operation file w =
     (case file of
        None \<Rightarrow> (Inl (Inl FenceLost), w)
      | Some l \<Rightarrow>
          if owner_instance_id l \<noteq> owner_id mgr \<or> lease_fence l \<noteq> token \<or> expires_at l \<le> now
          then (Inl (Inl FenceLost), w)
          else (case operation w of
                  (Inl x, w') \<Rightarrow> (Inl (Inr x), w')
                | (Inr r, w') \<Rightarrow> (Inr r, w')))"

definition release_op ::
    "lease_manager \<Rightarrow> int option \<Rightarrow> seconds \<Rightarrow> lease_file \<Rightarrow> lease_error + lease_file" where
  "release_op mgr token now current =
     (case current of
        None \<Rightarrow> Inl FenceLost
      | Some l \<Rightarrow>
          if owner_instance_id l \<noteq> owner_id mgr \<or> token \<noteq> Some (lease_fence l) then Inl FenceLost
          else Inr (Some (l\<lparr>expires_at := 0, heartbeat_at := now\<rparr>)))"

definition release_lease ::
    "lease_manager \<Rightarrow> int option \<Rightarrow> seconds \<Rightarrow> lease_file \<Rightarrow>
      (lease_error + unit) \<times> lease_manager \<times> lease_file" where
  "release_lease mgr expected now file =
     (case locked_update (release_op mgr (expected_token mgr expected) now) file of
        (Inr _, file') \<Rightarrow> (Inr (), mgr\<lparr>mgr_fence := None\<rparr>, file')
      | (Inl e, file') \<Rightarrow> (Inl e, mgr, file'))"

section \<open>Many managers on one lease file\<close>

text \<open>Each event carries the manager as it is at that moment; \<open>commits\<close> is the log of the epochs
  under which a commit was executed, oldest first.\<close>

datatype lease_event =
  Acquire lease_manager seconds
| Renew lease_manager "int option" seconds
| Release lease_manager "int option" seconds
| Commit lease_manager int seconds

record lease_system =
  lease_on_disk :: lease_file
  commits :: "(string \<times> int) list"

fun lease_step :: "lease_system \<Rightarrow> lease_event \<Rightarrow> lease_system" where
  "lease_step s (Acquire mgr now) =
     s\<lparr>lease_on_disk := snd (snd (acquire mgr now (lease_on_disk s)))\<rparr>"
| "lease_step s (Renew mgr expected now) =
     s\<lparr>lease_on_disk := snd (snd (renew mgr expected now (lease_on_disk s)))\<rparr>"
| "lease_step s (Release mgr expected now) =
     s\<lparr>lease_on_disk := snd (snd (release_lease mgr expected now (lease_on_disk s)))\<rparr>"
| "lease_step s (Commit mgr token now) =
     s\<lparr>commits := snd (run_fenced mgr token now
        (\<lambda>log. (Inr () :: unit + unit, log @ [(owner_id mgr, token)])) (lease_on_disk s) (commits s))\<rparr>"

definition new_lease_system :: lease_system where
  "new_lease_system = \<lparr>lease_on_disk = None, commits = []\<rparr>"

text \<open>The number of the newest epoch.\<close>

definition epoch :: "lease_system \<Rightarrow> int" where
  "epoch s = (case lease_on_disk s of None \<Rightarrow> 0 | Some l \<Rightarrow> lease_fence l)"

text \<open>Committed epochs never decrease, each has one owner, and none is newer than the one on disk.\<close>

definition lease_inv :: "lease_system \<Rightarrow> bool" where
  "lease_inv s \<longleftrightarrow>
     sorted (map snd (commits s)) \<and>
     (\<forall>(o1, t1) \<in> set (commits s). \<forall>(o2, t2) \<in> set (commits s). t1 = t2 \<longrightarrow> o1 = o2) \<and>
     (\<forall>(ow, t) \<in> set (commits s). t \<le> epoch s \<and>
        (\<forall>l. lease_on_disk s = Some l \<longrightarrow> t = lease_fence l \<longrightarrow> owner_instance_id l = ow)) \<and>
     (lease_on_disk s = None \<longrightarrow> commits s = [])"

section \<open>What each operation does to the file\<close>

lemma acquire_cases:
  "acquire mgr now file =
     (case file of
        None \<Rightarrow> (let l = \<lparr>lease_run_id = mgr_run_id mgr, owner_instance_id = owner_id mgr,
            lease_pid = mgr_pid mgr, lease_acquired_at = now, heartbeat_at = now,
            expires_at = now + mgr_lease_seconds mgr, lease_fence = 1\<rparr>
          in (Inr l, mgr\<lparr>mgr_fence := Some 1\<rparr>, Some l))
      | Some c \<Rightarrow>
          if live now c \<and> owner_instance_id c \<noteq> owner_id mgr
          then (Inl (LeaseConflict (owner_instance_id c)), mgr, file)
          else (let f = (if live now c then lease_fence c else lease_fence c + 1);
                    l = \<lparr>lease_run_id = mgr_run_id mgr, owner_instance_id = owner_id mgr,
                      lease_pid = mgr_pid mgr,
                      lease_acquired_at = (if live now c then lease_acquired_at c else now),
                      heartbeat_at = now, expires_at = now + mgr_lease_seconds mgr, lease_fence = f\<rparr>
                in (Inr l, mgr\<lparr>mgr_fence := Some f\<rparr>, Some l)))"
  by (auto simp: acquire_def acquire_op_def locked_update_def Let_def split: option.splits)

lemma renew_file:
  "snd (snd (renew mgr expected now file)) = file \<or>
   (\<exists>l l'. file = Some l \<and> snd (snd (renew mgr expected now file)) = Some l' \<and>
     lease_fence l' = lease_fence l \<and> owner_instance_id l' = owner_instance_id l)"
  by (auto simp: renew_def renew_op_def locked_update_def split: option.splits)

lemma release_file:
  "snd (snd (release_lease mgr expected now file)) = file \<or>
   (\<exists>l l'. file = Some l \<and> snd (snd (release_lease mgr expected now file)) = Some l' \<and>
     lease_fence l' = lease_fence l \<and> owner_instance_id l' = owner_instance_id l)"
  by (auto simp: release_lease_def release_op_def locked_update_def split: option.splits)

lemma run_fenced_cases:
  "run_fenced mgr token now operation file w =
     (if \<exists>l. file = Some l \<and> owner_instance_id l = owner_id mgr \<and> lease_fence l = token \<and> live now l
      then map_prod (map_sum Inr id) id (operation w) else (Inl (Inl FenceLost), w))"
  by (auto simp: run_fenced_def live_def split: option.splits sum.splits prod.splits)

text \<open>Writing a lease that keeps the epoch and owner, or starts a new epoch.\<close>

lemma lease_inv_same_epoch:
  assumes "lease_inv s" "lease_on_disk s = Some l" "lease_fence l' = lease_fence l"
    "owner_instance_id l' = owner_instance_id l"
  shows "lease_inv (s\<lparr>lease_on_disk := Some l'\<rparr>)"
  using assms by (simp add: lease_inv_def epoch_def)

lemma lease_inv_new_epoch:
  assumes "lease_inv s" "epoch s < lease_fence l'"
  shows "lease_inv (s\<lparr>lease_on_disk := Some l'\<rparr>)"
  using assms by (fastforce simp: lease_inv_def epoch_def)

lemma lease_inv_commit:
  assumes "lease_inv s" "lease_on_disk s = Some l"
  shows "lease_inv (s\<lparr>commits := commits s @ [(owner_instance_id l, lease_fence l)]\<rparr>)"
  using assms by (fastforce simp: lease_inv_def epoch_def sorted_append)

lemma lease_step_inv: "lease_inv s \<Longrightarrow> lease_inv (lease_step s e)"
proof (cases e)
  case (Acquire mgr now)
  assume inv: "lease_inv s"
  show ?thesis
  proof (cases "lease_on_disk s")
    case None
    with Acquire inv show ?thesis
      by (auto simp: acquire_cases Let_def epoch_def intro!: lease_inv_new_epoch)
  next
    case (Some c)
    show ?thesis
    proof (cases "live now c")
      case True
      with Acquire inv Some show ?thesis
        by (auto simp: acquire_cases Let_def intro!: lease_inv_same_epoch[OF inv Some])
    next
      case False
      with Acquire inv Some show ?thesis
        by (auto simp: acquire_cases Let_def epoch_def intro!: lease_inv_new_epoch)
    qed
  qed
next
  case (Renew mgr expected now)
  assume "lease_inv s"
  with Renew renew_file[of mgr expected now "lease_on_disk s"] show ?thesis
    by (auto intro: lease_inv_same_epoch)
next
  case (Release mgr expected now)
  assume "lease_inv s"
  with Release release_file[of mgr expected now "lease_on_disk s"] show ?thesis
    by (auto intro: lease_inv_same_epoch)
next
  case (Commit mgr token now)
  assume inv: "lease_inv s"
  with Commit lease_inv_commit[OF inv] show ?thesis by (auto simp: run_fenced_cases)
qed

lemma lease_step_epoch: "epoch s \<le> epoch (lease_step s e)"
proof (cases e)
  case (Acquire mgr now)
  then show ?thesis
    by (cases "lease_on_disk s") (auto simp: acquire_cases Let_def epoch_def)
next
  case (Renew mgr expected now)
  then show ?thesis
    using renew_file[of mgr expected now "lease_on_disk s"] by (auto simp: epoch_def)
next
  case (Release mgr expected now)
  then show ?thesis
    using release_file[of mgr expected now "lease_on_disk s"] by (auto simp: epoch_def)
qed (simp add: epoch_def)

interpretation lease: ranked_machine lease_step lease_inv "\<lambda>_. True" epoch
  by unfold_locales (simp_all add: lease_step_inv lease_step_epoch)

lemma new_lease_inv: "lease_inv new_lease_system"
  by (simp add: lease_inv_def new_lease_system_def)

section \<open>Properties\<close>

text \<open>C13. Fencing: however acquisitions, renewals, releases and commits of any number of managers
  interleave, and whatever their clocks read, the epochs of the executed commits never decrease
  and all commits of one epoch are by the same owner.\<close>

theorem commits_are_fenced:
  "sorted (map snd (commits (run lease_step new_lease_system es))) \<and>
   (\<forall>c1 \<in> set (commits (run lease_step new_lease_system es)).
    \<forall>c2 \<in> set (commits (run lease_step new_lease_system es)). snd c1 = snd c2 \<longrightarrow> fst c1 = fst c2)"
proof -
  have "lease_inv (run lease_step new_lease_system es)"
    by (rule lease.inv_run) (simp_all add: new_lease_inv list_all_iff)
  then have "sorted (map snd (commits (run lease_step new_lease_system es)))" and
    "\<forall>(o1, t1) \<in> set (commits (run lease_step new_lease_system es)).
     \<forall>(o2, t2) \<in> set (commits (run lease_step new_lease_system es)). t1 = t2 \<longrightarrow> o1 = o2"
    unfolding lease_inv_def by blast+
  then show ?thesis by fastforce
qed

definition demo_manager :: "string \<Rightarrow> lease_manager" where
  "demo_manager who = \<lparr>mgr_run_id = ''run'', mgr_lease_seconds = 15, owner_id = who, mgr_pid = 1,
     mgr_fence = None\<rparr>"

definition demo_takeover :: "lease_event list" where
  "demo_takeover = [Acquire (demo_manager ''a'') 0, Commit (demo_manager ''a'') 1 5,
     Acquire (demo_manager ''b'') 5, Acquire (demo_manager ''b'') 15,
     Commit (demo_manager ''a'') 1 10, Commit (demo_manager ''b'') 2 20]"

theorem commits_are_fenced_witness:
  "commits (run lease_step new_lease_system demo_takeover) = [(''a'', 1), (''b'', 2)] \<and>
   sorted (map snd (commits (run lease_step new_lease_system demo_takeover)))"
proof -
  have "commits (run lease_step new_lease_system demo_takeover) = [(''a'', 1), (''b'', 2)]"
    by code_simp
  with commits_are_fenced[of demo_takeover] show ?thesis by blast
qed

text \<open>A superseded epoch is dead for good: once the lease on disk has a newer fence token than
  \<open>t\<close>, no later sequence of events lets a commit, a renewal or an ownership check with \<open>t\<close>
  succeed.\<close>

lemma superseded_epoch_dead:
  assumes "lease_inv s" "t < epoch s" "s' = run lease_step s es"
  shows "run_fenced mgr t now operation (lease_on_disk s') w = (Inl (Inl FenceLost), w) \<and>
    fst (renew mgr (Some t) now (lease_on_disk s')) = Inl FenceLost \<and>
    \<not> is_owner mgr (Some t) now (lease_on_disk s')"
proof -
  have "epoch s \<le> epoch s'"
    unfolding assms(3) using assms(1) by (intro lease.rank_run) (simp_all add: list_all_iff)
  with assms(2) have "t < epoch s'" by simp
  then show ?thesis
    by (auto simp: run_fenced_cases epoch_def is_owner_def expected_token_def renew_def renew_op_def
        locked_update_def split: option.splits)
qed

lemma superseded_epoch_dead_witness:
  "(let s = run lease_step new_lease_system demo_takeover in
    epoch s = 2 \<and> \<not> is_owner (demo_manager ''a'') (Some 1) 0
      (lease_on_disk (run lease_step s [Release (demo_manager ''b'') (Some 2) 21])))"
proof -
  let ?s = "run lease_step new_lease_system demo_takeover"
  have inv: "lease_inv ?s"
    by (rule lease.inv_run) (simp_all add: new_lease_inv list_all_iff)
  have e: "epoch ?s = 2" by code_simp
  then have "1 < epoch ?s" by simp
  from superseded_epoch_dead[OF inv this refl, of "demo_manager ''a''" 0 "\<lambda>w. (Inr () :: unit + unit, w)" "[Release (demo_manager ''b'') (Some 2) 21]" "()"]
  show ?thesis using e by (simp add: Let_def)
qed

text \<open>Acquiring is mutual exclusion with expiry: it fails, changing nothing, exactly while
  another owner's lease is live; otherwise the caller becomes owner until
  \<open>now + lease_seconds\<close>, keeping the epoch when it renews its own live lease and opening a
  strictly newer epoch in every other case.\<close>

lemma acquire_excludes:
  "(case file of
      Some l \<Rightarrow>
        if live now l \<and> owner_instance_id l \<noteq> owner_id mgr
        then acquire mgr now file = (Inl (LeaseConflict (owner_instance_id l)), mgr, file)
        else (\<exists>l'. acquire mgr now file = (Inr l', mgr\<lparr>mgr_fence := Some (lease_fence l')\<rparr>, Some l') \<and>
          owner_instance_id l' = owner_id mgr \<and> expires_at l' = now + mgr_lease_seconds mgr \<and>
          (if live now l then lease_fence l' = lease_fence l \<and> lease_acquired_at l' = lease_acquired_at l
           else lease_fence l' = lease_fence l + 1 \<and> lease_acquired_at l' = now))
    | None \<Rightarrow>
        (\<exists>l'. acquire mgr now file = (Inr l', mgr\<lparr>mgr_fence := Some (lease_fence l')\<rparr>, Some l') \<and>
          owner_instance_id l' = owner_id mgr \<and> expires_at l' = now + mgr_lease_seconds mgr \<and>
          lease_fence l' = 1))"
  by (cases "file") (simp_all add: acquire_cases Let_def)

text \<open>The ownership check answers exactly whether a commit would be let through: for the same
  token and clock reading \<open>run_fenced\<close> executes its operation if and only if \<open>is_owner\<close> holds,
  and otherwise raises without running it.\<close>

lemma run_fenced_iff_owner:
  "run_fenced mgr token now operation file w =
     (if is_owner mgr (Some token) now file then map_prod (map_sum Inr id) id (operation w)
      else (Inl (Inl FenceLost), w))"
  by (auto simp: run_fenced_cases is_owner_def expected_token_def live_def split: option.splits)

end
