(* ===== verification/TaskState.thy ===== *)
theory TaskState
  imports Mailbox
begin

text \<open>
  Task state of a run: the in-memory registry (\<open>src/open_deep_research/tasks/registry.py\<close>) and
  the versioned snapshots with their two stores (\<open>tasks/state.py\<close>).

  \<open>task_record\<close> is \<open>TaskRecord\<close> without its three run-time handles and the \<open>source_urls\<close> set,
  \<open>task_snapshot\<close> is \<open>TaskSnapshot\<close>. Generated identifiers and clock readings are arguments.
  Both stores are shown to implement one abstract map (locale \<open>task_store\<close>).
\<close>

section \<open>Data\<close>

datatype task_status =
  TaskPending | TaskRunning | WaitingForConfirmation | TaskCompleted | TaskFailed | TaskCancelled
| TaskTimedOut

datatype task_phase = Researching | Compressing | PhaseCompleted

record task_record =
  tr_task_id :: string
  tr_research_topic :: string
  tr_display_title :: string
  tr_wave_id :: string
  tr_plan_task_id :: string
  tr_requirement_ids :: "string list"
  tr_coverage_contract :: "(string, json) dict"
  tr_research_risk_profile :: "(string, json) dict"
  tr_run_id :: string
  tr_user_id :: "string option"
  tr_status :: task_status
  tr_phase :: task_phase
  tr_created_at :: seconds
  tr_started_at :: "seconds option"
  tr_completed_at :: "seconds option"
  tr_result :: "(string, json) dict option"
  tr_assigned_teammate_id :: "string option"
  tr_admission_status :: string
  tr_result_artifact_path :: "string option"
  tr_result_artifact_sha256 :: "string option"
  tr_trace_parent_span_id :: "string option"
  tr_langfuse_parent_span_id :: "string option"
  tr_memory_context :: "string option"
  tr_assignment_attempt :: int
  tr_pending_update_instructions :: "string list"
  tr_error_message :: "string option"
  tr_pending_domain :: "string option"
  tr_pending_domain_tool :: "string option"
  tr_sandbox_enabled :: bool
  tr_workspace_path :: "string option"
  tr_container_id :: "string option"
  tr_sandbox_network_mode :: "string option"
  tr_output_archive_path :: "string option"
  tr_last_sandbox_event :: "string option"
  tr_query_count :: int
  tr_source_count :: int
  tr_citation_count :: int
  tr_retry_count :: int

record task_snapshot =
  ts_task_id :: string
  ts_run_id :: string
  ts_user_id :: "string option"
  ts_memory_context :: "string option"
  ts_status :: task_status
  ts_phase :: task_phase
  ts_research_topic :: string
  ts_display_title :: string
  ts_wave_id :: string
  ts_plan_task_id :: string
  ts_requirement_ids :: "string list"
  ts_coverage_contract :: "(string, json) dict"
  ts_research_risk_profile :: "(string, json) dict"
  ts_created_at :: seconds
  ts_started_at :: "seconds option"
  ts_completed_at :: "seconds option"
  ts_updated_at :: seconds
  ts_version :: int
  ts_fence_token :: int
  ts_result :: "(string, json) dict option"
  ts_error_message :: "string option"
  ts_pending_domain :: "string option"
  ts_pending_domain_tool :: "string option"
  ts_assigned_teammate_id :: "string option"
  ts_assignment_attempt :: int
  ts_pending_update_instructions :: "string list"
  ts_admission_status :: string
  ts_result_artifact_path :: "string option"
  ts_result_artifact_sha256 :: "string option"
  ts_trace_parent_span_id :: "string option"
  ts_langfuse_parent_span_id :: "string option"
  ts_metrics :: "(string, int) dict"
  ts_sandbox :: "(string, json) dict"

definition or_default :: "string \<Rightarrow> string" where
  "or_default s = (if s = [] then ''default'' else s)"

definition json_text :: "string option \<Rightarrow> json" where
  "json_text s = (case s of None \<Rightarrow> JNull | Some s \<Rightarrow> JStr s)"

definition task_terminal :: "task_status \<Rightarrow> bool" where
  "task_terminal s \<longleftrightarrow> s \<in> {TaskCompleted, TaskFailed, TaskCancelled, TaskTimedOut}"

definition task_active :: "task_status \<Rightarrow> bool" where
  "task_active s \<longleftrightarrow> s \<in> {TaskPending, TaskRunning, WaitingForConfirmation}"

definition new_task_record ::
    "string \<Rightarrow> seconds \<Rightarrow> string \<Rightarrow> string \<Rightarrow> string option \<Rightarrow> string \<Rightarrow> string \<Rightarrow> string \<Rightarrow>
      string list \<Rightarrow> (string, json) dict \<Rightarrow> (string, json) dict \<Rightarrow> task_record" where
  "new_task_record new_id now research_topic run_id user_id display_title wave_id plan_task_id
     requirement_ids coverage_contract research_risk_profile =
     \<lparr>tr_task_id = new_id, tr_research_topic = research_topic, tr_display_title = display_title,
      tr_wave_id = wave_id, tr_plan_task_id = plan_task_id, tr_requirement_ids =
      requirement_ids, tr_coverage_contract = coverage_contract, tr_research_risk_profile =
      research_risk_profile, tr_run_id = run_id, tr_user_id = user_id, tr_status = TaskPending,
      tr_phase = Researching, tr_created_at = now, tr_started_at = None, tr_completed_at = None,
      tr_result = None, tr_assigned_teammate_id = None, tr_admission_status = ''pending'',
      tr_result_artifact_path = None, tr_result_artifact_sha256 = None, tr_trace_parent_span_id
      = None, tr_langfuse_parent_span_id = None, tr_memory_context = None, tr_assignment_attempt
      = 0, tr_pending_update_instructions = [], tr_error_message = None, tr_pending_domain =
      None, tr_pending_domain_tool = None, tr_sandbox_enabled = False, tr_workspace_path = None,
      tr_container_id = None, tr_sandbox_network_mode = None, tr_output_archive_path = None,
      tr_last_sandbox_event = None, tr_query_count = 0, tr_source_count = 0, tr_citation_count =
      0, tr_retry_count = 0\<rparr>"

definition from_record :: "task_record \<Rightarrow> int \<Rightarrow> int \<Rightarrow> seconds \<Rightarrow> task_snapshot" where
  "from_record r version fence updated =
     \<lparr>ts_task_id = tr_task_id r, ts_run_id = or_default (tr_run_id r), ts_user_id = tr_user_id r,
      ts_memory_context = tr_memory_context r, ts_status = tr_status r, ts_phase = tr_phase r,
      ts_research_topic = tr_research_topic r, ts_display_title = tr_display_title r, ts_wave_id
      = tr_wave_id r, ts_plan_task_id = tr_plan_task_id r, ts_requirement_ids =
      tr_requirement_ids r, ts_coverage_contract = tr_coverage_contract r,
      ts_research_risk_profile = tr_research_risk_profile r, ts_created_at = tr_created_at r,
      ts_started_at = tr_started_at r, ts_completed_at = tr_completed_at r, ts_updated_at =
      updated, ts_version = version, ts_fence_token = fence, ts_result = tr_result r,
      ts_error_message = tr_error_message r, ts_pending_domain = tr_pending_domain r,
      ts_pending_domain_tool = tr_pending_domain_tool r, ts_assigned_teammate_id =
      tr_assigned_teammate_id r, ts_assignment_attempt = tr_assignment_attempt r,
      ts_pending_update_instructions = tr_pending_update_instructions r, ts_admission_status =
      tr_admission_status r, ts_result_artifact_path = tr_result_artifact_path r,
      ts_result_artifact_sha256 = tr_result_artifact_sha256 r, ts_trace_parent_span_id =
      tr_trace_parent_span_id r, ts_langfuse_parent_span_id = tr_langfuse_parent_span_id r,
      ts_metrics = [(''query_count'', tr_query_count r), (''source_count'', tr_source_count r),
      (''citation_count'', tr_citation_count r), (''retry_count'', tr_retry_count r)],
      ts_sandbox = [(''enabled'', JBool (tr_sandbox_enabled r)), (''workspace_path'', json_text
      (tr_workspace_path r)), (''container_id'', json_text (tr_container_id r)),
      (''network_mode'', json_text (tr_sandbox_network_mode r)), (''output_archive_path'',
      json_text (tr_output_archive_path r)), (''last_event'', json_text (tr_last_sandbox_event
      r))]\<rparr>"

text \<open>\<open>elapsed_seconds\<close> of a snapshot and of a record.\<close>

definition snapshot_elapsed :: "seconds \<Rightarrow> task_snapshot \<Rightarrow> seconds" where
  "snapshot_elapsed now s = max 0 (or_else (ts_completed_at s) now - ts_created_at s)"

definition record_elapsed :: "seconds \<Rightarrow> task_record \<Rightarrow> seconds" where
  "record_elapsed now r =
     (case tr_completed_at r of Some t \<Rightarrow> t - tr_created_at r | None \<Rightarrow> now - tr_created_at r)"

section \<open>The registry\<close>

type_synonym task_registry = "(string, task_record) dict"

definition registry_create :: "task_record \<Rightarrow> task_registry \<Rightarrow> task_record \<times> task_registry" where
  "registry_create r reg = (r, dict_set (tr_task_id r) r reg)"

definition registry_get_task :: "string \<Rightarrow> task_registry \<Rightarrow> task_record option" where
  "registry_get_task i reg = dict_get reg i"

definition registry_restore :: "task_record \<Rightarrow> task_registry \<Rightarrow> task_record \<times> task_registry" where
  "registry_restore r reg = (r, dict_set (tr_task_id r) r reg)"

definition registry_list :: "task_status option \<Rightarrow> string option \<Rightarrow> task_registry \<Rightarrow> task_record list" where
  "registry_list st run_id reg =
     filter (\<lambda>t. st = None \<or> st = Some (tr_status t))
       (filter (\<lambda>t. run_id = None \<or> run_id = Some (tr_run_id t)) (dict_values reg))"

text \<open>The extra fields that \<open>update_status\<close> sets are an update of the record.\<close>

definition update_status ::
    "string \<Rightarrow> task_status \<Rightarrow> (task_record \<Rightarrow> task_record) \<Rightarrow> task_registry \<Rightarrow> task_registry" where
  "update_status i st extra reg =
     (case dict_get reg i of
        None \<Rightarrow> reg
      | Some r \<Rightarrow> dict_set i (extra (r\<lparr>tr_status := st\<rparr>)) reg)"

definition all_completed :: "string option \<Rightarrow> task_registry \<Rightarrow> bool" where
  "all_completed run_id reg \<longleftrightarrow> list_all (\<lambda>t. task_terminal (tr_status t)) (registry_list None run_id reg)"

definition registry_count_running :: "string option \<Rightarrow> task_registry \<Rightarrow> nat" where
  "registry_count_running run_id reg =
     length (filter (\<lambda>t. tr_status t = TaskRunning) (registry_list None run_id reg))"

definition registry_count_active :: "string option \<Rightarrow> task_registry \<Rightarrow> nat" where
  "registry_count_active run_id reg =
     length (filter (\<lambda>t. task_active (tr_status t)) (registry_list None run_id reg))"

section \<open>The two stores\<close>

datatype store_error = StaleFence | InvalidPath mailbox_error

text \<open>The in-memory store is keyed by the task alone.\<close>

type_synonym memory_store = "(string, task_snapshot) dict"

definition bump_version :: "task_snapshot \<Rightarrow> task_snapshot \<Rightarrow> task_snapshot" where
  "bump_version current x =
     (if ts_version x \<le> ts_version current then x\<lparr>ts_version := ts_version current + 1\<rparr> else x)"

definition memory_upsert ::
    "memory_store \<Rightarrow> task_snapshot \<Rightarrow> (store_error + task_snapshot) \<times> memory_store" where
  "memory_upsert st x =
     (case dict_get st (ts_task_id x) of
        None \<Rightarrow> (Inr x, dict_set (ts_task_id x) x st)
      | Some current \<Rightarrow>
          if ts_fence_token x < ts_fence_token current then (Inl StaleFence, st)
          else if task_terminal (ts_status current) \<and> ts_status x \<noteq> ts_status current
          then (Inr current, st)
          else (let x' = bump_version current x in (Inr x', dict_set (ts_task_id x) x' st)))"

definition truthy :: "string option \<Rightarrow> bool" where
  "truthy r \<longleftrightarrow> r \<noteq> None \<and> r \<noteq> Some []"

definition memory_get :: "memory_store \<Rightarrow> string \<Rightarrow> string option \<Rightarrow> task_snapshot option" where
  "memory_get st i run_id =
     (case dict_get st i of
        None \<Rightarrow> None
      | Some x \<Rightarrow> if truthy run_id \<and> Some (ts_run_id x) \<noteq> run_id then None else Some x)"

definition memory_list :: "memory_store \<Rightarrow> task_status option \<Rightarrow> string option \<Rightarrow> task_snapshot list" where
  "memory_list st status run_id =
     filter (\<lambda>x. status = None \<or> status = Some (ts_status x))
       (filter (\<lambda>x. truthy run_id \<longrightarrow> Some (ts_run_id x) = run_id) (dict_values st))"

text \<open>The file store has one file per run and task; the list is the order of the directory.\<close>

type_synonym file_store = "(string \<times> string, task_snapshot) dict"

definition task_paths :: "string \<Rightarrow> string \<Rightarrow> store_error + string \<times> string" where
  "task_paths run_id task =
     (case validate_component run_id ''run_id'' of
        Inl e \<Rightarrow> Inl (InvalidPath e)
      | Inr r \<Rightarrow>
     (case validate_component task ''task_id'' of
        Inl e \<Rightarrow> Inl (InvalidPath e)
      | Inr t \<Rightarrow> Inr (r, t)))"

definition file_upsert ::
    "file_store \<Rightarrow> task_snapshot \<Rightarrow> (store_error + task_snapshot) \<times> file_store" where
  "file_upsert st x =
     (case task_paths (ts_run_id x) (ts_task_id x) of
        Inl e \<Rightarrow> (Inl e, st)
      | Inr path \<Rightarrow>
     (case dict_get st path of
        None \<Rightarrow> (Inr x, dict_set path x st)
      | Some current \<Rightarrow>
          if ts_fence_token x < ts_fence_token current then (Inl StaleFence, st)
          else if task_terminal (ts_status current) \<and> ts_status x \<noteq> ts_status current
          then (Inr current, st)
          else (let x' = bump_version current x in (Inr x', dict_set path x' st))))"

definition file_get ::
    "file_store \<Rightarrow> string \<Rightarrow> string option \<Rightarrow> store_error + task_snapshot option" where
  "file_get st i run_id =
     (case validate_component i ''task_id'' of
        Inl e \<Rightarrow> Inl (InvalidPath e)
      | Inr task \<Rightarrow>
          if truthy run_id
          then (case task_paths (the run_id) task of Inl e \<Rightarrow> Inl e | Inr path \<Rightarrow> Inr (dict_get st path))
          else Inr (map_option snd (List.find (\<lambda>(path, x). snd path = task) st)))"

definition file_list ::
    "file_store \<Rightarrow> task_status option \<Rightarrow> string option \<Rightarrow> store_error + task_snapshot list" where
  "file_list st status run_id =
     (let finish = (\<lambda>xs. sort_key ts_created_at
            (filter (\<lambda>x. status = None \<or> status = Some (ts_status x)) xs))
      in if truthy run_id
         then (case validate_component (the run_id) ''run_id'' of
                 Inl e \<Rightarrow> Inl (InvalidPath e)
               | Inr rid \<Rightarrow> Inr (finish (map snd (filter (\<lambda>(path, x). fst path = rid) st))))
         else Inr (finish (map snd st)))"

section \<open>The operations every store inherits\<close>

definition update_from_record ::
    "('s \<Rightarrow> string \<Rightarrow> string option \<Rightarrow> store_error + task_snapshot option) \<Rightarrow>
     ('s \<Rightarrow> task_snapshot \<Rightarrow> (store_error + task_snapshot) \<times> 's) \<Rightarrow>
     's \<Rightarrow> task_record \<Rightarrow> int \<Rightarrow> seconds \<Rightarrow> (store_error + task_snapshot) \<times> 's" where
  "update_from_record store_get store_upsert st r fence now =
     (case store_get st (tr_task_id r) (Some (or_default (tr_run_id r))) of
        Inl e \<Rightarrow> (Inl e, st)
      | Inr current \<Rightarrow>
          store_upsert st (from_record r
            (case current of None \<Rightarrow> 1 | Some c \<Rightarrow> ts_version c + 1) fence now))"

definition store_count_running ::
    "('s \<Rightarrow> task_status option \<Rightarrow> string option \<Rightarrow> store_error + task_snapshot list) \<Rightarrow>
      's \<Rightarrow> string option \<Rightarrow> store_error + nat" where
  "store_count_running store_list st run_id =
     res_bind (store_list st (Some TaskRunning) run_id) (\<lambda>xs. Inr (length xs))"

definition store_count_active ::
    "('s \<Rightarrow> task_status option \<Rightarrow> string option \<Rightarrow> store_error + task_snapshot list) \<Rightarrow>
      's \<Rightarrow> string option \<Rightarrow> store_error + nat" where
  "store_count_active store_list st run_id =
     res_bind (store_list st (Some TaskPending) run_id) (\<lambda>p.
     res_bind (store_list st (Some TaskRunning) run_id) (\<lambda>r.
     res_bind (store_list st (Some WaitingForConfirmation) run_id) (\<lambda>w.
       Inr (length p + length r + length w))))"

definition collect_completed ::
    "('s \<Rightarrow> task_status option \<Rightarrow> string option \<Rightarrow> store_error + task_snapshot list) \<Rightarrow>
      's \<Rightarrow> string option \<Rightarrow> store_error + task_snapshot list" where
  "collect_completed store_list st run_id = store_list st (Some TaskCompleted) run_id"

section \<open>The contract of a store\<close>

text \<open>What an upsert does to the slot of its task.\<close>

definition slot_upsert ::
    "task_snapshot option \<Rightarrow> task_snapshot \<Rightarrow> (store_error + task_snapshot) \<times> task_snapshot option" where
  "slot_upsert old x =
     (case old of
        None \<Rightarrow> (Inr x, Some x)
      | Some c \<Rightarrow>
          if ts_fence_token x < ts_fence_token c then (Inl StaleFence, old)
          else if task_terminal (ts_status c) \<and> ts_status x \<noteq> ts_status c then (Inr c, old)
          else (Inr (bump_version c x), Some (bump_version c x)))"

text \<open>A slot advances: it is never emptied, versions and fence tokens do not decrease, and a
  terminal status is final.\<close>

definition advances :: "task_snapshot option \<Rightarrow> task_snapshot option \<Rightarrow> bool" where
  "advances old new \<longleftrightarrow> (\<forall>c. old = Some c \<longrightarrow> (\<exists>d. new = Some d \<and>
     ts_version c \<le> ts_version d \<and> ts_fence_token c \<le> ts_fence_token d \<and>
     (task_terminal (ts_status c) \<longrightarrow> ts_status d = ts_status c)))"

lemma advances_refl [simp]: "advances old old"
  by (simp add: advances_def)

lemma advances_trans: "advances a b \<Longrightarrow> advances b c \<Longrightarrow> advances a c"
  by (fastforce simp: advances_def intro: order_trans)

lemma bump_version_simps [simp]:
  "ts_fence_token (bump_version c x) = ts_fence_token x"
  "ts_status (bump_version c x) = ts_status x"
  "ts_run_id (bump_version c x) = ts_run_id x"
  "ts_task_id (bump_version c x) = ts_task_id x"
  "ts_version c < ts_version (bump_version c x)"
  by (simp_all add: bump_version_def)

lemma slot_upsert_advances: "advances old (snd (slot_upsert old x))"
  by (auto simp: slot_upsert_def advances_def less_imp_le split: option.splits)

locale task_store =
  fixes slot :: "'s \<Rightarrow> 'k \<Rightarrow> task_snapshot option"
    and upsert :: "'s \<Rightarrow> task_snapshot \<Rightarrow> (store_error + task_snapshot) \<times> 's"
    and key_of :: "task_snapshot \<Rightarrow> 'k"
    and valid :: "task_snapshot \<Rightarrow> bool"
  assumes upsert_slot: "valid x \<Longrightarrow>
      (fst (upsert st x), slot (snd (upsert st x)) (key_of x)) = slot_upsert (slot st (key_of x)) x"
    and upsert_other: "k \<noteq> key_of x \<Longrightarrow> slot (snd (upsert st x)) k = slot st k"
    and upsert_invalid: "\<not> valid x \<Longrightarrow> slot (snd (upsert st x)) k = slot st k"
begin

lemma upsert_advances: "advances (slot st k) (slot (snd (upsert st x)) k)"
proof (cases "valid x \<and> k = key_of x")
  case True
  then have "slot (snd (upsert st x)) k = snd (slot_upsert (slot st k) x)"
    using upsert_slot[of x st] by (metis snd_conv)
  then show ?thesis by (simp add: slot_upsert_advances)
next
  case False
  then have "slot (snd (upsert st x)) k = slot st k"
    using upsert_other[of k x st] upsert_invalid[of x st k] by blast
  then show ?thesis by simp
qed

lemma history_advances: "advances (slot st k) (slot (run (\<lambda>s x. snd (upsert s x)) st xs) k)"
  by (induction xs arbitrary: st) (auto intro: advances_trans upsert_advances)

lemma stale_rejected:
  assumes "valid x" "slot st (key_of x) = Some c" "ts_fence_token x < ts_fence_token c"
  shows "fst (upsert (run (\<lambda>s x. snd (upsert s x)) st xs) x) = Inl StaleFence"
proof -
  from history_advances[of st "key_of x" xs] assms(2) obtain d where
    "slot (run (\<lambda>s x. snd (upsert s x)) st xs) (key_of x) = Some d" "ts_fence_token c \<le> ts_fence_token d"
    by (auto simp: advances_def)
  with upsert_slot[OF assms(1), of "run (\<lambda>s x. snd (upsert s x)) st xs"] assms(3) show ?thesis
    by (simp add: slot_upsert_def)
qed

end

interpretation memory: task_store dict_get memory_upsert ts_task_id "\<lambda>_. True"
  by unfold_locales
    (auto simp: memory_upsert_def slot_upsert_def Let_def split: option.splits)

definition path_ok :: "task_snapshot \<Rightarrow> bool" where
  "path_ok x \<longleftrightarrow> valid_component (ts_run_id x) \<and> valid_component (ts_task_id x)"

definition path_of :: "task_snapshot \<Rightarrow> string \<times> string" where
  "path_of x = (ts_run_id x, ts_task_id x)"

lemma task_paths_simps:
  "path_ok x \<Longrightarrow> task_paths (ts_run_id x) (ts_task_id x) = Inr (path_of x)"
  "\<not> path_ok x \<Longrightarrow> \<exists>e. task_paths (ts_run_id x) (ts_task_id x) = Inl e"
  by (auto simp: task_paths_def path_ok_def path_of_def validate_component_def)

interpretation file_tasks: task_store dict_get file_upsert path_of path_ok
proof
  fix x st k
  show "path_ok x \<Longrightarrow> (fst (file_upsert st x), dict_get (snd (file_upsert st x)) (path_of x)) =
      slot_upsert (dict_get st (path_of x)) x"
    by (auto simp: file_upsert_def task_paths_simps slot_upsert_def Let_def split: option.splits)
  show "k \<noteq> path_of x \<Longrightarrow> dict_get (snd (file_upsert st x)) k = dict_get st k"
    by (cases "path_ok x"; use task_paths_simps(2)[of x] in
      \<open>auto simp: file_upsert_def task_paths_simps(1) Let_def split: option.splits\<close>)
  show "\<not> path_ok x \<Longrightarrow> dict_get (snd (file_upsert st x)) k = dict_get st k"
    using task_paths_simps(2)[of x] by (auto simp: file_upsert_def)
qed

section \<open>Results of sequences of upserts\<close>

fun upsert_results ::
    "('s \<Rightarrow> task_snapshot \<Rightarrow> (store_error + task_snapshot) \<times> 's) \<Rightarrow> 's \<Rightarrow> task_snapshot list \<Rightarrow>
      (store_error + task_snapshot) list" where
  "upsert_results f st [] = []"
| "upsert_results f st (x # xs) = fst (f st x) # upsert_results f (snd (f st x)) xs"

lemma stores_agree:
  assumes "\<forall>i. valid_component i \<longrightarrow> dict_get mem i = dict_get files (rid, i)"
    "list_all (\<lambda>x. ts_run_id x = rid \<and> path_ok x) xs"
  shows "upsert_results memory_upsert mem xs = upsert_results file_upsert files xs"
  using assms
proof (induction xs arbitrary: mem files)
  case (Cons x xs)
  then have x: "path_ok x" "path_of x = (rid, ts_task_id x)" "valid_component (ts_task_id x)"
    by (auto simp: path_of_def path_ok_def)
  have same: "dict_get mem (ts_task_id x) = dict_get files (path_of x)" using Cons.prems(1) x by simp
  note m = memory.upsert_slot[where x = x and st = mem, OF TrueI] and f = file_tasks.upsert_slot[OF x(1), of files]
  have res: "fst (memory_upsert mem x) = fst (file_upsert files x)"
    using m f same by (metis fst_conv)
  have "\<forall>i. valid_component i \<longrightarrow>
      dict_get (snd (memory_upsert mem x)) i = dict_get (snd (file_upsert files x)) (rid, i)"
  proof (intro allI impI)
    fix i
    assume i: "valid_component i"
    show "dict_get (snd (memory_upsert mem x)) i = dict_get (snd (file_upsert files x)) (rid, i)"
    proof (cases "i = ts_task_id x")
      case True
      then show ?thesis using m f same x(2) by (metis snd_conv)
    next
      case False
      then have "(rid, i) \<noteq> path_of x" using x(2) by simp
      with False Cons.prems(1) i show ?thesis
        by (simp add: memory.upsert_other file_tasks.upsert_other)
    qed
  qed
  with Cons res show ?case by simp
qed simp

lemma filter_three:
  "length (filter (\<lambda>x. f x = a) xs) + length (filter (\<lambda>x. f x = b) xs) + length (filter (\<lambda>x. f x = c) xs) =
     length (filter (\<lambda>x. f x \<in> {a, b, c}) xs)"
  if "distinct [a, b, c]"
  using that by (induction xs) auto

lemma memory_list_status:
  "memory_list st (Some status) run_id = filter (\<lambda>x. ts_status x = status) (memory_list st None run_id)"
  by (auto simp: memory_list_def intro!: filter_cong)

lemma memory_count_active:
  "store_count_active (\<lambda>s f r. Inr (memory_list s f r)) st run_id =
     Inr (length (filter (\<lambda>x. task_active (ts_status x)) (memory_list st None run_id)))"
  unfolding store_count_active_def task_active_def memory_list_status[of st _ run_id]
  by (simp add: filter_three[of TaskPending TaskRunning WaitingForConfirmation ts_status])

section \<open>Properties\<close>

text \<open>The history of a task in the file store is monotone: along any sequence of upserts by
  any writers, a task's snapshot is never lost, its version and fence token never decrease, and
  once it is completed, failed, cancelled or timed out its status never changes.\<close>

lemma task_history_monotone:
  assumes "dict_get st (rid, tid) = Some c"
  shows "\<exists>d. dict_get (run (\<lambda>s x. snd (file_upsert s x)) st xs) (rid, tid) = Some d \<and>
    ts_version c \<le> ts_version d \<and> ts_fence_token c \<le> ts_fence_token d \<and>
    (task_terminal (ts_status c) \<longrightarrow> ts_status d = ts_status c)"
  using file_tasks.history_advances[of st "(rid, tid)" xs] assms by (simp add: advances_def)

definition demo_snapshot :: "task_status \<Rightarrow> int \<Rightarrow> task_snapshot" where
  "demo_snapshot status fence =
     (from_record (new_task_record ''t1'' 0 ''topic'' ''r1'' None '''' '''' '''' [] [] []) 1 fence 0)
       \<lparr>ts_status := status\<rparr>"

lemma demo_snapshot_simps [simp]:
  "ts_status (demo_snapshot status fence) = status"
  "ts_fence_token (demo_snapshot status fence) = fence"
  "ts_version (demo_snapshot status fence) = 1"
  "ts_run_id (demo_snapshot status fence) = ''r1''"
  "ts_task_id (demo_snapshot status fence) = ''t1''"
  by (simp_all add: demo_snapshot_def from_record_def new_task_record_def or_default_def)

lemma demo_snapshot_ok: "path_ok (demo_snapshot status fence)"
proof -
  have "valid_component ''r1''" "valid_component ''t1''" by code_simp+
  then show ?thesis by (simp add: path_ok_def)
qed

lemma task_history_monotone_witness:
  "\<exists>d. dict_get (run (\<lambda>s x. snd (file_upsert s x)) [((''r1'', ''t1''), demo_snapshot TaskCompleted 2)]
      [demo_snapshot TaskRunning 3, demo_snapshot TaskCompleted 1]) (''r1'', ''t1'') = Some d \<and>
    ts_status d = TaskCompleted"
  using task_history_monotone[of "[((''r1'', ''t1''), demo_snapshot TaskCompleted 2)]" "''r1''" "''t1''"
      "demo_snapshot TaskCompleted 2" "[demo_snapshot TaskRunning 3, demo_snapshot TaskCompleted 1]"]
  by (auto simp: task_terminal_def)

text \<open>A writer of an older epoch is fenced off for good: once a task carries a fence token
  newer than the writer's, its upsert raises \<open>stale_fence_token\<close> after any further upserts.\<close>

lemma stale_writer_rejected:
  assumes "valid_component (ts_run_id x)" "valid_component (ts_task_id x)"
    "dict_get st (ts_run_id x, ts_task_id x) = Some c" "ts_fence_token x < ts_fence_token c"
  shows "fst (file_upsert (run (\<lambda>s x. snd (file_upsert s x)) st xs) x) = Inl StaleFence"
  using file_tasks.stale_rejected[of x st c xs] assms by (simp add: path_ok_def path_of_def)

lemma stale_writer_rejected_witness:
  "fst (file_upsert (run (\<lambda>s x. snd (file_upsert s x)) [((''r1'', ''t1''), demo_snapshot TaskRunning 2)]
      [demo_snapshot TaskRunning 5]) (demo_snapshot TaskCompleted 1)) = Inl StaleFence"
  using demo_snapshot_ok
  by (intro stale_writer_rejected[of _ _ "demo_snapshot TaskRunning 2"]) (auto simp: path_ok_def)

text \<open>The two stores are interchangeable within a run: starting empty, any sequence of
  upserts of snapshots of one run gives the same results, snapshots and errors, from the
  in-memory store and from the file store.\<close>

lemma memory_store_equals_file_store:
  assumes "list_all (\<lambda>x. ts_run_id x = rid \<and> path_ok x) xs"
  shows "upsert_results memory_upsert [] xs = upsert_results file_upsert [] xs"
  by (rule stores_agree[where rid = rid]) (use assms in simp_all)

lemma memory_store_equals_file_store_witness:
  "upsert_results memory_upsert [] [demo_snapshot TaskCompleted 2, demo_snapshot TaskRunning 2] =
     upsert_results file_upsert [] [demo_snapshot TaskCompleted 2, demo_snapshot TaskRunning 2]"
  by (rule memory_store_equals_file_store[where rid = "''r1''"]) (simp add: demo_snapshot_ok)

text \<open>Persisting a live record through the file store writes version one for a new task and
  otherwise the successor of the stored version, provided the caller's epoch is current and the
  stored status is not a different terminal one; what is stored is what is returned.\<close>

lemma update_from_record_version:
  assumes "valid_component (or_default (tr_run_id r))" "valid_component (tr_task_id r)"
    "\<And>c. dict_get st (or_default (tr_run_id r), tr_task_id r) = Some c \<Longrightarrow>
      ts_fence_token c \<le> fence \<and> (task_terminal (ts_status c) \<longrightarrow> ts_status c = tr_status r)"
  shows "update_from_record file_get file_upsert st r fence now =
    (let x = from_record r (case dict_get st (or_default (tr_run_id r), tr_task_id r) of
          None \<Rightarrow> 1 | Some c \<Rightarrow> ts_version c + 1) fence now
     in (Inr x, dict_set (or_default (tr_run_id r), tr_task_id r) x st))"
proof -
  have t: "truthy (Some (or_default (tr_run_id r)))" by (simp add: truthy_def or_default_def)
  have p: "task_paths (or_default (tr_run_id r)) (tr_task_id r) = Inr (or_default (tr_run_id r), tr_task_id r)"
    using assms(1,2) by (simp add: task_paths_def validate_component_def)
  have g: "file_get st (tr_task_id r) (Some (or_default (tr_run_id r))) =
      Inr (dict_get st (or_default (tr_run_id r), tr_task_id r))"
    using assms(2) t p by (simp add: file_get_def validate_component_def)
  have f: "ts_run_id (from_record r v fence now) = or_default (tr_run_id r)"
    "ts_task_id (from_record r v fence now) = tr_task_id r"
    "ts_fence_token (from_record r v fence now) = fence"
    "ts_status (from_record r v fence now) = tr_status r"
    "ts_version (from_record r v fence now) = v" for v
    by (simp_all add: from_record_def)
  show ?thesis
  proof (cases "dict_get st (or_default (tr_run_id r), tr_task_id r)")
    case None
    with g p f show ?thesis by (simp add: update_from_record_def file_upsert_def Let_def)
  next
    case (Some c)
    with g p f assms(3)[OF Some] show ?thesis
      by (auto simp: update_from_record_def file_upsert_def bump_version_def Let_def)
  qed
qed

lemma update_from_record_version_example:
  "fst (update_from_record file_get file_upsert []
     (new_task_record ''t1'' 0 ''topic'' ''r1'' None '''' '''' '''' [] [] []) 1 0) =
   Inr (from_record (new_task_record ''t1'' 0 ''topic'' ''r1'' None '''' '''' '''' [] [] []) 1 1 0)"
proof -
  let ?r = "new_task_record ''t1'' 0 ''topic'' ''r1'' None '''' '''' '''' [] [] []"
  have r: "tr_run_id ?r = ''r1''" "tr_task_id ?r = ''t1''" by (simp_all add: new_task_record_def)
  have v: "valid_component ''r1''" "valid_component ''t1''" by code_simp+
  have d: "or_default ''r1'' = ''r1''" by (simp add: or_default_def)
  from update_from_record_version[of ?r "[]" 1 0] r d v show ?thesis by (simp add: Let_def)
qed

end
