(* ===== verification/Json_Access.thy ===== *)
theory Json_Access
  imports Prelude
begin

text \<open>
  Reading typed values out of JSON: \<open>dict.get\<close> with and without a default and the coercions
  \<open>int\<close>, \<open>float\<close>, \<open>bool\<close>, \<open>str\<close>, \<open>list\<close> and \<open>dict\<close> as the checkpoint readers use them.
  \<open>Raises\<close> stands for the Python exception of a coercion. Coercions of strings to numbers, and
  of anything but a string to text, are outside the model and are reported as \<open>Outside\<close>.
\<close>

datatype json_error = MissingKey string | Raises | Outside

definition jget :: "string \<Rightarrow> (string, json) dict \<Rightarrow> json" where
  "jget k d = (case dict_get d k of None \<Rightarrow> JNull | Some v \<Rightarrow> v)"

definition jget_or :: "string \<Rightarrow> json \<Rightarrow> (string, json) dict \<Rightarrow> json" where
  "jget_or k dflt d = (case dict_get d k of None \<Rightarrow> dflt | Some v \<Rightarrow> v)"

definition jitem :: "string \<Rightarrow> (string, json) dict \<Rightarrow> json_error + json" where
  "jitem k d = (case dict_get d k of None \<Rightarrow> Inl (MissingKey k) | Some v \<Rightarrow> Inr v)"

fun jtruthy :: "json \<Rightarrow> bool" where
  "jtruthy JNull = False"
| "jtruthy (JBool b) = b"
| "jtruthy (JInt i) = (i \<noteq> 0)"
| "jtruthy (JFloat r) = (r \<noteq> 0)"
| "jtruthy (JStr s) = (s \<noteq> [])"
| "jtruthy (JList xs) = (xs \<noteq> [])"
| "jtruthy (JObj d) = (d \<noteq> [])"

fun jint :: "json \<Rightarrow> json_error + int" where
  "jint (JInt i) = Inr i"
| "jint (JBool b) = Inr (if b then 1 else 0)"
| "jint (JFloat r) = Inr (if 0 \<le> r then \<lfloor>r\<rfloor> else \<lceil>r\<rceil>)"
| "jint (JStr _) = Inl Outside"
| "jint _ = Inl Raises"

fun jfloat :: "json \<Rightarrow> json_error + rat" where
  "jfloat (JInt i) = Inr (of_int i)"
| "jfloat (JBool b) = Inr (if b then 1 else 0)"
| "jfloat (JFloat r) = Inr r"
| "jfloat (JStr _) = Inl Outside"
| "jfloat _ = Inl Raises"

fun jstr :: "json \<Rightarrow> json_error + string" where
  "jstr (JStr s) = Inr s"
| "jstr _ = Inl Outside"

fun jlist :: "json \<Rightarrow> json_error + json list" where
  "jlist (JList xs) = Inr xs"
| "jlist (JStr s) = Inr (map (\<lambda>c. JStr [c]) s)"
| "jlist (JObj d) = Inr (map (JStr \<circ> fst) d)"
| "jlist _ = Inl Raises"

fun jdict :: "json \<Rightarrow> json_error + (string, json) dict" where
  "jdict (JObj d) = Inr d"
| "jdict (JList []) = Inr []"
| "jdict (JStr []) = Inr []"
| "jdict (JList (x # xs)) = Inl Outside"
| "jdict _ = Inl Raises"

text \<open>A value read through \<open>f\<close> unless it is \<open>None\<close>.\<close>

definition jopt :: "(json \<Rightarrow> json_error + 'a) \<Rightarrow> json \<Rightarrow> json_error + 'a option" where
  "jopt f v = (if v = JNull then Inr None else res_bind (f v) (\<lambda>x. Inr (Some x)))"

fun jmapM :: "('a \<Rightarrow> json_error + 'b) \<Rightarrow> 'a list \<Rightarrow> json_error + 'b list" where
  "jmapM f [] = Inr []"
| "jmapM f (x # xs) = res_bind (f x) (\<lambda>y. res_bind (jmapM f xs) (\<lambda>ys. Inr (y # ys)))"

definition json_opt :: "('a \<Rightarrow> json) \<Rightarrow> 'a option \<Rightarrow> json" where
  "json_opt f x = (case x of None \<Rightarrow> JNull | Some v \<Rightarrow> f v)"

text \<open>\<open>str(v)\<close>; \<open>repr\<close> stands for the text of a number, list or dictionary.\<close>

definition py_text :: "(json \<Rightarrow> string) \<Rightarrow> json \<Rightarrow> string" where
  "py_text repr v =
     (case v of
        JNull \<Rightarrow> ''None''
      | JBool b \<Rightarrow> if b then ''True'' else ''False''
      | JStr s \<Rightarrow> s
      | _ \<Rightarrow> repr v)"

text \<open>Values taken as they are, at their annotated type; a value of another type, which Python would
  store unchecked, is \<open>Outside\<close>.\<close>

fun raw_int :: "json \<Rightarrow> json_error + int" where
  "raw_int (JInt i) = Inr i"
| "raw_int _ = Inl Outside"

fun raw_bool :: "json \<Rightarrow> json_error + bool" where
  "raw_bool (JBool b) = Inr b"
| "raw_bool _ = Inl Outside"

fun raw_float :: "json \<Rightarrow> json_error + rat" where
  "raw_float (JFloat r) = Inr r"
| "raw_float _ = Inl Outside"

fun raw_list :: "json \<Rightarrow> json_error + json list" where
  "raw_list (JList xs) = Inr xs"
| "raw_list _ = Inl Outside"

fun raw_obj :: "json \<Rightarrow> json_error + (string, json) dict" where
  "raw_obj (JObj d) = Inr d"
| "raw_obj _ = Inl Outside"

definition raw_strs :: "json \<Rightarrow> json_error + string list" where
  "raw_strs v = res_bind (raw_list v) (jmapM jstr)"

definition raw_objs :: "json \<Rightarrow> json_error + (string, json) dict list" where
  "raw_objs v = res_bind (raw_list v) (jmapM raw_obj)"

text \<open>Reading back what was written.\<close>

lemma jmapM_map [simp]: "(\<And>x. x \<in> set xs \<Longrightarrow> f (g x) = Inr x) \<Longrightarrow> jmapM f (map g xs) = Inr xs"
  by (induction xs) auto

lemma raw_lists [simp]:
  "raw_strs (JList (map JStr xs)) = Inr xs"
  "raw_objs (JList (map JObj ds)) = Inr ds"
  by (simp_all add: raw_strs_def raw_objs_def)

lemma jopt_json_opt [simp]:
  "(\<And>x. f (g x) = Inr x \<and> g x \<noteq> JNull) \<Longrightarrow> jopt f (json_opt g v) = Inr v"
  by (cases v) (simp_all add: jopt_def json_opt_def)

lemma jopt_simps [simp]:
  "jopt f JNull = Inr None" "jopt f (JObj d) = res_bind (f (JObj d)) (\<lambda>x. Inr (Some x))"
  by (simp_all add: jopt_def)

lemma jget_Cons [simp]:
  "jget k ((k', v) # d) = (if k = k' then v else jget k d)"
  "jget_or k x ((k', v) # d) = (if k = k' then v else jget_or k x d)"
  "jitem k ((k', v) # d) = (if k = k' then Inr v else jitem k d)"
  by (auto simp: jget_def jget_or_def jitem_def)

end
