(* ===== verification/Checkpoint.thy ===== *)
theory Checkpoint
  imports Json_Access Mailbox
begin

text \<open>
  Checkpoints of a researcher task (\<open>src/open_deep_research/tasks/recovery.py\<close>).

  \<open>researcher_checkpoint\<close> is the dataclass, \<open>to_dict\<close> and \<open>from_dict\<close> its serialisation, and the
  manager is the directory of checkpoint files of one run: each operation runs under the lock of
  its file. A file that is not JSON, or whose values do not have the annotated types, is outside
  the model and reported as \<open>Unreadable\<close>.
\<close>

section \<open>Data\<close>

record researcher_checkpoint =
  ck_task_id :: string
  ck_phase :: string
  ck_schema_version :: int
  ck_next_step :: string
  ck_fence_token :: int
  ck_committed_tool_call_ids :: "string list"
  ck_artifact_refs :: "(string, json) dict list"
  ck_completion_decision :: "(string, json) dict"
  ck_messages_snapshot :: "(string, json) dict list"
  ck_tool_call_iterations :: int
  ck_completed_queries :: "string list"
  ck_fetched_sources :: "string list"
  ck_compressed_research :: "string option"
  ck_research_topic :: string
  ck_run_id :: string
  ck_user_id :: "string option"
  ck_memory_context :: "string option"
  ck_query_state :: "(string, json) dict option"
  ck_requirement_ids :: "string list"
  ck_coverage_contract :: "(string, json) dict"
  ck_research_risk_profile :: "(string, json) dict"
  ck_raw_notes :: "string list"
  ck_pending_tool_results :: "(string, json) dict list"
  ck_research_complete_requested :: bool
  ck_research_complete_succeeded :: bool
  ck_result_assessment :: "(string, json) dict"
  ck_permission_denials :: "(string, json) dict list"
  ck_candidate_registry :: "(string, json) dict list"
  ck_document_registry :: "(string, json) dict list"
  ck_evidence_registry :: "(string, json) dict list"
  ck_web_research_iterations :: "(string, json) dict list"
  ck_applied_query_event_ids :: "string list"
  ck_timestamp :: seconds

section \<open>Serialisation\<close>

definition to_dict :: "researcher_checkpoint \<Rightarrow> (string, json) dict" where
  "to_dict c = [
     (''schema_version'', JInt (ck_schema_version c)),
     (''task_id'', JStr (ck_task_id c)),
     (''phase'', JStr (ck_phase c)),
     (''next_step'', JStr (ck_next_step c)),
     (''fence_token'', JInt (ck_fence_token c)),
     (''committed_tool_call_ids'', JList (map JStr (ck_committed_tool_call_ids c))),
     (''artifact_refs'', JList (map JObj (ck_artifact_refs c))),
     (''completion_decision'', JObj (ck_completion_decision c)),
     (''messages_snapshot'', JList (map JObj (ck_messages_snapshot c))),
     (''tool_call_iterations'', JInt (ck_tool_call_iterations c)),
     (''completed_queries'', JList (map JStr (ck_completed_queries c))),
     (''fetched_sources'', JList (map JStr (ck_fetched_sources c))),
     (''compressed_research'', json_opt JStr (ck_compressed_research c)),
     (''research_topic'', JStr (ck_research_topic c)),
     (''run_id'', JStr (ck_run_id c)),
     (''user_id'', json_opt JStr (ck_user_id c)),
     (''memory_context'', json_opt JStr (ck_memory_context c)),
     (''query_state'', json_opt JObj (ck_query_state c)),
     (''requirement_ids'', JList (map JStr (ck_requirement_ids c))),
     (''coverage_contract'', JObj (ck_coverage_contract c)),
     (''research_risk_profile'', JObj (ck_research_risk_profile c)),
     (''raw_notes'', JList (map JStr (ck_raw_notes c))),
     (''pending_tool_results'', JList (map JObj (ck_pending_tool_results c))),
     (''research_complete_requested'', JBool (ck_research_complete_requested c)),
     (''research_complete_succeeded'', JBool (ck_research_complete_succeeded c)),
     (''result_assessment'', JObj (ck_result_assessment c)),
     (''permission_denials'', JList (map JObj (ck_permission_denials c))),
     (''candidate_registry'', JList (map JObj (ck_candidate_registry c))),
     (''document_registry'', JList (map JObj (ck_document_registry c))),
     (''evidence_registry'', JList (map JObj (ck_evidence_registry c))),
     (''web_research_iterations'', JList (map JObj (ck_web_research_iterations c))),
     (''applied_query_event_ids'', JList (map JStr (ck_applied_query_event_ids c))),
     (''timestamp'', JFloat (ck_timestamp c))]"

definition from_dict :: "seconds \<Rightarrow> (string, json) dict \<Rightarrow> json_error + researcher_checkpoint" where
  "from_dict now d =
     res_bind (jstr (jget_or ''task_id'' (JStr []) d)) (\<lambda>v_task_id.
     res_bind (jstr (jget_or ''phase'' (JStr ''researching'') d)) (\<lambda>v_phase.
     res_bind (raw_int (jget_or ''schema_version'' (JInt 1) d)) (\<lambda>v_schema_version.
     res_bind (jstr (jget_or ''next_step'' (JStr ''model'') d)) (\<lambda>v_next_step.
     res_bind (raw_int (jget_or ''fence_token'' (JInt 0) d)) (\<lambda>v_fence_token.
     res_bind (raw_strs (jget_or ''committed_tool_call_ids'' (JList []) d)) (\<lambda>v_committed_tool_call_ids.
     res_bind (raw_objs (jget_or ''artifact_refs'' (JList []) d)) (\<lambda>v_artifact_refs.
     res_bind (raw_obj (jget_or ''completion_decision'' (JObj []) d)) (\<lambda>v_completion_decision.
     res_bind (raw_objs (jget_or ''messages_snapshot'' (JList []) d)) (\<lambda>v_messages_snapshot.
     res_bind (raw_int (jget_or ''tool_call_iterations'' (JInt 0) d)) (\<lambda>v_tool_call_iterations.
     res_bind (raw_strs (jget_or ''completed_queries'' (JList []) d)) (\<lambda>v_completed_queries.
     res_bind (raw_strs (jget_or ''fetched_sources'' (JList []) d)) (\<lambda>v_fetched_sources.
     res_bind (jopt jstr (jget ''compressed_research'' d)) (\<lambda>v_compressed_research.
     res_bind (jstr (jget_or ''research_topic'' (JStr []) d)) (\<lambda>v_research_topic.
     res_bind (jstr (jget_or ''run_id'' (JStr []) d)) (\<lambda>v_run_id.
     res_bind (jopt jstr (jget ''user_id'' d)) (\<lambda>v_user_id.
     res_bind (jopt jstr (jget ''memory_context'' d)) (\<lambda>v_memory_context.
     res_bind (jopt raw_obj (jget ''query_state'' d)) (\<lambda>v_query_state.
     res_bind (raw_strs (jget_or ''requirement_ids'' (JList []) d)) (\<lambda>v_requirement_ids.
     res_bind (raw_obj (jget_or ''coverage_contract'' (JObj []) d)) (\<lambda>v_coverage_contract.
     res_bind (raw_obj (jget_or ''research_risk_profile'' (JObj []) d)) (\<lambda>v_research_risk_profile.
     res_bind (raw_strs (jget_or ''raw_notes'' (JList []) d)) (\<lambda>v_raw_notes.
     res_bind (raw_objs (jget_or ''pending_tool_results'' (JList []) d)) (\<lambda>v_pending_tool_results.
     res_bind (raw_bool (jget_or ''research_complete_requested'' (JBool False) d)) (\<lambda>v_research_complete_requested.
     res_bind (raw_bool (jget_or ''research_complete_succeeded'' (JBool False) d)) (\<lambda>v_research_complete_succeeded.
     res_bind (raw_obj (jget_or ''result_assessment'' (JObj []) d)) (\<lambda>v_result_assessment.
     res_bind (raw_objs (jget_or ''permission_denials'' (JList []) d)) (\<lambda>v_permission_denials.
     res_bind (raw_objs (jget_or ''candidate_registry'' (JList []) d)) (\<lambda>v_candidate_registry.
     res_bind (raw_objs (jget_or ''document_registry'' (JList []) d)) (\<lambda>v_document_registry.
     res_bind (raw_objs (jget_or ''evidence_registry'' (JList []) d)) (\<lambda>v_evidence_registry.
     res_bind (raw_objs (jget_or ''web_research_iterations'' (JList []) d)) (\<lambda>v_web_research_iterations.
     res_bind (raw_strs (jget_or ''applied_query_event_ids'' (JList []) d)) (\<lambda>v_applied_query_event_ids.
     res_bind (raw_float (jget_or ''timestamp'' (JFloat now) d)) (\<lambda>v_timestamp.
       Inr \<lparr>ck_task_id = v_task_id, ck_phase = v_phase, ck_schema_version = v_schema_version,
            ck_next_step = v_next_step, ck_fence_token = v_fence_token,
            ck_committed_tool_call_ids = v_committed_tool_call_ids, ck_artifact_refs =
            v_artifact_refs, ck_completion_decision = v_completion_decision,
            ck_messages_snapshot = v_messages_snapshot, ck_tool_call_iterations =
            v_tool_call_iterations, ck_completed_queries = v_completed_queries,
            ck_fetched_sources = v_fetched_sources, ck_compressed_research =
            v_compressed_research, ck_research_topic = v_research_topic, ck_run_id =
            v_run_id, ck_user_id = v_user_id, ck_memory_context = v_memory_context,
            ck_query_state = v_query_state, ck_requirement_ids = v_requirement_ids,
            ck_coverage_contract = v_coverage_contract, ck_research_risk_profile =
            v_research_risk_profile, ck_raw_notes = v_raw_notes, ck_pending_tool_results =
            v_pending_tool_results, ck_research_complete_requested =
            v_research_complete_requested, ck_research_complete_succeeded =
            v_research_complete_succeeded, ck_result_assessment = v_result_assessment,
            ck_permission_denials = v_permission_denials, ck_candidate_registry =
            v_candidate_registry, ck_document_registry = v_document_registry,
            ck_evidence_registry = v_evidence_registry, ck_web_research_iterations =
            v_web_research_iterations, ck_applied_query_event_ids =
            v_applied_query_event_ids, ck_timestamp = v_timestamp\<rparr>)))))))))))))))))))))))))))))))))"

section \<open>The checkpoint directory of a run\<close>

datatype checkpoint_error = InvalidTask mailbox_error | StaleCheckpointFence | Unreadable json_error

type_synonym checkpoint_dir = "(string, (string, json) dict) dict"

definition checkpoint_path :: "string \<Rightarrow> checkpoint_error + string" where
  "checkpoint_path task =
     (case validate_component task ''task_id'' of Inl e \<Rightarrow> Inl (InvalidTask e) | Inr s \<Rightarrow> Inr s)"

definition read_checkpoint ::
    "seconds \<Rightarrow> string \<Rightarrow> checkpoint_dir \<Rightarrow> checkpoint_error + researcher_checkpoint option" where
  "read_checkpoint now file dir =
     (case dict_get dir file of
        None \<Rightarrow> Inr None
      | Some d \<Rightarrow> (case from_dict now d of Inl e \<Rightarrow> Inl (Unreadable e) | Inr c \<Rightarrow> Inr (Some c)))"

definition checkpoint_save ::
    "seconds \<Rightarrow> researcher_checkpoint \<Rightarrow> checkpoint_dir \<Rightarrow> (checkpoint_error + unit) \<times> checkpoint_dir" where
  "checkpoint_save now c dir =
     (case res_bind (checkpoint_path (ck_task_id c)) (\<lambda>f.
        res_bind (read_checkpoint now f dir) (\<lambda>current. Inr (f, current))) of
        Inl e \<Rightarrow> (Inl e, dir)
      | Inr (file, current) \<Rightarrow>
          if \<exists>old \<in> set_option current. ck_fence_token c < ck_fence_token old
          then (Inl StaleCheckpointFence, dir)
          else (Inr (), dict_set file (to_dict (c\<lparr>ck_timestamp := now\<rparr>)) dir))"

definition checkpoint_load ::
    "seconds \<Rightarrow> string \<Rightarrow> checkpoint_dir \<Rightarrow> checkpoint_error + researcher_checkpoint option" where
  "checkpoint_load now task dir =
     res_bind (checkpoint_path task) (\<lambda>f. read_checkpoint now f dir)"

definition checkpoint_delete ::
    "seconds \<Rightarrow> string \<Rightarrow> int option \<Rightarrow> checkpoint_dir \<Rightarrow> (checkpoint_error + unit) \<times> checkpoint_dir" where
  "checkpoint_delete now task fence dir =
     (case res_bind (checkpoint_path task) (\<lambda>f.
        res_bind (read_checkpoint now f dir) (\<lambda>current. Inr (f, current))) of
        Inl e \<Rightarrow> (Inl e, dir)
      | Inr (file, None) \<Rightarrow> (Inr (), dir)
      | Inr (file, Some old) \<Rightarrow>
          if \<exists>t \<in> set_option fence. t < ck_fence_token old then (Inl StaleCheckpointFence, dir)
          else (Inr (), AList.delete file dir))"

fun load_each ::
    "seconds \<Rightarrow> string list \<Rightarrow> checkpoint_dir \<Rightarrow> checkpoint_error + researcher_checkpoint list" where
  "load_each now [] dir = Inr []"
| "load_each now (task # tasks) dir =
     res_bind (checkpoint_load now task dir) (\<lambda>c.
     res_bind (load_each now tasks dir) (\<lambda>cs.
       Inr (case c of None \<Rightarrow> cs | Some c \<Rightarrow> c # cs)))"

definition list_checkpoints ::
    "seconds \<Rightarrow> checkpoint_dir \<Rightarrow> checkpoint_error + researcher_checkpoint list" where
  "list_checkpoints now dir = load_each now (dict_keys dir) dir"

section \<open>Reading back what was saved\<close>

lemma from_dict_to_dict [simp]: "from_dict now (to_dict c) = Inr c"
  by (simp add: from_dict_def to_dict_def)

lemma checkpoint_save_Inr [result_elims]:
  "checkpoint_save now c dir = (Inr (), dir') \<Longrightarrow>
    valid_component (ck_task_id c) \<and> dir' = dict_set (ck_task_id c) (to_dict (c\<lparr>ck_timestamp := now\<rparr>)) dir"
  by (auto simp: checkpoint_save_def checkpoint_path_def validate_component_def
      res_bind_Inr split: sum.splits if_splits prod.splits)

lemma read_checkpoint_Some:
  "dict_get dir f = Some (to_dict c) \<Longrightarrow> read_checkpoint now f dir = Inr (Some c)"
  by (simp add: read_checkpoint_def)

text \<open>The two operations that write, as events.\<close>

datatype checkpoint_event =
  Save seconds researcher_checkpoint
| Delete seconds string "int option"

fun checkpoint_step :: "checkpoint_dir \<Rightarrow> checkpoint_event \<Rightarrow> checkpoint_dir" where
  "checkpoint_step dir (Save now c) = snd (checkpoint_save now c dir)"
| "checkpoint_step dir (Delete now task fence) = snd (checkpoint_delete now task fence dir)"

text \<open>An operation of an owner whose epoch is older than \<open>fence\<close>, or on another task.\<close>

fun outdated :: "string \<Rightarrow> int \<Rightarrow> checkpoint_event \<Rightarrow> bool" where
  "outdated task fence (Save now c) \<longleftrightarrow> ck_task_id c \<noteq> task \<or> ck_fence_token c < fence"
| "outdated task fence (Delete now t f) \<longleftrightarrow> t \<noteq> task \<or> (\<exists>x. f = Some x \<and> x < fence)"

lemma outdated_step:
  assumes "dict_get dir task = Some (to_dict c)" "outdated task (ck_fence_token c) e"
  shows "dict_get (checkpoint_step dir e) task = Some (to_dict c)"
proof (cases e)
  case (Save now c')
  show ?thesis
  proof (cases "ck_task_id c' = task")
    case True
    with Save assms show ?thesis
      by (auto simp: checkpoint_save_def checkpoint_path_def validate_component_def
          read_checkpoint_Some)
  next
    case False
    then show ?thesis using Save assms(1)
      by (auto simp: checkpoint_save_def checkpoint_path_def validate_component_def
          res_bind_def split: sum.splits if_splits prod.splits)
  qed
next
  case (Delete now t f)
  show ?thesis
  proof (cases "t = task")
    case True
    with Delete assms show ?thesis
      by (auto simp: checkpoint_delete_def checkpoint_path_def validate_component_def
          read_checkpoint_Some)
  next
    case False
    then show ?thesis using Delete assms(1)
      by (auto simp: checkpoint_delete_def checkpoint_path_def validate_component_def
          res_bind_def delete_conv split: sum.splits if_splits prod.splits option.splits)
  qed
qed

interpretation checkpoints: machine checkpoint_step "\<lambda>dir. dict_get dir task = Some (to_dict c)"
    "outdated task (ck_fence_token c)" for task c
  by unfold_locales (rule outdated_step)

section \<open>Properties\<close>

text \<open>A researcher resumes from exactly what it saved: after a successful save, loading the
  task's checkpoint returns every field as saved, with the save time as its timestamp.\<close>

lemma saved_checkpoint_loads:
  assumes "checkpoint_save now c dir = (Inr (), dir')"
  shows "checkpoint_load later (ck_task_id c) dir' = Inr (Some (c\<lparr>ck_timestamp := now\<rparr>))"
  using checkpoint_save_Inr[OF assms]
  by (simp add: checkpoint_load_def checkpoint_path_def validate_component_def read_checkpoint_Some)

definition demo_checkpoint :: "int \<Rightarrow> researcher_checkpoint" where
  "demo_checkpoint fence = (case from_dict 0 [(''task_id'', JStr ''t1''), (''fence_token'', JInt fence)] of Inr c \<Rightarrow> c)"

lemma demo_checkpoint_simps:
  "ck_task_id (demo_checkpoint fence) = ''t1''" "ck_fence_token (demo_checkpoint fence) = fence"
  by (simp_all add: demo_checkpoint_def from_dict_def jget_def jget_or_def raw_strs_def raw_objs_def)

lemma demo_save: "\<exists>dir'. checkpoint_save 5 (demo_checkpoint 3) [] = (Inr (), dir')"
proof -
  have v: "valid_component ''t1''" by code_simp
  show ?thesis
    by (simp add: checkpoint_save_def demo_checkpoint_simps checkpoint_path_def
        validate_component_def v read_checkpoint_def)
qed

lemma saved_checkpoint_loads_witness:
  "checkpoint_load 9 ''t1'' (snd (checkpoint_save 5 (demo_checkpoint 3) [])) =
     Inr (Some ((demo_checkpoint 3)\<lparr>ck_timestamp := 5\<rparr>))"
proof -
  obtain dir' where d: "checkpoint_save 5 (demo_checkpoint 3) [] = (Inr (), dir')"
    using demo_save by blast
  from saved_checkpoint_loads[OF d, of 9] d show ?thesis by (simp add: demo_checkpoint_simps)
qed

text \<open>A superseded owner cannot touch a newer checkpoint: no sequence of saves and fenced
  deletions of older epochs, mixed with any operations on other tasks, changes the checkpoint.\<close>

lemma checkpoint_survives_stale_owners:
  assumes "dict_get dir task = Some (to_dict c)" "list_all (outdated task (ck_fence_token c)) es"
  shows "dict_get (run checkpoint_step dir es) task = Some (to_dict c)"
  by (rule checkpoints.inv_run[OF assms])

lemma checkpoint_survives_stale_owners_witness:
  "dict_get (run checkpoint_step [(''t1'', to_dict (demo_checkpoint 3))]
      [Save 7 (demo_checkpoint 2), Delete 8 ''t1'' (Some 1)]) ''t1'' = Some (to_dict (demo_checkpoint 3))"
  by (rule checkpoint_survives_stale_owners) (simp_all add: demo_checkpoint_simps)

end
