(* ===== verification/QueryState.thy ===== *)
theory QueryState
  imports Json_Access
begin

text \<open>
  The recoverable state of the inner Query loop
  (\<open>src/open_deep_research/agents/query_state.py\<close>): its phases, the legal transitions, the
  checkpoint payload and the in-memory checkpoint sink.

  Messages are values of a type \<open>'m\<close>; the message codec of the chat library
  (\<open>messages_to_dict\<close>, \<open>messages_from_dict\<close>) is a pair of arguments. A checkpoint payload is
  JSON, so its items are never live message objects. The \<open>changes\<close> of an action are a function
  on the state, the field updates that \<open>dataclasses.replace\<close> applies.
\<close>

section \<open>State\<close>

datatype query_phase = PREPARING | CALLING_MODEL | EXECUTING_TOOLS | STOP_GOVERNANCE | TERMINAL

datatype continue_reason =
  NEXT_TURN | EXTERNAL_UPDATE | STOP_HOOK_BLOCKING | CONTEXT_REPROJECT_RETRY
| REACTIVE_COMPACT_RETRY | OUTPUT_TOKEN_ESCALATE | OUTPUT_CONTINUATION | MODEL_FALLBACK

datatype terminal_reason =
  COMPLETED | MAX_TURNS | CANCELLED | BUDGET_EXHAUSTED | DEADLINE_EXCEEDED | MODEL_TIMEOUT
| PROMPT_TOO_LONG | OUTPUT_RECOVERY_EXHAUSTED | MODEL_ERROR | TOOL_PROTOCOL_VIOLATION | HOOK_STOPPED

datatype agent_role = SUPERVISOR | RESEARCHER

record context_recovery =
  cr_attempts :: int
  reactive_compact_attempted :: bool
  compaction_generation :: int
  target_ratio :: rat

record output_recovery =
  continuation_count :: int
  escalation_attempted :: bool
  max_output_tokens_override :: "int option"
  pending_fragments :: "string list"

record quality_recovery =
  qr_attempts :: int
  qr_active :: bool
  target_requirement_ids :: "string list"
  triggering_assessment_revision :: "int option"

record 'm pending_tool_batch =
  batch_id :: string
  tool_calls :: "(string, json) dict list"
  committed_tool_call_ids :: "string list"
  committed_results :: "'m list"
  result_refs :: "string list"

record 'm pending_query_event =
  pe_event_id :: string
  pe_event_type :: string
  pe_transition_reason :: string
  pe_turn :: int
  pe_messages :: "'m list"
  pe_additional_messages :: "'m list"
  pe_updates :: "(string, json) dict"
  pe_should_continue :: "bool option"
  pe_protocol_diagnostics :: "(string, json) dict list"

record query_terminal =
  qt_reason :: terminal_reason
  qt_detail :: "string option"

record 'm query_state =
  state_key :: string
  qs_role :: agent_role
  qs_messages :: "'m list"
  schema_version :: int
  qs_phase :: query_phase
  qs_turn :: int
  revision :: int
  transition_reason :: "string option"
  context_rec :: context_recovery
  output_rec :: output_recovery
  active_candidate_index :: int
  quality_rec :: quality_recovery
  tool_batch :: "'m pending_tool_batch option"
  query_event :: "'m pending_query_event option"
  stop_hook_active :: bool
  terminal :: "query_terminal option"

definition new_query_state :: "string \<Rightarrow> agent_role \<Rightarrow> 'm list \<Rightarrow> 'm query_state" where
  "new_query_state key role ms =
     \<lparr>state_key = key, qs_role = role, qs_messages = ms, schema_version = 2, qs_phase = PREPARING,
      qs_turn = 0, revision = 0, transition_reason = None,
      context_rec = \<lparr>cr_attempts = 0, reactive_compact_attempted = False,
        compaction_generation = 0, target_ratio = 1\<rparr>,
      output_rec = \<lparr>continuation_count = 0, escalation_attempted = False,
        max_output_tokens_override = None, pending_fragments = []\<rparr>,
      active_candidate_index = 0,
      quality_rec = \<lparr>qr_attempts = 0, qr_active = False, target_requirement_ids = [],
        triggering_assessment_revision = None\<rparr>,
      tool_batch = None, query_event = None, stop_hook_active = False, terminal = None\<rparr>"

section \<open>Transitions\<close>

fun legal_next :: "query_phase \<Rightarrow> query_phase list" where
  "legal_next PREPARING = [PREPARING, CALLING_MODEL, TERMINAL]"
| "legal_next CALLING_MODEL =
     [PREPARING, CALLING_MODEL, EXECUTING_TOOLS, STOP_GOVERNANCE, TERMINAL]"
| "legal_next EXECUTING_TOOLS = [PREPARING, EXECUTING_TOOLS, CALLING_MODEL, TERMINAL]"
| "legal_next STOP_GOVERNANCE = [PREPARING, STOP_GOVERNANCE, CALLING_MODEL, TERMINAL]"
| "legal_next TERMINAL = [TERMINAL]"

record 'm query_action =
  act_phase :: query_phase
  act_reason :: string
  act_changes :: "'m query_state \<Rightarrow> 'm query_state"

datatype advance_error =
  IllegalTransition query_phase query_phase
| TerminalRequiresOutcome
| NonTerminalHasOutcome

definition advance :: "'m query_state \<Rightarrow> 'm query_action \<Rightarrow> advance_error + 'm query_state" where
  "advance s a =
     (if act_phase a \<notin> set (legal_next (qs_phase s))
      then Inl (IllegalTransition (qs_phase s) (act_phase a))
      else (let s' = (act_changes a s)\<lparr>qs_phase := act_phase a,
                  transition_reason := Some (act_reason a), revision := revision s + 1\<rparr>
            in if act_phase a = TERMINAL \<and> terminal s' = None then Inl TerminalRequiresOutcome
               else if act_phase a \<noteq> TERMINAL \<and> terminal s' \<noteq> None then Inl NonTerminalHasOutcome
               else Inr s'))"

section \<open>Checkpoints\<close>

fun role_value :: "agent_role \<Rightarrow> string" where
  "role_value SUPERVISOR = ''supervisor''"
| "role_value RESEARCHER = ''researcher''"

fun phase_value :: "query_phase \<Rightarrow> string" where
  "phase_value PREPARING = ''preparing''"
| "phase_value CALLING_MODEL = ''calling_model''"
| "phase_value EXECUTING_TOOLS = ''executing_tools''"
| "phase_value STOP_GOVERNANCE = ''stop_governance''"
| "phase_value TERMINAL = ''terminal''"

fun terminal_value :: "terminal_reason \<Rightarrow> string" where
  "terminal_value COMPLETED = ''completed''"
| "terminal_value MAX_TURNS = ''max_turns''"
| "terminal_value CANCELLED = ''cancelled''"
| "terminal_value BUDGET_EXHAUSTED = ''budget_exhausted''"
| "terminal_value DEADLINE_EXCEEDED = ''deadline_exceeded''"
| "terminal_value MODEL_TIMEOUT = ''model_timeout''"
| "terminal_value PROMPT_TOO_LONG = ''prompt_too_long''"
| "terminal_value OUTPUT_RECOVERY_EXHAUSTED = ''output_recovery_exhausted''"
| "terminal_value MODEL_ERROR = ''model_error''"
| "terminal_value TOOL_PROTOCOL_VIOLATION = ''tool_protocol_violation''"
| "terminal_value HOOK_STOPPED = ''hook_stopped''"

text \<open>\<open>Enum(value)\<close>: the member with that value.\<close>

definition enum_of :: "('e \<Rightarrow> string) \<Rightarrow> 'e list \<Rightarrow> string \<Rightarrow> json_error + 'e" where
  "enum_of value members s =
     (case List.find (\<lambda>m. value m = s) members of None \<Rightarrow> Inl Raises | Some m \<Rightarrow> Inr m)"

definition role_of :: "string \<Rightarrow> json_error + agent_role" where
  "role_of = enum_of role_value [SUPERVISOR, RESEARCHER]"

definition phase_of :: "string \<Rightarrow> json_error + query_phase" where
  "phase_of = enum_of phase_value
     [PREPARING, CALLING_MODEL, EXECUTING_TOOLS, STOP_GOVERNANCE, TERMINAL]"

definition terminal_of :: "string \<Rightarrow> json_error + terminal_reason" where
  "terminal_of = enum_of terminal_value
     [COMPLETED, MAX_TURNS, CANCELLED, BUDGET_EXHAUSTED, DEADLINE_EXCEEDED, MODEL_TIMEOUT,
      PROMPT_TOO_LONG, OUTPUT_RECOVERY_EXHAUSTED, MODEL_ERROR, TOOL_PROTOCOL_VIOLATION, HOOK_STOPPED]"

definition batch_to_json :: "('m list \<Rightarrow> json list) \<Rightarrow> 'm pending_tool_batch \<Rightarrow> json" where
  "batch_to_json enc b = JObj [
     (''batch_id'', JStr (batch_id b)),
     (''tool_calls'', JList (map JObj (tool_calls b))),
     (''committed_tool_call_ids'', JList (map JStr (committed_tool_call_ids b))),
     (''committed_results'', JList (enc (committed_results b))),
     (''result_refs'', JList (map JStr (result_refs b)))]"

definition event_to_json :: "('m list \<Rightarrow> json list) \<Rightarrow> 'm pending_query_event \<Rightarrow> json" where
  "event_to_json enc e = JObj [
     (''event_id'', JStr (pe_event_id e)),
     (''event_type'', JStr (pe_event_type e)),
     (''transition_reason'', JStr (pe_transition_reason e)),
     (''turn'', JInt (pe_turn e)),
     (''messages'', JList (enc (pe_messages e))),
     (''additional_messages'', JList (enc (pe_additional_messages e))),
     (''updates'', JObj (pe_updates e)),
     (''should_continue'', json_opt JBool (pe_should_continue e)),
     (''protocol_diagnostics'', JList (map JObj (pe_protocol_diagnostics e)))]"

definition terminal_to_json :: "query_terminal \<Rightarrow> json" where
  "terminal_to_json t = JObj [
     (''reason'', JStr (terminal_value (qt_reason t))),
     (''detail'', json_opt JStr (qt_detail t))]"

definition context_to_json :: "context_recovery \<Rightarrow> json" where
  "context_to_json c = JObj [
     (''attempts'', JInt (cr_attempts c)),
     (''reactive_compact_attempted'', JBool (reactive_compact_attempted c)),
     (''compaction_generation'', JInt (compaction_generation c)),
     (''target_ratio'', JFloat (target_ratio c))]"

definition output_to_json :: "output_recovery \<Rightarrow> json" where
  "output_to_json r = JObj [
     (''continuation_count'', JInt (continuation_count r)),
     (''escalation_attempted'', JBool (escalation_attempted r)),
     (''max_output_tokens_override'', json_opt JInt (max_output_tokens_override r)),
     (''pending_fragments'', JList (map JStr (pending_fragments r)))]"

definition quality_to_json :: "quality_recovery \<Rightarrow> json" where
  "quality_to_json r = JObj [
     (''attempts'', JInt (qr_attempts r)),
     (''active'', JBool (qr_active r)),
     (''target_requirement_ids'', JList (map JStr (target_requirement_ids r))),
     (''triggering_assessment_revision'', json_opt JInt (triggering_assessment_revision r))]"

definition to_snapshot :: "('m list \<Rightarrow> json list) \<Rightarrow> 'm query_state \<Rightarrow> (string, json) dict" where
  "to_snapshot enc s = [
     (''schema_version'', JInt (schema_version s)),
     (''state_key'', JStr (state_key s)),
     (''role'', JStr (role_value (qs_role s))),
     (''phase'', JStr (phase_value (qs_phase s))),
     (''messages'', JList (enc (qs_messages s))),
     (''turn'', JInt (qs_turn s)),
     (''revision'', JInt (revision s)),
     (''transition_reason'', json_opt JStr (transition_reason s)),
     (''context_recovery'', context_to_json (context_rec s)),
     (''output_recovery'', output_to_json (output_rec s)),
     (''model_route'', JObj [(''active_candidate_index'', JInt (active_candidate_index s))]),
     (''quality_recovery'', quality_to_json (quality_rec s)),
     (''pending_tool_batch'', json_opt (batch_to_json enc) (tool_batch s)),
     (''pending_query_event'', json_opt (event_to_json enc) (query_event s)),
     (''stop_hook_active'', JBool (stop_hook_active s)),
     (''terminal'', json_opt terminal_to_json (terminal s))]"

text \<open>A list of encoded messages; no item of a JSON list is a live message, so only the empty
  list skips the decoder.\<close>

definition restore_messages :: "(json list \<Rightarrow> json_error + 'm list) \<Rightarrow> json \<Rightarrow> json_error + 'm list" where
  "restore_messages dec v =
     res_bind (jlist v) (\<lambda>xs. if xs = [] then Inr [] else dec xs)"

text \<open>The sections that count only when they are mappings.\<close>

definition if_mapping :: "((string, json) dict \<Rightarrow> json_error + 'a) \<Rightarrow> json \<Rightarrow> json_error + 'a option" where
  "if_mapping f v = (case v of JObj d \<Rightarrow> res_bind (f d) (\<lambda>x. Inr (Some x)) | _ \<Rightarrow> Inr None)"

text \<open>\<open>payload.get(k) or {}\<close>, on which \<open>get\<close> is called.\<close>

definition section_of :: "string \<Rightarrow> (string, json) dict \<Rightarrow> json_error + (string, json) dict" where
  "section_of k d =
     (let v = jget k d in if jtruthy v then (case v of JObj d' \<Rightarrow> Inr d' | _ \<Rightarrow> Inl Raises) else Inr [])"

definition batch_from_json ::
    "(json list \<Rightarrow> json_error + 'm list) \<Rightarrow> (string, json) dict \<Rightarrow> json_error + 'm pending_tool_batch" where
  "batch_from_json dec d =
     res_bind (restore_messages dec (jget_or ''committed_results'' (JList []) d)) (\<lambda>results.
     res_bind (res_bind (jitem ''batch_id'' d) jstr) (\<lambda>bid.
     res_bind (res_bind (jlist (jget_or ''tool_calls'' (JList []) d)) (jmapM jdict)) (\<lambda>calls.
     res_bind (res_bind (jlist (jget_or ''committed_tool_call_ids'' (JList []) d)) (jmapM jstr)) (\<lambda>ids.
     res_bind (res_bind (jlist (jget_or ''result_refs'' (JList []) d)) (jmapM jstr)) (\<lambda>refs.
       Inr \<lparr>batch_id = bid, tool_calls = calls, committed_tool_call_ids = ids,
            committed_results = results, result_refs = refs\<rparr>)))))"

definition is_mapping :: "json \<Rightarrow> bool" where
  "is_mapping v \<longleftrightarrow> (case v of JObj _ \<Rightarrow> True | _ \<Rightarrow> False)"

definition event_from_json ::
    "(json list \<Rightarrow> json_error + 'm list) \<Rightarrow> (string, json) dict \<Rightarrow> json_error + 'm pending_query_event" where
  "event_from_json dec d =
     res_bind (restore_messages dec (jget_or ''messages'' (JList []) d)) (\<lambda>ms.
     res_bind (restore_messages dec (jget_or ''additional_messages'' (JList []) d)) (\<lambda>extra.
     res_bind (res_bind (jitem ''event_id'' d) jstr) (\<lambda>eid.
     res_bind (res_bind (jitem ''event_type'' d) jstr) (\<lambda>etype.
     res_bind (res_bind (jitem ''transition_reason'' d) jstr) (\<lambda>reason.
     res_bind (jint (jget_or ''turn'' (JInt 0) d)) (\<lambda>turn.
     res_bind (jdict (jget_or ''updates'' (JObj []) d)) (\<lambda>updates.
     res_bind (jopt (\<lambda>v. Inr (jtruthy v)) (jget ''should_continue'' d)) (\<lambda>cont.
     res_bind (res_bind (jlist (jget_or ''protocol_diagnostics'' (JList []) d))
         (\<lambda>items. jmapM jdict (filter is_mapping items))) (\<lambda>diags.
       Inr \<lparr>pe_event_id = eid, pe_event_type = etype, pe_transition_reason = reason, pe_turn = turn,
            pe_messages = ms, pe_additional_messages = extra, pe_updates = updates,
            pe_should_continue = cont, pe_protocol_diagnostics = diags\<rparr>)))))))))"

definition terminal_from_json :: "(string, json) dict \<Rightarrow> json_error + query_terminal" where
  "terminal_from_json d =
     res_bind (res_bind (res_bind (jitem ''reason'' d) jstr) terminal_of) (\<lambda>reason.
     res_bind (jopt jstr (jget ''detail'' d)) (\<lambda>detail.
       Inr \<lparr>qt_reason = reason, qt_detail = detail\<rparr>))"

definition context_from_json :: "(string, json) dict \<Rightarrow> json_error + context_recovery" where
  "context_from_json d =
     res_bind (jint (jget_or ''attempts'' (JInt 0) d)) (\<lambda>n.
     res_bind (jint (jget_or ''compaction_generation'' (JInt 0) d)) (\<lambda>g.
     res_bind (jfloat (jget_or ''target_ratio'' (JFloat 1) d)) (\<lambda>r.
       Inr \<lparr>cr_attempts = n,
            reactive_compact_attempted = jtruthy (jget_or ''reactive_compact_attempted'' (JBool False) d),
            compaction_generation = g, target_ratio = r\<rparr>)))"

definition output_from_json :: "(string, json) dict \<Rightarrow> json_error + output_recovery" where
  "output_from_json d =
     res_bind (jint (jget_or ''continuation_count'' (JInt 0) d)) (\<lambda>n.
     res_bind (jopt jint (jget ''max_output_tokens_override'' d)) (\<lambda>mx.
     res_bind (res_bind (jlist (jget_or ''pending_fragments'' (JList []) d)) (jmapM jstr)) (\<lambda>fs.
       Inr \<lparr>continuation_count = n,
            escalation_attempted = jtruthy (jget_or ''escalation_attempted'' (JBool False) d),
            max_output_tokens_override = mx, pending_fragments = fs\<rparr>)))"

definition quality_from_json :: "(string, json) dict \<Rightarrow> json_error + quality_recovery" where
  "quality_from_json d =
     res_bind (jint (jget_or ''attempts'' (JInt 0) d)) (\<lambda>n.
     res_bind (res_bind (jlist (jget_or ''target_requirement_ids'' (JList []) d)) (jmapM jstr)) (\<lambda>ids.
     res_bind (jopt jint (jget ''triggering_assessment_revision'' d)) (\<lambda>rev.
       Inr \<lparr>qr_attempts = n, qr_active = jtruthy (jget_or ''active'' (JBool False) d),
            target_requirement_ids = ids, triggering_assessment_revision = rev\<rparr>)))"

datatype snapshot_error = UnsupportedSchema int | Unreadable json_error

definition read_fields ::
    "(json list \<Rightarrow> json_error + 'm list) \<Rightarrow> int \<Rightarrow> (string, json) dict \<Rightarrow> json_error + 'm query_state" where
  "read_fields dec version d =
     res_bind (if_mapping (batch_from_json dec) (jget ''pending_tool_batch'' d)) (\<lambda>batch.
     res_bind (if_mapping (event_from_json dec) (jget ''pending_query_event'' d)) (\<lambda>event.
     res_bind (if_mapping terminal_from_json (jget ''terminal'' d)) (\<lambda>term.
     res_bind (restore_messages dec (jget_or ''messages'' (JList []) d)) (\<lambda>ms.
     res_bind (res_bind (jitem ''state_key'' d) jstr) (\<lambda>key.
     res_bind (res_bind (res_bind (jitem ''role'' d) jstr) role_of) (\<lambda>role.
     res_bind (res_bind (res_bind (jitem ''phase'' d) jstr) phase_of) (\<lambda>phase.
     res_bind (jint (jget_or ''turn'' (JInt 0) d)) (\<lambda>turn.
     res_bind (jint (jget_or ''revision'' (JInt 0) d)) (\<lambda>rev.
     res_bind (jopt jstr (jget ''transition_reason'' d)) (\<lambda>reason.
     res_bind (res_bind (section_of ''context_recovery'' d) context_from_json) (\<lambda>ctx.
     res_bind (res_bind (section_of ''output_recovery'' d) output_from_json) (\<lambda>out.
     res_bind (res_bind (section_of ''model_route'' d)
         (\<lambda>r. jint (jget_or ''active_candidate_index'' (JInt 0) r))) (\<lambda>route.
     res_bind (res_bind (section_of ''quality_recovery'' d) quality_from_json) (\<lambda>quality.
       Inr \<lparr>state_key = key, qs_role = role, qs_messages = ms, schema_version = version,
            qs_phase = phase, qs_turn = turn, revision = rev, transition_reason = reason,
            context_rec = ctx, output_rec = out, active_candidate_index = route,
            quality_rec = quality, tool_batch = batch, query_event = event,
            stop_hook_active = jtruthy (jget_or ''stop_hook_active'' (JBool False) d),
            terminal = term\<rparr>))))))))))))))"

definition from_snapshot ::
    "(json list \<Rightarrow> json_error + 'm list) \<Rightarrow> (string, json) dict \<Rightarrow> snapshot_error + 'm query_state" where
  "from_snapshot dec d =
     (case jint (jget_or ''schema_version'' (JInt 0) d) of
        Inl e \<Rightarrow> Inl (Unreadable e)
      | Inr version \<Rightarrow>
          if version \<notin> {1, 2} then Inl (UnsupportedSchema version)
          else (case read_fields dec version d of Inl e \<Rightarrow> Inl (Unreadable e) | Inr s \<Rightarrow> Inr s))"

section \<open>The in-memory checkpoint sink\<close>

definition sink_save :: "'m query_state \<Rightarrow> 'm query_state list \<Rightarrow> 'm query_state list" where
  "sink_save s states = states @ [s]"

section \<open>Transitions keep the outcome and the phase together\<close>

definition query_wf :: "'m query_state \<Rightarrow> bool" where
  "query_wf s \<longleftrightarrow> (qs_phase s = TERMINAL \<longleftrightarrow> terminal s \<noteq> None)"

lemma advance_Inr [result_elims]:
  "advance s a = Inr s' \<longleftrightarrow>
     act_phase a \<in> set (legal_next (qs_phase s)) \<and>
     s' = (act_changes a s)\<lparr>qs_phase := act_phase a, transition_reason := Some (act_reason a),
             revision := revision s + 1\<rparr> \<and> query_wf s'"
  by (auto simp: advance_def query_wf_def Let_def)

lemma legal_from_terminal: "p \<in> set (legal_next TERMINAL) \<Longrightarrow> p = TERMINAL"
  by simp

lemma legal_to_tools:
  "EXECUTING_TOOLS \<in> set (legal_next p) \<Longrightarrow> p = CALLING_MODEL \<or> p = EXECUTING_TOOLS"
  by (cases p) auto

text \<open>A history: every state but the first is a successful \<open>advance\<close> of its predecessor.\<close>

inductive history :: "'m query_state \<Rightarrow> 'm query_state list \<Rightarrow> bool" where
  start: "history s []"
| extend: "advance s a = Inr s' \<Longrightarrow> history s' rest \<Longrightarrow> history s (s' # rest)"

inductive_cases history_ConsE: "history s (s' # rest)"

lemma history_append:
  "history s (xs @ ys) \<Longrightarrow> history (last (s # xs)) ys"
proof (induction xs arbitrary: s)
  case (Cons x xs)
  then have "history x (xs @ ys)" by (auto elim: history_ConsE)
  from Cons.IH[OF this] show ?case by simp
qed simp

lemma history_revision: "history s xs \<Longrightarrow> revision (last (s # xs)) = revision s + int (length xs)"
  by (induction rule: history.induct) (auto simp: advance_Inr)

lemma history_terminal: "history s xs \<Longrightarrow> qs_phase s = TERMINAL \<Longrightarrow> \<forall>x \<in> set xs. qs_phase x = TERMINAL"
  by (induction rule: history.induct) (auto simp: advance_Inr)

lemma history_wf: "history s xs \<Longrightarrow> \<forall>x \<in> set xs. query_wf x"
  by (induction rule: history.induct) (auto simp: advance_Inr)

section \<open>Reading back a checkpoint\<close>

lemma enum_values [simp]:
  "role_of (role_value r) = Inr r"
  "phase_of (phase_value p) = Inr p"
  "terminal_of (terminal_value t) = Inr t"
    apply (cases r; simp add: role_of_def enum_of_def)
   apply (cases p; simp add: phase_of_def enum_of_def)
  apply (cases t; simp add: terminal_of_def enum_of_def)
  done

definition codec_ok :: "('m list \<Rightarrow> json list) \<Rightarrow> (json list \<Rightarrow> json_error + 'm list) \<Rightarrow> bool" where
  "codec_ok enc dec \<longleftrightarrow> (\<forall>ms. dec (enc ms) = Inr ms) \<and> (\<forall>ms. enc ms = [] \<longleftrightarrow> ms = [])"

lemma restore_enc: "codec_ok enc dec \<Longrightarrow> restore_messages dec (JList (enc ms)) = Inr ms"
  by (auto simp: codec_ok_def restore_messages_def)

lemma if_mapping_json_opt:
  "(\<And>x. \<exists>d. g x = JObj d \<and> f d = Inr x) \<Longrightarrow> if_mapping f (json_opt g v) = Inr v"
proof (cases v)
  case (Some x)
  assume "\<And>x. \<exists>d. g x = JObj d \<and> f d = Inr x"
  then obtain d where "g x = JObj d" "f d = Inr x" by blast
  with Some show ?thesis by (simp add: if_mapping_def json_opt_def)
qed (simp add: if_mapping_def json_opt_def)

lemma filter_mappings [simp]: "filter is_mapping (map JObj ds) = map JObj ds"
  by (induction ds) (simp_all add: is_mapping_def)

lemma batch_roundtrip:
  assumes "codec_ok enc dec"
  shows "if_mapping (batch_from_json dec) (json_opt (batch_to_json enc) b) = Inr b"
  by (rule if_mapping_json_opt)
    (simp add: batch_to_json_def batch_from_json_def restore_enc[OF assms])

lemma event_roundtrip:
  assumes "codec_ok enc dec"
  shows "if_mapping (event_from_json dec) (json_opt (event_to_json enc) e) = Inr e"
  by (rule if_mapping_json_opt)
    (simp add: event_to_json_def event_from_json_def restore_enc[OF assms])

lemma terminal_roundtrip: "if_mapping terminal_from_json (json_opt terminal_to_json t) = Inr t"
  by (rule if_mapping_json_opt) (simp add: terminal_to_json_def terminal_from_json_def)

lemma section_JObj:
  "jget k d = JObj d' \<Longrightarrow> d' \<noteq> [] \<Longrightarrow> section_of k d = Inr d'"
  by (simp add: section_of_def)

lemma context_roundtrip:
  "\<exists>d. context_to_json c = JObj d \<and> d \<noteq> [] \<and> context_from_json d = Inr c"
  by (simp add: context_to_json_def context_from_json_def)

lemma output_roundtrip:
  "\<exists>d. output_to_json c = JObj d \<and> d \<noteq> [] \<and> output_from_json d = Inr c"
  by (simp add: output_to_json_def output_from_json_def)

lemma quality_roundtrip:
  "\<exists>d. quality_to_json c = JObj d \<and> d \<noteq> [] \<and> quality_from_json d = Inr c"
  by (simp add: quality_to_json_def quality_from_json_def)

lemma section_roundtrip:
  "\<exists>d'. v = JObj d' \<and> d' \<noteq> [] \<and> f d' = Inr c \<Longrightarrow> jget k d = v \<Longrightarrow>
    res_bind (section_of k d) f = Inr c"
  by (auto simp: section_JObj)

lemma read_fields_roundtrip:
  assumes "codec_ok enc dec"
  shows "read_fields dec (schema_version s) (to_snapshot enc s) = Inr s"
proof -
  let ?d = "to_snapshot enc s"
  have items: "jget ''pending_tool_batch'' ?d = json_opt (batch_to_json enc) (tool_batch s)"
    "jget ''pending_query_event'' ?d = json_opt (event_to_json enc) (query_event s)"
    "jget ''terminal'' ?d = json_opt terminal_to_json (terminal s)"
    "jget_or ''messages'' (JList []) ?d = JList (enc (qs_messages s))"
    "jitem ''state_key'' ?d = Inr (JStr (state_key s))"
    "jitem ''role'' ?d = Inr (JStr (role_value (qs_role s)))"
    "jitem ''phase'' ?d = Inr (JStr (phase_value (qs_phase s)))"
    "jget_or ''turn'' (JInt 0) ?d = JInt (qs_turn s)"
    "jget_or ''revision'' (JInt 0) ?d = JInt (revision s)"
    "jget ''transition_reason'' ?d = json_opt JStr (transition_reason s)"
    "jget_or ''stop_hook_active'' (JBool False) ?d = JBool (stop_hook_active s)"
    and secs: "jget ''context_recovery'' ?d = context_to_json (context_rec s)"
    "jget ''output_recovery'' ?d = output_to_json (output_rec s)"
    "jget ''quality_recovery'' ?d = quality_to_json (quality_rec s)"
    and route: "jget ''model_route'' ?d = JObj [(''active_candidate_index'', JInt (active_candidate_index s))]"
    by (simp_all add: to_snapshot_def)
  have ctx: "res_bind (section_of ''context_recovery'' ?d) context_from_json = Inr (context_rec s)"
    by (rule section_roundtrip[OF context_roundtrip secs(1)])
  have out: "res_bind (section_of ''output_recovery'' ?d) output_from_json = Inr (output_rec s)"
    by (rule section_roundtrip[OF output_roundtrip secs(2)])
  have qual: "res_bind (section_of ''quality_recovery'' ?d) quality_from_json = Inr (quality_rec s)"
    by (rule section_roundtrip[OF quality_roundtrip secs(3)])
  have rt: "section_of ''model_route'' ?d =
      Inr [(''active_candidate_index'', JInt (active_candidate_index s))]"
    by (rule section_JObj[OF route]) simp
  show ?thesis
    unfolding read_fields_def items ctx out qual rt batch_roundtrip[OF assms]
      event_roundtrip[OF assms] terminal_roundtrip restore_enc[OF assms]
    by simp
qed

section \<open>Properties\<close>

text \<open>Every history of legal transitions numbers its states consecutively, keeps the outcome
  set exactly in the terminal phase, and never leaves the terminal phase once it is entered.\<close>

lemma history_sound:
  assumes "history s (xs @ x # ys)"
  shows "revision x = revision s + int (length xs) + 1 \<and>
    (qs_phase x = TERMINAL \<longleftrightarrow> terminal x \<noteq> None) \<and>
    (qs_phase x = TERMINAL \<longrightarrow> (\<forall>y \<in> set ys. qs_phase y = TERMINAL))"
proof -
  have h: "history s ((xs @ [x]) @ ys)" using assms by simp
  have pre: "history s (xs @ [x])" if "history s ((xs @ [x]) @ ys)" for s
    using that
  proof (induction xs arbitrary: s)
    case (Cons z zs)
    then show ?case by (auto elim!: history_ConsE intro!: history.intros)
  qed (auto elim!: history_ConsE intro!: history.intros)
  from history_revision[OF pre[OF h]] have "revision x = revision s + int (length xs) + 1" by simp
  moreover from history_wf[OF assms] have "query_wf x" by simp
  moreover from history_append[OF h] have "history x ys" by simp
  then have "qs_phase x = TERMINAL \<longrightarrow> (\<forall>y \<in> set ys. qs_phase y = TERMINAL)"
    using history_terminal by blast
  ultimately show ?thesis by (simp add: query_wf_def)
qed

definition demo_action :: "query_phase \<Rightarrow> query_terminal option \<Rightarrow> unit query_action" where
  "demo_action p t = \<lparr>act_phase = p, act_reason = ''step'', act_changes = (\<lambda>s. s\<lparr>terminal := t\<rparr>)\<rparr>"

definition demo_after :: "unit query_state \<Rightarrow> query_phase \<Rightarrow> query_terminal option \<Rightarrow> unit query_state" where
  "demo_after s p t = (case advance s (demo_action p t) of Inl _ \<Rightarrow> s | Inr s' \<Rightarrow> s')"

lemma history_sound_witness:
  "(let s = new_query_state ''k'' RESEARCHER [];
        s1 = demo_after s CALLING_MODEL None;
        s2 = demo_after s1 TERMINAL (Some \<lparr>qt_reason = COMPLETED, qt_detail = None\<rparr>)
    in revision s2 = 2 \<and> terminal s2 \<noteq> None)"
proof -
  let ?s = "new_query_state ''k'' RESEARCHER [] :: unit query_state"
  let ?t = "Some \<lparr>qt_reason = COMPLETED, qt_detail = None\<rparr>"
  let ?s1 = "demo_after ?s CALLING_MODEL None"
  let ?s2 = "demo_after ?s1 TERMINAL ?t"
  have 1: "advance ?s (demo_action CALLING_MODEL None) = Inr ?s1"
    by (simp add: demo_after_def advance_def demo_action_def new_query_state_def Let_def)
  have 2: "advance ?s1 (demo_action TERMINAL ?t) = Inr ?s2"
    by (simp add: demo_after_def advance_def demo_action_def new_query_state_def Let_def)
  have "history ?s ([?s1] @ ?s2 # [])"
    using history.extend[OF 1 history.extend[OF 2 history.start]] by simp
  from history_sound[OF this] have "revision ?s2 = 2" "terminal ?s2 \<noteq> None \<longleftrightarrow> qs_phase ?s2 = TERMINAL"
    by (simp_all add: new_query_state_def)
  moreover have "qs_phase ?s2 = TERMINAL"
    using 2 by (auto simp: advance_Inr demo_action_def)
  ultimately show ?thesis by (simp add: Let_def)
qed

text \<open>Tools are executed only on behalf of the model: in every history that starts outside
  the tool phase, a state that executes tools is preceded by one that calls the model.\<close>

lemma tools_follow_model:
  assumes "history s (xs @ x # ys)" "qs_phase s \<noteq> EXECUTING_TOOLS" "qs_phase x = EXECUTING_TOOLS"
  shows "\<exists>y \<in> set (s # xs). qs_phase y = CALLING_MODEL"
proof -
  have "history s (xs @ x # ys) \<Longrightarrow> qs_phase s \<noteq> EXECUTING_TOOLS \<Longrightarrow>
      \<exists>y \<in> set (s # xs). qs_phase y = CALLING_MODEL"
  proof (induction xs arbitrary: s)
    case Nil
    then have "EXECUTING_TOOLS \<in> set (legal_next (qs_phase s))"
      using assms(3) by (auto elim!: history_ConsE simp: advance_Inr)
    with Nil legal_to_tools show ?case by force
  next
    case (Cons z zs)
    then obtain a where a: "advance s a = Inr z" "history z (zs @ x # ys)"
      by (auto elim!: history_ConsE)
    show ?case
    proof (cases "qs_phase z = EXECUTING_TOOLS")
      case True
      with a have "EXECUTING_TOOLS \<in> set (legal_next (qs_phase s))" by (auto simp: advance_Inr)
      with Cons.prems legal_to_tools show ?thesis by force
    next
      case False
      with Cons.IH[OF a(2)] show ?thesis by auto
    qed
  qed
  with assms show ?thesis by blast
qed

lemma tools_follow_model_witness:
  "(let s = new_query_state ''k'' RESEARCHER [];
        s1 = demo_after s CALLING_MODEL None;
        s2 = demo_after s1 EXECUTING_TOOLS None
    in qs_phase s2 = EXECUTING_TOOLS \<and> (\<exists>y \<in> {s, s1}. qs_phase y = CALLING_MODEL))"
proof -
  let ?s = "new_query_state ''k'' RESEARCHER [] :: unit query_state"
  let ?s1 = "demo_after ?s CALLING_MODEL None"
  let ?s2 = "demo_after ?s1 EXECUTING_TOOLS None"
  have 1: "advance ?s (demo_action CALLING_MODEL None) = Inr ?s1"
    by (simp add: demo_after_def advance_def demo_action_def new_query_state_def Let_def)
  have 2: "advance ?s1 (demo_action EXECUTING_TOOLS None) = Inr ?s2"
    by (simp add: demo_after_def advance_def demo_action_def new_query_state_def Let_def)
  have h: "history ?s ([?s1] @ ?s2 # [])"
    using history.extend[OF 1 history.extend[OF 2 history.start]] by simp
  have p: "qs_phase ?s2 = EXECUTING_TOOLS"
    using 2 by (auto simp: advance_Inr demo_action_def)
  from tools_follow_model[OF h _ p] p show ?thesis
    by (simp add: Let_def new_query_state_def)
qed

text \<open>C38. Checkpoints are lossless: for a message codec that restores what it encodes, reading the
  snapshot of any state of a supported schema version gives the state back, with every recovery
  counter, pending tool batch, pending event and outcome.\<close>

theorem snapshot_roundtrip:
  assumes "codec_ok enc dec" "schema_version s \<in> {1, 2}"
  shows "from_snapshot dec (to_snapshot enc s) = Inr s"
proof -
  have "jget_or ''schema_version'' (JInt 0) (to_snapshot enc s) = JInt (schema_version s)"
    by (simp add: to_snapshot_def)
  with assms show ?thesis by (simp add: from_snapshot_def read_fields_roundtrip[OF assms(1)])
qed

text \<open>Plain text messages, encoded as JSON strings.\<close>

definition demo_encode :: "string list \<Rightarrow> json list" where
  "demo_encode ms = map JStr ms"

definition demo_decode :: "json list \<Rightarrow> json_error + string list" where
  "demo_decode = jmapM jstr"

theorem snapshot_roundtrip_witness:
  "from_snapshot demo_decode (to_snapshot demo_encode (new_query_state ''k'' SUPERVISOR [''hello''])) =
     Inr (new_query_state ''k'' SUPERVISOR [''hello''])"
  by (rule snapshot_roundtrip)
    (simp_all add: codec_ok_def demo_encode_def demo_decode_def new_query_state_def)

end
