(* ===== verification/ToolProtocol.thy ===== *)
theory ToolProtocol
  imports Json_Access
begin

text \<open>
  Tool-call transcripts (\<open>src/open_deep_research/agents/tool_protocol.py\<close>): giving every call of
  a model message a unique identifier, closing a batch with exactly one result per call, and
  validating a transcript; with \<open>ToolError\<close> and \<open>ToolErrorType\<close> of \<open>tools/governance.py\<close>.

  A chat message is what this code looks at: an AI message with its tool calls and the raw calls
  of its provider, a tool message, or any other message with its type name. A tool call is a
  dictionary. Two things are arguments: \<open>repr\<close>, the text \<open>str\<close> gives for a JSON value that is not
  a string, \<open>None\<close> or a boolean, and \<open>digest\<close>, the 24 hexadecimal digits of SHA-256 of the
  canonical JSON of a payload.
\<close>

section \<open>Data\<close>

datatype tool_error_type =
  PermissionDenied | ValidationError | ToolRateLimited | ToolTimeout | NetworkError
| ServiceUnavailable | MaxRetriesExceeded | ToolNotFound | EgressDomainDenied
| EgressDomainPending | SensitiveToolApprovalRequired | InteractionRequired
| RuntimeMissingResult | RuntimeDuplicateResult | RuntimeHookError | TaskCapacityExceeded
| ToolCancelled | ToolDeadlineExceeded | ToolBudgetExhausted | InternalError | UnknownError

record tool_error =
  te_error_type :: tool_error_type
  te_tool_name :: string
  te_message :: string
  te_attempts :: "int option"
  te_retryable :: bool
  te_detail :: "(string, json) dict"

datatype tool_content = Text json | ErrorPayload tool_error

type_synonym tool_call = "(string, json) dict"

datatype chat_message =
  AIMessage (ai_calls: "tool_call list") (raw_calls: "json option") json
| ToolMessage (tool_id: string) (tool_name: "string option") (tool_content: tool_content)
| OtherMessage string json

record diagnostic =
  code :: string
  diag_call_id :: "string option"
  diag_detail :: "(string, json) dict"

record closed_batch =
  cb_messages :: "chat_message list"
  cb_additional :: "chat_message list"
  cb_diagnostics :: "diagnostic list"

definition batch_is_valid :: "closed_batch \<Rightarrow> bool" where
  "batch_is_valid b \<longleftrightarrow> cb_diagnostics b = []"

definition is_tool :: "chat_message \<Rightarrow> bool" where
  "is_tool m \<longleftrightarrow> (case m of ToolMessage _ _ _ \<Rightarrow> True | _ \<Rightarrow> False)"

definition has_calls :: "chat_message \<Rightarrow> bool" where
  "has_calls m \<longleftrightarrow> (case m of AIMessage calls _ _ \<Rightarrow> calls \<noteq> [] | _ \<Rightarrow> False)"

text \<open>Decimal digits of a natural number.\<close>

fun decimal :: "nat \<Rightarrow> string" where
  "decimal n = (if n < 10 then [char_of (n + 48)] else decimal (n div 10) @ [char_of (n mod 10 + 48)])"

declare decimal.simps [simp del]

definition int_text :: "int \<Rightarrow> string" where
  "int_text i = (if 0 \<le> i then decimal (nat i) else CHR ''-'' # decimal (nat (- i)))"

section \<open>Canonical identifiers\<close>

definition canonical_tool_call_id ::
    "(json \<Rightarrow> string) \<Rightarrow> (json \<Rightarrow> string) \<Rightarrow> string \<Rightarrow> string \<Rightarrow> int \<Rightarrow> nat \<Rightarrow> tool_call \<Rightarrow> string" where
  "canonical_tool_call_id repr digest run_id role turn index call =
     ''runtime-'' @ digest (JObj [
       (''run_id'', JStr run_id), (''role'', JStr role), (''turn'', JInt turn),
       (''index'', JInt (int index)),
       (''name'', JStr (py_text repr (jget_or ''name'' (JStr []) call))),
       (''args'', (let a = jget_or ''args'' (JObj []) call in if jtruthy a then a else JObj []))])"

text \<open>The suffix loop: \<open>base\<close>, \<open>base-1\<close>, \<open>base-2\<close>, ... until the identifier is new.\<close>

definition suffixed :: "string \<Rightarrow> nat \<Rightarrow> string" where
  "suffixed base n = base @ ''-'' @ decimal n"

definition decimal_value :: "string \<Rightarrow> nat" where
  "decimal_value s = foldl (\<lambda>v c. 10 * v + (of_char c - 48)) 0 s"

lemma decimal_value_decimal: "decimal_value (decimal n) = n"
proof (induction n rule: decimal.induct)
  case (1 n)
  show ?case
  proof (cases "n < 10")
    case True
    then show ?thesis by (simp add: decimal.simps[of n] decimal_value_def)
  next
    case False
    with 1 have "decimal_value (decimal n) = 10 * (n div 10) + n mod 10"
      by (simp add: decimal.simps[of n] decimal_value_def)
    then show ?thesis by simp
  qed
qed

lemma suffixed_inj: "suffixed base m = suffixed base n \<Longrightarrow> m = n"
  by (metis append_same_eq decimal_value_decimal same_append_eq suffixed_def)

function fresh_id :: "string \<Rightarrow> nat \<Rightarrow> string list \<Rightarrow> string \<Rightarrow> string" where
  "fresh_id base suffix seen call_id =
     (if call_id \<in> set seen then fresh_id base (suffix + 1) seen (suffixed base suffix) else call_id)"
  by pat_completeness auto

definition taken_from :: "string \<Rightarrow> nat \<Rightarrow> string list \<Rightarrow> string set" where
  "taken_from base n seen = {s \<in> set seen. \<exists>k \<ge> n. s = suffixed base k}"

lemma ex_from_Suc: "(\<exists>k \<ge> n. P k) \<longleftrightarrow> P n \<or> (\<exists>k \<ge> Suc n. P k)"
  by (metis Suc_leD le_antisym not_less_eq_eq)

lemma taken_from_Suc:
  "card (taken_from base n seen) =
     card (taken_from base (Suc n) seen) + of_bool (suffixed base n \<in> set seen)"
proof -
  have fin: "finite (taken_from base (Suc n) seen)" by (simp add: taken_from_def)
  have new: "suffixed base n \<notin> taken_from base (Suc n) seen"
    by (auto simp: taken_from_def dest: suffixed_inj)
  have split: "taken_from base n seen = taken_from base (Suc n) seen \<union>
      (if suffixed base n \<in> set seen then {suffixed base n} else {})"
    unfolding taken_from_def ex_from_Suc[of n] by auto
  show ?thesis
    unfolding split using fin new by simp
qed

termination fresh_id
proof (relation "measure (\<lambda>(base, n, seen, i). card (taken_from base n seen) + of_bool (i \<in> set seen))")
  fix base call_id :: string and suffix :: nat and seen :: "string list"
  assume "call_id \<in> set seen"
  then show "((base, suffix + 1, seen, suffixed base suffix), base, suffix, seen, call_id) \<in>
      measure (\<lambda>(base, n, seen, i). card (taken_from base n seen) + of_bool (i \<in> set seen))"
    using taken_from_Suc[of base suffix seen] by simp
qed simp

declare fresh_id.simps [simp del]

lemma fresh_id_fresh: "fresh_id base n seen i \<notin> set seen"
  by (induction base n seen i rule: fresh_id.induct) (simp add: fresh_id.simps)

lemma fresh_id_form: "fresh_id base n seen i = i \<or> (\<exists>k. fresh_id base n seen i = suffixed base k)"
proof (induction base n seen i rule: fresh_id.induct)
  case (1 base n seen i)
  then show ?case by (subst (1 2) fresh_id.simps) auto
qed

record call_context =
  ctx_run_id :: string
  ctx_role :: string
  ctx_turn :: int

definition canonical_call ::
    "(json \<Rightarrow> string) \<Rightarrow> (json \<Rightarrow> string) \<Rightarrow> call_context \<Rightarrow> nat \<Rightarrow> tool_call \<Rightarrow> string list \<Rightarrow>
      string \<times> diagnostic list" where
  "canonical_call repr digest ctx index call seen =
     (let original = strip (py_text repr (jget_or ''id'' (JStr []) call));
          problem = (if original = [] then Some ''missing_tool_call_id''
                     else if original \<in> set seen then Some ''duplicate_tool_call_id'' else None)
      in case problem of
           None \<Rightarrow> (original, [])
         | Some c \<Rightarrow>
             (let base = canonical_tool_call_id repr digest (ctx_run_id ctx) (ctx_role ctx)
                    (ctx_turn ctx) index call;
                  call_id = fresh_id base 1 seen base
              in (call_id, [\<lparr>code = c, diag_call_id = Some call_id,
                    diag_detail = [(''original_id'', if original = [] then JNull else JStr original),
                      (''index'', JInt (int index))]\<rparr>])))"

fun canonical_calls ::
    "(json \<Rightarrow> string) \<Rightarrow> (json \<Rightarrow> string) \<Rightarrow> call_context \<Rightarrow> nat \<Rightarrow> tool_call list \<Rightarrow> string list \<Rightarrow>
      tool_call list \<times> diagnostic list" where
  "canonical_calls repr digest ctx index [] seen = ([], [])"
| "canonical_calls repr digest ctx index (call # calls) seen =
     (let (call_id, ds) = canonical_call repr digest ctx index call seen;
          (rest, ds') = canonical_calls repr digest ctx (index + 1) calls (seen @ [call_id])
      in (dict_set ''id'' (JStr call_id) call # rest, ds @ ds'))"

text \<open>The provider's raw calls get the same identifiers when there are as many of them.\<close>

definition patch_raw :: "json option \<Rightarrow> tool_call list \<Rightarrow> json option" where
  "patch_raw raw calls =
     (case raw of
        Some (JList raws) \<Rightarrow>
          if length raws = length calls
          then Some (JList (map (\<lambda>(r, c). case r of
                 JObj d \<Rightarrow> JObj (dict_set ''id'' (jget ''id'' c) d) | _ \<Rightarrow> r) (zip raws calls)))
          else raw
      | _ \<Rightarrow> raw)"

definition canonicalize_ai_tool_calls ::
    "(json \<Rightarrow> string) \<Rightarrow> (json \<Rightarrow> string) \<Rightarrow> call_context \<Rightarrow> chat_message \<Rightarrow>
      chat_message \<times> diagnostic list" where
  "canonicalize_ai_tool_calls repr digest ctx m =
     (case m of
        AIMessage calls raw content \<Rightarrow>
          if calls = [] then (m, [])
          else (let (calls', ds) = canonical_calls repr digest ctx 0 calls []
                in (AIMessage calls' (patch_raw raw calls') content, ds))
      | _ \<Rightarrow> (m, []))"

section \<open>Closing a batch\<close>

definition call_id_of :: "(json \<Rightarrow> string) \<Rightarrow> tool_call \<Rightarrow> string" where
  "call_id_of repr call = py_text repr (jget ''id'' call)"

definition to_tool_message :: "tool_error \<Rightarrow> string \<Rightarrow> chat_message" where
  "to_tool_message e call_id = ToolMessage call_id (Some (te_tool_name e)) (ErrorPayload e)"

definition protocol_error_message ::
    "(json \<Rightarrow> string) \<Rightarrow> tool_call \<Rightarrow> tool_error_type \<Rightarrow> string \<Rightarrow> (string, json) dict \<Rightarrow> chat_message" where
  "protocol_error_message repr call kind message detail =
     to_tool_message \<lparr>te_error_type = kind,
         te_tool_name = py_text repr (jget_or ''name'' (JStr ''unknown_tool'') call),
         te_message = message, te_attempts = None, te_retryable = False, te_detail = detail\<rparr>
       (call_id_of repr call)"

definition type_name :: "chat_message \<Rightarrow> string" where
  "type_name m =
     (case m of AIMessage _ _ _ \<Rightarrow> ''ai'' | ToolMessage _ _ _ \<Rightarrow> ''tool'' | OtherMessage t _ \<Rightarrow> t)"

definition candidate_diagnostics :: "string list \<Rightarrow> chat_message \<Rightarrow> diagnostic list" where
  "candidate_diagnostics expected m =
     (if \<not> is_tool m
      then [\<lparr>code = ''non_tool_batch_result'', diag_call_id = None,
             diag_detail = [(''message_type'', JStr (type_name m))]\<rparr>]
      else if tool_id m \<notin> set expected
      then [\<lparr>code = ''unknown_tool_result'', diag_call_id = Some (tool_id m), diag_detail = []\<rparr>]
      else [])"

definition matches_of :: "chat_message list \<Rightarrow> string \<Rightarrow> chat_message list" where
  "matches_of candidates i = filter (\<lambda>m. is_tool m \<and> tool_id m = i) candidates"

definition accept_result :: "(json \<Rightarrow> string) \<Rightarrow> tool_call \<Rightarrow> chat_message \<Rightarrow> chat_message" where
  "accept_result repr call m =
     ToolMessage (call_id_of repr call)
       (Some (case dict_get call ''name'' of
          Some v \<Rightarrow> py_text repr v
        | None \<Rightarrow> (case tool_name m of
            None \<Rightarrow> ''unknown_tool'' | Some n \<Rightarrow> if n = [] then ''unknown_tool'' else n)))
       (tool_content m)"

definition close_call ::
    "(json \<Rightarrow> string) \<Rightarrow> tool_error_type \<Rightarrow> string \<Rightarrow> chat_message list \<Rightarrow> tool_call \<Rightarrow>
      chat_message \<times> diagnostic list" where
  "close_call repr missing_type missing_message candidates call =
     (let i = call_id_of repr call in
      case matches_of candidates i of
        [] \<Rightarrow> (protocol_error_message repr call missing_type missing_message [],
               [\<lparr>code = ''missing_tool_result'', diag_call_id = Some i, diag_detail = []\<rparr>])
      | [m] \<Rightarrow> (accept_result repr call m, [])
      | ms \<Rightarrow> (protocol_error_message repr call RuntimeDuplicateResult
                 ''The runtime produced multiple results for one tool call.''
                 [(''result_count'', JInt (int (length ms)))],
               [\<lparr>code = ''duplicate_tool_result'', diag_call_id = Some i,
                 diag_detail = [(''count'', JInt (int (length ms)))]\<rparr>]))"

text \<open>\<open>call["id"]\<close> raises for a call without an identifier.\<close>

definition close_tool_batch ::
    "(json \<Rightarrow> string) \<Rightarrow> tool_error_type \<Rightarrow> string \<Rightarrow> diagnostic list \<Rightarrow> tool_call list \<Rightarrow>
      chat_message list \<Rightarrow> chat_message list \<Rightarrow> json_error + closed_batch" where
  "close_tool_batch repr missing_type missing_message initial calls candidates additional =
     (if list_ex (\<lambda>call. dict_get call ''id'' = None) calls then Inl (MissingKey ''id'')
      else (let expected = map (call_id_of repr) calls;
                closed = map (close_call repr missing_type missing_message candidates) calls
            in Inr \<lparr>cb_messages = map fst closed,
                 cb_additional = filter (\<lambda>m. \<not> is_tool m) additional,
                 cb_diagnostics = initial @ concat (map (candidate_diagnostics expected) candidates) @
                   map (\<lambda>m. \<lparr>code = ''tool_message_in_additional_messages'',
                          diag_call_id = Some (tool_id m), diag_detail = []\<rparr>)
                     (filter is_tool additional) @
                   concat (map snd closed)\<rparr>))"

section \<open>Validating a transcript\<close>

datatype transcript_error =
  InvalidToolCallIds | ToolBatchNotClosed | ToolResultOrderMismatch | OrphanToolResult

definition expected_ids :: "(json \<Rightarrow> string) \<Rightarrow> chat_message \<Rightarrow> string list" where
  "expected_ids repr m = map (\<lambda>call. py_text repr (jget_or ''id'' (JStr []) call)) (ai_calls m)"

text \<open>The loop over the messages; \<open>found\<close> collects the positions of the results of each batch.\<close>

fun scan_batches ::
    "(json \<Rightarrow> string) \<Rightarrow> bool \<Rightarrow> nat \<Rightarrow> chat_message list \<Rightarrow> nat list \<Rightarrow> transcript_error + nat list" where
  "scan_batches repr pending index [] found = Inr found"
| "scan_batches repr pending index (m # rest) found =
     (if \<not> has_calls m then scan_batches repr pending (index + 1) rest found
      else (let expected = expected_ids repr m;
                results = map tool_id (takeWhile is_tool rest);
                found' = found @ [index + 1..<index + 1 + length results]
            in if [] \<in> set expected \<or> \<not> distinct expected then Inl InvalidToolCallIds
               else if pending \<and> rest = [] \<and> results = []
               then scan_batches repr pending (index + 1) rest found'
               else if results = [] \<or> length results \<noteq> length expected then Inl ToolBatchNotClosed
               else if results \<noteq> expected then Inl ToolResultOrderMismatch
               else scan_batches repr pending (index + 1) rest found'))"

definition validate_tool_transcript ::
    "(json \<Rightarrow> string) \<Rightarrow> bool \<Rightarrow> chat_message list \<Rightarrow> transcript_error + unit" where
  "validate_tool_transcript repr pending ms =
     (case scan_batches repr pending 0 ms [] of
        Inl e \<Rightarrow> Inl e
      | Inr found \<Rightarrow>
          if list_ex (\<lambda>i. is_tool (ms ! i) \<and> i \<notin> set found) [0..<length ms]
          then Inl OrphanToolResult else Inr ())"

section \<open>Canonical calls have unique identifiers\<close>

lemma canonical_call_fresh:
  "canonical_call repr digest ctx index call seen = (i, ds) \<Longrightarrow> i \<noteq> [] \<and> i \<notin> set seen"
proof -
  assume *: "canonical_call repr digest ctx index call seen = (i, ds)"
  let ?base = "canonical_tool_call_id repr digest (ctx_run_id ctx) (ctx_role ctx) (ctx_turn ctx) index call"
  have base: "?base \<noteq> []" by (simp add: canonical_tool_call_id_def)
  have "fresh_id ?base 1 seen ?base \<noteq> []"
    using fresh_id_form[of ?base 1 seen ?base] base by (auto simp: suffixed_def)
  with * show ?thesis
    by (auto simp: canonical_call_def Let_def fresh_id_fresh split: if_splits)
qed

lemma canonical_call_kept:
  assumes "canonical_call repr digest ctx index call seen = (i, ds)"
  shows "ds = [] \<longleftrightarrow> strip (py_text repr (jget_or ''id'' (JStr []) call)) \<notin> set ([] # seen)"
    and "ds = [] \<Longrightarrow> i = strip (py_text repr (jget_or ''id'' (JStr []) call))"
  using assms by (auto simp: canonical_call_def Let_def split: if_splits)

lemma call_id_of_set [simp]: "call_id_of repr (dict_set ''id'' (JStr i) call) = i"
  by (simp add: call_id_of_def jget_def py_text_def)

lemma expected_is_call_id:
  "dict_get call ''id'' \<noteq> None \<Longrightarrow> py_text repr (jget_or ''id'' (JStr []) call) = call_id_of repr call"
  by (auto simp: call_id_of_def jget_def jget_or_def)

lemma canonical_calls_ids:
  assumes "canonical_calls repr digest ctx n calls seen = (calls', ds)"
  shows "length calls' = length calls \<and> distinct (map (call_id_of repr) calls') \<and>
    [] \<notin> set (map (call_id_of repr) calls') \<and>
    set (map (call_id_of repr) calls') \<inter> set seen = {} \<and>
    list_all (\<lambda>call. dict_get call ''id'' \<noteq> None) calls'"
  using assms
proof (induction calls arbitrary: n seen calls' ds)
  case (Cons call calls)
  obtain i d where i: "canonical_call repr digest ctx n call seen = (i, d)" by fastforce
  obtain rest d' where rest: "canonical_calls repr digest ctx (n + 1) calls (seen @ [i]) = (rest, d')"
    by fastforce
  from Cons.prems i rest have calls': "calls' = dict_set ''id'' (JStr i) call # rest" by simp
  from Cons.IH[OF rest] canonical_call_fresh[OF i] show ?case unfolding calls' by auto
qed simp

text \<open>The other entries of each call are those the model sent.\<close>

lemma canonical_calls_other:
  assumes "canonical_calls repr digest ctx n calls seen = (calls', ds)" "k \<noteq> ''id''"
  shows "map (\<lambda>call. dict_get call k) calls' = map (\<lambda>call. dict_get call k) calls"
  using assms
  by (induction calls arbitrary: n seen calls' ds) (auto simp: Let_def split: prod.splits)

section \<open>Closed batches\<close>

lemma close_call_id:
  "\<exists>name content. fst (close_call repr mt mm cands call) = ToolMessage (call_id_of repr call) name content"
  by (auto simp: close_call_def Let_def protocol_error_message_def to_tool_message_def
      accept_result_def split: list.splits)

lemma close_call_simps [simp]:
  "is_tool (fst (close_call repr mt mm cands call))"
  "tool_id (fst (close_call repr mt mm cands call)) = call_id_of repr call"
  using close_call_id[of repr mt mm cands call] by (auto simp: is_tool_def)

lemma close_tool_batch_Inr [result_elims]:
  "close_tool_batch repr mt mm initial calls cands extra = Inr b \<Longrightarrow>
    cb_messages b = map (\<lambda>call. fst (close_call repr mt mm cands call)) calls \<and>
    cb_additional b = filter (\<lambda>m. \<not> is_tool m) extra \<and>
    list_all (\<lambda>call. dict_get call ''id'' \<noteq> None) calls"
  by (auto simp: close_tool_batch_def Let_def list_all_iff list_ex_iff split: if_splits)

section \<open>Validation decides a grammar\<close>

text \<open>A closed transcript is a sequence of plain messages and of batches: an AI message with
  distinct non-empty call identifiers, followed by one result per call in the order of the calls.\<close>

definition ids_ok :: "string list \<Rightarrow> bool" where
  "ids_ok is \<longleftrightarrow> [] \<notin> set is \<and> distinct is"

inductive closed_transcript :: "(json \<Rightarrow> string) \<Rightarrow> chat_message list \<Rightarrow> bool" for repr where
  empty: "closed_transcript repr []"
| plain: "\<not> is_tool m \<Longrightarrow> \<not> has_calls m \<Longrightarrow> closed_transcript repr ms \<Longrightarrow> closed_transcript repr (m # ms)"
| batch: "has_calls m \<Longrightarrow> ids_ok (expected_ids repr m) \<Longrightarrow> list_all is_tool results \<Longrightarrow>
    map tool_id results = expected_ids repr m \<Longrightarrow> closed_transcript repr ms \<Longrightarrow>
    closed_transcript repr (m # results @ ms)"

inductive_cases closed_ConsE: "closed_transcript repr (m # ms)"

fun orphan :: "bool \<Rightarrow> chat_message list \<Rightarrow> bool" where
  "orphan covered [] = False"
| "orphan covered (m # rest) =
     (if is_tool m then \<not> covered \<or> orphan covered rest else orphan (has_calls m) rest)"

fun result_positions :: "nat \<Rightarrow> chat_message list \<Rightarrow> nat list" where
  "result_positions n [] = []"
| "result_positions n (m # rest) =
     (if has_calls m then [n + 1..<n + 1 + length (takeWhile is_tool rest)] else []) @
     result_positions (n + 1) rest"

lemma result_positions_gt: "x \<in> set (result_positions n ms) \<Longrightarrow> n < x"
  by (induction n ms rule: result_positions.induct) (auto split: if_splits)

lemma calls_not_tool: "has_calls m \<Longrightarrow> \<not> is_tool m"
  by (cases m) (simp_all add: has_calls_def is_tool_def)

lemma ex_less_Suc: "(\<exists>j < Suc n. P j) \<longleftrightarrow> P 0 \<or> (\<exists>j < n. P (Suc j))"
  by (metis Suc_less_eq less_Suc_eq_0_disj zero_less_Suc)

lemma orphan_positions:
  "(\<exists>j < length ms. is_tool (ms ! j) \<and> \<not> (covered \<and> j < length (takeWhile is_tool ms)) \<and>
     n + j \<notin> set (result_positions n ms)) \<longleftrightarrow> orphan covered ms"
proof (induction ms arbitrary: n covered)
  case (Cons m rest)
  have zero: "n \<notin> set (result_positions n (m # rest))" using result_positions_gt by blast
  consider "has_calls m" | "is_tool m" "\<not> has_calls m" | "\<not> is_tool m" "\<not> has_calls m" by blast
  then show ?case
  proof cases
    case 1
    have "orphan covered (m # rest) = orphan True rest" using 1 calls_not_tool by simp
    also have "\<dots> \<longleftrightarrow> (\<exists>j < length rest. is_tool (rest ! j) \<and>
        \<not> (True \<and> j < length (takeWhile is_tool rest)) \<and> Suc n + j \<notin> set (result_positions (Suc n) rest))"
      by (rule Cons.IH[symmetric])
    also have "\<dots> \<longleftrightarrow> (\<exists>j < length (m # rest). is_tool ((m # rest) ! j) \<and>
        \<not> (covered \<and> j < length (takeWhile is_tool (m # rest))) \<and>
        n + j \<notin> set (result_positions n (m # rest)))"
      using 1 calls_not_tool[OF 1] unfolding length_Cons ex_less_Suc by auto
    finally show ?thesis ..
  next
    case 2
    have "orphan covered (m # rest) \<longleftrightarrow> \<not> covered \<or> orphan covered rest" using 2 by simp
    also have "\<dots> \<longleftrightarrow> \<not> covered \<or> (\<exists>j < length rest. is_tool (rest ! j) \<and>
        \<not> (covered \<and> j < length (takeWhile is_tool rest)) \<and> Suc n + j \<notin> set (result_positions (Suc n) rest))"
      by (simp only: Cons.IH)
    also have "\<dots> \<longleftrightarrow> (\<exists>j < length (m # rest). is_tool ((m # rest) ! j) \<and>
        \<not> (covered \<and> j < length (takeWhile is_tool (m # rest))) \<and>
        n + j \<notin> set (result_positions n (m # rest)))"
      using 2 zero unfolding length_Cons ex_less_Suc by auto
    finally show ?thesis ..
  next
    case 3
    have "orphan covered (m # rest) = orphan False rest" using 3 by simp
    also have "\<dots> \<longleftrightarrow> (\<exists>j < length rest. is_tool (rest ! j) \<and>
        \<not> (False \<and> j < length (takeWhile is_tool rest)) \<and> Suc n + j \<notin> set (result_positions (Suc n) rest))"
      by (rule Cons.IH[symmetric])
    also have "\<dots> \<longleftrightarrow> (\<exists>j < length (m # rest). is_tool ((m # rest) ! j) \<and>
        \<not> (covered \<and> j < length (takeWhile is_tool (m # rest))) \<and>
        n + j \<notin> set (result_positions n (m # rest)))"
      using 3 unfolding length_Cons ex_less_Suc by auto
    finally show ?thesis ..
  qed
qed simp

text \<open>The batch that may be left open at the end of a transcript.\<close>

definition batch_ok :: "(json \<Rightarrow> string) \<Rightarrow> bool \<Rightarrow> chat_message \<Rightarrow> chat_message list \<Rightarrow> bool" where
  "batch_ok repr pending m rest \<longleftrightarrow> ids_ok (expected_ids repr m) \<and>
     (pending \<and> rest = [] \<or> map tool_id (takeWhile is_tool rest) = expected_ids repr m)"

fun batches_ok :: "(json \<Rightarrow> string) \<Rightarrow> bool \<Rightarrow> chat_message list \<Rightarrow> bool" where
  "batches_ok repr pending [] = True"
| "batches_ok repr pending (m # rest) =
     ((has_calls m \<longrightarrow> batch_ok repr pending m rest) \<and> batches_ok repr pending rest)"

lemma expected_nonempty: "has_calls m \<Longrightarrow> expected_ids repr m \<noteq> []"
  by (cases m) (auto simp: has_calls_def expected_ids_def)

lemma mapped_length: "map f xs = ys \<Longrightarrow> length xs = length ys"
  by auto

lemma scan_ok:
  "(\<exists>found'. scan_batches repr pending n ms found = Inr found') \<longleftrightarrow> batches_ok repr pending ms"
proof (induction ms arbitrary: n found)
  case (Cons m rest)
  show ?case
  proof (cases "has_calls m")
    case True
    with expected_nonempty[OF True, of repr] Cons.IH show ?thesis
      by (auto simp: Let_def batch_ok_def ids_ok_def dest: mapped_length)
  qed (simp add: Cons.IH)
qed simp

lemma scan_found:
  "scan_batches repr pending n ms found = Inr found' \<Longrightarrow> found' = found @ result_positions n ms"
proof (induction ms arbitrary: n found)
  case (Cons m rest)
  show ?case
  proof (cases "has_calls m")
    case True
    with Cons.prems have "scan_batches repr pending (n + 1) rest
        (found @ [n + 1..<n + 1 + length (takeWhile is_tool rest)]) = Inr found'"
      by (simp add: Let_def split: if_splits)
    from Cons.IH[OF this] True show ?thesis by simp
  next
    case False
    with Cons.prems have "scan_batches repr pending (n + 1) rest found = Inr found'" by simp
    from Cons.IH[OF this] False show ?thesis by simp
  qed
qed simp

lemma validate_iff:
  "validate_tool_transcript repr pending ms = Inr () \<longleftrightarrow>
     batches_ok repr pending ms \<and> \<not> orphan False ms"
proof (cases "batches_ok repr pending ms")
  case True
  then obtain found where s: "scan_batches repr pending 0 ms [] = Inr found"
    using scan_ok by blast
  from scan_found[OF s] have "found = result_positions 0 ms" by simp
  with s True orphan_positions[of ms False 0] show ?thesis
    by (auto simp: validate_tool_transcript_def list_ex_iff)
next
  case False
  then obtain e where "scan_batches repr pending 0 ms [] = Inl e"
    using scan_ok[of repr pending 0 ms "[]"] by (cases "scan_batches repr pending 0 ms []") auto
  with False show ?thesis by (simp add: validate_tool_transcript_def)
qed

text \<open>The results right after a batch can be cut off.\<close>

lemma takeWhile_tools:
  "list_all is_tool results \<Longrightarrow> takeWhile is_tool (results @ ms) = results @ takeWhile is_tool ms"
  by (induction results) auto

lemma tool_no_calls: "is_tool m \<Longrightarrow> \<not> has_calls m"
  using calls_not_tool by blast

lemma batches_ok_tools:
  "list_all is_tool results \<Longrightarrow> batches_ok repr pending (results @ ms) = batches_ok repr pending ms"
  by (induction results) (auto simp: tool_no_calls)

lemma orphan_tools: "list_all is_tool results \<Longrightarrow> orphan True (results @ ms) = orphan True ms"
  by (induction results) auto

lemma orphan_head: "(ms = [] \<or> \<not> is_tool (hd ms)) \<Longrightarrow> orphan c ms = orphan False ms"
  by (cases ms) auto

lemma closed_head: "closed_transcript repr ms \<Longrightarrow> ms = [] \<or> \<not> is_tool (hd ms)"
  by (cases rule: closed_transcript.cases) (auto dest: calls_not_tool)

lemma closed_checks: "closed_transcript repr ms \<Longrightarrow> batches_ok repr pending ms \<and> \<not> orphan False ms"
proof (induction rule: closed_transcript.induct)
  case (batch m results ms)
  have "takeWhile is_tool ms = []" using closed_head[OF batch.hyps(5)] by (cases ms) auto
  then have "takeWhile is_tool (results @ ms) = results"
    by (simp add: takeWhile_tools[OF batch.hyps(3)])
  with batch show ?case
    by (simp add: batch_ok_def batches_ok_tools calls_not_tool orphan_tools
        orphan_head[OF closed_head[OF batch.hyps(5)], of True])
qed auto

lemma checks_closed: "batches_ok repr False ms \<Longrightarrow> \<not> orphan False ms \<Longrightarrow> closed_transcript repr ms"
proof (induction ms rule: length_induct)
  case (1 ms)
  show ?case
  proof (cases ms)
    case Nil
    then show ?thesis by (simp add: closed_transcript.empty)
  next
    case (Cons m rest)
    show ?thesis
    proof (cases "has_calls m")
      case True
      let ?r = "takeWhile is_tool rest" and ?rest = "dropWhile is_tool rest"
      have split: "rest = ?r @ ?rest" by simp
      have tools: "list_all is_tool ?r" by (auto simp: list_all_iff dest: set_takeWhileD)
      have head: "?rest = [] \<or> \<not> is_tool (hd ?rest)" using hd_dropWhile by blast
      have ok: "batches_ok repr False ?rest"
        using 1(2) Cons batches_ok_tools[OF tools, of repr False ?rest] by simp
      have "\<not> orphan True rest" using 1(3) Cons True calls_not_tool[OF True] by simp
      then have "\<not> orphan False ?rest"
        using orphan_tools[OF tools, of ?rest] orphan_head[OF head, of True] by simp
      moreover have "length ?rest < length ms"
        using Cons by (simp add: length_dropWhile_le le_imp_less_Suc)
      ultimately have "closed_transcript repr ?rest" using 1(1) ok by blast
      moreover have "ids_ok (expected_ids repr m)" "map tool_id ?r = expected_ids repr m"
        using 1(2) Cons True expected_nonempty[OF True, of repr] by (auto simp: batch_ok_def)
      ultimately have "closed_transcript repr (m # ?r @ ?rest)"
        using True tools by (intro closed_transcript.batch)
      with Cons split show ?thesis by simp
    next
      case False
      then have "\<not> is_tool m" using 1(3) Cons by auto
      with False 1 Cons show ?thesis by (auto intro!: closed_transcript.plain)
    qed
  qed
qed

lemma closed_append:
  "closed_transcript repr ms \<Longrightarrow> closed_transcript repr ms' \<Longrightarrow> closed_transcript repr (ms @ ms')"
  by (induction rule: closed_transcript.induct) (auto intro: closed_transcript.intros)

section \<open>Properties\<close>

lemma canonicalized_calls:
  "calls \<noteq> [] \<Longrightarrow> ai_calls (fst (canonicalize_ai_tool_calls repr digest ctx (AIMessage calls raw content))) =
    fst (canonical_calls repr digest ctx 0 calls [])"
  by (simp add: canonicalize_ai_tool_calls_def split: prod.splits)

text \<open>C35. The validator accepts exactly the closed transcripts: without a pending tail, a
  transcript passes if and only if it is a sequence of plain messages and of tool batches with
  distinct non-empty call identifiers, each followed by one result per call in call order.\<close>

theorem validate_decides_grammar:
  "validate_tool_transcript repr False ms = Inr () \<longleftrightarrow> closed_transcript repr ms"
  using closed_checks[of repr ms False] checks_closed[of repr ms] validate_iff[of repr False ms]
  by blast

text \<open>Canonicalisation gives every tool call a non-empty identifier, all distinct, whatever
  identifiers the model sent and whatever the digest function returns; the other entries of the
  calls and their number are unchanged.\<close>

lemma canonical_ids_unique:
  assumes "canonicalize_ai_tool_calls repr digest ctx (AIMessage calls raw content) = (m', ds)"
  shows "ids_ok (expected_ids repr m') \<and> length (ai_calls m') = length calls \<and>
    (\<forall>k. k \<noteq> ''id'' \<longrightarrow> map (\<lambda>c. dict_get c k) (ai_calls m') = map (\<lambda>c. dict_get c k) calls)"
proof (cases "calls = []")
  case True
  with assms show ?thesis by (auto simp: canonicalize_ai_tool_calls_def expected_ids_def ids_ok_def)
next
  case False
  obtain calls' ds' where c: "canonical_calls repr digest ctx 0 calls [] = (calls', ds')" by fastforce
  with assms False have m': "m' = AIMessage calls' (patch_raw raw calls') content"
    by (auto simp: canonicalize_ai_tool_calls_def)
  note ids = canonical_calls_ids[OF c]
  have "expected_ids repr m' = map (call_id_of repr) calls'"
    using ids by (auto simp: m' expected_ids_def list_all_iff expected_is_call_id)
  with ids m' canonical_calls_other[OF c] show ?thesis by (simp add: ids_ok_def)
qed

definition demo_repr :: "json \<Rightarrow> string" where
  "demo_repr v = ''?''"

definition demo_digest :: "json \<Rightarrow> string" where
  "demo_digest v = ''0123456789abcdef01234567''"

definition demo_ctx :: call_context where
  "demo_ctx = \<lparr>ctx_run_id = ''run'', ctx_role = ''researcher'', ctx_turn = 1\<rparr>"

definition demo_ai :: chat_message where
  "demo_ai = AIMessage [[(''name'', JStr ''search''), (''id'', JStr '''')], [(''id'', JStr ''a'')],
     [(''id'', JStr ''a'')]] None JNull"

lemma canonical_ids_unique_witness:
  "ids_ok (expected_ids demo_repr (fst (canonicalize_ai_tool_calls demo_repr demo_digest demo_ctx demo_ai)))"
  using canonical_ids_unique[of demo_repr demo_digest demo_ctx "ai_calls demo_ai" None JNull]
  by (simp add: demo_ai_def) (metis prod.collapse)

text \<open>A closed batch has exactly one result per call, in call order, no matter what the
  hooks returned: the call's own result when there is exactly one candidate for it, and a
  structured runtime error when there is none or more than one.\<close>

lemma closed_batch_results:
  assumes "close_tool_batch repr mt mm initial calls cands extra = Inr b"
  shows "map tool_id (cb_messages b) = map (call_id_of repr) calls \<and>
    list_all is_tool (cb_messages b) \<and>
    (\<forall>i < length calls. cb_messages b ! i =
      (case matches_of cands (call_id_of repr (calls ! i)) of
         [] \<Rightarrow> protocol_error_message repr (calls ! i) mt mm []
       | [m] \<Rightarrow> accept_result repr (calls ! i) m
       | ms \<Rightarrow> protocol_error_message repr (calls ! i) RuntimeDuplicateResult
           ''The runtime produced multiple results for one tool call.''
           [(''result_count'', JInt (int (length ms)))]))"
proof -
  from close_tool_batch_Inr[OF assms]
  have b: "cb_messages b = map (\<lambda>call. fst (close_call repr mt mm cands call)) calls" by simp
  have "cb_messages b ! i = (case matches_of cands (call_id_of repr (calls ! i)) of
         [] \<Rightarrow> protocol_error_message repr (calls ! i) mt mm []
       | [m] \<Rightarrow> accept_result repr (calls ! i) m
       | ms \<Rightarrow> protocol_error_message repr (calls ! i) RuntimeDuplicateResult
           ''The runtime produced multiple results for one tool call.''
           [(''result_count'', JInt (int (length ms)))])" if "i < length calls" for i
    using that by (simp add: b close_call_def Let_def split: list.splits)
  moreover have "map tool_id (cb_messages b) = map (call_id_of repr) calls" "list_all is_tool (cb_messages b)"
    by (simp_all add: b comp_def list_all_iff)
  ultimately show ?thesis by blast
qed

lemma closed_batch_results_witness:
  "(case close_tool_batch demo_repr RuntimeMissingResult ''none'' [] [[(''id'', JStr ''a'')], [(''id'', JStr ''b'')]]
      [ToolMessage ''b'' None (Text JNull), ToolMessage ''x'' None (Text JNull)] [] of
     Inr b \<Rightarrow> map tool_id (cb_messages b) = [''a'', ''b'']
   | Inl _ \<Rightarrow> False)"
proof -
  obtain b where b: "close_tool_batch demo_repr RuntimeMissingResult ''none'' []
      [[(''id'', JStr ''a'')], [(''id'', JStr ''b'')]]
      [ToolMessage ''b'' None (Text JNull), ToolMessage ''x'' None (Text JNull)] [] = Inr b"
    by (simp add: close_tool_batch_def Let_def)
  from closed_batch_results[OF b] b show ?thesis by (simp add: call_id_of_def jget_def py_text_def)
qed

text \<open>The runtime keeps transcripts closed: appending to a closed transcript a canonicalised
  AI message, the results of closing its batch and the cleaned additional messages (none of which
  makes tool calls) gives a transcript that the validator accepts.\<close>

lemma closing_keeps_transcript_valid:
  assumes "closed_transcript repr ms"
    "canonicalize_ai_tool_calls repr digest ctx (AIMessage calls raw content) = (m', ds)" "calls \<noteq> []"
    "close_tool_batch repr mt mm ds (ai_calls m') cands extra = Inr b"
    "list_all (\<lambda>m. \<not> has_calls m) extra"
  shows "validate_tool_transcript repr False (ms @ m' # cb_messages b @ cb_additional b) = Inr ()"
proof -
  obtain calls' ds' where c: "canonical_calls repr digest ctx 0 calls [] = (calls', ds')" by fastforce
  with assms(2,3) have m': "m' = AIMessage calls' (patch_raw raw calls') content"
    by (auto simp: canonicalize_ai_tool_calls_def)
  note ids = canonical_calls_ids[OF c]
  have exp: "expected_ids repr m' = map (call_id_of repr) calls'"
    using ids by (auto simp: m' expected_ids_def list_all_iff expected_is_call_id)
  have calls: "has_calls m'" using ids assms(3) by (auto simp: m' has_calls_def)
  from close_tool_batch_Inr[OF assms(4)] m'
  have b: "cb_messages b = map (\<lambda>call. fst (close_call repr mt mm cands call)) calls'"
    "cb_additional b = filter (\<lambda>m. \<not> is_tool m) extra" by simp_all
  have "closed_transcript repr (filter (\<lambda>m. \<not> is_tool m) extra)"
    using assms(5) by (induction extra) (auto intro: closed_transcript.intros)
  then have "closed_transcript repr (m' # cb_messages b @ cb_additional b)"
    unfolding b using calls exp ids
    by (intro closed_transcript.batch) (auto simp: ids_ok_def list_all_iff comp_def)
  with assms(1) have "closed_transcript repr (ms @ m' # cb_messages b @ cb_additional b)"
    by (rule closed_append)
  then show ?thesis
    using closed_checks[of repr _ False] by (simp add: validate_iff)
qed

lemma closing_keeps_transcript_valid_witness:
  "(let m = fst (canonicalize_ai_tool_calls demo_repr demo_digest demo_ctx demo_ai);
        ds = snd (canonicalize_ai_tool_calls demo_repr demo_digest demo_ctx demo_ai)
    in case close_tool_batch demo_repr RuntimeMissingResult ''none'' ds (ai_calls m) [] [] of
         Inr b \<Rightarrow> validate_tool_transcript demo_repr False
           ([OtherMessage ''human'' JNull] @ m # cb_messages b @ cb_additional b) = Inr ()
       | Inl _ \<Rightarrow> False)"
proof -
  obtain m ds where c: "canonicalize_ai_tool_calls demo_repr demo_digest demo_ctx demo_ai = (m, ds)"
    by fastforce
  obtain calls' ds' where cc: "canonical_calls demo_repr demo_digest demo_ctx 0 (ai_calls demo_ai) [] = (calls', ds')"
    by fastforce
  have ne: "ai_calls demo_ai \<noteq> []" "AIMessage (ai_calls demo_ai) None JNull = demo_ai"
    by (simp_all add: demo_ai_def)
  have m: "ai_calls m = calls'"
    using canonicalized_calls[OF ne(1), of demo_repr demo_digest demo_ctx None JNull] c cc ne(2) by simp
  have "\<not> list_ex (\<lambda>call. dict_get call ''id'' = None) calls'"
    using canonical_calls_ids[OF cc] by (auto simp: list_all_iff list_ex_iff)
  then obtain b where b: "close_tool_batch demo_repr RuntimeMissingResult ''none'' ds (ai_calls m) [] [] = Inr b"
    by (simp add: m close_tool_batch_def Let_def)
  have "closed_transcript demo_repr [OtherMessage ''human'' JNull]"
    by (auto intro!: closed_transcript.intros simp: is_tool_def has_calls_def)
  moreover have "canonicalize_ai_tool_calls demo_repr demo_digest demo_ctx
      (AIMessage (ai_calls demo_ai) None JNull) = (m, ds)"
    by (simp only: ne(2) c)
  ultimately have "validate_tool_transcript demo_repr False
      ([OtherMessage ''human'' JNull] @ m # cb_messages b @ cb_additional b) = Inr ()"
    by (rule closing_keeps_transcript_valid[OF _ _ ne(1) b]) simp
  then show ?thesis by (simp add: c b)
qed

end
