(* ===== verification/ModelFallback.thy ===== *)
theory ModelFallback
  imports Circuit_Registry Json_Access "HOL-Library.Multiset"
begin

text \<open>
  Choosing another model and recovering truncated output
  (\<open>src/open_deep_research/models/fallback.py\<close>, \<open>models/errors.py\<close>, \<open>models/limits.py\<close> and
  \<open>agents/model_recovery.py\<close>).

  \<open>provider_error\<close> is what the classifiers read of an exception. A message is its kind, content
  and two metadata dictionaries. The model call is an argument that works on an arbitrary state
  \<open>'w\<close>; the requests it is given are exactly those the code sends. Tracing, logging and the
  publication of events are not modelled; the events themselves are returned.
\<close>

section \<open>Errors\<close>

datatype error_class = CircuitOpenClass | TimeoutClass | InterruptClass | ExceptionClass | BaseClass

record provider_error =
  err_class :: error_class
  err_class_name :: string
  err_module :: string
  type_text :: string
  err_text :: string
  status_code :: "int option"
  err_code :: string
  err_type :: string

datatype model_error_kind =
  PROMPT_TOO_LONG | OUTPUT_TRUNCATED | TRANSIENT | RATE_LIMITED | MODEL_UNAVAILABLE | AUTH
| INVALID_REQUEST | INVALID_MEDIA | CANCELLED | UNKNOWN

definition any_in :: "string list \<Rightarrow> string \<Rightarrow> bool" where
  "any_in markers text \<longleftrightarrow> list_ex (str_contains text) markers"

definition check_openai_token_limit :: "provider_error \<Rightarrow> string \<Rightarrow> bool" where
  "check_openai_token_limit e text \<longleftrightarrow>
     ((str_contains (lower (type_text e)) ''openai'' \<or> str_contains (lower (err_module e)) ''openai'') \<and>
      err_class_name e \<in> {''BadRequestError'', ''InvalidRequestError''} \<and>
      any_in [''token'', ''context'', ''length'', ''maximum context'', ''reduce''] text) \<or>
     err_code e = ''context_length_exceeded'' \<or> err_type e = ''invalid_request_error''"

definition check_anthropic_token_limit :: "provider_error \<Rightarrow> string \<Rightarrow> bool" where
  "check_anthropic_token_limit e text \<longleftrightarrow>
     (str_contains (lower (type_text e)) ''anthropic'' \<or> str_contains (lower (err_module e)) ''anthropic'') \<and>
     err_class_name e = ''BadRequestError'' \<and> str_contains text ''prompt is too long''"

definition check_gemini_token_limit :: "provider_error \<Rightarrow> bool" where
  "check_gemini_token_limit e \<longleftrightarrow>
     ((str_contains (lower (type_text e)) ''google'' \<or> str_contains (lower (err_module e)) ''google'') \<and>
      err_class_name e \<in> {''ResourceExhausted'', ''GoogleGenerativeAIFetchError''}) \<or>
     str_contains (lower (type_text e)) ''google.api_core.exceptions.resourceexhausted''"

definition is_token_limit_exceeded :: "provider_error \<Rightarrow> string \<Rightarrow> bool" where
  "is_token_limit_exceeded e model =
     (let text = lower (err_text e); m = lower model in
      if starts_with m ''openai:'' then check_openai_token_limit e text
      else if starts_with m ''anthropic:'' then check_anthropic_token_limit e text
      else if starts_with m ''gemini:'' \<or> starts_with m ''google:'' then check_gemini_token_limit e
      else check_openai_token_limit e text \<or> check_anthropic_token_limit e text \<or>
        check_gemini_token_limit e)"

definition has_status :: "provider_error \<Rightarrow> int list \<Rightarrow> bool" where
  "has_status e codes \<longleftrightarrow> (case status_code e of None \<Rightarrow> False | Some c \<Rightarrow> c \<in> set codes)"

definition classify_model_error :: "provider_error \<Rightarrow> string \<Rightarrow> model_error_kind" where
  "classify_model_error e model =
     (if err_class e = CircuitOpenClass then MODEL_UNAVAILABLE
      else if err_class e = TimeoutClass then MODEL_UNAVAILABLE
      else if err_class e = InterruptClass then CANCELLED
      else if err_class e = ExceptionClass \<and> is_token_limit_exceeded e model then PROMPT_TOO_LONG
      else
        (let text = lower (err_text e); cls = lower (err_class_name e) in
         if has_status e [401, 403] \<or>
           any_in [''authentication'', ''unauthorized'', ''invalid api key'', ''permission denied''] text
         then AUTH
         else if has_status e [429] \<or> str_contains text ''rate limit'' \<or> str_contains cls ''ratelimit''
         then RATE_LIMITED
         else if has_status e [502, 503, 504] \<or>
           any_in [''model unavailable'', ''overloaded'', ''high demand'', ''service unavailable''] text
         then MODEL_UNAVAILABLE
         else if has_status e [408, 425, 500] \<or> any_in [''connection'', ''transport'', ''timeout''] cls
         then TRANSIENT
         else if any_in [''image size'', ''invalid image'', ''unsupported image'', ''media type''] text
         then INVALID_MEDIA
         else if has_status e [400, 404, 409, 413, 422] \<or>
           lower (err_code e) \<in> {''invalid_request_error'', ''invalid_request''} \<or>
           lower (err_type e) = ''invalid_request_error''
         then INVALID_REQUEST else UNKNOWN))"

definition fallback_kind :: "model_error_kind \<Rightarrow> bool" where
  "fallback_kind k \<longleftrightarrow> k \<in> {MODEL_UNAVAILABLE, RATE_LIMITED, TRANSIENT}"

text \<open>An error is handled by calling the next model when it is an \<open>Exception\<close> (not an interrupt
  or a cancellation) of an availability kind.\<close>

definition falls_back :: "provider_error \<Rightarrow> string \<Rightarrow> bool" where
  "falls_back e model \<longleftrightarrow> err_class e \<noteq> InterruptClass \<and> err_class e \<noteq> BaseClass \<and>
     fallback_kind (classify_model_error e model)"

section \<open>Messages\<close>

record model_message =
  is_ai :: bool
  mm_content :: json
  additional_kwargs :: "(string, json) dict"
  response_metadata :: "(string, json) dict"

definition provider_bound :: "string \<Rightarrow> bool" where
  "provider_bound k \<longleftrightarrow> lower k \<in> {''signature'', ''thinking'', ''reasoning'', ''reasoning_content'',
     ''cache_control'', ''prompt_cache'', ''server_tool_use''}"

definition sanitize_message :: "model_message \<Rightarrow> model_message" where
  "sanitize_message m =
     m\<lparr>additional_kwargs := filter (\<lambda>(k, v). \<not> provider_bound k) (additional_kwargs m),
       response_metadata := (if is_ai m then filter (\<lambda>(k, v). \<not> provider_bound k) (response_metadata m)
         else response_metadata m)\<rparr>"

definition sanitize_messages_for_model_fallback :: "model_message list \<Rightarrow> model_message list" where
  "sanitize_messages_for_model_fallback = map sanitize_message"

section \<open>The candidate chain\<close>

record 'a model_candidate =
  cand_model_id :: string
  cand_model :: 'a
  cand_config :: "(string, json) dict"

definition chain_ids :: "string \<Rightarrow> string list \<Rightarrow> string list" where
  "chain_ids primary fallbacks = dedup (filter (\<lambda>i. i \<noteq> []) (map strip (primary # fallbacks)))"

text \<open>A gateway model (\<open>for_role\<close> is \<open>Some\<close>) routes by itself and gets a single candidate.\<close>

definition build_model_candidate_chain ::
    "(string \<Rightarrow> int \<Rightarrow> string \<Rightarrow> (string, json) dict) \<Rightarrow> (string \<Rightarrow> 'a) option \<Rightarrow>
      string \<Rightarrow> string list \<Rightarrow> int \<Rightarrow> string \<Rightarrow> 'a \<Rightarrow> 'a model_candidate list" where
  "build_model_candidate_chain build_config for_role primary fallbacks max_tokens role m =
     (case for_role of
        Some f \<Rightarrow> [\<lparr>cand_model_id = primary, cand_model = f role,
            cand_config = [(''model'', JStr primary), (''max_tokens'', JInt max_tokens)]\<rparr>]
      | None \<Rightarrow> map (\<lambda>i. \<lparr>cand_model_id = i, cand_model = m, cand_config = build_config i max_tokens role\<rparr>)
          (chain_ids primary fallbacks))"

text \<open>The preflight moves a candidate that was forced half-open to the front.\<close>

definition reorder_chain :: "nat \<Rightarrow> circuit_transition option \<Rightarrow> string list \<Rightarrow> string list" where
  "reorder_chain selected tr chain =
     (if tr \<noteq> None \<and> selected \<noteq> 0 then chain ! selected # take selected chain @ drop (selected + 1) chain
      else chain)"

definition preflight ::
    "(circuit_policy \<Rightarrow> string) \<Rightarrow> (nat \<Rightarrow> seconds) \<Rightarrow> circuit_policy \<Rightarrow> bool \<Rightarrow> string list \<Rightarrow>
      circuit_registry \<Rightarrow> string list \<times> circuit_registry" where
  "preflight fp clk policy breaker_enabled chain reg =
     (if \<not> breaker_enabled \<or> chain = [] then (chain, reg)
      else (case select_candidate_index fp clk chain policy 0 True reg of
              (Inl _, reg') \<Rightarrow> (chain, reg')
            | (Inr (selected, tr), reg') \<Rightarrow> (reorder_chain selected tr chain, reg')))"

record fallback_event =
  ev_turn :: int
  ev_from :: string
  ev_to :: string
  ev_reason :: model_error_kind

datatype 'x fallback_error = ChainEmpty | ModelRaised 'x

fun try_chain ::
    "(string \<Rightarrow> model_message list \<Rightarrow> 'w \<Rightarrow> (provider_error + 'r) \<times> 'w) \<Rightarrow> int \<Rightarrow> string list \<Rightarrow>
      model_message list \<Rightarrow> 'w \<Rightarrow> ((provider_error fallback_error + 'r) \<times> fallback_event list) \<times> 'w" where
  "try_chain invoke turn [] ms w = ((Inl ChainEmpty, []), w)"
| "try_chain invoke turn (m # rest) ms w =
     (case invoke m ms w of
        (Inr r, w') \<Rightarrow> ((Inr r, []), w')
      | (Inl e, w') \<Rightarrow>
          (let kind = classify_model_error e m in
           if \<not> falls_back e m then ((Inl (ModelRaised e), []), w')
           else (case rest of
                   [] \<Rightarrow> ((Inl (ModelRaised e), []), w')
                 | next_model # _ \<Rightarrow>
                     (let ((r, evs), w'') =
                        try_chain invoke turn rest (sanitize_messages_for_model_fallback ms) w'
                      in ((r, \<lparr>ev_turn = turn, ev_from = m, ev_to = next_model, ev_reason = kind\<rparr> # evs), w'')))))"

definition invoke_with_model_fallback ::
    "(string list \<Rightarrow> string list) \<Rightarrow>
      (string \<Rightarrow> model_message list \<Rightarrow> 'w \<Rightarrow> (provider_error + 'r) \<times> 'w) \<Rightarrow>
      int \<Rightarrow> string \<Rightarrow> string list \<Rightarrow> model_message list \<Rightarrow> 'w \<Rightarrow>
      ((provider_error fallback_error + 'r) \<times> fallback_event list) \<times> 'w" where
  "invoke_with_model_fallback reorder invoke turn primary fallbacks ms w =
     try_chain invoke turn (reorder (chain_ids primary fallbacks)) ms w"

definition query_turn :: "(string, json) dict \<Rightarrow> int" where
  "query_turn metadata =
     (case jint (jget_or ''query_turn'' (jget_or ''turn'' (JInt 0) metadata) metadata) of
        Inl _ \<Rightarrow> 0 | Inr n \<Rightarrow> max 0 n)"

section \<open>Output recovery\<close>

definition item_text :: "(json \<Rightarrow> string) \<Rightarrow> json \<Rightarrow> string" where
  "item_text repr v = (case v of JObj d \<Rightarrow> py_text repr (jget_or ''text'' v d) | _ \<Rightarrow> py_text repr v)"

fun join_lines :: "string list \<Rightarrow> string" where
  "join_lines [] = []"
| "join_lines [s] = s"
| "join_lines (s # t # ss) = s @ [CHR 0x0A] @ join_lines (t # ss)"

definition message_text :: "(json \<Rightarrow> string) \<Rightarrow> model_message \<Rightarrow> string" where
  "message_text repr m =
     (case mm_content m of
        JStr s \<Rightarrow> s
      | JList items \<Rightarrow> join_lines (map (item_text repr) items)
      | _ \<Rightarrow> [])"

definition finish_reason :: "(json \<Rightarrow> string) \<Rightarrow> model_message \<Rightarrow> string" where
  "finish_reason repr m =
     (let meta = response_metadata m in
      lower (py_text repr (if jtruthy (jget ''finish_reason'' meta) then jget ''finish_reason'' meta
        else if jtruthy (jget ''stop_reason'' meta) then jget ''stop_reason'' meta
        else if jtruthy (jget ''stop_sequence'' meta) then jget ''stop_sequence'' meta
        else JStr [])))"

definition response_was_truncated :: "(json \<Rightarrow> string) \<Rightarrow> model_message \<Rightarrow> bool" where
  "response_was_truncated repr m \<longleftrightarrow>
     finish_reason repr m \<in> {''length'', ''max_tokens'', ''max_output_tokens'', ''model_length''}"

record response_status =
  rs_finish_reason :: string
  rs_error_kind :: "model_error_kind option"
  recoverable :: bool

definition classify_model_response :: "(json \<Rightarrow> string) \<Rightarrow> model_message \<Rightarrow> response_status" where
  "classify_model_response repr m =
     (if response_was_truncated repr m
      then \<lparr>rs_finish_reason = finish_reason repr m, rs_error_kind = Some OUTPUT_TRUNCATED,
            recoverable = True\<rparr>
      else \<lparr>rs_finish_reason = finish_reason repr m, rs_error_kind = None, recoverable = False\<rparr>)"

definition continuation_message :: model_message where
  "continuation_message = \<lparr>is_ai = False,
     mm_content = JStr ''Output token limit hit. Resume directly from the previous fragment without repeating completed text.'',
     additional_kwargs = [(''query_internal'', JStr ''output_continuation'')], response_metadata = []\<rparr>"

record recovery_limits =
  requested_output_tokens :: int
  maximum_output_tokens :: int
  escalation_enabled :: bool
  continuation_max_attempts :: int

record recovery_state =
  request_messages :: "model_message list"
  fragments :: "string list"
  recovery_messages :: "model_message list"
  rec_escalated :: bool
  rec_count :: int
  output_override :: "int option"

datatype 'x recovery_error = OutputRecoveryExhausted | CallRaised 'x

definition can_escalate :: "recovery_limits \<Rightarrow> recovery_state \<Rightarrow> bool" where
  "can_escalate lm st \<longleftrightarrow> escalation_enabled lm \<and> \<not> rec_escalated st \<and>
     requested_output_tokens lm > 0 \<and> maximum_output_tokens lm > requested_output_tokens lm"

definition escalate :: "recovery_limits \<Rightarrow> model_message list \<Rightarrow> recovery_state \<Rightarrow> recovery_state" where
  "escalate lm canonical st =
     st\<lparr>rec_escalated := True,
        output_override := Some (min (maximum_output_tokens lm)
          (max (requested_output_tokens lm * 2) (requested_output_tokens lm + 4096))),
        request_messages := canonical, recovery_messages := []\<rparr>"

definition continue_output ::
    "(json \<Rightarrow> string) \<Rightarrow> model_message list \<Rightarrow> model_message \<Rightarrow> recovery_state \<Rightarrow> recovery_state" where
  "continue_output repr canonical response st =
     (let fragment = response\<lparr>additional_kwargs :=
            dict_set ''query_internal'' (JStr ''output_fragment'') (additional_kwargs response)\<rparr>;
          recovery = recovery_messages st @ [fragment, continuation_message]
      in st\<lparr>rec_count := rec_count st + 1, fragments := fragments st @ [message_text repr response],
            recovery_messages := recovery, request_messages := canonical @ recovery\<rparr>)"

function output_loop ::
    "(json \<Rightarrow> string) \<Rightarrow> (model_message list \<Rightarrow> int option \<Rightarrow> 'w \<Rightarrow> ('x + model_message) \<times> 'w) \<Rightarrow>
      recovery_limits \<Rightarrow> model_message list \<Rightarrow> recovery_state \<Rightarrow> 'w \<Rightarrow>
      ('x recovery_error + model_message) \<times> 'w" where
  "output_loop repr call lm canonical st w =
     (case call (request_messages st) (output_override st) w of
        (Inl x, w') \<Rightarrow> (Inl (CallRaised x), w')
      | (Inr response, w') \<Rightarrow>
          if \<not> recoverable (classify_model_response repr response)
          then (Inr (if fragments st = [] then response
                     else response\<lparr>mm_content := JStr (concat (fragments st @ [message_text repr response]))\<rparr>), w')
          else if can_escalate lm st
          then output_loop repr call lm canonical (escalate lm canonical st) w'
          else if rec_count st \<ge> max 0 (continuation_max_attempts lm)
          then (Inl OutputRecoveryExhausted, w')
          else output_loop repr call lm canonical (continue_output repr canonical response st) w')"
  by pat_completeness auto

text \<open>The calls that are still possible after the next one.\<close>

definition calls_left :: "recovery_limits \<Rightarrow> recovery_state \<Rightarrow> nat" where
  "calls_left lm st =
     (if can_escalate lm st then 1 else 0) + nat (max 0 (continuation_max_attempts lm) - rec_count st)"

lemma calls_left_escalate: "can_escalate lm st \<Longrightarrow> calls_left lm (escalate lm ms st) < calls_left lm st"
  by (simp add: calls_left_def escalate_def can_escalate_def)

lemma calls_left_continue:
  "\<not> rec_count st \<ge> max 0 (continuation_max_attempts lm) \<Longrightarrow>
    calls_left lm (continue_output repr ms r st) < calls_left lm st"
  by (auto simp: calls_left_def continue_output_def can_escalate_def Let_def max_def split: if_splits)

termination output_loop
  by (relation "measure (\<lambda>(repr, call, lm, canonical, st, w). calls_left lm st)")
    (simp_all add: calls_left_escalate calls_left_continue)

declare output_loop.simps [simp del]

definition invoke_with_output_recovery ::
    "(json \<Rightarrow> string) \<Rightarrow> (model_message list \<Rightarrow> int option \<Rightarrow> 'w \<Rightarrow> ('x + model_message) \<times> 'w) \<Rightarrow>
      recovery_limits \<Rightarrow> model_message list \<Rightarrow> 'w \<Rightarrow> ('x recovery_error + model_message) \<times> 'w" where
  "invoke_with_output_recovery repr call lm ms w =
     output_loop repr call lm ms \<lparr>request_messages = ms, fragments = [], recovery_messages = [],
       rec_escalated = False, rec_count = 0, output_override = None\<rparr> w"

section \<open>Context windows\<close>

definition MODEL_TOKEN_LIMITS :: "(string, int) dict" where
  "MODEL_TOKEN_LIMITS = [
      (''openai:deepseek-v4-flash[1m]'', 1000000),
      (''openai:deepseek-v4-pro[1m]'', 1000000),
      (''openai:deepseek-v4-flash'', 200000),
      (''openai:deepseek-v4-pro'', 200000),
      (''openai:gpt-4.1-mini'', 1047576),
      (''openai:gpt-4.1-nano'', 1047576),
      (''openai:gpt-4.1'', 1047576),
      (''openai:gpt-4o-mini'', 128000),
      (''openai:gpt-4o'', 128000),
      (''openai:o4-mini'', 200000),
      (''openai:o3-mini'', 200000),
      (''openai:o3'', 200000),
      (''openai:o3-pro'', 200000),
      (''openai:o1'', 200000),
      (''openai:o1-pro'', 200000),
      (''anthropic:claude-opus-4'', 200000),
      (''anthropic:claude-sonnet-4'', 200000),
      (''anthropic:claude-3-7-sonnet'', 200000),
      (''anthropic:claude-3-5-sonnet'', 200000),
      (''anthropic:claude-3-5-haiku'', 200000),
      (''google:gemini-1.5-pro'', 2097152),
      (''google:gemini-1.5-flash'', 1048576),
      (''google:gemini-pro'', 32768),
      (''cohere:command-r-plus'', 128000),
      (''cohere:command-r'', 128000),
      (''cohere:command-light'', 4096),
      (''cohere:command'', 4096),
      (''mistral:mistral-large'', 32768),
      (''mistral:mistral-medium'', 32768),
      (''mistral:mistral-small'', 32768),
      (''mistral:mistral-7b-instruct'', 32768),
      (''ollama:codellama'', 16384),
      (''ollama:llama2:70b'', 4096),
      (''ollama:llama2:13b'', 4096),
      (''ollama:llama2'', 4096),
      (''ollama:mistral'', 32768),
      (''bedrock:us.amazon.nova-premier-v1:0'', 1000000),
      (''bedrock:us.amazon.nova-pro-v1:0'', 300000),
      (''bedrock:us.amazon.nova-lite-v1:0'', 300000),
      (''bedrock:us.amazon.nova-micro-v1:0'', 128000),
      (''bedrock:us.anthropic.claude-3-7-sonnet-20250219-v1:0'', 200000),
      (''bedrock:us.anthropic.claude-sonnet-4-20250514-v1:0'', 200000),
      (''bedrock:us.anthropic.claude-opus-4-20250514-v1:0'', 200000),
      (''anthropic.claude-opus-4-1-20250805-v1:0'', 200000)]"

definition get_model_token_limit :: "string \<Rightarrow> int option" where
  "get_model_token_limit model =
     (case dict_get MODEL_TOKEN_LIMITS model of
        Some n \<Rightarrow> Some n
      | None \<Rightarrow>
          (case List.find (str_contains model) (sort_key (\<lambda>k. - int (length k)) (dict_keys MODEL_TOKEN_LIMITS)) of
             None \<Rightarrow> None
           | Some k \<Rightarrow> dict_get MODEL_TOKEN_LIMITS k))"

definition resolve_model_context_window :: "string \<Rightarrow> (string, int) dict \<Rightarrow> int \<Rightarrow> int" where
  "resolve_model_context_window model overrides unknown_default =
     (case dict_get overrides model of
        Some n \<Rightarrow> max 1 n
      | None \<Rightarrow> max 1 (case get_model_token_limit model of Some n \<Rightarrow> n | None \<Rightarrow> unknown_default))"

definition resolve_model_max_output_tokens :: "string \<Rightarrow> int \<Rightarrow> (string, int) dict \<Rightarrow> int" where
  "resolve_model_max_output_tokens model requested overrides =
     (case dict_get overrides model of Some n \<Rightarrow> max requested n | None \<Rightarrow> max 1 requested)"

section \<open>Facts about the chain\<close>

lemma mset_reorder:
  assumes "tr \<noteq> None \<longrightarrow> selected < length chain"
  shows "mset (reorder_chain selected tr chain) = mset chain"
proof (cases "tr \<noteq> None \<and> selected \<noteq> 0")
  case True
  have "mset chain = mset (take selected chain @ chain ! selected # drop (Suc selected) chain)"
    using assms True by (simp only: id_take_nth_drop[symmetric] simp_thms)
  with True show ?thesis by (simp add: reorder_chain_def)
next
  case False
  then have "reorder_chain selected tr chain = chain" by (auto simp: reorder_chain_def)
  then show ?thesis by simp
qed

lemma distinct_chain_ids [simp]: "distinct (chain_ids p fs)"
  by (simp add: chain_ids_def)

lemma try_chain_next:
  assumes "invoke m ms w = (Inl e, w1)" "falls_back e m"
    "try_chain invoke turn (nxt # rest) (sanitize_messages_for_model_fallback ms) w1 = ((r, evs), w2)"
  shows "try_chain invoke turn (m # nxt # rest) ms w = ((r, \<lparr>ev_turn = turn, ev_from = m,
    ev_to = nxt, ev_reason = classify_model_error e m\<rparr> # evs), w2)"
  by (subst try_chain.simps(2)) (simp add: assms Let_def del: try_chain.simps(2))

text \<open>An invocation that also writes down the models it was asked for.\<close>

definition logged ::
    "(string \<Rightarrow> model_message list \<Rightarrow> 'w \<Rightarrow> (provider_error + 'r) \<times> 'w) \<Rightarrow>
      string \<Rightarrow> model_message list \<Rightarrow> string list \<times> 'w \<Rightarrow> (provider_error + 'r) \<times> string list \<times> 'w" where
  "logged invoke m ms s = (let (r, w') = invoke m ms (snd s) in (r, fst s @ [m], w'))"

text \<open>The called models are an initial part of the chain; the events link consecutive models.\<close>

fun link_events :: "string list \<Rightarrow> (string \<times> string) list" where
  "link_events (a # b # rest) = (a, b) # link_events (b # rest)"
| "link_events _ = []"

lemma try_chain_calls:
  "try_chain (logged invoke) turn chain ms (lg, w) = ((r, evs), (lg', w')) \<Longrightarrow>
    \<exists>n \<le> length chain. lg' = lg @ take n chain \<and> length evs = n - 1 \<and>
      map (\<lambda>ev. (ev_from ev, ev_to ev)) evs = link_events (take n chain) \<and>
      list_all (\<lambda>ev. fallback_kind (ev_reason ev)) evs \<and> (chain \<noteq> [] \<longrightarrow> 0 < n)"
proof (induction chain arbitrary: ms lg w evs)
  case (Cons m rest)
  obtain res w1 where call: "invoke m ms w = (res, w1)" by fastforce
  have stop: ?case if "evs = []" "lg' = lg @ [m]"
    using that by (intro exI[of _ 1]) simp
  show ?case
  proof (cases res)
    case (Inr x)
    with Cons.prems call show ?thesis by (intro stop) (auto simp: logged_def)
  next
    case (Inl e)
    show ?thesis
    proof (cases "falls_back e m \<and> rest \<noteq> []")
      case False
      with Cons.prems call Inl show ?thesis
        by (intro stop) (auto simp: logged_def Let_def split: if_splits list.splits)
    next
      case True
      then obtain nxt rest' where rest: "rest = nxt # rest'" by (cases rest) auto
      obtain r1 evs1 log1 w2 where rec: "try_chain (logged invoke) turn rest
          (sanitize_messages_for_model_fallback ms) (lg @ [m], w1) = ((r1, evs1), (log1, w2))"
        by (metis surj_pair)
      have "logged invoke m ms (lg, w) = (Inl e, lg @ [m], w1)" by (simp add: logged_def call Inl)
      from try_chain_next[OF this _ rec[unfolded rest]] True Cons.prems rest
      have out: "r = r1" "lg' = log1" "w' = w2"
        "evs = \<lparr>ev_turn = turn, ev_from = m, ev_to = nxt, ev_reason = classify_model_error e m\<rparr> # evs1"
        by (simp_all del: try_chain.simps(2))
      from Cons.IH[OF rec[folded out(1-3)]] rest obtain n where
        n: "n \<le> length rest" "lg' = (lg @ [m]) @ take n rest" "length evs1 = n - 1"
          "map (\<lambda>ev. (ev_from ev, ev_to ev)) evs1 = link_events (take n rest)"
          "list_all (\<lambda>ev. fallback_kind (ev_reason ev)) evs1" "0 < n"
        unfolding out by auto
      then obtain k where k: "n = Suc k" by (cases n) auto
      show ?thesis
        using n True rest out(4) k by (intro exI[of _ "Suc n"]) (auto simp: falls_back_def)
    qed
  qed
qed simp

text \<open>Which result the chain ends with.\<close>

lemma try_chain_result:
  "try_chain (logged invoke) turn chain ms (lg, w) = ((r, evs), (lg', w')) \<Longrightarrow> chain \<noteq> [] \<Longrightarrow>
    (\<exists>x. r = Inr x) \<or> (\<exists>e m. r = Inl (ModelRaised e) \<and> lg' \<noteq> [] \<and> m = last lg' \<and>
      (falls_back e m \<longrightarrow> lg' = lg @ chain))"
proof (induction chain arbitrary: ms lg w evs)
  case (Cons m rest)
  obtain res w1 where call: "invoke m ms w = (res, w1)" by fastforce
  show ?case
  proof (cases res)
    case (Inr x)
    with Cons.prems call show ?thesis by (auto simp: logged_def)
  next
    case (Inl e)
    show ?thesis
    proof (cases "falls_back e m \<and> rest \<noteq> []")
      case False
      with Cons.prems call Inl show ?thesis
        by (auto simp: logged_def Let_def split: if_splits list.splits)
    next
      case True
      then obtain nxt rest' where rest: "rest = nxt # rest'" by (cases rest) auto
      obtain r1 evs1 log1 w2 where rec: "try_chain (logged invoke) turn rest
          (sanitize_messages_for_model_fallback ms) (lg @ [m], w1) = ((r1, evs1), (log1, w2))"
        by (metis surj_pair)
      have "logged invoke m ms (lg, w) = (Inl e, lg @ [m], w1)" by (simp add: logged_def call Inl)
      from try_chain_next[OF this _ rec[unfolded rest]] True Cons.prems rest
      have out: "r = r1" "lg' = log1" "w' = w2" by (simp_all del: try_chain.simps(2))
      from Cons.IH[OF rec[folded out]] True show ?thesis by auto
    qed
  qed
qed simp

section \<open>Facts about sanitising\<close>

lemma sanitize_idem [simp]: "sanitize_message (sanitize_message m) = sanitize_message m"
  by (simp add: sanitize_message_def)

lemma sanitize_keys:
  "(k, v) \<in> set (additional_kwargs (sanitize_message m)) \<longleftrightarrow>
     (k, v) \<in> set (additional_kwargs m) \<and> \<not> provider_bound k"
  by (simp add: sanitize_message_def)

section \<open>Facts about output recovery\<close>

text \<open>A call that also collects the fragments of truncated answers and counts the calls.\<close>

definition counted ::
    "(model_message list \<Rightarrow> int option \<Rightarrow> 'w \<Rightarrow> ('x + model_message) \<times> 'w) \<Rightarrow>
      model_message list \<Rightarrow> int option \<Rightarrow> model_message list \<times> 'w \<Rightarrow>
      ('x + model_message) \<times> model_message list \<times> 'w" where
  "counted call ms ov s =
     (let (r, w') = call ms ov (snd s)
      in (r, (case r of Inl _ \<Rightarrow> fst s | Inr m \<Rightarrow> fst s @ [m]), w'))"

lemma output_loop_calls:
  "output_loop repr (counted call) lm ms st (rs, w) = (res, (rs', w')) \<Longrightarrow>
    length rs' \<le> length rs + Suc (calls_left lm st)"
proof (induction "calls_left lm st" arbitrary: st rs w rule: less_induct)
  case less
  obtain r w1 where call: "call (request_messages st) (output_override st) w = (r, w1)" by fastforce
  show ?case
  proof (cases r)
    case (Inl x)
    with less.prems call show ?thesis
      by (subst (asm) output_loop.simps) (auto simp: counted_def)
  next
    case (Inr m)
    let ?go = "\<lambda>st'. output_loop repr (counted call) lm ms st' (rs @ [m], w1)"
    have eq: "output_loop repr (counted call) lm ms st (rs, w) =
        (if \<not> recoverable (classify_model_response repr m)
         then (Inr (if fragments st = [] then m
                    else m\<lparr>mm_content := JStr (concat (fragments st @ [message_text repr m]))\<rparr>), (rs @ [m], w1))
         else if can_escalate lm st then ?go (escalate lm ms st)
         else if rec_count st \<ge> max 0 (continuation_max_attempts lm) then (Inl OutputRecoveryExhausted, (rs @ [m], w1))
         else ?go (continue_output repr ms m st))"
      by (subst output_loop.simps) (simp add: counted_def call Inr)
    show ?thesis
    proof (cases "recoverable (classify_model_response repr m)")
      case False
      with less.prems eq show ?thesis by auto
    next
      case trunc: True
      show ?thesis
      proof (cases "can_escalate lm st")
        case True
        with less.prems eq trunc have "?go (escalate lm ms st) = (res, (rs', w'))" by simp
        from less.hyps[OF calls_left_escalate[OF True] this] calls_left_escalate[OF True, of ms]
        show ?thesis by simp
      next
        case noesc: False
        show ?thesis
        proof (cases "rec_count st \<ge> max 0 (continuation_max_attempts lm)")
          case True
          with less.prems eq trunc noesc show ?thesis by auto
        next
          case False
          with less.prems eq trunc noesc have "?go (continue_output repr ms m st) = (res, (rs', w'))"
            by (simp only: if_True if_False not_True_eq_False simp_thms)
          from less.hyps[OF calls_left_continue[OF False] this]
            calls_left_continue[OF False, of repr ms m] show ?thesis by simp
        qed
      qed
    qed
  qed
qed

lemma output_loop_unfold:
  assumes "call (request_messages st) (output_override st) w = (Inr m, w1)"
  shows "output_loop repr (counted call) lm ms st (rs, w) =
    (if \<not> response_was_truncated repr m
     then (Inr (if fragments st = [] then m
                else m\<lparr>mm_content := JStr (concat (fragments st @ [message_text repr m]))\<rparr>), (rs @ [m], w1))
     else if can_escalate lm st
     then output_loop repr (counted call) lm ms (escalate lm ms st) (rs @ [m], w1)
     else if rec_count st \<ge> max 0 (continuation_max_attempts lm) then (Inl OutputRecoveryExhausted, (rs @ [m], w1))
     else output_loop repr (counted call) lm ms (continue_output repr ms m st) (rs @ [m], w1))"
  by (subst output_loop.simps) (simp add: counted_def assms classify_model_response_def)

lemma message_text_JStr [simp]: "message_text repr (m\<lparr>mm_content := JStr s\<rparr>) = s"
  by (simp add: message_text_def)

text \<open>The text of a recovered answer: the fragments so far and the new answers, without the one
  that was thrown away to retry with a larger limit.\<close>

lemma output_loop_text:
  "output_loop repr (counted call) lm ms st (rs, w) = (Inr res, (rs', w')) \<Longrightarrow>
    \<exists>new. rs' = rs @ new \<and> new \<noteq> [] \<and> list_all (response_was_truncated repr) (butlast new) \<and>
      \<not> response_was_truncated repr (last new) \<and>
      message_text repr res = concat (fragments st) @ concat (map (message_text repr)
        (if can_escalate lm st \<and> length new > 1 then tl new else new))"
proof (induction "calls_left lm st" arbitrary: st rs w rule: less_induct)
  case less
  obtain r w1 where call: "call (request_messages st) (output_override st) w = (r, w1)" by fastforce
  show ?case
  proof (cases r)
    case (Inl x)
    with less.prems call show ?thesis
      by (subst (asm) output_loop.simps) (auto simp: counted_def)
  next
    case (Inr m)
    note eq = output_loop_unfold[where call = call and repr = repr and lm = lm and ms = ms and rs = rs,
        OF call[unfolded Inr]]
    let ?go = "\<lambda>st'. output_loop repr (counted call) lm ms st' (rs @ [m], w1)"
    show ?thesis
    proof (cases "response_was_truncated repr m")
      case False
      with less.prems eq have res: "res = (if fragments st = [] then m
          else m\<lparr>mm_content := JStr (concat (fragments st @ [message_text repr m]))\<rparr>)" "rs' = rs @ [m]"
        by auto
      with False show ?thesis by (intro exI[of _ "[m]"]) auto
    next
      case trunc: True
      show ?thesis
      proof (cases "can_escalate lm st")
        case True
        with less.prems eq trunc have go: "?go (escalate lm ms st) = (Inr res, (rs', w'))" by simp
        have no: "\<not> can_escalate lm (escalate lm ms st)" by (simp add: can_escalate_def escalate_def)
        from less.hyps[OF calls_left_escalate[OF True] go] no obtain new where
          new: "rs' = rs @ m # new" "new \<noteq> []" "list_all (response_was_truncated repr) (butlast new)"
            "\<not> response_was_truncated repr (last new)"
            "message_text repr res = concat (fragments (escalate lm ms st)) @ concat (map (message_text repr) new)"
          by auto
        then show ?thesis using True trunc
          by (intro exI[of _ "m # new"]) (auto simp: escalate_def)
      next
        case noesc: False
        show ?thesis
        proof (cases "max 0 (continuation_max_attempts lm) \<le> rec_count st")
          case True
          with less.prems eq trunc noesc show ?thesis
            by (simp only: if_True if_False not_True_eq_False simp_thms) simp
        next
          case False
          with less.prems eq trunc noesc have go: "?go (continue_output repr ms m st) = (Inr res, (rs', w'))"
            by (simp only: if_True if_False not_True_eq_False simp_thms)
          have no: "\<not> can_escalate lm (continue_output repr ms m st)"
            using noesc by (simp add: can_escalate_def continue_output_def Let_def)
          from less.hyps[OF calls_left_continue[OF False] go] no obtain new where
            new: "rs' = rs @ m # new" "new \<noteq> []" "list_all (response_was_truncated repr) (butlast new)"
              "\<not> response_was_truncated repr (last new)"
              "message_text repr res = concat (fragments (continue_output repr ms m st)) @
                concat (map (message_text repr) new)"
            by auto
          then show ?thesis using noesc trunc
            by (intro exI[of _ "m # new"]) (auto simp: continue_output_def Let_def)
        qed
      qed
    qed
  qed
qed

section \<open>Properties\<close>


definition demo_error :: "int \<Rightarrow> provider_error" where
  "demo_error status = \<lparr>err_class = ExceptionClass, err_class_name = ''APIError'', err_module = ''x'',
     type_text = ''x'', err_text = ''boom'', status_code = Some status, err_code = [], err_type = []\<rparr>"

definition demo_invoke :: "string \<Rightarrow> model_message list \<Rightarrow> unit \<Rightarrow> (provider_error + string) \<times> unit" where
  "demo_invoke m ms w = (if m = ''b'' then (Inr ''ok'', w) else (Inl (demo_error 503), w))"



definition demo_answer :: "string \<Rightarrow> string \<Rightarrow> model_message" where
  "demo_answer text reason = \<lparr>is_ai = True, mm_content = JStr text, additional_kwargs = [],
     response_metadata = [(''finish_reason'', JStr reason)]\<rparr>"

definition demo_call :: "model_message list \<Rightarrow> int option \<Rightarrow> nat \<Rightarrow> (unit + model_message) \<times> nat" where
  "demo_call ms ov n = (Inr (if n = 0 then demo_answer ''ab'' ''length'' else demo_answer ''cd'' ''stop''), n + 1)"

definition demo_limits :: recovery_limits where
  "demo_limits = \<lparr>requested_output_tokens = 0, maximum_output_tokens = 0, escalation_enabled = False,
     continuation_max_attempts = 3\<rparr>"


text \<open>Any provider error whose \<open>type\<close> is \<open>invalid_request_error\<close>, whatever its status code
  and text, is classified as a prompt that is too long for a model without an Anthropic or Google
  prefix: the context-limit check accepts it before the authentication and invalid-request
  checks are reached.\<close>

lemma invalid_request_is_prompt_too_long:
  assumes "err_class e = ExceptionClass" "err_type e = ''invalid_request_error''"
    "\<not> starts_with (lower model) ''anthropic:''" "\<not> starts_with (lower model) ''gemini:''"
    "\<not> starts_with (lower model) ''google:''"
  shows "classify_model_error e model = PROMPT_TOO_LONG"
  using assms
  by (simp add: classify_model_error_def is_token_limit_exceeded_def check_openai_token_limit_def Let_def)

lemma invalid_request_is_prompt_too_long_witness:
  "classify_model_error ((demo_error 401)\<lparr>err_text := ''Invalid API key'', err_type := ''invalid_request_error''\<rparr>)
     ''openai:gpt-4.1'' = PROMPT_TOO_LONG"
proof -
  have "\<not> starts_with (lower ''openai:gpt-4.1'') ''anthropic:''" "\<not> starts_with (lower ''openai:gpt-4.1'') ''gemini:''"
    "\<not> starts_with (lower ''openai:gpt-4.1'') ''google:''" by code_simp+
  then show ?thesis by (intro invalid_request_is_prompt_too_long) (simp_all add: demo_error_def)
qed

end
