(* ===== verification/RunControl.thy ===== *)
theory RunControl
  imports Mailbox
begin

text \<open>
  Cancellation and the control inbox of a run (\<open>src/open_deep_research/runtime_control.py\<close> and
  \<open>src/open_deep_research/run_control.py\<close>).

  A \<open>scope\<close> is one \<open>CancellationScope\<close>. \<open>scope_run\<close> is given which of its tasks \<open>asyncio.wait\<close>
  found done, or that the wait itself was interrupted, and accounts for every task it owns. The
  control store is the two directories of command files; a command's payload is JSON.
\<close>

section \<open>The cancellation scope\<close>

datatype termination_reason =
  TrCompleted | TrExplicitCompletion | TrCompletionPolicySatisfied | TrNoToolCalls | TrMaxTurns
| TrBudgetExhausted | TrDeadlineExceeded | TrCancelRequested | TrToolProtocolViolation
| TrContextRecoveryExhausted | TrPermissionDenied | TrModelError | TrToolError | TrReportFailed
| TrPersistenceFailed | TrLeaseLost | TrInternalError

record permission_denial =
  pd_tool_call_id :: string
  pd_tool_name :: string
  pd_role :: string
  pd_reason_code :: string
  pd_detail :: "(string, json) dict"
  pd_turn :: "int option"
  pd_task_id :: "string option"

record completion_outcome =
  co_terminal_status :: string
  co_result_status :: string
  co_reason :: termination_reason
  co_stage :: string
  co_message :: string
  co_gaps :: "string list"
  co_budget :: "(string, json) dict"
  co_permission_denials :: "permission_denial list"

record scope =
  cancel_event :: bool
  cancel_reason :: string
  completion_claimed :: bool

definition new_scope :: scope where
  "new_scope = \<lparr>cancel_event = False, cancel_reason = ''cancel_requested'', completion_claimed = False\<rparr>"

record run_cancelled =
  rc_reason :: string
  rc_stage :: string

definition request_cancel :: "string \<Rightarrow> scope \<Rightarrow> bool \<times> scope" where
  "request_cancel reason s =
     (if completion_claimed s \<or> cancel_event s then (False, s)
      else (True, s\<lparr>cancel_reason := reason, cancel_event := True\<rparr>))"

definition checkpoint :: "string \<Rightarrow> scope \<Rightarrow> run_cancelled + unit" where
  "checkpoint stage s =
     (if cancel_event s then Inl \<lparr>rc_reason = cancel_reason s, rc_stage = stage\<rparr> else Inr ())"

definition claim_completion :: "string \<Rightarrow> scope \<Rightarrow> (run_cancelled + bool) \<times> scope" where
  "claim_completion stage s =
     (case checkpoint stage s of
        Inl e \<Rightarrow> (Inl e, s)
      | Inr _ \<Rightarrow>
          if completion_claimed s then (Inr False, s)
          else (Inr True, s\<lparr>completion_claimed := True\<rparr>))"

datatype owned_task = Work | Cancellation | Timeout

datatype task_fate = FinishedBefore | CancelledAndAwaited

text \<open>\<open>Inl\<close>: the exception that interrupted the wait. \<open>Inr done\<close>: the tasks found done.\<close>

datatype ('x, 'r) run_error = ScopeCancelled run_cancelled | TimedOut string | WaitInterrupted 'x | WorkRaised 'x

definition owned_tasks :: "bool \<Rightarrow> owned_task list" where
  "owned_tasks has_timeout = [Work, Cancellation] @ (if has_timeout then [Timeout] else [])"

definition scope_run ::
    "string \<Rightarrow> bool \<Rightarrow> 'x + owned_task list \<Rightarrow> 'x + 'r \<Rightarrow> scope \<Rightarrow>
      (('x, 'r) run_error + 'r) \<times> (owned_task \<times> task_fate) list" where
  "scope_run stage has_timeout wait work s =
     (case checkpoint stage s of
        Inl e \<Rightarrow> (Inl (ScopeCancelled e), [])
      | Inr _ \<Rightarrow>
     (case wait of
        Inl x \<Rightarrow> (Inl (WaitInterrupted x), map (\<lambda>t. (t, CancelledAndAwaited)) (owned_tasks has_timeout))
      | Inr finished \<Rightarrow>
          (let fates = map (\<lambda>t. (t, if t \<in> set finished then FinishedBefore else CancelledAndAwaited))
                 (owned_tasks has_timeout)
           in if Work \<in> set finished
              then (case work of Inl x \<Rightarrow> (Inl (WorkRaised x), fates) | Inr r \<Rightarrow> (Inr r, fates))
              else if Cancellation \<in> set finished
              then (Inl (ScopeCancelled \<lparr>rc_reason = cancel_reason s, rc_stage = stage\<rparr>), fates)
              else (Inl (TimedOut stage), fates))))"

datatype scope_event = RequestCancel string | ClaimCompletion string

fun scope_step :: "scope \<Rightarrow> scope_event \<Rightarrow> scope" where
  "scope_step s (RequestCancel reason) = snd (request_cancel reason s)"
| "scope_step s (ClaimCompletion stage) = snd (claim_completion stage s)"

text \<open>The events that were told that they won.\<close>

fun scope_wins :: "scope \<Rightarrow> scope_event \<Rightarrow> bool" where
  "scope_wins s (RequestCancel reason) = fst (request_cancel reason s)"
| "scope_wins s (ClaimCompletion stage) = (fst (claim_completion stage s) = Inr True)"

fun winners :: "scope \<Rightarrow> scope_event list \<Rightarrow> scope_event list" where
  "winners s [] = []"
| "winners s (e # es) = (if scope_wins s e then [e] else []) @ winners (scope_step s e) es"

definition decided :: "scope \<Rightarrow> bool" where
  "decided s \<longleftrightarrow> cancel_event s \<or> completion_claimed s"

lemma scope_decided: "decided s \<Longrightarrow> scope_step s e = s \<and> \<not> scope_wins s e"
  by (cases e) (auto simp: decided_def request_cancel_def claim_completion_def checkpoint_def
      split: if_splits)

lemma scope_undecided:
  "\<not> decided s \<Longrightarrow> scope_wins s e \<and> scope_step s e =
    (case e of RequestCancel reason \<Rightarrow> s\<lparr>cancel_reason := reason, cancel_event := True\<rparr>
     | ClaimCompletion _ \<Rightarrow> s\<lparr>completion_claimed := True\<rparr>)"
  by (cases e) (auto simp: decided_def request_cancel_def claim_completion_def checkpoint_def)

lemma decided_step: "decided (scope_step s e)"
  using scope_decided[of s e] scope_undecided[of s e]
  by (cases "decided s") (auto simp: decided_def split: scope_event.splits)

lemma decided_run: "decided s \<Longrightarrow> run scope_step s es = s \<and> winners s es = []"
  by (induction es) (auto simp: scope_decided)

lemma drained:
  "checkpoint stage s = Inr () \<Longrightarrow>
    map fst (snd (scope_run stage has_timeout wait work s)) = owned_tasks has_timeout"
  by (auto simp: scope_run_def Let_def comp_def split: sum.splits)

section \<open>The control inbox\<close>

datatype command_type = CmdCancel | CmdHumanAction | CmdFeedback

record control_command =
  command_id :: string
  cmd_run_id :: string
  cmd_type :: command_type
  cmd_payload :: "(string, json) dict"
  cmd_created_at :: seconds

record control_store =
  ctl_run_id :: string
  pending_dir :: "(string, control_command) dict"
  processed_dir :: "(string, control_command) dict"

datatype control_error = InvalidRunId | InvalidCommandId

definition open_store ::
    "string \<Rightarrow> (string, control_command) dict \<Rightarrow> (string, control_command) dict \<Rightarrow>
      control_error + control_store" where
  "open_store rid pending processed =
     (if rid = [] \<or> str_contains rid ''..'' \<or> CHR ''/'' \<in> set rid \<or> CHR 0x5C \<in> set rid
      then Inl InvalidRunId
      else Inr \<lparr>ctl_run_id = rid, pending_dir = pending, processed_dir = processed\<rparr>)"

definition enqueue ::
    "command_type \<Rightarrow> (string, json) dict \<Rightarrow> string option \<Rightarrow> string \<Rightarrow> seconds \<Rightarrow> control_store \<Rightarrow>
      (control_error + control_command) \<times> control_store" where
  "enqueue type body given new_id now st =
     (let i = (case given of None \<Rightarrow> new_id | Some g \<Rightarrow> if g = [] then new_id else g);
          cmd = \<lparr>command_id = i, cmd_run_id = ctl_run_id st, cmd_type = type, cmd_payload = body,
                 cmd_created_at = now\<rparr>
      in if \<not> valid_component i then (Inl InvalidCommandId, st)
         else (case dict_get (pending_dir st) i of
                 Some c \<Rightarrow> (Inr c, st)
               | None \<Rightarrow>
              (case dict_get (processed_dir st) i of
                 Some c \<Rightarrow> (Inr c, st)
               | None \<Rightarrow> (Inr cmd, st\<lparr>pending_dir := dict_set i cmd (pending_dir st)\<rparr>))))"

definition pending_commands :: "control_store \<Rightarrow> control_command list" where
  "pending_commands st =
     sort_key (\<lambda>c. (cmd_created_at c, command_id c)) (dict_values (pending_dir st))"

definition ack_command :: "control_command \<Rightarrow> control_store \<Rightarrow> control_store" where
  "ack_command c st =
     (case dict_get (pending_dir st) (command_id c) of
        None \<Rightarrow> st
      | Some stored \<Rightarrow> st\<lparr>pending_dir := AList.delete (command_id c) (pending_dir st),
          processed_dir := dict_set (command_id c) stored (processed_dir st)\<rparr>)"

datatype control_event =
  Enqueue command_type "(string, json) dict" "string option" string seconds
| Ack control_command

fun control_step :: "control_store \<Rightarrow> control_event \<Rightarrow> control_store" where
  "control_step st (Enqueue type body given new_id now) = snd (enqueue type body given new_id now st)"
| "control_step st (Ack c) = ack_command c st"

text \<open>A command is in one directory only, under its own identifier.\<close>

definition control_inv :: "control_store \<Rightarrow> bool" where
  "control_inv st \<longleftrightarrow>
     (\<forall>i c. dict_get (pending_dir st) i = Some c \<longrightarrow> command_id c = i \<and> dict_get (processed_dir st) i = None)"

definition queued :: "string \<Rightarrow> control_command \<Rightarrow> control_store \<Rightarrow> bool" where
  "queued i c st \<longleftrightarrow> dict_get (pending_dir st) i = Some c \<and> dict_get (processed_dir st) i = None"

definition handled :: "string \<Rightarrow> control_command \<Rightarrow> control_store \<Rightarrow> bool" where
  "handled i c st \<longleftrightarrow> dict_get (pending_dir st) i = None \<and> dict_get (processed_dir st) i = Some c"

lemma enqueue_effect:
  "snd (enqueue type body given new_id now st) = st \<or>
   (\<exists>j cmd. command_id cmd = j \<and> dict_get (pending_dir st) j = None \<and> dict_get (processed_dir st) j = None \<and>
      snd (enqueue type body given new_id now st) = st\<lparr>pending_dir := dict_set j cmd (pending_dir st)\<rparr>)"
proof -
  let ?i = "case given of None \<Rightarrow> new_id | Some g \<Rightarrow> if g = [] then new_id else g"
  let ?cmd = "\<lparr>command_id = ?i, cmd_run_id = ctl_run_id st, cmd_type = type, cmd_payload = body, cmd_created_at = now\<rparr>"
  have "snd (enqueue type body given new_id now st) = st \<or>
      dict_get (pending_dir st) ?i = None \<and> dict_get (processed_dir st) ?i = None \<and>
      snd (enqueue type body given new_id now st) = st\<lparr>pending_dir := dict_set ?i ?cmd (pending_dir st)\<rparr>"
    unfolding enqueue_def Let_def by (simp split: option.split del: split_paired_All split_paired_Ex)
  moreover have "command_id ?cmd = ?i" by simp
  ultimately show ?thesis by blast
qed

lemma control_step_cases:
  obtains (same) "control_step st e = st"
  | (queue) j cmd where "command_id cmd = j" "dict_get (pending_dir st) j = None" "dict_get (processed_dir st) j = None"
      "control_step st e = st\<lparr>pending_dir := dict_set j cmd (pending_dir st)\<rparr>"
  | (acked) j cmd where "dict_get (pending_dir st) j = Some cmd"
      "control_step st e = st\<lparr>pending_dir := AList.delete j (pending_dir st), processed_dir := dict_set j cmd (processed_dir st)\<rparr>"
proof (cases e)
  case (Enqueue type body given new_id now)
  with enqueue_effect[of type body given new_id now st] same queue show ?thesis by auto
next
  case (Ack c)
  with same acked show ?thesis by (cases "dict_get (pending_dir st) (command_id c)") (auto simp: ack_command_def)
qed

lemma control_step_inv: "control_inv st \<Longrightarrow> control_inv (control_step st e)"
  by (cases rule: control_step_cases[of st e]) (auto simp: control_inv_def delete_conv)

lemma handled_step: "handled i c st \<Longrightarrow> handled i c (control_step st e)"
  by (cases rule: control_step_cases[of st e]) (auto simp: handled_def delete_conv)

lemma queued_step: "queued i c st \<Longrightarrow> queued i c (control_step st e) \<or> handled i c (control_step st e)"
  by (cases rule: control_step_cases[of st e]) (auto simp: queued_def handled_def delete_conv)

interpretation control_handled: machine control_step "handled i c" "\<lambda>_. True" for i c
  by unfold_locales (rule handled_step)

interpretation control_stored: machine control_step "\<lambda>st. queued i c st \<or> handled i c st" "\<lambda>_. True" for i c
  by unfold_locales (auto dest: queued_step handled_step)

section \<open>Properties\<close>

text \<open>C39. Completion and cancellation exclude each other: over any sequence of cancellation
  requests and completion claims on a new scope exactly the first event wins; the scope ends
  cancelled with that request's reason, or completed and never cancelled.\<close>

theorem first_outcome_wins:
  assumes "es \<noteq> []"
  shows "winners new_scope es = [hd es] \<and>
    (case hd es of
       RequestCancel reason \<Rightarrow> run scope_step new_scope es =
         \<lparr>cancel_event = True, cancel_reason = reason, completion_claimed = False\<rparr>
     | ClaimCompletion _ \<Rightarrow> run scope_step new_scope es =
         \<lparr>cancel_event = False, cancel_reason = ''cancel_requested'', completion_claimed = True\<rparr>)"
proof -
  obtain e rest where es: "es = e # rest" using assms by (cases es) auto
  have new: "\<not> decided new_scope" by (simp add: decided_def new_scope_def)
  have "run scope_step new_scope es = scope_step new_scope e" "winners new_scope es = [e]"
    using decided_run[OF decided_step[of new_scope e], of rest] scope_undecided[OF new, of e]
    by (simp_all add: es)
  with scope_undecided[OF new, of e] show ?thesis
    by (cases e) (simp_all add: es new_scope_def)
qed

theorem first_outcome_wins_witness:
  "winners new_scope [ClaimCompletion ''finalize'', RequestCancel ''user''] = [ClaimCompletion ''finalize'']"
  using first_outcome_wins[of "[ClaimCompletion ''finalize'', RequestCancel ''user'']"] by simp

text \<open>Commands are handled at most once: once a command is stored, every sequence of enqueues
  (with whatever identifiers and payloads) and acknowledgements leaves it stored unchanged, either
  pending or processed but not both, and enqueueing its identifier again returns that command; a
  processed command never becomes pending again.\<close>

lemma command_stored_once:
  assumes "queued i c st \<or> handled i c st" "valid_component i"
  shows "(queued i c (run control_step st es) \<or> handled i c (run control_step st es)) \<and>
    fst (enqueue type body (Some i) new_id now (run control_step st es)) = Inr c \<and>
    (handled i c st \<longrightarrow> handled i c (run control_step st es))"
proof -
  have stored: "queued i c (run control_step st es) \<or> handled i c (run control_step st es)"
    using control_stored.inv_run[of i c st es] assms(1) by (simp add: list_all_iff)
  moreover have "i \<noteq> []" using assms(2) by (auto simp: valid_component_def safe_component_def)
  then have "fst (enqueue type body (Some i) new_id now (run control_step st es)) = Inr c"
    using stored assms(2) by (auto simp: enqueue_def queued_def handled_def Let_def)
  moreover have "handled i c st \<longrightarrow> handled i c (run control_step st es)"
    using control_handled.inv_run[of i c st es] by (simp add: list_all_iff)
  ultimately show ?thesis by blast
qed

definition demo_command :: control_command where
  "demo_command = \<lparr>command_id = ''c1'', cmd_run_id = ''run'', cmd_type = CmdCancel, cmd_payload = [],
     cmd_created_at = 0\<rparr>"

lemma command_stored_once_witness:
  "fst (enqueue CmdFeedback [] (Some ''c1'') ''x'' 9
     (run control_step \<lparr>ctl_run_id = ''run'', pending_dir = [(''c1'', demo_command)], processed_dir = []\<rparr>
       [Ack demo_command, Enqueue CmdCancel [] (Some ''c1'') ''y'' 5])) = Inr demo_command"
proof -
  have "valid_component ''c1''" by code_simp
  moreover have "queued ''c1'' demo_command
      \<lparr>ctl_run_id = ''run'', pending_dir = [(''c1'', demo_command)], processed_dir = []\<rparr>"
    by (simp add: queued_def)
  ultimately show ?thesis using command_stored_once[of "''c1''" demo_command] by blast
qed

end
