(* ===== verification/Approvals.thy ===== *)
theory Approvals
  imports Mailbox
begin

text \<open>
  Security approvals of a run (\<open>src/open_deep_research/sandbox/approvals.py\<close>).

  \<open>approval_index\<close> is the index file: its version and the approvals by identifier. Every method
  is one locked read-modify-write of the file; an exception leaves the file as it was. The
  fingerprint of a target (a SHA-256 of canonical JSON), new identifiers and clock readings are
  arguments.
\<close>

section \<open>Data\<close>

datatype approval_kind = Network | ToolEffect | Filesystem | Command | McpOauth

datatype approval_decision = AllowOnce | AllowRun | Deny

datatype approval_status = ApPending | ApResolved | ApExpired | ApConsumed

record security_approval =
  ap_run_id :: string
  ap_task_id :: string
  ap_fence_token :: int
  ap_kind :: approval_kind
  ap_capability :: string
  ap_target :: "(string, json) dict"
  ap_fingerprint :: string
  ap_status :: approval_status
  ap_decision :: "approval_decision option"
  ap_reason :: string
  ap_requested_at :: seconds
  ap_expires_at :: seconds
  ap_resolved_at :: "seconds option"
  ap_resolved_by :: "string option"
  ap_operation_id :: string
  ap_version :: int

record approval_index =
  ix_version :: int
  approvals :: "(string, security_approval) dict"

definition empty_index :: approval_index where
  "empty_index = \<lparr>ix_version = 0, approvals = []\<rparr>"

datatype approval_error =
  OperationMismatch | RunLimitExceeded | PendingLimitExceeded | UnknownApproval string | StaleFence
| AlreadyResolved | ApprovalTimeout | NotUsable | NotResolved | InvalidFence
| InvalidTaskId mailbox_error

section \<open>Operations\<close>

definition update_approval :: "string \<Rightarrow> security_approval \<Rightarrow> approval_index \<Rightarrow> approval_index" where
  "update_approval i a ix =
     ix\<lparr>approvals := dict_set i a (approvals ix), ix_version := ix_version ix + 1\<rparr>"

definition is_pending :: "security_approval \<Rightarrow> bool" where
  "is_pending a \<longleftrightarrow> ap_status a = ApPending"

definition pending_count :: "approval_index \<Rightarrow> nat" where
  "pending_count ix = length (filter is_pending (dict_values (approvals ix)))"

record approval_request =
  rq_task_id :: string
  rq_fence_token :: int
  rq_kind :: approval_kind
  rq_capability :: string
  rq_target :: "(string, json) dict"
  rq_operation_id :: string
  rq_expires_at :: seconds

definition request_approval ::
    "(approval_kind \<Rightarrow> string \<Rightarrow> (string, json) dict \<Rightarrow> string) \<Rightarrow> string \<Rightarrow> string \<Rightarrow> seconds \<Rightarrow>
      approval_request \<Rightarrow> approval_index \<Rightarrow> (approval_error + security_approval) \<times> approval_index" where
  "request_approval fingerprint run_id new_id now rq ix =
     (case validate_component (rq_task_id rq) ''task_id'' of
        Inl e \<Rightarrow> (Inl (InvalidTaskId e), ix)
      | Inr task \<Rightarrow>
          (let fp = fingerprint (rq_kind rq) (rq_capability rq) (rq_target rq) in
           case List.find (\<lambda>a. ap_operation_id a = rq_operation_id rq) (dict_values (approvals ix)) of
             Some a \<Rightarrow>
               if ap_fence_token a \<noteq> rq_fence_token rq \<or> ap_task_id a \<noteq> task \<or> ap_fingerprint a \<noteq> fp \<or>
                  ap_kind a \<noteq> rq_kind rq \<or> ap_capability a \<noteq> rq_capability rq
               then (Inl OperationMismatch, ix) else (Inr a, ix)
           | None \<Rightarrow>
               if length (approvals ix) \<ge> 1000 then (Inl RunLimitExceeded, ix)
               else if pending_count ix \<ge> 100 then (Inl PendingLimitExceeded, ix)
               else if rq_fence_token rq < 1 then (Inl InvalidFence, ix)
               else (let a = \<lparr>ap_run_id = run_id, ap_task_id = task, ap_fence_token = rq_fence_token rq,
                           ap_kind = rq_kind rq, ap_capability = rq_capability rq, ap_target = rq_target rq,
                           ap_fingerprint = fp, ap_status = ApPending, ap_decision = None, ap_reason = [],
                           ap_requested_at = now, ap_expires_at = rq_expires_at rq, ap_resolved_at = None,
                           ap_resolved_by = None, ap_operation_id = rq_operation_id rq, ap_version = 1\<rparr>
                     in (Inr a, update_approval new_id a ix))))"

definition stale_pending :: "seconds \<Rightarrow> security_approval \<Rightarrow> bool" where
  "stale_pending now a \<longleftrightarrow> is_pending a \<and> ap_expires_at a \<le> now"

definition expire :: "seconds \<Rightarrow> security_approval \<Rightarrow> security_approval" where
  "expire now a =
     (if stale_pending now a
      then a\<lparr>ap_status := ApExpired, ap_decision := Some Deny, ap_resolved_at := Some now,
             ap_version := ap_version a + 1\<rparr> else a)"

text \<open>An update of every approval that bumps the index version when one changes.\<close>

definition update_all ::
    "(security_approval \<Rightarrow> bool) \<Rightarrow> (security_approval \<Rightarrow> security_approval) \<Rightarrow> approval_index \<Rightarrow> approval_index" where
  "update_all hit f ix =
     (if list_ex hit (dict_values (approvals ix))
      then \<lparr>ix_version = ix_version ix + 1, approvals = map (\<lambda>(i, a). (i, f a)) (approvals ix)\<rparr>
      else ix)"

definition list_approvals ::
    "approval_status option \<Rightarrow> seconds \<Rightarrow> approval_index \<Rightarrow>
      (int \<times> (string \<times> security_approval) list) \<times> approval_index" where
  "list_approvals status now ix =
     (let ix' = update_all (stale_pending now) (expire now) ix;
          items = filter (\<lambda>(i, a). status = None \<or> status = Some (ap_status a)) (approvals ix')
      in ((ix_version ix', sort_key (\<lambda>(i, a). (ap_requested_at a, i)) items), ix'))"

definition resolve_approval ::
    "string \<Rightarrow> approval_decision \<Rightarrow> string \<Rightarrow> string \<Rightarrow> int \<Rightarrow> seconds \<Rightarrow> seconds \<Rightarrow> approval_index \<Rightarrow>
      (approval_error + security_approval) \<times> approval_index" where
  "resolve_approval i decision actor reason fence now later ix =
     (case dict_get (approvals ix) i of
        None \<Rightarrow> (Inl (UnknownApproval i), ix)
      | Some a \<Rightarrow>
          if ap_fence_token a \<noteq> fence then (Inl StaleFence, ix)
          else if \<not> is_pending a
          then (if ap_decision a = Some decision then (Inr a, ix) else (Inl AlreadyResolved, ix))
          else if ap_expires_at a \<le> now then (Inl ApprovalTimeout, ix)
          else (let a' = a\<lparr>ap_status := ApResolved, ap_decision := Some decision,
                      ap_reason := take 1000 reason, ap_resolved_by := Some actor,
                      ap_resolved_at := Some later, ap_version := ap_version a + 1\<rparr>
                in (Inr a', update_approval i a' ix)))"

definition consume_approval ::
    "string \<Rightarrow> string \<Rightarrow> int \<Rightarrow> approval_index \<Rightarrow>
      (approval_error + security_approval) \<times> approval_index" where
  "consume_approval i op fence ix =
     (case dict_get (approvals ix) i of
        None \<Rightarrow> (Inl (UnknownApproval i), ix)
      | Some a \<Rightarrow>
          if ap_fence_token a \<noteq> fence then (Inl StaleFence, ix)
          else if ap_decision a = Some Deny \<or> ap_status a = ApExpired \<or> ap_status a = ApConsumed
          then (Inl NotUsable, ix)
          else if ap_decision a = Some AllowOnce
          then (if ap_operation_id a \<noteq> op then (Inl OperationMismatch, ix)
                else (let a' = a\<lparr>ap_status := ApConsumed, ap_version := ap_version a + 1\<rparr>
                      in (Inr a', update_approval i a' ix)))
          else if ap_decision a \<noteq> Some AllowRun then (Inl NotResolved, ix)
          else (Inr a, ix))"

definition deny_one :: "string \<Rightarrow> string \<Rightarrow> seconds \<Rightarrow> security_approval \<Rightarrow> security_approval" where
  "deny_one actor reason now a =
     (if is_pending a
      then a\<lparr>ap_status := ApResolved, ap_decision := Some Deny, ap_reason := take 1000 reason,
             ap_resolved_by := Some actor, ap_resolved_at := Some now, ap_version := ap_version a + 1\<rparr>
      else a)"

definition deny_pending :: "string \<Rightarrow> string \<Rightarrow> seconds \<Rightarrow> approval_index \<Rightarrow> nat \<times> approval_index" where
  "deny_pending actor reason now ix =
     (pending_count ix, update_all is_pending (deny_one actor reason now) ix)"

text \<open>\<open>wait_for_change\<close> as a sequence of polls: each entry is the wall clock of the listing, the
  monotonic clock after it and what other processes do to the index before it.\<close>

fun wait_for_change ::
    "int \<Rightarrow> seconds \<Rightarrow> (seconds \<times> seconds \<times> (approval_index \<Rightarrow> approval_index)) list \<Rightarrow>
      approval_index \<Rightarrow> (int \<times> (string \<times> security_approval) list) option \<times> approval_index" where
  "wait_for_change after deadline [] ix = (None, ix)"
| "wait_for_change after deadline ((now, mtime, others) # polls) ix =
     (let (r, ix') = list_approvals None now (others ix) in
      if fst r > after \<or> mtime \<ge> deadline then (Some r, ix')
      else wait_for_change after deadline polls ix')"

section \<open>Sequences of operations\<close>

datatype approval_event =
  Request string seconds approval_request
| ListAll "approval_status option" seconds
| Resolve string approval_decision string string int seconds seconds
| Consume string string int
| DenyPending string string seconds

fun approval_step ::
    "(approval_kind \<Rightarrow> string \<Rightarrow> (string, json) dict \<Rightarrow> string) \<Rightarrow> string \<Rightarrow>
      approval_index \<Rightarrow> approval_event \<Rightarrow> approval_index" where
  "approval_step fp rid ix (Request i now rq) = snd (request_approval fp rid i now rq ix)"
| "approval_step fp rid ix (ListAll st now) = snd (list_approvals st now ix)"
| "approval_step fp rid ix (Resolve i d actor reason fence now later) =
     snd (resolve_approval i d actor reason fence now later ix)"
| "approval_step fp rid ix (Consume i op fence) = snd (consume_approval i op fence ix)"
| "approval_step fp rid ix (DenyPending actor reason now) = snd (deny_pending actor reason now ix)"

text \<open>The operations that were let through on the approval \<open>i\<close>.\<close>

fun uses_of :: "string \<Rightarrow> approval_index \<Rightarrow> approval_event \<Rightarrow> string list" where
  "uses_of i ix (Consume j op fence) =
     (if j = i then (case fst (consume_approval i op fence ix) of Inl _ \<Rightarrow> [] | Inr _ \<Rightarrow> [op]) else [])"
| "uses_of i ix _ = []"

fun uses ::
    "(approval_kind \<Rightarrow> string \<Rightarrow> (string, json) dict \<Rightarrow> string) \<Rightarrow> string \<Rightarrow> string \<Rightarrow>
      approval_index \<Rightarrow> approval_event list \<Rightarrow> string list" where
  "uses fp rid i ix [] = []"
| "uses fp rid i ix (e # es) = uses_of i ix e @ uses fp rid i (approval_step fp rid ix e) es"

text \<open>Identifiers of new approvals are new (they are random UUIDs).\<close>

fun fresh_ids ::
    "(approval_kind \<Rightarrow> string \<Rightarrow> (string, json) dict \<Rightarrow> string) \<Rightarrow> string \<Rightarrow>
      approval_index \<Rightarrow> approval_event list \<Rightarrow> bool" where
  "fresh_ids fp rid ix [] = True"
| "fresh_ids fp rid ix (e # es) =
     ((case e of Request i now rq \<Rightarrow> dict_get (approvals ix) i = None | _ \<Rightarrow> True) \<and>
      fresh_ids fp rid (approval_step fp rid ix e) es)"

section \<open>How an approval evolves\<close>

text \<open>A decided approval keeps its decision and operation; a used-up one stays used up.\<close>

definition evolves :: "security_approval \<Rightarrow> security_approval \<Rightarrow> bool" where
  "evolves a b \<longleftrightarrow> ap_operation_id b = ap_operation_id a \<and> ap_fence_token b = ap_fence_token a \<and>
     (ap_status a \<noteq> ApPending \<longrightarrow> ap_decision b = ap_decision a) \<and>
     (ap_status a \<noteq> ApPending \<longrightarrow> ap_status b \<noteq> ApPending) \<and>
     (ap_status a \<in> {ApConsumed, ApExpired} \<longrightarrow> ap_status b = ap_status a)"

lemma evolves_refl [simp]: "evolves a a"
  by (simp add: evolves_def)

lemma update_all_get:
  assumes "\<And>a. \<not> hit a \<Longrightarrow> f a = a"
  shows "dict_get (approvals (update_all hit f ix)) i = map_option f (dict_get (approvals ix) i)"
proof (cases "list_ex hit (dict_values (approvals ix))")
  case True
  have "dict_get (map (\<lambda>(i, a). (i, f a)) d) i = map_option f (dict_get d i)" for d :: "(string, security_approval) dict"
    by (induction d) auto
  with True show ?thesis by (simp add: update_all_def)
next
  case False
  have "f a = a" if "dict_get (approvals ix) i = Some a" for a
  proof -
    from dict_get_in[OF that] have "snd (i, a) \<in> snd ` set (approvals ix)" by (rule imageI)
    then have "a \<in> set (dict_values (approvals ix))" by (simp add: dict_values_def)
    with False have "\<not> hit a" by (auto simp: list_ex_iff)
    then show ?thesis by (rule assms)
  qed
  with False show ?thesis by (cases "dict_get (approvals ix) i") (simp_all add: update_all_def)
qed

lemma update_approval_get [simp]:
  "dict_get (approvals (update_approval i a ix)) j = (if j = i then Some a else dict_get (approvals ix) j)"
  by (simp add: update_approval_def)

lemma list_approvals_get:
  "dict_get (approvals (snd (list_approvals st now ix))) i = map_option (expire now) (dict_get (approvals ix) i)"
  by (simp add: list_approvals_def Let_def update_all_get expire_def)

lemma deny_pending_get:
  "dict_get (approvals (snd (deny_pending actor reason now ix))) i =
     map_option (deny_one actor reason now) (dict_get (approvals ix) i)"
  by (simp add: deny_pending_def update_all_get deny_one_def)

lemma step_evolves:
  assumes "dict_get (approvals ix) i = Some a"
    "case e of Request j now rq \<Rightarrow> dict_get (approvals ix) j = None | _ \<Rightarrow> True"
  shows "\<exists>b. dict_get (approvals (approval_step fp rid ix e)) i = Some b \<and> evolves a b"
proof (cases e)
  case (Request j now rq)
  with assms show ?thesis
    by (auto simp: request_approval_def Let_def split: sum.splits option.splits)
next
  case (ListAll st now)
  with assms show ?thesis
    by (auto simp: list_approvals_get expire_def stale_pending_def is_pending_def evolves_def)
next
  case (Resolve j d actor reason fence now later)
  with assms show ?thesis
    by (auto simp: resolve_approval_def Let_def is_pending_def evolves_def split: option.splits)
next
  case (Consume j op fence)
  with assms show ?thesis
    by (auto simp: consume_approval_def Let_def evolves_def split: option.splits)
next
  case (DenyPending actor reason now)
  with assms show ?thesis
    by (auto simp: deny_pending_get deny_one_def is_pending_def evolves_def)
qed

lemma consume_ok:
  assumes "fst (consume_approval i op fence ix) = Inr b" "dict_get (approvals ix) i = Some a"
  shows "ap_status a \<noteq> ApExpired \<and> ap_status a \<noteq> ApConsumed \<and>
    (ap_decision a = Some AllowRun \<or> ap_decision a = Some AllowOnce \<and> ap_operation_id a = op \<and>
      dict_get (approvals (snd (consume_approval i op fence ix))) i =
        Some (a\<lparr>ap_status := ApConsumed, ap_version := ap_version a + 1\<rparr>))"
proof -
  have fence: "ap_fence_token a = fence"
    by (rule ccontr) (use assms in \<open>simp add: consume_approval_def\<close>)
  have usable: "\<not> (ap_decision a = Some Deny \<or> ap_status a = ApExpired \<or> ap_status a = ApConsumed)"
    by (rule notI) (use assms fence in \<open>simp add: consume_approval_def\<close>)
  note c = consume_approval_def[of i op fence ix, unfolded assms(2) option.case if_not_P[OF usable]]
  show ?thesis
  proof (cases "ap_decision a = Some AllowOnce")
    case True
    have "ap_operation_id a = op"
      using assms(1) fence True unfolding c by (cases "ap_operation_id a = op") simp_all
    then have "dict_get (approvals (snd (consume_approval i op fence ix))) i =
        Some (a\<lparr>ap_status := ApConsumed, ap_version := ap_version a + 1\<rparr>)"
      unfolding c using fence True by (simp add: Let_def)
    with usable True \<open>ap_operation_id a = op\<close> show ?thesis by blast
  next
    case False
    have "ap_decision a = Some AllowRun"
      using assms(1) fence False unfolding c by (cases "ap_decision a = Some AllowRun") simp_all
    with usable show ?thesis by blast
  qed
qed

lemma uses_denied:
  assumes "fresh_ids fp rid ix es" "dict_get (approvals ix) i = Some a" "ap_status a \<noteq> ApPending"
    "ap_decision a = Some Deny \<or> ap_status a \<in> {ApExpired, ApConsumed}"
  shows "uses fp rid i ix es = []"
  using assms
proof (induction es arbitrary: ix a)
  case (Cons e es)
  from Cons.prems(1,2) obtain b where b: "dict_get (approvals (approval_step fp rid ix e)) i = Some b"
    "evolves a b"
    using step_evolves[of ix i a e fp rid] by auto
  have "uses_of i ix e = []"
  proof (cases e)
    case (Consume j op fence)
    show ?thesis
    proof (cases "fst (consume_approval i op fence ix)")
      case (Inr r)
      from consume_ok[OF this Cons.prems(2)] Cons.prems(4) show ?thesis by auto
    qed (use Consume in simp)
  qed simp_all
  moreover have "uses fp rid i (approval_step fp rid ix e) es = []"
  proof (rule Cons.IH[OF _ b(1)])
    show "fresh_ids fp rid (approval_step fp rid ix e) es" using Cons.prems(1) by simp
  qed (use b(2) Cons.prems in \<open>auto simp: evolves_def\<close>)
  ultimately show ?case by simp
qed simp

lemma uses_once:
  assumes "fresh_ids fp rid ix es" "dict_get (approvals ix) i = Some a" "ap_status a \<noteq> ApPending"
    "ap_decision a = Some AllowOnce"
  shows "uses fp rid i ix es = [] \<or> uses fp rid i ix es = [ap_operation_id a]"
  using assms
proof (induction es arbitrary: ix a)
  case (Cons e es)
  let ?ix = "approval_step fp rid ix e"
  from Cons.prems(1,2) obtain b where b: "dict_get (approvals ?ix) i = Some b" "evolves a b"
    using step_evolves[of ix i a e fp rid] by auto
  have fresh: "fresh_ids fp rid ?ix es" using Cons.prems(1) by simp
  have rest: "uses fp rid i ?ix es = [] \<or> uses fp rid i ?ix es = [ap_operation_id a]"
    using Cons.IH[OF fresh b(1)] b(2) Cons.prems by (auto simp: evolves_def)
  show ?case
  proof (cases "uses_of i ix e = []")
    case True
    with rest show ?thesis by simp
  next
    case False
    then obtain op fence r where e: "e = Consume i op fence" "fst (consume_approval i op fence ix) = Inr r"
      by (cases e) (auto split: if_splits sum.splits)
    from consume_ok[OF e(2) Cons.prems(2)] Cons.prems(4) have c: "ap_operation_id a = op"
      "dict_get (approvals ?ix) i = Some (a\<lparr>ap_status := ApConsumed, ap_version := ap_version a + 1\<rparr>)"
      by (auto simp: e(1))
    have "uses fp rid i ?ix es = []" by (rule uses_denied[OF fresh c(2)]) simp_all
    with e c show ?thesis by simp
  qed
qed simp

section \<open>Bounds and the index version\<close>

definition index_bounded :: "approval_index \<Rightarrow> bool" where
  "index_bounded ix \<longleftrightarrow> dict_ok (approvals ix) \<and> length (approvals ix) \<le> 1000 \<and> pending_count ix \<le> 100"

lemma index_bounded_update:
  assumes "index_bounded ix" "dict_get (approvals ix) i = Some a" "is_pending b \<longrightarrow> is_pending a"
  shows "index_bounded (update_approval i b ix)"
proof -
  from assms have "pending_count (update_approval i b ix) + of_bool (is_pending a) =
      pending_count ix + of_bool (is_pending b)"
    unfolding pending_count_def update_approval_def
    by (simp add: filter_length_dict_set_old index_bounded_def)
  then have "pending_count (update_approval i b ix) \<le> pending_count ix"
    using assms(3) by (cases "is_pending a"; cases "is_pending b") auto
  moreover have "length (approvals (update_approval i b ix)) = length (approvals ix)"
    using assms(2) by (simp add: update_approval_def dict_set_length)
  moreover have "dict_ok (approvals (update_approval i b ix))"
    using assms(1) by (simp add: update_approval_def index_bounded_def)
  ultimately show ?thesis using assms(1) by (simp add: index_bounded_def)
qed

lemma filter_length_map:
  "(\<And>a. P (f a) \<Longrightarrow> P a) \<Longrightarrow> length (filter P (map f xs)) \<le> length (filter P xs)"
  by (induction xs) (auto intro: le_SucI)

lemma index_bounded_update_all:
  assumes "index_bounded ix" "\<And>a. is_pending (f a) \<Longrightarrow> is_pending a"
  shows "index_bounded (update_all hit f ix)"
proof -
  have "dict_ok (map (\<lambda>(i, a). (i, f a)) d) = dict_ok d" and
    "dict_values (map (\<lambda>(i, a). (i, f a)) d) = map f (dict_values d)" for d :: "(string, security_approval) dict"
    by (simp_all add: dict_values_def dict_ok_def comp_def case_prod_unfold)
  with assms filter_length_map[of is_pending f] show ?thesis
    by (auto simp: index_bounded_def update_all_def pending_count_def intro: order_trans)
qed

lemma index_bounded_request:
  assumes "index_bounded ix"
  shows "index_bounded (snd (request_approval fp rid i now rq ix))"
proof -
  have new: "index_bounded (update_approval i a ix)"
    if "\<not> 1000 \<le> length (approvals ix)" "\<not> 100 \<le> pending_count ix" for a
  proof (cases "dict_get (approvals ix) i")
    case None
    then have "pending_count (update_approval i a ix) \<le> pending_count ix + 1"
      by (simp add: pending_count_def update_approval_def dict_set_fresh dict_values_def)
    with None that assms show ?thesis
      by (simp add: index_bounded_def update_approval_def dict_set_length)
  next
    case (Some b)
    from assms have "pending_count (update_approval i a ix) + of_bool (is_pending b) =
        pending_count ix + of_bool (is_pending a)"
      unfolding pending_count_def update_approval_def
      by (simp add: filter_length_dict_set_old Some index_bounded_def)
    then have "pending_count (update_approval i a ix) \<le> pending_count ix + 1"
      by (cases "is_pending a"; cases "is_pending b") auto
    moreover have "length (approvals (update_approval i a ix)) = length (approvals ix)"
      using Some by (simp add: update_approval_def dict_set_length)
    moreover have "dict_ok (approvals (update_approval i a ix))"
      using assms by (simp add: update_approval_def index_bounded_def)
    ultimately show ?thesis using that by (simp add: index_bounded_def)
  qed
  then show ?thesis using assms
    by (auto simp: request_approval_def Let_def split: sum.splits option.splits)
qed

lemma approval_step_bounded:
  assumes "index_bounded ix"
  shows "index_bounded (approval_step fp rid ix e)"
proof (cases e)
  case (Resolve i d actor reason fence now later)
  with assms show ?thesis
    by (auto simp: resolve_approval_def Let_def is_pending_def intro!: index_bounded_update split: option.splits)
next
  case (Consume i op fence)
  with assms show ?thesis
    by (auto simp: consume_approval_def Let_def is_pending_def intro!: index_bounded_update split: option.splits)
next
  case (ListAll st now)
  with assms show ?thesis
    by (auto simp: list_approvals_def Let_def expire_def stale_pending_def is_pending_def
        intro!: index_bounded_update_all split: if_splits)
next
  case (DenyPending actor reason now)
  with assms show ?thesis
    by (auto simp: deny_pending_def deny_one_def is_pending_def
        intro!: index_bounded_update_all split: if_splits)
qed (use assms in \<open>simp add: index_bounded_request\<close>)

lemma approval_step_version: "ix_version ix \<le> ix_version (approval_step fp rid ix e)"
  by (cases e) (auto simp: request_approval_def list_approvals_def resolve_approval_def
      consume_approval_def deny_pending_def update_approval_def update_all_def Let_def
      split: sum.splits option.splits)

interpretation approvals: ranked_machine "approval_step fp rid" index_bounded "\<lambda>_. True" ix_version
  for fp rid
  by unfold_locales (simp_all add: approval_step_bounded approval_step_version)

section \<open>Properties\<close>

text \<open>C31. A decision is binding: along every sequence of requests, listings, decisions, uses and
  expirations, an approval granted once lets at most one use through, and only for the operation
  it was requested for; one that was denied, expired or already consumed lets none through.\<close>

theorem approval_decision_binding:
  assumes "fresh_ids fp rid ix es" "dict_get (approvals ix) i = Some a" "ap_status a \<noteq> ApPending"
  shows "(ap_decision a = Some AllowOnce \<longrightarrow>
      uses fp rid i ix es = [] \<or> uses fp rid i ix es = [ap_operation_id a]) \<and>
    (ap_decision a = Some Deny \<or> ap_status a \<in> {ApExpired, ApConsumed} \<longrightarrow> uses fp rid i ix es = [])"
  using uses_once[OF assms] uses_denied[OF assms] by blast

definition demo_approval_request :: approval_request where
  "demo_approval_request = \<lparr>rq_task_id = ''t1'', rq_fence_token = 1, rq_kind = Network, rq_capability = ''net'',
     rq_target = [], rq_operation_id = ''op'', rq_expires_at = 100\<rparr>"

definition demo_index :: approval_index where
  "demo_index = run (approval_step (\<lambda>k c t. ''fp'') ''run'') empty_index
     [Request ''a1'' 0 demo_approval_request, Resolve ''a1'' AllowOnce ''user'' '''' 1 5 5]"

theorem approval_decision_binding_witness:
  "uses (\<lambda>k c t. ''fp'') ''run'' ''a1'' demo_index [Consume ''a1'' ''op'' 1, Consume ''a1'' ''op'' 1] = [''op'']"
proof -
  let ?fp = "\<lambda>k c t. ''fp''" and ?es = "[Consume ''a1'' ''op'' 1, Consume ''a1'' ''op'' 1]"
  have fresh: "fresh_ids ?fp ''run'' demo_index ?es" by simp
  obtain a where a: "dict_get (approvals demo_index) ''a1'' = Some a"
    "ap_status a \<noteq> ApPending" "ap_decision a = Some AllowOnce" "ap_operation_id a = ''op''"
  proof -
    have "(case dict_get (approvals demo_index) ''a1'' of None \<Rightarrow> False
      | Some a \<Rightarrow> ap_status a \<noteq> ApPending \<and> ap_decision a = Some AllowOnce \<and> ap_operation_id a = ''op'')"
      by code_simp
    with that show thesis by (auto split: option.splits)
  qed
  from approval_decision_binding[OF fresh a(1,2)] a(3)
  have "uses ?fp ''run'' ''a1'' demo_index ?es = [] \<or> uses ?fp ''run'' ''a1'' demo_index ?es = [''op'']"
    unfolding a(4) by blast
  moreover have "uses ?fp ''run'' ''a1'' demo_index ?es \<noteq> []" by code_simp
  ultimately show ?thesis by blast
qed

end
