(* ===== verification/Jsonl.thy ===== *)
theory Jsonl
  imports Prelude
begin

text \<open>
  The append-only JSON-lines files of a run: the session journal
  (\<open>RunContextStore._read_records_unlocked\<close> and the write in \<open>append\<close> of
  \<open>src/open_deep_research/run_context.py\<close>) and the public event log
  (\<open>PublicEventStore._read_records_unlocked\<close> and \<open>_append_sync\<close> of
  \<open>src/open_deep_research/events/public.py\<close>), whose readers are the same code over two record
  types.

  A file is its bytes, so that a write cut short by a crash is a prefix of a line. The record
  type's JSON codec, pydantic's, is a parameter: \<open>lc_dump\<close> is \<open>model_dump_json\<close> encoded as UTF-8,
  \<open>lc_parse\<close> is \<open>model_validate_json\<close>, \<open>None\<close> when it raises; \<open>lc_seq\<close> and \<open>lc_run\<close> are the fields
  the reader checks. \<open>codec_ok\<close> states what JSON objects have: a record is read back as written,
  its text starts with a visible byte and holds no line break, and no strict prefix of it and no
  two of them in a row are a record.
\<close>

record 'r log_codec =
  lc_dump :: "'r \<Rightarrow> string"
  lc_parse :: "string \<Rightarrow> 'r option"
  lc_seq :: "'r \<Rightarrow> int"
  lc_run :: "'r \<Rightarrow> string"

abbreviation LF :: char where "LF \<equiv> CHR 0x0A"
abbreviation CR :: char where "CR \<equiv> CHR 0x0D"

text \<open>\<open>bytes.strip()\<close> removes ASCII white space only.\<close>

definition byte_space :: "char \<Rightarrow> bool" where
  "byte_space c \<longleftrightarrow> (let n = of_char c :: nat in (9 \<le> n \<and> n \<le> 13) \<or> n = 32)"

definition blank_line :: "string \<Rightarrow> bool" where
  "blank_line s \<longleftrightarrow> list_all byte_space s"

text \<open>\<open>bytes.splitlines()\<close>, \<open>cur\<close> being the line read so far.\<close>

fun lines_from :: "string \<Rightarrow> string \<Rightarrow> string list" where
  "lines_from cur [] = (if cur = [] then [] else [cur])"
| "lines_from cur (c # s) =
     (if c = LF then cur # lines_from [] s
      else if c = CR then cur # lines_from [] (if s \<noteq> [] \<and> hd s = LF then tl s else s)
      else lines_from (cur @ [c]) s)"

definition split_lines :: "string \<Rightarrow> string list" where
  "split_lines s = lines_from [] s"

fun join_lines :: "string list \<Rightarrow> string" where
  "join_lines [] = []"
| "join_lines [l] = l"
| "join_lines (l # ls) = l @ [LF] @ join_lines ls"

text \<open>The valid prefix written back by the tail repair.\<close>

definition rejoin :: "string list \<Rightarrow> string" where
  "rejoin ls = (let s = join_lines ls in if s = [] then [] else s @ [LF])"

datatype log_error = LogCorrupted

text \<open>The loop of the reader: the lines before the current one, the expected number, the lines
  left. The second component is the content the repair writes, when it does.\<close>

fun scan_log ::
    "'r log_codec \<Rightarrow> string \<Rightarrow> bool \<Rightarrow> bool \<Rightarrow> string list \<Rightarrow> int \<Rightarrow> string list \<Rightarrow>
      (log_error + 'r list) \<times> string option" where
  "scan_log c rid repair whole before expected [] = (Inr [], None)"
| "scan_log c rid repair whole before expected (raw # rest) =
     (if blank_line raw then scan_log c rid repair whole (before @ [raw]) expected rest
      else case lc_parse c raw of
        None \<Rightarrow>
          if repair \<and> rest = [] \<and> \<not> whole then (Inr [], Some (rejoin before))
          else (Inl LogCorrupted, None)
      | Some r \<Rightarrow>
          if lc_run c r \<noteq> rid \<or> lc_seq c r \<noteq> expected then (Inl LogCorrupted, None)
          else (case scan_log c rid repair whole (before @ [raw]) (expected + 1) rest of
                  (Inl e, new) \<Rightarrow> (Inl e, new)
                | (Inr rs, new) \<Rightarrow> (Inr (r # rs), new)))"

definition has_complete_tail :: "string \<Rightarrow> bool" where
  "has_complete_tail bytes \<longleftrightarrow> bytes \<noteq> [] \<and> last bytes = LF"

definition read_log ::
    "'r log_codec \<Rightarrow> string \<Rightarrow> bool \<Rightarrow> string option \<Rightarrow> (log_error + 'r list) \<times> string option" where
  "read_log c rid repair content =
     (case content of
        None \<Rightarrow> (Inr [], None)
      | Some bytes \<Rightarrow>
          (case scan_log c rid repair (has_complete_tail bytes) [] 1 (split_lines bytes) of
             (r, None) \<Rightarrow> (r, Some bytes)
           | (r, Some new) \<Rightarrow> (r, Some new)))"

text \<open>\<open>os.write(fd, data)\<close> on a descriptor opened with \<open>O_APPEND | O_CREAT\<close>.\<close>

definition log_bytes :: "string option \<Rightarrow> string" where
  "log_bytes content = (case content of None \<Rightarrow> [] | Some bytes \<Rightarrow> bytes)"

definition append_bytes :: "string \<Rightarrow> string option \<Rightarrow> string option" where
  "append_bytes data content = Some (log_bytes content @ data)"

definition log_line :: "'r log_codec \<Rightarrow> 'r \<Rightarrow> string" where
  "log_line c r = lc_dump c r @ [LF]"

section \<open>The codec\<close>

definition codec_ok :: "'r log_codec \<Rightarrow> bool" where
  "codec_ok c \<longleftrightarrow>
     (\<forall>r. lc_parse c (lc_dump c r) = Some r \<and>
        lc_dump c r \<noteq> [] \<and> \<not> byte_space (hd (lc_dump c r)) \<and>
        LF \<notin> set (lc_dump c r) \<and> CR \<notin> set (lc_dump c r) \<and>
        (\<forall>k < length (lc_dump c r). lc_parse c (take k (lc_dump c r)) = None) \<and>
        (\<forall>r'. lc_parse c (lc_dump c r @ lc_dump c r') = None))"

lemma codec_okD:
  assumes "codec_ok c"
  shows "lc_parse c (lc_dump c r) = Some r" "lc_dump c r \<noteq> []" "\<not> byte_space (hd (lc_dump c r))"
    "LF \<notin> set (lc_dump c r)" "CR \<notin> set (lc_dump c r)"
    "k < length (lc_dump c r) \<Longrightarrow> lc_parse c (take k (lc_dump c r)) = None"
    "lc_parse c (lc_dump c r @ lc_dump c r') = None"
  using assms unfolding codec_ok_def by blast+

lemma dump_not_blank: "codec_ok c \<Longrightarrow> \<not> blank_line (lc_dump c r @ s)"
  using codec_okD(2,3)[of c r] by (cases "lc_dump c r") (auto simp: blank_line_def)

lemma prefix_not_blank:
  assumes "codec_ok c" "0 < k"
  shows "\<not> blank_line (take k (lc_dump c r))"
proof -
  obtain ch s where d: "lc_dump c r = ch # s" using codec_okD(2)[OF assms(1)] by (cases "lc_dump c r") auto
  with codec_okD(3)[OF assms(1), of r] have "\<not> byte_space ch" by simp
  with d assms(2) show ?thesis by (cases k) (auto simp: blank_line_def)
qed

section \<open>What a log holds\<close>

text \<open>The bytes of complete lines, and an unfinished last line.\<close>

definition log_text :: "'r log_codec \<Rightarrow> 'r list \<Rightarrow> string" where
  "log_text c rs = concat (map (log_line c) rs)"

definition torn_tail :: "'r log_codec \<Rightarrow> string \<Rightarrow> bool" where
  "torn_tail c t \<longleftrightarrow> t = [] \<or> (\<exists>r k. 0 < k \<and> k < length (lc_dump c r) \<and> t = take k (lc_dump c r))"

text \<open>Records of this run, numbered from \<open>n\<close> on.\<close>

fun numbered_from :: "'r log_codec \<Rightarrow> string \<Rightarrow> int \<Rightarrow> 'r list \<Rightarrow> bool" where
  "numbered_from c rid n [] \<longleftrightarrow> True"
| "numbered_from c rid n (r # rs) \<longleftrightarrow>
     lc_run c r = rid \<and> lc_seq c r = n \<and> numbered_from c rid (n + 1) rs"

lemma numbered_append:
  "numbered_from c rid n (rs @ rs') \<longleftrightarrow>
     numbered_from c rid n rs \<and> numbered_from c rid (n + int (length rs)) rs'"
  by (induction rs arbitrary: n) (auto simp: algebra_simps)

lemma numbered_nth:
  "numbered_from c rid n rs \<Longrightarrow> i < length rs \<Longrightarrow> lc_seq c (rs ! i) = n + int i \<and> lc_run c (rs ! i) = rid"
proof (induction rs arbitrary: n i)
  case (Cons r rs)
  then show ?case by (cases i) (auto simp: algebra_simps)
qed simp

definition log_holds :: "'r log_codec \<Rightarrow> string \<Rightarrow> 'r list \<Rightarrow> string option \<Rightarrow> bool" where
  "log_holds c rid rs content \<longleftrightarrow>
     (\<exists>t. torn_tail c t \<and> log_bytes content = log_text c rs @ t) \<and> numbered_from c rid 1 rs"

section \<open>Lines\<close>

lemma lines_from_no_break:
  "LF \<notin> set s \<Longrightarrow> CR \<notin> set s \<Longrightarrow>
    lines_from cur s = (if cur @ s = [] then [] else [cur @ s])"
  by (induction s arbitrary: cur) auto

lemma lines_from_line:
  "LF \<notin> set s \<Longrightarrow> CR \<notin> set s \<Longrightarrow> lines_from cur (s @ LF # rest) = (cur @ s) # lines_from [] rest"
  by (induction s arbitrary: cur) auto

lemma split_log_text:
  assumes "codec_ok c" "LF \<notin> set t" "CR \<notin> set t"
  shows "split_lines (log_text c rs @ t) = map (lc_dump c) rs @ (if t = [] then [] else [t])"
proof -
  have "lines_from [] (log_text c rs @ t) = map (lc_dump c) rs @ (if t = [] then [] else [t])"
  proof (induction rs)
    case Nil
    then show ?case using assms by (simp add: log_text_def lines_from_no_break)
  next
    case (Cons r rs)
    then show ?case
      using lines_from_line[of "lc_dump c r" "[]" "log_text c rs @ t"] codec_okD(4,5)[OF assms(1), of r]
      by (simp add: log_text_def log_line_def)
  qed
  then show ?thesis by (simp add: split_lines_def)
qed

lemma torn_tail_no_break: "codec_ok c \<Longrightarrow> torn_tail c t \<Longrightarrow> LF \<notin> set t \<and> CR \<notin> set t"
  unfolding torn_tail_def by (metis codec_okD(4,5) empty_iff in_set_takeD list.set(1))

lemma log_text_last: "log_text c rs \<noteq> [] \<Longrightarrow> last (log_text c rs) = LF"
  by (cases rs rule: rev_cases) (auto simp: log_text_def log_line_def)

lemma join_dumps: "rs \<noteq> [] \<Longrightarrow> join_lines (map (lc_dump c) rs) @ [LF] = log_text c rs"
proof (induction rs)
  case (Cons r rs)
  then show ?case by (cases rs) (auto simp: log_text_def log_line_def)
qed simp

lemma rejoin_dumps:
  assumes "codec_ok c"
  shows "rejoin (map (lc_dump c) rs) = log_text c rs"
proof (cases rs)
  case Nil
  then show ?thesis by (simp add: rejoin_def log_text_def)
next
  case (Cons r rs')
  then have "join_lines (map (lc_dump c) rs) \<noteq> []"
    using codec_okD(2)[OF assms, of r] by (cases rs') auto
  with join_dumps[of rs c] Cons show ?thesis by (simp add: rejoin_def Let_def)
qed

section \<open>Reading\<close>

text \<open>Complete lines of well-numbered records are read whatever follows.\<close>

lemma scan_log_records:
  assumes "codec_ok c" "numbered_from c rid n rs"
  shows "scan_log c rid repair whole before n (map (lc_dump c) rs @ later) =
    (case scan_log c rid repair whole (before @ map (lc_dump c) rs) (n + int (length rs)) later of
       (Inl e, new) \<Rightarrow> (Inl e, new) | (Inr rs', new) \<Rightarrow> (Inr (rs @ rs'), new))"
  using assms(2)
proof (induction rs arbitrary: n before)
  case Nil
  then show ?case by (auto split: prod.splits sum.splits)
next
  case (Cons r rs)
  have "\<not> blank_line (lc_dump c r)" using dump_not_blank[OF assms(1), of r "[]"] by simp
  with Cons.prems Cons.IH[of "n + 1" "before @ [lc_dump c r]"] codec_okD(1)[OF assms(1), of r]
  show ?case by (auto simp: algebra_simps split: prod.splits sum.splits)
qed

lemma read_log_holds:
  assumes ok: "codec_ok c" and holds: "log_holds c rid rs content"
  shows "fst (read_log c rid True content) = Inr rs" and
    "log_bytes (snd (read_log c rid True content)) = log_text c rs"
proof -
  from holds obtain t where t: "torn_tail c t" and b: "log_bytes content = log_text c rs @ t"
    and num: "numbered_from c rid 1 rs" by (auto simp: log_holds_def)
  have split: "split_lines (log_text c rs @ t) = map (lc_dump c) rs @ (if t = [] then [] else [t])"
    using torn_tail_no_break[OF ok t] by (intro split_log_text[OF ok]) auto
  have "fst (read_log c rid True content) = Inr rs \<and>
    log_bytes (snd (read_log c rid True content)) = log_text c rs"
  proof (cases content)
    case None
    with b have "rs = []" by (cases rs) (auto simp: log_bytes_def log_text_def log_line_def)
    with None show ?thesis by (simp add: read_log_def log_bytes_def log_text_def)
  next
    case (Some bytes)
    with b have bytes: "bytes = log_text c rs @ t" by (simp add: log_bytes_def)
    show ?thesis
    proof (cases "t = []")
      case True
      then show ?thesis
        using scan_log_records[OF ok num, of True "has_complete_tail bytes" "[]" "[]"] split Some bytes
        by (simp add: read_log_def log_bytes_def)
    next
      case False
      with t obtain r k where k: "0 < k" "k < length (lc_dump c r)" "t = take k (lc_dump c r)"
        by (auto simp: torn_tail_def)
      have "last t \<noteq> LF" using torn_tail_no_break[OF ok t] False by (metis last_in_set)
      then have whole: "\<not> has_complete_tail bytes" using False bytes by (simp add: has_complete_tail_def)
      have bad: "lc_parse c t = None" "\<not> blank_line t"
        using codec_okD(6)[OF ok k(2)] prefix_not_blank[OF ok k(1)] k(3) by simp_all
      have scan: "scan_log c rid True False [] 1 (split_lines bytes) = (Inr rs, Some (log_text c rs))"
        using scan_log_records[OF ok num, of True False "[]" "[t]"] bad split False bytes
        by (simp add: rejoin_dumps[OF ok])
      from whole scan Some show ?thesis by (simp add: read_log_def log_bytes_def)
    qed
  qed
  then show "fst (read_log c rid True content) = Inr rs"
    and "log_bytes (snd (read_log c rid True content)) = log_text c rs" by auto
qed

section \<open>Appending\<close>

lemma log_text_snoc: "log_text c (rs @ [r]) = log_text c rs @ log_line c r"
  by (simp add: log_text_def)

lemma log_holds_clean:
  assumes "log_bytes content = log_text c rs" "numbered_from c rid 1 rs"
  shows "log_holds c rid rs content"
  using assms by (auto simp: log_holds_def torn_tail_def)

text \<open>A complete line of the next record.\<close>

lemma append_holds:
  assumes "log_bytes content = log_text c rs" "numbered_from c rid 1 rs"
    and "lc_run c r = rid" "lc_seq c r = int (length rs) + 1"
  shows "log_holds c rid (rs @ [r]) (append_bytes (log_line c r) content)"
    and "log_bytes (append_bytes (log_line c r) content) = log_text c (rs @ [r])"
  using assms
  by (auto simp: append_bytes_def log_bytes_def log_text_snoc numbered_append intro!: log_holds_clean)

text \<open>A line cut short by a crash, up to and without its last byte.\<close>

lemma torn_holds:
  assumes "log_bytes content = log_text c rs" "numbered_from c rid 1 rs" "k < length (lc_dump c r)"
  shows "log_holds c rid rs (append_bytes (take k (log_line c r)) content)"
proof -
  have "take k (log_line c r) = take k (lc_dump c r)" using assms(3) by (simp add: log_line_def)
  moreover have "torn_tail c (take k (lc_dump c r))"
  proof (cases "k = 0")
    case False
    with assms(3) show ?thesis unfolding torn_tail_def by blast
  qed (simp add: torn_tail_def)
  ultimately show ?thesis
    using assms(1,2) by (auto simp: log_holds_def append_bytes_def log_bytes_def)
qed

section \<open>A lost line break\<close>

text \<open>When only the line break was lost, the last record is read and nothing is repaired.\<close>

lemma unbroken_split:
  assumes "codec_ok c"
  shows "split_lines (log_text c rs @ lc_dump c r) = map (lc_dump c) (rs @ [r])"
  using split_log_text[OF assms, of "lc_dump c r" rs] codec_okD(2,4,5)[OF assms, of r] by simp

lemma unbroken_read:
  assumes "codec_ok c" "numbered_from c rid 1 (rs @ [r])"
  shows "read_log c rid True (Some (log_text c rs @ lc_dump c r)) =
    (Inr (rs @ [r]), Some (log_text c rs @ lc_dump c r))"
  using scan_log_records[OF assms, of True _ "[]" "[]"]
  by (simp add: read_log_def unbroken_split[OF assms(1)])

text \<open>The next line is then written onto the same line, which no reader accepts.\<close>

lemma unbroken_append:
  assumes ok: "codec_ok c" and num: "numbered_from c rid 1 rs"
  shows "read_log c rid True (append_bytes (log_line c r') (Some (log_text c rs @ lc_dump c r))) =
    (Inl LogCorrupted, append_bytes (log_line c r') (Some (log_text c rs @ lc_dump c r)))"
proof -
  let ?bytes = "log_text c rs @ (lc_dump c r @ lc_dump c r') @ [LF]"
  have "lines_from [] ((lc_dump c r @ lc_dump c r') @ LF # []) = [lc_dump c r @ lc_dump c r']"
    using lines_from_line[of "lc_dump c r @ lc_dump c r'" "[]" "[]"] codec_okD(4,5)[OF ok] by simp
  then have "split_lines ?bytes = map (lc_dump c) rs @ [lc_dump c r @ lc_dump c r']"
  proof (induction rs)
    case (Cons x rs)
    then show ?case
      using lines_from_line[of "lc_dump c x" "[]" "log_text c rs @ (lc_dump c r @ lc_dump c r') @ [LF]"]
        codec_okD(4,5)[OF ok, of x] by (simp add: split_lines_def log_text_def log_line_def)
  qed (simp add: split_lines_def log_text_def)
  moreover have "has_complete_tail ?bytes" by (simp add: has_complete_tail_def)
  moreover have "\<not> blank_line (lc_dump c r @ lc_dump c r')" by (rule dump_not_blank[OF ok])
  ultimately have "read_log c rid True (Some ?bytes) = (Inl LogCorrupted, Some ?bytes)"
    using scan_log_records[OF ok num, of True True "[]" "[lc_dump c r @ lc_dump c r']"] codec_okD(7)[OF ok, of r r']
    by (simp add: read_log_def)
  then show ?thesis by (simp add: append_bytes_def log_bytes_def log_line_def)
qed

section \<open>A codec for examples\<close>

text \<open>Any numbering of the records gives a codec that satisfies \<open>codec_ok\<close>: braces around a tally.\<close>

definition tally_dump :: "('r \<Rightarrow> nat) \<Rightarrow> 'r \<Rightarrow> string" where
  "tally_dump code r = CHR ''{'' # replicate (code r) (CHR ''0'') @ ''}''"

definition tally_codec :: "('r \<Rightarrow> nat) \<Rightarrow> (nat \<Rightarrow> 'r) \<Rightarrow> ('r \<Rightarrow> int) \<Rightarrow> ('r \<Rightarrow> string) \<Rightarrow> 'r log_codec" where
  "tally_codec code decode number rid = \<lparr>lc_dump = tally_dump code,
     lc_parse = (\<lambda>s. let r = decode (length s - 2) in if tally_dump code r = s then Some r else None),
     lc_seq = number, lc_run = rid\<rparr>"

lemma tally_codec_ok:
  assumes "\<And>r. decode (code r) = r"
  shows "codec_ok (tally_codec code decode number rid)"
proof -
  let ?dump = "tally_dump code"
  have no_cut: "?dump r' \<noteq> take k (?dump r)" if "k < length (?dump r)" for r r' k
  proof
    assume eq: "?dump r' = take k (?dump r)"
    have "CHR ''}'' \<in> set (take k (?dump r))" unfolding eq[symmetric] by (simp add: tally_dump_def)
    moreover have "take k (?dump r) = take k (CHR ''{'' # replicate (code r) (CHR ''0''))"
      using that by (simp add: tally_dump_def take_Cons' min_def)
    ultimately show False by (auto dest!: in_set_takeD split: if_splits)
  qed
  have no_join: "?dump r'' \<noteq> ?dump r @ ?dump r'" for r r' r''
  proof
    assume eq: "?dump r'' = ?dump r @ ?dump r'"
    have "CHR ''{'' \<in> set (tl (?dump r @ ?dump r'))" by (simp add: tally_dump_def)
    then have "CHR ''{'' \<in> set (tl (?dump r''))" by (simp add: eq)
    then show False by (auto simp: tally_dump_def)
  qed
  have "byte_space (CHR ''{'') = False" by (simp add: byte_space_def)
  then show ?thesis
    using no_cut no_join assms
    by (auto simp: codec_ok_def tally_codec_def Let_def) (auto simp: tally_dump_def)
qed

end
