(* ===== verification/Redaction.thy ===== *)
theory Redaction
  imports Prelude
begin

text \<open>
  Removing credentials before anything is written (\<open>_sanitize\<close>, \<open>_sanitize_config\<close> and
  \<open>_redact_text\<close> of \<open>src/open_deep_research/run_context.py\<close>). The two regular expressions are
  written out as functions: the key test is a case-insensitive substring search for the
  alternatives, and \<open>redact_text\<close> scans for a word boundary, a secret's name, optional white space,
  \<open>:\<close> or \<open>=\<close>, and a value that ends before white space, a comma or a semicolon. Enumerations and
  paths do not occur among JSON values.
\<close>

section \<open>Names of secrets\<close>

definition secret_words :: "string list" where
  "secret_words =
     [''api_key'', ''api-key'', ''apikey'', ''authorization'', ''oauth_token'', ''oauth-token'',
      ''oauthtoken'', ''access_token'', ''access-token'', ''accesstoken'', ''refresh_token'',
      ''refresh-token'', ''refreshtoken'', ''cookie'', ''password'', ''secret'']"

definition names_secret :: "string list \<Rightarrow> string \<Rightarrow> bool" where
  "names_secret words k \<longleftrightarrow> list_ex (str_contains (lower k)) words"

definition secret_key :: "string \<Rightarrow> bool" where
  "secret_key k \<longleftrightarrow> names_secret secret_words k"

text \<open>The alternatives of \<open>_SECRET_KEY_RE\<close> and \<open>_SECRET_TEXT_RE\<close> of \<open>events/public.py\<close>.\<close>

definition public_secret_keys :: "string list" where
  "public_secret_keys =
     [''api_key'', ''api-key'', ''apikey'', ''authorization'', ''token'', ''cookie'', ''password'',
      ''secret'', ''prompt'', ''reasoning'', ''memory_context'', ''tool_result'']"

definition public_secret_words :: "string list" where
  "public_secret_words =
     [''api_key'', ''api-key'', ''apikey'', ''authorization'', ''access_token'', ''access-token'',
      ''accesstoken'', ''refresh_token'', ''refresh-token'', ''refreshtoken'', ''cookie'', ''password'',
      ''secret'']"

section \<open>Secrets in text\<close>

definition word_char :: "char \<Rightarrow> bool" where
  "word_char c \<longleftrightarrow> (let n = of_char c :: nat in
     (48 \<le> n \<and> n \<le> 57) \<or> (65 \<le> n \<and> n \<le> 90) \<or> (97 \<le> n \<and> n \<le> 122) \<or> n = 95 \<or>
     n \<in> {170, 178, 179, 181, 185, 186, 188, 189, 190} \<or>
     (192 \<le> n \<and> n \<noteq> 215 \<and> n \<noteq> 247))"

definition value_char :: "char \<Rightarrow> bool" where
  "value_char c \<longleftrightarrow> \<not> py_space c \<and> c \<noteq> CHR '','' \<and> c \<noteq> CHR '';''"

text \<open>A match at the start of the text: the name as written, and the text after the value.\<close>

definition secret_match :: "string list \<Rightarrow> string \<Rightarrow> (string \<times> string) option" where
  "secret_match words s =
     (case List.find (starts_with (lower s)) words of
        None \<Rightarrow> None
      | Some w \<Rightarrow>
          (case dropWhile py_space (drop (length w) s) of
             [] \<Rightarrow> None
           | sep # s2 \<Rightarrow>
               (let s3 = dropWhile py_space s2
                in if (sep = CHR '':'' \<or> sep = CHR ''='') \<and> s3 \<noteq> [] \<and> value_char (hd s3)
                   then Some (take (length w) s, dropWhile value_char s3) else None)))"

lemma length_dropWhile_le: "length (dropWhile P xs) \<le> length xs"
  by (induction xs) auto

lemma length_dropWhile_Cons: "dropWhile P xs = y # ys \<Longrightarrow> length ys < length xs"
  by (metis length_dropWhile_le length_Cons Suc_le_lessD)

lemma secret_match_shorter: "secret_match words s = Some (name, rest) \<Longrightarrow> length rest < length s"
  by (auto simp: secret_match_def Let_def split: option.splits list.splits if_splits
      dest!: length_dropWhile_Cons intro!: le_less_trans[OF length_dropWhile_le])

function redact_from :: "string list \<Rightarrow> bool \<Rightarrow> string \<Rightarrow> string" where
  "redact_from words after_word [] = []"
| "redact_from words after_word (ch # s) =
     (if after_word \<or> \<not> word_char ch then ch # redact_from words (word_char ch) s
      else case secret_match words (ch # s) of
             None \<Rightarrow> ch # redact_from words True s
           | Some (name, rest) \<Rightarrow> name @ ''=[REDACTED]'' @ redact_from words False rest)"
  by pat_completeness auto
termination
  by (relation "measure (\<lambda>(words, b, s). length s)") (use secret_match_shorter in fastforce)+

declare redact_from.simps [simp del]

definition redact_text :: "string \<Rightarrow> string" where
  "redact_text s = redact_from secret_words False s"

section \<open>JSON values\<close>

fun sanitize :: "json \<Rightarrow> json" where
  "sanitize (JObj d) =
     JObj (map (\<lambda>(k, v). (k, if secret_key k then JStr ''[REDACTED]'' else sanitize v)) d)"
| "sanitize (JList xs) = JList (map sanitize xs)"
| "sanitize (JStr s) = JStr (redact_text s)"
| "sanitize v = v"

fun sanitize_config :: "json \<Rightarrow> json" where
  "sanitize_config (JObj d) =
     JObj (map (\<lambda>(k, v). (k, sanitize_config v)) (filter (\<lambda>(k, v). \<not> secret_key k) d))"
| "sanitize_config (JList xs) = JList (map sanitize_config xs)"
| "sanitize_config v = sanitize v"

text \<open>Where a value may be read from: every key on a path, with what it leads to.\<close>

fun entries :: "json \<Rightarrow> (string \<times> json) list" where
  "entries (JObj d) = d @ concat (map (\<lambda>(k, v). entries v) d)"
| "entries (JList xs) = concat (map entries xs)"
| "entries _ = []"

lemma entries_sanitize: "(k, v) \<in> set (entries (sanitize x)) \<Longrightarrow> secret_key k \<Longrightarrow> v = JStr ''[REDACTED]''"
proof (induction x rule: sanitize.induct)
  case (1 d)
  then show ?case by (fastforce split: if_splits)
qed auto

lemma entries_sanitize_config: "(k, v) \<in> set (entries (sanitize_config x)) \<Longrightarrow> \<not> secret_key k"
proof (induction x rule: sanitize_config.induct)
  case (1 d)
  then show ?case by (fastforce split: if_splits)
qed auto

end
