(* ===== verification/Run_Context.thy ===== *)
theory Run_Context
  imports Jsonl Redaction Json_Access Lease Mailbox "HOL-Library.Countable"
begin

text \<open>
  The session journal and manifest of a run
  (\<open>src/open_deep_research/run_context.py\<close>, \<open>RunContextStore\<close>).

  \<open>run_disk\<close> is what the store's methods touch on disk: the manifest (absent, unreadable, or a
  value), the bytes of the journal, the lead lease that the fence guard reads, the research brief.
  \<open>context_store\<close> is one store object: its run and the fence token it is bound to. Every method is
  a function of them, its clock reading and the identifiers it draws; a method that fails returns
  its error with the disk it leaves, since the code repairs the journal and rebuilds the manifest
  before it raises. SHA-256 is an argument. The encoding of message objects and its artifacts are
  left out: \<open>append\<close> takes the encoded payload.
\<close>

section \<open>State\<close>

datatype journal_channel = LeadChannel | SupervisorChannel

datatype record_type =
  MessageDelta | StateDelta | StageCheckpoint | ContextCompacted | ArtifactCommitted | RunStatus
| QueryStateRecord

record journal_record =
  jr_schema_version :: int
  jr_seq :: int
  jr_event_id :: string
  jr_run_id :: string
  jr_timestamp :: seconds
  jr_channel :: journal_channel
  jr_type :: record_type
  jr_stage :: string
  jr_payload :: "(string, json) dict"
  jr_artifact_refs :: "string list"

record run_manifest =
  mf_schema_version :: int
  mf_run_id :: string
  mf_owner_id :: "string option"
  mf_title :: "string option"
  mf_query_preview :: "string option"
  mf_idempotency_key :: "string option"
  mf_created_at :: seconds
  mf_updated_at :: seconds
  mf_ended_at :: "seconds option"
  mf_status :: string
  mf_last_stable_stage :: string
  mf_next_stage :: string
  mf_last_journal_seq :: int
  mf_last_public_event_seq :: int
  mf_brief_sha256 :: "string option"
  mf_persistence_degraded :: bool
  mf_persistence_error :: "string option"
  mf_recovered_degraded :: bool
  mf_config :: "(string, json) dict"
  mf_config_fingerprint :: "string option"
  mf_quality_policy_version :: "string option"
  mf_quality_evaluation_epoch :: "string option"
  mf_quality_evaluation_rigor :: "string option"
  mf_quality_rigor_policy :: "(string, json) dict"
  mf_quality_warnings :: "(string, json) dict list"
  mf_result :: "(string, json) dict option"
  mf_pending_human_action :: "(string, json) dict option"
  mf_final_artifacts :: "(string, json) dict"
  mf_coordination_schema_version :: int
  mf_coordination_backend :: string
  mf_fence_token :: int
  mf_fence_owner_id :: "string option"

text \<open>\<open>RunManifest(run_id=..., schema_version=...)\<close>: every other field at its default.\<close>

definition SCHEMA_VERSION :: int where "SCHEMA_VERSION = 2"

definition default_manifest :: "string \<Rightarrow> int \<Rightarrow> seconds \<Rightarrow> run_manifest" where
  "default_manifest rid schema now =
     \<lparr>mf_schema_version = schema, mf_run_id = rid, mf_owner_id = None, mf_title = None,
      mf_query_preview = None, mf_idempotency_key = None, mf_created_at = now, mf_updated_at = now,
      mf_ended_at = None, mf_status = ''pending'', mf_last_stable_stage = ''received'',
      mf_next_stage = ''summarize_messages'', mf_last_journal_seq = 0,
      mf_last_public_event_seq = 0, mf_brief_sha256 = None, mf_persistence_degraded = False,
      mf_persistence_error = None, mf_recovered_degraded = False, mf_config = [],
      mf_config_fingerprint = None, mf_quality_policy_version = None,
      mf_quality_evaluation_epoch = None, mf_quality_evaluation_rigor = None,
      mf_quality_rigor_policy = [], mf_quality_warnings = [], mf_result = None,
      mf_pending_human_action = None, mf_final_artifacts = [],
      mf_coordination_schema_version = 0, mf_coordination_backend = ''legacy'',
      mf_fence_token = 0, mf_fence_owner_id = None\<rparr>"

datatype manifest_cell = NoManifest | BadManifest | Manifest run_manifest

record run_disk =
  manifest_cell :: manifest_cell
  journal :: "string option"
  lead_lease :: lease_file
  research_brief :: "string option"

record context_store =
  ctx_run_id :: string
  ctx_fence :: "int option"
  ctx_owner :: "string option"

datatype context_error =
  InvalidRunId
| CtxFenceLost
| JournalCorrupted string
| BriefError string
| PayloadError json_error

type_synonym 'a on_disk = "(context_error + 'a) \<times> run_disk"

definition new_context_store :: "string \<Rightarrow> context_error + context_store" where
  "new_context_store rid =
     (if \<not> valid_component rid then Inl InvalidRunId
      else Inr \<lparr>ctx_run_id = rid, ctx_fence = None, ctx_owner = None\<rparr>)"

section \<open>Reading the journal\<close>

definition read_records ::
    "journal_record log_codec \<Rightarrow> context_store \<Rightarrow> run_disk \<Rightarrow> journal_record list on_disk" where
  "read_records c st d =
     (case read_log c (ctx_run_id st) True (journal d) of
        (Inl _, content) \<Rightarrow> (Inl (JournalCorrupted ''journal_corrupted''), d\<lparr>journal := content\<rparr>)
      | (Inr rs, content) \<Rightarrow> (Inr rs, d\<lparr>journal := content\<rparr>))"

section \<open>The manifest\<close>

text \<open>One record of the loop of \<open>_rebuild_manifest_from_journal\<close>.\<close>

definition rebuild_first :: "journal_record \<Rightarrow> run_manifest \<Rightarrow> json_error + run_manifest" where
  "rebuild_first r m =
     (if jr_seq r \<noteq> 1 then Inr m
      else res_bind (jopt jstr (jget ''owner_id'' (jr_payload r))) (\<lambda>owner.
           res_bind (raw_obj (jget_or ''config'' (JObj []) (jr_payload r))) (\<lambda>config.
           res_bind (jint (jget_or ''coordination_schema_version'' (JInt 0) (jr_payload r))) (\<lambda>version.
           res_bind (jstr (jget_or ''coordination_backend'' (JStr ''legacy'') (jr_payload r))) (\<lambda>backend.
             Inr (m\<lparr>mf_owner_id := owner, mf_config := config,
               mf_coordination_schema_version := version, mf_coordination_backend := backend\<rparr>))))))"

definition rebuild_record :: "journal_record \<Rightarrow> run_manifest \<Rightarrow> json_error + run_manifest" where
  "rebuild_record r m0 =
     res_bind (rebuild_first r m0) (\<lambda>m.
       case jr_type r of
         StageCheckpoint \<Rightarrow>
           res_bind (jstr (jget_or ''next_stage'' (JStr (mf_next_stage m)) (jr_payload r))) (\<lambda>next_stage.
             Inr (m\<lparr>mf_last_stable_stage := jr_stage r, mf_next_stage := next_stage,
               mf_status := (if jr_stage r = ''completed'' \<or> jr_stage r = ''cancelled''
                 then jr_stage r else mf_status m)\<rparr>))
       | RunStatus \<Rightarrow>
           res_bind (jstr (jget_or ''status'' (JStr (mf_status m)) (jr_payload r))) (\<lambda>status.
             Inr (m\<lparr>mf_status := status,
               mf_result := (if status = ''failed''
                 then Some [(''status'', JStr ''error''), (''error'', jget ''error'' (jr_payload r))]
                 else mf_result m)\<rparr>))
       | _ \<Rightarrow> Inr m)"

fun rebuild_all :: "journal_record list \<Rightarrow> run_manifest \<Rightarrow> json_error + run_manifest" where
  "rebuild_all [] m = Inr m"
| "rebuild_all (r # rs) m = res_bind (rebuild_record r m) (rebuild_all rs)"

definition rebuild_manifest ::
    "journal_record log_codec \<Rightarrow> (string \<Rightarrow> string) \<Rightarrow> context_store \<Rightarrow> seconds \<Rightarrow> run_disk \<Rightarrow>
      run_manifest on_disk" where
  "rebuild_manifest c sha st now d0 =
     (case read_records c st d0 of
        (Inl e, d) \<Rightarrow> (Inl e, d)
      | (Inr [], d) \<Rightarrow> (Inl (JournalCorrupted ''manifest_corrupted''), d)
      | (Inr (r # rs), d) \<Rightarrow>
          (case rebuild_all (r # rs) (default_manifest (ctx_run_id st) (jr_schema_version r) now) of
             Inl e \<Rightarrow> (Inl (PayloadError e), d)
           | Inr m0 \<Rightarrow>
               (let m1 = m0\<lparr>mf_last_journal_seq := jr_seq (last (r # rs))\<rparr>;
                    m = (case research_brief d of None \<Rightarrow> m1 | Some text \<Rightarrow> m1\<lparr>mf_brief_sha256 := Some (sha text)\<rparr>)
                in (Inr m, d\<lparr>manifest_cell := Manifest m\<rparr>))))"

definition load_manifest ::
    "journal_record log_codec \<Rightarrow> (string \<Rightarrow> string) \<Rightarrow> context_store \<Rightarrow> seconds \<Rightarrow> run_disk \<Rightarrow>
      run_manifest on_disk" where
  "load_manifest c sha st now d =
     (case manifest_cell d of
        Manifest m \<Rightarrow> (Inr m, d)
      | _ \<Rightarrow> rebuild_manifest c sha st now d)"

section \<open>The fence\<close>

text \<open>\<open>_fence_guard\<close>, up to its \<open>yield\<close>; what follows runs under the lease lock when the store is
  bound.\<close>

definition fence_guard ::
    "journal_record log_codec \<Rightarrow> (string \<Rightarrow> string) \<Rightarrow> context_store \<Rightarrow> seconds \<Rightarrow> run_disk \<Rightarrow> unit on_disk" where
  "fence_guard c sha st now d =
     (case (ctx_fence st, ctx_owner st) of
        (Some token, Some ow) \<Rightarrow>
          (case lead_lease d of
             None \<Rightarrow> (Inl CtxFenceLost, d)
           | Some l \<Rightarrow>
               if owner_instance_id l \<noteq> ow \<or> lease_fence l \<noteq> token \<or> expires_at l \<le> now
               then (Inl CtxFenceLost, d) else (Inr (), d))
      | _ \<Rightarrow>
          if manifest_cell d = NoManifest then (Inr (), d)
          else (case load_manifest c sha st now d of
                  (Inl e, d') \<Rightarrow> (Inl e, d')
                | (Inr m, d') \<Rightarrow> if mf_fence_token m > 0 then (Inl CtxFenceLost, d') else (Inr (), d')))"

text \<open>The test of \<open>_update_manifest\<close> against the manifest it is about to change.\<close>

definition manifest_fence_ok :: "bool \<Rightarrow> context_store \<Rightarrow> run_manifest \<Rightarrow> bool" where
  "manifest_fence_ok advance st m \<longleftrightarrow>
     (if mf_fence_token m > 0
      then (case (ctx_fence st, ctx_owner st) of
              (Some token, Some ow) \<Rightarrow>
                if advance then \<not> token < mf_fence_token m
                else token = mf_fence_token m \<and> mf_fence_owner_id m = Some ow
            | _ \<Rightarrow> False)
      else True)"

section \<open>Updating the manifest\<close>

text \<open>One keyword argument of \<open>_update_manifest\<close>.\<close>

datatype manifest_update =
  SetOwnerId "string option" | SetTitle "string option" | SetQueryPreview "string option"
| SetIdempotencyKey "string option" | SetEndedAt "seconds option" | SetStatus string
| SetLastStableStage string | SetNextStage string | SetLastJournalSeq int
| SetLastPublicEventSeq int | SetBriefSha "string option" | SetPersistenceDegraded bool
| SetPersistenceError "string option" | SetRecoveredDegraded bool
| SetConfig "(string, json) dict" | SetConfigFingerprint "string option"
| SetQualityPolicyVersion "string option" | SetQualityEvaluationEpoch "string option"
| SetQualityEvaluationRigor "string option" | SetQualityRigorPolicy "(string, json) dict"
| SetQualityWarnings "(string, json) dict list" | SetResult "(string, json) dict option"
| SetPendingHumanAction "(string, json) dict option" | SetFinalArtifacts "(string, json) dict"
| SetFenceToken int | SetFenceOwnerId "string option"

primrec set_field :: "bool \<Rightarrow> manifest_update \<Rightarrow> run_manifest \<Rightarrow> run_manifest" where
  "set_field resume (SetStatus v) m =
     (if mf_status m \<in> {''completed'', ''cancelled''} \<and> v \<noteq> mf_status m then m
      else if mf_status m = ''failed'' \<and> v \<noteq> ''failed'' \<and> \<not> (resume \<and> v = ''running'') then m
      else m\<lparr>mf_status := v\<rparr>)"
| "set_field resume (SetLastJournalSeq v) m = m\<lparr>mf_last_journal_seq := max (mf_last_journal_seq m) v\<rparr>"
| "set_field resume (SetLastPublicEventSeq v) m =
     m\<lparr>mf_last_public_event_seq := max (mf_last_public_event_seq m) v\<rparr>"
| "set_field resume (SetOwnerId v) m = m\<lparr>mf_owner_id := v\<rparr>"
| "set_field resume (SetTitle v) m = m\<lparr>mf_title := v\<rparr>"
| "set_field resume (SetQueryPreview v) m = m\<lparr>mf_query_preview := v\<rparr>"
| "set_field resume (SetIdempotencyKey v) m = m\<lparr>mf_idempotency_key := v\<rparr>"
| "set_field resume (SetEndedAt v) m = m\<lparr>mf_ended_at := v\<rparr>"
| "set_field resume (SetLastStableStage v) m = m\<lparr>mf_last_stable_stage := v\<rparr>"
| "set_field resume (SetNextStage v) m = m\<lparr>mf_next_stage := v\<rparr>"
| "set_field resume (SetBriefSha v) m = m\<lparr>mf_brief_sha256 := v\<rparr>"
| "set_field resume (SetPersistenceDegraded v) m = m\<lparr>mf_persistence_degraded := v\<rparr>"
| "set_field resume (SetPersistenceError v) m = m\<lparr>mf_persistence_error := v\<rparr>"
| "set_field resume (SetRecoveredDegraded v) m = m\<lparr>mf_recovered_degraded := v\<rparr>"
| "set_field resume (SetConfig v) m = m\<lparr>mf_config := v\<rparr>"
| "set_field resume (SetConfigFingerprint v) m = m\<lparr>mf_config_fingerprint := v\<rparr>"
| "set_field resume (SetQualityPolicyVersion v) m = m\<lparr>mf_quality_policy_version := v\<rparr>"
| "set_field resume (SetQualityEvaluationEpoch v) m = m\<lparr>mf_quality_evaluation_epoch := v\<rparr>"
| "set_field resume (SetQualityEvaluationRigor v) m = m\<lparr>mf_quality_evaluation_rigor := v\<rparr>"
| "set_field resume (SetQualityRigorPolicy v) m = m\<lparr>mf_quality_rigor_policy := v\<rparr>"
| "set_field resume (SetQualityWarnings v) m = m\<lparr>mf_quality_warnings := v\<rparr>"
| "set_field resume (SetResult v) m = m\<lparr>mf_result := v\<rparr>"
| "set_field resume (SetPendingHumanAction v) m = m\<lparr>mf_pending_human_action := v\<rparr>"
| "set_field resume (SetFinalArtifacts v) m = m\<lparr>mf_final_artifacts := v\<rparr>"
| "set_field resume (SetFenceToken v) m = m\<lparr>mf_fence_token := v\<rparr>"
| "set_field resume (SetFenceOwnerId v) m = m\<lparr>mf_fence_owner_id := v\<rparr>"

definition requested_status :: "manifest_update list \<Rightarrow> bool" where
  "requested_status us \<longleftrightarrow> list_ex (\<lambda>u. case u of SetStatus _ \<Rightarrow> True | _ \<Rightarrow> False) us"

definition stamp_end :: "bool \<Rightarrow> seconds \<Rightarrow> run_manifest \<Rightarrow> run_manifest" where
  "stamp_end requested now m =
     (if requested \<and> mf_status m \<in> {''success'', ''completed'', ''failed'', ''interrupted'', ''cancelled''}
      then m\<lparr>mf_ended_at := (case mf_ended_at m of
               None \<Rightarrow> Some now | Some t \<Rightarrow> if t = 0 then Some now else Some t)\<rparr>
      else if requested \<and> mf_status m = ''running'' then m\<lparr>mf_ended_at := None\<rparr>
      else m)"

definition update_manifest ::
    "journal_record log_codec \<Rightarrow> (string \<Rightarrow> string) \<Rightarrow> context_store \<Rightarrow> bool \<Rightarrow> bool \<Rightarrow> bool \<Rightarrow>
      manifest_update list \<Rightarrow> seconds \<Rightarrow> run_disk \<Rightarrow> run_manifest on_disk" where
  "update_manifest c sha st resume advance held us now d =
     (case load_manifest c sha st now d of
        (Inl e, d1) \<Rightarrow> (Inl e, d1)
      | (Inr fallback, d1) \<Rightarrow>
          (case (if held then (Inr (), d1) else fence_guard c sha st now d1) of
             (Inl e, d2) \<Rightarrow> (Inl e, d2)
           | (Inr _, d2) \<Rightarrow>
               (let m = (case manifest_cell d2 of Manifest m \<Rightarrow> m | _ \<Rightarrow> fallback)
                in if \<not> manifest_fence_ok advance st m then (Inl CtxFenceLost, d2)
                   else (let m' = (stamp_end (requested_status us) now
                               (fold (set_field resume) us m))\<lparr>mf_updated_at := now\<rparr>
                         in (Inr m', d2\<lparr>manifest_cell := Manifest m'\<rparr>)))))"

section \<open>Binding, initialising, appending\<close>

definition bind_fence_token ::
    "journal_record log_codec \<Rightarrow> (string \<Rightarrow> string) \<Rightarrow> context_store \<Rightarrow> int \<Rightarrow> string \<Rightarrow> bool \<Rightarrow> seconds \<Rightarrow>
      run_disk \<Rightarrow> (context_error + unit) \<times> context_store \<times> run_disk" where
  "bind_fence_token c sha st token ow advance now d =
     (let st' = st\<lparr>ctx_fence := Some token, ctx_owner := Some ow\<rparr>
      in if advance \<and> manifest_cell d \<noteq> NoManifest
         then (case update_manifest c sha st' False True False
                 [SetFenceToken token, SetFenceOwnerId (Some ow)] now d of
                 (Inl e, d') \<Rightarrow> (Inl e, st, d')
               | (Inr _, d') \<Rightarrow> (Inr (), st', d'))
         else (Inr (), st', d))"

text \<open>The initial manifest, from the configuration and its \<open>metadata\<close> entry; a value of a type
  that pydantic does not accept is an error.\<close>

definition initial_manifest ::
    "context_store \<Rightarrow> string option \<Rightarrow> (string, json) dict \<Rightarrow> seconds \<Rightarrow> json_error + run_manifest" where
  "initial_manifest st owner config now =
     res_bind (raw_obj (jget_or ''metadata'' (JObj []) config)) (\<lambda>metadata.
     res_bind (jopt jstr (jget ''run_config_fingerprint'' metadata)) (\<lambda>fingerprint.
     res_bind (jopt jstr (jget ''quality_policy_version'' metadata)) (\<lambda>version.
     res_bind (jopt jstr (jget ''quality_evaluation_epoch'' metadata)) (\<lambda>epoch.
     res_bind (raw_obj (jget_or ''quality_rigor_policy'' (JObj []) metadata)) (\<lambda>policy.
     res_bind (jopt jstr (jget ''rigor'' policy)) (\<lambda>rigor.
     res_bind (raw_objs (jget_or ''quality_configuration_warnings'' (JList []) metadata)) (\<lambda>warnings.
       Inr ((default_manifest (ctx_run_id st) SCHEMA_VERSION now)
         \<lparr>mf_owner_id := owner, mf_status := ''running'',
          mf_config := (case sanitize_config (JObj config) of JObj d \<Rightarrow> d | _ \<Rightarrow> []),
          mf_config_fingerprint := fingerprint, mf_quality_policy_version := version,
          mf_quality_evaluation_epoch := epoch, mf_quality_evaluation_rigor := rigor,
          mf_quality_rigor_policy := policy, mf_quality_warnings := warnings,
          mf_coordination_schema_version := 1, mf_coordination_backend := ''file_mailbox'',
          mf_fence_token := (case ctx_fence st of None \<Rightarrow> 0 | Some t \<Rightarrow> t),
          mf_fence_owner_id := ctx_owner st\<rparr>))))))))"

definition initialize ::
    "journal_record log_codec \<Rightarrow> (string \<Rightarrow> string) \<Rightarrow> context_store \<Rightarrow> string option \<Rightarrow>
      (string, json) dict \<Rightarrow> seconds \<Rightarrow> run_disk \<Rightarrow> run_manifest on_disk" where
  "initialize c sha st owner config now d =
     (if manifest_cell d \<noteq> NoManifest then load_manifest c sha st now d
      else case initial_manifest st owner config now of
             Inl e \<Rightarrow> (Inl (PayloadError e), d)
           | Inr m \<Rightarrow>
               (case fence_guard c sha st now d of
                  (Inl e, d') \<Rightarrow> (Inl e, d')
                | (Inr _, d') \<Rightarrow> (Inr m, d'\<lparr>manifest_cell := Manifest m\<rparr>)))"

record append_args =
  aa_event_id :: string
  aa_channel :: journal_channel
  aa_type :: record_type
  aa_stage :: string
  aa_payload :: "(string, json) dict"
  aa_artifact_refs :: "string list"

definition make_record :: "context_store \<Rightarrow> append_args \<Rightarrow> int \<Rightarrow> seconds \<Rightarrow> journal_record" where
  "make_record st a n now =
     \<lparr>jr_schema_version = SCHEMA_VERSION, jr_seq = n, jr_event_id = aa_event_id a,
      jr_run_id = ctx_run_id st, jr_timestamp = now, jr_channel = aa_channel a,
      jr_type = aa_type a, jr_stage = aa_stage a, jr_payload = aa_payload a,
      jr_artifact_refs = aa_artifact_refs a\<rparr>"

text \<open>Everything \<open>append_locked\<close> does before it writes: the record to write, and the disk.\<close>

definition next_record ::
    "journal_record log_codec \<Rightarrow> (string \<Rightarrow> string) \<Rightarrow> context_store \<Rightarrow> append_args \<Rightarrow> seconds \<Rightarrow> run_disk \<Rightarrow>
      journal_record on_disk" where
  "next_record c sha st a now d =
     (case fence_guard c sha st now d of
        (Inl e, d1) \<Rightarrow> (Inl e, d1)
      | (Inr _, d1) \<Rightarrow>
     (case load_manifest c sha st now d1 of
        (Inl e, d2) \<Rightarrow> (Inl e, d2)
      | (Inr m, d2) \<Rightarrow>
     (case read_records c st d2 of
        (Inl e, d3) \<Rightarrow> (Inl e, d3)
      | (Inr rs, d3) \<Rightarrow>
          (Inr (make_record st a (max (mf_last_journal_seq m) (int (length rs)) + 1) now), d3))))"

definition append_locked ::
    "journal_record log_codec \<Rightarrow> (string \<Rightarrow> string) \<Rightarrow> context_store \<Rightarrow> append_args \<Rightarrow> seconds \<Rightarrow> run_disk \<Rightarrow>
      journal_record on_disk" where
  "append_locked c sha st a now d =
     (case next_record c sha st a now d of
        (Inl e, d1) \<Rightarrow> (Inl e, d1)
      | (Inr r, d1) \<Rightarrow>
          (case update_manifest c sha st False False True [SetLastJournalSeq (jr_seq r)] now
                  (d1\<lparr>journal := append_bytes (log_line c r) (journal d1)\<rparr>) of
             (Inl e, d2) \<Rightarrow> (Inl e, d2)
           | (Inr _, d2) \<Rightarrow> (Inr r, d2)))"

text \<open>A process that dies in \<open>append_locked\<close> after writing the first \<open>k\<close> bytes of the line.\<close>

definition append_torn ::
    "journal_record log_codec \<Rightarrow> (string \<Rightarrow> string) \<Rightarrow> context_store \<Rightarrow> append_args \<Rightarrow> seconds \<Rightarrow> nat \<Rightarrow>
      run_disk \<Rightarrow> run_disk" where
  "append_torn c sha st a now k d =
     (case next_record c sha st a now d of
        (Inl e, d1) \<Rightarrow> d1
      | (Inr r, d1) \<Rightarrow> d1\<lparr>journal := append_bytes (take k (log_line c r)) (journal d1)\<rparr>)"

definition checkpoint_args ::
    "string \<Rightarrow> string \<Rightarrow> journal_channel \<Rightarrow> (string, json) dict \<Rightarrow> string \<Rightarrow> append_args" where
  "checkpoint_args stage next_stage channel extra event =
     \<lparr>aa_event_id = event, aa_channel = channel, aa_type = StageCheckpoint, aa_stage = stage,
      aa_payload = fold (\<lambda>(k, v). dict_set k v) extra [(''next_stage'', JStr next_stage)],
      aa_artifact_refs = []\<rparr>"

definition journal_checkpoint ::
    "journal_record log_codec \<Rightarrow> (string \<Rightarrow> string) \<Rightarrow> context_store \<Rightarrow> string \<Rightarrow> string \<Rightarrow> string \<Rightarrow>
      journal_channel \<Rightarrow> (string, json) dict \<Rightarrow> string \<Rightarrow> seconds \<Rightarrow> run_disk \<Rightarrow> journal_record on_disk" where
  "journal_checkpoint c sha st stage next_stage status channel extra event now d =
     (case append_locked c sha st (checkpoint_args stage next_stage channel extra event) now d of
        (Inl e, d1) \<Rightarrow> (Inl e, d1)
      | (Inr r, d1) \<Rightarrow>
          (case update_manifest c sha st False False False
              [SetStatus status, SetLastStableStage stage, SetNextStage next_stage,
               SetLastJournalSeq (jr_seq r)] now d1 of
             (Inl e, d2) \<Rightarrow> (Inl e, d2)
           | (Inr _, d2) \<Rightarrow> (Inr r, d2)))"

definition mark_persistence_degraded ::
    "journal_record log_codec \<Rightarrow> (string \<Rightarrow> string) \<Rightarrow> context_store \<Rightarrow> string \<Rightarrow> seconds \<Rightarrow> run_disk \<Rightarrow> run_disk" where
  "mark_persistence_degraded c sha st err now d =
     snd (update_manifest c sha st False False False
       [SetPersistenceDegraded True, SetPersistenceError (Some (take 1000 err))] now d)"

definition mark_event_persistence_failed ::
    "journal_record log_codec \<Rightarrow> (string \<Rightarrow> string) \<Rightarrow> context_store \<Rightarrow> string \<Rightarrow> seconds \<Rightarrow> run_disk \<Rightarrow> run_disk" where
  "mark_event_persistence_failed c sha st err now d =
     snd (update_manifest c sha st False False False
       [SetStatus ''failed'', SetPersistenceDegraded True,
        SetPersistenceError (Some (take 1000 (''event_persistence_failed: '' @ err)))] now d)"

text \<open>\<open>persist_research_brief\<close> reports every failure as one error; \<open>load_research_brief\<close> checks the
  digest of the manifest.\<close>

definition persist_research_brief ::
    "journal_record log_codec \<Rightarrow> (string \<Rightarrow> string) \<Rightarrow> context_store \<Rightarrow> string \<Rightarrow> seconds \<Rightarrow> run_disk \<Rightarrow>
      string on_disk" where
  "persist_research_brief c sha st content now d =
     (case fence_guard c sha st now d of
        (Inl e, d1) \<Rightarrow> (Inl (BriefError ''research_brief_persistence_failed''), d1)
      | (Inr _, d1) \<Rightarrow>
          (case update_manifest c sha st False False False [SetBriefSha (Some (sha content))] now
                  (d1\<lparr>research_brief := Some content\<rparr>) of
             (Inl e, d2) \<Rightarrow> (Inl (BriefError ''research_brief_persistence_failed''), d2)
           | (Inr _, d2) \<Rightarrow> (Inr (sha content), d2)))"

definition load_research_brief ::
    "journal_record log_codec \<Rightarrow> (string \<Rightarrow> string) \<Rightarrow> context_store \<Rightarrow> bool \<Rightarrow> seconds \<Rightarrow> run_disk \<Rightarrow>
      string on_disk" where
  "load_research_brief c sha st verify now d =
     (case research_brief d of
        None \<Rightarrow> (Inl (BriefError ''research_brief_missing''), d)
      | Some content \<Rightarrow>
          if \<not> verify then (Inr content, d)
          else (case load_manifest c sha st now d of
                  (Inl e, d') \<Rightarrow> (Inl e, d')
                | (Inr m, d') \<Rightarrow>
                    (case mf_brief_sha256 m of
                       None \<Rightarrow> (Inr content, d')
                     | Some expected \<Rightarrow>
                         if expected \<noteq> [] \<and> sha content \<noteq> expected
                         then (Inl (BriefError ''research_brief_hash_mismatch''), d')
                         else (Inr content, d'))))"

section \<open>Journals stay readable\<close>

text \<open>The journal holds exactly the records \<open>rs\<close>, up to an unfinished last line, and the manifest
  is not ahead of it.\<close>

definition manifest_behind :: "nat \<Rightarrow> run_disk \<Rightarrow> bool" where
  "manifest_behind n d \<longleftrightarrow>
     (case manifest_cell d of Manifest m \<Rightarrow> mf_last_journal_seq m \<le> int n | _ \<Rightarrow> True)"

definition journal_ok :: "journal_record log_codec \<Rightarrow> string \<Rightarrow> journal_record list \<Rightarrow> run_disk \<Rightarrow> bool" where
  "journal_ok c rid rs d \<longleftrightarrow> log_holds c rid rs (journal d) \<and> manifest_behind (length rs) d"

definition journal_codec :: "journal_record log_codec \<Rightarrow> bool" where
  "journal_codec c \<longleftrightarrow> codec_ok c \<and> lc_seq c = jr_seq \<and> lc_run c = jr_run_id"

lemma read_records_ok:
  assumes "journal_codec c" "journal_ok c (ctx_run_id st) rs d" "read_records c st d = (r, d')"
  shows "r = Inr rs" "log_bytes (journal d') = log_text c rs" "journal_ok c (ctx_run_id st) rs d'"
proof -
  have ok: "codec_ok c" and holds: "log_holds c (ctx_run_id st) rs (journal d)"
    using assms(1,2) by (simp_all add: journal_codec_def journal_ok_def)
  from holds have num: "numbered_from c (ctx_run_id st) 1 rs" by (simp add: log_holds_def)
  from read_log_holds[OF ok holds] assms(3)
  have *: "r = Inr rs" "log_bytes (journal d') = log_text c rs" "manifest_cell d' = manifest_cell d"
    by (auto simp: read_records_def split: prod.splits)
  then show "r = Inr rs" "log_bytes (journal d') = log_text c rs" by auto
  from *(2) num have "log_holds c (ctx_run_id st) rs (journal d')" by (rule log_holds_clean)
  with *(3) assms(2) show "journal_ok c (ctx_run_id st) rs d'"
    by (simp add: journal_ok_def manifest_behind_def)
qed

lemma last_numbered:
  assumes "journal_codec c" "journal_ok c rid rs d" "rs \<noteq> []"
  shows "jr_seq (last rs) = int (length rs)"
proof -
  have num: "numbered_from c rid 1 rs" using assms(2) by (simp add: journal_ok_def log_holds_def)
  from assms(3) have "int (length rs - 1) = int (length rs) - 1" by (cases rs) auto
  with numbered_nth[OF num, of "length rs - 1"] assms(1,3) show ?thesis
    by (simp add: journal_codec_def last_conv_nth)
qed

lemma rebuild_manifest_ok:
  assumes "journal_codec c" "journal_ok c (ctx_run_id st) rs d" "rebuild_manifest c sha st now d = (r, d')"
  shows "journal_ok c (ctx_run_id st) rs d' \<and> (\<forall>m. r = Inr m \<longrightarrow> mf_last_journal_seq m \<le> int (length rs))"
proof -
  obtain r1 d1 where read: "read_records c st d = (r1, d1)" by fastforce
  note ok = read_records_ok[OF assms(1,2) read]
  show ?thesis
  proof (cases rs)
    case Nil
    with ok assms(3) read show ?thesis by (auto simp: rebuild_manifest_def)
  next
    case (Cons x xs)
    then have "jr_seq (last (x # xs)) = int (length rs)"
      using last_numbered[OF assms(1,2)] by simp
    with ok Cons assms(3) read show ?thesis
      by (auto simp: rebuild_manifest_def Let_def journal_ok_def manifest_behind_def
          split: sum.splits option.splits)
  qed
qed

lemma load_manifest_ok:
  assumes "journal_codec c" "journal_ok c (ctx_run_id st) rs d" "load_manifest c sha st now d = (r, d')"
  shows "journal_ok c (ctx_run_id st) rs d' \<and> (\<forall>m. r = Inr m \<longrightarrow> mf_last_journal_seq m \<le> int (length rs))"
  using assms rebuild_manifest_ok[OF assms(1,2), of sha now r d']
  by (cases "manifest_cell d") (auto simp: load_manifest_def journal_ok_def manifest_behind_def)

lemma fence_guard_ok:
  assumes "journal_codec c" "journal_ok c (ctx_run_id st) rs d" "fence_guard c sha st now d = (r, d')"
  shows "journal_ok c (ctx_run_id st) rs d'"
proof -
  obtain r1 d1 where load: "load_manifest c sha st now d = (r1, d1)" by fastforce
  with assms load_manifest_ok[OF assms(1,2) load] show ?thesis
    by (auto simp: fence_guard_def split: option.splits if_splits sum.splits)
qed

text \<open>An update that does not move the journal number past the journal.\<close>

definition seq_bounded :: "nat \<Rightarrow> manifest_update list \<Rightarrow> bool" where
  "seq_bounded n us \<longleftrightarrow>
     list_all (\<lambda>u. case u of SetLastJournalSeq v \<Rightarrow> v \<le> int n | _ \<Rightarrow> True) us"

lemma set_field_seq:
  "mf_last_journal_seq m \<le> int n \<Longrightarrow> seq_bounded n [u] \<Longrightarrow> mf_last_journal_seq (set_field b u m) \<le> int n"
  by (cases u) (auto simp: seq_bounded_def)

lemma set_fields_seq:
  "mf_last_journal_seq m \<le> int n \<Longrightarrow> seq_bounded n us \<Longrightarrow>
    mf_last_journal_seq (fold (set_field b) us m) \<le> int n"
proof (induction us arbitrary: m)
  case (Cons u us)
  then show ?case using set_field_seq[of m n u b] by (auto simp: seq_bounded_def)
qed simp

lemma stamp_end_fields [simp]:
  "mf_last_journal_seq (stamp_end b now m) = mf_last_journal_seq m"
  "mf_fence_token (stamp_end b now m) = mf_fence_token m"
  "mf_fence_owner_id (stamp_end b now m) = mf_fence_owner_id m"
  "mf_status (stamp_end b now m) = mf_status m"
  by (simp_all add: stamp_end_def)

lemma update_manifest_ok:
  assumes "journal_codec c" "journal_ok c (ctx_run_id st) rs d" "seq_bounded (length rs) us"
    and "update_manifest c sha st resume advance held us now d = (r, d')"
  shows "journal_ok c (ctx_run_id st) rs d'"
proof -
  obtain r1 d1 where load: "load_manifest c sha st now d = (r1, d1)" by fastforce
  note ok1 = load_manifest_ok[OF assms(1,2) load]
  show ?thesis
  proof (cases r1)
    case (Inl e)
    with assms(4) load ok1 show ?thesis by (simp add: update_manifest_def)
  next
    case (Inr fallback)
    obtain r2 d2 where guard: "(if held then (Inr (), d1) else fence_guard c sha st now d1) = (r2, d2)"
      by fastforce
    have ok2: "journal_ok c (ctx_run_id st) rs d2"
      using guard ok1 fence_guard_ok[OF assms(1), of st rs d1 sha now r2 d2] by (auto split: if_splits)
    define m where "m = (case manifest_cell d2 of Manifest m \<Rightarrow> m | _ \<Rightarrow> fallback)"
    have "mf_last_journal_seq m \<le> int (length rs)"
      using ok1 ok2 Inr by (auto simp: m_def journal_ok_def manifest_behind_def split: manifest_cell.splits)
    then have "mf_last_journal_seq (fold (set_field resume) us m) \<le> int (length rs)"
      using assms(3) by (rule set_fields_seq)
    with assms(4) load Inr guard ok2 show ?thesis
      by (auto simp: update_manifest_def Let_def m_def[symmetric] journal_ok_def manifest_behind_def
          split: sum.splits if_splits)
  qed
qed

lemma initialize_ok:
  assumes "journal_codec c" "journal_ok c (ctx_run_id st) rs d"
    and "initialize c sha st owner config now d = (r, d')"
  shows "journal_ok c (ctx_run_id st) rs d'"
proof (cases "manifest_cell d = NoManifest")
  case False
  with assms load_manifest_ok[OF assms(1,2), of sha now r d'] show ?thesis
    by (simp add: initialize_def)
next
  case True
  obtain r1 d1 where guard: "fence_guard c sha st now d = (r1, d1)" by fastforce
  have "mf_last_journal_seq m = 0" if "initial_manifest st owner config now = Inr m" for m
    using that by (auto simp: initial_manifest_def result_elims default_manifest_def)
  with True assms guard fence_guard_ok[OF assms(1,2) guard] show ?thesis
    by (auto simp: initialize_def journal_ok_def manifest_behind_def split: sum.splits)
qed

lemma next_record_ok:
  assumes "journal_codec c" "journal_ok c (ctx_run_id st) rs d" "next_record c sha st a now d = (r, d')"
  shows "journal_ok c (ctx_run_id st) rs d'" and
    "r = Inr x \<Longrightarrow> log_bytes (journal d') = log_text c rs \<and> jr_seq x = int (length rs) + 1 \<and>
      jr_run_id x = ctx_run_id st"
proof -
  obtain r1 d1 where guard: "fence_guard c sha st now d = (r1, d1)" by fastforce
  note ok1 = fence_guard_ok[OF assms(1,2) guard]
  obtain r2 d2 where load: "load_manifest c sha st now d1 = (r2, d2)" by fastforce
  note ok2 = load_manifest_ok[OF assms(1) ok1 load]
  obtain r3 d3 where read: "read_records c st d2 = (r3, d3)" by fastforce
  note ok3 = read_records_ok[OF assms(1) _ read, of rs]
  show "journal_ok c (ctx_run_id st) rs d'"
    using assms(3) guard load read ok1 ok2 ok3 by (auto simp: next_record_def split: sum.splits)
  assume "r = Inr x"
  with assms(3) guard load read ok1 ok2 ok3
  show "log_bytes (journal d') = log_text c rs \<and> jr_seq x = int (length rs) + 1 \<and>
      jr_run_id x = ctx_run_id st"
    by (auto simp: next_record_def make_record_def split: sum.splits)
qed

lemma journal_ok_numbered: "journal_ok c rid rs d \<Longrightarrow> numbered_from c rid 1 rs"
  by (simp add: journal_ok_def log_holds_def)

text \<open>Writing the next line, and what a crash leaves of it.\<close>

lemma write_line_ok:
  assumes "journal_codec c" "journal_ok c (ctx_run_id st) rs d" "log_bytes (journal d) = log_text c rs"
    and "jr_seq x = int (length rs) + 1" "jr_run_id x = ctx_run_id st"
  shows "journal_ok c (ctx_run_id st) (rs @ [x]) (d\<lparr>journal := append_bytes (log_line c x) (journal d)\<rparr>)"
    and "k < length (lc_dump c x) \<Longrightarrow>
      journal_ok c (ctx_run_id st) rs (d\<lparr>journal := append_bytes (take k (log_line c x)) (journal d)\<rparr>)"
proof -
  note num = journal_ok_numbered[OF assms(2)]
  have "log_holds c (ctx_run_id st) (rs @ [x]) (append_bytes (log_line c x) (journal d))"
    using append_holds(1)[OF assms(3) num, of x] assms(1,4,5) by (simp add: journal_codec_def)
  with assms(2) show "journal_ok c (ctx_run_id st) (rs @ [x])
      (d\<lparr>journal := append_bytes (log_line c x) (journal d)\<rparr>)"
    by (auto simp: journal_ok_def manifest_behind_def split: manifest_cell.splits)
  assume "k < length (lc_dump c x)"
  from torn_holds[OF assms(3) num this] assms(2)
  show "journal_ok c (ctx_run_id st) rs (d\<lparr>journal := append_bytes (take k (log_line c x)) (journal d)\<rparr>)"
    by (simp add: journal_ok_def manifest_behind_def)
qed

lemma append_locked_ok:
  assumes "journal_codec c" "journal_ok c (ctx_run_id st) rs d" "append_locked c sha st a now d = (r, d')"
  shows "\<exists>new. journal_ok c (ctx_run_id st) (rs @ new) d' \<and> (\<forall>x. r = Inr x \<longrightarrow> new = [x])"
proof -
  obtain r1 d1 where nxt: "next_record c sha st a now d = (r1, d1)" by fastforce
  note ok1 = next_record_ok[OF assms(1,2) nxt]
  show ?thesis
  proof (cases r1)
    case (Inl e)
    with assms(3) nxt ok1(1) show ?thesis by (intro exI[of _ "[]"]) (auto simp: append_locked_def)
  next
    case (Inr x)
    let ?d = "d1\<lparr>journal := append_bytes (log_line c x) (journal d1)\<rparr>"
    from ok1(2)[OF Inr] have x: "log_bytes (journal d1) = log_text c rs" "jr_seq x = int (length rs) + 1"
      "jr_run_id x = ctx_run_id st" by auto
    note ok2 = write_line_ok(1)[OF assms(1) ok1(1) x]
    obtain r2 d2 where upd: "update_manifest c sha st False False True [SetLastJournalSeq (jr_seq x)] now ?d
        = (r2, d2)" by fastforce
    have "journal_ok c (ctx_run_id st) (rs @ [x]) d2"
      using update_manifest_ok[OF assms(1) ok2 _ upd] x(2) by (simp add: seq_bounded_def)
    with assms(3) nxt Inr upd show ?thesis
      by (intro exI[of _ "[x]"]) (auto simp: append_locked_def split: sum.splits)
  qed
qed

lemma append_torn_ok:
  assumes "journal_codec c" "journal_ok c (ctx_run_id st) rs d"
    and "\<And>x d1. next_record c sha st a now d = (Inr x, d1) \<Longrightarrow> k \<noteq> length (lc_dump c x)"
  shows "\<exists>new. journal_ok c (ctx_run_id st) (rs @ new) (append_torn c sha st a now k d)"
proof -
  obtain r1 d1 where nxt: "next_record c sha st a now d = (r1, d1)" by fastforce
  note ok1 = next_record_ok[OF assms(1,2) nxt]
  show ?thesis
  proof (cases r1)
    case (Inl e)
    with nxt ok1(1) show ?thesis by (intro exI[of _ "[]"]) (simp add: append_torn_def)
  next
    case (Inr x)
    from ok1(2)[OF Inr] have x: "log_bytes (journal d1) = log_text c rs" "jr_seq x = int (length rs) + 1"
      "jr_run_id x = ctx_run_id st" by auto
    note ok2 = write_line_ok[OF assms(1) ok1(1) x]
    from assms(3) nxt Inr have "k \<noteq> length (lc_dump c x)" by blast
    then consider "k < length (lc_dump c x)" | "length (log_line c x) \<le> k"
      by (fastforce simp: log_line_def)
    then show ?thesis
    proof cases
      case 1
      with ok2(2)[OF 1] nxt Inr show ?thesis
        by (intro exI[of _ "[]"]) (simp add: append_torn_def)
    next
      case 2
      with ok2(1) nxt Inr show ?thesis
        by (intro exI[of _ "[x]"]) (simp add: append_torn_def)
    qed
  qed
qed

lemma bind_fence_token_ok:
  assumes "journal_codec c" "journal_ok c (ctx_run_id st) rs d"
    and "bind_fence_token c sha st token ow advance now d = (r, st', d')"
  shows "journal_ok c (ctx_run_id st) rs d'"
proof -
  let ?st = "st\<lparr>ctx_fence := Some token, ctx_owner := Some ow\<rparr>"
  obtain r1 d1 where upd: "update_manifest c sha ?st False True False
      [SetFenceToken token, SetFenceOwnerId (Some ow)] now d = (r1, d1)" by fastforce
  have "journal_ok c (ctx_run_id ?st) rs d1"
    using assms(2) by (intro update_manifest_ok[OF assms(1) _ _ upd]) (simp_all add: seq_bounded_def)
  with assms(2,3) upd show ?thesis
    by (auto simp: bind_fence_token_def Let_def split: if_splits sum.splits)
qed

lemma journal_checkpoint_ok:
  assumes "journal_codec c" "journal_ok c (ctx_run_id st) rs d"
    and "journal_checkpoint c sha st stage next_stage status channel extra event now d = (r, d')"
  shows "\<exists>new. journal_ok c (ctx_run_id st) (rs @ new) d'"
proof -
  define a where "a = checkpoint_args stage next_stage channel extra event"
  obtain r1 d1 where app: "append_locked c sha st a now d = (r1, d1)" by fastforce
  from append_locked_ok[OF assms(1,2) app] obtain new where
    ok: "journal_ok c (ctx_run_id st) (rs @ new) d1" and new: "\<And>x. r1 = Inr x \<Longrightarrow> new = [x]" by blast
  show ?thesis
  proof (cases r1)
    case (Inl e)
    with assms(3) app ok show ?thesis
      by (auto simp: journal_checkpoint_def a_def[symmetric])
  next
    case (Inr x)
    let ?us = "[SetStatus status, SetLastStableStage stage, SetNextStage next_stage,
      SetLastJournalSeq (jr_seq x)]"
    obtain r2 d2 where upd: "update_manifest c sha st False False False ?us now d1 = (r2, d2)" by fastforce
    have "jr_seq x = int (length (rs @ new))"
      using last_numbered[OF assms(1) ok] new[OF Inr] by simp
    then have "journal_ok c (ctx_run_id st) (rs @ new) d2"
      by (intro update_manifest_ok[OF assms(1) ok _ upd]) (simp add: seq_bounded_def)
    with assms(3) app Inr upd show ?thesis
      by (auto simp: journal_checkpoint_def a_def[symmetric] split: sum.splits)
  qed
qed

lemma persist_research_brief_ok:
  assumes "journal_codec c" "journal_ok c (ctx_run_id st) rs d"
    and "persist_research_brief c sha st content now d = (r, d')"
  shows "journal_ok c (ctx_run_id st) rs d'"
proof -
  obtain r1 d1 where guard: "fence_guard c sha st now d = (r1, d1)" by fastforce
  note ok1 = fence_guard_ok[OF assms(1,2) guard]
  then have ok2: "journal_ok c (ctx_run_id st) rs (d1\<lparr>research_brief := Some content\<rparr>)"
    by (simp add: journal_ok_def manifest_behind_def)
  obtain r2 d2 where upd: "update_manifest c sha st False False False [SetBriefSha (Some (sha content))] now
      (d1\<lparr>research_brief := Some content\<rparr>) = (r2, d2)" by fastforce
  have "journal_ok c (ctx_run_id st) rs d2"
    by (rule update_manifest_ok[OF assms(1) ok2 _ upd]) (simp add: seq_bounded_def)
  with assms(3) guard upd ok1 show ?thesis
    by (auto simp: persist_research_brief_def split: sum.splits)
qed

section \<open>Any history of a run\<close>

text \<open>What the stores of a run, and crashes, may do to its directory. A crash in the middle of an
  append loses the last \<open>lost\<close> bytes of the line and everything after the write.\<close>

datatype ctx_event =
  CtxInit context_store "string option" "(string, json) dict" seconds
| CtxAppend context_store append_args seconds
| CtxCrash context_store append_args seconds nat
| CtxCheckpoint context_store string string string journal_channel "(string, json) dict" string seconds
| CtxUpdate context_store bool bool "manifest_update list" seconds
| CtxBind context_store int string bool seconds
| CtxBrief context_store string seconds
| CtxLoad context_store seconds
| CtxRead context_store
| CtxManifestUnreadable
| CtxManifestLost
| CtxLease lease_file

text \<open>The bytes of the line that reach the disk before the crash.\<close>

definition crash_point ::
    "journal_record log_codec \<Rightarrow> (string \<Rightarrow> string) \<Rightarrow> context_store \<Rightarrow> append_args \<Rightarrow> seconds \<Rightarrow> nat \<Rightarrow>
      run_disk \<Rightarrow> nat" where
  "crash_point c sha st a now lost d =
     (case next_record c sha st a now d of
        (Inl _, _) \<Rightarrow> 0 | (Inr x, _) \<Rightarrow> length (log_line c x) - lost)"

fun ctx_step ::
    "journal_record log_codec \<Rightarrow> (string \<Rightarrow> string) \<Rightarrow> run_disk \<Rightarrow> ctx_event \<Rightarrow> run_disk" where
  "ctx_step c sha d (CtxInit st owner config now) = snd (initialize c sha st owner config now d)"
| "ctx_step c sha d (CtxAppend st a now) = snd (append_locked c sha st a now d)"
| "ctx_step c sha d (CtxCrash st a now lost) =
     append_torn c sha st a now (crash_point c sha st a now lost d) d"
| "ctx_step c sha d (CtxCheckpoint st stage next_stage status channel extra event now) =
     snd (journal_checkpoint c sha st stage next_stage status channel extra event now d)"
| "ctx_step c sha d (CtxUpdate st resume advance us now) =
     snd (update_manifest c sha st resume advance False us now d)"
| "ctx_step c sha d (CtxBind st token ow advance now) =
     snd (snd (bind_fence_token c sha st token ow advance now d))"
| "ctx_step c sha d (CtxBrief st content now) = snd (persist_research_brief c sha st content now d)"
| "ctx_step c sha d (CtxLoad st now) = snd (load_manifest c sha st now d)"
| "ctx_step c sha d (CtxRead st) = snd (read_records c st d)"
| "ctx_step c sha d CtxManifestUnreadable = d\<lparr>manifest_cell := BadManifest\<rparr>"
| "ctx_step c sha d CtxManifestLost = d\<lparr>manifest_cell := NoManifest\<rparr>"
| "ctx_step c sha d (CtxLease l) = d\<lparr>lead_lease := l\<rparr>"

text \<open>Stores of the run \<open>rid\<close>; the journal number is set by \<open>append\<close> and \<open>checkpoint\<close> only; no crash
  loses the line break alone.\<close>

fun event_ok :: "string \<Rightarrow> ctx_event \<Rightarrow> bool" where
  "event_ok rid (CtxInit st _ _ _) \<longleftrightarrow> ctx_run_id st = rid"
| "event_ok rid (CtxAppend st _ _) \<longleftrightarrow> ctx_run_id st = rid"
| "event_ok rid (CtxCrash st _ _ lost) \<longleftrightarrow> ctx_run_id st = rid \<and> lost \<noteq> 1"
| "event_ok rid (CtxCheckpoint st _ _ _ _ _ _ _) \<longleftrightarrow> ctx_run_id st = rid"
| "event_ok rid (CtxUpdate st _ _ us _) \<longleftrightarrow> ctx_run_id st = rid \<and>
     list_all (\<lambda>u. case u of SetLastJournalSeq _ \<Rightarrow> False | _ \<Rightarrow> True) us"
| "event_ok rid (CtxBind st _ _ _ _) \<longleftrightarrow> ctx_run_id st = rid"
| "event_ok rid (CtxBrief st _ _) \<longleftrightarrow> ctx_run_id st = rid"
| "event_ok rid (CtxLoad st _) \<longleftrightarrow> ctx_run_id st = rid"
| "event_ok rid (CtxRead st) \<longleftrightarrow> ctx_run_id st = rid"
| "event_ok rid _ \<longleftrightarrow> True"

lemma unbounded_free:
  "list_all (\<lambda>u. case u of SetLastJournalSeq _ \<Rightarrow> False | _ \<Rightarrow> True) us \<Longrightarrow> seq_bounded n us"
  unfolding seq_bounded_def by (induction us) (auto split: manifest_update.splits)

lemma crash_point_ok:
  assumes "codec_ok c" "next_record c sha st a now d = (Inr x, d1)" "lost \<noteq> 1"
  shows "crash_point c sha st a now lost d \<noteq> length (lc_dump c x)"
  using assms codec_okD(2)[OF assms(1), of x]
  by (cases "lc_dump c x") (auto simp: crash_point_def log_line_def)

lemma other_files_ok:
  assumes "journal_ok c rid rs d"
  shows "journal_ok c rid rs (d\<lparr>manifest_cell := BadManifest\<rparr>)"
    "journal_ok c rid rs (d\<lparr>manifest_cell := NoManifest\<rparr>)"
    "journal_ok c rid rs (d\<lparr>lead_lease := l\<rparr>)"
  using assms by (simp_all add: journal_ok_def manifest_behind_def)

lemma ctx_step_ok:
  assumes "journal_codec c" "journal_ok c rid rs d" "event_ok rid e"
  shows "\<exists>new. journal_ok c rid (rs @ new) (ctx_step c sha d e)"
proof -
  have keep: "\<exists>new. journal_ok c i (rs @ new) d'" if "journal_ok c i rs d'" for i d'
    using that by (intro exI[of _ "[]"]) simp
  note ok = assms(2)
  show ?thesis
  proof (cases e)
    case (CtxInit st owner config now)
    with assms initialize_ok[OF assms(1), of st rs d sha owner config now] show ?thesis
      by (cases "initialize c sha st owner config now d") (auto intro!: keep)
  next
    case (CtxAppend st a now)
    with assms append_locked_ok[OF assms(1), of st rs d sha a now] show ?thesis
      by (cases "append_locked c sha st a now d") auto
  next
    case (CtxCrash st a now lost)
    with assms crash_point_ok[of c sha st a now d _ _ lost] show ?thesis
      by (auto simp: journal_codec_def intro!: append_torn_ok)
  next
    case (CtxCheckpoint st stage next_stage status channel extra event now)
    with assms journal_checkpoint_ok[OF assms(1), of st rs d sha stage next_stage status channel extra event now]
    show ?thesis
      by (cases "journal_checkpoint c sha st stage next_stage status channel extra event now d") auto
  next
    case (CtxUpdate st resume advance us now)
    with assms update_manifest_ok[OF assms(1), of st rs d us sha resume advance False now] show ?thesis
      by (cases "update_manifest c sha st resume advance False us now d")
        (auto intro!: keep simp: unbounded_free)
  next
    case (CtxBind st token ow advance now)
    with assms bind_fence_token_ok[OF assms(1), of st rs d sha token ow advance now] show ?thesis
      by (cases "bind_fence_token c sha st token ow advance now d") (auto intro!: keep)
  next
    case (CtxBrief st content now)
    with assms persist_research_brief_ok[OF assms(1), of st rs d sha content now] show ?thesis
      by (cases "persist_research_brief c sha st content now d") (auto intro!: keep)
  next
    case (CtxLoad st now)
    with assms load_manifest_ok[OF assms(1), of st rs d sha now] show ?thesis
      by (cases "load_manifest c sha st now d") (auto intro!: keep)
  next
    case (CtxRead st)
    with assms read_records_ok[OF assms(1), of st rs d] show ?thesis
      by (cases "read_records c st d") (auto intro!: keep)
  qed (simp_all add: keep other_files_ok[OF ok])
qed

interpretation journal_log: machine "ctx_step c sha"
    "\<lambda>d. journal_codec c \<and> (\<exists>new. journal_ok c rid (rs @ new) d)" "event_ok rid" for c sha rid rs
proof unfold_locales
  fix d e
  assume "journal_codec c \<and> (\<exists>new. journal_ok c rid (rs @ new) d)" and e: "event_ok rid e"
  then obtain new where c: "journal_codec c" and "journal_ok c rid (rs @ new) d" by blast
  from ctx_step_ok[OF this e, of sha] obtain new' where
    "journal_ok c rid ((rs @ new) @ new') (ctx_step c sha d e)" by blast
  then have "journal_ok c rid (rs @ (new @ new')) (ctx_step c sha d e)" by simp
  with c show "journal_codec c \<and> (\<exists>new. journal_ok c rid (rs @ new) (ctx_step c sha d e))" by blast
qed

section \<open>Who writes\<close>

text \<open>Only lease operations touch the lease file.\<close>

named_theorems leaseD

lemma read_records_lease [leaseD]: "read_records c st d = (r, d') \<Longrightarrow> lead_lease d' = lead_lease d"
  by (auto simp: read_records_def split: prod.splits sum.splits)

lemma load_manifest_lease [leaseD]:
  assumes "load_manifest c sha st now d = (r, d')"
  shows "lead_lease d' = lead_lease d"
proof -
  obtain r1 d1 where 1: "read_records c st d = (r1, d1)" by fastforce
  with assms read_records_lease[OF 1] show ?thesis
    by (auto simp: load_manifest_def rebuild_manifest_def Let_def
        split: manifest_cell.splits sum.splits list.splits option.splits)
qed

lemma fence_guard_lease [leaseD]:
  assumes "fence_guard c sha st now d = (r, d')"
  shows "lead_lease d' = lead_lease d"
proof -
  obtain r1 d1 where 1: "load_manifest c sha st now d = (r1, d1)" by fastforce
  with assms load_manifest_lease[OF 1] show ?thesis
    by (auto simp: fence_guard_def split: option.splits sum.splits if_splits)
qed

lemma update_manifest_lease [leaseD]:
  assumes "update_manifest c sha st resume advance held us now d = (r, d')"
  shows "lead_lease d' = lead_lease d"
proof -
  obtain r1 d1 where 1: "load_manifest c sha st now d = (r1, d1)" by fastforce
  obtain r2 d2 where 2: "fence_guard c sha st now d1 = (r2, d2)" by fastforce
  from assms 1 2 load_manifest_lease[OF 1] fence_guard_lease[OF 2] show ?thesis
    by (auto simp: update_manifest_def Let_def split: sum.splits if_splits)
qed

lemma next_record_lease [leaseD]:
  assumes "next_record c sha st a now d = (r, d')"
  shows "lead_lease d' = lead_lease d"
proof -
  obtain r1 d1 where 1: "fence_guard c sha st now d = (r1, d1)" by fastforce
  obtain r2 d2 where 2: "load_manifest c sha st now d1 = (r2, d2)" by fastforce
  obtain r3 d3 where 3: "read_records c st d2 = (r3, d3)" by fastforce
  from assms 1 2 3 fence_guard_lease[OF 1] load_manifest_lease[OF 2] read_records_lease[OF 3]
  show ?thesis by (auto simp: next_record_def split: sum.splits)
qed

lemma append_locked_lease [leaseD]:
  assumes "append_locked c sha st a now d = (r, d')"
  shows "lead_lease d' = lead_lease d"
proof -
  obtain r1 d1 where 1: "next_record c sha st a now d = (r1, d1)" by fastforce
  from assms 1 next_record_lease[OF 1] show ?thesis
    by (auto simp: append_locked_def split: sum.splits prod.splits dest!: update_manifest_lease)
qed

fun is_lease_event :: "ctx_event \<Rightarrow> bool" where
  "is_lease_event (CtxLease _) \<longleftrightarrow> True"
| "is_lease_event _ \<longleftrightarrow> False"

lemma initialize_lease [leaseD]:
  "initialize c sha st owner config now d = (r, d') \<Longrightarrow> lead_lease d' = lead_lease d"
  by (auto simp: initialize_def split: sum.splits prod.splits if_splits
      dest!: fence_guard_lease load_manifest_lease)

lemma append_torn_lease: "lead_lease (append_torn c sha st a now k d) = lead_lease d"
  by (auto simp: append_torn_def split: sum.splits prod.splits dest!: next_record_lease)

lemma journal_checkpoint_lease [leaseD]:
  "journal_checkpoint c sha st stage next_stage status channel extra event now d = (r, d') \<Longrightarrow>
    lead_lease d' = lead_lease d"
  by (auto simp: journal_checkpoint_def split: sum.splits prod.splits
      dest!: append_locked_lease update_manifest_lease)

lemma bind_fence_token_lease:
  "lead_lease (snd (snd (bind_fence_token c sha st token ow advance now d))) = lead_lease d"
  by (auto simp: bind_fence_token_def Let_def split: sum.splits prod.splits
      dest!: update_manifest_lease)

lemma persist_research_brief_lease [leaseD]:
  "persist_research_brief c sha st content now d = (r, d') \<Longrightarrow> lead_lease d' = lead_lease d"
  by (auto simp: persist_research_brief_def split: sum.splits prod.splits
      dest!: fence_guard_lease update_manifest_lease)

lemma snd_lease: "(\<And>r d'. f = (r, d') \<Longrightarrow> lead_lease d' = x) \<Longrightarrow> lead_lease (snd f) = x"
  by (cases f) auto

lemma ctx_step_lease: "\<not> is_lease_event e \<Longrightarrow> lead_lease (ctx_step c sha d e) = lead_lease d"
  by (cases e) (simp_all add: append_torn_lease bind_fence_token_lease, (rule snd_lease, erule leaseD)+)

text \<open>The write an event makes to the journal, when it comes to one, with the epoch it is made in.\<close>

fun journal_writer :: "ctx_event \<Rightarrow> (context_store \<times> append_args \<times> seconds) option" where
  "journal_writer (CtxAppend st a now) = Some (st, a, now)"
| "journal_writer (CtxCrash st a now lost) = Some (st, a, now)"
| "journal_writer (CtxCheckpoint st stage next_stage status channel extra event now) =
     Some (st, checkpoint_args stage next_stage channel extra event, now)"
| "journal_writer _ = None"

definition journal_writes ::
    "journal_record log_codec \<Rightarrow> (string \<Rightarrow> string) \<Rightarrow> ctx_event \<Rightarrow> run_disk \<Rightarrow> (string \<times> int) list" where
  "journal_writes c sha e d =
     (case journal_writer e of
        None \<Rightarrow> []
      | Some (st, a, now) \<Rightarrow>
          (case (ctx_owner st, ctx_fence st, next_record c sha st a now d) of
             (Some ow, Some token, Inr _, _) \<Rightarrow> [(ow, token)]
           | _ \<Rightarrow> []))"

lemma journal_writes_cases:
  "journal_writes c sha e d = [] \<or>
   (\<exists>l. lead_lease d = Some l \<and> journal_writes c sha e d = [(owner_instance_id l, lease_fence l)])"
  by (auto simp: journal_writes_def next_record_def fence_guard_def
      split: option.splits prod.splits sum.splits if_splits)

text \<open>Lease managers and stores of one run, with the log of the epochs of the journal's writes.\<close>

record journal_system =
  js_disk :: run_disk
  js_log :: "(string \<times> int) list"

datatype run_event = LeaseMove lease_event | StoreMove ctx_event

fun js_step ::
    "journal_record log_codec \<Rightarrow> (string \<Rightarrow> string) \<Rightarrow> journal_system \<Rightarrow> run_event \<Rightarrow> journal_system" where
  "js_step c sha s (LeaseMove e) =
     s\<lparr>js_disk := (js_disk s)\<lparr>lead_lease := lease_on_disk
        (lease_step \<lparr>lease_on_disk = lead_lease (js_disk s), commits = []\<rparr> e)\<rparr>\<rparr>"
| "js_step c sha s (StoreMove e) =
     \<lparr>js_disk = ctx_step c sha (js_disk s) e,
      js_log = js_log s @ journal_writes c sha e (js_disk s)\<rparr>"

fun store_move_ok :: "run_event \<Rightarrow> bool" where
  "store_move_ok (LeaseMove e) \<longleftrightarrow> True"
| "store_move_ok (StoreMove e) \<longleftrightarrow> \<not> is_lease_event e"

definition fenced_view :: "journal_system \<Rightarrow> lease_system" where
  "fenced_view s = \<lparr>lease_on_disk = lead_lease (js_disk s), commits = js_log s\<rparr>"

lemma lease_step_disk:
  "lease_on_disk s = lease_on_disk s' \<Longrightarrow> lease_on_disk (lease_step s e) = lease_on_disk (lease_step s' e)"
  by (cases e) simp_all

lemma lease_move_inv:
  assumes "lease_inv \<lparr>lease_on_disk = l, commits = cs\<rparr>"
  shows "lease_inv \<lparr>lease_on_disk = lease_on_disk (lease_step \<lparr>lease_on_disk = l, commits = []\<rparr> e),
    commits = cs\<rparr>"
proof (cases "\<exists>mgr token now. e = Commit mgr token now")
  case True
  with assms show ?thesis by auto
next
  case False
  then have "commits (lease_step \<lparr>lease_on_disk = l, commits = cs\<rparr> e) = cs" by (cases e) auto
  moreover have "lease_on_disk (lease_step \<lparr>lease_on_disk = l, commits = cs\<rparr> e) =
      lease_on_disk (lease_step \<lparr>lease_on_disk = l, commits = []\<rparr> e)"
    by (rule lease_step_disk) simp
  ultimately have "lease_step \<lparr>lease_on_disk = l, commits = cs\<rparr> e =
      \<lparr>lease_on_disk = lease_on_disk (lease_step \<lparr>lease_on_disk = l, commits = []\<rparr> e), commits = cs\<rparr>"
    by simp
  with lease_step_inv[OF assms, of e] show ?thesis by simp
qed

interpretation journal_fence: machine "js_step c sha" "\<lambda>s. lease_inv (fenced_view s)" store_move_ok
  for c sha
proof unfold_locales
  fix s e
  assume inv: "lease_inv (fenced_view s)" and ok: "store_move_ok e"
  show "lease_inv (fenced_view (js_step c sha s e))"
  proof (cases e)
    case (LeaseMove e')
    with inv lease_move_inv[of "lead_lease (js_disk s)" "js_log s" e'] show ?thesis
      by (simp add: fenced_view_def)
  next
    case (StoreMove e')
    with ok have same: "lead_lease (ctx_step c sha (js_disk s) e') = lead_lease (js_disk s)"
      by (simp add: ctx_step_lease)
    from journal_writes_cases[of c sha e' "js_disk s"] show ?thesis
    proof (elim disjE exE conjE)
      assume "journal_writes c sha e' (js_disk s) = []"
      with StoreMove same inv show ?thesis by (simp add: fenced_view_def)
    next
      fix l
      assume l: "lead_lease (js_disk s) = Some l"
        and w: "journal_writes c sha e' (js_disk s) = [(owner_instance_id l, lease_fence l)]"
      from lease_inv_commit[OF inv, of l] l w StoreMove same show ?thesis
        by (simp add: fenced_view_def)
    qed
  qed
qed

section \<open>A codec for the examples\<close>

instance json :: countable by countable_datatype
instance journal_channel :: countable by countable_datatype
instance record_type :: countable by countable_datatype

definition record_code :: "journal_record \<Rightarrow> nat" where
  "record_code r = to_nat (jr_schema_version r, jr_seq r, jr_event_id r, jr_run_id r, jr_timestamp r,
     jr_channel r, jr_type r, jr_stage r, jr_payload r, jr_artifact_refs r)"

definition code_record :: "nat \<Rightarrow> journal_record" where
  "code_record n =
     (let (version, number, event, rid, time, channel, kind, stage, pay, refs) = from_nat n
      in \<lparr>jr_schema_version = version, jr_seq = number, jr_event_id = event, jr_run_id = rid,
          jr_timestamp = time, jr_channel = channel, jr_type = kind, jr_stage = stage,
          jr_payload = pay, jr_artifact_refs = refs\<rparr>)"

definition demo_codec :: "journal_record log_codec" where
  "demo_codec = tally_codec record_code code_record jr_seq jr_run_id"

lemma code_record_code [simp]: "code_record (record_code r) = r"
  by (simp add: code_record_def record_code_def)

lemma demo_codec_ok: "journal_codec demo_codec"
  by (simp add: journal_codec_def demo_codec_def tally_codec_ok) (simp add: tally_codec_def)

definition demo_store :: context_store where
  "demo_store = \<lparr>ctx_run_id = ''run'', ctx_fence = None, ctx_owner = None\<rparr>"

definition demo_append :: "string \<Rightarrow> append_args" where
  "demo_append event = \<lparr>aa_event_id = event, aa_channel = LeadChannel, aa_type = StateDelta,
     aa_stage = ''received'', aa_payload = [], aa_artifact_refs = []\<rparr>"

definition demo_disk :: run_disk where
  "demo_disk = \<lparr>manifest_cell = Manifest (default_manifest ''run'' 2 0), journal = None,
     lead_lease = None, research_brief = None\<rparr>"

lemma demo_disk_ok: "journal_ok demo_codec ''run'' [] demo_disk"
  by (simp add: journal_ok_def log_holds_def torn_tail_def demo_disk_def log_bytes_def log_text_def
      manifest_behind_def default_manifest_def)

section \<open>Properties\<close>

lemma journal_ok_seqs:
  assumes "journal_codec c" "journal_ok c rid rs d"
  shows "map jr_seq rs = map int [1..<length rs + 1]"
proof (rule nth_equalityI)
  fix i assume "i < length (map jr_seq rs)"
  then show "map jr_seq rs ! i = map int [1..<length rs + 1] ! i"
    using numbered_nth[OF journal_ok_numbered[OF assms(2)], of i] assms(1)
    by (auto simp: journal_codec_def simp del: upt_Suc)
qed (simp del: upt_Suc)

text \<open>C15. An append that returned is durable: whatever the stores of the run do afterwards, with
  crashes that tear later lines anywhere but at the line break, with the manifest lost or
  unreadable and leases changing hands, every reader gets the records that were there, then this
  one, then later ones, numbered consecutively.\<close>

theorem journal_durable:
  assumes "journal_codec c" "journal_ok c (ctx_run_id st) rs d"
    and "append_locked c sha st a now d = (Inr x, d1)"
    and "list_all (event_ok (ctx_run_id st)) es"
  shows "\<exists>more. fst (read_records c st (run (ctx_step c sha) d1 es)) = Inr (rs @ x # more) \<and>
    map jr_seq (rs @ x # more) = map int [1..<length (rs @ x # more) + 1]"
proof -
  from append_locked_ok[OF assms(1-3)] have "journal_ok c (ctx_run_id st) (rs @ [x]) d1" by auto
  with assms(1) have "journal_codec c \<and> (\<exists>new. journal_ok c (ctx_run_id st) ((rs @ [x]) @ new) d1)"
    by (intro conjI exI[of _ "[]"]) simp_all
  from journal_log.inv_run[OF this assms(4), of sha] obtain more
    where ok: "journal_ok c (ctx_run_id st) (rs @ x # more) (run (ctx_step c sha) d1 es)" by auto
  have "fst (read_records c st (run (ctx_step c sha) d1 es)) = Inr (rs @ x # more)"
    using read_records_ok(1)[OF assms(1) ok] by (metis prod.collapse)
  with journal_ok_seqs[OF assms(1) ok] show ?thesis by blast
qed

lemma demo_append_runs:
  "append_locked c (\<lambda>s. s) demo_store (demo_append e) 5 demo_disk =
     (Inr (make_record demo_store (demo_append e) 1 5),
      demo_disk\<lparr>journal := Some (log_line c (make_record demo_store (demo_append e) 1 5)),
        manifest_cell := Manifest ((default_manifest ''run'' 2 0)
          \<lparr>mf_last_journal_seq := 1, mf_updated_at := 5\<rparr>)\<rparr>)"
  by (simp add: append_locked_def next_record_def fence_guard_def demo_store_def demo_disk_def
      load_manifest_def default_manifest_def read_records_def read_log_def make_record_def
      update_manifest_def manifest_fence_ok_def stamp_end_def requested_status_def append_bytes_def
      log_bytes_def Let_def)

theorem journal_durable_witness:
  "\<exists>more. fst (read_records demo_codec demo_store (run (ctx_step demo_codec (\<lambda>s. s))
      (snd (append_locked demo_codec (\<lambda>s. s) demo_store (demo_append ''e1'') 5 demo_disk))
      [CtxCrash demo_store (demo_append ''e2'') 6 3, CtxManifestLost,
       CtxAppend demo_store (demo_append ''e3'') 7])) =
     Inr (make_record demo_store (demo_append ''e1'') 1 5 # more)"
proof -
  have ok: "journal_ok demo_codec (ctx_run_id demo_store) [] demo_disk"
    using demo_disk_ok by (simp add: demo_store_def)
  have es: "list_all (event_ok (ctx_run_id demo_store)) [CtxCrash demo_store (demo_append ''e2'') 6 3,
      CtxManifestLost, CtxAppend demo_store (demo_append ''e3'') 7]" by simp
  from journal_durable[OF demo_codec_ok ok demo_append_runs es]
  show ?thesis by (auto simp: demo_append_runs)
qed

text \<open>C14. The journal is fenced: however lease managers and stores of a run interleave, with any
  clocks and crashes, the epochs of the bound stores' writes to the journal never decrease, and all
  writes of one epoch are by the owner of its lease.\<close>

theorem journal_writes_fenced:
  assumes "list_all store_move_ok es"
  shows "sorted (map snd (js_log (run (js_step c sha) \<lparr>js_disk = d, js_log = []\<rparr> es))) \<and>
    (\<forall>w1 \<in> set (js_log (run (js_step c sha) \<lparr>js_disk = d, js_log = []\<rparr> es)).
     \<forall>w2 \<in> set (js_log (run (js_step c sha) \<lparr>js_disk = d, js_log = []\<rparr> es)).
       snd w1 = snd w2 \<longrightarrow> fst w1 = fst w2)"
proof -
  let ?s = "run (js_step c sha) \<lparr>js_disk = d, js_log = []\<rparr> es"
  have "lease_inv (fenced_view \<lparr>js_disk = d, js_log = []\<rparr>)"
    by (simp add: fenced_view_def lease_inv_def)
  from journal_fence.inv_run[OF this assms, of c sha] have "lease_inv (fenced_view ?s)" .
  then have "sorted (map snd (js_log ?s))" and
    "\<forall>(o1, t1) \<in> set (js_log ?s). \<forall>(o2, t2) \<in> set (js_log ?s). t1 = t2 \<longrightarrow> o1 = o2"
    unfolding lease_inv_def fenced_view_def by simp_all
  then show ?thesis by fastforce
qed

definition bound_store :: "string \<Rightarrow> int \<Rightarrow> context_store" where
  "bound_store who token = \<lparr>ctx_run_id = ''run'', ctx_fence = Some token, ctx_owner = Some who\<rparr>"

definition demo_moves :: "run_event list" where
  "demo_moves = [LeaseMove (Acquire (demo_manager ''a'') 0),
     StoreMove (CtxAppend (bound_store ''a'' 1) (demo_append ''e1'') 5),
     LeaseMove (Acquire (demo_manager ''b'') 20),
     StoreMove (CtxAppend (bound_store ''a'' 1) (demo_append ''e2'') 21)]"

theorem journal_writes_fenced_witness:
  "js_log (run (js_step demo_codec (\<lambda>s. s)) \<lparr>js_disk = demo_disk, js_log = []\<rparr> demo_moves) = [(''a'', 1)] \<and>
   sorted (map snd (js_log (run (js_step demo_codec (\<lambda>s. s)) \<lparr>js_disk = demo_disk, js_log = []\<rparr> demo_moves)))"
proof -
  have "js_log (run (js_step demo_codec (\<lambda>s. s)) \<lparr>js_disk = demo_disk, js_log = []\<rparr> demo_moves) = [(''a'', 1)]"
    by (simp add: demo_moves_def demo_disk_def demo_manager_def acquire_cases live_def Let_def
        journal_writes_def next_record_def fence_guard_def bound_store_def load_manifest_def
        read_records_def read_log_def append_locked_def update_manifest_def manifest_fence_ok_def
        default_manifest_def)
  moreover have "list_all store_move_ok demo_moves" by (simp add: demo_moves_def)
  note journal_writes_fenced[OF this, of demo_codec "\<lambda>s. s" demo_disk]
  ultimately show ?thesis by blast
qed

text \<open>Reading a journal that needs no repair leaves it alone.\<close>

definition settled :: "journal_record log_codec \<Rightarrow> context_store \<Rightarrow> run_disk \<Rightarrow> bool" where
  "settled c st d \<longleftrightarrow> snd (read_log c (ctx_run_id st) True (journal d)) = journal d"

lemma read_records_settled:
  "settled c st d \<Longrightarrow> read_records c st d = (r, d') \<Longrightarrow> d' = d"
  by (auto simp: settled_def read_records_def split: prod.splits sum.splits)

lemma load_manifest_settled:
  assumes "settled c st d" "load_manifest c sha st now d = (r, d')"
  shows "journal d' = journal d"
proof -
  obtain r1 d1 where 1: "read_records c st d = (r1, d1)" by fastforce
  with assms read_records_settled[OF assms(1) 1] show ?thesis
    by (auto simp: load_manifest_def rebuild_manifest_def Let_def
        split: manifest_cell.splits sum.splits list.splits option.splits)
qed

lemma fence_guard_settled:
  assumes "settled c st d" "fence_guard c sha st now d = (r, d')"
  shows "journal d' = journal d"
proof -
  obtain r1 d1 where 1: "load_manifest c sha st now d = (r1, d1)" by fastforce
  with assms load_manifest_settled[OF assms(1) 1] show ?thesis
    by (auto simp: fence_guard_def split: option.splits sum.splits if_splits)
qed

lemma update_manifest_settled:
  assumes "settled c st d" "update_manifest c sha st resume advance True us now d = (r, d')"
  shows "journal d' = journal d"
proof -
  obtain r1 d1 where 1: "load_manifest c sha st now d = (r1, d1)" by fastforce
  from assms 1 load_manifest_settled[OF assms(1) 1] show ?thesis
    by (auto simp: update_manifest_def Let_def split: sum.splits if_splits)
qed

lemma next_record_settled:
  assumes "settled c st d" "next_record c sha st a now d = (r, d')"
  shows "journal d' = journal d"
proof -
  obtain r1 d1 where 1: "fence_guard c sha st now d = (r1, d1)" by fastforce
  have s1: "settled c st d1" and j1: "journal d1 = journal d"
    using fence_guard_settled[OF assms(1) 1] assms(1) by (simp_all add: settled_def)
  obtain r2 d2 where 2: "load_manifest c sha st now d1 = (r2, d2)" by fastforce
  have s2: "settled c st d2" and j2: "journal d2 = journal d1"
    using load_manifest_settled[OF s1 2] s1 by (simp_all add: settled_def)
  obtain r3 d3 where 3: "read_records c st d2 = (r3, d3)" by fastforce
  from assms(2) 1 2 3 j1 j2 read_records_settled[OF s2 3] show ?thesis
    by (auto simp: next_record_def split: sum.splits)
qed

text \<open>A crash that loses only the line break of an append ruins the journal one append later:
  the record is still read back, but the next append that succeeds writes onto the same line, after
  which every reader reports corruption, so all records of the run are lost to recovery.\<close>

lemma lost_newline_corrupts:
  assumes "journal_codec c" "journal_ok c (ctx_run_id st) rs d"
    and "next_record c sha st a now d = (Inr x, d1)"
    and "d2 = append_torn c sha st a now (length (lc_dump c x)) d"
    and "append_locked c sha st a' now' d2 = (Inr y, d3)"
  shows "fst (read_records c st d2) = Inr (rs @ [x]) \<and>
    fst (read_records c st d3) = Inl (JournalCorrupted ''journal_corrupted'')"
proof -
  have codec: "codec_ok c" using assms(1) by (simp add: journal_codec_def)
  from next_record_ok[OF assms(1-3)] have ok1: "journal_ok c (ctx_run_id st) rs d1"
    and x: "log_bytes (journal d1) = log_text c rs" "jr_seq x = int (length rs) + 1"
      "jr_run_id x = ctx_run_id st" by auto
  note num = journal_ok_numbered[OF ok1]
  have numx: "numbered_from c (ctx_run_id st) 1 (rs @ [x])"
    using num x(2,3) assms(1) by (simp add: numbered_append journal_codec_def)
  have j2: "journal d2 = Some (log_text c rs @ lc_dump c x)"
    using assms(3,4) x(1) by (simp add: append_torn_def append_bytes_def log_line_def)
  note read2 = unbroken_read[OF codec numx]
  from j2 read2 have s2: "settled c st d2" by (simp add: settled_def)
  obtain r3 d2' where nxt: "next_record c sha st a' now' d2 = (r3, d2')" by fastforce
  from next_record_settled[OF s2 nxt] j2 have j2': "journal d2' = Some (log_text c rs @ lc_dump c x)" by simp
  from assms(5) nxt obtain z where z: "r3 = Inr z" by (cases r3) (auto simp: append_locked_def)
  let ?d = "d2'\<lparr>journal := append_bytes (log_line c z) (journal d2')\<rparr>"
  note bad = unbroken_append[OF codec num, of z x]
  from bad j2' have s: "settled c st ?d" by (simp add: settled_def)
  obtain r4 d4 where upd: "update_manifest c sha st False False True [SetLastJournalSeq (jr_seq z)] now' ?d
      = (r4, d4)" by fastforce
  from update_manifest_settled[OF s upd] assms(5) nxt z upd
  have "journal d3 = journal ?d" by (auto simp: append_locked_def split: sum.splits)
  with bad j2' j2 read2 show ?thesis by (simp add: read_records_def)
qed

abbreviation demo_rec :: "string \<Rightarrow> int \<Rightarrow> seconds \<Rightarrow> journal_record" where
  "demo_rec e n now \<equiv> make_record demo_store (demo_append e) n now"

lemma demo_next: "next_record c (\<lambda>s. s) demo_store (demo_append e) 5 demo_disk = (Inr (demo_rec e 1 5), demo_disk)"
  by (simp add: next_record_def fence_guard_def demo_store_def demo_disk_def load_manifest_def
      default_manifest_def read_records_def read_log_def)

lemma lost_newline_corrupts_witness:
  "\<exists>d2 d3. d2 = append_torn demo_codec (\<lambda>s. s) demo_store (demo_append ''e1'') 5
       (length (lc_dump demo_codec (demo_rec ''e1'' 1 5))) demo_disk \<and>
     append_locked demo_codec (\<lambda>s. s) demo_store (demo_append ''e2'') 6 d2 = (Inr (demo_rec ''e2'' 2 6), d3) \<and>
     fst (read_records demo_codec demo_store d2) = Inr [demo_rec ''e1'' 1 5] \<and>
     fst (read_records demo_codec demo_store d3) = Inl (JournalCorrupted ''journal_corrupted'')"
proof -
  let ?x = "demo_rec ''e1'' 1 5"
  let ?d2 = "append_torn demo_codec (\<lambda>s. s) demo_store (demo_append ''e1'') 5 (length (lc_dump demo_codec ?x)) demo_disk"
  have ok: "journal_ok demo_codec (ctx_run_id demo_store) [] demo_disk"
    using demo_disk_ok by (simp add: demo_store_def)
  have codec: "codec_ok demo_codec" and seqs: "lc_seq demo_codec = jr_seq" "lc_run demo_codec = jr_run_id"
    using demo_codec_ok by (simp_all add: journal_codec_def)
  have d2: "?d2 = demo_disk\<lparr>journal := Some (lc_dump demo_codec ?x)\<rparr>"
    by (simp add: append_torn_def demo_next append_bytes_def log_bytes_def log_line_def)
      (simp add: demo_disk_def)
  have "numbered_from demo_codec ''run'' 1 ([] @ [?x])"
    by (simp add: seqs make_record_def demo_store_def)
  from unbroken_read[OF codec this]
  have read: "read_log demo_codec ''run'' True (Some (lc_dump demo_codec ?x)) =
      (Inr [?x], Some (lc_dump demo_codec ?x))" by (simp add: log_text_def)
  obtain d3 where d3: "append_locked demo_codec (\<lambda>s. s) demo_store (demo_append ''e2'') 6 ?d2 =
      (Inr (demo_rec ''e2'' 2 6), d3)"
    unfolding d2 using read
    by (simp add: append_locked_def next_record_def fence_guard_def demo_store_def demo_disk_def
        load_manifest_def default_manifest_def read_records_def make_record_def
        update_manifest_def manifest_fence_ok_def Let_def)
  from lost_newline_corrupts[OF demo_codec_ok ok demo_next refl d3] d3 show ?thesis by auto
qed

text \<open>Rebuilding the manifest forgets the fence: when the manifest of a fenced run cannot be
  read, the one rebuilt from a readable journal has fence token 0 and no owner, and a store that
  was never bound to an epoch passes the fence guard, which the old manifest had refused.\<close>

lemma rebuild_forgets_fence:
  assumes "journal_codec c" "journal_ok c (ctx_run_id st) rs d" "rs \<noteq> []"
    and "manifest_cell d = Manifest old" "0 < mf_fence_token old"
    and "ctx_fence st = None \<or> ctx_owner st = None"
    and "rebuild_all rs (default_manifest (ctx_run_id st) (jr_schema_version (hd rs)) now) = Inr m"
  shows "fst (fence_guard c sha st now d) = Inl CtxFenceLost \<and>
    fst (fence_guard c sha st now (d\<lparr>manifest_cell := BadManifest\<rparr>)) = Inr () \<and>
    (\<exists>m'. manifest_cell (snd (load_manifest c sha st now (d\<lparr>manifest_cell := BadManifest\<rparr>))) = Manifest m' \<and>
       mf_fence_token m' = 0 \<and> mf_fence_owner_id m' = None)"
proof -
  let ?d = "d\<lparr>manifest_cell := BadManifest\<rparr>"
  have first: "mf_fence_token m1 = mf_fence_token m0 \<and> mf_fence_owner_id m1 = mf_fence_owner_id m0"
    if "rebuild_first r m0 = Inr m1" for r m0 m1
    using that by (auto simp: rebuild_first_def result_elims split: if_splits)
  have each: "mf_fence_token m1 = mf_fence_token m0 \<and> mf_fence_owner_id m1 = mf_fence_owner_id m0"
    if step: "rebuild_record r m0 = Inr m1" for r m0 m1
  proof -
    from step obtain m2 where m2: "rebuild_first r m0 = Inr m2" and
      "mf_fence_token m1 = mf_fence_token m2 \<and> mf_fence_owner_id m1 = mf_fence_owner_id m2"
      by (cases "jr_type r") (auto simp: rebuild_record_def result_elims)
    with first[OF m2] show ?thesis by simp
  qed
  have "mf_fence_token m1 = mf_fence_token m0 \<and> mf_fence_owner_id m1 = mf_fence_owner_id m0"
    if "rebuild_all xs m0 = Inr m1" for xs m0 m1
    using that
  proof (induction xs arbitrary: m0)
    case (Cons r xs)
    then obtain m2 where m2: "rebuild_record r m0 = Inr m2" and rest: "rebuild_all xs m2 = Inr m1"
      by (auto simp: result_elims)
    from each[OF m2] Cons.IH[OF rest] show ?case by simp
  qed simp
  from this[OF assms(7)] have m: "mf_fence_token m = 0" "mf_fence_owner_id m = None"
    by (simp_all add: default_manifest_def)
  obtain r1 d1 where read: "read_records c st ?d = (r1, d1)" by fastforce
  note ok = read_records_ok[OF assms(1) other_files_ok(1)[OF assms(2)] read]
  obtain x xs where rs: "rs = x # xs" using assms(3) by (cases rs) auto
  obtain m' where load: "load_manifest c sha st now ?d = (Inr m', d1\<lparr>manifest_cell := Manifest m'\<rparr>)"
    and m': "mf_fence_token m' = 0" "mf_fence_owner_id m' = None"
    using assms(7) read ok(1) rs m
    by (auto simp: load_manifest_def rebuild_manifest_def Let_def split: option.splits)
  have "fst (fence_guard c sha st now d) = Inl CtxFenceLost"
    using assms(4-6) by (auto simp: fence_guard_def load_manifest_def split: option.splits)
  moreover have "fst (fence_guard c sha st now ?d) = Inr ()"
    using load m' assms(6) by (auto simp: fence_guard_def split: option.splits)
  ultimately show ?thesis using load m' by simp
qed

lemma rebuild_forgets_fence_witness:
  "(let x = demo_rec ''e1'' 1 5;
        d = demo_disk\<lparr>journal := Some (log_line demo_codec x),
          manifest_cell := Manifest ((default_manifest ''run'' 2 0)\<lparr>mf_fence_token := 3\<rparr>)\<rparr>
    in fst (fence_guard demo_codec (\<lambda>s. s) demo_store 7 d) = Inl CtxFenceLost \<and>
       fst (fence_guard demo_codec (\<lambda>s. s) demo_store 7 (d\<lparr>manifest_cell := BadManifest\<rparr>)) = Inr ())"
proof -
  let ?x = "demo_rec ''e1'' 1 5"
  let ?m = "(default_manifest ''run'' 2 0)\<lparr>mf_fence_token := 3\<rparr>"
  let ?d = "demo_disk\<lparr>journal := Some (log_line demo_codec ?x), manifest_cell := Manifest ?m\<rparr>"
  have seqs: "lc_seq demo_codec = jr_seq" "lc_run demo_codec = jr_run_id"
    using demo_codec_ok by (simp_all add: journal_codec_def)
  have "log_holds demo_codec ''run'' [?x] (Some (log_line demo_codec ?x))"
    by (rule log_holds_clean)
      (simp_all add: log_bytes_def log_text_def seqs make_record_def demo_store_def)
  then have ok: "journal_ok demo_codec (ctx_run_id demo_store) [?x] ?d"
    by (simp add: journal_ok_def demo_store_def manifest_behind_def default_manifest_def)
  obtain m where "rebuild_all [?x] (default_manifest (ctx_run_id demo_store) (jr_schema_version (hd [?x])) 7) = Inr m"
    by (simp add: rebuild_record_def rebuild_first_def make_record_def demo_append_def jget_def jget_or_def)
  from rebuild_forgets_fence[OF demo_codec_ok ok _ _ _ _ this, of ?m "\<lambda>s. s"]
  show ?thesis by (simp add: Let_def demo_store_def)
qed

end
