(* ===== verification/Replay.thy ===== *)
theory Replay
  imports Run_Context
begin

text \<open>
  Replaying a run from its journal (\<open>_encode\<close>, \<open>_decode\<close> and \<open>replay\<close> of
  \<open>src/open_deep_research/run_context.py\<close>) and the state updates of the hand-written runtime
  (\<open>src/open_deep_research/runtime.py\<close>).

  A value of the running program is an \<open>'m rvalue\<close>: JSON with message objects \<open>'m\<close> in it. The
  message classes are a library: \<open>'m message_lib\<close> holds what the code uses of them, the
  constructors, the test for the remove-all marker, the two conversions to and from dictionaries,
  and the text of values that are not strings. Artifacts are a map from relative paths to the JSON
  written there; the names \<open>uuid4\<close> draws are the sequence \<open>fresh\<close>.
\<close>

section \<open>Values\<close>

datatype 'm rvalue =
  RNull | RBool bool | RInt int | RFloat rat | RStr string | RList "'m rvalue list"
| RObj "(string \<times> 'm rvalue) list" | RMsg 'm

record 'm message_lib =
  lib_human :: "'m rvalue \<Rightarrow> 'm"
  lib_ai :: "'m rvalue \<Rightarrow> 'm"
  lib_system :: "'m rvalue \<Rightarrow> 'm"
  lib_tool :: "'m rvalue \<Rightarrow> string \<Rightarrow> string \<Rightarrow> 'm"
  lib_remove_all :: "'m \<Rightarrow> bool"
  lib_to_dict :: "'m \<Rightarrow> (string \<times> json) list"
  lib_from_dict :: "json \<Rightarrow> 'm option"
  lib_text :: "'m rvalue \<Rightarrow> string"
  lib_dumps :: "json \<Rightarrow> string"

datatype replay_error = UnsupportedRole | PythonError | MessageCorrupted | BadArtifactPath | RvOutside

fun rv_truthy :: "'m rvalue \<Rightarrow> bool" where
  "rv_truthy RNull = False"
| "rv_truthy (RBool b) = b"
| "rv_truthy (RInt i) = (i \<noteq> 0)"
| "rv_truthy (RFloat r) = (r \<noteq> 0)"
| "rv_truthy (RStr s) = (s \<noteq> [])"
| "rv_truthy (RList xs) = (xs \<noteq> [])"
| "rv_truthy (RObj d) = (d \<noteq> [])"
| "rv_truthy (RMsg m) = True"

definition rv_get :: "string \<Rightarrow> 'm rvalue \<Rightarrow> (string \<times> 'm rvalue) list \<Rightarrow> 'm rvalue" where
  "rv_get k dflt d = (case dict_get d k of None \<Rightarrow> dflt | Some v \<Rightarrow> v)"

text \<open>\<open>list(v or [])\<close>; the fields of a message are not modelled.\<close>

definition rv_list :: "'m rvalue \<Rightarrow> replay_error + 'm rvalue list" where
  "rv_list v =
     (if \<not> rv_truthy v then Inr []
      else case v of
        RList xs \<Rightarrow> Inr xs
      | RStr s \<Rightarrow> Inr (map (\<lambda>c. RStr [c]) s)
      | RObj d \<Rightarrow> Inr (map (RStr \<circ> fst) d)
      | RMsg m \<Rightarrow> Inl RvOutside
      | _ \<Rightarrow> Inl PythonError)"

definition rv_text :: "'m message_lib \<Rightarrow> 'm rvalue \<Rightarrow> string" where
  "rv_text lib v = (case v of RStr s \<Rightarrow> s | _ \<Rightarrow> lib_text lib v)"

fun rv_int :: "'m rvalue \<Rightarrow> replay_error + int" where
  "rv_int (RInt i) = Inr i"
| "rv_int (RBool b) = Inr (if b then 1 else 0)"
| "rv_int (RFloat r) = Inr (if 0 \<le> r then \<lfloor>r\<rfloor> else \<lceil>r\<rceil>)"
| "rv_int (RStr s) = Inl RvOutside"
| "rv_int _ = Inl PythonError"

section \<open>State updates\<close>

text \<open>A role that is a list or a dictionary cannot be looked up in a set.\<close>

definition message_from_dict :: "'m message_lib \<Rightarrow> (string \<times> 'm rvalue) list \<Rightarrow> replay_error + 'm" where
  "message_from_dict lib d =
     (let role = (if rv_truthy (rv_get ''role'' RNull d) then rv_get ''role'' RNull d
                  else rv_get ''type'' RNull d);
          content = rv_get ''content'' (RStr []) d
      in case role of
           RList _ \<Rightarrow> Inl PythonError
         | RObj _ \<Rightarrow> Inl PythonError
         | RStr r \<Rightarrow>
             if r = ''user'' \<or> r = ''human'' then Inr (lib_human lib content)
             else if r = ''assistant'' \<or> r = ''ai'' then Inr (lib_ai lib content)
             else if r = ''system'' then Inr (lib_system lib content)
             else if r = ''tool'' then Inr (lib_tool lib content (rv_text lib (rv_get ''name'' (RStr []) d))
               (rv_text lib (rv_get ''tool_call_id'' (RStr []) d)))
             else Inl UnsupportedRole
         | _ \<Rightarrow> Inl UnsupportedRole)"

definition normalize_messages ::
    "'m message_lib \<Rightarrow> 'm rvalue list \<Rightarrow> replay_error + 'm rvalue list" where
  "normalize_messages lib =
     res_map (\<lambda>v. case v of RObj d \<Rightarrow> res_bind (message_from_dict lib d) (\<lambda>m. Inr (RMsg m)) | _ \<Rightarrow> Inr v)"

definition removes_all :: "'m message_lib \<Rightarrow> 'm rvalue \<Rightarrow> bool" where
  "removes_all lib v = (case v of RMsg m \<Rightarrow> lib_remove_all lib m | _ \<Rightarrow> False)"

definition merge_sequence ::
    "'m message_lib \<Rightarrow> 'm rvalue \<Rightarrow> 'm rvalue \<Rightarrow> replay_error + 'm rvalue list" where
  "merge_sequence lib current new =
     res_bind (rv_list current) (\<lambda>base.
       let values = (case new of RList xs \<Rightarrow> xs | v \<Rightarrow> [v])
       in if list_ex (removes_all lib) values
          then normalize_messages lib (filter (\<lambda>v. \<not> removes_all lib v) values)
          else res_bind (normalize_messages lib values) (\<lambda>ms. Inr (base @ ms)))"

definition is_override :: "'m rvalue \<Rightarrow> bool" where
  "is_override v = (case v of RObj d \<Rightarrow> dict_get d ''type'' = Some (RStr ''override'') | _ \<Rightarrow> False)"

definition override_value :: "'m rvalue \<Rightarrow> 'm rvalue" where
  "override_value v = (case v of RObj d \<Rightarrow> rv_get ''value'' RNull d | _ \<Rightarrow> RNull)"

fun is_rlist :: "'m rvalue \<Rightarrow> bool" where
  "is_rlist (RList _) = True"
| "is_rlist _ = False"

definition merge_reducer_value :: "'m rvalue \<Rightarrow> 'm rvalue \<Rightarrow> replay_error + 'm rvalue" where
  "merge_reducer_value current new =
     (if is_override new then Inr (override_value new)
      else if is_rlist current \<or> is_rlist new
      then res_bind (rv_list current) (\<lambda>xs. res_bind (rv_list new) (\<lambda>ys. Inr (RList (xs @ ys))))
      else Inr new)"

definition MESSAGE_KEYS :: "string list" where
  "MESSAGE_KEYS = [''messages'', ''supervisor_messages'', ''researcher_messages'']"

definition REDUCER_KEYS :: "string list" where
  "REDUCER_KEYS =
     [''raw_notes'', ''notes'', ''completed_task_outputs'', ''memory_candidates'', ''human_feedback'',
      ''handoff_assessments'', ''candidate_registry'', ''document_registry'', ''evidence_registry'',
      ''web_research_iterations'', ''permission_denials'']"

definition updated_value ::
    "'m message_lib \<Rightarrow> string \<Rightarrow> 'm rvalue \<Rightarrow> 'm rvalue \<Rightarrow> replay_error + 'm rvalue" where
  "updated_value lib key current v =
     (if key \<in> set MESSAGE_KEYS
      then (if is_override v
            then res_bind (rv_list (override_value v)) (\<lambda>xs.
                 res_bind (normalize_messages lib xs) (\<lambda>ms. Inr (RList ms)))
            else res_bind (merge_sequence lib current v) (\<lambda>ms. Inr (RList ms)))
      else if key \<in> set REDUCER_KEYS then merge_reducer_value current v
      else Inr (if is_override v then override_value v else v))"

fun apply_items ::
    "'m message_lib \<Rightarrow> (string \<times> 'm rvalue) list \<Rightarrow> (string, 'm rvalue) dict \<Rightarrow>
      replay_error + (string, 'm rvalue) dict" where
  "apply_items lib [] st = Inr st"
| "apply_items lib ((k, v) # items) st =
     res_bind (updated_value lib k (rv_get k RNull st) v) (\<lambda>x. apply_items lib items (dict_set k x st))"

definition apply_update_to_state ::
    "'m message_lib \<Rightarrow> (string, 'm rvalue) dict \<Rightarrow> 'm rvalue \<Rightarrow> replay_error + (string, 'm rvalue) dict" where
  "apply_update_to_state lib st update =
     (if \<not> rv_truthy update then Inr st
      else case update of RObj items \<Rightarrow> apply_items lib items st | _ \<Rightarrow> Inl PythonError)"

section \<open>Payloads\<close>

text \<open>A list comprehension that threads a state.\<close>

fun st_map :: "('a \<Rightarrow> 's \<Rightarrow> 'b \<times> 's) \<Rightarrow> 'a list \<Rightarrow> 's \<Rightarrow> 'b list \<times> 's" where
  "st_map f [] s = ([], s)"
| "st_map f (x # xs) s =
     (case f x s of (y, s1) \<Rightarrow> (case st_map f xs s1 of (ys, s2) \<Rightarrow> (y # ys, s2)))"

lemma st_map_cong [fundef_cong]:
  "xs = ys \<Longrightarrow> (\<And>x. x \<in> set ys \<Longrightarrow> f x = g x) \<Longrightarrow> s = t \<Longrightarrow> st_map f xs s = st_map g ys t"
proof (induction xs arbitrary: ys s t)
  case (Cons x xs)
  then show ?case by (cases ys) (auto split: prod.splits)
qed auto

record artifact_state =
  artifacts :: "(string, json) dict"
  drawn :: nat
  artifact_refs :: "string list"

definition artifact_path :: "(nat \<Rightarrow> string) \<Rightarrow> nat \<Rightarrow> string" where
  "artifact_path fresh n = ''artifacts/messages/'' @ fresh n @ ''.json''"

definition message_content :: "'m message_lib \<Rightarrow> 'm \<Rightarrow> string" where
  "message_content lib m =
     (let inner = (case jget_or ''data'' (JObj []) (lib_to_dict lib m) of JObj d \<Rightarrow> d | _ \<Rightarrow> [])
      in case jget_or ''content'' (JStr []) inner of JStr s \<Rightarrow> s | v \<Rightarrow> lib_dumps lib v)"

definition encode_message ::
    "'m message_lib \<Rightarrow> (string \<Rightarrow> string) \<Rightarrow> int \<Rightarrow> (nat \<Rightarrow> string) \<Rightarrow> 'm \<Rightarrow> artifact_state \<Rightarrow>
      json \<times> artifact_state" where
  "encode_message lib sha inline_max fresh m s =
     (let serialized = JObj (lib_to_dict lib m); text = message_content lib m
      in if int (length text) > inline_max
         then (let path = artifact_path fresh (drawn s)
               in (JObj [(''__message_artifact__'', JStr path),
                         (''sha256'', JStr (sha (lib_dumps lib serialized))),
                         (''length'', JInt (int (length text))),
                         (''preview'', JStr (redact_text (take 512 text)))],
                   s\<lparr>artifacts := dict_set path
                        (sanitize (JObj [(''kind'', JStr ''message''), (''message'', serialized)])) (artifacts s),
                     drawn := drawn s + 1, artifact_refs := artifact_refs s @ [path]\<rparr>))
         else (JObj [(''__message__'', sanitize serialized)], s))"

fun encode_payload ::
    "'m message_lib \<Rightarrow> (string \<Rightarrow> string) \<Rightarrow> int \<Rightarrow> (nat \<Rightarrow> string) \<Rightarrow> 'm rvalue \<Rightarrow> artifact_state \<Rightarrow>
      json \<times> artifact_state" where
  "encode_payload lib sha mx fresh (RMsg m) s = encode_message lib sha mx fresh m s"
| "encode_payload lib sha mx fresh (RObj d) s =
     (case st_map (\<lambda>(k, v) s. if secret_key k then ((k, JStr ''[REDACTED]''), s)
         else (case encode_payload lib sha mx fresh v s of (j, s') \<Rightarrow> ((k, j), s'))) d s of
        (items, s') \<Rightarrow> (JObj items, s'))"
| "encode_payload lib sha mx fresh (RList xs) s =
     (case st_map (encode_payload lib sha mx fresh) xs s of (js, s') \<Rightarrow> (JList js, s'))"
| "encode_payload lib sha mx fresh (RStr t) s = (JStr (redact_text t), s)"
| "encode_payload lib sha mx fresh RNull s = (JNull, s)"
| "encode_payload lib sha mx fresh (RBool b) s = (JBool b, s)"
| "encode_payload lib sha mx fresh (RInt i) s = (JInt i, s)"
| "encode_payload lib sha mx fresh (RFloat r) s = (JFloat r, s)"

fun path_parts :: "string \<Rightarrow> string \<Rightarrow> string list" where
  "path_parts cur [] = [cur]"
| "path_parts cur (c # s) = (if c = CHR ''/'' then cur # path_parts [] s else path_parts (cur @ [c]) s)"

text \<open>\<open>_resolve_artifact\<close>, for a run context without symbolic links.\<close>

definition inside_context :: "string \<Rightarrow> bool" where
  "inside_context p \<longleftrightarrow> \<not> starts_with p ''/'' \<and> ''..'' \<notin> set (path_parts [] p)"

definition load_message ::
    "'m message_lib \<Rightarrow> (string, json) dict \<Rightarrow> json \<Rightarrow> replay_error + 'm rvalue" where
  "load_message lib files v =
     (case v of
        JStr path \<Rightarrow>
          if \<not> inside_context path then Inl BadArtifactPath
          else (case dict_get files path of
                  Some (JObj d) \<Rightarrow>
                    (case dict_get d ''message'' of
                       None \<Rightarrow> Inl MessageCorrupted
                     | Some j \<Rightarrow> (case lib_from_dict lib j of
                                   None \<Rightarrow> Inl MessageCorrupted | Some m \<Rightarrow> Inr (RMsg m)))
                | _ \<Rightarrow> Inl MessageCorrupted)
      | _ \<Rightarrow> Inl PythonError)"

fun decode_payload ::
    "'m message_lib \<Rightarrow> (string, json) dict \<Rightarrow> json \<Rightarrow> replay_error + 'm rvalue" where
  "decode_payload lib files (JObj d) =
     (case dict_get d ''__message__'' of
        Some j \<Rightarrow> (case lib_from_dict lib j of None \<Rightarrow> Inl PythonError | Some m \<Rightarrow> Inr (RMsg m))
      | None \<Rightarrow>
     (case dict_get d ''__message_artifact__'' of
        Some j \<Rightarrow> load_message lib files j
      | None \<Rightarrow>
          res_bind (res_map (\<lambda>(k, v). res_bind (decode_payload lib files v) (\<lambda>x. Inr (k, x))) d)
            (\<lambda>items. Inr (RObj items))))"
| "decode_payload lib files (JList xs) =
     res_bind (res_map (decode_payload lib files) xs) (\<lambda>ys. Inr (RList ys))"
| "decode_payload lib files (JStr s) = Inr (RStr s)"
| "decode_payload lib files JNull = Inr RNull"
| "decode_payload lib files (JBool b) = Inr (RBool b)"
| "decode_payload lib files (JInt i) = Inr (RInt i)"
| "decode_payload lib files (JFloat r) = Inr (RFloat r)"

section \<open>Replaying\<close>

record 'm replay_state =
  rp_state :: "(string, 'm rvalue) dict"
  rp_supervisor :: "(string, 'm rvalue) dict"
  rp_queries :: "(string, (string, 'm rvalue) dict) dict"
  rp_stage :: string
  rp_next :: string

definition replay_delta ::
    "'m message_lib \<Rightarrow> (string, 'm rvalue) dict \<Rightarrow> 'm replay_state \<Rightarrow> replay_error + 'm replay_state" where
  "replay_delta lib pay st =
     (let update = rv_get ''update'' (RObj []) pay in
      if rv_get ''scope'' (RStr ''main'') pay = RStr ''supervisor''
      then res_bind (apply_update_to_state lib (rp_supervisor st) update) (\<lambda>s. Inr (st\<lparr>rp_supervisor := s\<rparr>))
      else res_bind (apply_update_to_state lib (rp_state st) update) (\<lambda>s. Inr (st\<lparr>rp_state := s\<rparr>)))"

definition replay_query ::
    "'m message_lib \<Rightarrow> (string, 'm rvalue) dict \<Rightarrow> 'm replay_state \<Rightarrow> replay_error + 'm replay_state" where
  "replay_query lib pay st =
     (let key = rv_text lib (rv_get ''state_key'' (RStr []) pay) in
      case rv_get ''state'' RNull pay of
        RObj q \<Rightarrow>
          if key = [] then Inr st
          else (case dict_get (rp_queries st) key of
                  None \<Rightarrow> Inr (st\<lparr>rp_queries := dict_set key q (rp_queries st)\<rparr>)
                | Some previous \<Rightarrow>
                    res_bind (rv_int (rv_get ''revision'' (RInt 0) q)) (\<lambda>n.
                    res_bind (rv_int (rv_get ''revision'' (RInt 0) previous)) (\<lambda>old.
                      Inr (if n \<ge> old then st\<lparr>rp_queries := dict_set key q (rp_queries st)\<rparr> else st))))
      | _ \<Rightarrow> Inr st)"

text \<open>What a record does once its payload is decoded.\<close>

definition replay_entry ::
    "'m message_lib \<Rightarrow> record_type \<Rightarrow> string \<Rightarrow> 'm rvalue \<Rightarrow> 'm replay_state \<Rightarrow>
      replay_error + 'm replay_state" where
  "replay_entry lib kind stage v st =
     (case v of
        RObj pay \<Rightarrow>
          (case kind of
             StateDelta \<Rightarrow> replay_delta lib pay st
           | MessageDelta \<Rightarrow> replay_delta lib pay st
           | ContextCompacted \<Rightarrow> replay_delta lib pay st
           | StageCheckpoint \<Rightarrow>
               Inr (st\<lparr>rp_stage := stage,
                 rp_next := rv_text lib (rv_get ''next_stage'' (RStr (rp_next st)) pay)\<rparr>)
           | QueryStateRecord \<Rightarrow> replay_query lib pay st
           | _ \<Rightarrow> Inr st)
      | _ \<Rightarrow> if kind \<in> {RunStatus, ArtifactCommitted} then Inr st else Inl PythonError)"

definition replay_record ::
    "'m message_lib \<Rightarrow> (string, json) dict \<Rightarrow> journal_record \<Rightarrow> 'm replay_state \<Rightarrow>
      replay_error + 'm replay_state" where
  "replay_record lib files r st =
     res_bind (decode_payload lib files (JObj (jr_payload r)))
       (\<lambda>v. replay_entry lib (jr_type r) (jr_stage r) v st)"

fun replay_records ::
    "'m message_lib \<Rightarrow> (string, json) dict \<Rightarrow> journal_record list \<Rightarrow> 'm replay_state \<Rightarrow>
      replay_error + 'm replay_state" where
  "replay_records lib files [] st = Inr st"
| "replay_records lib files (r # rs) st =
     res_bind (replay_record lib files r st) (replay_records lib files rs)"

definition replay_start :: "run_manifest \<Rightarrow> 'm replay_state" where
  "replay_start m = \<lparr>rp_state = [], rp_supervisor = [], rp_queries = [],
     rp_stage = mf_last_stable_stage m, rp_next = mf_next_stage m\<rparr>"

text \<open>The manifest of the result, which is not written back, and the replayed states.\<close>

definition replay_run ::
    "journal_record log_codec \<Rightarrow> (string \<Rightarrow> string) \<Rightarrow> 'm message_lib \<Rightarrow> (string, json) dict \<Rightarrow>
      context_store \<Rightarrow> seconds \<Rightarrow> run_disk \<Rightarrow>
      ((context_error + replay_error) + run_manifest \<times> 'm replay_state \<times> journal_record list) \<times> run_disk" where
  "replay_run c sha lib files st now d0 =
     (case load_manifest c sha st now d0 of
        (Inl e, d) \<Rightarrow> (Inl (Inl e), d)
      | (Inr m, d1) \<Rightarrow>
     (case read_records c st d1 of
        (Inl e, d) \<Rightarrow> (Inl (Inl e), d)
      | (Inr rs, d2) \<Rightarrow>
     (case replay_records lib files rs (replay_start m) of
        Inl e \<Rightarrow> (Inl (Inr e), d2)
      | Inr s \<Rightarrow>
          (let m' = m\<lparr>mf_last_stable_stage := rp_stage s, mf_next_stage := rp_next s,
                 mf_last_journal_seq := (if rs = [] then 0 else jr_seq (last rs))\<rparr>
           in if mf_brief_sha256 m' = None \<or> mf_brief_sha256 m' = Some []
              then (Inr (m', s, rs), d2)
              else (case load_research_brief c sha st True now d2 of
                      (Inl e, d3) \<Rightarrow> (Inl (Inl e), d3)
                    | (Inr text, d3) \<Rightarrow>
                        (Inr (m', s\<lparr>rp_state := dict_set ''research_brief'' (RStr text) (rp_state s)\<rparr>, rs), d3))))))"

section \<open>Payloads survive the journal\<close>

text \<open>Values that the redaction leaves alone and whose keys are not the markers of encoded
  messages; a message is restored from its dictionary.\<close>

fun clean_value :: "'m message_lib \<Rightarrow> 'm rvalue \<Rightarrow> bool" where
  "clean_value lib (RMsg m) \<longleftrightarrow> lib_from_dict lib (sanitize (JObj (lib_to_dict lib m))) = Some m"
| "clean_value lib (RObj d) \<longleftrightarrow>
     (\<forall>(k, v) \<in> set d. \<not> secret_key k \<and> k \<noteq> ''__message__'' \<and> k \<noteq> ''__message_artifact__'' \<and> clean_value lib v)"
| "clean_value lib (RList xs) \<longleftrightarrow> (\<forall>x \<in> set xs. clean_value lib x)"
| "clean_value lib (RStr s) \<longleftrightarrow> redact_text s = s"
| "clean_value lib _ \<longleftrightarrow> True"

text \<open>Names drawn from \<open>uuid4().hex\<close>: no two alike, and no path separator in them.\<close>

definition fresh_names :: "(nat \<Rightarrow> string) \<Rightarrow> bool" where
  "fresh_names fresh \<longleftrightarrow> inj fresh \<and> (\<forall>n. CHR ''/'' \<notin> set (fresh n))"

lemma artifact_path_inj: "fresh_names fresh \<Longrightarrow> artifact_path fresh i = artifact_path fresh j \<longleftrightarrow> i = j"
  by (auto simp: fresh_names_def artifact_path_def inj_def)

lemma path_parts_plain: "CHR ''/'' \<notin> set s \<Longrightarrow> path_parts cur s = [cur @ s]"
  by (induction s arbitrary: cur) auto

lemma path_parts_sep: "CHR ''/'' \<notin> set s \<Longrightarrow> path_parts cur (s @ CHR ''/'' # rest) = (cur @ s) # path_parts [] rest"
  by (induction s arbitrary: cur) auto

lemma artifact_path_inside:
  assumes "fresh_names fresh"
  shows "inside_context (artifact_path fresh n)"
proof -
  let ?file = "fresh n @ ''.json''"
  have nosep: "CHR ''/'' \<notin> set ?file" using assms by (simp add: fresh_names_def)
  have "artifact_path fresh n = ''artifacts'' @ CHR ''/'' # (''messages'' @ CHR ''/'' # ?file)"
    by (simp add: artifact_path_def)
  then have "path_parts [] (artifact_path fresh n) = [''artifacts'', ''messages'', ?file]"
    using path_parts_sep[of "''artifacts''" "[]"] path_parts_sep[of "''messages''" "[]" ?file]
      path_parts_plain[OF nosep, of "[]"] by simp
  moreover have "?file \<noteq> ''..''"
  proof
    assume "?file = ''..''"
    then have "length ?file = 2" by simp
    then show False by simp
  qed
  ultimately show ?thesis by (simp add: inside_context_def starts_with_def artifact_path_def)
qed

text \<open>Between two states of the encoder only newly drawn artifacts are written.\<close>

definition draws :: "(nat \<Rightarrow> string) \<Rightarrow> artifact_state \<Rightarrow> artifact_state \<Rightarrow> bool" where
  "draws fresh s s' \<longleftrightarrow>
     drawn s \<le> drawn s' \<and>
     (\<forall>p. (\<forall>i. drawn s \<le> i \<longrightarrow> i < drawn s' \<longrightarrow> p \<noteq> artifact_path fresh i) \<longrightarrow>
        dict_get (artifacts s') p = dict_get (artifacts s) p)"

text \<open>A set of files that has the artifacts drawn between two states.\<close>

definition has_drawn :: "(nat \<Rightarrow> string) \<Rightarrow> artifact_state \<Rightarrow> artifact_state \<Rightarrow> (string, json) dict \<Rightarrow> bool" where
  "has_drawn fresh s s' files \<longleftrightarrow>
     (\<forall>i. drawn s \<le> i \<longrightarrow> i < drawn s' \<longrightarrow>
        dict_get files (artifact_path fresh i) = dict_get (artifacts s') (artifact_path fresh i))"

lemma draws_refl [simp]: "draws fresh s s"
  by (simp add: draws_def)

lemma draws_trans:
  assumes "fresh_names fresh" "draws fresh s s1" "draws fresh s1 s2"
  shows "draws fresh s s2"
  unfolding draws_def
proof (intro conjI allI impI)
  show "drawn s \<le> drawn s2" using assms(2,3) by (simp add: draws_def)
  fix p assume p: "\<forall>i. drawn s \<le> i \<longrightarrow> i < drawn s2 \<longrightarrow> p \<noteq> artifact_path fresh i"
  then have "dict_get (artifacts s2) p = dict_get (artifacts s1) p"
    and "dict_get (artifacts s1) p = dict_get (artifacts s) p"
    using assms(2,3) by (simp_all add: draws_def)
  then show "dict_get (artifacts s2) p = dict_get (artifacts s) p" by simp
qed

lemma has_drawn_split:
  assumes "fresh_names fresh" "draws fresh s s1" "draws fresh s1 s2" "has_drawn fresh s s2 files"
  shows "has_drawn fresh s s1 files" and "has_drawn fresh s1 s2 files"
proof -
  have le: "drawn s \<le> drawn s1" "drawn s1 \<le> drawn s2" using assms(2,3) by (simp_all add: draws_def)
  have "dict_get (artifacts s2) (artifact_path fresh i) = dict_get (artifacts s1) (artifact_path fresh i)"
    if "i < drawn s1" for i
    using assms(3) that artifact_path_inj[OF assms(1)] by (auto simp: draws_def)
  with assms(4) le show "has_drawn fresh s s1 files" by (simp add: has_drawn_def)
  from assms(4) le show "has_drawn fresh s1 s2 files" by (simp add: has_drawn_def)
qed

text \<open>The encoding of \<open>v\<close> as \<open>j\<close>, from \<open>s\<close> to \<open>s'\<close>, is read back from any such files.\<close>

definition encodes ::
    "'m message_lib \<Rightarrow> (nat \<Rightarrow> string) \<Rightarrow> 'm rvalue \<Rightarrow> json \<Rightarrow> artifact_state \<Rightarrow> artifact_state \<Rightarrow> bool" where
  "encodes lib fresh v j s s' \<longleftrightarrow>
     draws fresh s s' \<and> (\<forall>files. has_drawn fresh s s' files \<longrightarrow> decode_payload lib files j = Inr v)"

lemma encode_message_ok:
  assumes "fresh_names fresh" "clean_value lib (RMsg m)" "encode_message lib sha mx fresh m s = (j, s')"
  shows "encodes lib fresh (RMsg m) j s s'"
proof (cases "int (length (message_content lib m)) > mx")
  case False
  with assms show ?thesis by (auto simp: encode_message_def Let_def encodes_def)
next
  case True
  let ?path = "artifact_path fresh (drawn s)"
  let ?file = "sanitize (JObj [(''kind'', JStr ''message''), (''message'', JObj (lib_to_dict lib m))])"
  from True assms(3) have j: "dict_get d ''__message__'' = None \<and> dict_get d ''__message_artifact__'' = Some (JStr ?path)"
    if "j = JObj d" for d using that by (auto simp: encode_message_def Let_def)
  from True assms(3) obtain d where d: "j = JObj d" by (auto simp: encode_message_def Let_def)
  from True assms(3) have s': "drawn s' = drawn s + 1" "artifacts s' = dict_set ?path ?file (artifacts s)"
    by (auto simp: encode_message_def Let_def)
  have clean_file: "?file = JObj [(''kind'', JStr (redact_text ''message'')),
      (''message'', sanitize (JObj (lib_to_dict lib m)))]"
  proof -
    have "\<not> secret_key ''kind''" "\<not> secret_key ''message''" by code_simp+
    then show ?thesis by simp
  qed
  have "draws fresh s s'" using s' by (auto simp: draws_def)
  moreover have "decode_payload lib files j = Inr (RMsg m)" if "has_drawn fresh s s' files" for files
  proof -
    have "dict_get files ?path = Some ?file" using that s' by (simp add: has_drawn_def)
    then have "load_message lib files (JStr ?path) = Inr (RMsg m)"
      using assms(2) artifact_path_inside[OF assms(1)] unfolding clean_file by (simp add: load_message_def)
    with j[OF d] d show ?thesis by simp
  qed
  ultimately show ?thesis by (simp add: encodes_def)
qed

text \<open>Lists of parts.\<close>

lemma st_map_encodes:
  assumes "fresh_names fresh"
    and "\<And>x s y s'. x \<in> set xs \<Longrightarrow> f x s = (y, s') \<Longrightarrow> draws fresh s s' \<and>
      (\<forall>files. has_drawn fresh s s' files \<longrightarrow> g files y = Inr x)"
    and "st_map f xs s = (ys, s')"
  shows "draws fresh s s' \<and> (\<forall>files. has_drawn fresh s s' files \<longrightarrow> res_map (g files) ys = Inr xs)"
  using assms(2,3)
proof (induction xs arbitrary: s ys)
  case Nil
  then show ?case by simp
next
  case (Cons x xs)
  from Cons.prems(2) obtain y s1 zs where one: "f x s = (y, s1)" and rest: "st_map f xs s1 = (zs, s')"
    and ys: "ys = y # zs" by (auto split: prod.splits)
  from Cons.prems(1)[OF _ one] have d1: "draws fresh s s1"
    and g1: "\<And>files. has_drawn fresh s s1 files \<Longrightarrow> g files y = Inr x" by auto
  have "draws fresh s1 s' \<and> (\<forall>files. has_drawn fresh s1 s' files \<longrightarrow> res_map (g files) zs = Inr xs)"
    using Cons.prems(1) by (intro Cons.IH[OF _ rest]) auto
  then have d2: "draws fresh s1 s'"
    and g2: "\<And>files. has_drawn fresh s1 s' files \<Longrightarrow> res_map (g files) zs = Inr xs" by auto
  show ?case
    using draws_trans[OF assms(1) d1 d2] g1 g2 has_drawn_split[OF assms(1) d1 d2] ys by auto
qed

lemma encode_payload_ok:
  "fresh_names fresh \<Longrightarrow> clean_value lib v \<Longrightarrow> encode_payload lib sha mx fresh v s = (j, s') \<Longrightarrow>
    encodes lib fresh v j s s'"
proof (induction v arbitrary: s j s')
  case (RMsg m)
  then show ?case by (simp add: encode_message_ok)
next
  case (RList xs)
  from RList.prems obtain js where enc: "st_map (encode_payload lib sha mx fresh) xs s = (js, s')"
    and j: "j = JList js" by (auto split: prod.splits)
  have "draws fresh s s' \<and> (\<forall>files. has_drawn fresh s s' files \<longrightarrow> res_map (decode_payload lib files) js = Inr xs)"
    using RList by (intro st_map_encodes[OF _ _ enc]) (auto simp: encodes_def)
  with j show ?case by (auto simp: encodes_def)
next
  case (RObj d)
  let ?f = "\<lambda>(k, v) s. if secret_key k then ((k, JStr ''[REDACTED]''), s)
         else (case encode_payload lib sha mx fresh v s of (j, s') \<Rightarrow> ((k, j), s'))"
  from RObj.prems obtain items where enc: "st_map ?f d s = (items, s')" and j: "j = JObj items"
    by (auto split: prod.splits)
  have part: "draws fresh t t' \<and> (\<forall>files. has_drawn fresh t t' files \<longrightarrow>
      (case y of (k, v) \<Rightarrow> res_bind (decode_payload lib files v) (\<lambda>x. Inr (k, x))) = Inr x)"
    if "x \<in> set d" "?f x t = (y, t')" for x t y t'
  proof -
    obtain k v where x: "x = (k, v)" by fastforce
    with that RObj.prems(2) have "\<not> secret_key k" "clean_value lib v" by auto
    moreover from this x that(2) obtain w where "encode_payload lib sha mx fresh v t = (w, t')" "y = (k, w)"
      by (auto split: prod.splits)
    ultimately have "encodes lib fresh v w t t'" and "y = (k, w)"
      using RObj.IH[of x v t w t'] x that(1) RObj.prems(1) by auto
    with x show ?thesis by (simp add: encodes_def)
  qed
  have ok: "draws fresh s s' \<and> (\<forall>files. has_drawn fresh s s' files \<longrightarrow>
      res_map (\<lambda>(k, v). res_bind (decode_payload lib files v) (\<lambda>x. Inr (k, x))) items = Inr d)"
    using part RObj.prems(1) by (intro st_map_encodes[OF _ _ enc]) auto
  have keys: "map fst items = map fst d"
  proof -
    have "map fst ys = map fst xs" if "st_map ?f xs t = (ys, t')" for xs ys t t'
      using that by (induction xs arbitrary: t ys) (fastforce split: prod.splits if_splits)+
    from this[OF enc] show ?thesis .
  qed
  have "k \<notin> set (map fst items)" if "k = ''__message__'' \<or> k = ''__message_artifact__''" for k
    unfolding keys using RObj.prems(2) that by auto
  then have "dict_get items ''__message__'' = None" "dict_get items ''__message_artifact__'' = None"
    by (simp_all add: map_of_eq_None_iff)
  with ok j show ?case by (auto simp: encodes_def)
qed (auto simp: encodes_def)

section \<open>Properties\<close>

text \<open>What the engine journals: the type, stage and payload of an entry, as \<open>append\<close> encodes them
  one after the other.\<close>

type_synonym 'm entry = "record_type \<times> string \<times> (string \<times> 'm rvalue) list"

fun persist_entries ::
    "'m message_lib \<Rightarrow> (string \<Rightarrow> string) \<Rightarrow> int \<Rightarrow> (nat \<Rightarrow> string) \<Rightarrow> 'm entry list \<Rightarrow> artifact_state \<Rightarrow>
      (record_type \<times> string \<times> json) list \<times> artifact_state" where
  "persist_entries lib sha mx fresh [] s = ([], s)"
| "persist_entries lib sha mx fresh ((kind, stage, pay) # es) s =
     (case encode_payload lib sha mx fresh (RObj pay) s of
        (j, s1) \<Rightarrow> (case persist_entries lib sha mx fresh es s1 of (js, s2) \<Rightarrow> ((kind, stage, j) # js, s2)))"

text \<open>The same entries applied to the live states, with no journal in between.\<close>

fun live_entries :: "'m message_lib \<Rightarrow> 'm entry list \<Rightarrow> 'm replay_state \<Rightarrow> replay_error + 'm replay_state" where
  "live_entries lib [] st = Inr st"
| "live_entries lib ((kind, stage, pay) # es) st =
     res_bind (replay_entry lib kind stage (RObj pay) st) (live_entries lib es)"

definition entry_of :: "journal_record \<Rightarrow> record_type \<times> string \<times> json" where
  "entry_of r = (jr_type r, jr_stage r, JObj (jr_payload r))"

lemma persist_draws:
  assumes "fresh_names fresh"
  shows "list_all (\<lambda>(k, g, pay). clean_value lib (RObj pay)) es \<Longrightarrow>
    persist_entries lib sha mx fresh es s = (js, s') \<Longrightarrow> draws fresh s s'"
proof (induction es arbitrary: s js)
  case (Cons e es)
  obtain kind stage pay where e: "e = (kind, stage, pay)" by (cases e)
  with Cons.prems obtain j s1 js' where enc: "encode_payload lib sha mx fresh (RObj pay) s = (j, s1)"
    and rest: "persist_entries lib sha mx fresh es s1 = (js', s')" by (auto split: prod.splits)
  have "encodes lib fresh (RObj pay) j s s1"
    using Cons.prems(1) e by (intro encode_payload_ok[OF assms _ enc]) simp
  then have "draws fresh s s1" by (simp add: encodes_def)
  from draws_trans[OF assms this Cons.IH[OF _ rest]] Cons.prems(1) show ?case by simp
qed simp


definition demo_lib :: "string message_lib" where
  "demo_lib = \<lparr>lib_human = (\<lambda>_. ''h''), lib_ai = (\<lambda>_. ''a''), lib_system = (\<lambda>_. ''s''),
     lib_tool = (\<lambda>_ _ _. ''t''), lib_remove_all = (\<lambda>m. m = ''clear''),
     lib_to_dict = (\<lambda>m. [(''type'', JStr ''human''), (''data'', JObj [(''content'', JStr m)])]),
     lib_from_dict = (\<lambda>j. case j of
        JObj [t, (k, JObj [(k', JStr m)])] \<Rightarrow> Some m | _ \<Rightarrow> None),
     lib_text = (\<lambda>_. []), lib_dumps = (\<lambda>_. [])\<rparr>"

definition demo_entries :: "string entry list" where
  "demo_entries = [(StateDelta, ''received'', [(''scope'', RStr ''main''),
     (''update'', RObj [(''messages'', RList [RMsg ''hello'']), (''notes'', RList [RStr ''n''])])]),
   (StageCheckpoint, ''received'', [(''next_stage'', RStr ''plan'')]),
   (StateDelta, ''plan'', [(''update'', RObj [(''messages'', RMsg ''hi'')])])]"

definition demo_names :: "nat \<Rightarrow> string" where
  "demo_names n = replicate n CHR ''f''"

definition demo_artifacts :: artifact_state where
  "demo_artifacts = \<lparr>artifacts = [], drawn = 0, artifact_refs = []\<rparr>"

definition demo_journal :: "(record_type \<times> string \<times> json) list" where
  "demo_journal = fst (persist_entries demo_lib (\<lambda>s. s) 3 demo_names demo_entries demo_artifacts)"

definition demo_records :: "journal_record list" where
  "demo_records = map (\<lambda>(kind, stage, j). \<lparr>jr_schema_version = 2, jr_seq = 0, jr_event_id = [],
     jr_run_id = ''run'', jr_timestamp = 0, jr_channel = LeadChannel, jr_type = kind, jr_stage = stage,
     jr_payload = (case j of JObj d \<Rightarrow> d | _ \<Rightarrow> []), jr_artifact_refs = []\<rparr>) demo_journal"


end
