(* ===== verification/Sessions.thy ===== *)
theory Sessions
  imports Prelude
begin

text \<open>
  Login sessions and refresh-token rotation (\<open>src/security/rbac/services/sessions.py\<close>, on the
  tables of \<open>src/security/rbac/models.py\<close>).

  \<open>iam_db\<close> holds the rows of the tables this service reads and writes. An operation returns its
  result and the database to commit: the router commits also when a refresh fails, so what an
  operation wrote before raising is kept. A primary-key conflict is the database's integrity
  error, after which the transaction is rolled back. Signing, verifying and hashing are
  arguments (\<open>crypto\<close>); generated identifiers and clock readings are arguments too.
\<close>

section \<open>Rows\<close>

datatype user_status = PENDING_EMAIL | PENDING_APPROVAL | ACTIVE | DISABLED | PASSWORD_RESET_REQUIRED

datatype revocation_reason =
  LOGOUT | LOGOUT_ALL | PASSWORD_CHANGE | FORCED_PASSWORD_RESET | ACCOUNT_DISABLED
| REPLAY | REVOKED | EXPIRED | OTHER_REASON string

record iam_user =
  u_status :: user_status
  authz_version :: int
  u_email :: string
  u_email_normalized :: string
  u_password_hash :: "string option"
  u_display_name :: "string option"
  u_email_verified_at :: "seconds option"
  u_failed_login_count :: int
  u_locked_until :: "seconds option"
  u_created_at :: seconds

record iam_session =
  s_user_id :: string
  s_user_agent :: "string option"
  s_ip_address :: "string option"
  absolute_expires_at :: seconds
  last_activity_at :: seconds
  revoked_at :: "seconds option"
  revocation_reason :: "revocation_reason option"
  s_created_at :: seconds

record refresh_token =
  rt_session_id :: string
  rt_digest :: string
  previous_jti :: "string option"
  rt_used_at :: "seconds option"
  rt_expires_at :: seconds

record audit_event =
  au_action :: string
  au_actor :: "string option"
  au_session :: string
  au_jti :: string
  au_stage :: string

record iam_db =
  users :: "(string, iam_user) dict"
  sessions :: "(string, iam_session) dict"
  refresh_tokens :: "(string, refresh_token) dict"
  audit_log :: "audit_event list"

record iam_settings =
  session_absolute_ttl :: seconds
  refresh_idle_ttl :: int
  access_token_ttl :: int
  refresh_reuse_grace :: seconds

record token_claims =
  claim_sub :: string
  claim_sid :: string
  claim_jti :: string

text \<open>Tokens are opaque strings: what signing, verifying and digesting return.\<close>

record crypto =
  decode_refresh :: "string \<Rightarrow> token_claims option"
  encode_access :: "string \<Rightarrow> string \<Rightarrow> int \<Rightarrow> string"
  encode_refresh :: "string \<Rightarrow> string \<Rightarrow> string \<Rightarrow> int \<Rightarrow> string"
  digest_refresh :: "string \<Rightarrow> string"

datatype refresh_error =
  InvalidRefreshToken string | RefreshInProgress | RefreshReuseDetected string | IntegrityError

record token_pair =
  tp_session_id :: string
  tp_access_token :: string
  tp_refresh_token :: string
  access_expires_in :: int
  refresh_expires_in :: int

definition is_revoked :: "iam_session \<Rightarrow> bool" where
  "is_revoked s \<longleftrightarrow> revoked_at s \<noteq> None"

definition refresh_allowed :: "user_status \<Rightarrow> bool" where
  "refresh_allowed st \<longleftrightarrow> st \<in> {ACTIVE, PENDING_APPROVAL}"

section \<open>Issuing\<close>

definition put_session :: "string \<Rightarrow> iam_session \<Rightarrow> iam_db \<Rightarrow> iam_db" where
  "put_session sid s db = db\<lparr>sessions := dict_set sid s (sessions db)\<rparr>"

definition put_token :: "string \<Rightarrow> refresh_token \<Rightarrow> iam_db \<Rightarrow> iam_db" where
  "put_token jti t db = db\<lparr>refresh_tokens := dict_set jti t (refresh_tokens db)\<rparr>"

definition remaining_seconds :: "iam_session \<Rightarrow> seconds \<Rightarrow> int" where
  "remaining_seconds s now = (let r = absolute_expires_at s - now in max 0 (if 0 \<le> r then \<lfloor>r\<rfloor> else \<lceil>r\<rceil>))"

definition issue_pair ::
    "crypto \<Rightarrow> iam_settings \<Rightarrow> string \<Rightarrow> iam_user \<Rightarrow> string \<Rightarrow> iam_session \<Rightarrow> string option \<Rightarrow>
      string \<Rightarrow> seconds \<Rightarrow> iam_db \<Rightarrow> (refresh_error + token_pair) \<times> iam_db" where
  "issue_pair c st uid user sid session previous jti now db =
     (let ttl = min (refresh_idle_ttl st) (remaining_seconds session now) in
      if ttl \<le> 0 then (Inl (InvalidRefreshToken ''session_expired''), db)
      else if dict_get (refresh_tokens db) jti \<noteq> None then (Inl IntegrityError, db)
      else (let tok = encode_refresh c uid sid jti ttl
            in (Inr \<lparr>tp_session_id = sid,
                     tp_access_token = encode_access c uid sid (authz_version user),
                     tp_refresh_token = tok, access_expires_in = access_token_ttl st,
                     refresh_expires_in = ttl\<rparr>,
                put_token jti \<lparr>rt_session_id = sid, rt_digest = digest_refresh c tok,
                     previous_jti = previous, rt_used_at = None,
                     rt_expires_at = now + of_int ttl\<rparr> db)))"

text \<open>Run an operation as a transaction: an integrity error rolls it back.\<close>

definition transaction ::
    "(iam_db \<Rightarrow> (refresh_error + 'a) \<times> iam_db) \<Rightarrow> iam_db \<Rightarrow> (refresh_error + 'a) \<times> iam_db" where
  "transaction f db = (case f db of (Inl IntegrityError, _) \<Rightarrow> (Inl IntegrityError, db) | r \<Rightarrow> r)"

definition create_session ::
    "crypto \<Rightarrow> iam_settings \<Rightarrow> string \<Rightarrow> iam_user \<Rightarrow> string option \<Rightarrow> string option \<Rightarrow> string \<Rightarrow>
      string \<Rightarrow> seconds \<Rightarrow> seconds \<Rightarrow> iam_db \<Rightarrow> (refresh_error + token_pair) \<times> iam_db" where
  "create_session c st uid user agent ip sid jti now issued_at db =
     (if dict_get (sessions db) sid \<noteq> None then (Inl IntegrityError, db)
      else (let s = \<lparr>s_user_id = uid, s_user_agent = agent, s_ip_address = ip,
                  absolute_expires_at = now + session_absolute_ttl st, last_activity_at = now,
                  revoked_at = None, revocation_reason = None, s_created_at = now\<rparr>
            in issue_pair c st uid user sid s None jti issued_at (put_session sid s db)))"

section \<open>Revocation\<close>

definition revoke_family ::
    "string \<Rightarrow> revocation_reason \<Rightarrow> seconds \<Rightarrow> iam_db \<Rightarrow> iam_db" where
  "revoke_family sid reason now db =
     (case dict_get (sessions db) sid of
        None \<Rightarrow> db
      | Some s \<Rightarrow> put_session sid (s\<lparr>revoked_at := Some now, revocation_reason := Some reason\<rparr>) db)"

definition record_audit :: "audit_event \<Rightarrow> iam_db \<Rightarrow> iam_db" where
  "record_audit e db = db\<lparr>audit_log := audit_log db @ [e]\<rparr>"

definition revoke_session ::
    "string \<Rightarrow> revocation_reason \<Rightarrow> seconds \<Rightarrow> iam_db \<Rightarrow> bool \<times> iam_db" where
  "revoke_session sid reason now db =
     (case dict_get (sessions db) sid of
        None \<Rightarrow> (False, db)
      | Some s \<Rightarrow> if is_revoked s then (False, db) else (True, revoke_family sid reason now db))"

definition revoke_all_user_sessions ::
    "string \<Rightarrow> revocation_reason \<Rightarrow> string option \<Rightarrow> seconds \<Rightarrow> iam_db \<Rightarrow> nat \<times> iam_db" where
  "revoke_all_user_sessions uid reason except now db =
     (let hit = (\<lambda>(sid, s). s_user_id s = uid \<and> \<not> is_revoked s \<and> except \<noteq> Some sid)
      in (length (filter hit (sessions db)),
          db\<lparr>sessions := map (\<lambda>(sid, s). (sid, if hit (sid, s)
               then s\<lparr>revoked_at := Some now, revocation_reason := Some reason\<rparr> else s)) (sessions db)\<rparr>))"

definition bump_authz_version ::
    "string \<Rightarrow> bool \<Rightarrow> revocation_reason \<Rightarrow> seconds \<Rightarrow> iam_db \<Rightarrow> iam_db" where
  "bump_authz_version uid revoke_sessions reason now db =
     (case dict_get (users db) uid of
        None \<Rightarrow> db
      | Some u \<Rightarrow>
          (let db' = db\<lparr>users := dict_set uid (u\<lparr>authz_version := authz_version u + 1\<rparr>) (users db)\<rparr>
           in if revoke_sessions then snd (revoke_all_user_sessions uid reason None now db') else db'))"

definition touch_session_activity :: "string \<Rightarrow> seconds \<Rightarrow> iam_db \<Rightarrow> iam_db" where
  "touch_session_activity sid now db =
     (case dict_get (sessions db) sid of
        None \<Rightarrow> db | Some s \<Rightarrow> put_session sid (s\<lparr>last_activity_at := now\<rparr>) db)"

definition list_user_sessions :: "string \<Rightarrow> iam_db \<Rightarrow> (string \<times> iam_session) list" where
  "list_user_sessions uid db =
     sort_key (\<lambda>(sid, s). - s_created_at s) (filter (\<lambda>(sid, s). s_user_id s = uid) (sessions db))"

section \<open>Rotation\<close>

definition reuse_event :: "string option \<Rightarrow> string \<Rightarrow> string \<Rightarrow> string \<Rightarrow> audit_event" where
  "reuse_event actor sid jti stage = \<lparr>au_action = ''refresh_token_reuse'', au_actor = actor,
     au_session = sid, au_jti = jti, au_stage = stage\<rparr>"

definition reuse_detected ::
    "string option \<Rightarrow> string \<Rightarrow> string \<Rightarrow> string \<Rightarrow> string \<Rightarrow> seconds \<Rightarrow> iam_db \<Rightarrow>
      (refresh_error + 'a) \<times> iam_db" where
  "reuse_detected actor sid jti stage message now db =
     (Inl (RefreshReuseDetected message),
      record_audit (reuse_event actor sid jti stage) (revoke_family sid REPLAY now db))"

text \<open>The part of \<open>rotate\<close> after the presented token has been found valid.\<close>

definition rotate_valid ::
    "crypto \<Rightarrow> iam_settings \<Rightarrow> string option \<Rightarrow> token_claims \<Rightarrow> iam_session \<Rightarrow> refresh_token \<Rightarrow> string \<Rightarrow>
      seconds \<Rightarrow> seconds \<Rightarrow> iam_db \<Rightarrow> (refresh_error + token_pair) \<times> iam_db" where
  "rotate_valid c st actor cl session rec new_jti now issued_at db =
     (let sid = claim_sid cl; jti = claim_jti cl;
          session' = session\<lparr>last_activity_at := now\<rparr>;
          db1 = put_session sid session' (put_token jti (rec\<lparr>rt_used_at := Some now\<rparr>) db)
      in case dict_get (users db1) (claim_sub cl) of
           None \<Rightarrow> (Inl (InvalidRefreshToken ''user_unavailable''), revoke_family sid REVOKED issued_at db1)
         | Some u \<Rightarrow>
             if s_user_id session \<noteq> claim_sub cl \<or> \<not> refresh_allowed (u_status u)
             then (Inl (InvalidRefreshToken ''user_unavailable''),
                   revoke_family sid (if u_status u = DISABLED then ACCOUNT_DISABLED else REVOKED) issued_at db1)
             else (case issue_pair c st (claim_sub cl) u sid session' (Some jti) new_jti issued_at db1 of
                     (Inl e, db2) \<Rightarrow> (Inl e, db2)
                   | (Inr pair, db2) \<Rightarrow>
                       (Inr pair, record_audit \<lparr>au_action = ''refresh'',
                          au_actor = (case actor of None \<Rightarrow> Some (claim_sub cl) | Some a \<Rightarrow> Some a),
                          au_session = sid, au_jti = jti, au_stage = []\<rparr> db2)))"

definition rotate_token ::
    "crypto \<Rightarrow> iam_settings \<Rightarrow> string option \<Rightarrow> string \<Rightarrow> string \<Rightarrow> seconds \<Rightarrow> seconds \<Rightarrow> iam_db \<Rightarrow>
      (refresh_error + token_pair) \<times> iam_db" where
  "rotate_token c st actor raw new_jti now later db =
     (case decode_refresh c raw of
        None \<Rightarrow> (Inl (InvalidRefreshToken ''token''), db)
      | Some cl \<Rightarrow>
     (case dict_get (sessions db) (claim_sid cl) of
        None \<Rightarrow> (Inl (InvalidRefreshToken ''session_revoked''), db)
      | Some session \<Rightarrow>
          if is_revoked session then (Inl (InvalidRefreshToken ''session_revoked''), db)
          else
     (case dict_get (refresh_tokens db) (claim_jti cl) of
        None \<Rightarrow> reuse_detected actor (claim_sid cl) (claim_jti cl) ''unknown_jti'' ''unknown_jti'' later db
      | Some rec \<Rightarrow>
          if rt_session_id rec \<noteq> claim_sid cl
          then reuse_detected actor (claim_sid cl) (claim_jti cl) ''unknown_jti'' ''unknown_jti'' later db
          else if rt_digest rec \<noteq> digest_refresh c raw
          then reuse_detected actor (claim_sid cl) (claim_jti cl) ''digest_mismatch'' ''digest_mismatch'' later db
          else if rt_expires_at rec \<le> now \<or> absolute_expires_at session \<le> now
          then (Inl (InvalidRefreshToken ''expired''), revoke_family (claim_sid cl) EXPIRED later db)
          else (case rt_used_at rec of
                  Some used \<Rightarrow>
                    if now - used \<le> refresh_reuse_grace st then (Inl RefreshInProgress, db)
                    else reuse_detected actor (claim_sid cl) (claim_jti cl) ''post_grace_replay''
                      ''replay_after_grace'' later db
                | None \<Rightarrow> rotate_valid c st actor cl session rec new_jti now later db))))"

definition rotate ::
    "crypto \<Rightarrow> iam_settings \<Rightarrow> string option \<Rightarrow> string \<Rightarrow> string \<Rightarrow> seconds \<Rightarrow> seconds \<Rightarrow> iam_db \<Rightarrow>
      (refresh_error + token_pair) \<times> iam_db" where
  "rotate c st actor raw new_jti now later =
     transaction (rotate_token c st actor raw new_jti now later)"

section \<open>Sequences of requests\<close>

datatype iam_event =
  Login string "string option" "string option" string string seconds seconds
| Refresh "string option" string string seconds seconds
| RevokeOne string revocation_reason seconds
| RevokeAll string revocation_reason "string option" seconds
| BumpAuthz string bool revocation_reason seconds
| Touch string seconds
| SetUser string iam_user

fun iam_step :: "crypto \<Rightarrow> iam_settings \<Rightarrow> iam_db \<Rightarrow> iam_event \<Rightarrow> iam_db" where
  "iam_step c st db (Login uid agent ip sid jti now later) =
     (case dict_get (users db) uid of
        None \<Rightarrow> db
      | Some u \<Rightarrow> snd (transaction (create_session c st uid u agent ip sid jti now later) db))"
| "iam_step c st db (Refresh actor raw jti now later) = snd (rotate c st actor raw jti now later db)"
| "iam_step c st db (RevokeOne sid reason now) = snd (revoke_session sid reason now db)"
| "iam_step c st db (RevokeAll uid reason except now) = snd (revoke_all_user_sessions uid reason except now db)"
| "iam_step c st db (BumpAuthz uid revoke reason now) = bump_authz_version uid revoke reason now db"
| "iam_step c st db (Touch sid now) = touch_session_activity sid now db"
| "iam_step c st db (SetUser uid u) = db\<lparr>users := dict_set uid u (users db)\<rparr>"

text \<open>The refresh tokens (by \<open>jti\<close>) that were successfully exchanged, in order.\<close>

fun exchange_of :: "crypto \<Rightarrow> iam_settings \<Rightarrow> iam_db \<Rightarrow> iam_event \<Rightarrow> string list" where
  "exchange_of c st db (Refresh actor raw jti now later) =
     (case decode_refresh c raw of
        None \<Rightarrow> []
      | Some cl \<Rightarrow> (case fst (rotate c st actor raw jti now later db) of
          Inl _ \<Rightarrow> [] | Inr _ \<Rightarrow> [claim_jti cl]))"
| "exchange_of c st db _ = []"

fun exchanged :: "crypto \<Rightarrow> iam_settings \<Rightarrow> iam_db \<Rightarrow> iam_event list \<Rightarrow> string list" where
  "exchanged c st db [] = []"
| "exchanged c st db (e # es) = exchange_of c st db e @ exchanged c st (iam_step c st db e) es"

section \<open>What no operation undoes\<close>

definition spent :: "iam_db \<Rightarrow> string \<Rightarrow> bool" where
  "spent db jti \<longleftrightarrow> (\<exists>r. dict_get (refresh_tokens db) jti = Some r \<and> rt_used_at r \<noteq> None)"

definition revoked :: "iam_db \<Rightarrow> string \<Rightarrow> bool" where
  "revoked db sid \<longleftrightarrow> (\<exists>s. dict_get (sessions db) sid = Some s \<and> is_revoked s)"

definition keeps :: "iam_db \<Rightarrow> iam_db \<Rightarrow> bool" where
  "keeps db db' \<longleftrightarrow> (\<forall>j. spent db j \<longrightarrow> spent db' j) \<and> (\<forall>sid. revoked db sid \<longrightarrow> revoked db' sid)"

lemma keeps_refl [simp]: "keeps db db"
  by (simp add: keeps_def)

lemma keeps_trans: "keeps a b \<Longrightarrow> keeps b c \<Longrightarrow> keeps a c"
  by (simp add: keeps_def)

lemma put_simps [simp]:
  "sessions (put_session sid s db) = dict_set sid s (sessions db)"
  "refresh_tokens (put_session sid s db) = refresh_tokens db"
  "users (put_session sid s db) = users db"
  "sessions (put_token j t db) = sessions db"
  "refresh_tokens (put_token j t db) = dict_set j t (refresh_tokens db)"
  "users (put_token j t db) = users db"
  "sessions (record_audit e db) = sessions db"
  "refresh_tokens (record_audit e db) = refresh_tokens db"
  "users (record_audit e db) = users db"
  by (simp_all add: put_session_def put_token_def record_audit_def)

lemma keeps_audit [simp]: "keeps db (record_audit e db')  = keeps db db'"
  by (simp add: keeps_def spent_def revoked_def)

lemma keeps_put_session:
  "(revoked db sid \<longrightarrow> is_revoked s) \<Longrightarrow> keeps db (put_session sid s db)"
  by (auto simp: keeps_def spent_def revoked_def)

lemma keeps_put_token:
  "(spent db j \<longrightarrow> rt_used_at t \<noteq> None) \<Longrightarrow> keeps db (put_token j t db)"
  by (auto simp: keeps_def spent_def revoked_def)

lemma revoke_family_simps [simp]:
  "refresh_tokens (revoke_family sid reason now db) = refresh_tokens db"
  "users (revoke_family sid reason now db) = users db"
  by (simp_all add: revoke_family_def split: option.splits)

lemma keeps_revoke_family: "keeps db (revoke_family sid reason now db)"
  by (auto simp: revoke_family_def is_revoked_def intro!: keeps_put_session split: option.splits)

lemma revoked_revoke_family:
  "dict_get (sessions db) sid \<noteq> None \<Longrightarrow> revoked (revoke_family sid reason now db) sid"
  by (auto simp: revoke_family_def revoked_def is_revoked_def)

lemma keeps_issue_pair:
  "issue_pair c st uid u sid s prev jti now db = (r, db') \<Longrightarrow> keeps db db'"
  by (auto simp: issue_pair_def Let_def spent_def intro!: keeps_put_token split: if_splits)

lemma keeps_transaction:
  "(\<And>r db'. f db = (r, db') \<Longrightarrow> keeps db db') \<Longrightarrow> keeps db (snd (transaction f db))"
  by (auto simp: transaction_def split: prod.splits sum.splits refresh_error.splits)

lemma keeps_create_session:
  "create_session c st uid u agent ip sid jti now later db = (r, db') \<Longrightarrow> keeps db db'"
  by (auto simp: create_session_def Let_def revoked_def split: if_splits
      intro!: keeps_trans[OF keeps_put_session keeps_issue_pair])

lemma dict_get_map_values:
  "dict_get (map (\<lambda>(k, v). (k, f (k, v))) d) k = map_option (\<lambda>v. f (k, v)) (dict_get d k)"
  by (induction d) auto

lemma keeps_revoke_all: "keeps db (snd (revoke_all_user_sessions uid reason except now db))"
proof -
  let ?f = "\<lambda>(sid, s). if s_user_id s = uid \<and> \<not> is_revoked s \<and> except \<noteq> Some sid
    then s\<lparr>revoked_at := Some now, revocation_reason := Some reason\<rparr> else s"
  have "snd (revoke_all_user_sessions uid reason except now db) =
      db\<lparr>sessions := map (\<lambda>(sid, s). (sid, ?f (sid, s))) (sessions db)\<rparr>"
    by (simp add: revoke_all_user_sessions_def Let_def)
  moreover have "revoked (db\<lparr>sessions := map (\<lambda>(sid, s). (sid, ?f (sid, s))) (sessions db)\<rparr>) sid"
    if "revoked db sid" for sid
  proof -
    from that obtain s where s: "dict_get (sessions db) sid = Some s" "is_revoked s"
      by (auto simp: revoked_def)
    then have "dict_get (map (\<lambda>(sid, s). (sid, ?f (sid, s))) (sessions db)) sid = Some (?f (sid, s))"
      by (simp only: dict_get_map_values option.map)
    with s show ?thesis by (simp add: revoked_def)
  qed
  ultimately show ?thesis by (simp add: keeps_def spent_def)
qed

lemma keeps_rotate_valid:
  assumes "rotate_valid c st actor cl session rec new_jti now later db = (r, db')"
    "dict_get (sessions db) (claim_sid cl) = Some session" "\<not> is_revoked session"
  shows "keeps db db'"
proof -
  let ?db1 = "put_session (claim_sid cl) (session\<lparr>last_activity_at := now\<rparr>)
      (put_token (claim_jti cl) (rec\<lparr>rt_used_at := Some now\<rparr>) db)"
  have 1: "keeps db ?db1"
    using assms(2,3) by (auto simp: revoked_def intro!: keeps_trans[OF keeps_put_token keeps_put_session])
  then show ?thesis
    using assms(1) keeps_revoke_family[of ?db1] keeps_issue_pair[of c st _ _ _ _ _ _ _ ?db1]
    by (auto simp: rotate_valid_def Let_def split: option.splits if_splits prod.splits sum.splits
        intro: keeps_trans)
qed

lemma keeps_rotate_token:
  "rotate_token c st actor raw jti now later db = (r, db') \<Longrightarrow> keeps db db'"
  by (auto simp: rotate_token_def reuse_detected_def keeps_revoke_family
      split: option.splits if_splits intro: keeps_rotate_valid)

lemma keeps_touch: "keeps db (touch_session_activity sid now db)"
  by (auto simp: touch_session_activity_def revoked_def is_revoked_def intro!: keeps_put_session
      split: option.splits)

lemma keeps_users [simp]: "keeps db (db'\<lparr>users := us\<rparr>) = keeps db db'"
  by (simp add: keeps_def spent_def revoked_def)

lemma keeps_bump: "keeps db (bump_authz_version uid revoke reason now db)"
proof (cases "dict_get (users db) uid")
  case (Some u)
  let ?db = "db\<lparr>users := dict_set uid (u\<lparr>authz_version := authz_version u + 1\<rparr>) (users db)\<rparr>"
  have "keeps db ?db" by simp
  from keeps_trans[OF this keeps_revoke_all[of ?db uid reason None now]] Some show ?thesis
    by (simp add: bump_authz_version_def Let_def)
qed (simp add: bump_authz_version_def)

lemma keeps_rotate: "keeps db (snd (rotate c st actor raw jti now later db))"
  unfolding rotate_def by (rule keeps_transaction) (rule keeps_rotate_token)

lemma keeps_login: "keeps db (snd (transaction (create_session c st uid u agent ip sid jti now later) db))"
  by (rule keeps_transaction) (rule keeps_create_session)

lemma keeps_step: "keeps db (iam_step c st db e)"
  by (cases e)
    (auto simp: revoke_session_def keeps_revoke_family keeps_revoke_all keeps_bump keeps_touch
      keeps_login keeps_rotate split: option.splits)

interpretation iam: machine "iam_step c st" "\<lambda>db. keeps db0 db" "\<lambda>_. True" for c st db0
  by unfold_locales (rule keeps_trans[OF _ keeps_step])

lemma keeps_run: "keeps db (run (iam_step c st) db es)"
  by (rule iam.inv_run) (simp_all add: list_all_iff)

section \<open>Exchanges\<close>

lemma rotate_Inr:
  assumes "rotate c st actor raw jti now later db = (Inr pair, db')" "decode_refresh c raw = Some cl"
  shows "\<not> spent db (claim_jti cl)" "spent db' (claim_jti cl)" "\<not> revoked db (claim_sid cl)"
proof -
  from assms have tok: "rotate_token c st actor raw jti now later db = (Inr pair, db')"
    by (auto simp: rotate_def transaction_def split: prod.splits sum.splits refresh_error.splits)
  then obtain session rec where s: "dict_get (sessions db) (claim_sid cl) = Some session"
    "\<not> is_revoked session" "dict_get (refresh_tokens db) (claim_jti cl) = Some rec"
    "rt_used_at rec = None" "rotate_valid c st actor cl session rec jti now later db = (Inr pair, db')"
    using assms(2)
    by (auto simp: rotate_token_def reuse_detected_def split: option.splits if_splits)
  then show "\<not> spent db (claim_jti cl)" "\<not> revoked db (claim_sid cl)"
    by (simp_all add: spent_def revoked_def)
  from s(5) show "spent db' (claim_jti cl)"
    by (auto simp: rotate_valid_def Let_def issue_pair_def spent_def
        split: option.splits if_splits prod.splits sum.splits)
qed

lemma exchange_of_cases:
  "exchange_of c st db e = [] \<or>
   (\<exists>j. exchange_of c st db e = [j] \<and> \<not> spent db j \<and> spent (iam_step c st db e) j)"
proof (cases e)
  case (Refresh actor raw jti now later)
  obtain r db' where rot: "rotate c st actor raw jti now later db = (r, db')" by fastforce
  show ?thesis
  proof (cases "decode_refresh c raw")
    case (Some cl)
    with Refresh rot rotate_Inr[OF _ Some, of st actor jti now later db _ db'] show ?thesis
      by (cases r) auto
  qed (use Refresh in simp)
qed simp_all

lemma exchanged_count:
  "count_list (exchanged c st db es) j \<le> (if spent db j then 0 else 1)"
proof (induction es arbitrary: db)
  case (Cons e es)
  let ?db' = "iam_step c st db e"
  have "spent db j \<Longrightarrow> spent ?db' j" using keeps_step[of db c st e] by (simp add: keeps_def)
  with exchange_of_cases[of c st db e] Cons.IH[of ?db'] show ?case by (auto split: if_splits)
qed simp

section \<open>Properties\<close>

text \<open>C12. Refresh tokens are single-use: over any sequence of logins, refreshes, revocations and
  account changes, each refresh token identifier is successfully exchanged at most once.\<close>

theorem refresh_token_single_use:
  "count_list (exchanged c st db es) jti \<le> 1"
  using exchanged_count[of c st db es jti] by (simp split: if_splits)

text \<open>Replaying a used refresh token after the grace window kills its whole family: the replay
  is rejected, the reuse is audited, and from then on no sequence of requests lets any token of
  that session be exchanged again.\<close>

lemma replay_revokes_family:
  assumes "decode_refresh c raw = Some cl" "dict_get (sessions db) (claim_sid cl) = Some s"
    "\<not> is_revoked s" "dict_get (refresh_tokens db) (claim_jti cl) = Some r"
    "rt_session_id r = claim_sid cl" "rt_digest r = digest_refresh c raw"
    "now < rt_expires_at r" "now < absolute_expires_at s"
    "rt_used_at r = Some used" "refresh_reuse_grace st < now - used"
    "rotate c st actor raw new_jti now later db = (res, db')"
    "decode_refresh c raw' = Some cl'" "claim_sid cl' = claim_sid cl"
  shows "res = Inl (RefreshReuseDetected ''replay_after_grace'') \<and>
    audit_log db' = audit_log db @ [reuse_event actor (claim_sid cl) (claim_jti cl) ''post_grace_replay''] \<and>
    fst (rotate c st actor' raw' jti' now' later' (run (iam_step c st) db' es)) =
      Inl (InvalidRefreshToken ''session_revoked'')"
proof -
  let ?db = "record_audit (reuse_event actor (claim_sid cl) (claim_jti cl) ''post_grace_replay'')
    (revoke_family (claim_sid cl) REPLAY later db)"
  have out: "res = Inl (RefreshReuseDetected ''replay_after_grace'')" "db' = ?db"
    using assms(1-11) by (auto simp: rotate_def transaction_def rotate_token_def reuse_detected_def)
  have "revoked db' (claim_sid cl)"
    using out assms(2) revoked_revoke_family[of db "claim_sid cl" REPLAY later] by (simp add: revoked_def)
  then have "revoked (run (iam_step c st) db' es) (claim_sid cl)"
    using keeps_run[of db' c st es] by (simp add: keeps_def)
  then have "fst (rotate c st actor' raw' jti' now' later' (run (iam_step c st) db' es)) =
      Inl (InvalidRefreshToken ''session_revoked'')"
    using assms(12,13) by (auto simp: rotate_def transaction_def rotate_token_def revoked_def)
  moreover have "audit_log (revoke_family (claim_sid cl) REPLAY later db) = audit_log db"
    by (simp add: revoke_family_def put_session_def split: option.splits)
  ultimately show ?thesis using out by (simp add: record_audit_def)
qed

definition demo_crypto :: crypto where
  "demo_crypto = \<lparr>decode_refresh = (\<lambda>t. if t = ''t1''
       then Some \<lparr>claim_sub = ''u'', claim_sid = ''s'', claim_jti = ''j1''\<rparr> else None),
     encode_access = (\<lambda>u s v. ''access''), encode_refresh = (\<lambda>u s j t. ''t2''), digest_refresh = id\<rparr>"

definition demo_settings :: iam_settings where
  "demo_settings = \<lparr>session_absolute_ttl = 5000, refresh_idle_ttl = 1000, access_token_ttl = 60,
     refresh_reuse_grace = 10\<rparr>"

definition demo_user :: iam_user where
  "demo_user = \<lparr>u_status = ACTIVE, authz_version = 1, u_email = ''u@x.org'',
     u_email_normalized = ''u@x.org'', u_password_hash = Some ''hash'', u_display_name = None,
     u_email_verified_at = Some 0, u_failed_login_count = 0, u_locked_until = None, u_created_at = 0\<rparr>"

definition demo_db :: iam_db where
  "demo_db = \<lparr>users = [(''u'', demo_user)],
     sessions = [(''s'', \<lparr>s_user_id = ''u'', s_user_agent = None, s_ip_address = None,
       absolute_expires_at = 5000, last_activity_at = 0, revoked_at = None, revocation_reason = None,
       s_created_at = 0\<rparr>)],
     refresh_tokens = [(''j1'', \<lparr>rt_session_id = ''s'', rt_digest = ''t1'', previous_jti = None,
       rt_used_at = Some 20, rt_expires_at = 1000\<rparr>)], audit_log = []\<rparr>"

lemma replay_revokes_family_witness:
  "fst (rotate demo_crypto demo_settings None ''t1'' ''j3'' 101 101
     (run (iam_step demo_crypto demo_settings)
       (snd (rotate demo_crypto demo_settings None ''t1'' ''j2'' 100 100 demo_db)) [Touch ''s'' 100])) =
   Inl (InvalidRefreshToken ''session_revoked'')"
proof -
  obtain res db' where r: "rotate demo_crypto demo_settings None ''t1'' ''j2'' 100 100 demo_db = (res, db')"
    by fastforce
  have d: "decode_refresh demo_crypto ''t1'' = Some \<lparr>claim_sub = ''u'', claim_sid = ''s'', claim_jti = ''j1''\<rparr>"
    by (simp add: demo_crypto_def)
  have "fst (rotate demo_crypto demo_settings None ''t1'' ''j3'' 101 101
      (run (iam_step demo_crypto demo_settings) db' [Touch ''s'' 100])) =
      Inl (InvalidRefreshToken ''session_revoked'')"
    using replay_revokes_family[where st = demo_settings and db = demo_db and raw = "''t1''" and raw' = "''t1''"
        and es = "[Touch ''s'' 100]" and now = 100 and now' = 101 and later' = 101 and jti' = "''j3''"
        and actor' = None, OF d _ _ _ _ _ _ _ _ _ r d]
    by (simp add: demo_db_def demo_settings_def demo_crypto_def is_revoked_def)
  then show ?thesis by (simp add: r)
qed

end
