(* ===== verification/Permissions.thy ===== *)
theory Permissions
  imports Sessions
begin

text \<open>
  The closed permission catalogue, the built-in roles and the principal of a request
  (\<open>permissions.py\<close>, \<open>roles.py\<close> and \<open>principal.py\<close> of \<open>src/security/rbac\<close>).

  A catalogue entry is its code and its domain; names and descriptions are display text. Sets of
  codes are lists without duplicates where the code orders or lists them, sets where it only asks
  for membership.
\<close>

section \<open>Catalogue\<close>

datatype permission_domain = Research | Iam

definition PERMISSIONS :: "(string \<times> permission_domain) list" where
  "PERMISSIONS =
     [(''research.run.read_own'', Research), (''research.run.create'', Research),
      (''research.run.control_own'', Research), (''research.run.interact_own'', Research),
      (''research.task_activity.read_own'', Research), (''research.observability.read_own'', Research),
      (''research.diagnostics.preview'', Research),
      (''research.security_approval.read_own'', Research),
      (''research.security_approval.resolve_own'', Research),
      (''research.security_approval.read_any'', Research),
      (''research.security_approval.resolve_any'', Research),
      (''research.tool.search'', Research), (''research.tool.provider_native'', Research),
      (''research.tool.mcp'', Research), (''research.tool.browser'', Research),
      (''research.tool.skill'', Research), (''research.tool.shell.execute'', Research),
      (''research.tool.file.read'', Research), (''research.tool.file.write'', Research),
      (''iam.users.read'', Iam), (''iam.users.write'', Iam), (''iam.roles.read'', Iam),
      (''iam.roles.write'', Iam), (''iam.permissions.read'', Iam), (''iam.audit.read'', Iam)]"

definition permission_for :: "string \<Rightarrow> (string \<times> permission_domain) option" where
  "permission_for c = map_option (Pair c) (dict_get PERMISSIONS c)"

definition is_known_permission :: "string \<Rightarrow> bool" where
  "is_known_permission c \<longleftrightarrow> dict_get PERMISSIONS c \<noteq> None"

text \<open>The loop of \<open>validate_permission_codes\<close>; \<open>seen\<close> is also its set of codes seen.\<close>

fun validate_codes_from :: "string list \<Rightarrow> string list \<Rightarrow> string + string list" where
  "validate_codes_from seen [] = Inr seen"
| "validate_codes_from seen (c # cs) =
     (if \<not> is_known_permission c then Inl c
      else validate_codes_from (if c \<in> set seen then seen else seen @ [c]) cs)"

definition validate_permission_codes :: "string list \<Rightarrow> string + string list" where
  "validate_permission_codes cs = validate_codes_from [] cs"

lemma validate_codes_from_Inr:
  "validate_codes_from seen cs = Inr r \<Longrightarrow> distinct seen \<Longrightarrow>
    distinct r \<and> set r = set seen \<union> set cs \<and> list_all is_known_permission cs"
  by (induction seen cs rule: validate_codes_from.induct) (auto split: if_splits)

lemma validate_permission_codes_Inr [result_elims]:
  "validate_permission_codes cs = Inr r \<Longrightarrow>
    distinct r \<and> set r = set cs \<and> (\<forall>c \<in> set r. is_known_permission c)"
  using validate_codes_from_Inr[of "[]" cs r]
  by (auto simp: validate_permission_codes_def list_all_iff)

lemma validate_codes_from_known: "list_all is_known_permission cs \<Longrightarrow> \<exists>r. validate_codes_from seen cs = Inr r"
  by (induction seen cs rule: validate_codes_from.induct) auto

section \<open>Built-in roles\<close>

definition VIEWER_CODE :: string where "VIEWER_CODE = ''viewer''"
definition RESEARCHER_CODE :: string where "RESEARCHER_CODE = ''researcher''"
definition DEVELOPER_CODE :: string where "DEVELOPER_CODE = ''developer''"
definition ADMIN_CODE :: string where "ADMIN_CODE = ''admin''"

definition VIEWER :: "string list" where
  "VIEWER = [''research.run.read_own'', ''research.task_activity.read_own'']"

definition RESEARCHER :: "string list" where
  "RESEARCHER =
     [''research.run.read_own'', ''research.task_activity.read_own'', ''research.run.create'',
      ''research.run.control_own'', ''research.run.interact_own'', ''research.tool.search'',
      ''research.tool.provider_native'', ''research.security_approval.read_own'',
      ''research.security_approval.resolve_own'']"

definition DEVELOPER :: "string list" where
  "DEVELOPER =
     [''research.run.read_own'', ''research.task_activity.read_own'', ''research.run.create'',
      ''research.run.control_own'', ''research.run.interact_own'', ''research.tool.search'',
      ''research.tool.provider_native'', ''research.observability.read_own'',
      ''research.diagnostics.preview'', ''research.tool.mcp'', ''research.tool.browser'',
      ''research.tool.skill'', ''research.security_approval.read_own'',
      ''research.security_approval.resolve_own'', ''research.tool.shell.execute'',
      ''research.tool.file.read'', ''research.tool.file.write'']"

definition ADMIN :: "string list" where
  "ADMIN =
     [''iam.users.read'', ''iam.users.write'', ''iam.roles.read'', ''iam.roles.write'',
      ''iam.permissions.read'', ''iam.audit.read'', ''research.security_approval.read_any'',
      ''research.security_approval.resolve_any'']"

definition SYSTEM_ROLES :: "(string \<times> string list) list" where
  "SYSTEM_ROLES = [(VIEWER_CODE, VIEWER), (RESEARCHER_CODE, RESEARCHER),
     (DEVELOPER_CODE, DEVELOPER), (ADMIN_CODE, ADMIN)]"

definition is_system_role_code :: "string \<Rightarrow> bool" where
  "is_system_role_code c \<longleftrightarrow> c \<in> {VIEWER_CODE, RESEARCHER_CODE, DEVELOPER_CODE, ADMIN_CODE}"

lemma system_roles_in_catalogue: "\<forall>(c, ps) \<in> set SYSTEM_ROLES. list_all is_known_permission ps \<and> distinct ps"
  by code_simp

lemma role_hierarchy: "set VIEWER \<subseteq> set RESEARCHER" "set RESEARCHER \<subseteq> set DEVELOPER"
  by code_simp+

section \<open>Principals\<close>

record principal =
  p_user_id :: string
  p_email :: string
  p_status :: user_status
  p_session_id :: "string option"
  p_roles :: "string set"
  p_permissions :: "string set"
  p_authz_version :: int

definition is_active :: "principal \<Rightarrow> bool" where
  "is_active p \<longleftrightarrow> p_status p = ACTIVE"

definition has :: "principal \<Rightarrow> string \<Rightarrow> bool" where
  "has p c \<longleftrightarrow> c \<in> p_permissions p"

definition has_all :: "principal \<Rightarrow> string list \<Rightarrow> bool" where
  "has_all p cs \<longleftrightarrow> list_all (has p) cs"

definition has_any :: "principal \<Rightarrow> string list \<Rightarrow> bool" where
  "has_any p cs \<longleftrightarrow> list_ex (has p) cs"

definition dev_permissions :: "string set" where
  "dev_permissions = set RESEARCHER \<union> set DEVELOPER"

definition synthetic_dev_principal :: principal where
  "synthetic_dev_principal = \<lparr>p_user_id = ''local-dev-user'', p_email = ''local-dev@example.invalid'',
     p_status = ACTIVE, p_session_id = None, p_roles = {RESEARCHER_CODE, DEVELOPER_CODE},
     p_permissions = dev_permissions, p_authz_version = 1\<rparr>"

lemma dev_bypass_not_admin:
  "list_all (\<lambda>c. dict_get PERMISSIONS c = Some Research) (RESEARCHER @ DEVELOPER)"
  by code_simp

end
