(* ===== verification/Identity.thy ===== *)
theory Identity
  imports Permissions
begin

text \<open>
  The administration of identities: rate limits, one-time email tokens, roles and users
  (\<open>services/rate_limit.py\<close>, \<open>services/email_tokens.py\<close>, \<open>services/roles.py\<close>, \<open>services/users.py\<close>,
  \<open>services/bootstrap.py\<close> and \<open>repositories.py\<close> of \<open>src/security/rbac\<close>).

  \<open>identity_db\<close> adds the other tables to the session tables of \<open>Sessions\<close>: a table is a dictionary
  by primary key, an association table a list of key pairs. Every service function is one
  transaction of the caller: it returns its result and the rows to commit. Row locks serialise
  the rate-limit counters and the token rows, so each operation is one step. Generated
  identifiers, tokens and clock readings are arguments; digests are the function \<open>digest\<close> of the
  purpose and the raw token.
\<close>

section \<open>Tables\<close>

datatype token_purpose = EMAIL_VERIFICATION | PASSWORD_RESET

record email_token =
  et_user_id :: string
  et_purpose :: token_purpose
  et_digest :: string
  et_expires_at :: seconds
  et_used_at :: "seconds option"

record rate_row =
  rl_count :: int
  rl_window_started_at :: seconds

record iam_role =
  role_code :: string
  role_name :: string
  role_description :: "string option"
  role_is_system :: bool

record identity_db =
  core :: iam_db
  roles :: "(string, iam_role) dict"
  permission_rows :: "(string, string) dict"
  role_permissions :: "(string \<times> string) list"
  user_roles :: "(string \<times> string) list"
  email_tokens :: "(string, email_token) dict"
  rate_limits :: "(string \<times> string, rate_row) dict"
  admin_audit :: "(string \<times> string option \<times> string option) list"

datatype identity_error =
  RoleError string | UserError string | LastAdminError | ValueError string | TokenNotFound
| RateLimited string | AuthError string int | SessionError refresh_error | DatabaseError

type_synonym 'a on_db = "(identity_error + 'a) \<times> identity_db"

abbreviation db_users :: "identity_db \<Rightarrow> (string, iam_user) dict" where
  "db_users d \<equiv> users (core d)"

definition put_user :: "string \<Rightarrow> iam_user \<Rightarrow> identity_db \<Rightarrow> identity_db" where
  "put_user uid u d = d\<lparr>core := (core d)\<lparr>users := dict_set uid u (db_users d)\<rparr>\<rparr>"

definition record_admin :: "string \<Rightarrow> string option \<Rightarrow> string option \<Rightarrow> identity_db \<Rightarrow> identity_db" where
  "record_admin action actor target d = d\<lparr>admin_audit := admin_audit d @ [(action, actor, target)]\<rparr>"

lemma put_user_simps [simp]:
  "db_users (put_user uid u d) = dict_set uid u (db_users d)"
  "sessions (core (put_user uid u d)) = sessions (core d)"
  "refresh_tokens (core (put_user uid u d)) = refresh_tokens (core d)"
  "roles (put_user uid u d) = roles d"
  "permission_rows (put_user uid u d) = permission_rows d"
  "role_permissions (put_user uid u d) = role_permissions d"
  "user_roles (put_user uid u d) = user_roles d"
  "email_tokens (put_user uid u d) = email_tokens d"
  "rate_limits (put_user uid u d) = rate_limits d"
  by (simp_all add: put_user_def)

lemma record_admin_simps [simp]:
  "core (record_admin action actor target d) = core d"
  "roles (record_admin action actor target d) = roles d"
  "permission_rows (record_admin action actor target d) = permission_rows d"
  "role_permissions (record_admin action actor target d) = role_permissions d"
  "user_roles (record_admin action actor target d) = user_roles d"
  "email_tokens (record_admin action actor target d) = email_tokens d"
  "rate_limits (record_admin action actor target d) = rate_limits d"
  by (simp_all add: record_admin_def)

section \<open>Rate limits\<close>

definition check_and_consume ::
    "string \<Rightarrow> string \<Rightarrow> int \<Rightarrow> seconds \<Rightarrow> seconds \<Rightarrow> identity_db \<Rightarrow> int on_db" where
  "check_and_consume bucket identity cap window now d =
     (let key = (bucket, identity);
          put = (\<lambda>row. d\<lparr>rate_limits := dict_set key row (rate_limits d)\<rparr>)
      in if cap < 1 then (Inl (RateLimited bucket), d)
         else case dict_get (rate_limits d) key of
           None \<Rightarrow> (Inr 1, put \<lparr>rl_count = 1, rl_window_started_at = now\<rparr>)
         | Some row \<Rightarrow>
             if rl_window_started_at row \<le> now - window
             then (Inr 1, put \<lparr>rl_count = 1, rl_window_started_at = now\<rparr>)
             else if rl_count row < cap
             then (Inr (rl_count row + 1), put (row\<lparr>rl_count := rl_count row + 1\<rparr>))
             else (Inl (RateLimited bucket), d))"

definition current_count :: "string \<Rightarrow> string \<Rightarrow> seconds option \<Rightarrow> seconds \<Rightarrow> identity_db \<Rightarrow> int" where
  "current_count bucket identity window now d =
     (case dict_get (rate_limits d) (bucket, identity) of
        None \<Rightarrow> 0
      | Some row \<Rightarrow>
          (case window of
             Some w \<Rightarrow> if rl_window_started_at row \<le> now - w then 0 else rl_count row
           | None \<Rightarrow> rl_count row))"

definition reset_limit :: "string \<Rightarrow> string \<Rightarrow> identity_db \<Rightarrow> identity_db" where
  "reset_limit bucket identity d =
     d\<lparr>rate_limits := filter (\<lambda>(k, _). k \<noteq> (bucket, identity)) (rate_limits d)\<rparr>"

section \<open>One-time tokens\<close>

record token_settings =
  email_verify_ttl :: seconds
  password_reset_ttl :: seconds

definition ttl_for :: "token_purpose \<Rightarrow> token_settings \<Rightarrow> seconds" where
  "ttl_for p st = (case p of EMAIL_VERIFICATION \<Rightarrow> email_verify_ttl st | PASSWORD_RESET \<Rightarrow> password_reset_ttl st)"

definition issue_token ::
    "(token_purpose \<Rightarrow> string \<Rightarrow> string) \<Rightarrow> token_settings \<Rightarrow> string \<Rightarrow> token_purpose \<Rightarrow> string \<Rightarrow> string \<Rightarrow>
      seconds \<Rightarrow> identity_db \<Rightarrow> string on_db" where
  "issue_token digest st uid p row_id raw now d =
     (let old = map (\<lambda>(i, t). (i, if et_user_id t = uid \<and> et_purpose t = p \<and> et_used_at t = None
                                  then t\<lparr>et_used_at := Some now\<rparr> else t)) (email_tokens d)
      in if dict_get (email_tokens d) row_id \<noteq> None then (Inl DatabaseError, d)
         else (Inr raw, d\<lparr>email_tokens := dict_set row_id \<lparr>et_user_id = uid, et_purpose = p,
                 et_digest = digest p raw, et_expires_at = now + ttl_for p st, et_used_at = None\<rparr> old\<rparr>))"

text \<open>\<open>scalar_one_or_none\<close> raises on several rows.\<close>

definition consume_token ::
    "(token_purpose \<Rightarrow> string \<Rightarrow> string) \<Rightarrow> string \<Rightarrow> token_purpose \<Rightarrow> seconds \<Rightarrow> identity_db \<Rightarrow>
      (string \<times> email_token) on_db" where
  "consume_token digest raw p now d =
     (case filter (\<lambda>(i, t). et_digest t = digest p raw \<and> et_purpose t = p) (email_tokens d) of
        [] \<Rightarrow> (Inl TokenNotFound, d)
      | [(i, t)] \<Rightarrow>
          if et_used_at t \<noteq> None then (Inl TokenNotFound, d)
          else if et_expires_at t \<le> now then (Inl TokenNotFound, d)
          else (let t' = t\<lparr>et_used_at := Some now\<rparr>
                in (Inr (i, t'), d\<lparr>email_tokens := dict_set i t' (email_tokens d)\<rparr>))
      | _ \<Rightarrow> (Inl DatabaseError, d))"

definition verify_email_with_token ::
    "(token_purpose \<Rightarrow> string \<Rightarrow> string) \<Rightarrow> string \<Rightarrow> seconds \<Rightarrow> seconds \<Rightarrow> identity_db \<Rightarrow> string on_db" where
  "verify_email_with_token digest raw now later d =
     (case consume_token digest raw EMAIL_VERIFICATION now d of
        (Inl e, d1) \<Rightarrow> (Inl e, d1)
      | (Inr (i, t), d1) \<Rightarrow>
          (case dict_get (db_users d1) (et_user_id t) of
             None \<Rightarrow> (Inl TokenNotFound, d1)
           | Some u \<Rightarrow>
               (Inr (et_user_id t), put_user (et_user_id t)
                  (u\<lparr>u_email_verified_at := Some later,
                     u_status := (if u_status u = PENDING_EMAIL then PENDING_APPROVAL else u_status u)\<rparr>) d1)))"

section \<open>Roles and permissions\<close>

definition role_by_code :: "string \<Rightarrow> identity_db \<Rightarrow> (string \<times> iam_role) option" where
  "role_by_code code d = List.find (\<lambda>(i, r). role_code r = code) (roles d)"

definition permission_codes_for_role :: "string \<Rightarrow> identity_db \<Rightarrow> string list" where
  "permission_codes_for_role rid d =
     List.map_filter (\<lambda>(r, p). if r = rid then dict_get (permission_rows d) p else None) (role_permissions d)"

definition permission_ids_for :: "string list \<Rightarrow> identity_db \<Rightarrow> identity_error + string list" where
  "permission_ids_for codes d =
     (let rows = filter (\<lambda>(i, c). c \<in> set codes) (permission_rows d)
      in if length rows \<noteq> length codes
         then (case filter (\<lambda>c. c \<notin> snd ` set rows) codes of
                 [] \<Rightarrow> Inl DatabaseError
               | c # _ \<Rightarrow> Inl (RoleError (''unknown_permission:'' @ c)))
         else Inr (map fst rows))"

definition grant_permissions :: "string \<Rightarrow> string list \<Rightarrow> identity_db \<Rightarrow> identity_db" where
  "grant_permissions rid pids d = d\<lparr>role_permissions := role_permissions d @ map (Pair rid) pids\<rparr>"

definition create_role ::
    "string \<Rightarrow> string \<Rightarrow> string \<Rightarrow> string option \<Rightarrow> string list \<Rightarrow> string option \<Rightarrow> identity_db \<Rightarrow> string on_db" where
  "create_role rid raw_code name description perms actor d =
     (let code = lower (strip raw_code)
      in if code = [] then (Inl (RoleError ''role_code_required''), d)
         else if is_system_role_code code then (Inl (RoleError ''role_code_is_system''), d)
         else if role_by_code code d \<noteq> None then (Inl (RoleError ''role_code_in_use''), d)
         else case validate_permission_codes perms of
           Inl c \<Rightarrow> (Inl (ValueError (''unknown_permission:'' @ c)), d)
         | Inr codes \<Rightarrow>
             (case permission_ids_for codes d of
                Inl e \<Rightarrow> (Inl e, d)
              | Inr pids \<Rightarrow>
                  if dict_get (roles d) rid \<noteq> None then (Inl DatabaseError, d)
                  else (Inr rid, record_admin ''role.created'' actor None
                    (grant_permissions rid pids (d\<lparr>roles := dict_set rid \<lparr>role_code = code, role_name = name,
                       role_description = description, role_is_system = False\<rparr> (roles d)\<rparr>)))))"

definition update_role ::
    "string \<Rightarrow> string option \<Rightarrow> string option \<Rightarrow> string option \<Rightarrow> identity_db \<Rightarrow> string on_db" where
  "update_role rid name description actor d =
     (case dict_get (roles d) rid of
        None \<Rightarrow> (Inl (RoleError ''role_not_found''), d)
      | Some r \<Rightarrow>
          (let r1 = (case name of None \<Rightarrow> r | Some n \<Rightarrow> r\<lparr>role_name := n\<rparr>);
               r2 = (case description of None \<Rightarrow> r1 | Some t \<Rightarrow> r1\<lparr>role_description := Some t\<rparr>)
           in (Inr rid, record_admin ''role.updated'' actor None (d\<lparr>roles := dict_set rid r2 (roles d)\<rparr>))))"

definition set_role_permissions ::
    "string \<Rightarrow> string list \<Rightarrow> string option \<Rightarrow> identity_db \<Rightarrow> string list on_db" where
  "set_role_permissions rid perms actor d =
     (case dict_get (roles d) rid of
        None \<Rightarrow> (Inl (RoleError ''role_not_found''), d)
      | Some r \<Rightarrow>
          if role_is_system r then (Inl (RoleError ''system_role_permissions_immutable''), d)
          else case validate_permission_codes perms of
            Inl c \<Rightarrow> (Inl (ValueError (''unknown_permission:'' @ c)), d)
          | Inr codes \<Rightarrow>
              (case permission_ids_for codes d of
                 Inl e \<Rightarrow> (Inl e, d)
               | Inr pids \<Rightarrow>
                   (Inr codes, record_admin ''role.permissions_updated'' actor None
                     (grant_permissions rid pids
                       (d\<lparr>role_permissions := filter (\<lambda>(i, _). i \<noteq> rid) (role_permissions d)\<rparr>)))))"

text \<open>Deleting a role cascades to its grants and assignments.\<close>

definition delete_role :: "string \<Rightarrow> string option \<Rightarrow> identity_db \<Rightarrow> unit on_db" where
  "delete_role rid actor d =
     (case dict_get (roles d) rid of
        None \<Rightarrow> (Inl (RoleError ''role_not_found''), d)
      | Some r \<Rightarrow>
          if role_is_system r then (Inl (RoleError ''system_role_not_deletable''), d)
          else (Inr (), record_admin ''role.deleted'' actor None
            (d\<lparr>roles := filter (\<lambda>(i, _). i \<noteq> rid) (roles d),
               role_permissions := filter (\<lambda>(i, _). i \<noteq> rid) (role_permissions d),
               user_roles := filter (\<lambda>(_, i). i \<noteq> rid) (user_roles d)\<rparr>)))"

definition copy_role ::
    "string \<Rightarrow> string \<Rightarrow> string \<Rightarrow> string option \<Rightarrow> string option \<Rightarrow> identity_db \<Rightarrow> string on_db" where
  "copy_role source new_id new_code new_name actor d =
     (case dict_get (roles d) source of
        None \<Rightarrow> (Inl (RoleError ''role_not_found''), d)
      | Some r \<Rightarrow>
          create_role new_id new_code
            (case new_name of
               None \<Rightarrow> role_name r @ '' (copy)''
             | Some n \<Rightarrow> if n = [] then role_name r @ '' (copy)'' else n)
            (role_description r) (sort (remdups (permission_codes_for_role source d))) actor d)"

text \<open>\<open>collect_user_permissions\<close>: the codes of the user's roles and the union of their permissions.\<close>

definition roles_of_user :: "string \<Rightarrow> identity_db \<Rightarrow> string list" where
  "roles_of_user uid d =
     (if dict_get (db_users d) uid = None then []
      else filter (\<lambda>r. dict_get (roles d) r \<noteq> None) (map snd (filter (\<lambda>(u, r). u = uid) (user_roles d))))"

definition user_role_codes :: "string \<Rightarrow> identity_db \<Rightarrow> string set" where
  "user_role_codes uid d = set (List.map_filter (\<lambda>r. map_option role_code (dict_get (roles d) r)) (roles_of_user uid d))"

definition user_permission_codes :: "string \<Rightarrow> identity_db \<Rightarrow> string set" where
  "user_permission_codes uid d = set (concat (map (\<lambda>r. permission_codes_for_role r d) (roles_of_user uid d)))"

definition user_is_active :: "identity_db \<Rightarrow> string \<Rightarrow> bool" where
  "user_is_active d uid \<longleftrightarrow> (case dict_get (db_users d) uid of None \<Rightarrow> False | Some u \<Rightarrow> u_status u = ACTIVE)"

definition active_admins :: "identity_db \<Rightarrow> string list" where
  "active_admins d =
     (case role_by_code ADMIN_CODE d of
        None \<Rightarrow> []
      | Some (rid, _) \<Rightarrow>
          remdups (map fst (filter (\<lambda>(u, r). r = rid \<and> user_is_active d u) (user_roles d))))"

definition count_active_admins :: "identity_db \<Rightarrow> nat" where
  "count_active_admins d = length (active_admins d)"

section \<open>Users\<close>

text \<open>The loop of \<open>_assign_role_codes\<close> over the distinct normalised codes.\<close>

fun resolve_roles :: "identity_db \<Rightarrow> string list \<Rightarrow> identity_error + string list" where
  "resolve_roles d [] = Inr []"
| "resolve_roles d (c # cs) =
     (if c = [] then resolve_roles d cs
      else case role_by_code c d of
        None \<Rightarrow> Inl (RoleError (''unknown_role:'' @ c))
      | Some (rid, _) \<Rightarrow> res_bind (resolve_roles d cs) (\<lambda>rs. Inr (rid # rs)))"

definition assign_role_codes :: "string \<Rightarrow> string list \<Rightarrow> identity_db \<Rightarrow> string list on_db" where
  "assign_role_codes uid raw d =
     (let codes = map (lower \<circ> strip) raw
      in case resolve_roles d (dedup codes) of
           Inl e \<Rightarrow> (Inl e, d)
         | Inr rids \<Rightarrow>
             (Inr (sort (dedup codes)),
              d\<lparr>user_roles := filter (\<lambda>(u, _). u \<noteq> uid) (user_roles d) @ map (Pair uid) rids\<rparr>))"

definition bump_user :: "string \<Rightarrow> revocation_reason \<Rightarrow> seconds \<Rightarrow> identity_db \<Rightarrow> identity_db" where
  "bump_user uid reason now d = d\<lparr>core := bump_authz_version uid True reason now (core d)\<rparr>"

definition set_status :: "string \<Rightarrow> user_status \<Rightarrow> identity_db \<Rightarrow> identity_db" where
  "set_status uid status d =
     (case dict_get (db_users d) uid of None \<Rightarrow> d | Some u \<Rightarrow> put_user uid (u\<lparr>u_status := status\<rparr>) d)"

definition patch_user :: "string \<Rightarrow> string option \<Rightarrow> string option \<Rightarrow> identity_db \<Rightarrow> unit on_db" where
  "patch_user uid display_name actor d =
     (case dict_get (db_users d) uid of
        None \<Rightarrow> (Inl (UserError ''user_not_found''), d)
      | Some u \<Rightarrow>
          (let u' = (case display_name of None \<Rightarrow> u | Some n \<Rightarrow> u\<lparr>u_display_name := Some n\<rparr>)
           in (Inr (), record_admin ''user.updated'' actor (Some uid) (put_user uid u' d))))"

fun status_text :: "user_status \<Rightarrow> string" where
  "status_text PENDING_EMAIL = ''pending_email''"
| "status_text PENDING_APPROVAL = ''pending_approval''"
| "status_text ACTIVE = ''active''"
| "status_text DISABLED = ''disabled''"
| "status_text PASSWORD_RESET_REQUIRED = ''password_reset_required''"

definition approve_user :: "string \<Rightarrow> string list \<Rightarrow> string option \<Rightarrow> seconds \<Rightarrow> identity_db \<Rightarrow> string list on_db" where
  "approve_user uid codes actor now d =
     (case dict_get (db_users d) uid of
        None \<Rightarrow> (Inl (UserError ''user_not_found''), d)
      | Some u \<Rightarrow>
          if u_status u \<notin> {PENDING_APPROVAL, ACTIVE, DISABLED}
          then (Inl (UserError (''user_not_approvable:'' @ status_text (u_status u))), d)
          else if \<not> list_ex (\<lambda>c. c \<noteq> ADMIN_CODE) codes
          then (Inl (UserError ''approval_requires_non_admin_role''), d)
          else case assign_role_codes uid codes d of
            (Inl e, d1) \<Rightarrow> (Inl e, d1)
          | (Inr assigned, d1) \<Rightarrow>
              (Inr assigned, record_admin ''user.approved'' actor (Some uid)
                (bump_user uid (OTHER_REASON ''approval'') now (set_status uid ACTIVE d1))))"

definition guard_last_admin :: "string \<Rightarrow> identity_db \<Rightarrow> bool" where
  "guard_last_admin uid d \<longleftrightarrow>
     \<not> (user_is_active d uid \<and> ADMIN_CODE \<in> user_role_codes uid d \<and> count_active_admins d \<le> 1)"

definition guard_can_lose_admin :: "string \<Rightarrow> string list \<Rightarrow> identity_db \<Rightarrow> bool" where
  "guard_can_lose_admin uid prospective d \<longleftrightarrow> ADMIN_CODE \<in> set prospective \<or> guard_last_admin uid d"

definition assign_roles :: "string \<Rightarrow> string list \<Rightarrow> string option \<Rightarrow> seconds \<Rightarrow> identity_db \<Rightarrow> string list on_db" where
  "assign_roles uid codes actor now d =
     (if \<not> guard_can_lose_admin uid codes d then (Inl LastAdminError, d)
      else case dict_get (db_users d) uid of
        None \<Rightarrow> (Inl (UserError ''user_not_found''), d)
      | Some u \<Rightarrow>
          (case assign_role_codes uid codes d of
             (Inl e, d1) \<Rightarrow> (Inl e, d1)
           | (Inr assigned, d1) \<Rightarrow>
               (Inr assigned, record_admin ''user.roles_updated'' actor (Some uid)
                 (bump_user uid (OTHER_REASON ''role_change'') now d1))))"

definition disable_user :: "string \<Rightarrow> string option \<Rightarrow> seconds \<Rightarrow> identity_db \<Rightarrow> unit on_db" where
  "disable_user uid actor now d =
     (if \<not> guard_last_admin uid d then (Inl LastAdminError, d)
      else case dict_get (db_users d) uid of
        None \<Rightarrow> (Inl (UserError ''user_not_found''), d)
      | Some u \<Rightarrow>
          (Inr (), record_admin ''user.disabled'' actor (Some uid)
            (bump_user uid ACCOUNT_DISABLED now (set_status uid DISABLED d))))"

definition enable_user :: "string \<Rightarrow> string option \<Rightarrow> identity_db \<Rightarrow> unit on_db" where
  "enable_user uid actor d =
     (case dict_get (db_users d) uid of
        None \<Rightarrow> (Inl (UserError ''user_not_found''), d)
      | Some u \<Rightarrow>
          (Inr (), record_admin ''user.enabled'' actor (Some uid)
            (set_status uid (if u_email_verified_at u = None then PENDING_APPROVAL else ACTIVE) d)))"

definition admin_send_password_reset ::
    "(token_purpose \<Rightarrow> string \<Rightarrow> string) \<Rightarrow> token_settings \<Rightarrow> string \<Rightarrow> string option \<Rightarrow> string \<Rightarrow> string \<Rightarrow>
      seconds \<Rightarrow> identity_db \<Rightarrow> string on_db" where
  "admin_send_password_reset digest st uid actor row_id raw now d =
     (case dict_get (db_users d) uid of
        None \<Rightarrow> (Inl (UserError ''user_not_found''), d)
      | Some u \<Rightarrow>
          (case issue_token digest st uid PASSWORD_RESET row_id raw now d of
             (Inl e, d1) \<Rightarrow> (Inl e, d1)
           | (Inr r, d1) \<Rightarrow>
               (Inr r, record_admin ''user.password_reset_sent'' actor (Some uid)
                 (bump_user uid (OTHER_REASON ''forced_password_reset'') now
                   (set_status uid PASSWORD_RESET_REQUIRED d1)))))"

definition empty_identity :: identity_db where
  "empty_identity = \<lparr>core = \<lparr>users = [], sessions = [], refresh_tokens = [], audit_log = []\<rparr>,
     roles = [], permission_rows = [], role_permissions = [], user_roles = [], email_tokens = [],
     rate_limits = [], admin_audit = []\<rparr>"

end
