(* ===== verification/Rate_Limits.thy ===== *)
theory Rate_Limits
  imports Identity
begin

text \<open>
  What the fixed-window counters of \<open>services/rate_limit.py\<close> admit over time. A request is its
  bucket, identity, limit, window and clock reading; \<open>admitted\<close> are the times at which requests of
  one bucket and identity were let through, \<open>windows\<close> the same with the start of the window each
  was counted in.
\<close>

record rate_request =
  rq_bucket :: string
  rq_identity :: string
  rq_limit :: int
  rq_window :: seconds
  rq_now :: seconds

definition consume :: "rate_request \<Rightarrow> identity_db \<Rightarrow> int on_db" where
  "consume q = check_and_consume (rq_bucket q) (rq_identity q) (rq_limit q) (rq_window q) (rq_now q)"

definition rq_key :: "rate_request \<Rightarrow> string \<times> string" where
  "rq_key q = (rq_bucket q, rq_identity q)"

fun admitted :: "string \<times> string \<Rightarrow> rate_request list \<Rightarrow> identity_db \<Rightarrow> seconds list" where
  "admitted k [] d = []"
| "admitted k (q # qs) d =
     (case consume q d of
        (Inl _, d') \<Rightarrow> admitted k qs d'
      | (Inr _, d') \<Rightarrow> if rq_key q = k then rq_now q # admitted k qs d' else admitted k qs d')"

fun windows :: "string \<times> string \<Rightarrow> rate_request list \<Rightarrow> identity_db \<Rightarrow> (seconds \<times> seconds) list" where
  "windows k [] d = []"
| "windows k (q # qs) d =
     (case consume q d of
        (Inl _, d') \<Rightarrow> windows k qs d'
      | (Inr _, d') \<Rightarrow>
          if rq_key q = k
          then (rq_now q, case dict_get (rate_limits d') k of
                            None \<Rightarrow> 0 | Some row \<Rightarrow> rl_window_started_at row) # windows k qs d'
          else windows k qs d')"

lemma admitted_windows: "admitted k qs d = map fst (windows k qs d)"
  by (induction qs arbitrary: d) (auto split: prod.splits sum.splits)

lemma consume_other: "rq_key q \<noteq> k \<Longrightarrow> dict_get (rate_limits (snd (consume q d))) k = dict_get (rate_limits d) k"
  by (auto simp: consume_def check_and_consume_def rq_key_def Let_def split: option.splits)

text \<open>Windows that start at least \<open>w\<close> apart, at most \<open>cap\<close> admissions in each (\<open>cap - n\<close> in the
  one that started at \<open>s\<close>), and every admission inside its window.\<close>

definition spaced :: "seconds \<Rightarrow> int \<Rightarrow> (seconds \<times> seconds) list \<Rightarrow> bool" where
  "spaced w cap xs \<longleftrightarrow>
     (\<forall>(t, s) \<in> set xs. s \<le> t \<and> t < s + w) \<and>
     (\<forall>s. int (count_list (map snd xs) s) \<le> cap) \<and>
     (\<forall>(t, s) \<in> set xs. \<forall>(t', s') \<in> set xs. s = s' \<or> s + w \<le> s' \<or> s' + w \<le> s)"

lemma spaced_Nil [simp]: "0 \<le> cap \<Longrightarrow> spaced w cap []"
  by (simp add: spaced_def)

lemma windows_spaced:
  assumes "1 \<le> cap" "0 < w"
    and "\<forall>q \<in> set qs. rq_key q = k \<longrightarrow> rq_limit q = cap \<and> rq_window q = w"
    and "sorted (map rq_now qs)"
  shows "(case dict_get (rate_limits d) k of
      None \<Rightarrow> spaced w cap (windows k qs d)
    | Some row \<Rightarrow> 0 \<le> rl_count row \<longrightarrow> rl_count row \<le> cap \<longrightarrow> (\<forall>q \<in> set qs. rl_window_started_at row \<le> rq_now q) \<longrightarrow>
        spaced w cap (windows k qs d) \<and>
        (\<forall>(t, s) \<in> set (windows k qs d).
           s = rl_window_started_at row \<or> rl_window_started_at row + w \<le> s) \<and>
        int (count_list (map snd (windows k qs d)) (rl_window_started_at row)) + rl_count row \<le> cap)"
  using assms(3,4)
proof (induction qs arbitrary: d)
  case Nil
  with assms(1) show ?case by (auto split: option.splits)
next
  case (Cons q qs)
  obtain r d' where c: "consume q d = (r, d')" by fastforce
  note IH = Cons.IH[of d']
  show ?case
  proof (cases "rq_key q = k")
    case False
    with consume_other[OF False, of d] c have "dict_get (rate_limits d') k = dict_get (rate_limits d) k" by simp
    moreover have "windows k (q # qs) d = windows k qs d'" using c False by (simp split: sum.splits)
    ultimately show ?thesis using IH Cons.prems by (auto split: option.splits)
  next
    case True
    with Cons.prems have lim: "rq_limit q = cap" "rq_window q = w" by auto
    have k: "(rq_bucket q, rq_identity q) = k" using True by (simp add: rq_key_def)
    have fresh: ?thesis
      if new: "d' = d\<lparr>rate_limits := dict_set k \<lparr>rl_count = 1, rl_window_started_at = rq_now q\<rparr> (rate_limits d)\<rparr>"
        and r: "r = Inr 1"
        and old: "\<And>row. dict_get (rate_limits d) k = Some row \<Longrightarrow> rl_window_started_at row + w \<le> rq_now q"
    proof -
      let ?t = "rq_now q"
      let ?ws = "windows k qs d'"
      have row: "dict_get (rate_limits d') k = Some \<lparr>rl_count = 1, rl_window_started_at = ?t\<rparr>" using new by simp
      have later: "\<forall>q' \<in> set qs. ?t \<le> rq_now q'" using Cons.prems by auto
      from IH row Cons.prems later assms(1) have sp: "spaced w cap ?ws"
        and starts: "\<forall>(t, s) \<in> set ?ws. s = ?t \<or> ?t + w \<le> s"
        and cnt: "int (count_list (map snd ?ws) ?t) + 1 \<le> cap" by auto
      have ws: "windows k (q # qs) d = (?t, ?t) # ?ws" using c r True row by simp
      have "spaced w cap ((?t, ?t) # ?ws)"
        using sp starts cnt assms(2) unfolding spaced_def by fastforce
      moreover have "\<forall>(t, s) \<in> set ((?t, ?t) # ?ws). rl_window_started_at row + w \<le> s"
        if "dict_get (rate_limits d) k = Some row" for row
        using old[OF that] starts assms(2) by fastforce
      moreover have "count_list (map snd ((?t, ?t) # ?ws)) (rl_window_started_at row) = 0"
        if "dict_get (rate_limits d) k = Some row" for row
      proof -
        have "rl_window_started_at row \<notin> set (map snd ((?t, ?t) # ?ws))"
          using old[OF that] starts assms(2) by fastforce
        then show ?thesis by (metis count_list_0_iff)
      qed
      ultimately show ?thesis unfolding ws using assms(1) by (auto split: option.splits)
    qed
    show ?thesis
    proof (cases "dict_get (rate_limits d) k")
      case None
      have "d' = d\<lparr>rate_limits := dict_set k \<lparr>rl_count = 1, rl_window_started_at = rq_now q\<rparr> (rate_limits d)\<rparr>"
        and "r = Inr 1"
        using c None k lim assms(1) by (auto simp: consume_def check_and_consume_def Let_def)
      with fresh None show ?thesis by simp
    next
      case (Some row)
      let ?s = "rl_window_started_at row"
      consider "?s \<le> rq_now q - w" | "rq_now q - w < ?s" "rl_count row < cap" | "rq_now q - w < ?s" "cap \<le> rl_count row"
        by linarith
      then show ?thesis
      proof cases
        case 1
        have "d' = d\<lparr>rate_limits := dict_set k \<lparr>rl_count = 1, rl_window_started_at = rq_now q\<rparr> (rate_limits d)\<rparr>"
          and "r = Inr 1"
          using c Some k lim assms(1) 1 by (auto simp: consume_def check_and_consume_def Let_def)
        with fresh Some 1 show ?thesis by simp
      next
        case 2
        have d': "d' = d\<lparr>rate_limits := dict_set k (row\<lparr>rl_count := rl_count row + 1\<rparr>) (rate_limits d)\<rparr>"
          and r: "r = Inr (rl_count row + 1)"
          using c Some k lim assms(1) 2 by (auto simp: consume_def check_and_consume_def Let_def)
        have row': "dict_get (rate_limits d') k = Some (row\<lparr>rl_count := rl_count row + 1\<rparr>)" using d' by simp
        have ws: "windows k (q # qs) d = (rq_now q, ?s) # windows k qs d'" using c r True row' by simp
        show ?thesis
          unfolding Some ws option.case
        proof (intro impI)
          assume pos: "0 \<le> rl_count row" and "rl_count row \<le> cap"
            and later: "\<forall>q' \<in> set (q # qs). ?s \<le> rq_now q'"
          with IH row' Cons.prems 2 have sp: "spaced w cap (windows k qs d')"
            and starts: "\<forall>(t, s) \<in> set (windows k qs d'). s = ?s \<or> ?s + w \<le> s"
            and cnt: "int (count_list (map snd (windows k qs d')) ?s) + (rl_count row + 1) \<le> cap" by auto
          have "spaced w cap ((rq_now q, ?s) # windows k qs d')"
            using sp starts cnt 2 later pos unfolding spaced_def by fastforce
          then show "spaced w cap ((rq_now q, ?s) # windows k qs d') \<and>
            (\<forall>(t, s) \<in> set ((rq_now q, ?s) # windows k qs d'). s = ?s \<or> ?s + w \<le> s) \<and>
            int (count_list (map snd ((rq_now q, ?s) # windows k qs d')) ?s) + rl_count row \<le> cap"
            using starts cnt by simp
        qed
      next
        case 3
        have "d' = d" and "r = Inl (RateLimited (rq_bucket q))"
          using c Some k lim assms(1) 3 by (auto simp: consume_def check_and_consume_def Let_def)
        with c True have "windows k (q # qs) d = windows k qs d" by simp
        with IH \<open>d' = d\<close> Some Cons.prems show ?thesis by auto
      qed
    qed
  qed
qed

lemma count_filter_le: "count_list (map f (filter P xs)) y \<le> count_list (map f xs) y"
  by (induction xs) auto

text \<open>Numbers less than two widths apart that are pairwise a width apart: at most two.\<close>

lemma two_apart:
  fixes S :: "seconds set"
  assumes "finite S" "\<forall>s \<in> S. lo < s \<and> s < lo + 2 * w" "0 < w"
    and "\<forall>s \<in> S. \<forall>s' \<in> S. s = s' \<or> s + w \<le> s' \<or> s' + w \<le> s"
  shows "card S \<le> 2"
proof (rule ccontr)
  assume "\<not> card S \<le> 2"
  then have "3 \<le> card S" by simp
  then obtain T where T: "T \<subseteq> S" "card T = 3"
    using assms(1) obtain_subset_with_card_n by metis
  then obtain x y z where xyz: "x \<in> S" "y \<in> S" "z \<in> S" "x \<noteq> y" "y \<noteq> z" "x \<noteq> z"
    by (auto simp: card_3_iff)
  have "x + w \<le> y \<or> y + w \<le> x" "y + w \<le> z \<or> z + w \<le> y" "x + w \<le> z \<or> z + w \<le> x"
    using assms(4) xyz by blast+
  moreover have "x < lo + 2 * w" "y < lo + 2 * w" "z < lo + 2 * w" "lo < x" "lo < y" "lo < z"
    using assms(2) xyz by auto
  ultimately show False using assms(3) by linarith
qed

text \<open>Throttling holds over any interval, not only within the stored window: with clock readings
  that never go back, however requests for other buckets and identities interleave, the requests
  of one bucket and identity let through within any time span of one window's length are at most
  twice the limit.\<close>

lemma rate_limit_bound:
  assumes "1 \<le> cap" "0 < w" "sorted (map rq_now qs)"
    and "\<forall>q \<in> set qs. rq_key q = k \<longrightarrow> rq_limit q = cap \<and> rq_window q = w"
    and "dict_get (rate_limits d) k = None"
  shows "int (length (filter (\<lambda>t. a \<le> t \<and> t < a + w) (admitted k qs d))) \<le> 2 * cap"
proof -
  let ?F = "filter (\<lambda>(t, s). a \<le> t \<and> t < a + w) (windows k qs d)"
  let ?S = "set (map snd ?F)"
  have sp: "spaced w cap (windows k qs d)"
    using windows_spaced[OF assms(1,2,4,3), of d] assms(5) by simp
  have "filter (\<lambda>t. a \<le> t \<and> t < a + w) (admitted k qs d) = map fst ?F"
    by (simp add: admitted_windows filter_map comp_def case_prod_beta')
  then have len: "length (filter (\<lambda>t. a \<le> t \<and> t < a + w) (admitted k qs d)) = length (map snd ?F)" by simp
  have each: "int (count_list (map snd ?F) s) \<le> cap" for s
  proof -
    have "int (count_list (map snd (windows k qs d)) s) \<le> cap" using sp by (simp add: spaced_def)
    moreover have "count_list (map snd ?F) s \<le> count_list (map snd (windows k qs d)) s"
      by (rule count_filter_le)
    ultimately show ?thesis by linarith
  qed
  have "card ?S \<le> 2"
  proof (rule two_apart[of _ "a - w" w])
    show "\<forall>s \<in> ?S. a - w < s \<and> s < a - w + 2 * w" using sp by (fastforce simp: spaced_def)
    show "\<forall>s \<in> ?S. \<forall>s' \<in> ?S. s = s' \<or> s + w \<le> s' \<or> s' + w \<le> s"
      using sp unfolding spaced_def by fastforce
  qed (use assms(2) in simp_all)
  have "int (length (map snd ?F)) = (\<Sum>s \<in> ?S. int (count_list (map snd ?F) s))"
    using sum_count_set[of "map snd ?F" ?S] by (simp flip: of_nat_sum)
  also have "\<dots> \<le> int (card ?S) * cap" using sum_bounded_above[of ?S _ cap] each by simp
  also have "\<dots> \<le> 2 * cap" using \<open>card ?S \<le> 2\<close> assms(1) by (intro mult_right_mono) auto
  finally show ?thesis using len by simp
qed

definition demo_requests :: "rate_request list" where
  "demo_requests = map (\<lambda>t. \<lparr>rq_bucket = ''login'', rq_identity = ''ip'', rq_limit = 2, rq_window = 10,
     rq_now = t\<rparr>) [0, 8, 9, 10, 11, 12]"

lemma rate_limit_bound_witness:
  "admitted (''login'', ''ip'') demo_requests empty_identity = [0, 8, 10, 11] \<and>
   int (length (filter (\<lambda>t. 5 \<le> t \<and> t < 5 + 10) (admitted (''login'', ''ip'') demo_requests empty_identity))) \<le> 2 * 2"
proof -
  have "admitted (''login'', ''ip'') demo_requests empty_identity = [0, 8, 10, 11]" by code_simp
  moreover have "int (length (filter (\<lambda>t. 5 \<le> t \<and> t < 5 + 10)
      (admitted (''login'', ''ip'') demo_requests empty_identity))) \<le> 2 * 2"
    by (rule rate_limit_bound) (auto simp: demo_requests_def empty_identity_def rq_key_def)
  ultimately show ?thesis by blast
qed

end
