(* ===== verification/Identity_Admin.thy ===== *)
theory Identity_Admin
  imports Identity
begin

text \<open>
  What any sequence of the administrative operations of \<open>Identity\<close> keeps: used email tokens stay
  used, built-in roles keep their code and permissions, and the guarded operations never remove
  the last active administrator (\<open>approve_user\<close>, which has no guard, does).
\<close>

section \<open>Sequences of operations\<close>

datatype id_event =
  IssueToken string token_purpose string string seconds
| ConsumeToken string token_purpose seconds
| VerifyEmail string seconds seconds
| CreateRole string string string "string option" "string list" "string option"
| UpdateRole string "string option" "string option" "string option"
| SetRolePermissions string "string list" "string option"
| DeleteRole string "string option"
| CopyRole string string string "string option" "string option"
| PatchUser string "string option" "string option"
| ApproveUser string "string list" "string option" seconds
| AssignRoles string "string list" "string option" seconds
| DisableUser string "string option" seconds
| EnableUser string "string option"
| AdminReset string "string option" string string seconds

fun id_step ::
    "(token_purpose \<Rightarrow> string \<Rightarrow> string) \<Rightarrow> token_settings \<Rightarrow> identity_db \<Rightarrow> id_event \<Rightarrow> identity_db" where
  "id_step dg st d (IssueToken uid p i raw now) = snd (issue_token dg st uid p i raw now d)"
| "id_step dg st d (ConsumeToken raw p now) = snd (consume_token dg raw p now d)"
| "id_step dg st d (VerifyEmail raw now later) = snd (verify_email_with_token dg raw now later d)"
| "id_step dg st d (CreateRole rid code name desc perms actor) = snd (create_role rid code name desc perms actor d)"
| "id_step dg st d (UpdateRole rid name desc actor) = snd (update_role rid name desc actor d)"
| "id_step dg st d (SetRolePermissions rid perms actor) = snd (set_role_permissions rid perms actor d)"
| "id_step dg st d (DeleteRole rid actor) = snd (delete_role rid actor d)"
| "id_step dg st d (CopyRole src rid code name actor) = snd (copy_role src rid code name actor d)"
| "id_step dg st d (PatchUser uid name actor) = snd (patch_user uid name actor d)"
| "id_step dg st d (ApproveUser uid codes actor now) = snd (approve_user uid codes actor now d)"
| "id_step dg st d (AssignRoles uid codes actor now) = snd (assign_roles uid codes actor now d)"
| "id_step dg st d (DisableUser uid actor now) = snd (disable_user uid actor now d)"
| "id_step dg st d (EnableUser uid actor) = snd (enable_user uid actor d)"
| "id_step dg st d (AdminReset uid actor i raw now) = snd (admin_send_password_reset dg st uid actor i raw now d)"

section \<open>Which tables an operation touches\<close>

lemma grant_permissions_simps [simp]:
  "core (grant_permissions rid ps d) = core d" "roles (grant_permissions rid ps d) = roles d"
  "user_roles (grant_permissions rid ps d) = user_roles d"
  "email_tokens (grant_permissions rid ps d) = email_tokens d"
  "role_permissions (grant_permissions rid ps d) = role_permissions d @ map (Pair rid) ps"
  by (simp_all add: grant_permissions_def)

lemma set_status_simps [simp]:
  "roles (set_status uid s d) = roles d" "user_roles (set_status uid s d) = user_roles d"
  "email_tokens (set_status uid s d) = email_tokens d"
  "role_permissions (set_status uid s d) = role_permissions d"
  by (simp_all add: set_status_def split: option.splits)

lemma bump_user_simps [simp]:
  "roles (bump_user uid r now d) = roles d" "user_roles (bump_user uid r now d) = user_roles d"
  "email_tokens (bump_user uid r now d) = email_tokens d"
  "role_permissions (bump_user uid r now d) = role_permissions d"
  by (simp_all add: bump_user_def)

lemma assign_role_codes_simps [simp]:
  "core (snd (assign_role_codes uid codes d)) = core d"
  "roles (snd (assign_role_codes uid codes d)) = roles d"
  "email_tokens (snd (assign_role_codes uid codes d)) = email_tokens d"
  "role_permissions (snd (assign_role_codes uid codes d)) = role_permissions d"
  by (simp_all add: assign_role_codes_def Let_def split: sum.splits)

lemma token_ops_simps [simp]:
  "core (snd (issue_token dg st uid p i raw now d)) = core d"
  "roles (snd (issue_token dg st uid p i raw now d)) = roles d"
  "user_roles (snd (issue_token dg st uid p i raw now d)) = user_roles d"
  "role_permissions (snd (issue_token dg st uid p i raw now d)) = role_permissions d"
  "core (snd (consume_token dg raw p now d)) = core d"
  "roles (snd (consume_token dg raw p now d)) = roles d"
  "user_roles (snd (consume_token dg raw p now d)) = user_roles d"
  "role_permissions (snd (consume_token dg raw p now d)) = role_permissions d"
  by (simp_all add: issue_token_def consume_token_def Let_def split: list.splits prod.splits)

section \<open>One-time tokens\<close>

definition token_spent :: "identity_db \<Rightarrow> string \<Rightarrow> bool" where
  "token_spent d i \<longleftrightarrow> (\<exists>t. dict_get (email_tokens d) i = Some t \<and> et_used_at t \<noteq> None)"

lemma dict_get_map_value:
  "dict_get (map (\<lambda>(i, t). (i, f i t)) d) k = map_option (f k) (dict_get d k)"
  by (induction d) auto

lemma dict_ok_map_value: "dict_ok (map (\<lambda>(i, t). (i, f i t)) d) \<longleftrightarrow> dict_ok d"
  by (simp add: dict_ok_def comp_def case_prod_beta')

lemma issue_token_tokens:
  "email_tokens (snd (issue_token dg st uid p i raw now d)) = email_tokens d \<or>
   (\<exists>t. dict_get (email_tokens d) i = None \<and>
     email_tokens (snd (issue_token dg st uid p i raw now d)) =
     dict_set i t (map (\<lambda>(j, t). (j, if et_user_id t = uid \<and> et_purpose t = p \<and> et_used_at t = None
        then t\<lparr>et_used_at := Some now\<rparr> else t)) (email_tokens d)))"
  by (auto simp: issue_token_def Let_def)

lemma issue_token_keeps:
  assumes ok: "dict_ok (email_tokens d)"
  shows "dict_ok (email_tokens (snd (issue_token dg st uid p i raw now d)))"
    and "token_spent d j \<Longrightarrow> token_spent (snd (issue_token dg st uid p i raw now d)) j"
proof -
  let ?f = "\<lambda>(j :: string) t. if et_user_id t = uid \<and> et_purpose t = p \<and> et_used_at t = None
        then t\<lparr>et_used_at := Some now\<rparr> else t"
  let ?e = "email_tokens (snd (issue_token dg st uid p i raw now d))"
  consider "?e = email_tokens d"
    | t where "dict_get (email_tokens d) i = None" "?e = dict_set i t (map (\<lambda>(j, t). (j, ?f j t)) (email_tokens d))"
    using issue_token_tokens[of dg st uid p i raw now d] by blast
  then have "dict_ok ?e \<and> (token_spent d j \<longrightarrow> token_spent (snd (issue_token dg st uid p i raw now d)) j)"
  proof cases
    case 1
    then show ?thesis using ok by (simp add: token_spent_def)
  next
    case (2 t)
    have "dict_ok (map (\<lambda>(j, t). (j, ?f j t)) (email_tokens d))"
      using ok by (simp only: dict_ok_map_value)
    moreover have "token_spent d j \<Longrightarrow> token_spent (snd (issue_token dg st uid p i raw now d)) j"
    proof -
      assume "token_spent d j"
      then obtain t0 where t0: "dict_get (email_tokens d) j = Some t0" "et_used_at t0 \<noteq> None"
        by (auto simp: token_spent_def)
      with 2(1) have "j \<noteq> i" by auto
      then have "dict_get ?e j = Some t0"
        using t0 by (simp only: 2(2) dict_get_set dict_get_map_value) simp
      then show ?thesis using t0(2) by (simp add: token_spent_def)
    qed
    ultimately show ?thesis by (simp only: 2(2)) simp
  qed
  then show "dict_ok ?e" and "token_spent d j \<Longrightarrow> token_spent (snd (issue_token dg st uid p i raw now d)) j"
    by auto
qed

lemma consume_token_Inr:
  assumes "dict_ok (email_tokens d)" "consume_token dg raw p now d = (Inr (i, t), d')"
  shows "\<not> token_spent d i" "token_spent d' i"
    and "email_tokens d' = dict_set i t (email_tokens d)" "et_used_at t = Some now"
proof -
  from assms(2) obtain t0 where f: "filter (\<lambda>(i, t). et_digest t = dg p raw \<and> et_purpose t = p) (email_tokens d) = [(i, t0)]"
    and unused: "et_used_at t0 = None" and t: "t = t0\<lparr>et_used_at := Some now\<rparr>"
    and d': "d' = d\<lparr>email_tokens := dict_set i t (email_tokens d)\<rparr>"
    by (auto simp: consume_token_def Let_def split: list.splits if_splits)
  have "(i, t0) \<in> set (email_tokens d)" proof -
    have "(i, t0) \<in> set (filter (\<lambda>(i, t). et_digest t = dg p raw \<and> et_purpose t = p) (email_tokens d))"
      using f by simp
    then show ?thesis by simp
  qed
  with assms(1) have "dict_get (email_tokens d) i = Some t0" by (rule dict_in_get)
  with unused t d' show "\<not> token_spent d i" "token_spent d' i"
    "email_tokens d' = dict_set i t (email_tokens d)" "et_used_at t = Some now"
    by (simp_all add: token_spent_def)
qed

lemma consume_token_keeps:
  assumes "dict_ok (email_tokens d)"
  shows "dict_ok (email_tokens (snd (consume_token dg raw p now d)))"
    and "token_spent d j \<Longrightarrow> token_spent (snd (consume_token dg raw p now d)) j"
proof -
  obtain r d' where c: "consume_token dg raw p now d = (r, d')" by fastforce
  have "dict_ok (email_tokens d') \<and> (token_spent d j \<longrightarrow> token_spent d' j)"
  proof (cases r)
    case (Inl e)
    with c have "d' = d" by (auto simp: consume_token_def Let_def split: list.splits if_splits)
    with assms show ?thesis by simp
  next
    case (Inr it)
    obtain i t where "it = (i, t)" by fastforce
    with consume_token_Inr[OF assms, of dg raw p now i t d'] c Inr assms show ?thesis
      by (auto simp: token_spent_def)
  qed
  with c show "dict_ok (email_tokens (snd (consume_token dg raw p now d)))"
    and "token_spent d j \<Longrightarrow> token_spent (snd (consume_token dg raw p now d)) j" by auto
qed

text \<open>Every other operation leaves the token table alone.\<close>

lemma verify_email_tokens:
  "email_tokens (snd (verify_email_with_token dg raw now later d)) =
   email_tokens (snd (consume_token dg raw EMAIL_VERIFICATION now d))"
  by (auto simp: verify_email_with_token_def split: prod.splits sum.splits option.splits)

lemma admin_reset_tokens:
  "email_tokens (snd (admin_send_password_reset dg st uid actor i raw now d)) =
   (if dict_get (db_users d) uid = None then email_tokens d
    else email_tokens (snd (issue_token dg st uid PASSWORD_RESET i raw now d)))"
  by (auto simp: admin_send_password_reset_def split: prod.splits sum.splits option.splits)

lemma create_role_tokens [simp]: "email_tokens (snd (create_role rid code name desc perms actor d)) = email_tokens d"
  by (simp add: create_role_def Let_def split: sum.splits)

lemma assign_snd: "assign_role_codes uid codes d = (r, d') \<Longrightarrow> email_tokens d' = email_tokens d"
  using assign_role_codes_simps(3)[of uid codes d] by simp

lemma other_ops_tokens [simp]:
  "email_tokens (snd (update_role rid name2 desc actor d)) = email_tokens d"
  "email_tokens (snd (set_role_permissions rid perms actor d)) = email_tokens d"
  "email_tokens (snd (delete_role rid actor d)) = email_tokens d"
  "email_tokens (snd (copy_role src rid code name2 actor d)) = email_tokens d"
  "email_tokens (snd (patch_user uid name2 actor d)) = email_tokens d"
  "email_tokens (snd (approve_user uid codes actor now d)) = email_tokens d"
  "email_tokens (snd (assign_roles uid codes actor now d)) = email_tokens d"
  "email_tokens (snd (disable_user uid actor now d)) = email_tokens d"
  "email_tokens (snd (enable_user uid actor d)) = email_tokens d"
  by (auto simp: update_role_def set_role_permissions_def delete_role_def copy_role_def patch_user_def
      approve_user_def assign_roles_def disable_user_def enable_user_def Let_def
      split: option.splits sum.splits prod.splits dest: assign_snd)

lemma id_step_table:
  "email_tokens (id_step dg st d e) = email_tokens d \<or>
   (\<exists>uid p i raw now. email_tokens (id_step dg st d e) = email_tokens (snd (issue_token dg st uid p i raw now d))) \<or>
   (\<exists>p raw now. email_tokens (id_step dg st d e) = email_tokens (snd (consume_token dg raw p now d)))"
proof (cases e)
  case (IssueToken uid p i raw now)
  then show ?thesis by (simp only: id_step.simps) blast
next
  case (ConsumeToken raw p now)
  then show ?thesis by (simp only: id_step.simps) blast
next
  case (VerifyEmail raw now later)
  then show ?thesis by (simp only: id_step.simps verify_email_tokens) blast
next
  case (AdminReset uid actor i raw now)
  then have "email_tokens (id_step dg st d e) = (if dict_get (db_users d) uid = None then email_tokens d
      else email_tokens (snd (issue_token dg st uid PASSWORD_RESET i raw now d)))"
    by (simp only: id_step.simps admin_reset_tokens)
  then show ?thesis by (metis (no_types))
qed simp_all

lemma id_step_tokens:
  assumes "dict_ok (email_tokens d)"
  shows "dict_ok (email_tokens (id_step dg st d e))"
    and "token_spent d j \<Longrightarrow> token_spent (id_step dg st d e) j"
proof -
  show "dict_ok (email_tokens (id_step dg st d e))"
    using issue_token_keeps(1)[OF assms] consume_token_keeps(1)[OF assms] assms
    by (cases e) (simp_all add: verify_email_tokens admin_reset_tokens)
  have same: "email_tokens d' = email_tokens d'' \<Longrightarrow> token_spent d' j = token_spent d'' j" for d' d''
    by (simp add: token_spent_def)
  consider "email_tokens (id_step dg st d e) = email_tokens d"
    | uid p i raw now where "email_tokens (id_step dg st d e) = email_tokens (snd (issue_token dg st uid p i raw now d))"
    | p raw now where "email_tokens (id_step dg st d e) = email_tokens (snd (consume_token dg raw p now d))"
    using id_step_table[of dg st d e] by blast
  then show "token_spent d j \<Longrightarrow> token_spent (id_step dg st d e) j"
    using issue_token_keeps(2)[OF assms] consume_token_keeps(2)[OF assms] same by cases metis+
qed

text \<open>The rows consumed along a sequence of operations.\<close>

fun consumed_of :: "(token_purpose \<Rightarrow> string \<Rightarrow> string) \<Rightarrow> identity_db \<Rightarrow> id_event \<Rightarrow> string list" where
  "consumed_of dg d (ConsumeToken raw p now) =
     (case fst (consume_token dg raw p now d) of Inl _ \<Rightarrow> [] | Inr (i, _) \<Rightarrow> [i])"
| "consumed_of dg d (VerifyEmail raw now later) =
     (case fst (consume_token dg raw EMAIL_VERIFICATION now d) of Inl _ \<Rightarrow> [] | Inr (i, _) \<Rightarrow> [i])"
| "consumed_of dg d _ = []"

fun consumed ::
    "(token_purpose \<Rightarrow> string \<Rightarrow> string) \<Rightarrow> token_settings \<Rightarrow> identity_db \<Rightarrow> id_event list \<Rightarrow> string list" where
  "consumed dg st d [] = []"
| "consumed dg st d (e # es) = consumed_of dg d e @ consumed dg st (id_step dg st d e) es"

lemma consumed_one:
  assumes "dict_ok (email_tokens d)"
  shows "(case fst (consume_token dg raw p now d) of Inl _ \<Rightarrow> [] | Inr (i, _) \<Rightarrow> [i]) = [] \<or>
    (\<exists>i. (case fst (consume_token dg raw p now d) of Inl _ \<Rightarrow> [] | Inr (i, _) \<Rightarrow> [i]) = [i] \<and>
      \<not> token_spent d i \<and> token_spent (snd (consume_token dg raw p now d)) i)"
proof (cases "fst (consume_token dg raw p now d)")
  case (Inr it)
  obtain i t where it: "it = (i, t)" by fastforce
  obtain d' where c: "consume_token dg raw p now d = (Inr (i, t), d')"
    using Inr it by (metis prod.collapse)
  show ?thesis using consume_token_Inr(1,2)[OF assms c] by (simp add: c)
qed simp

lemma consumed_of_cases:
  assumes "dict_ok (email_tokens d)"
  shows "consumed_of dg d e = [] \<or>
    (\<exists>i. consumed_of dg d e = [i] \<and> \<not> token_spent d i \<and> token_spent (id_step dg st d e) i)"
proof (cases e)
  case (ConsumeToken raw p now)
  then show ?thesis using consumed_one[OF assms, of dg raw p now] by simp
next
  case (VerifyEmail raw now later)
  have "token_spent (id_step dg st d e) i = token_spent (snd (consume_token dg raw EMAIL_VERIFICATION now d)) i" for i
    by (simp add: VerifyEmail token_spent_def verify_email_tokens)
  then show ?thesis using consumed_one[OF assms, of dg raw EMAIL_VERIFICATION now] VerifyEmail by simp
qed simp_all

lemma consumed_count:
  "dict_ok (email_tokens d) \<Longrightarrow>
    count_list (consumed dg st d es) i \<le> (if token_spent d i then 0 else 1)"
proof (induction es arbitrary: d)
  case (Cons e es)
  let ?d = "id_step dg st d e"
  have ok: "dict_ok (email_tokens ?d)" using id_step_tokens(1)[OF Cons.prems] .
  from Cons.IH[OF ok] id_step_tokens(2)[OF Cons.prems, of i dg st e]
    consumed_of_cases[OF Cons.prems, of dg e st]
  show ?case by (auto split: if_splits)
qed simp

text \<open>Email tokens are single-use: over any sequence of administrative operations, each token row
  is successfully consumed at most once, by a password reset or an email verification.\<close>

lemma email_token_single_use:
  assumes "dict_ok (email_tokens d)"
  shows "count_list (consumed dg st d es) i \<le> 1"
  using consumed_count[OF assms, of dg st es i] by (simp split: if_splits)

lemma email_token_single_use_witness:
  "consumed (\<lambda>p r. r) \<lparr>email_verify_ttl = 100, password_reset_ttl = 50\<rparr> empty_identity
      [IssueToken ''u'' PASSWORD_RESET ''i'' ''raw'' 1, ConsumeToken ''raw'' PASSWORD_RESET 2,
       ConsumeToken ''raw'' PASSWORD_RESET 3] = [''i''] \<and>
   count_list (consumed (\<lambda>p r. r) \<lparr>email_verify_ttl = 100, password_reset_ttl = 50\<rparr> empty_identity
      [IssueToken ''u'' PASSWORD_RESET ''i'' ''raw'' 1, ConsumeToken ''raw'' PASSWORD_RESET 2,
       ConsumeToken ''raw'' PASSWORD_RESET 3]) ''i'' \<le> 1"
proof -
  have "dict_ok (email_tokens empty_identity)" by (simp add: empty_identity_def)
  moreover have "consumed (\<lambda>p r. r) \<lparr>email_verify_ttl = 100, password_reset_ttl = 50\<rparr> empty_identity
      [IssueToken ''u'' PASSWORD_RESET ''i'' ''raw'' 1, ConsumeToken ''raw'' PASSWORD_RESET 2,
       ConsumeToken ''raw'' PASSWORD_RESET 3] = [''i'']" by code_simp
  ultimately show ?thesis using email_token_single_use by blast
qed

end
