(* ===== verification/Credentials.thy ===== *)
theory Credentials
  imports Identity
begin

text \<open>
  Email addresses, passwords and the initial tables: \<open>emails.py\<close>, \<open>passwords.py\<close>,
  \<open>services/bootstrap.py\<close> and the seed of \<open>migrations/versions/0001_iam_initial.py\<close> under
  \<open>src/security/rbac\<close>. Unicode tables, the \<open>email_validator\<close> package and the Argon2 hasher are the
  arguments \<open>credentials\<close>.
\<close>

record credentials =
  nfc :: "string \<Rightarrow> string"
  email_validator :: "(string \<Rightarrow> string + string) option"
  control_char :: "char \<Rightarrow> bool"
  argon_hash :: "string \<Rightarrow> string \<Rightarrow> string"
  argon_verify :: "string \<Rightarrow> string \<Rightarrow> bool option"
  dummy_hash :: string

section \<open>Email addresses\<close>

definition normalize_email :: "credentials \<Rightarrow> string \<Rightarrow> string" where
  "normalize_email k email = lower (nfc k (strip email))"

definition validate_and_normalize :: "credentials \<Rightarrow> string \<Rightarrow> string + string" where
  "validate_and_normalize k email =
     (let raw = strip email
      in if raw = [] then Inl ''email_required''
         else case email_validator k of
           None \<Rightarrow> Inl ''email_validator_unavailable''
         | Some v \<Rightarrow>
             (case v raw of
                Inl e \<Rightarrow> Inl (''invalid_email:'' @ e)
              | Inr n \<Rightarrow> Inr (normalize_email k n)))"

section \<open>Passwords\<close>

definition MIN_LENGTH :: nat where "MIN_LENGTH = 15"
definition MAX_LENGTH :: nat where "MAX_LENGTH = 128"

definition COMMON_PASSWORDS :: "string list" where
  "COMMON_PASSWORDS = [''123456789012345'', ''1234567890123456'', ''111111111111111'', ''000000000000000'',
     ''passwordpassword'', ''qwertyqwerty123'', ''asdfasdfasdf12'', ''aaaaaaaaaaaaaaa'',
     ''abcdefghijklmno'', ''abcabcabcabcab'', ''password1234567'']"

text \<open>The salt of a hash is an argument.\<close>

definition hash_password :: "credentials \<Rightarrow> string \<Rightarrow> string \<Rightarrow> string" where
  "hash_password k salt pw = argon_hash k salt (nfc k pw)"

definition verify_password :: "credentials \<Rightarrow> string \<Rightarrow> string \<Rightarrow> bool" where
  "verify_password k pw h \<longleftrightarrow> argon_verify k (nfc k pw) h = Some True"

definition needs_rehash :: "string \<Rightarrow> bool" where
  "needs_rehash h \<longleftrightarrow> h = [] \<or> \<not> starts_with h ''$argon2id$''"

definition validate_password :: "credentials \<Rightarrow> string \<Rightarrow> string + string" where
  "validate_password k pw =
     (let n = nfc k pw
      in if length n < MIN_LENGTH then Inl ''password_too_short:min_15''
         else if MAX_LENGTH < length n then Inl ''password_too_long:max_128''
         else if list_ex (control_char k) n then Inl ''password_contains_control_chars''
         else if lower n \<in> set COMMON_PASSWORDS then Inl ''password_too_common''
         else Inr n)"

text \<open>Which entries of the deny-list can ever match: the length test comes first.\<close>

lemma unreachable_common_passwords:
  "filter (\<lambda>p. length p < MIN_LENGTH) COMMON_PASSWORDS = [''asdfasdfasdf12'', ''abcabcabcabcab'']"
  by code_simp

lemma validate_password_Inr [result_elims]:
  "validate_password k pw = Inr n \<Longrightarrow> n = nfc k pw \<and> MIN_LENGTH \<le> length n \<and> length n \<le> MAX_LENGTH \<and>
    list_all (\<lambda>c. \<not> control_char k c) n"
  by (auto simp: validate_password_def Let_def list_all_iff list_ex_iff split: if_splits)

section \<open>The initial tables\<close>

text \<open>The migration inserts the catalogue and the built-in roles with generated keys.\<close>

definition role_labels :: "(string \<times> string \<times> string) list" where
  "role_labels =
     [(VIEWER_CODE, ''Viewer'', ''Read own runs, reports, events and task activity.''),
      (RESEARCHER_CODE, ''Researcher'', ''Create, control and interact with own research; use search & native tools.''),
      (DEVELOPER_CODE, ''Developer'', ''Researcher capabilities plus own observability, diagnostics and advanced tools.''),
      (ADMIN_CODE, ''Administrator'', ''Manage users, roles, permissions and audit. No cross-user run access.'')]"

definition seed_catalog_and_roles :: "(string \<Rightarrow> string) \<Rightarrow> (string \<Rightarrow> string) \<Rightarrow> identity_db" where
  "seed_catalog_and_roles perm_id role_id = empty_identity
     \<lparr>permission_rows := map (\<lambda>(c, _). (perm_id c, c)) PERMISSIONS,
      roles := map (\<lambda>(c, name, description). (role_id c, \<lparr>role_code = c, role_name = name,
        role_description = Some description, role_is_system = True\<rparr>)) role_labels,
      role_permissions := concat (map (\<lambda>(c, ps). map (\<lambda>p. (role_id c, perm_id p)) ps) SYSTEM_ROLES)\<rparr>"

definition user_by_email :: "string \<Rightarrow> identity_db \<Rightarrow> (string \<times> iam_user) option" where
  "user_by_email e d = List.find (\<lambda>(i, u). u_email_normalized u = e) (db_users d)"

text \<open>The loop over \<open>(ADMIN_CODE, RESEARCHER_CODE)\<close>; any exception rolls the caller back.\<close>

fun add_roles :: "string \<Rightarrow> string list \<Rightarrow> identity_db \<Rightarrow> identity_db option" where
  "add_roles uid [] d = Some d"
| "add_roles uid (c # cs) d =
     (case role_by_code c d of
        None \<Rightarrow> None
      | Some (rid, _) \<Rightarrow> add_roles uid cs (d\<lparr>user_roles := user_roles d @ [(uid, rid)]\<rparr>))"

definition bootstrap_admin ::
    "credentials \<Rightarrow> string \<Rightarrow> string \<Rightarrow> string \<Rightarrow> string option \<Rightarrow> string \<Rightarrow> seconds \<Rightarrow> identity_db \<Rightarrow>
      string option on_db" where
  "bootstrap_admin k uid email password display_name salt now d =
     (if 0 < count_active_admins d then (Inr None, d)
      else case validate_and_normalize k email of
        Inl e \<Rightarrow> (Inl (ValueError e), d)
      | Inr normalized \<Rightarrow>
     (case validate_password k password of
        Inl e \<Rightarrow> (Inl (ValueError e), d)
      | Inr validated \<Rightarrow>
          if user_by_email normalized d \<noteq> None then (Inr None, d)
          else if dict_get (db_users d) uid \<noteq> None then (Inl DatabaseError, d)
          else (let u = \<lparr>u_status = ACTIVE, authz_version = 1, u_email = normalized,
                   u_email_normalized = normalized, u_password_hash = Some (hash_password k salt validated),
                   u_display_name = Some (case display_name of None \<Rightarrow> ''Administrator''
                     | Some n \<Rightarrow> if n = [] then ''Administrator'' else n),
                   u_email_verified_at = Some now, u_failed_login_count = 0, u_locked_until = None,
                   u_created_at = now\<rparr>
                in case add_roles uid [ADMIN_CODE, RESEARCHER_CODE] (put_user uid u d) of
                     None \<Rightarrow> (Inl (ValueError ''system_role_missing''), d)
                   | Some d' \<Rightarrow> (Inr (Some uid), d'))))"

text \<open>A deployment freshly installed: the ids of the demonstration are the codes themselves.\<close>

definition demo_credentials :: credentials where
  "demo_credentials = \<lparr>nfc = id, email_validator = Some Inr, control_char = (\<lambda>c. of_char c < (32 :: nat)),
     argon_hash = (\<lambda>salt p. ''$argon2id$'' @ p), argon_verify = (\<lambda>p h. Some (h = ''$argon2id$'' @ p)),
     dummy_hash = ''$argon2id$dummy-password-for-timing-equality''\<rparr>"

definition fresh_deployment :: identity_db where
  "fresh_deployment = snd (bootstrap_admin demo_credentials ''root'' ''root@example.org''
     ''correct horse battery'' None [] 0 (seed_catalog_and_roles id id))"

lemma fresh_deployment_admin: "active_admins fresh_deployment = [''root'']"
  by code_simp

end
