(* ===== verification/Identity_Safety.thy ===== *)
theory Identity_Safety
  imports Identity_Admin Credentials
begin

text \<open>
  Invariants of the identity tables along any sequence of administrative operations: every key of
  an association row resolves, built-in roles are frozen, and which operations can leave the
  deployment without an active administrator.
\<close>

section \<open>What an operation does to a role\<close>

lemma find_filter: "List.find P xs = Some x \<Longrightarrow> Q x \<Longrightarrow> List.find P (filter Q xs) = Some x"
  by (induction xs) (auto split: if_splits)

lemma find_append: "List.find P xs = Some x \<Longrightarrow> List.find P (xs @ ys) = Some x"
  by (induction xs) (auto split: if_splits)

lemma find_dict_set:
  assumes "P (k, v) = P (k, r)" "dict_get d k = Some r"
  shows "map_option fst (List.find P (dict_set k v d)) = map_option fst (List.find P d)"
  using assms by (induction d) (auto split: if_splits)

lemma find_same_key:
  "dict_ok d \<Longrightarrow> List.find P d = Some (k, r) \<Longrightarrow> dict_get d k = Some r \<and> P (k, r)"
  by (auto simp: find_Some_iff dict_in_get)

lemma dict_get_filter: "dict_get (filter (\<lambda>(i, _). i \<noteq> k) d) j = (if j = k then None else dict_get d j)"
  by (induction d) auto

lemma dict_ok_filter: "dict_ok d \<Longrightarrow> dict_ok (filter P d)"
  by (simp add: dict_ok_def distinct_map_filter)

text \<open>What an operation does to a user: its status, read through the users table.\<close>

definition status_of :: "identity_db \<Rightarrow> string \<Rightarrow> user_status option" where
  "status_of d uid = map_option u_status (dict_get (db_users d) uid)"

lemma user_is_active_status: "user_is_active d uid \<longleftrightarrow> status_of d uid = Some ACTIVE"
  by (auto simp: user_is_active_def status_of_def split: option.splits)

lemma status_put_user [simp]:
  "status_of (put_user i u d) j = (if j = i then Some (u_status u) else status_of d j)"
  by (simp add: status_of_def)

lemma status_set_status [simp]:
  "status_of (set_status i s d) j = (if j = i \<and> status_of d i \<noteq> None then Some s else status_of d j)"
  by (auto simp: set_status_def status_of_def split: option.splits)

lemma status_bump_user [simp]: "status_of (bump_user i r now d) j = status_of d j"
  by (auto simp: status_of_def bump_user_def bump_authz_version_def revoke_all_user_sessions_def Let_def
      split: option.splits)

lemma status_core: "core d' = core d \<Longrightarrow> status_of d' = status_of d"
  by (simp add: status_of_def fun_eq_iff)

lemma status_record_admin [simp]: "status_of (record_admin a b c d) = status_of d"
  by (rule status_core) simp

lemma permission_rows_simps [simp]:
  "permission_rows (grant_permissions rid ps d) = permission_rows d"
  "permission_rows (set_status uid s d) = permission_rows d"
  "permission_rows (bump_user uid r now d) = permission_rows d"
  "permission_rows (snd (assign_role_codes uid codes d)) = permission_rows d"
  "permission_rows (snd (issue_token dg st uid p i raw now d)) = permission_rows d"
  "permission_rows (snd (consume_token dg raw p now d)) = permission_rows d"
  by (simp_all add: grant_permissions_def set_status_def bump_user_def assign_role_codes_def
      issue_token_def consume_token_def Let_def split: option.splits sum.splits list.splits prod.splits)

text \<open>The tables of roles, grants and permissions of two states agree.\<close>

definition same_role_tables :: "identity_db \<Rightarrow> identity_db \<Rightarrow> bool" where
  "same_role_tables d d' \<longleftrightarrow> roles d' = roles d \<and> role_permissions d' = role_permissions d \<and>
     permission_rows d' = permission_rows d"

lemma assign_Pair:
  assumes "assign_role_codes uid codes d = (r, d')"
  shows "same_role_tables d d'" "core d' = core d"
    and "r = Inr c \<Longrightarrow> \<exists>rids. resolve_roles d (dedup (map (lower \<circ> strip) codes)) = Inr rids \<and>
      user_roles d' = filter (\<lambda>(u, _). u \<noteq> uid) (user_roles d) @ map (Pair uid) rids"
    and "r = Inl e \<Longrightarrow> d' = d"
  using assms assign_role_codes_simps[of uid codes d] permission_rows_simps(4)[of uid codes d]
  by (auto simp: same_role_tables_def assign_role_codes_def Let_def split: sum.splits)

lemma issue_Pair:
  assumes "issue_token dg st uid p i raw now d = (r, d')"
  shows "same_role_tables d d'" "core d' = core d" "user_roles d' = user_roles d"
  using assms token_ops_simps(1-4)[of dg st uid p i raw now d] permission_rows_simps(5)[of dg st uid p i raw now d]
  by (simp_all add: same_role_tables_def)

lemma consume_Pair:
  assumes "consume_token dg raw p now d = (r, d')"
  shows "same_role_tables d d'" "core d' = core d" "user_roles d' = user_roles d"
  using assms token_ops_simps(5-8)[of dg raw p now d] permission_rows_simps(6)[of dg raw p now d]
  by (simp_all add: same_role_tables_def)


lemma same_role_tables_refl [simp]: "same_role_tables d d"
  by (simp add: same_role_tables_def)

lemma same_role_tables_simps [simp]:
  "same_role_tables d (put_user i u d') \<longleftrightarrow> same_role_tables d d'"
  "same_role_tables d (record_admin a b c d') \<longleftrightarrow> same_role_tables d d'"
  "same_role_tables d (set_status i s d') \<longleftrightarrow> same_role_tables d d'"
  "same_role_tables d (bump_user i r now d') \<longleftrightarrow> same_role_tables d d'"
  by (simp_all add: same_role_tables_def)

lemma verify_email_effect:
  assumes "verify_email_with_token dg raw now later d = (r, d')"
  shows "same_role_tables d d'" "user_roles d' = user_roles d"
    and "status_of d' j = status_of d j \<or> status_of d j = Some PENDING_EMAIL \<and> status_of d' j = Some PENDING_APPROVAL"
proof -
  obtain r1 d1 where c: "consume_token dg raw EMAIL_VERIFICATION now d = (r1, d1)" by fastforce
  note k = consume_Pair[OF c]
  have st: "status_of d1 = status_of d" using k(2) by (rule status_core)
  show "same_role_tables d d'" "user_roles d' = user_roles d"
    using assms k by (auto simp: verify_email_with_token_def c split: sum.splits option.splits)
  show "status_of d' j = status_of d j \<or> status_of d j = Some PENDING_EMAIL \<and> status_of d' j = Some PENDING_APPROVAL"
    using assms by (auto simp: verify_email_with_token_def c st[symmetric] status_of_def split: sum.splits option.splits if_splits)
qed

lemma patch_effect:
  assumes "patch_user uid name actor d = (r, d')"
  shows "same_role_tables d d'" "user_roles d' = user_roles d" "status_of d' = status_of d"
  using assms by (auto simp: patch_user_def status_of_def fun_eq_iff split: option.splits)

lemma approve_effect:
  assumes "approve_user uid codes actor now d = (r, d')"
  shows "same_role_tables d d'"
    and "d' = d \<or> status_of d uid \<noteq> None \<and> status_of d' = (status_of d)(uid := Some ACTIVE) \<and>
      (\<exists>rids. resolve_roles d (dedup (map (lower \<circ> strip) codes)) = Inr rids \<and>
        user_roles d' = filter (\<lambda>(u, _). u \<noteq> uid) (user_roles d) @ map (Pair uid) rids)"
proof -
  obtain r1 d1 where a: "assign_role_codes uid codes d = (r1, d1)" by fastforce
  note k = assign_Pair[OF a]
  have st: "status_of d1 = status_of d" using k(2) by (rule status_core)
  show "same_role_tables d d'"
    using assms k(1) by (auto simp: approve_user_def a split: sum.splits option.splits if_splits)
  show "d' = d \<or> status_of d uid \<noteq> None \<and> status_of d' = (status_of d)(uid := Some ACTIVE) \<and>
      (\<exists>rids. resolve_roles d (dedup (map (lower \<circ> strip) codes)) = Inr rids \<and>
        user_roles d' = filter (\<lambda>(u, _). u \<noteq> uid) (user_roles d) @ map (Pair uid) rids)"
  proof (cases r1)
    case (Inl e)
    then show ?thesis using assms k(4) by (auto simp: approve_user_def a split: option.splits if_splits)
  next
    case (Inr c)
    have "d' = d \<or> status_of d uid \<noteq> None \<and> d' = record_admin ''user.approved'' actor (Some uid)
        (bump_user uid (OTHER_REASON ''approval'') now (set_status uid ACTIVE d1))"
      using assms by (auto simp: approve_user_def a Inr status_of_def split: option.splits if_splits)
    then show ?thesis
    proof
      assume *: "status_of d uid \<noteq> None \<and> d' = record_admin ''user.approved'' actor (Some uid)
        (bump_user uid (OTHER_REASON ''approval'') now (set_status uid ACTIVE d1))"
      then have "user_roles d' = user_roles d1" by simp
      moreover have "status_of d' = (status_of d)(uid := Some ACTIVE)" using * by (simp add: fun_eq_iff st)
      ultimately show ?thesis using k(3)[OF Inr] * by simp
    qed simp
  qed
qed

lemma assign_effect:
  assumes "assign_roles uid codes actor now d = (r, d')"
  shows "same_role_tables d d'" "status_of d' = status_of d"
    and "d' = d \<or> guard_can_lose_admin uid codes d \<and> status_of d uid \<noteq> None \<and> user_roles d' = user_roles d \<or>
      guard_can_lose_admin uid codes d \<and> status_of d uid \<noteq> None \<and>
      (\<exists>rids. resolve_roles d (dedup (map (lower \<circ> strip) codes)) = Inr rids \<and>
        user_roles d' = filter (\<lambda>(u, _). u \<noteq> uid) (user_roles d) @ map (Pair uid) rids)"
proof -
  obtain r1 d1 where a: "assign_role_codes uid codes d = (r1, d1)" by fastforce
  note k = assign_Pair[OF a]
  have st: "status_of d1 = status_of d" using k(2) by (rule status_core)
  show "same_role_tables d d'" "status_of d' = status_of d"
    using assms k(1) st by (auto simp: assign_roles_def a fun_eq_iff split: sum.splits option.splits if_splits)
  show "d' = d \<or> guard_can_lose_admin uid codes d \<and> status_of d uid \<noteq> None \<and> user_roles d' = user_roles d \<or>
      guard_can_lose_admin uid codes d \<and> status_of d uid \<noteq> None \<and>
      (\<exists>rids. resolve_roles d (dedup (map (lower \<circ> strip) codes)) = Inr rids \<and>
        user_roles d' = filter (\<lambda>(u, _). u \<noteq> uid) (user_roles d) @ map (Pair uid) rids)"
  proof (cases r1)
    case (Inl e)
    then show ?thesis using assms k(4) by (auto simp: assign_roles_def a split: option.splits if_splits)
  next
    case (Inr c)
    then show ?thesis using assms k(3)[OF Inr]
      by (auto simp: assign_roles_def a status_of_def split: option.splits if_splits)
  qed
qed

lemma disable_effect:
  assumes "disable_user uid actor now d = (r, d')"
  shows "same_role_tables d d'" "user_roles d' = user_roles d"
    and "d' = d \<or> guard_last_admin uid d \<and> status_of d' = (status_of d)(uid := Some DISABLED)"
  using assms by (auto simp: disable_user_def fun_eq_iff status_of_def[of d uid] split: option.splits if_splits)

lemma enable_effect:
  assumes "enable_user uid actor d = (r, d')"
  shows "same_role_tables d d'" "user_roles d' = user_roles d"
    and "\<exists>s. status_of d' = status_of d \<or> status_of d' = (status_of d)(uid := Some s)"
  using assms by (auto simp: enable_user_def fun_eq_iff status_of_def[of d uid] split: option.splits if_splits)

lemma admin_reset_effect:
  assumes "admin_send_password_reset dg st uid actor i raw now d = (r, d')"
  shows "same_role_tables d d'" "user_roles d' = user_roles d"
    and "status_of d' = status_of d \<or> status_of d' = (status_of d)(uid := Some PASSWORD_RESET_REQUIRED)"
proof -
  obtain r1 d1 where a: "issue_token dg st uid PASSWORD_RESET i raw now d = (r1, d1)" by fastforce
  note k = issue_Pair[OF a]
  have st: "status_of d1 = status_of d" using k(2) by (rule status_core)
  show "same_role_tables d d'" "user_roles d' = user_roles d"
    using assms k by (auto simp: admin_send_password_reset_def a split: sum.splits option.splits)
  have "status_of d1 uid \<noteq> None" if "dict_get (db_users d) uid \<noteq> None"
    using that by (simp add: st status_of_def)
  then show "status_of d' = status_of d \<or> status_of d' = (status_of d)(uid := Some PASSWORD_RESET_REQUIRED)"
    using assms st by (auto simp: admin_send_password_reset_def a fun_eq_iff split: sum.splits option.splits)
qed

section \<open>What an operation does to the role tables\<close>

lemma permission_ids_for_known:
  "permission_ids_for codes d = Inr pids \<Longrightarrow> set pids \<subseteq> fst ` set (permission_rows d)"
  by (auto simp: permission_ids_for_def Let_def split: if_splits list.splits)

definition same_users :: "identity_db \<Rightarrow> identity_db \<Rightarrow> bool" where
  "same_users d d' \<longleftrightarrow> core d' = core d \<and> user_roles d' = user_roles d \<and> permission_rows d' = permission_rows d"

definition role_added :: "string \<Rightarrow> identity_db \<Rightarrow> identity_db \<Rightarrow> bool" where
  "role_added rid d d' \<longleftrightarrow> same_users d d' \<and> dict_get (roles d) rid = None \<and>
     (\<exists>r pids. roles d' = roles d @ [(rid, r)] \<and> role_by_code (role_code r) d = None \<and>
        \<not> is_system_role_code (role_code r) \<and> \<not> role_is_system r \<and>
        set pids \<subseteq> fst ` set (permission_rows d) \<and> role_permissions d' = role_permissions d @ map (Pair rid) pids)"

definition role_regranted :: "string \<Rightarrow> identity_db \<Rightarrow> identity_db \<Rightarrow> bool" where
  "role_regranted rid d d' \<longleftrightarrow> same_users d d' \<and> roles d' = roles d \<and>
     (\<exists>r pids. dict_get (roles d) rid = Some r \<and> \<not> role_is_system r \<and> set pids \<subseteq> fst ` set (permission_rows d) \<and>
        role_permissions d' = filter (\<lambda>(i, _). i \<noteq> rid) (role_permissions d) @ map (Pair rid) pids)"

definition role_renamed :: "string \<Rightarrow> identity_db \<Rightarrow> identity_db \<Rightarrow> bool" where
  "role_renamed rid d d' \<longleftrightarrow> same_users d d' \<and> role_permissions d' = role_permissions d \<and>
     (\<exists>r r'. dict_get (roles d) rid = Some r \<and> roles d' = dict_set rid r' (roles d) \<and>
        role_code r' = role_code r \<and> role_is_system r' = role_is_system r)"

definition role_removed :: "string \<Rightarrow> identity_db \<Rightarrow> identity_db \<Rightarrow> bool" where
  "role_removed rid d d' \<longleftrightarrow> core d' = core d \<and> permission_rows d' = permission_rows d \<and>
     (\<exists>r. dict_get (roles d) rid = Some r \<and> \<not> role_is_system r) \<and>
     roles d' = filter (\<lambda>(i, _). i \<noteq> rid) (roles d) \<and>
     role_permissions d' = filter (\<lambda>(i, _). i \<noteq> rid) (role_permissions d) \<and>
     user_roles d' = filter (\<lambda>(_, i). i \<noteq> rid) (user_roles d)"

lemma role_added_intro:
  assumes "dict_get (roles d) rid = None" "\<forall>i r. role_by_code code d \<noteq> Some (i, r)" "\<not> is_system_role_code code"
    "permission_ids_for codes d = Inr pids"
  shows "role_added rid d (record_admin a actor t (grant_permissions rid pids
    (d\<lparr>roles := dict_set rid \<lparr>role_code = code, role_name = n, role_description = desc,
      role_is_system = False\<rparr> (roles d)\<rparr>)))"
proof -
  have none: "role_by_code code d = None" using assms(2) by (cases "role_by_code code d") auto
  show ?thesis
  unfolding role_added_def same_users_def
  using assms permission_ids_for_known[OF assms(4)]
  by (intro conjI exI[of _ "\<lparr>role_code = code, role_name = n, role_description = desc, role_is_system = False\<rparr>"]
      exI[of _ pids]) (simp_all add: dict_set_fresh none)
qed

lemma create_effect:
  "create_role rid code name desc perms actor d = (r, d') \<Longrightarrow> d' = d \<or> role_added rid d d'"
  by (auto simp: create_role_def Let_def intro: role_added_intro split: if_splits sum.splits)

lemma copy_effect:
  "copy_role src rid code name2 actor d = (r, d') \<Longrightarrow> d' = d \<or> role_added rid d d'"
  by (auto simp: copy_role_def split: option.splits dest: create_effect)

lemma role_regranted_intro:
  assumes "dict_get (roles d) rid = Some r" "\<not> role_is_system r" "permission_ids_for codes d = Inr pids"
  shows "role_regranted rid d (record_admin a actor t (grant_permissions rid pids
    (d\<lparr>role_permissions := filter (\<lambda>(i, _). i \<noteq> rid) (role_permissions d)\<rparr>)))"
  unfolding role_regranted_def same_users_def
  using assms permission_ids_for_known[OF assms(3)]
  by (intro conjI exI[of _ r] exI[of _ pids]) simp_all

lemma set_permissions_effect:
  "set_role_permissions rid perms actor d = (r, d') \<Longrightarrow> d' = d \<or> role_regranted rid d d'"
  by (auto simp: set_role_permissions_def Let_def intro: role_regranted_intro
      split: if_splits option.splits sum.splits)

lemma update_effect:
  "update_role rid name2 desc actor d = (r, d') \<Longrightarrow> d' = d \<or> role_renamed rid d d'"
  by (cases name2; cases desc)
    (auto simp: update_role_def role_renamed_def same_users_def Let_def split: option.splits)

lemma delete_effect:
  "delete_role rid actor d = (r, d') \<Longrightarrow> d' = d \<or> role_removed rid d d'"
  by (auto simp: delete_role_def role_removed_def split: option.splits if_splits)

text \<open>One case distinction for every invariant below.\<close>


lemma id_step_cases:
  obtains (users) "same_role_tables d (id_step dg st d e)" "user_roles (id_step dg st d e) = user_roles d"
      "\<And>j. status_of d j \<noteq> None \<Longrightarrow> status_of (id_step dg st d e) j \<noteq> None"
    | (assigned) uid codes rids where "same_role_tables d (id_step dg st d e)" "status_of d uid \<noteq> None"
      "\<And>j. status_of d j \<noteq> None \<Longrightarrow> status_of (id_step dg st d e) j \<noteq> None"
      "resolve_roles d codes = Inr rids"
      "user_roles (id_step dg st d e) = filter (\<lambda>(u, _). u \<noteq> uid) (user_roles d) @ map (Pair uid) rids"
    | (added) rid where "role_added rid d (id_step dg st d e)"
    | (renamed) rid where "role_renamed rid d (id_step dg st d e)"
    | (regranted) rid where "role_regranted rid d (id_step dg st d e)"
    | (removed) rid where "role_removed rid d (id_step dg st d e)"
proof -
  have same: thesis if "id_step dg st d e = d" using that by (intro users) simp_all
  show ?thesis
  proof (cases e)
    case (IssueToken uid p i raw now)
    obtain r d' where c: "issue_token dg st uid p i raw now d = (r, d')" by fastforce
    from issue_Pair[OF c] status_core[of d' d] c show ?thesis by (intro users) (simp_all add: IssueToken)
  next
    case (ConsumeToken raw p now)
    obtain r d' where c: "consume_token dg raw p now d = (r, d')" by fastforce
    from consume_Pair[OF c] status_core[of d' d] c show ?thesis by (intro users) (simp_all add: ConsumeToken)
  next
    case (VerifyEmail raw now later)
    obtain r d' where c: "verify_email_with_token dg raw now later d = (r, d')" by fastforce
    from verify_email_effect[OF c] c show ?thesis by (intro users) (simp_all add: VerifyEmail, metis option.distinct(1))
  next
    case (CreateRole rid code name desc perms actor)
    obtain r d' where c: "create_role rid code name desc perms actor d = (r, d')" by fastforce
    from create_effect[OF c] c show ?thesis using same added by (auto simp: CreateRole)
  next
    case (UpdateRole rid name desc actor)
    obtain r d' where c: "update_role rid name desc actor d = (r, d')" by fastforce
    from update_effect[OF c] c show ?thesis using same renamed by (auto simp: UpdateRole)
  next
    case (SetRolePermissions rid perms actor)
    obtain r d' where c: "set_role_permissions rid perms actor d = (r, d')" by fastforce
    from set_permissions_effect[OF c] c show ?thesis using same regranted by (auto simp: SetRolePermissions)
  next
    case (DeleteRole rid actor)
    obtain r d' where c: "delete_role rid actor d = (r, d')" by fastforce
    from delete_effect[OF c] c show ?thesis using same removed by (auto simp: DeleteRole)
  next
    case (CopyRole src rid code name actor)
    obtain r d' where c: "copy_role src rid code name actor d = (r, d')" by fastforce
    from copy_effect[OF c] c show ?thesis using same added by (auto simp: CopyRole)
  next
    case (PatchUser uid name actor)
    obtain r d' where c: "patch_user uid name actor d = (r, d')" by fastforce
    from patch_effect[OF c] c show ?thesis by (intro users) (simp_all add: PatchUser)
  next
    case (ApproveUser uid codes actor now)
    obtain r d' where c: "approve_user uid codes actor now d = (r, d')" by fastforce
    from c have e: "id_step dg st d e = d'" by (simp add: ApproveUser)
    from approve_effect(2)[OF c] show ?thesis
    proof (elim disjE conjE exE)
      fix rids
      assume "status_of d uid \<noteq> None" "status_of d' = (status_of d)(uid := Some ACTIVE)"
        "resolve_roles d (dedup (map (lower \<circ> strip) codes)) = Inr rids"
        "user_roles d' = filter (\<lambda>(u, _). u \<noteq> uid) (user_roles d) @ map (Pair uid) rids"
      then show ?thesis using approve_effect(1)[OF c] by (intro assigned[of uid _ rids]) (simp_all add: e)
    qed (simp add: same e)
  next
    case (AssignRoles uid codes actor now)
    obtain r d' where c: "assign_roles uid codes actor now d = (r, d')" by fastforce
    from c have e: "id_step dg st d e = d'" by (simp add: AssignRoles)
    from assign_effect(3)[OF c] show ?thesis
    proof (elim disjE conjE exE)
      assume "user_roles d' = user_roles d"
      then show ?thesis using assign_effect(1,2)[OF c] by (intro users) (simp_all add: e)
    next
      fix rids
      assume "status_of d uid \<noteq> None" "resolve_roles d (dedup (map (lower \<circ> strip) codes)) = Inr rids"
        "user_roles d' = filter (\<lambda>(u, _). u \<noteq> uid) (user_roles d) @ map (Pair uid) rids"
      then show ?thesis using assign_effect(1,2)[OF c] by (intro assigned[of uid _ rids]) (simp_all add: e)
    qed (simp add: same e)
  next
    case (DisableUser uid actor now)
    obtain r d' where c: "disable_user uid actor now d = (r, d')" by fastforce
    from disable_effect[OF c] c show ?thesis by (intro users) (auto simp: DisableUser)
  next
    case (EnableUser uid actor)
    obtain r d' where c: "enable_user uid actor d = (r, d')" by fastforce
    from enable_effect[OF c] c show ?thesis by (intro users) (auto simp: EnableUser)
  next
    case (AdminReset uid actor i raw now)
    obtain r d' where c: "admin_send_password_reset dg st uid actor i raw now d = (r, d')" by fastforce
    from admin_reset_effect[OF c] c show ?thesis by (intro users) (auto simp: AdminReset)
  qed
qed

section \<open>Properties\<close>

text \<open>A state whose tables obey the schema: keys and role codes are unique, and every key of a grant or
  an assignment is the key of a row.\<close>

definition identity_typed :: "identity_db \<Rightarrow> bool" where
  "identity_typed d \<longleftrightarrow> dict_ok (roles d) \<and> distinct (map (\<lambda>(i, r). role_code r) (roles d)) \<and>
     (\<forall>(r, p) \<in> set (role_permissions d). dict_get (roles d) r \<noteq> None \<and> p \<in> fst ` set (permission_rows d)) \<and>
     (\<forall>(u, r) \<in> set (user_roles d). status_of d u \<noteq> None \<and> dict_get (roles d) r \<noteq> None)"

lemma role_by_code_Some:
  assumes "role_by_code c d = Some (i, r)"
  shows "(i, r) \<in> set (roles d)" "role_code r = c" "dict_get (roles d) i \<noteq> None"
proof -
  obtain n where n: "n < length (roles d)" "roles d ! n = (i, r)" "role_code r = c"
    using assms by (fastforce simp: role_by_code_def find_Some_iff)
  then show "(i, r) \<in> set (roles d)" "role_code r = c" by (metis nth_mem)+
  then show "dict_get (roles d) i \<noteq> None" by (metis fst_conv image_eqI map_of_eq_None_iff)
qed

lemma resolve_roles_Cons:
  "resolve_roles d (c # cs) = Inr rids \<longleftrightarrow>
    (if c = [] then resolve_roles d cs = Inr rids
     else (\<exists>i r rs. role_by_code c d = Some (i, r) \<and> resolve_roles d cs = Inr rs \<and> rids = i # rs))"
  by (auto simp: res_bind_Inr split: option.splits)

lemma resolve_roles_known:
  "resolve_roles d codes = Inr rids \<Longrightarrow> r \<in> set rids \<Longrightarrow> dict_get (roles d) r \<noteq> None"
proof (induction codes arbitrary: rids)
  case (Cons c cs)
  show ?case
  proof (cases "c = []")
    case False
    then obtain i x rs where "role_by_code c d = Some (i, x)" "resolve_roles d cs = Inr rs" "rids = i # rs"
      using Cons.prems(1) by (auto simp: resolve_roles_Cons simp del: resolve_roles.simps)
    then show ?thesis using Cons role_by_code_Some(3)[of c d i x] by auto
  qed (use Cons in simp)
qed simp

lemma distinct_codes_set:
  assumes "dict_get d k = Some r" "role_code r' = role_code r"
  shows "map (\<lambda>(i, r). role_code r) (dict_set k r' d) = map (\<lambda>(i, r). role_code r) d"
  using assms by (induction d) (auto split: if_splits)

lemma typed_step:
  assumes "identity_typed d"
  shows "identity_typed (id_step dg st d e)"
proof (cases rule: id_step_cases[of d dg st e])
  case users
  then show ?thesis using assms unfolding identity_typed_def same_role_tables_def by fastforce
next
  case (assigned uid codes rids)
  then show ?thesis using assms resolve_roles_known[OF assigned(4)]
    unfolding identity_typed_def same_role_tables_def by fastforce
next
  case (added rid)
  then obtain r pids where r: "core (id_step dg st d e) = core d" "user_roles (id_step dg st d e) = user_roles d"
    "permission_rows (id_step dg st d e) = permission_rows d" "dict_get (roles d) rid = None"
    "roles (id_step dg st d e) = roles d @ [(rid, r)]" "role_by_code (role_code r) d = None"
    "set pids \<subseteq> fst ` set (permission_rows d)"
    "role_permissions (id_step dg st d e) = role_permissions d @ map (Pair rid) pids"
    unfolding role_added_def same_users_def by blast
  have fresh: "role_code r \<notin> (\<lambda>(i, r). role_code r) ` set (roles d)"
    using r(6) by (fastforce simp: role_by_code_def find_None_iff)
  have get: "dict_get (roles (id_step dg st d e)) k \<noteq> None" if "dict_get (roles d) k \<noteq> None \<or> k = rid" for k
    using that r(4) by (auto simp: r(5) map_add_Some_iff)
  have ok: "dict_ok (roles (id_step dg st d e))"
    using assms r(4) by (auto simp: identity_typed_def r(5) dict_ok_def map_of_eq_None_iff)
  have dist: "distinct (map (\<lambda>(i, r). role_code r) (roles (id_step dg st d e)))"
    using assms fresh by (simp add: identity_typed_def r(5))
  have grants: "\<forall>(a, p) \<in> set (role_permissions (id_step dg st d e)).
      dict_get (roles (id_step dg st d e)) a \<noteq> None \<and> p \<in> fst ` set (permission_rows (id_step dg st d e))"
    using assms r(7) get by (fastforce simp: identity_typed_def r(8) r(3))
  have "\<forall>(u, a) \<in> set (user_roles (id_step dg st d e)).
      status_of (id_step dg st d e) u \<noteq> None \<and> dict_get (roles (id_step dg st d e)) a \<noteq> None"
    using assms get status_core[OF r(1)] by (fastforce simp: identity_typed_def r(2))
  with ok dist grants show ?thesis unfolding identity_typed_def by blast
next
  case (renamed rid)
  then obtain r r' where r: "core (id_step dg st d e) = core d" "user_roles (id_step dg st d e) = user_roles d"
    "permission_rows (id_step dg st d e) = permission_rows d" "role_permissions (id_step dg st d e) = role_permissions d"
    "dict_get (roles d) rid = Some r" "roles (id_step dg st d e) = dict_set rid r' (roles d)" "role_code r' = role_code r"
    unfolding role_renamed_def same_users_def by blast
  show ?thesis using assms distinct_codes_set[OF r(5,7)] status_core[OF r(1)]
    unfolding identity_typed_def r by fastforce
next
  case (regranted rid)
  then show ?thesis using assms status_core[of "id_step dg st d e" d]
    unfolding identity_typed_def role_regranted_def same_users_def by fastforce
next
  case (removed rid)
  have r: "core (id_step dg st d e) = core d" "permission_rows (id_step dg st d e) = permission_rows d"
    "roles (id_step dg st d e) = filter (\<lambda>(i, _). i \<noteq> rid) (roles d)"
    "role_permissions (id_step dg st d e) = filter (\<lambda>(i, _). i \<noteq> rid) (role_permissions d)"
    "user_roles (id_step dg st d e) = filter (\<lambda>(_, i). i \<noteq> rid) (user_roles d)"
    using removed unfolding role_removed_def by blast+
  show ?thesis using assms status_core[OF r(1)] dict_ok_filter[of "roles d" "\<lambda>(i, _). i \<noteq> rid"]
    unfolding identity_typed_def r dict_get_filter by (fastforce simp: distinct_map_filter)
qed

interpretation ids: machine "id_step dg st" identity_typed "\<lambda>_. True" for dg st
  by unfold_locales (rule typed_step)


definition demo_tokens :: token_settings where
  "demo_tokens = \<lparr>email_verify_ttl = 100, password_reset_ttl = 50\<rparr>"

definition demo_admin_events :: "id_event list" where
  "demo_admin_events = [CreateRole ''r1'' '' Auditor '' ''Auditor'' None [''iam.audit.read''] None,
     AssignRoles ''root'' [''admin'', ''auditor''] None 1, DeleteRole ''r1'' None]"


text \<open>A built-in role is frozen: its code, its flag and its grants.\<close>

definition frozen :: "string \<Rightarrow> string \<Rightarrow> (string \<times> string) list \<Rightarrow> identity_db \<Rightarrow> bool" where
  "frozen rid code grants d \<longleftrightarrow>
     (\<exists>r. dict_get (roles d) rid = Some r \<and> role_is_system r \<and> role_code r = code) \<and>
     filter (\<lambda>(i, _). i = rid) (role_permissions d) = grants"

lemma filter_Pair: "filter (\<lambda>(i, _). i = a) (map (Pair b) xs) = (if a = b then map (Pair b) xs else [])"
  by (induction xs) auto

lemma filter_other: "a \<noteq> b \<Longrightarrow> filter (\<lambda>(i, _). i = a) (filter (\<lambda>(i, _). i \<noteq> b) xs) = filter (\<lambda>(i, _). i = a) xs"
  by (induction xs) auto

lemma frozen_step:
  assumes "frozen rid code grants d"
  shows "frozen rid code grants (id_step dg st d e)"
proof -
  let ?d = "id_step dg st d e"
  obtain r where r: "dict_get (roles d) rid = Some r" "role_is_system r" "role_code r = code"
    "filter (\<lambda>(i, _). i = rid) (role_permissions d) = grants" using assms by (auto simp: frozen_def)
  show ?thesis
  proof (cases rule: id_step_cases[of d dg st e])
    case users
    then show ?thesis using assms unfolding frozen_def same_role_tables_def by simp
  next
    case (assigned uid codes rids)
    then show ?thesis using assms unfolding frozen_def same_role_tables_def by simp
  next
    case (added k)
    then obtain x pids where "roles ?d = roles d @ [(k, x)]" "k \<noteq> rid"
      "role_permissions ?d = role_permissions d @ map (Pair k) pids"
      using r(1) unfolding role_added_def by fastforce
    then show ?thesis using r by (auto simp: frozen_def filter_Pair map_add_def split: option.splits)
  next
    case (renamed k)
    then obtain x x' where "dict_get (roles d) k = Some x" "roles ?d = dict_set k x' (roles d)"
      "role_code x' = role_code x" "role_is_system x' = role_is_system x"
      "role_permissions ?d = role_permissions d"
      unfolding role_renamed_def by blast
    then show ?thesis using r by (auto simp: frozen_def)
  next
    case (regranted k)
    then obtain x pids where x: "roles ?d = roles d" "dict_get (roles d) k = Some x" "\<not> role_is_system x"
      "role_permissions ?d = filter (\<lambda>(i, _). i \<noteq> k) (role_permissions d) @ map (Pair k) pids"
      unfolding role_regranted_def by blast
    have "k \<noteq> rid" using x(2,3) r(1,2) by auto
    then show ?thesis using r filter_other[of rid k "role_permissions d"]
      by (simp add: frozen_def x(1,4) filter_Pair del: filter_filter)
  next
    case (removed k)
    then obtain x where x: "dict_get (roles d) k = Some x" "\<not> role_is_system x"
      "roles ?d = filter (\<lambda>(i, _). i \<noteq> k) (roles d)"
      "role_permissions ?d = filter (\<lambda>(i, _). i \<noteq> k) (role_permissions d)"
      unfolding role_removed_def by blast
    have "k \<noteq> rid" using x(1,2) r(1,2) by auto
    then show ?thesis using r filter_other[of rid k "role_permissions d"]
      by (simp add: frozen_def x(3,4) dict_get_filter del: filter_filter)
  qed
qed

interpretation frozen_role: machine "id_step dg st" "frozen rid code grants" "\<lambda>_. True" for dg st rid code grants
  by unfold_locales (rule frozen_step)

text \<open>Built-in roles are immutable: whatever administrative operations run, a role flagged as a
  system role stays in the table with its code and its flag, and the permissions it grants are
  exactly those it granted before.\<close>

lemma system_role_immutable:
  assumes "dict_get (roles d) rid = Some r" "role_is_system r"
  shows "\<exists>r'. dict_get (roles (run (id_step dg st) d es)) rid = Some r' \<and> role_is_system r' \<and>
      role_code r' = role_code r \<and>
      filter (\<lambda>(i, _). i = rid) (role_permissions (run (id_step dg st) d es)) =
        filter (\<lambda>(i, _). i = rid) (role_permissions d)"
proof -
  have "frozen rid (role_code r) (filter (\<lambda>(i, _). i = rid) (role_permissions d)) d"
    using assms by (simp add: frozen_def)
  from frozen_role.inv_run[OF this, of es dg st] show ?thesis by (auto simp: frozen_def list_all_iff)
qed

lemma system_role_immutable_witness:
  "filter (\<lambda>(i, _). i = ''admin'') (role_permissions (run (id_step (\<lambda>p r. r) demo_tokens) fresh_deployment
      (DeleteRole ''admin'' None # SetRolePermissions ''admin'' [] None # demo_admin_events))) =
    map (Pair ''admin'') ADMIN"
proof -
  have "map_option role_is_system (dict_get (roles fresh_deployment) ''admin'') = Some True"
    by code_simp
  then obtain r where r: "dict_get (roles fresh_deployment) ''admin'' = Some r" "role_is_system r" by blast
  have "filter (\<lambda>(i, _). i = ''admin'') (role_permissions fresh_deployment) = map (Pair ''admin'') ADMIN"
    by code_simp
  with system_role_immutable[OF r, of "\<lambda>p r. r" demo_tokens] show ?thesis by metis
qed

end
