(* ===== verification/Last_Admin.thy ===== *)
theory Last_Admin
  imports Identity_Safety
begin

text \<open>
  The last active administrator: \<open>assign_roles\<close> and \<open>disable_user\<close> are guarded, so no sequence of
  guarded operations leaves the deployment without one; \<open>approve_user\<close> is not.
\<close>

definition admin_present :: "identity_db \<Rightarrow> bool" where
  "admin_present d \<longleftrightarrow> (\<exists>rid r uid. role_by_code ADMIN_CODE d = Some (rid, r) \<and> role_is_system r \<and>
     (uid, rid) \<in> set (user_roles d) \<and> status_of d uid = Some ACTIVE)"

definition admin_safe :: "identity_db \<Rightarrow> bool" where
  "admin_safe d \<longleftrightarrow> identity_typed d \<and> admin_present d"

text \<open>The operations that change a status or an assignment without \<open>_guard_last_admin\<close>.\<close>

fun unguarded :: "id_event \<Rightarrow> bool" where
  "unguarded (ApproveUser _ _ _ _) \<longleftrightarrow> True"
| "unguarded (EnableUser _ _) \<longleftrightarrow> True"
| "unguarded (AdminReset _ _ _ _ _) \<longleftrightarrow> True"
| "unguarded _ \<longleftrightarrow> False"

lemma admin_presentI:
  "role_by_code ADMIN_CODE d = Some (rid, r) \<Longrightarrow> role_is_system r \<Longrightarrow> (uid, rid) \<in> set (user_roles d) \<Longrightarrow>
    status_of d uid = Some ACTIVE \<Longrightarrow> admin_present d"
  by (auto simp: admin_present_def)

lemma set_active_admins:
  "role_by_code ADMIN_CODE d = Some (rid, r) \<Longrightarrow>
    set (active_admins d) = {u. (u, rid) \<in> set (user_roles d) \<and> status_of d u = Some ACTIVE}"
  by (force simp: active_admins_def user_is_active_status)

lemma admin_present_count: "admin_present d \<Longrightarrow> 0 < count_active_admins d"
  using set_active_admins[of d] by (force simp: admin_present_def count_active_admins_def)

lemma user_role_codes_admin:
  assumes "role_by_code ADMIN_CODE d = Some (rid, r)" "identity_typed d"
    "(uid, rid) \<in> set (user_roles d)" "status_of d uid \<noteq> None"
  shows "ADMIN_CODE \<in> user_role_codes uid d"
proof -
  have "dict_get (roles d) rid = Some r"
    using assms(2) role_by_code_Some(1)[OF assms(1)] by (auto simp: identity_typed_def intro: dict_in_get)
  moreover have "rid \<in> set (roles_of_user uid d)"
    using assms calculation by (force simp: roles_of_user_def status_of_def)
  ultimately show ?thesis
    using role_by_code_Some(2)[OF assms(1)] by (force simp: user_role_codes_def map_filter_def)
qed

lemma another_admin:
  assumes "admin_safe d" "guard_last_admin uid d" "role_by_code ADMIN_CODE d = Some (rid, r)"
  obtains v where "v \<noteq> uid" "(v, rid) \<in> set (user_roles d)" "status_of d v = Some ACTIVE"
proof -
  obtain u where u: "(u, rid) \<in> set (user_roles d)" "status_of d u = Some ACTIVE"
    using assms(1,3) by (auto simp: admin_safe_def admin_present_def)
  show thesis
  proof (cases "u = uid")
    case True
    have "ADMIN_CODE \<in> user_role_codes uid d"
      using user_role_codes_admin[OF assms(3), of uid] u True assms(1) by (simp add: admin_safe_def)
    then have two: "1 < length (active_admins d)"
      using assms(2) u(2) True by (auto simp: guard_last_admin_def user_is_active_status count_active_admins_def)
    have dist: "distinct (active_admins d)" by (auto simp: active_admins_def split: option.splits)
    have "\<not> set (active_admins d) \<subseteq> {uid}"
    proof
      assume "set (active_admins d) \<subseteq> {uid}"
      then have "card (set (active_admins d)) \<le> 1" by (metis card_mono card.empty card_insert_disjoint
            One_nat_def empty_iff finite.emptyI finite.insertI)
      with two dist show False by (simp add: distinct_card)
    qed
    then show thesis using that set_active_admins[OF assms(3)] by auto
  qed (use u that in blast)
qed

lemma resolve_roles_in:
  "resolve_roles d cs = Inr rids \<Longrightarrow> c \<in> set cs \<Longrightarrow> c \<noteq> [] \<Longrightarrow> role_by_code c d = Some (i, r) \<Longrightarrow> i \<in> set rids"
proof (induction cs arbitrary: rids)
  case (Cons c' cs)
  then show ?case
    by (cases "c' = []") (auto simp: resolve_roles_Cons simp del: resolve_roles.simps)
qed simp

lemma admin_code_normal: "lower (strip ADMIN_CODE) = ADMIN_CODE" "ADMIN_CODE \<noteq> []"
  by code_simp+

lemma role_by_code_append:
  "roles d' = roles d @ xs \<Longrightarrow> role_by_code c d = Some ir \<Longrightarrow> role_by_code c d' = Some ir"
  by (simp add: role_by_code_def find_append)

lemma find_renamed:
  assumes "role_code r' = role_code r" "dict_get d k = Some r" "List.find (\<lambda>(i, r). role_code r = c) d = Some (i, x)"
  shows "\<exists>x'. List.find (\<lambda>(i, r). role_code r = c) (dict_set k r' d) = Some (i, x') \<and> (x' = x \<or> i = k \<and> x' = r' \<and> x = r)"
  using assms by (induction d) (auto split: if_splits)

text \<open>Assigning codes that contain the administrator's keeps one, whoever is reassigned.\<close>

lemma assigned_keeps:
  assumes "admin_safe d" "same_role_tables d d'" "status_of d' = status_of d"
    and "resolve_roles d (dedup (map (lower \<circ> strip) codes)) = Inr rids"
    and "user_roles d' = filter (\<lambda>(u, _). u \<noteq> uid) (user_roles d) @ map (Pair uid) rids"
    and "guard_can_lose_admin uid codes d"
  shows "admin_present d'"
proof -
  obtain rid r where adm: "role_by_code ADMIN_CODE d = Some (rid, r)" "role_is_system r"
    using assms(1) by (auto simp: admin_safe_def admin_present_def)
  have adm': "role_by_code ADMIN_CODE d' = Some (rid, r)"
    using adm(1) assms(2) by (simp add: role_by_code_def same_role_tables_def)
  show ?thesis
  proof (cases "ADMIN_CODE \<in> set codes")
    case True
    obtain u where u: "(u, rid) \<in> set (user_roles d)" "status_of d u = Some ACTIVE"
      using assms(1) adm by (auto simp: admin_safe_def admin_present_def)
    have "ADMIN_CODE \<in> set (dedup (map (lower \<circ> strip) codes))"
      using True admin_code_normal(1) by force
    then have "rid \<in> set rids" by (rule resolve_roles_in[OF assms(4) _ admin_code_normal(2) adm(1)])
    with u have "(u, rid) \<in> set (user_roles d')" by (cases "u = uid") (simp_all add: assms(5))
    then show ?thesis using u(2) assms(3) adm adm' by (intro admin_presentI) simp_all
  next
    case False
    then have "guard_last_admin uid d" using assms(6) by (simp add: guard_can_lose_admin_def)
    then obtain v where "v \<noteq> uid" "(v, rid) \<in> set (user_roles d)" "status_of d v = Some ACTIVE"
      using another_admin[OF assms(1) _ adm(1)] by blast
    then show ?thesis using assms(3,5) adm adm' by (intro admin_presentI[of d' rid r v]) simp_all
  qed
qed

lemma admin_present_same:
  assumes "admin_present d" "same_role_tables d d'" "user_roles d' = user_roles d"
    and "\<And>j. status_of d j = Some ACTIVE \<Longrightarrow> status_of d' j = Some ACTIVE"
  shows "admin_present d'"
  using assms unfolding admin_present_def role_by_code_def same_role_tables_def by metis

lemma admin_present_role_ops:
  assumes "admin_safe d"
  shows "role_added k d d' \<Longrightarrow> admin_present d'" "role_renamed k d d' \<Longrightarrow> admin_present d'"
    "role_regranted k d d' \<Longrightarrow> admin_present d'" "role_removed k d d' \<Longrightarrow> admin_present d'"
proof -
  obtain rid r u where a: "role_by_code ADMIN_CODE d = Some (rid, r)" "role_is_system r"
    "(u, rid) \<in> set (user_roles d)" "status_of d u = Some ACTIVE"
    using assms by (auto simp: admin_safe_def admin_present_def)
  have get: "dict_get (roles d) rid = Some r"
    using assms role_by_code_Some(1)[OF a(1)] by (auto simp: admin_safe_def identity_typed_def intro: dict_in_get)
  { assume "role_added k d d'"
    then obtain x where "core d' = core d" "user_roles d' = user_roles d" "roles d' = roles d @ [(k, x)]"
      unfolding role_added_def same_users_def by blast
    then show "admin_present d'"
      using a role_by_code_append[OF _ a(1)] status_core[of d' d] by (intro admin_presentI) simp_all }
  { assume "role_renamed k d d'"
    then obtain x x' where x: "core d' = core d" "user_roles d' = user_roles d" "dict_get (roles d) k = Some x"
      "roles d' = dict_set k x' (roles d)" "role_code x' = role_code x" "role_is_system x' = role_is_system x"
      unfolding role_renamed_def same_users_def by blast
    obtain y where "role_by_code ADMIN_CODE d' = Some (rid, y)" "role_is_system y"
      using find_renamed[OF x(5,3), of ADMIN_CODE rid r] a(1,2) x(6)
      by (auto simp: role_by_code_def x(4))
    then show "admin_present d'" using a x(1,2) status_core[of d' d] by (intro admin_presentI) simp_all }
  { assume "role_regranted k d d'"
    then show "admin_present d'"
      using a status_core[of d' d] unfolding role_regranted_def same_users_def
      by (intro admin_presentI[of d' rid r u]) (auto simp: role_by_code_def) }
  { assume "role_removed k d d'"
    then have x: "core d' = core d" "roles d' = filter (\<lambda>(i, _). i \<noteq> k) (roles d)"
      "user_roles d' = filter (\<lambda>(_, i). i \<noteq> k) (user_roles d)" "k \<noteq> rid"
      using get a(2) unfolding role_removed_def by auto
    have "role_by_code ADMIN_CODE d' = Some (rid, r)"
      using find_filter[of _ "roles d" "(rid, r)" "\<lambda>(i, _). i \<noteq> k"] a(1) x(4)
      by (simp add: role_by_code_def x(2))
    then show "admin_present d'" using a x(1,3,4) status_core[of d' d] by (intro admin_presentI) auto }
qed

lemma admin_step:
  assumes "admin_safe d" "\<not> unguarded e"
  shows "admin_present (id_step dg st d e)"
proof -
  have p: "admin_present d" using assms(1) by (simp add: admin_safe_def)
  show ?thesis
  proof (cases e)
    case (IssueToken uid p' i raw now)
    obtain r d' where c: "issue_token dg st uid p' i raw now d = (r, d')" by fastforce
    show ?thesis using admin_present_same[OF p issue_Pair(1,3)[OF c]] status_core[OF issue_Pair(2)[OF c]]
      by (simp add: IssueToken c)
  next
    case (ConsumeToken raw p' now)
    obtain r d' where c: "consume_token dg raw p' now d = (r, d')" by fastforce
    show ?thesis using admin_present_same[OF p consume_Pair(1,3)[OF c]] status_core[OF consume_Pair(2)[OF c]]
      by (simp add: ConsumeToken c)
  next
    case (VerifyEmail raw now later)
    obtain r d' where c: "verify_email_with_token dg raw now later d = (r, d')" by fastforce
    have "status_of d' j = Some ACTIVE" if "status_of d j = Some ACTIVE" for j
      using verify_email_effect(3)[OF c, of j] that by auto
    then show ?thesis using admin_present_same[OF p verify_email_effect(1,2)[OF c]] by (simp add: VerifyEmail c)
  next
    case (PatchUser uid name actor)
    obtain r d' where c: "patch_user uid name actor d = (r, d')" by fastforce
    show ?thesis using admin_present_same[OF p patch_effect(1,2)[OF c]] patch_effect(3)[OF c]
      by (simp add: PatchUser c)
  next
    case (AssignRoles uid codes actor now)
    obtain r d' where c: "assign_roles uid codes actor now d = (r, d')" by fastforce
    note eff = assign_effect[OF c]
    from eff(3) have "admin_present d'"
    proof (elim disjE conjE exE)
      assume "user_roles d' = user_roles d"
      then show ?thesis using admin_present_same[OF p eff(1)] eff(2) by simp
    next
      fix rids
      assume "guard_can_lose_admin uid codes d" "resolve_roles d (dedup (map (lower \<circ> strip) codes)) = Inr rids"
        "user_roles d' = filter (\<lambda>(u, _). u \<noteq> uid) (user_roles d) @ map (Pair uid) rids"
      then show ?thesis using assigned_keeps[OF assms(1) eff(1,2)] by blast
    qed (simp add: p)
    then show ?thesis by (simp add: AssignRoles c)
  next
    case (DisableUser uid actor now)
    obtain r d' where c: "disable_user uid actor now d = (r, d')" by fastforce
    note eff = disable_effect[OF c]
    obtain rid x where adm: "role_by_code ADMIN_CODE d = Some (rid, x)" "role_is_system x"
      using p by (auto simp: admin_present_def)
    have "admin_present d'"
    proof (cases "d' = d")
      case False
      then have g: "guard_last_admin uid d" "status_of d' = (status_of d)(uid := Some DISABLED)"
        using eff(3) by auto
      obtain v where "v \<noteq> uid" "(v, rid) \<in> set (user_roles d)" "status_of d v = Some ACTIVE"
        using another_admin[OF assms(1) g(1) adm(1)] by blast
      then show ?thesis using adm eff(1,2) g(2)
        by (intro admin_presentI[of d' rid x v]) (simp_all add: role_by_code_def same_role_tables_def)
    qed (simp add: p)
    then show ?thesis by (simp add: DisableUser c)
  next
    case (CreateRole rid code name desc perms actor)
    obtain r d' where c: "create_role rid code name desc perms actor d = (r, d')" by fastforce
    from create_effect[OF c] show ?thesis using admin_present_role_ops(1)[OF assms(1)] p by (auto simp: CreateRole c)
  next
    case (UpdateRole rid name desc actor)
    obtain r d' where c: "update_role rid name desc actor d = (r, d')" by fastforce
    from update_effect[OF c] show ?thesis using admin_present_role_ops(2)[OF assms(1)] p by (auto simp: UpdateRole c)
  next
    case (SetRolePermissions rid perms actor)
    obtain r d' where c: "set_role_permissions rid perms actor d = (r, d')" by fastforce
    from set_permissions_effect[OF c] show ?thesis
      using admin_present_role_ops(3)[OF assms(1)] p by (auto simp: SetRolePermissions c)
  next
    case (DeleteRole rid actor)
    obtain r d' where c: "delete_role rid actor d = (r, d')" by fastforce
    from delete_effect[OF c] show ?thesis using admin_present_role_ops(4)[OF assms(1)] p by (auto simp: DeleteRole c)
  next
    case (CopyRole src rid code name actor)
    obtain r d' where c: "copy_role src rid code name actor d = (r, d')" by fastforce
    from copy_effect[OF c] show ?thesis using admin_present_role_ops(1)[OF assms(1)] p by (auto simp: CopyRole c)
  qed (use assms(2) in simp_all)
qed

interpretation admins: machine "id_step dg st" admin_safe "\<lambda>e. \<not> unguarded e" for dg st
  by unfold_locales (simp add: admin_safe_def typed_step admin_step)

text \<open>C26. The last administrator is protected: from well-formed tables with an active holder of the
  built-in administrator role, no sequence of role changes, reassignments, disablings and token
  operations leaves the deployment without an active administrator.\<close>

theorem last_admin_protected:
  assumes "identity_typed d" "admin_present d" "\<forall>e \<in> set es. \<not> unguarded e"
  shows "0 < count_active_admins (run (id_step dg st) d es)"
proof -
  have "admin_safe (run (id_step dg st) d es)"
    by (rule admins.inv_run) (use assms in \<open>simp_all add: admin_safe_def list_all_iff\<close>)
  then show ?thesis by (intro admin_present_count) (simp add: admin_safe_def)
qed

lemma fresh_safe: "identity_typed fresh_deployment" "admin_present fresh_deployment"
proof -
  show "identity_typed fresh_deployment" by code_simp
  have "map_option fst (role_by_code ADMIN_CODE fresh_deployment) = Some ''admin''"
    "map_option (role_is_system \<circ> snd) (role_by_code ADMIN_CODE fresh_deployment) = Some True" by code_simp+
  then obtain r where "role_by_code ADMIN_CODE fresh_deployment = Some (''admin'', r)" "role_is_system r"
    by (auto simp: map_option_case split: option.splits)
  moreover have "(''root'', ''admin'') \<in> set (user_roles fresh_deployment)" "status_of fresh_deployment ''root'' = Some ACTIVE"
    by code_simp+
  ultimately show "admin_present fresh_deployment" by (rule admin_presentI)
qed

theorem last_admin_protected_witness:
  "fst (disable_user ''root'' None 5 fresh_deployment) = Inl LastAdminError \<and>
   0 < count_active_admins (run (id_step (\<lambda>p r. r) demo_tokens) fresh_deployment
     [DisableUser ''root'' None 5, AssignRoles ''root'' [''viewer''] None 6, DeleteRole ''admin'' None])"
proof -
  have "fst (disable_user ''root'' None 5 fresh_deployment) = Inl LastAdminError" by code_simp
  moreover have "0 < count_active_admins (run (id_step (\<lambda>p r. r) demo_tokens) fresh_deployment
      [DisableUser ''root'' None 5, AssignRoles ''root'' [''viewer''] None 6, DeleteRole ''admin'' None])"
    by (rule last_admin_protected) (simp_all add: fresh_safe)
  ultimately show ?thesis by blast
qed

text \<open>Approval bypasses the protection: approving the only active administrator of any deployment
  with a single resolvable role other than administrator succeeds, replaces the administrator's
  roles and leaves no active administrator at all.\<close>

lemma approve_removes_last_admin:
  assumes "role_by_code ADMIN_CODE d = Some (rid, r)" "active_admins d = [uid]"
    and "role_by_code code d = Some (k, q)" "k \<noteq> rid" "lower (strip code) = code" "code \<noteq> []" "code \<noteq> ADMIN_CODE"
  shows "fst (approve_user uid [code] actor now d) = Inr [code] \<and>
    count_active_admins (snd (approve_user uid [code] actor now d)) = 0"
proof -
  have uid: "(uid, rid) \<in> set (user_roles d)" "status_of d uid = Some ACTIVE"
    using set_active_admins[OF assms(1)] assms(2) by auto
  then obtain u where u: "dict_get (db_users d) uid = Some u" "u_status u = ACTIVE"
    by (auto simp: status_of_def)
  obtain x d' where c: "approve_user uid [code] actor now d = (x, d')" by fastforce
  have asg: "assign_role_codes uid [code] d = (Inr [code],
      d\<lparr>user_roles := filter (\<lambda>(u, _). u \<noteq> uid) (user_roles d) @ map (Pair uid) [k]\<rparr>)"
    using assms(3,5,6) by (simp add: assign_role_codes_def dedup_def)
  have res: "x = Inr [code]" using c u assms(7) by (simp add: approve_user_def asg)
  have ur: "user_roles d' = filter (\<lambda>(u, _). u \<noteq> uid) (user_roles d) @ [(uid, k)]"
    using c u assms(7) by (auto simp: approve_user_def asg)
  have st: "status_of d' = (status_of d)(uid := Some ACTIVE) \<or> d' = d" using approve_effect(2)[OF c] by auto
  have "role_by_code ADMIN_CODE d' = Some (rid, r)"
    using assms(1) approve_effect(1)[OF c] by (simp add: role_by_code_def same_role_tables_def)
  then have "set (active_admins d') = {v. (v, rid) \<in> set (user_roles d') \<and> status_of d' v = Some ACTIVE}"
    by (rule set_active_admins)
  also have "\<dots> \<subseteq> {v. v \<noteq> uid \<and> (v, rid) \<in> set (user_roles d) \<and> status_of d v = Some ACTIVE}"
    using assms(4) st by (auto simp: ur)
  also have "\<dots> = {}" using set_active_admins[OF assms(1)] assms(2) by auto
  finally show ?thesis using c res by (simp add: count_active_admins_def)
qed

lemma approve_removes_last_admin_witness:
  "count_active_admins fresh_deployment = 1 \<and>
   count_active_admins (snd (approve_user ''root'' [''researcher''] (Some ''root'') 9 fresh_deployment)) = 0"
proof -
  have "map_option fst (role_by_code ADMIN_CODE fresh_deployment) = Some ''admin''"
    "map_option fst (role_by_code ''researcher'' fresh_deployment) = Some ''researcher''" by code_simp+
  then obtain r q where "role_by_code ADMIN_CODE fresh_deployment = Some (''admin'', r)"
    "role_by_code ''researcher'' fresh_deployment = Some (''researcher'', q)" by fastforce
  moreover have "lower (strip ''researcher'') = ''researcher''" "''researcher'' \<noteq> ADMIN_CODE" by code_simp+
  ultimately have "count_active_admins (snd (approve_user ''root'' [''researcher''] (Some ''root'') 9 fresh_deployment)) = 0"
    using approve_removes_last_admin[OF _ fresh_deployment_admin] by simp
  then show ?thesis by (simp add: count_active_admins_def fresh_deployment_admin)
qed

end
