(* ===== verification/Auth.thy ===== *)
theory Auth
  imports Credentials
begin

text \<open>
  The authentication service (\<open>services/auth.py\<close> of \<open>src/security/rbac\<close>) with the commit discipline
  of its router (\<open>routers/auth.py\<close>): an \<open>AuthError\<close> commits what the service wrote before raising,
  any other exception rolls it back. A request brings its generated values (identifiers, salt, raw
  token) and its clock: \<open>clock i\<close> is the \<open>i\<close>-th reading. Mails handed to \<open>email.py\<close> are part of the result.
\<close>

record auth_env =
  ae_credentials :: credentials
  ae_crypto :: crypto
  ae_sessions :: iam_settings
  ae_digest :: "token_purpose \<Rightarrow> string \<Rightarrow> string"
  ae_tokens :: token_settings
  register_rate_limit :: int
  resend_rate_limit :: int
  login_rate_limit :: int
  reset_rate_limit :: int
  rate_limit_window :: seconds
  sha256_hex :: "string \<Rightarrow> string"

record fresh_values =
  fv_id :: string
  fv_salt :: string
  fv_raw :: string
  fv_jti :: string
  fv_clock :: "nat \<Rightarrow> seconds"

definition LOGIN_MAX_FAILURES :: int where "LOGIN_MAX_FAILURES = 5"
definition LOGIN_LOCK_MINUTES :: int where "LOGIN_LOCK_MINUTES = 15"
definition LOGIN_LOCK_WINDOW :: seconds where "LOGIN_LOCK_WINDOW = of_int (LOGIN_LOCK_MINUTES * 60)"
definition LOGIN_LOCK_BUCKET :: string where "LOGIN_LOCK_BUCKET = ''login-lock''"

text \<open>\<open>x or y\<close> on strings.\<close>

definition or_text :: "string option \<Rightarrow> string \<Rightarrow> string" where
  "or_text s t = (case s of None \<Rightarrow> t | Some x \<Rightarrow> if x = [] then t else x)"

definition consume_or_429 :: "string \<Rightarrow> string \<Rightarrow> int \<Rightarrow> seconds \<Rightarrow> seconds \<Rightarrow> identity_db \<Rightarrow> unit on_db" where
  "consume_or_429 bucket ident cap window now d =
     (case check_and_consume bucket ident cap window now d of
        (Inl _, d') \<Rightarrow> (Inl (AuthError ''rate_limited'' 429), d')
      | (Inr _, d') \<Rightarrow> (Inr (), d'))"

section \<open>Registration and verification\<close>

record register_outcome =
  issued_verification :: bool
  outcome_email :: string
  outcome_mail :: "(string \<times> string) option"

definition new_user :: "auth_env \<Rightarrow> string \<Rightarrow> string \<Rightarrow> string option \<Rightarrow> string \<Rightarrow> seconds \<Rightarrow> iam_user" where
  "new_user env normalized validated display_name salt now =
     \<lparr>u_status = PENDING_EMAIL, authz_version = 1, u_email = normalized, u_email_normalized = normalized,
      u_password_hash = Some (hash_password (ae_credentials env) salt validated),
      u_display_name = (let n = strip (or_text display_name []) in if n = [] then None else Some n),
      u_email_verified_at = None, u_failed_login_count = 0, u_locked_until = None, u_created_at = now\<rparr>"

text \<open>The savepoint: an insert that violates a constraint only undoes itself.\<close>

definition register ::
    "auth_env \<Rightarrow> string \<Rightarrow> string \<Rightarrow> string option \<Rightarrow> string \<Rightarrow> string \<Rightarrow> fresh_values \<Rightarrow> identity_db \<Rightarrow>
      register_outcome on_db" where
  "register env email password display_name ident token_id fv d =
     (case consume_or_429 ''register'' ident (register_rate_limit env) (rate_limit_window env) (fv_clock fv 0) d of
        (Inl e, d1) \<Rightarrow> (Inl e, d1)
      | (Inr _, d1) \<Rightarrow>
     (case validate_and_normalize (ae_credentials env) email of
        Inl e \<Rightarrow> (Inl (AuthError e 422), d1)
      | Inr normalized \<Rightarrow>
     (case validate_password (ae_credentials env) password of
        Inl e \<Rightarrow> (Inl (AuthError e 422), d1)
      | Inr validated \<Rightarrow>
          (let silent = \<lparr>issued_verification = False, outcome_email = normalized, outcome_mail = None\<rparr>
           in if user_by_email normalized d1 \<noteq> None \<or> dict_get (db_users d1) (fv_id fv) \<noteq> None
              then (Inr silent, d1)
              else (let d2 = put_user (fv_id fv)
                        (new_user env normalized validated display_name (fv_salt fv) (fv_clock fv 1)) d1
                    in case issue_token (ae_digest env) (ae_tokens env) (fv_id fv) EMAIL_VERIFICATION token_id
                         (fv_raw fv) (fv_clock fv 2) d2 of
                         (Inl e, _) \<Rightarrow> (Inl e, d)
                       | (Inr raw, d3) \<Rightarrow>
                           (Inr \<lparr>issued_verification = True, outcome_email = normalized,
                              outcome_mail = Some (normalized, raw)\<rparr>,
                            record_admin ''user.registered'' (Some (fv_id fv)) None d3))))))"

definition verify_email :: "auth_env \<Rightarrow> string \<Rightarrow> fresh_values \<Rightarrow> identity_db \<Rightarrow> string on_db" where
  "verify_email env raw fv d =
     (case verify_email_with_token (ae_digest env) raw (fv_clock fv 0) (fv_clock fv 1) d of
        (Inl TokenNotFound, d1) \<Rightarrow> (Inl (AuthError ''invalid_or_expired_token'' 400), d1)
      | (Inl e, _) \<Rightarrow> (Inl e, d)
      | (Inr uid, d1) \<Rightarrow> (Inr uid, record_admin ''user.email_verified'' (Some uid) None d1))"

text \<open>The two flows that mail a link and answer the same whatever the address.\<close>

definition mail_link ::
    "auth_env \<Rightarrow> string \<Rightarrow> int \<Rightarrow> token_purpose \<Rightarrow> (iam_user \<Rightarrow> bool) \<Rightarrow> string \<Rightarrow> string \<Rightarrow> string \<Rightarrow> fresh_values \<Rightarrow>
      identity_db \<Rightarrow> (string \<times> string) option on_db" where
  "mail_link env bucket cap purpose eligible email ident token_id fv d =
     (case consume_or_429 bucket ident cap (rate_limit_window env) (fv_clock fv 0) d of
        (Inl e, d1) \<Rightarrow> (Inl e, d1)
      | (Inr _, d1) \<Rightarrow>
     (case validate_and_normalize (ae_credentials env) email of
        Inl _ \<Rightarrow> (Inr None, d1)
      | Inr normalized \<Rightarrow>
     (case user_by_email normalized d1 of
        None \<Rightarrow> (Inr None, d1)
      | Some (uid, u) \<Rightarrow>
          if \<not> eligible u then (Inr None, d1)
          else (case issue_token (ae_digest env) (ae_tokens env) uid purpose token_id (fv_raw fv) (fv_clock fv 1) d1 of
                  (Inl e, _) \<Rightarrow> (Inl e, d)
                | (Inr raw, d2) \<Rightarrow> (Inr (Some (u_email u, raw)), d2)))))"

definition resend_verification ::
    "auth_env \<Rightarrow> string \<Rightarrow> string \<Rightarrow> string \<Rightarrow> fresh_values \<Rightarrow> identity_db \<Rightarrow> (string \<times> string) option on_db" where
  "resend_verification env = mail_link env ''resend'' (resend_rate_limit env) EMAIL_VERIFICATION
     (\<lambda>u. u_status u = PENDING_EMAIL)"

definition forgot_password ::
    "auth_env \<Rightarrow> string \<Rightarrow> string \<Rightarrow> string \<Rightarrow> fresh_values \<Rightarrow> identity_db \<Rightarrow> (string \<times> string) option on_db" where
  "forgot_password env = mail_link env ''reset'' (reset_rate_limit env) PASSWORD_RESET
     (\<lambda>u. u_status u \<noteq> PENDING_EMAIL)"

section \<open>Login\<close>

record login_request =
  lq_email :: string
  lq_password :: string
  lq_agent :: "string option"
  lq_ip :: "string option"

definition lock_identity :: "auth_env \<Rightarrow> string \<Rightarrow> string option \<Rightarrow> string" where
  "lock_identity env subject ip = sha256_hex env (subject @ ''|'' @ or_text ip ''unknown'')"

definition login_lock_count :: "auth_env \<Rightarrow> string \<Rightarrow> string option \<Rightarrow> seconds \<Rightarrow> identity_db \<Rightarrow> int" where
  "login_lock_count env subject ip now d =
     current_count LOGIN_LOCK_BUCKET (lock_identity env subject ip) (Some LOGIN_LOCK_WINDOW) now d"

definition record_login_failure :: "auth_env \<Rightarrow> string \<Rightarrow> string option \<Rightarrow> seconds \<Rightarrow> identity_db \<Rightarrow> identity_db" where
  "record_login_failure env subject ip now d =
     snd (check_and_consume LOGIN_LOCK_BUCKET (lock_identity env subject ip) LOGIN_MAX_FAILURES LOGIN_LOCK_WINDOW now d)"

definition login_lookup :: "auth_env \<Rightarrow> string \<Rightarrow> identity_db \<Rightarrow> string option \<times> (string \<times> iam_user) option" where
  "login_lookup env email d =
     (case validate_and_normalize (ae_credentials env) email of
        Inl _ \<Rightarrow> (None, None)
      | Inr n \<Rightarrow> (Some n, user_by_email n d))"

definition lock_subject :: "string \<Rightarrow> string option \<times> (string \<times> iam_user) option \<Rightarrow> string" where
  "lock_subject email found =
     (case snd found of
        Some (uid, _) \<Rightarrow> uid
      | None \<Rightarrow> ''email:'' @ or_text (fst found) (or_text (Some (lower (strip email))) ''unknown''))"

definition stored_hash :: "auth_env \<Rightarrow> iam_user \<Rightarrow> string" where
  "stored_hash env u = or_text (u_password_hash u) (dummy_hash (ae_credentials env))"

definition count_failure :: "string \<Rightarrow> iam_user \<Rightarrow> seconds \<Rightarrow> identity_db \<Rightarrow> identity_db" where
  "count_failure uid u now d =
     (let n = u_failed_login_count u + 1
      in if LOGIN_MAX_FAILURES \<le> n
         then record_admin ''login.locked'' (Some uid) None
           (put_user uid (u\<lparr>u_failed_login_count := 0, u_locked_until := Some (now + of_int (LOGIN_LOCK_MINUTES * 60))\<rparr>) d)
         else put_user uid (u\<lparr>u_failed_login_count := n\<rparr>) d)"

definition verified_user :: "auth_env \<Rightarrow> string \<Rightarrow> string \<Rightarrow> iam_user \<Rightarrow> iam_user" where
  "verified_user env password salt u =
     (let u1 = u\<lparr>u_failed_login_count := 0, u_locked_until := None\<rparr>
      in if needs_rehash (stored_hash env u)
         then u1\<lparr>u_password_hash := Some (hash_password (ae_credentials env) salt password)\<rparr> else u1)"

lemma verified_user_simps [simp]:
  "authz_version (verified_user env pw salt u) = authz_version u"
  "u_status (verified_user env pw salt u) = u_status u"
  "u_email_normalized (verified_user env pw salt u) = u_email_normalized u"
  by (simp_all add: verified_user_def Let_def)

text \<open>After the password verified; \<open>d0\<close> is the state to roll back to.\<close>

definition login_verified ::
    "auth_env \<Rightarrow> login_request \<Rightarrow> fresh_values \<Rightarrow> string \<Rightarrow> string \<Rightarrow> iam_user \<Rightarrow> identity_db \<Rightarrow> identity_db \<Rightarrow>
      token_pair on_db" where
  "login_verified env q fv subject uid u d0 d =
     (if u_status u = PENDING_EMAIL then (Inl (AuthError ''email_verification_required'' 403), d)
      else if u_status u = DISABLED then (Inl (AuthError ''account_disabled'' 403), d)
      else if u_status u = PASSWORD_RESET_REQUIRED then (Inl (AuthError ''password_reset_required'' 403), d)
      else (let u2 = verified_user env (lq_password q) (fv_salt fv) u;
                d1 = reset_limit LOGIN_LOCK_BUCKET (lock_identity env subject (lq_ip q)) (put_user uid u2 d)
            in case create_session (ae_crypto env) (ae_sessions env) uid u2 (lq_agent q) (lq_ip q) (fv_id fv)
                   (fv_jti fv) (fv_clock fv 3) (fv_clock fv 4) (core d1) of
                 (Inl e, _) \<Rightarrow> (Inl (SessionError e), d0)
               | (Inr pair, core') \<Rightarrow>
                   (Inr pair, record_admin ''login'' (Some uid) None (d1\<lparr>core := core'\<rparr>))))"

definition login ::
    "auth_env \<Rightarrow> login_request \<Rightarrow> fresh_values \<Rightarrow> identity_db \<Rightarrow> token_pair on_db" where
  "login env q fv d =
     (case consume_or_429 ''login'' (or_text (lq_ip q) (or_text (Some (lower (lq_email q))) ''anon''))
         (login_rate_limit env) (rate_limit_window env) (fv_clock fv 0) d of
        (Inl e, d1) \<Rightarrow> (Inl e, d1)
      | (Inr _, d1) \<Rightarrow>
          (let found = login_lookup env (lq_email q) d1; subject = lock_subject (lq_email q) found
           in if LOGIN_MAX_FAILURES \<le> login_lock_count env subject (lq_ip q) (fv_clock fv 1) d1
              then (Inl (AuthError ''account_locked'' 429), d1)
              else case snd found of
                None \<Rightarrow> (Inl (AuthError ''invalid_credentials'' 401),
                  record_login_failure env subject (lq_ip q) (fv_clock fv 2) d1)
              | Some (uid, u) \<Rightarrow>
                  if \<not> verify_password (ae_credentials env) (lq_password q) (stored_hash env u)
                  then (Inl (AuthError ''invalid_credentials'' 401),
                        count_failure uid u (fv_clock fv 3)
                          (record_login_failure env subject (lq_ip q) (fv_clock fv 2) d1))
                  else login_verified env q fv subject uid u d d1))"

section \<open>Refresh, logout and passwords\<close>

definition refresh ::
    "auth_env \<Rightarrow> string \<Rightarrow> fresh_values \<Rightarrow> identity_db \<Rightarrow> token_pair on_db" where
  "refresh env raw fv d =
     (case rotate (ae_crypto env) (ae_sessions env) None raw (fv_jti fv) (fv_clock fv 0) (fv_clock fv 1) (core d) of
        (Inr pair, c) \<Rightarrow> (Inr pair, d\<lparr>core := c\<rparr>)
      | (Inl RefreshInProgress, c) \<Rightarrow> (Inl (AuthError ''refresh_in_progress'' 409), d\<lparr>core := c\<rparr>)
      | (Inl (RefreshReuseDetected _), c) \<Rightarrow> (Inl (AuthError ''refresh_token_reuse'' 401), d\<lparr>core := c\<rparr>)
      | (Inl (InvalidRefreshToken e), c) \<Rightarrow> (Inl (AuthError (''invalid_refresh_token:'' @ e) 401), d\<lparr>core := c\<rparr>)
      | (Inl IntegrityError, _) \<Rightarrow> (Inl (SessionError IntegrityError), d))"

definition logout :: "string \<Rightarrow> string option \<Rightarrow> seconds \<Rightarrow> identity_db \<Rightarrow> bool \<times> identity_db" where
  "logout sid uid now d =
     (case revoke_session sid LOGOUT now (core d) of
        (False, c) \<Rightarrow> (False, d\<lparr>core := c\<rparr>)
      | (True, c) \<Rightarrow> (True, record_admin ''logout'' uid None (d\<lparr>core := c\<rparr>)))"

definition logout_all :: "string \<Rightarrow> string option \<Rightarrow> seconds \<Rightarrow> identity_db \<Rightarrow> nat \<times> identity_db" where
  "logout_all uid except now d =
     (case revoke_all_user_sessions uid LOGOUT_ALL except now (core d) of
        (n, c) \<Rightarrow> (n, record_admin ''logout_all'' (Some uid) None (d\<lparr>core := c\<rparr>)))"

text \<open>The router of \<open>change_password\<close> does not commit an \<open>AuthError\<close>; nothing was written then.\<close>

definition change_password ::
    "auth_env \<Rightarrow> string \<Rightarrow> string \<Rightarrow> string \<Rightarrow> fresh_values \<Rightarrow> identity_db \<Rightarrow> unit on_db" where
  "change_password env uid current new fv d =
     (case dict_get (db_users d) uid of
        None \<Rightarrow> (Inl (AuthError ''user_not_found'' 404), d)
      | Some u \<Rightarrow>
          (let h = or_text (u_password_hash u) []
           in if h = [] \<or> \<not> verify_password (ae_credentials env) current h
              then (Inl (AuthError ''invalid_credentials'' 401), d)
              else case validate_password (ae_credentials env) new of
                Inl e \<Rightarrow> (Inl (AuthError e 422), d)
              | Inr validated \<Rightarrow>
                  if verify_password (ae_credentials env) validated h
                  then (Inl (AuthError ''password_reused'' 422), d)
                  else (Inr (), record_admin ''user.password_changed'' (Some uid) None
                    (bump_user uid PASSWORD_CHANGE (fv_clock fv 0)
                      (put_user uid (u\<lparr>u_password_hash :=
                         Some (hash_password (ae_credentials env) (fv_salt fv) validated)\<rparr>) d)))))"

definition reset_password :: "auth_env \<Rightarrow> string \<Rightarrow> string \<Rightarrow> fresh_values \<Rightarrow> identity_db \<Rightarrow> string on_db" where
  "reset_password env raw new fv d =
     (case consume_token (ae_digest env) raw PASSWORD_RESET (fv_clock fv 0) d of
        (Inl TokenNotFound, d1) \<Rightarrow> (Inl (AuthError ''invalid_or_expired_token'' 400), d1)
      | (Inl e, _) \<Rightarrow> (Inl e, d)
      | (Inr (i, t), d1) \<Rightarrow>
     (case validate_password (ae_credentials env) new of
        Inl e \<Rightarrow> (Inl (AuthError e 422), d1)
      | Inr validated \<Rightarrow>
     (case dict_get (db_users d1) (et_user_id t) of
        None \<Rightarrow> (Inl (AuthError ''invalid_or_expired_token'' 400), d1)
      | Some u \<Rightarrow>
          (Inr (et_user_id t), record_admin ''user.password_reset'' (Some (et_user_id t)) None
            (bump_user (et_user_id t) PASSWORD_CHANGE (fv_clock fv 1)
              (put_user (et_user_id t)
                (u\<lparr>u_password_hash := Some (hash_password (ae_credentials env) (fv_salt fv) validated),
                   u_status := (if u_status u = PASSWORD_RESET_REQUIRED then ACTIVE else u_status u)\<rparr>) d1))))))"

end
