(* ===== verification/Auth_Safety.thy ===== *)
theory Auth_Safety
  imports Auth
begin

text \<open>
  What the login flow of \<open>Auth\<close> guarantees: who gets a session, what an attacker can learn from the
  replies, when a pair of account and address is locked, and what a password change ends.
\<close>

section \<open>Counters\<close>

text \<open>One counter: the row after a request, and whether the request passed.\<close>

definition consume_row :: "int \<Rightarrow> seconds \<Rightarrow> seconds \<Rightarrow> rate_row option \<Rightarrow> bool \<times> rate_row option" where
  "consume_row cap window now row =
     (if cap < 1 then (False, row)
      else case row of
        None \<Rightarrow> (True, Some \<lparr>rl_count = 1, rl_window_started_at = now\<rparr>)
      | Some r \<Rightarrow>
          if rl_window_started_at r \<le> now - window then (True, Some \<lparr>rl_count = 1, rl_window_started_at = now\<rparr>)
          else if rl_count r < cap then (True, Some (r\<lparr>rl_count := rl_count r + 1\<rparr>))
          else (False, Some r))"

lemma check_and_consume_row:
  assumes "check_and_consume b i cap w now d = (r, d')"
  shows "consume_row cap w now (dict_get (rate_limits d) (b, i)) = (\<not> isl r, dict_get (rate_limits d') (b, i))"
    and "k \<noteq> (b, i) \<Longrightarrow> dict_get (rate_limits d') k = dict_get (rate_limits d) k"
    and "core d' = core d" "roles d' = roles d" "email_tokens d' = email_tokens d"
  using assms
  by (auto simp: check_and_consume_def consume_row_def Let_def split: option.splits if_splits)

lemma consume_or_429_row:
  assumes "consume_or_429 b i cap w now d = (r, d')"
  shows "consume_row cap w now (dict_get (rate_limits d) (b, i)) = (\<not> isl r, dict_get (rate_limits d') (b, i))"
    and "k \<noteq> (b, i) \<Longrightarrow> dict_get (rate_limits d') k = dict_get (rate_limits d) k"
    and "core d' = core d" "roles d' = roles d" "email_tokens d' = email_tokens d"
    and "isl r \<Longrightarrow> r = Inl (AuthError ''rate_limited'' 429)"
proof -
  obtain r0 where "check_and_consume b i cap w now d = (r0, d')" "isl r = isl r0"
    "isl r \<longrightarrow> r = Inl (AuthError ''rate_limited'' 429)"
    using assms by (cases "check_and_consume b i cap w now d") (auto simp: consume_or_429_def split: sum.splits)
  note c = check_and_consume_row[OF this(1)] and this
  then show "consume_row cap w now (dict_get (rate_limits d) (b, i)) = (\<not> isl r, dict_get (rate_limits d') (b, i))"
    "k \<noteq> (b, i) \<Longrightarrow> dict_get (rate_limits d') k = dict_get (rate_limits d) k"
    "core d' = core d" "roles d' = roles d" "email_tokens d' = email_tokens d"
    "isl r \<Longrightarrow> r = Inl (AuthError ''rate_limited'' 429)" by auto
qed

lemma buckets_differ: "(''login'', i) \<noteq> (LOGIN_LOCK_BUCKET, j)" "(LOGIN_LOCK_BUCKET, j) \<noteq> (''login'', i)"
  by (simp_all add: LOGIN_LOCK_BUCKET_def)

definition lock_row :: "auth_env \<Rightarrow> string \<Rightarrow> string option \<Rightarrow> identity_db \<Rightarrow> rate_row option" where
  "lock_row env subject ip d = dict_get (rate_limits d) (LOGIN_LOCK_BUCKET, lock_identity env subject ip)"

definition lock_live :: "seconds \<Rightarrow> rate_row option \<Rightarrow> bool" where
  "lock_live now row \<longleftrightarrow> (case row of None \<Rightarrow> False
     | Some r \<Rightarrow> now - LOGIN_LOCK_WINDOW < rl_window_started_at r \<and> LOGIN_MAX_FAILURES \<le> rl_count r)"

lemma login_lock_count_row:
  "LOGIN_MAX_FAILURES \<le> login_lock_count env s ip now d \<longleftrightarrow> lock_live now (lock_row env s ip d)"
  by (auto simp: login_lock_count_def current_count_def lock_row_def lock_live_def LOGIN_MAX_FAILURES_def
      split: option.splits)

lemma record_login_failure_row:
  "lock_row env s ip (record_login_failure env s ip now d) =
    snd (consume_row LOGIN_MAX_FAILURES LOGIN_LOCK_WINDOW now (lock_row env s ip d))"
  "k \<noteq> (LOGIN_LOCK_BUCKET, lock_identity env s ip) \<Longrightarrow>
    dict_get (rate_limits (record_login_failure env s ip now d)) k = dict_get (rate_limits d) k"
  "core (record_login_failure env s ip now d) = core d"
proof -
  obtain r d' where c: "check_and_consume LOGIN_LOCK_BUCKET (lock_identity env s ip) LOGIN_MAX_FAILURES
      LOGIN_LOCK_WINDOW now d = (r, d')" by fastforce
  from check_and_consume_row[OF c] show
    "lock_row env s ip (record_login_failure env s ip now d) =
      snd (consume_row LOGIN_MAX_FAILURES LOGIN_LOCK_WINDOW now (lock_row env s ip d))"
    "k \<noteq> (LOGIN_LOCK_BUCKET, lock_identity env s ip) \<Longrightarrow>
      dict_get (rate_limits (record_login_failure env s ip now d)) k = dict_get (rate_limits d) k"
    "core (record_login_failure env s ip now d) = core d"
    by (simp_all add: record_login_failure_def lock_row_def c)
qed

lemma count_failure_row:
  "rate_limits (count_failure uid u now d) = rate_limits d"
  by (simp add: count_failure_def Let_def record_admin_def)

section \<open>Who is found\<close>

definition login_key :: "login_request \<Rightarrow> string \<times> string" where
  "login_key q = (''login'', or_text (lq_ip q) (or_text (Some (lower (lq_email q))) ''anon''))"

definition subject_of :: "auth_env \<Rightarrow> string \<Rightarrow> identity_db \<Rightarrow> string" where
  "subject_of env email d = lock_subject email (login_lookup env email d)"

lemma login_lookup_core: "core d' = core d \<Longrightarrow> login_lookup env email d' = login_lookup env email d"
  by (simp add: login_lookup_def user_by_email_def split: sum.splits)

lemma find_updated:
  assumes "List.find P d = Some (k, u)" "P (k, u')"
  shows "List.find P (dict_set k u' d) = Some (k, u')"
  using assms by (induction d) (auto split: if_splits)

text \<open>A failed password leaves the account findable by the same address, with the same hash.\<close>

lemma count_failure_lookup:
  assumes "login_lookup env email d = (Some n, Some (uid, u))"
  shows "\<exists>u'. login_lookup env email (count_failure uid u now d) = (Some n, Some (uid, u')) \<and>
    u_password_hash u' = u_password_hash u"
proof -
  let ?u = "if LOGIN_MAX_FAILURES \<le> u_failed_login_count u + 1
    then u\<lparr>u_failed_login_count := 0, u_locked_until := Some (now + of_int (LOGIN_LOCK_MINUTES * 60))\<rparr>
    else u\<lparr>u_failed_login_count := u_failed_login_count u + 1\<rparr>"
  have n: "validate_and_normalize (ae_credentials env) email = Inr n" "user_by_email n d = Some (uid, u)"
    using assms by (auto simp: login_lookup_def split: sum.splits)
  then have "u_email_normalized ?u = n" by (auto simp: user_by_email_def find_Some_iff)
  moreover have "db_users (count_failure uid u now d) = dict_set uid ?u (db_users d)"
    by (simp add: count_failure_def Let_def)
  ultimately have "user_by_email n (count_failure uid u now d) = Some (uid, ?u)"
    using n(2) find_updated[of _ "db_users d" uid u ?u] by (simp add: user_by_email_def)
  then show ?thesis using n(1) by (simp add: login_lookup_def)
qed

section \<open>Guessing\<close>

text \<open>A guess is wrong when no account is found or the account's hash rejects the password.\<close>

definition wrong_guess :: "auth_env \<Rightarrow> login_request \<Rightarrow> identity_db \<Rightarrow> bool" where
  "wrong_guess env q d \<longleftrightarrow>
     (case snd (login_lookup env (lq_email q) d) of
        None \<Rightarrow> True
      | Some (uid, u) \<Rightarrow> \<not> verify_password (ae_credentials env) (lq_password q) (stored_hash env u))"

text \<open>The reference: the reply to a wrong guess as a function of two counters and the clock.\<close>

definition guess ::
    "auth_env \<Rightarrow> fresh_values \<Rightarrow> rate_row option \<times> rate_row option \<Rightarrow>
      (identity_error + token_pair) \<times> rate_row option \<times> rate_row option" where
  "guess env fv = (\<lambda>(a, k).
     (case consume_row (login_rate_limit env) (rate_limit_window env) (fv_clock fv 0) a of
        (ok, a') \<Rightarrow>
          if \<not> ok then (Inl (AuthError ''rate_limited'' 429), a', k)
          else if lock_live (fv_clock fv 1) k then (Inl (AuthError ''account_locked'' 429), a', k)
          else (Inl (AuthError ''invalid_credentials'' 401), a',
                snd (consume_row LOGIN_MAX_FAILURES LOGIN_LOCK_WINDOW (fv_clock fv 2) k))))"

definition view :: "auth_env \<Rightarrow> login_request \<Rightarrow> identity_db \<Rightarrow> rate_row option \<times> rate_row option" where
  "view env q d = (dict_get (rate_limits d) (login_key q), lock_row env (subject_of env (lq_email q) d) (lq_ip q) d)"

definition same_account :: "auth_env \<Rightarrow> string \<Rightarrow> identity_db \<Rightarrow> identity_db \<Rightarrow> bool" where
  "same_account env email d d' \<longleftrightarrow>
     fst (login_lookup env email d') = fst (login_lookup env email d) \<and>
     map_option (\<lambda>(uid, u). (uid, u_password_hash u)) (snd (login_lookup env email d')) =
       map_option (\<lambda>(uid, u). (uid, u_password_hash u)) (snd (login_lookup env email d))"

lemma same_account_refl: "same_account env email d d"
  by (simp add: same_account_def)

lemma same_account_subject: "same_account env email d d' \<Longrightarrow> subject_of env email d' = subject_of env email d"
  by (auto simp: same_account_def subject_of_def lock_subject_def split: option.splits prod.splits)

lemma same_account_wrong:
  "same_account env (lq_email q) d d' \<Longrightarrow> wrong_guess env q d' = wrong_guess env q d"
  by (auto simp: same_account_def wrong_guess_def stored_hash_def split: option.splits prod.splits)

lemma login_passed:
  assumes "consume_or_429 ''login'' (or_text (lq_ip q) (or_text (Some (lower (lq_email q))) ''anon''))
      (login_rate_limit env) (rate_limit_window env) (fv_clock fv 0) d = (Inr x, d1)"
  shows "login env q fv d =
    (let s = subject_of env (lq_email q) d1 in
     if lock_live (fv_clock fv 1) (lock_row env s (lq_ip q) d1)
     then (Inl (AuthError ''account_locked'' 429), d1)
     else case snd (login_lookup env (lq_email q) d1) of
       None \<Rightarrow> (Inl (AuthError ''invalid_credentials'' 401),
         record_login_failure env s (lq_ip q) (fv_clock fv 2) d1)
     | Some (uid, u) \<Rightarrow>
         if \<not> verify_password (ae_credentials env) (lq_password q) (stored_hash env u)
         then (Inl (AuthError ''invalid_credentials'' 401),
               count_failure uid u (fv_clock fv 3) (record_login_failure env s (lq_ip q) (fv_clock fv 2) d1))
         else login_verified env q fv s uid u d d1)"
  by (simp add: login_def assms Let_def subject_of_def login_lock_count_row)

lemma guess_login:
  assumes "login env q fv d = (r, d')" "wrong_guess env q d"
  shows "guess env fv (view env q d) = (r, view env q d')" and "same_account env (lq_email q) d d'"
proof -
  let ?ip = "lq_ip q" and ?e = "lq_email q" and ?k = "ae_credentials env"
  obtain r1 d1 where c: "consume_or_429 ''login'' (or_text ?ip (or_text (Some (lower ?e)) ''anon''))
      (login_rate_limit env) (rate_limit_window env) (fv_clock fv 0) d = (r1, d1)" by fastforce
  note row = consume_or_429_row[OF c]
  have look: "login_lookup env ?e d1 = login_lookup env ?e d" by (rule login_lookup_core[OF row(3)])
  let ?s = "subject_of env ?e d"
  have s1: "subject_of env ?e d1 = ?s" by (simp add: subject_of_def look)
  have k1: "lock_row env ?s ?ip d1 = lock_row env ?s ?ip d"
    by (simp add: lock_row_def row(2)[OF buckets_differ(2)])
  have a1: "consume_row (login_rate_limit env) (rate_limit_window env) (fv_clock fv 0)
      (dict_get (rate_limits d) (login_key q)) = (\<not> isl r1, dict_get (rate_limits d1) (login_key q))"
    using row(1) by (simp add: login_key_def)
  have "guess env fv (view env q d) = (r, view env q d') \<and> same_account env ?e d d'"
  proof (cases r1)
    case (Inl e)
    then have "r = Inl (AuthError ''rate_limited'' 429)" "d' = d1"
      using assms(1) row(6) by (auto simp: login_def c)
    then show ?thesis using a1 k1 s1 Inl
      by (simp add: guess_def view_def same_account_def look)
  next
    case (Inr x)
    note lg = assms(1)[unfolded login_passed[OF c[unfolded Inr]] s1 look Let_def k1]
    show ?thesis
    proof (cases "lock_live (fv_clock fv 1) (lock_row env ?s ?ip d)")
      case True
      then have "r = Inl (AuthError ''account_locked'' 429)" "d' = d1"
        using lg by simp_all
      then show ?thesis using a1 k1 s1 Inr True by (simp add: guess_def view_def same_account_def look)
    next
      case False
      let ?f = "record_login_failure env ?s ?ip (fv_clock fv 2) d1"
      note rf = record_login_failure_row(1)[of env ?s ?ip "fv_clock fv 2" d1]
        record_login_failure_row(2)[of _ env ?s ?ip "fv_clock fv 2" d1]
        record_login_failure_row(3)[of env ?s ?ip "fv_clock fv 2" d1]
      have lf: "login_lookup env ?e ?f = login_lookup env ?e d" using login_lookup_core[OF rf(3)] look by simp
      have main: "r = Inl (AuthError ''invalid_credentials'' 401) \<and> rate_limits d' = rate_limits ?f \<and>
          same_account env ?e d d'"
      proof (cases "snd (login_lookup env ?e d)")
        case None
        then have "r = Inl (AuthError ''invalid_credentials'' 401)" "d' = ?f"
          using lg False by simp_all
        then show ?thesis by (simp add: same_account_def lf)
      next
        case (Some p)
        obtain uid u where p: "p = (uid, u)" by fastforce
        obtain n where n: "login_lookup env ?e d = (Some n, Some (uid, u))"
          using Some p by (auto simp: login_lookup_def split: sum.splits)
        have "\<not> verify_password ?k (lq_password q) (stored_hash env u)"
          using assms(2) Some p by (simp add: wrong_guess_def)
        then have out: "r = Inl (AuthError ''invalid_credentials'' 401)" "d' = count_failure uid u (fv_clock fv 3) ?f"
          using lg False Some p by simp_all
        show ?thesis
          using out count_failure_lookup[of env ?e ?f n uid u "fv_clock fv 3"] n
          by (auto simp: count_failure_row same_account_def lf)
      qed
      have "subject_of env ?e d' = ?s" using main same_account_subject by blast
      then show ?thesis using main a1 k1 Inr False rf(1)
        by (simp add: guess_def view_def lock_row_def login_key_def rf(2)[OF buckets_differ(1)])
    qed
  qed
  then show "guess env fv (view env q d) = (r, view env q d')" "same_account env ?e d d'" by blast+
qed

section \<open>Sequences of attempts\<close>

fun replies :: "auth_env \<Rightarrow> (login_request \<times> fresh_values) list \<Rightarrow> identity_db \<Rightarrow> (identity_error + token_pair) list" where
  "replies env [] d = []"
| "replies env ((q, fv) # qs) d = (case login env q fv d of (r, d') \<Rightarrow> r # replies env qs d')"

fun after_attempts :: "auth_env \<Rightarrow> (login_request \<times> fresh_values) list \<Rightarrow> identity_db \<Rightarrow> identity_db" where
  "after_attempts env [] d = d"
| "after_attempts env ((q, fv) # qs) d = after_attempts env qs (snd (login env q fv d))"

text \<open>Wrong guesses for one address from one client.\<close>

definition guesses_at :: "auth_env \<Rightarrow> string \<Rightarrow> string option \<Rightarrow> (login_request \<times> fresh_values) list \<Rightarrow> identity_db \<Rightarrow> bool" where
  "guesses_at env email ip qs d \<longleftrightarrow>
     list_all (\<lambda>(q, _). lq_email q = email \<and> lq_ip q = ip \<and> wrong_guess env q d) qs"

fun guess_replies ::
    "auth_env \<Rightarrow> (login_request \<times> fresh_values) list \<Rightarrow> rate_row option \<times> rate_row option \<Rightarrow>
      (identity_error + token_pair) list \<times> rate_row option \<times> rate_row option" where
  "guess_replies env [] v = ([], v)"
| "guess_replies env ((q, fv) # qs) v =
     (case guess env fv v of (r, v') \<Rightarrow> (case guess_replies env qs v' of (rs, v'') \<Rightarrow> (r # rs, v'')))"

lemma view_same_request:
  "lq_email q = lq_email q' \<Longrightarrow> lq_ip q = lq_ip q' \<Longrightarrow> view env q d = view env q' d"
  by (simp add: view_def login_key_def)

lemma guesses_at_same:
  "same_account env email d d' \<Longrightarrow> guesses_at env email ip qs d' = guesses_at env email ip qs d"
  using same_account_wrong[of env _ d d'] by (auto simp: guesses_at_def list_all_iff)

lemma replies_guess:
  assumes "guesses_at env email ip qs d" "lq_email q0 = email" "lq_ip q0 = ip"
  shows "guess_replies env qs (view env q0 d) = (replies env qs d, view env q0 (after_attempts env qs d)) \<and>
    same_account env email d (after_attempts env qs d)"
  using assms(1)
proof (induction qs arbitrary: d)
  case (Cons qf qs)
  obtain q fv where qf: "qf = (q, fv)" by fastforce
  obtain r d' where l: "login env q fv d = (r, d')" by fastforce
  have q: "lq_email q = email" "lq_ip q = ip" "wrong_guess env q d" "guesses_at env email ip qs d"
    using Cons.prems qf by (simp_all add: guesses_at_def)
  note g = guess_login[OF l q(3)]
  have same: "same_account env email d d'" using g(2) q(1) by simp
  have v: "view env q e = view env q0 e" for e using view_same_request q assms(2,3) by simp
  have "guesses_at env email ip qs d'" using guesses_at_same[OF same] q(4) by simp
  from Cons.IH[OF this] have ih: "guess_replies env qs (view env q0 d') = (replies env qs d', view env q0 (after_attempts env qs d'))"
    "same_account env email d' (after_attempts env qs d')" by blast+
  have "guess env fv (view env q0 d) = (r, view env q0 d')" using g(1) by (simp only: v)
  moreover have "same_account env email d (after_attempts env qs d')"
    using same ih(2) by (simp add: same_account_def)
  ultimately show ?case by (simp add: qf l ih(1))
qed (simp add: same_account_refl)

section \<open>Properties\<close>

text \<open>C21. Replies to wrong guesses do not reveal accounts: take two deployments, say one where the address
  has an account and one where it has none, whose two rate-limit counters for the address and client
  agree. Whatever the guesses, their number and their times, both answer the same list of errors,
  lockouts included.\<close>

theorem login_replies_hide_accounts:
  assumes "guesses_at env email ip qs d" "guesses_at env email ip qs e"
    and "lq_email q = email" "lq_ip q = ip" "view env q d = view env q e"
  shows "replies env qs d = replies env qs e"
  using replies_guess[OF assms(1,3,4)] replies_guess[OF assms(2,3,4)] assms(5) by simp

definition demo_env :: auth_env where
  "demo_env = \<lparr>ae_credentials = demo_credentials, ae_crypto = demo_crypto, ae_sessions = demo_settings,
     ae_digest = (\<lambda>p r. r), ae_tokens = \<lparr>email_verify_ttl = 100, password_reset_ttl = 50\<rparr>,
     register_rate_limit = 5, resend_rate_limit = 5, login_rate_limit = 10, reset_rate_limit = 5,
     rate_limit_window = 60, sha256_hex = id\<rparr>"

definition demo_attempt :: "string \<Rightarrow> seconds \<Rightarrow> login_request \<times> fresh_values" where
  "demo_attempt pw t = (\<lparr>lq_email = '' Root@example.org '', lq_password = pw, lq_agent = None, lq_ip = Some ''10.0.0.1''\<rparr>,
     \<lparr>fv_id = ''s1'', fv_salt = [], fv_raw = ''raw'', fv_jti = ''j1'', fv_clock = (\<lambda>_. t)\<rparr>)"

definition demo_guesses :: "(login_request \<times> fresh_values) list" where
  "demo_guesses = map (demo_attempt ''wrong'') [1, 2, 3, 4, 5, 6]"

theorem login_replies_hide_accounts_witness:
  "replies demo_env demo_guesses fresh_deployment = replies demo_env demo_guesses (seed_catalog_and_roles id id) \<and>
   replies demo_env demo_guesses fresh_deployment =
     replicate 5 (Inl (AuthError ''invalid_credentials'' 401)) @ [Inl (AuthError ''account_locked'' 429)]"
proof -
  let ?e = "'' Root@example.org ''" and ?ip = "Some ''10.0.0.1''" and ?q = "fst (demo_attempt ''wrong'' 1)"
  have g: "guesses_at demo_env ?e ?ip demo_guesses fresh_deployment"
    "guesses_at demo_env ?e ?ip demo_guesses (seed_catalog_and_roles id id)" by code_simp+
  have q: "lq_email ?q = ?e" "lq_ip ?q = ?ip" by (simp_all add: demo_attempt_def)
  have r: "rate_limits fresh_deployment = []" "rate_limits (seed_catalog_and_roles id id) = []" by code_simp+
  then have v: "view demo_env ?q fresh_deployment = (None, None)"
    "view demo_env ?q (seed_catalog_and_roles id id) = (None, None)"
    unfolding view_def lock_row_def by simp_all
  have same: "replies demo_env demo_guesses fresh_deployment = replies demo_env demo_guesses (seed_catalog_and_roles id id)"
    by (rule login_replies_hide_accounts[OF g q]) (simp only: v)
  have "fst (guess_replies demo_env demo_guesses (None, None)) =
      replicate 5 (Inl (AuthError ''invalid_credentials'' 401)) @ [Inl (AuthError ''account_locked'' 429)]"
    by code_simp
  moreover have "replies demo_env demo_guesses fresh_deployment = fst (guess_replies demo_env demo_guesses (None, None))"
    using replies_guess[OF g(1) q] by (simp only: v fst_conv)
  ultimately show ?thesis using same by simp
qed

section \<open>Lockout\<close>

lemma guess_counts:
  assumes "guess_replies env qs (a, k) = (rs, a', k')" "\<forall>r \<in> set rs. r = Inl (AuthError ''invalid_credentials'' 401)"
    and "k = Some \<lparr>rl_count = n, rl_window_started_at = t0\<rparr>"
    and "\<forall>(q, fv) \<in> set qs. t0 \<le> fv_clock fv 1 \<and> fv_clock fv 1 < t0 + LOGIN_LOCK_WINDOW \<and>
      fv_clock fv 2 < t0 + LOGIN_LOCK_WINDOW"
  shows "k' = Some \<lparr>rl_count = n + int (length qs), rl_window_started_at = t0\<rparr>"
  using assms
proof (induction qs arbitrary: a k rs n)
  case (Cons qf qs)
  obtain q fv where qf: "qf = (q, fv)" by fastforce
  obtain r a1 k1 where g: "guess env fv (a, k) = (r, a1, k1)" by (metis prod_cases3)
  obtain rs' where gs: "guess_replies env qs (a1, k1) = (rs', a', k')" and rs: "rs = r # rs'"
    using Cons.prems(1) by (auto simp: qf g split: prod.splits)
  have inv: "r = Inl (AuthError ''invalid_credentials'' 401)" using Cons.prems(2) rs by simp
  have t: "fv_clock fv 1 < t0 + LOGIN_LOCK_WINDOW" "fv_clock fv 2 < t0 + LOGIN_LOCK_WINDOW"
    using Cons.prems(4) qf by auto
  have "\<not> lock_live (fv_clock fv 1) k" "k1 = snd (consume_row LOGIN_MAX_FAILURES LOGIN_LOCK_WINDOW (fv_clock fv 2) k)"
    using g inv by (auto simp: guess_def split: prod.splits if_splits)
  then have "n < LOGIN_MAX_FAILURES" "k1 = Some \<lparr>rl_count = n + 1, rl_window_started_at = t0\<rparr>"
    using t Cons.prems(3) by (auto simp: lock_live_def consume_row_def LOGIN_MAX_FAILURES_def)
  from Cons.IH[OF gs _ this(2)] Cons.prems(2,4) rs show ?case by (simp add: qf)
qed simp

text \<open>Five wrong guesses lock the pair: if five wrong guesses for an address from one client are
  answered invalid_credentials, starting with no failure on record, then until fifteen minutes
  after the first failure every further attempt of that client on that address is refused, with
  the right password too.\<close>

lemma failed_guesses_lock:
  assumes "guesses_at env email ip ((q1, f1) # qs) d" "length qs = 4"
    and "\<forall>r \<in> set (replies env ((q1, f1) # qs) d). r = Inl (AuthError ''invalid_credentials'' 401)"
    and "lock_row env (subject_of env email d) ip d = None"
    and "\<forall>(q, f) \<in> set qs. fv_clock f1 2 \<le> fv_clock f 1 \<and>
      fv_clock f 1 < fv_clock f1 2 + LOGIN_LOCK_WINDOW \<and> fv_clock f 2 < fv_clock f1 2 + LOGIN_LOCK_WINDOW"
    and "lq_email q = email" "lq_ip q = ip" "fv_clock fv 1 < fv_clock f1 2 + LOGIN_LOCK_WINDOW"
  shows "fst (login env q fv (after_attempts env ((q1, f1) # qs) d)) \<in>
    {Inl (AuthError ''rate_limited'' 429), Inl (AuthError ''account_locked'' 429)}"
proof -
  let ?D = "after_attempts env ((q1, f1) # qs) d" and ?s = "subject_of env email d"
  note rg = replies_guess[OF assms(1,6,7)]
  have sub: "subject_of env email ?D = ?s" using rg same_account_subject by blast
  obtain r1 a1 k1 rs a2 k2 where
    g: "guess env f1 (view env q d) = (r1, a1, k1)" "guess_replies env qs (a1, k1) = (rs, a2, k2)"
    by (metis prod_cases3)
  have out: "replies env ((q1, f1) # qs) d = r1 # rs" "view env q ?D = (a2, k2)"
    using rg g by (simp_all del: replies.simps after_attempts.simps)
  have none: "snd (view env q d) = None" using assms(4,6,7) by (simp add: view_def)
  have "r1 = Inl (AuthError ''invalid_credentials'' 401)" using assms(3) unfolding out(1) by simp
  then have "k1 = Some \<lparr>rl_count = 1, rl_window_started_at = fv_clock f1 2\<rparr>"
    using g(1) none by (auto simp: guess_def consume_row_def LOGIN_MAX_FAILURES_def split: prod.splits if_splits)
  then have "k2 = Some \<lparr>rl_count = 1 + int (length qs), rl_window_started_at = fv_clock f1 2\<rparr>"
    using guess_counts[OF g(2)] assms(3,5) unfolding out(1) by simp
  then have row: "lock_row env ?s ip ?D = Some \<lparr>rl_count = 5, rl_window_started_at = fv_clock f1 2\<rparr>"
    using out(2) assms(2,6,7) sub by (simp add: view_def del: after_attempts.simps)
  obtain r d1 where c: "consume_or_429 ''login'' (or_text (lq_ip q) (or_text (Some (lower (lq_email q))) ''anon''))
      (login_rate_limit env) (rate_limit_window env) (fv_clock fv 0) ?D = (r, d1)" by fastforce
  note cr = consume_or_429_row[OF c]
  show ?thesis
  proof (cases r)
    case (Inl e)
    then show ?thesis using cr(6) by (simp add: login_def c del: after_attempts.simps)
  next
    case (Inr x)
    have "subject_of env (lq_email q) d1 = ?s" using login_lookup_core[OF cr(3)] sub assms(6) by (simp add: subject_of_def)
    moreover have "lock_row env ?s ip d1 = Some \<lparr>rl_count = 5, rl_window_started_at = fv_clock f1 2\<rparr>"
      using row by (simp add: lock_row_def cr(2)[OF buckets_differ(2)])
    ultimately show ?thesis
      using login_passed[OF c[unfolded Inr]] assms(7,8)
      by (simp add: Let_def lock_live_def LOGIN_MAX_FAILURES_def del: after_attempts.simps)
  qed
qed

lemma failed_guesses_lock_witness:
  "fst (login demo_env (fst (demo_attempt ''correct horse battery'' 900)) (snd (demo_attempt ''correct horse battery'' 900))
     (after_attempts demo_env (map (demo_attempt ''wrong'') [1, 2, 3, 4, 5]) fresh_deployment)) \<in>
   {Inl (AuthError ''rate_limited'' 429), Inl (AuthError ''account_locked'' 429)}"
proof -
  let ?e = "'' Root@example.org ''" and ?ip = "Some ''10.0.0.1''" and ?q = "fst (demo_attempt ''wrong'' 1)"
  let ?qs = "map (demo_attempt ''wrong'') [2, 3, 4, 5]"
  let ?all = "(?q, snd (demo_attempt ''wrong'' 1)) # ?qs"
  have g: "guesses_at demo_env ?e ?ip ?all fresh_deployment" by code_simp
  have q: "lq_email ?q = ?e" "lq_ip ?q = ?ip" by (simp_all add: demo_attempt_def)
  have r: "rate_limits fresh_deployment = []" by code_simp
  then have v: "view demo_env ?q fresh_deployment = (None, None)" unfolding view_def lock_row_def by simp
  have "list_all (\<lambda>r. r = Inl (AuthError ''invalid_credentials'' 401)) (fst (guess_replies demo_env ?all (None, None)))"
    by code_simp
  then have "\<forall>r \<in> set (replies demo_env ?all fresh_deployment). r = Inl (AuthError ''invalid_credentials'' 401)"
    using replies_guess[OF g q] by (simp only: v fst_conv list_all_iff)
  moreover have "lock_row demo_env (subject_of demo_env ?e fresh_deployment) ?ip fresh_deployment = None"
    using r unfolding lock_row_def by simp
  moreover have "\<forall>(q, f) \<in> set ?qs. fv_clock (snd (demo_attempt ''wrong'' 1)) 2 \<le> fv_clock f 1 \<and>
      fv_clock f 1 < fv_clock (snd (demo_attempt ''wrong'' 1)) 2 + LOGIN_LOCK_WINDOW \<and>
      fv_clock f 2 < fv_clock (snd (demo_attempt ''wrong'' 1)) 2 + LOGIN_LOCK_WINDOW"
    by (simp add: demo_attempt_def LOGIN_LOCK_WINDOW_def LOGIN_LOCK_MINUTES_def)
  ultimately have "fst (login demo_env (fst (demo_attempt ''correct horse battery'' 900))
      (snd (demo_attempt ''correct horse battery'' 900)) (after_attempts demo_env ?all fresh_deployment)) \<in>
    {Inl (AuthError ''rate_limited'' 429), Inl (AuthError ''account_locked'' 429)}"
    by (intro failed_guesses_lock[OF g])
      (simp_all add: demo_attempt_def LOGIN_LOCK_WINDOW_def LOGIN_LOCK_MINUTES_def del: after_attempts.simps)
  then show ?thesis by (simp only: prod.collapse list.map)
qed

section \<open>Who gets a session\<close>

lemma record_rates_simps [simp]:
  "rate_limits (record_admin a b c d) = rate_limits d"
  by (simp add: record_admin_def)

text \<open>Only a verified password of an active account opens a session: when a login succeeds, the
  address is valid and belongs to an account, the password verifies against its hash, the account is
  active or waiting for approval, its pair with the client is not locked, and what was created is one
  live session of that account.\<close>

lemma login_success_sound:
  assumes "login env q fv d = (Inr pair, d')"
  shows "\<exists>n uid u. validate_and_normalize (ae_credentials env) (lq_email q) = Inr n \<and>
    user_by_email n d = Some (uid, u) \<and>
    verify_password (ae_credentials env) (lq_password q) (stored_hash env u) \<and>
    u_status u \<in> {ACTIVE, PENDING_APPROVAL} \<and>
    \<not> lock_live (fv_clock fv 1) (lock_row env uid (lq_ip q) d) \<and>
    (\<exists>s. dict_get (sessions (core d)) (tp_session_id pair) = None \<and>
      dict_get (sessions (core d')) (tp_session_id pair) = Some s \<and> s_user_id s = uid \<and> \<not> is_revoked s)"
proof -
  obtain r1 d1 where c: "consume_or_429 ''login'' (or_text (lq_ip q) (or_text (Some (lower (lq_email q))) ''anon''))
      (login_rate_limit env) (rate_limit_window env) (fv_clock fv 0) d = (r1, d1)" by fastforce
  note row = consume_or_429_row[OF c]
  have r1: "r1 = Inr ()" using assms by (cases r1) (auto simp: login_def c)
  have look: "login_lookup env (lq_email q) d1 = login_lookup env (lq_email q) d" by (rule login_lookup_core[OF row(3)])
  note lg = assms[unfolded login_passed[OF c[unfolded r1]] look Let_def]
  have "\<not> lock_live (fv_clock fv 1) (lock_row env (subject_of env (lq_email q) d1) (lq_ip q) d1)"
    using lg by (auto split: if_splits)
  then have live: "\<not> lock_live (fv_clock fv 1) (lock_row env (subject_of env (lq_email q) d) (lq_ip q) d)"
    using look by (simp add: subject_of_def lock_row_def row(2)[OF buckets_differ(2)])
  obtain uid u where f: "snd (login_lookup env (lq_email q) d) = Some (uid, u)"
    using lg by (auto split: if_splits option.splits)
  then obtain n where n: "validate_and_normalize (ae_credentials env) (lq_email q) = Inr n" "user_by_email n d = Some (uid, u)"
    by (auto simp: login_lookup_def split: sum.splits)
  have sub: "subject_of env (lq_email q) d = uid" using f by (simp add: subject_of_def lock_subject_def)
  have ver: "verify_password (ae_credentials env) (lq_password q) (stored_hash env u)"
    using lg f by (auto split: if_splits)
  obtain s0 where lv: "login_verified env q fv s0 uid u d d1 = (Inr pair, d')" using lg f ver by (auto split: if_splits)
  have st: "u_status u \<in> {ACTIVE, PENDING_APPROVAL}"
    using lv by (cases "u_status u") (auto simp: login_verified_def)
  let ?u = "verified_user env (lq_password q) (fv_salt fv) u"
  let ?d = "reset_limit LOGIN_LOCK_BUCKET (lock_identity env s0 (lq_ip q)) (put_user uid ?u d1)"
  obtain c' where cs: "create_session (ae_crypto env) (ae_sessions env) uid ?u (lq_agent q) (lq_ip q) (fv_id fv)
      (fv_jti fv) (fv_clock fv 3) (fv_clock fv 4) (core ?d) = (Inr pair, c')" "core d' = c'"
    using lv st by (cases "create_session (ae_crypto env) (ae_sessions env) uid ?u (lq_agent q) (lq_ip q) (fv_id fv)
      (fv_jti fv) (fv_clock fv 3) (fv_clock fv 4) (core ?d)") (auto simp: login_verified_def Let_def split: sum.splits)
  have ses: "sessions (core ?d) = sessions (core d)" using row(3) by (simp add: reset_limit_def)
  have "\<exists>s. dict_get (sessions (core d)) (tp_session_id pair) = None \<and>
      dict_get (sessions c') (tp_session_id pair) = Some s \<and> s_user_id s = uid \<and> \<not> is_revoked s"
    using cs(1) ses by (auto simp: create_session_def issue_pair_def Let_def is_revoked_def put_token_def put_session_def
        split: if_splits)
  then show ?thesis using n ver st live[unfolded sub] unfolding cs(2) by blast
qed

lemma login_success_sound_witness:
  "\<exists>n uid u. user_by_email n fresh_deployment = Some (uid, u) \<and>
    verify_password demo_credentials ''correct horse battery'' (stored_hash demo_env u) \<and>
    u_status u \<in> {ACTIVE, PENDING_APPROVAL}"
proof -
  let ?l = "login demo_env (fst (demo_attempt ''correct horse battery'' 1)) (snd (demo_attempt ''correct horse battery'' 1)) fresh_deployment"
  have "\<not> isl (fst ?l)" by code_simp
  then obtain pair d' where l: "?l = (Inr pair, d')" by (metis prod.collapse sum.disc(1) obj_sumE)
  have "ae_credentials demo_env = demo_credentials" "lq_password (fst (demo_attempt ''correct horse battery'' 1)) = ''correct horse battery''"
    by (simp_all add: demo_env_def demo_attempt_def)
  then show ?thesis using login_success_sound[OF l] by metis
qed

section \<open>Reset tokens\<close>

text \<open>A rejected new password burns the reset token: presenting a valid reset token with a password
  the policy refuses answers 422 and still spends the token, so the same link used again with an
  acceptable password is answered invalid_or_expired_token.\<close>

lemma rejected_password_burns_token:
  assumes "dict_ok (email_tokens d)" "consume_token (ae_digest env) raw PASSWORD_RESET (fv_clock fv 0) d = (Inr (i, t), d1)"
    and "validate_password (ae_credentials env) bad = Inl e"
  shows "fst (reset_password env raw bad fv d) = Inl (AuthError e 422) \<and>
    fst (reset_password env raw good fv' (snd (reset_password env raw bad fv d))) =
      Inl (AuthError ''invalid_or_expired_token'' 400)"
proof -
  have first: "reset_password env raw bad fv d = (Inl (AuthError e 422), d1)"
    by (simp add: reset_password_def assms(2,3))
  obtain t0 where flt: "filter (\<lambda>(i, t). et_digest t = ae_digest env PASSWORD_RESET raw \<and> et_purpose t = PASSWORD_RESET)
      (email_tokens d) = [(i, t0)]" and t: "t = t0\<lparr>et_used_at := Some (fv_clock fv 0)\<rparr>"
      "email_tokens d1 = dict_set i t (email_tokens d)"
    using assms(2) by (auto simp: consume_token_def Let_def split: list.splits if_splits)
  have in0: "(i, t0) \<in> set (email_tokens d)"
  proof -
    have "(i, t0) \<in> set (filter (\<lambda>(i, t). et_digest t = ae_digest env PASSWORD_RESET raw \<and> et_purpose t = PASSWORD_RESET)
        (email_tokens d))" using flt by simp
    then show ?thesis by simp
  qed
  then have "dict_get (email_tokens d) i = Some t0" by (rule dict_in_get[OF assms(1)])
  from dict_set_split[OF assms(1) this, of t] obtain pre post where
    s: "email_tokens d = pre @ (i, t0) # post" "dict_set i t (email_tokens d) = pre @ (i, t) # post" by metis
  let ?P = "\<lambda>(i, t). et_digest t = ae_digest env PASSWORD_RESET raw \<and> et_purpose t = PASSWORD_RESET"
  have p0: "?P (i, t0)"
  proof -
    have "(i, t0) \<in> set (filter ?P (email_tokens d))" by (simp only: flt) simp
    then show ?thesis by simp
  qed
  have "filter ?P pre = [] \<and> filter ?P post = []"
  proof -
    have "length (filter ?P (email_tokens d)) = 1" by (simp only: flt) simp
    then show ?thesis using p0 by (simp add: s(1))
  qed
  then have "filter ?P (email_tokens d1) = [(i, t)]"
    using p0 by (simp only: t(2) s(2) filter_append filter.simps) (simp add: t(1))
  then have "consume_token (ae_digest env) raw PASSWORD_RESET (fv_clock fv' 0) d1 = (Inl TokenNotFound, d1)"
    using t(1) by (simp add: consume_token_def)
  then show ?thesis by (simp add: first reset_password_def[of env raw good])
qed

definition with_reset_token :: identity_db where
  "with_reset_token = snd (forgot_password demo_env ''root@example.org'' ''10.0.0.1'' ''tok''
     (snd (demo_attempt [] 1)) fresh_deployment)"

lemma rejected_password_burns_token_witness:
  "fst (reset_password demo_env ''raw'' ''short'' (snd (demo_attempt [] 2)) with_reset_token) =
     Inl (AuthError ''password_too_short:min_15'' 422) \<and>
   fst (reset_password demo_env ''raw'' ''long enough password'' (snd (demo_attempt [] 3))
     (snd (reset_password demo_env ''raw'' ''short'' (snd (demo_attempt [] 2)) with_reset_token))) =
     Inl (AuthError ''invalid_or_expired_token'' 400)"
proof -
  have "dict_ok (email_tokens with_reset_token)" by code_simp
  moreover have "\<not> isl (fst (consume_token (ae_digest demo_env) ''raw'' PASSWORD_RESET
      (fv_clock (snd (demo_attempt [] 2)) 0) with_reset_token))" by code_simp
  then obtain i t d1 where "consume_token (ae_digest demo_env) ''raw'' PASSWORD_RESET
      (fv_clock (snd (demo_attempt [] 2)) 0) with_reset_token = (Inr (i, t), d1)"
    by (metis prod.collapse sum.disc(1) obj_sumE)
  moreover have "validate_password (ae_credentials demo_env) ''short'' = Inl ''password_too_short:min_15''" by code_simp
  ultimately show ?thesis by (rule rejected_password_burns_token)
qed

end
