(* ===== verification/Authorization.thy ===== *)
theory Authorization
  imports Auth
begin

text \<open>
  The request-time gates of \<open>dependencies.py\<close> (\<open>src/security/rbac\<close>): the principal of an access
  token, the permission and ownership dependencies, and the re-authorisation of long-lived streams.
  Decoding and verifying an access token is the argument \<open>decode\<close>, the registered ownership checkers
  a partial function from their kind.
\<close>

datatype http_exception = HTTPException int string

record access_claims =
  ac_sub :: string
  ac_sid :: string
  ac_version :: int

section \<open>Bearer headers\<close>

fun split_words :: "string \<Rightarrow> string \<Rightarrow> string list" where
  "split_words w [] = (if w = [] then [] else [w])"
| "split_words w (c # cs) =
     (if py_space c then (if w = [] then [] else [w]) @ split_words [] cs else split_words (w @ [c]) cs)"

definition extract_bearer :: "string option \<Rightarrow> http_exception + string" where
  "extract_bearer authorization =
     (case authorization of
        None \<Rightarrow> Inl (HTTPException 401 ''Authorization header missing'')
      | Some h \<Rightarrow>
          if h = [] then Inl (HTTPException 401 ''Authorization header missing'')
          else case split_words [] h of
            [scheme, token] \<Rightarrow>
              if lower scheme \<noteq> ''bearer'' then Inl (HTTPException 401 ''Invalid authorization header format'')
              else Inr token
          | _ \<Rightarrow> Inl (HTTPException 401 ''Invalid authorization header format''))"

section \<open>Principals\<close>

definition assemble :: "string \<Rightarrow> iam_user \<Rightarrow> string \<Rightarrow> identity_db \<Rightarrow> principal" where
  "assemble uid u sid d = \<lparr>p_user_id = uid, p_email = u_email u, p_status = u_status u, p_session_id = Some sid,
     p_roles = user_role_codes uid d, p_permissions = user_permission_codes uid d,
     p_authz_version = authz_version u\<rparr>"

definition session_alive :: "string \<Rightarrow> identity_db \<Rightarrow> bool" where
  "session_alive sid d \<longleftrightarrow>
     (case dict_get (sessions (core d)) sid of None \<Rightarrow> False | Some s \<Rightarrow> \<not> is_revoked s)"

definition build_principal ::
    "(string \<Rightarrow> string + access_claims) \<Rightarrow> string \<Rightarrow> identity_db \<Rightarrow> http_exception + principal" where
  "build_principal decode token d =
     (case decode token of
        Inl e \<Rightarrow> Inl (HTTPException 401 (''invalid_token:'' @ e))
      | Inr claims \<Rightarrow>
     (case dict_get (db_users d) (ac_sub claims) of
        None \<Rightarrow> Inl (HTTPException 401 ''invalid_token:user_not_found'')
      | Some u \<Rightarrow>
          if u_status u = DISABLED then Inl (HTTPException 403 ''account_disabled'')
          else if authz_version u \<noteq> ac_version claims then Inl (HTTPException 401 ''session_superseded'')
          else if \<not> session_alive (ac_sid claims) d then Inl (HTTPException 401 ''session_revoked'')
          else Inr (assemble (ac_sub claims) u (ac_sid claims) d)))"

definition get_current_principal ::
    "bool \<Rightarrow> (string \<Rightarrow> string + access_claims) \<Rightarrow> string option \<Rightarrow> identity_db \<Rightarrow> http_exception + principal" where
  "get_current_principal bypass decode authorization d =
     (if bypass then Inr synthetic_dev_principal
      else res_bind (extract_bearer authorization) (\<lambda>token. build_principal decode token d))"

definition reauthorize_session :: "principal \<Rightarrow> identity_db \<Rightarrow> principal option" where
  "reauthorize_session p d =
     (case dict_get (db_users d) (p_user_id p) of
        None \<Rightarrow> None
      | Some u \<Rightarrow>
          if u_status u = DISABLED then None
          else if authz_version u \<noteq> p_authz_version p then None
          else case p_session_id p of
            None \<Rightarrow> None
          | Some sid \<Rightarrow> if session_alive sid d then Some (assemble (p_user_id p) u sid d) else None)"

section \<open>Gates\<close>

datatype permission_mode = All | Any

definition require_active_user :: "principal \<Rightarrow> http_exception + principal" where
  "require_active_user p = (if is_active p then Inr p else Inl (HTTPException 403 ''pending_approval''))"

definition require_permissions :: "string list \<Rightarrow> permission_mode \<Rightarrow> principal \<Rightarrow> http_exception + principal" where
  "require_permissions codes mode p =
     (if \<not> is_active p then Inl (HTTPException 403 ''pending_approval'')
      else if (case mode of Any \<Rightarrow> has_any p codes | All \<Rightarrow> has_all p codes) then Inr p
      else Inl (HTTPException 403 ''insufficient_permissions''))"

type_synonym 'k checkers = "string \<Rightarrow> (principal \<Rightarrow> 'k \<Rightarrow> bool) option"

definition require_run_owner ::
    "string checkers \<Rightarrow> string \<Rightarrow> string \<Rightarrow> principal \<Rightarrow> http_exception + principal" where
  "require_run_owner checkers permission run_id p =
     res_bind (require_permissions [permission] All p) (\<lambda>p.
       case checkers ''run'' of
         None \<Rightarrow> Inl (HTTPException 503 ''authorization_unavailable'')
       | Some check \<Rightarrow> if check p run_id then Inr p else Inl (HTTPException 404 ''Run not found''))"

definition require_run_owner_or_any ::
    "string checkers \<Rightarrow> string \<Rightarrow> string \<Rightarrow> string \<Rightarrow> principal \<Rightarrow> http_exception + principal" where
  "require_run_owner_or_any checkers own_permission any_permission run_id p =
     (if \<not> is_active p then Inl (HTTPException 403 ''pending_approval'')
      else if has p any_permission then Inr p
      else if \<not> has p own_permission then Inl (HTTPException 403 ''permission_denied'')
      else case checkers ''run'' of
         None \<Rightarrow> Inl (HTTPException 503 ''authorization_unavailable'')
       | Some check \<Rightarrow> if check p run_id then Inr p else Inl (HTTPException 404 ''Run not found''))"

definition require_task_owner ::
    "(string \<times> string) checkers \<Rightarrow> string \<Rightarrow> string \<Rightarrow> string \<Rightarrow> principal \<Rightarrow> http_exception + principal" where
  "require_task_owner checkers permission run_id task_id p =
     res_bind (require_permissions [permission] All p) (\<lambda>p.
       case checkers ''task'' of
         None \<Rightarrow> Inl (HTTPException 503 ''authorization_unavailable'')
       | Some check \<Rightarrow> if check p (run_id, task_id) then Inr p else Inl (HTTPException 404 ''Task not found''))"

section \<open>Everything that can happen to the tables\<close>

datatype app_event =
  Register string string "string option" string string fresh_values
| Verify string fresh_values
| Resend string string string fresh_values
| Forgot string string string fresh_values
| SignIn login_request fresh_values
| RefreshToken string fresh_values
| SignOut string "string option" seconds
| SignOutAll string "string option" seconds
| ChangePassword string string string fresh_values
| ResetPassword string string fresh_values
| Approve string "string list" "string option" seconds
| Reassign string "string list" "string option" seconds
| Disable string "string option" seconds
| Enable string "string option"
| SendReset string "string option" string string seconds
| Patch string "string option" "string option"
| Role_Create string string string "string option" "string list" "string option"
| Role_Update string "string option" "string option" "string option"
| Role_Permissions string "string list" "string option"
| Role_Delete string "string option"
| Role_Copy string string string "string option" "string option"
| ActiveSession string seconds

fun app_step :: "auth_env \<Rightarrow> identity_db \<Rightarrow> app_event \<Rightarrow> identity_db" where
  "app_step env d (Register email pw name ident tid fv) = snd (register env email pw name ident tid fv d)"
| "app_step env d (Verify raw fv) = snd (verify_email env raw fv d)"
| "app_step env d (Resend email ident tid fv) = snd (resend_verification env email ident tid fv d)"
| "app_step env d (Forgot email ident tid fv) = snd (forgot_password env email ident tid fv d)"
| "app_step env d (SignIn q fv) = snd (login env q fv d)"
| "app_step env d (RefreshToken raw fv) = snd (refresh env raw fv d)"
| "app_step env d (SignOut sid uid now) = snd (logout sid uid now d)"
| "app_step env d (SignOutAll uid except now) = snd (logout_all uid except now d)"
| "app_step env d (ChangePassword uid current new fv) = snd (change_password env uid current new fv d)"
| "app_step env d (ResetPassword raw new fv) = snd (reset_password env raw new fv d)"
| "app_step env d (Approve uid codes actor now) = snd (approve_user uid codes actor now d)"
| "app_step env d (Reassign uid codes actor now) = snd (assign_roles uid codes actor now d)"
| "app_step env d (Disable uid actor now) = snd (disable_user uid actor now d)"
| "app_step env d (Enable uid actor) = snd (enable_user uid actor d)"
| "app_step env d (SendReset uid actor i raw now) =
     snd (admin_send_password_reset (ae_digest env) (ae_tokens env) uid actor i raw now d)"
| "app_step env d (Patch uid name actor) = snd (patch_user uid name actor d)"
| "app_step env d (Role_Create rid code name desc perms actor) = snd (create_role rid code name desc perms actor d)"
| "app_step env d (Role_Update rid name desc actor) = snd (update_role rid name desc actor d)"
| "app_step env d (Role_Permissions rid perms actor) = snd (set_role_permissions rid perms actor d)"
| "app_step env d (Role_Delete rid actor) = snd (delete_role rid actor d)"
| "app_step env d (Role_Copy src rid code name actor) = snd (copy_role src rid code name actor d)"
| "app_step env d (ActiveSession sid now) = d\<lparr>core := touch_session_activity sid now (core d)\<rparr>"

end
