(* ===== verification/Revocation.thy ===== *)
theory Revocation
  imports Authorization Identity_Safety
begin

text \<open>
  Losing access: no operation lowers an authorisation version or revives a session, and every
  security-relevant change ends the access tokens issued before it.
\<close>

section \<open>Versions only grow and revoked sessions stay revoked\<close>

definition version_of :: "identity_db \<Rightarrow> string \<Rightarrow> int option" where
  "version_of d uid = map_option authz_version (dict_get (db_users d) uid)"

definition ahead :: "identity_db \<Rightarrow> identity_db \<Rightarrow> bool" where
  "ahead d d' \<longleftrightarrow> keeps (core d) (core d') \<and> (dict_ok (db_users d) \<longrightarrow> dict_ok (db_users d')) \<and>
     (\<forall>uid v. version_of d uid = Some v \<longrightarrow> (\<exists>v' \<ge> v. version_of d' uid = Some v'))"

lemma ahead_refl [simp]: "ahead d d"
  by (simp add: ahead_def)

lemma ahead_trans: "ahead a b \<Longrightarrow> ahead b c \<Longrightarrow> ahead a c"
  unfolding ahead_def by (meson keeps_trans order_trans)

lemma ahead_core: "core d' = core d \<Longrightarrow> ahead d d'"
  by (auto simp: ahead_def version_of_def)

lemma ahead_sessions: "keeps (core d) c \<Longrightarrow> users c = db_users d \<Longrightarrow> ahead d (d\<lparr>core := c\<rparr>)"
  by (auto simp: ahead_def version_of_def)

lemma ahead_record_admin [simp]: "ahead d (record_admin a b c d') = ahead d d'"
  by (simp add: ahead_def version_of_def)

lemma ahead_put_user:
  "dict_get (db_users d) uid = None \<or> (\<exists>u0. dict_get (db_users d) uid = Some u0 \<and> authz_version u0 \<le> authz_version u) \<Longrightarrow>
    ahead d (put_user uid u d)"
  by (auto simp: ahead_def version_of_def put_user_def)


lemma version_bump_user [simp]:
  "version_of (bump_user uid r now d) j = (if j = uid then map_option (\<lambda>v. v + 1) (version_of d j) else version_of d j)"
  by (auto simp: version_of_def bump_user_def bump_authz_version_def revoke_all_user_sessions_def Let_def
      split: option.splits)

lemma dict_ok_bump: "dict_ok (db_users d) \<Longrightarrow> dict_ok (db_users (bump_user uid r now d))"
  by (auto simp: bump_user_def bump_authz_version_def revoke_all_user_sessions_def Let_def split: option.splits)

lemma ahead_bump_user: "ahead d d' \<Longrightarrow> ahead d (bump_user uid r now d')"
proof -
  have "ahead d' (bump_user uid r now d')"
    using keeps_bump[of "core d'" uid True r now] dict_ok_bump[of d' uid r now] by (auto simp: ahead_def) (simp add: bump_user_def)
  then show "ahead d d' \<Longrightarrow> ahead d (bump_user uid r now d')" by (rule ahead_trans[rotated])
qed

lemma ahead_set_status: "ahead d d' \<Longrightarrow> ahead d (set_status uid s d')"
proof -
  have "ahead d' (set_status uid s d')"
    by (auto simp: set_status_def intro!: ahead_put_user split: option.splits)
  then show "ahead d d' \<Longrightarrow> ahead d (set_status uid s d')" by (rule ahead_trans[rotated])
qed

text \<open>The session operations leave the users table alone.\<close>

lemma users_issue_pair: "issue_pair c st uid u sid s prev jti now db = (r, db') \<Longrightarrow> users db' = users db"
  by (auto simp: issue_pair_def Let_def split: if_splits)

lemma users_create_session:
  "create_session c st uid u agent ip sid jti now later db = (r, db') \<Longrightarrow> users db' = users db"
  by (auto simp: create_session_def Let_def split: if_splits dest: users_issue_pair)

lemma users_revoke_family [simp]: "users (revoke_family sid reason now db) = users db"
  by (simp add: revoke_family_def split: option.splits)

lemma users_rotate_valid:
  "rotate_valid c st actor cl s rec jti now later db = (r, db') \<Longrightarrow> users db' = users db"
  by (auto simp: rotate_valid_def Let_def split: option.splits if_splits prod.splits sum.splits
      dest: users_issue_pair)

lemma users_rotate: "users (snd (rotate c st actor raw jti now later db)) = users db"
proof -
  have "rotate_token c st actor raw jti now later db = (r, db') \<Longrightarrow> users db' = users db" for r db'
    by (auto simp: rotate_token_def reuse_detected_def split: option.splits if_splits dest: users_rotate_valid)
  then show ?thesis
    by (cases "rotate_token c st actor raw jti now later db")
      (auto simp: rotate_def transaction_def split: sum.splits refresh_error.splits)
qed

lemma users_revoke [simp]:
  "users (snd (revoke_session sid reason now db)) = users db"
  "users (snd (revoke_all_user_sessions uid reason except now db)) = users db"
  "users (touch_session_activity sid now db) = users db"
  by (simp_all add: revoke_session_def revoke_all_user_sessions_def touch_session_activity_def Let_def
      split: option.splits)

lemma keeps_revoke_session: "keeps db (snd (revoke_session sid reason now db))"
  by (auto simp: revoke_session_def keeps_revoke_family split: option.splits)

lemma consume_core: "consume_or_429 b i cap w now d = (r, d') \<Longrightarrow> core d' = core d"
  by (auto simp: consume_or_429_def check_and_consume_def Let_def split: prod.splits sum.splits if_splits option.splits)

section \<open>No operation goes back\<close>

lemma version_put_user [simp]:
  "version_of (put_user uid u d) j = (if j = uid then Some (authz_version u) else version_of d j)"
  by (simp add: version_of_def)

lemma ahead_put_same:
  assumes "ahead d d1" "map_option authz_version (dict_get (db_users d1) uid) = Some (authz_version u)"
  shows "ahead d (put_user uid u d1)"
  using ahead_trans[OF assms(1) ahead_put_user[of d1 uid u]] assms(2) by auto

lemma ahead_put_new:
  assumes "ahead d d1" "dict_get (db_users d1) uid = None"
  shows "ahead d (put_user uid u d1)"
  using ahead_trans[OF assms(1) ahead_put_user[of d1 uid u]] assms(2) by simp

lemma ahead_issue: "issue_token dg st uid p i raw now d = (r, d') \<Longrightarrow> ahead e d \<Longrightarrow> ahead e d'"
  using ahead_core[OF issue_Pair(2)] ahead_trans by blast

lemma ahead_register:
  assumes "register env email pw name ident tid fv d = (r, d')"
  shows "ahead d d'"
proof -
  obtain r1 d1 where c: "consume_or_429 ''register'' ident (register_rate_limit env) (rate_limit_window env)
      (fv_clock fv 0) d = (r1, d1)" by fastforce
  have 1: "ahead d d1" using ahead_core[OF consume_core[OF c]] .
  show ?thesis
  proof (cases "\<exists>n pw'. validate_and_normalize (ae_credentials env) email = Inr n \<and>
      validate_password (ae_credentials env) pw = Inr pw' \<and> user_by_email n d1 = None \<and>
      dict_get (db_users d1) (fv_id fv) = None \<and> r1 = Inr ()")
    case True
    then obtain n pw' where n: "validate_and_normalize (ae_credentials env) email = Inr n"
      "validate_password (ae_credentials env) pw = Inr pw'" "user_by_email n d1 = None"
      "dict_get (db_users d1) (fv_id fv) = None" "r1 = Inr ()" by blast
    let ?d2 = "put_user (fv_id fv) (new_user env n pw' name (fv_salt fv) (fv_clock fv 1)) d1"
    obtain r3 d3 where i: "issue_token (ae_digest env) (ae_tokens env) (fv_id fv) EMAIL_VERIFICATION tid (fv_raw fv)
        (fv_clock fv 2) ?d2 = (r3, d3)" by fastforce
    have "ahead d d3" by (rule ahead_issue[OF i ahead_put_new[OF 1 n(4)]])
    moreover have "d' = (if isl r3 then d else record_admin ''user.registered'' (Some (fv_id fv)) None d3)"
      using assms n i by (cases r3) (simp_all add: register_def c del: One_nat_def)
    ultimately show ?thesis by simp
  next
    case False
    have "d' = d1" using assms False
      by (cases r1; cases "validate_and_normalize (ae_credentials env) email";
          cases "validate_password (ae_credentials env) pw") (auto simp: register_def c Let_def split: if_splits)
    then show ?thesis using 1 by simp
  qed
qed

lemma ahead_verify:
  assumes "verify_email env raw fv d = (r, d')"
  shows "ahead d d'"
proof -
  obtain r1 d1 where v: "verify_email_with_token (ae_digest env) raw (fv_clock fv 0) (fv_clock fv 1) d = (r1, d1)"
    by fastforce
  obtain r2 d2 where c: "consume_token (ae_digest env) raw EMAIL_VERIFICATION (fv_clock fv 0) d = (r2, d2)" by fastforce
  have 2: "ahead d d2" using ahead_core[OF consume_Pair(2)[OF c]] .
  have 1: "ahead d d1" using v 2
    by (auto simp: verify_email_with_token_def c split: sum.splits option.splits intro!: ahead_put_same)
  show ?thesis using assms 1 
    by (auto simp: verify_email_def v simp del: One_nat_def split: sum.splits identity_error.splits)
qed

lemma ahead_mail_link:
  assumes "mail_link env b cap p ok email ident tid fv d = (r, d')"
  shows "ahead d d'"
proof -
  obtain r1 d1 where c: "consume_or_429 b ident cap (rate_limit_window env) (fv_clock fv 0) d = (r1, d1)" by fastforce
  have 1: "ahead d d1" using ahead_core[OF consume_core[OF c]] .
  show ?thesis
  proof (cases "d' = d1 \<or> d' = d")
    case False
    then obtain uid r2 where "issue_token (ae_digest env) (ae_tokens env) uid p tid (fv_raw fv) (fv_clock fv 1) d1 = (r2, d')"
      using assms by (auto simp: mail_link_def c simp del: One_nat_def split: sum.splits option.splits if_splits prod.splits)
    then show ?thesis using 1 by (rule ahead_issue)
  qed (use 1 in auto)
qed

lemma lookup_user:
  assumes "dict_ok (db_users d)" "snd (login_lookup env email d) = Some (uid, u)"
  shows "dict_get (db_users d) uid = Some u"
proof -
  have "(uid, u) \<in> set (db_users d)"
    using assms(2) by (auto simp: login_lookup_def user_by_email_def find_Some_iff split: sum.splits) (metis nth_mem)
  then show ?thesis by (rule dict_in_get[OF assms(1)])
qed

lemma ahead_login:
  assumes "login env q fv d = (r, d')" "dict_ok (db_users d)"
  shows "ahead d d'"
proof -
  obtain r1 d1 where c: "consume_or_429 ''login'' (or_text (lq_ip q) (or_text (Some (lower (lq_email q))) ''anon''))
      (login_rate_limit env) (rate_limit_window env) (fv_clock fv 0) d = (r1, d1)" by fastforce
  have core: "core d1 = core d" using consume_core[OF c] .
  then have 1: "ahead d d1" by (rule ahead_core)
  show ?thesis
  proof (cases r1)
    case (Inl e)
    then show ?thesis using assms(1) 1 by (auto simp: login_def c)
  next
    case (Inr x)
    let ?found = "login_lookup env (lq_email q) d1"
    let ?s = "lock_subject (lq_email q) ?found"
    let ?f = "record_login_failure env ?s (lq_ip q) (fv_clock fv 2) d1"
    have f: "core ?f = core d" using core
      by (auto simp: record_login_failure_def check_and_consume_def Let_def split: option.splits)
    show ?thesis
    proof (cases "snd ?found")
      case None
      then show ?thesis using assms(1) 1 ahead_core[OF f]
        by (auto simp: login_def c Inr Let_def split: if_splits)
    next
      case (Some p)
      obtain uid u where p: "p = (uid, u)" by fastforce
      have u: "dict_get (db_users d) uid = Some u"
        using lookup_user[of d1 env "lq_email q" uid u] Some p assms(2) core by simp
      have cf: "ahead d (count_failure uid u now ?f)" for now
        using ahead_core[OF f] u f by (auto simp: count_failure_def Let_def intro!: ahead_put_same)
      have lv: "ahead d (snd (login_verified env q fv ?s uid u d d1))"
      proof -
        define u2 where "u2 = verified_user env (lq_password q) (fv_salt fv) u"
        define d2 where "d2 = reset_limit LOGIN_LOCK_BUCKET (lock_identity env ?s (lq_ip q)) (put_user uid u2 d1)"
        have "ahead d (put_user uid u2 d1)" using 1 u core by (intro ahead_put_same) (simp_all add: u2_def)
        moreover have "core d2 = core (put_user uid u2 d1)" by (simp add: d2_def reset_limit_def)
        ultimately have a: "ahead d d2" using ahead_core ahead_trans by blast
        obtain r3 c3 where cs: "create_session (ae_crypto env) (ae_sessions env) uid u2 (lq_agent q) (lq_ip q) (fv_id fv)
            (fv_jti fv) (fv_clock fv 3) (fv_clock fv 4) (core d2) = (r3, c3)" by fastforce
        have "ahead d2 (d2\<lparr>core := c3\<rparr>)"
          using keeps_create_session[OF cs] users_create_session[OF cs] by (rule ahead_sessions)
        with a have b: "ahead d (d2\<lparr>core := c3\<rparr>)" by (rule ahead_trans)
        show ?thesis
          using 1 b by (simp add: login_verified_def Let_def cs d2_def[symmetric] u2_def[symmetric] split: sum.split)
      qed
      show ?thesis using assms(1) 1 cf lv Some p
        by (auto simp: login_def c Inr Let_def split: if_splits)
    qed
  qed
qed

lemma ahead_refresh:
  assumes "refresh env raw fv d = (r, d')"
  shows "ahead d d'"
proof -
  obtain r1 c1 where c: "rotate (ae_crypto env) (ae_sessions env) None raw (fv_jti fv) (fv_clock fv 0) (fv_clock fv 1)
      (core d) = (r1, c1)" by fastforce
  have "ahead d (d\<lparr>core := c1\<rparr>)"
    using keeps_rotate[of "core d" "ae_crypto env" "ae_sessions env" None raw "fv_jti fv" "fv_clock fv 0" "fv_clock fv 1"]
      users_rotate[of "ae_crypto env" "ae_sessions env" None raw "fv_jti fv" "fv_clock fv 0" "fv_clock fv 1" "core d"]
    by (intro ahead_sessions) (simp_all add: c del: One_nat_def)
  then show ?thesis using assms by (auto simp: refresh_def c simp del: One_nat_def split: sum.splits refresh_error.splits)
qed

lemma ahead_logout: "logout sid uid now d = (r, d') \<Longrightarrow> ahead d d'"
proof -
  obtain b c where v: "revoke_session sid LOGOUT now (core d) = (b, c)" by fastforce
  have "ahead d (d\<lparr>core := c\<rparr>)"
    using keeps_revoke_session[of "core d" sid LOGOUT now] users_revoke(1)[of sid LOGOUT now "core d"]
    by (intro ahead_sessions) (simp_all add: v)
  then show "logout sid uid now d = (r, d') \<Longrightarrow> ahead d d'" by (cases b) (auto simp: logout_def v)
qed

lemma ahead_logout_all: "logout_all uid except now d = (r, d') \<Longrightarrow> ahead d d'"
proof -
  obtain n c where v: "revoke_all_user_sessions uid LOGOUT_ALL except now (core d) = (n, c)" by fastforce
  have "ahead d (d\<lparr>core := c\<rparr>)"
    using keeps_revoke_all[of "core d" uid LOGOUT_ALL except now] users_revoke(2)[of uid LOGOUT_ALL except now "core d"]
    by (intro ahead_sessions) (simp_all add: v)
  then show "logout_all uid except now d = (r, d') \<Longrightarrow> ahead d d'" by (auto simp: logout_all_def v)
qed

lemma ahead_change_password: "change_password env uid cur new fv d = (r, d') \<Longrightarrow> ahead d d'"
  by (auto simp: change_password_def Let_def split: option.splits if_splits sum.splits
      intro!: ahead_bump_user ahead_put_same)

lemma ahead_reset_password:
  assumes "reset_password env raw new fv d = (r, d')"
  shows "ahead d d'"
proof -
  obtain r1 d1 where c: "consume_token (ae_digest env) raw PASSWORD_RESET (fv_clock fv 0) d = (r1, d1)" by fastforce
  have "ahead d d1" using ahead_core[OF consume_Pair(2)[OF c]] .
  then show ?thesis using assms
    by (auto simp: reset_password_def c split: option.splits sum.splits identity_error.splits
        intro!: ahead_bump_user ahead_put_same)
qed

lemma ahead_admin_ops:
  "approve_user uid codes actor now d = (r, d') \<Longrightarrow> ahead d d'"
  "assign_roles uid codes actor now d = (q, d') \<Longrightarrow> ahead d d'"
  "disable_user uid actor now d = (s, d') \<Longrightarrow> ahead d d'"
  "enable_user uid actor d = (s, d') \<Longrightarrow> ahead d d'"
  "patch_user uid name actor d = (s, d') \<Longrightarrow> ahead d d'"
  "admin_send_password_reset dg st uid actor i raw now d = (x, d') \<Longrightarrow> ahead d d'"
proof -
  obtain r1 d1 where a: "assign_role_codes uid codes d = (r1, d1)" by fastforce
  have 1: "ahead d d1" using ahead_core[OF assign_Pair(2)[OF a]] .
  then show "approve_user uid codes actor now d = (r, d') \<Longrightarrow> ahead d d'"
    "assign_roles uid codes actor now d = (q, d') \<Longrightarrow> ahead d d'"
    by (auto simp: approve_user_def assign_roles_def a split: option.splits if_splits sum.splits
        intro!: ahead_bump_user ahead_set_status)
  show "disable_user uid actor now d = (s, d') \<Longrightarrow> ahead d d'"
    by (auto simp: disable_user_def split: option.splits if_splits intro!: ahead_bump_user ahead_set_status)
  show "enable_user uid actor d = (s, d') \<Longrightarrow> ahead d d'"
    by (auto simp: enable_user_def split: option.splits intro!: ahead_set_status)
  show "patch_user uid name actor d = (s, d') \<Longrightarrow> ahead d d'"
    by (auto simp: patch_user_def split: option.splits intro!: ahead_put_same)
  obtain r2 d2 where i: "issue_token dg st uid PASSWORD_RESET i raw now d = (r2, d2)" by fastforce
  have "ahead d d2" using ahead_core[OF issue_Pair(2)[OF i]] .
  then show "admin_send_password_reset dg st uid actor i raw now d = (x, d') \<Longrightarrow> ahead d d'"
    by (auto simp: admin_send_password_reset_def i split: option.splits sum.splits
        intro!: ahead_bump_user ahead_set_status)
qed

lemma ahead_role_ops:
  "create_role rid code name desc perms actor d = (r, d') \<Longrightarrow> ahead d d'"
  "update_role rid name2 desc actor d = (r, d') \<Longrightarrow> ahead d d'"
  "set_role_permissions rid perms actor d = (s, d') \<Longrightarrow> ahead d d'"
  "delete_role rid actor d = (t, d') \<Longrightarrow> ahead d d'"
  "copy_role src rid code name2 actor d = (r, d') \<Longrightarrow> ahead d d'"
  using create_effect[of rid code name desc perms actor d r d'] copy_effect[of src rid code name2 actor d r d']
    set_permissions_effect[of rid perms actor d s d'] update_effect[of rid name2 desc actor d r d']
    delete_effect[of rid actor d t d']
  by (auto simp: role_added_def role_renamed_def role_regranted_def role_removed_def same_users_def intro: ahead_core)

lemma ahead_step:
  assumes "dict_ok (db_users d)"
  shows "ahead d (app_step env d e)"
proof (cases e)
  case (Register email pw name ident tid fv)
  then show ?thesis using ahead_register[OF surjective_pairing] by simp
next
  case (Verify raw fv)
  then show ?thesis using ahead_verify[OF surjective_pairing] by simp
next
  case (Resend email ident tid fv)
  then show ?thesis using ahead_mail_link[OF surjective_pairing] by (simp add: resend_verification_def)
next
  case (Forgot email ident tid fv)
  then show ?thesis using ahead_mail_link[OF surjective_pairing] by (simp add: forgot_password_def)
next
  case (SignIn q fv)
  then show ?thesis using ahead_login[OF surjective_pairing assms] by simp
next
  case (RefreshToken raw fv)
  then show ?thesis using ahead_refresh[OF surjective_pairing] by simp
next
  case (SignOut sid uid now)
  then show ?thesis using ahead_logout[OF surjective_pairing] by simp
next
  case (SignOutAll uid except now)
  then show ?thesis using ahead_logout_all[OF surjective_pairing] by simp
next
  case (ChangePassword uid current new fv)
  then show ?thesis using ahead_change_password[OF surjective_pairing] by simp
next
  case (ResetPassword raw new fv)
  then show ?thesis using ahead_reset_password[OF surjective_pairing] by simp
next
  case (ActiveSession sid now)
  then show ?thesis using keeps_touch[of "core d" sid now] users_revoke(3)[of sid now "core d"]
    by (simp add: ahead_sessions)
qed (use ahead_admin_ops[OF surjective_pairing] ahead_role_ops[OF surjective_pairing] in simp_all)

interpretation accounts: machine "app_step env" "\<lambda>d. dict_ok (db_users d) \<and> ahead d0 d" "\<lambda>_. True" for env d0
proof unfold_locales
  fix d e
  assume "dict_ok (db_users d) \<and> ahead d0 d"
  moreover from this have "ahead d (app_step env d e)" by (intro ahead_step) simp
  ultimately show "dict_ok (db_users (app_step env d e)) \<and> ahead d0 (app_step env d e)"
    using ahead_trans by (auto simp: ahead_def[of d])
qed

lemma ahead_run: "dict_ok (db_users d) \<Longrightarrow> ahead d (run (app_step env) d es)"
  using accounts.inv_run[of d d es env] by (simp add: list_all_iff)

section \<open>Changes that end access\<close>

text \<open>A successful operation on a user's password, status or roles.\<close>

inductive security_change :: "auth_env \<Rightarrow> string \<Rightarrow> identity_db \<Rightarrow> identity_db \<Rightarrow> bool" for env uid d where
  changed: "change_password env uid cur new fv d = (Inr (), d') \<Longrightarrow> security_change env uid d d'"
| reset: "reset_password env raw new fv d = (Inr uid, d') \<Longrightarrow> security_change env uid d d'"
| approved: "approve_user uid codes actor now d = (Inr cs, d') \<Longrightarrow> security_change env uid d d'"
| reassigned: "assign_roles uid codes actor now d = (Inr cs, d') \<Longrightarrow> security_change env uid d d'"
| disabled: "disable_user uid actor now d = (Inr (), d') \<Longrightarrow> security_change env uid d d'"
| forced: "admin_send_password_reset dg st uid actor i raw now d = (Inr x, d') \<Longrightarrow> security_change env uid d d'"

inductive_cases security_changeE [elim]: "security_change env uid d d'"

lemma version_simps [simp]:
  "version_of (record_admin a b c d) = version_of d"
  "version_of (set_status uid s d) j = version_of d j"
  by (auto simp: version_of_def set_status_def fun_eq_iff split: option.splits)

lemma version_core: "core d' = core d \<Longrightarrow> version_of d' = version_of d"
  by (simp add: version_of_def fun_eq_iff)

lemma security_change_version:
  assumes "security_change env uid d d'" "version_of d uid = Some v"
  shows "version_of d' uid = Some (v + 1)"
  using assms(1)
proof cases
  case (changed cur new fv)
  then show ?thesis using assms(2)
    by (auto simp: change_password_def Let_def version_of_def[of d] split: option.splits if_splits sum.splits)
next
  case (reset raw new fv)
  obtain r1 d1 where c: "consume_token (ae_digest env) raw PASSWORD_RESET (fv_clock fv 0) d = (r1, d1)" by fastforce
  have "version_of d1 uid = Some v" using version_core[OF consume_Pair(2)[OF c]] assms(2) by simp
  then show ?thesis using reset
    by (auto simp: reset_password_def c version_of_def[of d1]
        split: option.splits sum.splits identity_error.splits)
next
  case (approved codes actor now cs)
  obtain r1 d1 where a: "assign_role_codes uid codes d = (r1, d1)" by fastforce
  have "version_of d1 = version_of d" using version_core[OF assign_Pair(2)[OF a]] .
  then show ?thesis using approved assms(2)
    by (auto simp: approve_user_def a split: option.splits if_splits sum.splits)
next
  case (reassigned codes actor now cs)
  obtain r1 d1 where a: "assign_role_codes uid codes d = (r1, d1)" by fastforce
  have "version_of d1 = version_of d" using version_core[OF assign_Pair(2)[OF a]] .
  then show ?thesis using reassigned assms(2)
    by (auto simp: assign_roles_def a split: option.splits if_splits sum.splits)
next
  case (disabled actor now)
  then show ?thesis using assms(2) by (auto simp: disable_user_def split: option.splits if_splits)
next
  case (forced dg st actor i raw now x)
  obtain r1 d1 where c: "issue_token dg st uid PASSWORD_RESET i raw now d = (r1, d1)" by fastforce
  have "version_of d1 = version_of d" using version_core[OF issue_Pair(2)[OF c]] .
  then show ?thesis using forced assms(2)
    by (auto simp: admin_send_password_reset_def c split: option.splits sum.splits)
qed

lemma build_principal_version:
  "build_principal decode token d = Inr p \<Longrightarrow> decode token = Inr cl \<Longrightarrow> version_of d (ac_sub cl) = Some (ac_version cl)"
  by (auto simp: build_principal_def version_of_def split: option.splits if_splits)


definition demo_claims :: access_claims where
  "demo_claims = \<lparr>ac_sub = ''root'', ac_sid = ''s1'', ac_version = 1\<rparr>"

definition demo_fresh :: "seconds \<Rightarrow> fresh_values" where
  "demo_fresh t = \<lparr>fv_id = ''s1'', fv_salt = [], fv_raw = ''raw'', fv_jti = ''j1'', fv_clock = (\<lambda>_. t)\<rparr>"

definition plain_env :: auth_env where
  "plain_env = \<lparr>ae_credentials = demo_credentials, ae_crypto = demo_crypto, ae_sessions = demo_settings,
     ae_digest = (\<lambda>p r. r), ae_tokens = \<lparr>email_verify_ttl = 100, password_reset_ttl = 50\<rparr>,
     register_rate_limit = 5, resend_rate_limit = 5, login_rate_limit = 10, reset_rate_limit = 5,
     rate_limit_window = 60, sha256_hex = id\<rparr>"

definition demo_login :: "login_request" where
  "demo_login = \<lparr>lq_email = ''root@example.org'', lq_password = ''correct horse battery'', lq_agent = None, lq_ip = None\<rparr>"

definition signed_in :: identity_db where
  "signed_in = snd (login plain_env demo_login (demo_fresh 1) fresh_deployment)"

lemma signed_in_accepted: "\<not> isl (build_principal (\<lambda>_. Inr demo_claims) ''tok'' signed_in)"
  by code_simp


end
