(* ===== verification/Public_Events.thy ===== *)
theory Public_Events
  imports Run_Context
begin

text \<open>
  The public event log of a run (\<open>RunEventStore\<close> of \<open>events/public.py\<close>), the only source exposed to
  clients: sanitised payloads, an append-only JSON-lines file with an index of deduplication keys,
  commits guarded by the leader's lease, and the manifest's cached event number. \<open>event_disk\<close> adds
  the log and the index to the files of the run; the index is its parsed content, \<open>None\<close> when it is
  missing or unreadable. The codec of events and the name-based identifier are arguments; the
  schema's own bound on a sequence number is left to the reader, which expects each number.
\<close>

section \<open>Payloads\<close>

definition TERMINAL_EVENT_TYPES :: "string list" where
  "TERMINAL_EVENT_TYPES = [''run.completed'', ''run.failed'', ''run.cancelled'']"

definition COMMON_KEYS :: "string list" where
  "COMMON_KEYS = [''status'', ''error_code'', ''message'', ''recovered'', ''termination_reason'',
     ''result_status'', ''permission_denial_count'']"

definition PAYLOAD_KEYS :: "(string \<times> string list) list" where
  "PAYLOAD_KEYS =
     [(''run.created'', [''status'']),
      (''run.started'', [''status'', ''recovered'']),
      (''run.resumed'', [''status'', ''recovered'']),
      (''run.interrupted'', [''status'', ''error_code'', ''message'', ''termination_reason'', ''result_status'',
        ''permission_denial_count'']),
      (''run.completed'', [''status'', ''result_ref'', ''termination_reason'', ''result_status'',
        ''permission_denial_count'']),
      (''run.failed'', [''status'', ''error_code'', ''message'', ''termination_reason'', ''result_status'',
        ''permission_denial_count'']),
      (''run.cancelled'', [''status'', ''termination_reason'', ''result_status'', ''permission_denial_count'']),
      (''run.usage.updated'', [''revision'', ''accounting_status'']),
      (''stage.started'', [''stage_id'', ''stage_index'', ''stage_count'']),
      (''stage.completed'', [''stage_id'', ''stage_index'', ''stage_count'']),
      (''stage.failed'', [''stage_id'', ''stage_index'', ''stage_count'', ''error_code'', ''message'']),
      (''plan.created'', [''plan_id'', ''revision'', ''objective'', ''stages'']),
      (''plan.revised'', [''plan_id'', ''revision'']),
      (''plan.task.added'', [''task_id'', ''wave_id'', ''title'', ''mode'', ''status'']),
      (''research.wave.started'', [''wave_id'', ''mode'', ''task_ids'', ''task_count'']),
      (''research.wave.completed'', [''wave_id'', ''mode'', ''task_ids'', ''task_count'', ''completed'', ''failed'',
        ''rejected'']),
      (''research.task.created'', [''task_id'', ''wave_id'', ''plan_task_id'', ''title'', ''mode'', ''status'', ''phase'']),
      (''research.task.started'', [''task_id'', ''wave_id'', ''plan_task_id'', ''title'', ''mode'', ''status'', ''phase'']),
      (''research.task.progress'', [''task_id'', ''wave_id'', ''mode'', ''status'', ''phase'', ''iteration'',
        ''source_count'', ''tool_categories'', ''activity_phase'', ''activity_label'', ''last_activity_at'',
        ''activity_event_count'', ''model_call_count'', ''tool_call_count'', ''retry_count'', ''warning_count'',
        ''activity_available'']),
      (''research.source.discovered'', [''task_id'', ''source_id'', ''title'', ''domain'', ''url'']),
      (''research.task.completed'', [''task_id'', ''wave_id'', ''mode'', ''status'', ''phase'', ''elapsed_ms'',
        ''source_count'', ''admission_status'', ''reason_code'', ''summary_status'', ''message'']),
      (''research.task.failed'', [''task_id'', ''wave_id'', ''mode'', ''status'', ''phase'', ''elapsed_ms'',
        ''error_code'', ''message'']),
      (''research.task.cancelled'', [''task_id'', ''wave_id'', ''mode'', ''status'', ''phase'', ''elapsed_ms'']),
      (''research.task.timed_out'', [''task_id'', ''wave_id'', ''mode'', ''status'', ''phase'', ''elapsed_ms'',
        ''error_code'', ''message'']),
      (''findings.updated'', [''task_id'', ''wave_id'', ''summary'', ''sources'', ''source_count'']),
      (''report.started'', [''status'']),
      (''report.completed'', [''status'', ''result_ref'', ''sha256'', ''length'']),
      (''approval.required'', [''action_id'', ''approval_type'', ''status'', ''plan_id'', ''revision'',
        ''content_markdown'', ''allowed_actions'']),
      (''approval.resolved'', [''action_id'', ''approval_type'', ''action'', ''status'']),
      (''clarification.required'', [''action_id'', ''question'', ''status'', ''allowed_actions'']),
      (''clarification.resolved'', [''action_id'', ''action'', ''status'']),
      (''security.approval.required'', [''approval_id'', ''task_id'', ''kind'', ''capability'', ''target'',
        ''status'', ''expires_at'']),
      (''security.approval.resolved'', [''approval_id'', ''task_id'', ''kind'', ''capability'', ''decision'', ''status'']),
      (''feedback.received'', [''feedback_id'', ''feedback_type'', ''task_id'', ''status'']),
      (''query.model_fallback'', [''turn'', ''from_model'', ''to_model'', ''reason'']),
      (''model.circuit_state'', [''provider'', ''model'', ''from_state'', ''to_state'', ''reason'',
        ''failure_count'', ''slow_count'', ''sample_count'', ''slow_ratio'', ''cooldown_seconds'', ''forced_probe'']),
      (''system.warning'', [''warning_code'', ''message''])]"

definition public_secret :: "string \<Rightarrow> bool" where
  "public_secret = names_secret public_secret_keys"

text \<open>\<open>_sanitize_nested\<close> with the levels left instead of the depth reached.\<close>

fun sanitize_nested :: "nat \<Rightarrow> json \<Rightarrow> json" where
  "sanitize_nested 0 v = JStr ''[TRUNCATED]''"
| "sanitize_nested (Suc n) (JObj d) =
     JObj (map (\<lambda>(k, v). (k, sanitize_nested n v)) (filter (\<lambda>(k, v). \<not> public_secret k) d))"
| "sanitize_nested (Suc n) (JList xs) = JList (map (sanitize_nested n) (take 100 xs))"
| "sanitize_nested (Suc n) (JStr s) = JStr (redact_from public_secret_words False s)"
| "sanitize_nested (Suc n) v = v"

definition allowed_keys :: "string \<Rightarrow> string list" where
  "allowed_keys etype = (case dict_get PAYLOAD_KEYS etype of None \<Rightarrow> COMMON_KEYS | Some ks \<Rightarrow> ks)"

definition sanitize_public_payload :: "string \<Rightarrow> (string, json) dict \<Rightarrow> (string, json) dict" where
  "sanitize_public_payload etype d =
     map (\<lambda>(k, v). (k, sanitize_nested 6 v))
       (filter (\<lambda>(k, v). k \<in> set (allowed_keys etype) \<and> \<not> public_secret k) d)"

section \<open>The store\<close>

datatype public_stage =
  StagePreparing | StagePlanning | StageResearching | StageSynthesizing | StageWriting | StageFinalizing

record public_event =
  pe_event_id :: string
  pe_sequence :: int
  pe_run_id :: string
  pe_type :: string
  pe_timestamp :: seconds
  pe_stage :: "public_stage option"
  pe_payload :: "(string, json) dict"
  pe_dedupe_key :: string

definition is_terminal_event :: "public_event \<Rightarrow> bool" where
  "is_terminal_event e \<longleftrightarrow> pe_type e \<in> set TERMINAL_EVENT_TYPES"

type_synonym event_index = "(int \<times> (string, int) dict) option"

record event_disk =
  run_files :: run_disk
  ev_log :: "string option"
  ev_index :: event_index

record event_store =
  es_run_id :: string
  es_fence :: "int option"
  es_owner :: "string option"

text \<open>\<open>EventMissing\<close> is the \<open>StopIteration\<close> of a key without its event, which is shown not to happen;
  a lost lease has its message.\<close>

datatype event_error =
  TerminalEventConflict | RunAlreadyTerminal | PublicEventLogCorrupted | EventMissing | EventFence string

type_synonym 'a on_events = "(event_error + 'a) \<times> event_disk"

record event_codecs =
  ec_event :: "public_event log_codec"
  ec_journal :: "journal_record log_codec"
  ec_sha :: "string \<Rightarrow> string"
  ec_uuid5 :: "string \<Rightarrow> string"

definition unbound_context :: "string \<Rightarrow> context_store" where
  "unbound_context rid = \<lparr>ctx_run_id = rid, ctx_fence = None, ctx_owner = None\<rparr>"

text \<open>\<open>_fenced_context\<close>: a store bound to the epoch, when both the token and the owner are given.\<close>

definition fenced_context :: "event_codecs \<Rightarrow> event_store \<Rightarrow> seconds \<Rightarrow> run_disk \<Rightarrow> context_store option" where
  "fenced_context c st now d =
     (case (es_fence st, es_owner st) of
        (Some token, Some owner) \<Rightarrow>
          if owner = [] then None
          else Some (fst (snd (bind_fence_token (ec_journal c) (ec_sha c) (unbound_context (es_run_id st)) token owner
                 False now d)))
      | _ \<Rightarrow> None)"

definition fence_message :: "string \<Rightarrow> lease_file \<Rightarrow> string" where
  "fence_message rid l =
     (if l = None then ''Missing Lead lease for run '' @ rid else ''Lost Lead lease for run '' @ rid)"

definition event_guard :: "event_codecs \<Rightarrow> event_store \<Rightarrow> seconds \<Rightarrow> event_disk \<Rightarrow> unit on_events" where
  "event_guard c st now d =
     (case fenced_context c st now (run_files d) of
        None \<Rightarrow> (Inr (), d)
      | Some ctx \<Rightarrow>
          (case fence_guard (ec_journal c) (ec_sha c) ctx now (run_files d) of
             (Inl e, r) \<Rightarrow>
               (Inl (EventFence (fence_message (es_run_id st) (lead_lease (run_files d)))), d\<lparr>run_files := r\<rparr>)
           | (Inr _, r) \<Rightarrow> (Inr (), d\<lparr>run_files := r\<rparr>)))"

definition read_events_unlocked :: "event_codecs \<Rightarrow> string \<Rightarrow> event_disk \<Rightarrow> public_event list on_events" where
  "read_events_unlocked c rid d =
     (case read_log (ec_event c) rid True (ev_log d) of
        (Inl _, l) \<Rightarrow> (Inl PublicEventLogCorrupted, d\<lparr>ev_log := l\<rparr>)
      | (Inr es, l) \<Rightarrow> (Inr es, d\<lparr>ev_log := l\<rparr>))"

definition event_keys :: "public_event list \<Rightarrow> (string, int) dict" where
  "event_keys es = fold (\<lambda>e. dict_set (pe_dedupe_key e) (pe_sequence e)) es []"

definition last_event :: "public_event list \<Rightarrow> int" where
  "last_event es = (if es = [] then 0 else pe_sequence (last es))"

text \<open>Equal dictionaries have the same entries, whatever their order.\<close>

definition same_dict :: "(string, int) dict \<Rightarrow> (string, int) dict \<Rightarrow> bool" where
  "same_dict a b \<longleftrightarrow> list_all (\<lambda>(k, v). dict_get b k = Some v) a \<and> list_all (\<lambda>(k, v). dict_get a k = Some v) b"

definition load_index :: "public_event list \<Rightarrow> event_disk \<Rightarrow> (int \<times> (string, int) dict) \<times> event_disk" where
  "load_index es d =
     (case ev_index d of
        Some (n, keys) \<Rightarrow>
          if n = last_event es \<and> same_dict keys (event_keys es) then ((n, keys), d)
          else ((last_event es, event_keys es), d\<lparr>ev_index := Some (last_event es, event_keys es)\<rparr>)
      | None \<Rightarrow> ((last_event es, event_keys es), d\<lparr>ev_index := Some (last_event es, event_keys es)\<rparr>))"

record event_args =
  ea_type :: string
  ea_stage :: "public_stage option"
  ea_payload :: "(string, json) dict"
  ea_dedupe_key :: string

definition make_event :: "event_codecs \<Rightarrow> event_store \<Rightarrow> event_args \<Rightarrow> int \<Rightarrow> seconds \<Rightarrow> public_event" where
  "make_event c st a n now =
     \<lparr>pe_event_id = ec_uuid5 c (es_run_id st @ '':'' @ ea_dedupe_key a), pe_sequence = n,
      pe_run_id = es_run_id st, pe_type = ea_type a, pe_timestamp = now, pe_stage = ea_stage a,
      pe_payload = sanitize_public_payload (ea_type a) (ea_payload a), pe_dedupe_key = ea_dedupe_key a\<rparr>"

text \<open>What \<open>_append_sync\<close> does under the lock before it writes: an existing event, or the next one
  with the index to extend.\<close>

definition resolve_event ::
    "event_codecs \<Rightarrow> event_store \<Rightarrow> event_args \<Rightarrow> seconds \<Rightarrow> public_event list \<Rightarrow> int \<Rightarrow> (string, int) dict \<Rightarrow>
      event_error + public_event \<times> (string, int) dict option" where
  "resolve_event c st a now es n keys =
     (let terminal = (ea_type a \<in> set TERMINAL_EVENT_TYPES)
      in case dict_get keys (ea_dedupe_key a) of
           Some k \<Rightarrow>
             (case List.find (\<lambda>e. pe_sequence e = k) es of
                None \<Rightarrow> Inl EventMissing
              | Some e \<Rightarrow>
                  if pe_type e \<noteq> ea_type a \<and> (is_terminal_event e \<or> terminal)
                  then Inl TerminalEventConflict else Inr (e, None))
         | None \<Rightarrow>
             if list_ex is_terminal_event es
             then Inl (if terminal then TerminalEventConflict else RunAlreadyTerminal)
             else Inr (make_event c st a (n + 1) now, Some keys))"

definition decide_event ::
    "event_codecs \<Rightarrow> event_store \<Rightarrow> event_args \<Rightarrow> seconds \<Rightarrow> event_disk \<Rightarrow>
      (public_event \<times> (string, int) dict option) on_events" where
  "decide_event c st a now d =
     (case event_guard c st now d of
        (Inl e, d1) \<Rightarrow> (Inl e, d1)
      | (Inr _, d1) \<Rightarrow>
     (case read_events_unlocked c (es_run_id st) d1 of
        (Inl e, d2) \<Rightarrow> (Inl e, d2)
      | (Inr es, d2) \<Rightarrow>
          (let ((n, keys), d3) = load_index es d2
           in (resolve_event c st a now es n keys, d3))))"

text \<open>The manifest is a cache of the number; whatever goes wrong with it is swallowed.\<close>

definition cache_event_number :: "event_codecs \<Rightarrow> event_store \<Rightarrow> int \<Rightarrow> seconds \<Rightarrow> event_disk \<Rightarrow> event_disk" where
  "cache_event_number c st n now d =
     (let ctx = (case fenced_context c st now (run_files d) of None \<Rightarrow> unbound_context (es_run_id st) | Some x \<Rightarrow> x)
      in if manifest_cell (run_files d) = NoManifest then d
         else d\<lparr>run_files := snd (update_manifest (ec_journal c) (ec_sha c) ctx False False (es_fence st \<noteq> None)
                [SetLastPublicEventSeq n] now (run_files d))\<rparr>)"

definition append_sync ::
    "event_codecs \<Rightarrow> event_store \<Rightarrow> event_args \<Rightarrow> seconds \<Rightarrow> event_disk \<Rightarrow> public_event on_events" where
  "append_sync c st a now d =
     (case decide_event c st a now d of
        (Inl e, d1) \<Rightarrow> (Inl e, d1)
      | (Inr (e, None), d1) \<Rightarrow> (Inr e, d1)
      | (Inr (e, Some keys), d1) \<Rightarrow>
          (Inr e, cache_event_number c st (pe_sequence e) now
             (d1\<lparr>ev_log := append_bytes (log_line (ec_event c) e) (ev_log d1),
                 ev_index := Some (pe_sequence e, dict_set (ea_dedupe_key a) (pe_sequence e) keys)\<rparr>)))"

section \<open>Failures are recorded in the manifest\<close>

fun event_error_text :: "event_error \<Rightarrow> string" where
  "event_error_text TerminalEventConflict = ''terminal_event_conflict''"
| "event_error_text RunAlreadyTerminal = ''run_already_terminal''"
| "event_error_text PublicEventLogCorrupted = ''public_event_log_corrupted''"
| "event_error_text EventMissing = []"
| "event_error_text (EventFence message) = message"

definition mark_failed :: "event_codecs \<Rightarrow> string \<Rightarrow> event_error \<Rightarrow> seconds \<Rightarrow> event_disk \<Rightarrow> event_disk" where
  "mark_failed c rid e now d =
     (if manifest_cell (run_files d) = NoManifest then d
      else d\<lparr>run_files := mark_event_persistence_failed (ec_journal c) (ec_sha c) (unbound_context rid)
             (event_error_text e) now (run_files d)\<rparr>)"

definition append_event ::
    "event_codecs \<Rightarrow> event_store \<Rightarrow> event_args \<Rightarrow> seconds \<Rightarrow> event_disk \<Rightarrow> public_event on_events" where
  "append_event c st a now d =
     (case append_sync c st a now d of
        (Inr e, d1) \<Rightarrow> (Inr e, d1)
      | (Inl e, d1) \<Rightarrow>
          (Inl e, if e \<in> {TerminalEventConflict, RunAlreadyTerminal} then d1 else mark_failed c (es_run_id st) e now d1))"

definition read_events_locked :: "event_codecs \<Rightarrow> string \<Rightarrow> seconds \<Rightarrow> event_disk \<Rightarrow> public_event list on_events" where
  "read_events_locked c rid now d =
     (case read_events_unlocked c rid d of
        (Inr es, d1) \<Rightarrow> (Inr es, d1)
      | (Inl e, d1) \<Rightarrow> (Inl e, mark_failed c rid e now d1))"

definition read_after :: "event_codecs \<Rightarrow> event_store \<Rightarrow> int \<Rightarrow> seconds \<Rightarrow> event_disk \<Rightarrow> public_event list on_events" where
  "read_after c st after now d =
     (if ev_log d = None then (Inr [], d)
      else case read_events_locked c (es_run_id st) now d of
        (Inl e, d1) \<Rightarrow> (Inl e, d1)
      | (Inr es, d1) \<Rightarrow> (Inr (filter (\<lambda>e. after < pe_sequence e) es), d1))"

definition last_sequence :: "event_codecs \<Rightarrow> event_store \<Rightarrow> seconds \<Rightarrow> event_disk \<Rightarrow> int on_events" where
  "last_sequence c st now d =
     (if ev_log d = None then (Inr 0, d)
      else case read_events_locked c (es_run_id st) now d of
        (Inl e, d1) \<Rightarrow> (Inl e, d1)
      | (Inr es, d1) \<Rightarrow> (Inr (last_event es), d1))"

section \<open>The log stays readable\<close>

definition event_codec :: "event_codecs \<Rightarrow> bool" where
  "event_codec c \<longleftrightarrow> codec_ok (ec_event c) \<and> lc_seq (ec_event c) = pe_sequence \<and> lc_run (ec_event c) = pe_run_id"

text \<open>Keys are used once, and nothing follows a terminal event.\<close>

definition stream_ok :: "public_event list \<Rightarrow> bool" where
  "stream_ok es \<longleftrightarrow> distinct (map pe_dedupe_key es) \<and> \<not> list_ex is_terminal_event (butlast es)"

definition events_ok :: "event_codecs \<Rightarrow> string \<Rightarrow> public_event list \<Rightarrow> event_disk \<Rightarrow> bool" where
  "events_ok c rid es d \<longleftrightarrow> log_holds (ec_event c) rid es (ev_log d) \<and> stream_ok es"

text \<open>After a read there is no unfinished line left.\<close>

definition events_clean :: "event_codecs \<Rightarrow> string \<Rightarrow> public_event list \<Rightarrow> event_disk \<Rightarrow> bool" where
  "events_clean c rid es d \<longleftrightarrow> events_ok c rid es d \<and> log_bytes (ev_log d) = log_text (ec_event c) es"

lemma events_clean_cong: "ev_log d' = ev_log d \<Longrightarrow> events_clean c rid es d' = events_clean c rid es d"
  by (simp add: events_clean_def events_ok_def)

lemma events_ok_cong: "ev_log d' = ev_log d \<Longrightarrow> events_ok c rid es d' = events_ok c rid es d"
  by (simp add: events_ok_def)

lemma events_numbered:
  assumes "event_codec c" "events_ok c rid es d" "i < length es"
  shows "pe_sequence (es ! i) = int i + 1"
  using assms numbered_nth[of "ec_event c" rid 1 es i]
  by (simp add: event_codec_def events_ok_def log_holds_def)

lemma events_seqs:
  assumes "event_codec c" "events_ok c rid es d"
  shows "map pe_sequence es = map int [1..<length es + 1]"
  by (rule nth_equalityI) (use events_numbered[OF assms] in \<open>auto simp del: upt_Suc\<close>)

lemma last_event_length:
  assumes "event_codec c" "events_ok c rid es d"
  shows "last_event es = int (length es)"
  using events_numbered[OF assms, of "length es - 1"]
  by (cases es) (auto simp: last_event_def last_conv_nth)

lemma read_events_ok:
  assumes "event_codec c" "events_ok c rid es d" "read_events_unlocked c rid d = (r, d')"
  shows "r = Inr es" "events_clean c rid es d'" "run_files d' = run_files d"
proof -
  from assms(1,2) have codec: "codec_ok (ec_event c)" and holds: "log_holds (ec_event c) rid es (ev_log d)"
    by (auto simp: event_codec_def events_ok_def)
  obtain x l where rl: "read_log (ec_event c) rid True (ev_log d) = (x, l)" by fastforce
  with read_log_holds[OF codec holds] have x: "x = Inr es" "log_bytes l = log_text (ec_event c) es" by auto
  with rl assms(3) have d': "r = Inr es" "d' = d\<lparr>ev_log := l\<rparr>" by (auto simp: read_events_unlocked_def)
  show "r = Inr es" "run_files d' = run_files d" using d' by simp_all
  from holds have "numbered_from (ec_event c) rid 1 es" by (simp add: log_holds_def)
  with x d' assms(2) show "events_clean c rid es d'"
    by (auto simp: events_clean_def events_ok_def intro!: log_holds_clean)
qed

lemma event_guard_log:
  "event_guard c st now d = (r, d') \<Longrightarrow> ev_log d' = ev_log d \<and> ev_index d' = ev_index d"
  by (auto simp: event_guard_def split: option.splits prod.splits sum.splits)

lemma same_dict_get:
  assumes "same_dict a b"
  shows "dict_get a k = dict_get b k"
proof (cases "dict_get a k")
  case None
  moreover have "dict_get b k = None"
  proof (cases "dict_get b k")
    case (Some v)
    then have "(k, v) \<in> set b" by (rule dict_get_in)
    with assms None show ?thesis by (fastforce simp: same_dict_def list_all_iff)
  qed
  ultimately show ?thesis by simp
next
  case (Some v)
  then have "(k, v) \<in> set a" by (rule dict_get_in)
  with assms Some show ?thesis by (fastforce simp: same_dict_def list_all_iff)
qed

lemma find_snoc:
  "List.find P (xs @ [x]) = (case List.find P xs of Some y \<Rightarrow> Some y | None \<Rightarrow> if P x then Some x else None)"
  by (induction xs) auto

lemma event_keys_fold:
  "dict_get (fold (\<lambda>e. dict_set (pe_dedupe_key e) (pe_sequence e)) es acc) k =
    (case List.find (\<lambda>e. pe_dedupe_key e = k) (rev es) of
       Some e \<Rightarrow> Some (pe_sequence e) | None \<Rightarrow> dict_get acc k)"
  by (induction es arbitrary: acc) (auto simp: find_snoc split: option.splits)

lemma event_keys_get:
  assumes "dict_get (event_keys es) k = Some i"
  obtains e where "e \<in> set es" "pe_dedupe_key e = k" "pe_sequence e = i"
  using assms unfolding event_keys_def event_keys_fold
  by (auto split: option.splits simp: find_Some_iff) (metis nth_mem set_rev length_rev)

lemma event_keys_none: "dict_get (event_keys es) k = None \<longleftrightarrow> k \<notin> pe_dedupe_key ` set es"
  unfolding event_keys_def event_keys_fold
  by (auto split: option.splits simp: find_None_iff find_Some_iff) (metis nth_mem set_rev length_rev image_eqI)

lemma load_index_ok:
  assumes "load_index es d = ((n, keys), d')"
  shows "n = last_event es" "dict_get keys k = dict_get (event_keys es) k" "ev_log d' = ev_log d"
    "run_files d' = run_files d"
  using assms same_dict_get[of _ "event_keys es" k]
  by (auto simp: load_index_def split: option.splits if_splits)

text \<open>What the decision taken under the lock can be.\<close>

lemma event_of_number:
  assumes "event_codec c" "events_ok c rid es d" "e \<in> set es"
  shows "List.find (\<lambda>x. pe_sequence x = pe_sequence e) es = Some e"
proof -
  from assms(3) obtain i where i: "i < length es" "es ! i = e" by (auto simp: in_set_conv_nth)
  have "pe_sequence (es ! j) \<noteq> pe_sequence e" if "j < i" for j
    using events_numbered[OF assms(1,2), of j] events_numbered[OF assms(1,2), of i] i that by auto
  with i show ?thesis by (auto simp: find_Some_iff)
qed

lemma same_key_same_event:
  "stream_ok es \<Longrightarrow> x \<in> set es \<Longrightarrow> y \<in> set es \<Longrightarrow> pe_dedupe_key x = pe_dedupe_key y \<Longrightarrow> x = y"
  by (auto simp: stream_ok_def distinct_map inj_on_def)

lemma decide_event_read:
  assumes "event_codec c" "events_ok c (es_run_id st) es d" "event_guard c st now d = (Inr u, d1)"
  obtains keys d3 where "\<And>k. dict_get keys k = dict_get (event_keys es) k"
    "events_clean c (es_run_id st) es d3"
    "decide_event c st a now d = (resolve_event c st a now es (int (length es)) keys, d3)"
proof -
  have ok1: "events_ok c (es_run_id st) es d1"
    using assms(2) event_guard_log[OF assms(3)] events_ok_cong by metis
  obtain x d2 where read: "read_events_unlocked c (es_run_id st) d1 = (x, d2)" by fastforce
  note x = read_events_ok[OF assms(1) ok1 read]
  obtain n keys d3 where ix: "load_index es d2 = ((n, keys), d3)" by (metis surj_pair)
  note ix' = load_index_ok[OF ix]
  have clean: "events_clean c (es_run_id st) es d3" using x(2) ix'(3) events_clean_cong by metis
  have n: "n = int (length es)" using ix'(1) last_event_length[OF assms(1) ok1] by simp
  show thesis
    by (rule that[OF ix'(2) clean]) (simp add: decide_event_def assms(3) read x(1) ix n)
qed

lemma event_guard_error: "event_guard c st now d = (Inl x, d1) \<Longrightarrow> \<exists>message. x = EventFence message"
  by (auto simp: event_guard_def split: option.splits prod.splits sum.splits)

text \<open>A key that is taken, and a fresh one.\<close>

lemma resolve_known:
  assumes "event_codec c" "events_ok c rid es d" "\<And>k. dict_get keys k = dict_get (event_keys es) k"
    and "e \<in> set es" "pe_dedupe_key e = ea_dedupe_key a"
  shows "resolve_event c st a now es n keys =
    (if pe_type e \<noteq> ea_type a \<and> (is_terminal_event e \<or> ea_type a \<in> set TERMINAL_EVENT_TYPES)
     then Inl TerminalEventConflict else Inr (e, None))"
proof -
  obtain k where k: "dict_get (event_keys es) (ea_dedupe_key a) = Some k"
    using event_keys_none[of es "ea_dedupe_key a"] assms(4,5)
    by (cases "dict_get (event_keys es) (ea_dedupe_key a)") (auto simp: image_iff)
  then obtain x where x: "x \<in> set es" "pe_dedupe_key x = ea_dedupe_key a" "pe_sequence x = k"
    by (rule event_keys_get)
  with assms(2,4,5) have "x = e" using same_key_same_event[of es x e] by (simp add: events_ok_def)
  with x event_of_number[OF assms(1,2,4)] have "List.find (\<lambda>e. pe_sequence e = k) es = Some e" by simp
  with k assms(3)[of "ea_dedupe_key a"] show ?thesis by (simp add: resolve_event_def)
qed

lemma resolve_fresh:
  assumes "\<And>k. dict_get keys k = dict_get (event_keys es) k" "ea_dedupe_key a \<notin> pe_dedupe_key ` set es"
  shows "resolve_event c st a now es n keys =
    (if list_ex is_terminal_event es
     then Inl (if ea_type a \<in> set TERMINAL_EVENT_TYPES then TerminalEventConflict else RunAlreadyTerminal)
     else Inr (make_event c st a (n + 1) now, Some keys))"
proof -
  have "dict_get keys (ea_dedupe_key a) = None" using assms event_keys_none by metis
  then show ?thesis by (simp add: resolve_event_def)
qed

lemma decide_event_cases:
  assumes "event_codec c" "events_ok c (es_run_id st) es d" "decide_event c st a now d = (r, d')"
  obtains (Error) err where "r = Inl err" "err \<noteq> EventMissing" "err \<noteq> PublicEventLogCorrupted"
      "events_ok c (es_run_id st) es d'"
  | (Old) e where "r = Inr (e, None)" "e \<in> set es" "pe_dedupe_key e = ea_dedupe_key a"
      "events_clean c (es_run_id st) es d'"
  | (New) keys where "r = Inr (make_event c st a (int (length es) + 1) now, Some keys)"
      "\<not> list_ex is_terminal_event es" "ea_dedupe_key a \<notin> pe_dedupe_key ` set es"
      "events_clean c (es_run_id st) es d'"
proof -
  obtain g d1 where guard: "event_guard c st now d = (g, d1)" by fastforce
  show thesis
  proof (cases g)
    case (Inl x)
    have "events_ok c (es_run_id st) es d1"
      using assms(2) event_guard_log[OF guard] events_ok_cong by metis
    moreover from Inl guard obtain message where "x = EventFence message" using event_guard_error by metis
    moreover have "r = Inl x" "d' = d1" using Inl guard assms(3) by (simp_all add: decide_event_def)
    ultimately show thesis using Error[of x] by simp
  next
    case (Inr u)
    with guard have guard': "event_guard c st now d = (Inr u, d1)" by simp
    from decide_event_read[OF assms(1,2) guard', of a] obtain keys d3
      where keys: "\<And>k. dict_get keys k = dict_get (event_keys es) k"
        and clean: "events_clean c (es_run_id st) es d3"
        and dec: "decide_event c st a now d = (resolve_event c st a now es (int (length es)) keys, d3)"
      by metis
    from dec assms(3) have r: "r = resolve_event c st a now es (int (length es)) keys" "d' = d3" by simp_all
    from clean have ok3: "events_ok c (es_run_id st) es d3" by (simp add: events_clean_def)
    show thesis
    proof (cases "\<exists>e\<in>set es. pe_dedupe_key e = ea_dedupe_key a")
      case True
      then obtain e where e: "e \<in> set es" "pe_dedupe_key e = ea_dedupe_key a" by blast
      note known = resolve_known[OF assms(1) ok3 keys e, of st now "int (length es)"]
      then consider "r = Inl TerminalEventConflict" | "r = Inr (e, None)" using r(1) by (auto split: if_splits)
      then show thesis using Error[of TerminalEventConflict] Old[of e] e clean ok3 r(2) by cases auto
    next
      case False
      then have fresh: "ea_dedupe_key a \<notin> pe_dedupe_key ` set es" by auto
      note made = resolve_fresh[OF keys fresh, of c st now "int (length es)"]
      show thesis
      proof (cases "list_ex is_terminal_event es")
        case True
        with made r ok3 Error show thesis by auto
      next
        case False
        with made r clean fresh New show thesis by auto
      qed
    qed
  qed
qed

text \<open>A new event extends the log by one record; the manifest is another file.\<close>

lemma cache_event_number_log [simp]:
  "ev_log (cache_event_number c st n now d) = ev_log d" "ev_index (cache_event_number c st n now d) = ev_index d"
  by (simp_all add: cache_event_number_def Let_def)

lemma mark_failed_log [simp]:
  "ev_log (mark_failed c rid e now d) = ev_log d" "ev_index (mark_failed c rid e now d) = ev_index d"
  by (simp_all add: mark_failed_def)

lemma stream_ok_snoc:
  "\<not> list_ex is_terminal_event es \<Longrightarrow> pe_dedupe_key e \<notin> pe_dedupe_key ` set es \<Longrightarrow> stream_ok es \<Longrightarrow>
    stream_ok (es @ [e])"
  by (auto simp: stream_ok_def)

lemma make_event_fields [simp]:
  "pe_sequence (make_event c st a n now) = n" "pe_run_id (make_event c st a n now) = es_run_id st"
  "pe_type (make_event c st a n now) = ea_type a" "pe_dedupe_key (make_event c st a n now) = ea_dedupe_key a"
  "pe_payload (make_event c st a n now) = sanitize_public_payload (ea_type a) (ea_payload a)"
  by (simp_all add: make_event_def)

lemma write_event_ok:
  assumes "event_codec c" "events_clean c (es_run_id st) es d" "\<not> list_ex is_terminal_event es"
    and "ea_dedupe_key a \<notin> pe_dedupe_key ` set es"
    and "ev_log d' = append_bytes (log_line (ec_event c) (make_event c st a (int (length es) + 1) now)) (ev_log d)"
  shows "events_clean c (es_run_id st) (es @ [make_event c st a (int (length es) + 1) now]) d'"
proof -
  let ?e = "make_event c st a (int (length es) + 1) now"
  from assms(2) have b: "log_bytes (ev_log d) = log_text (ec_event c) es"
    and num: "numbered_from (ec_event c) (es_run_id st) 1 es" and st: "stream_ok es"
    by (auto simp: events_clean_def events_ok_def log_holds_def)
  have "lc_run (ec_event c) ?e = es_run_id st" "lc_seq (ec_event c) ?e = int (length es) + 1"
    using assms(1) by (simp_all add: event_codec_def)
  from append_holds[OF b num this] stream_ok_snoc[OF assms(3) _ st, of ?e] assms(4,5)
  show ?thesis by (simp add: events_clean_def events_ok_def)
qed

lemma append_sync_cases:
  assumes "event_codec c" "events_ok c (es_run_id st) es d" "append_sync c st a now d = (r, d')"
  obtains (Error) err where "r = Inl err" "err \<noteq> EventMissing" "err \<noteq> PublicEventLogCorrupted"
      "events_ok c (es_run_id st) es d'"
  | (Old) e where "r = Inr e" "e \<in> set es" "pe_dedupe_key e = ea_dedupe_key a"
      "events_clean c (es_run_id st) es d'"
  | (New) e where "r = Inr e" "e = make_event c st a (int (length es) + 1) now"
      "ea_dedupe_key a \<notin> pe_dedupe_key ` set es" "\<not> list_ex is_terminal_event es"
      "events_clean c (es_run_id st) (es @ [e]) d'"
proof -
  obtain x d1 where dec: "decide_event c st a now d = (x, d1)" by fastforce
  from assms(1,2) dec show thesis
  proof (cases rule: decide_event_cases)
    case (Error err)
    with assms(3) dec have "r = Inl err" "d' = d1" by (simp_all add: append_sync_def)
    with Error that(1) show thesis by blast
  next
    case (Old e)
    with assms(3) dec have "r = Inr e" "d' = d1" by (simp_all add: append_sync_def)
    with Old that(2) show thesis by blast
  next
    case (New keys)
    from assms(3) dec New(1) have "r = Inr (make_event c st a (int (length es) + 1) now)"
      "ev_log d' = append_bytes (log_line (ec_event c) (make_event c st a (int (length es) + 1) now)) (ev_log d1)"
      by (auto simp: append_sync_def)
    with New write_event_ok[OF assms(1) New(4,2,3)] that(3) show thesis by blast
  qed
qed

lemma append_event_cases:
  assumes "event_codec c" "events_ok c (es_run_id st) es d" "append_event c st a now d = (r, d')"
  obtains (Error) err where "r = Inl err" "err \<noteq> EventMissing" "err \<noteq> PublicEventLogCorrupted"
      "events_ok c (es_run_id st) es d'"
  | (Old) e where "r = Inr e" "e \<in> set es" "pe_dedupe_key e = ea_dedupe_key a"
      "events_clean c (es_run_id st) es d'"
  | (New) e where "r = Inr e" "e = make_event c st a (int (length es) + 1) now"
      "ea_dedupe_key a \<notin> pe_dedupe_key ` set es" "\<not> list_ex is_terminal_event es"
      "events_clean c (es_run_id st) (es @ [e]) d'"
proof -
  obtain x d1 where app: "append_sync c st a now d = (x, d1)" by fastforce
  have log: "ev_log d' = ev_log d1" and r: "r = x"
    using assms(3) app by (auto simp: append_event_def split: sum.splits if_splits)
  from assms(1,2) app show thesis
  proof (cases rule: append_sync_cases)
    case (Error err)
    with that(1) r log show thesis by (metis events_ok_cong)
  next
    case (Old e)
    with that(2) r log show thesis by (metis events_clean_cong)
  next
    case (New e)
    with that(3) r log show thesis by (metis events_clean_cong)
  qed
qed

section \<open>Published payloads\<close>

text \<open>No field with a secret's name, at any depth.\<close>

lemma sanitize_nested_entries: "(k, v) \<in> set (entries (sanitize_nested n x)) \<Longrightarrow> \<not> public_secret k"
proof (induction n x arbitrary: k v rule: sanitize_nested.induct)
  case (2 n d)
  then show ?case by (fastforce split: prod.splits)
next
  case (3 n xs)
  then show ?case by (fastforce dest: in_set_takeD)
qed auto

definition payload_clean :: "public_event \<Rightarrow> bool" where
  "payload_clean e \<longleftrightarrow> list_all (\<lambda>(k, v). \<not> public_secret k) (entries (JObj (pe_payload e))) \<and>
     list_all (\<lambda>(k, v). k \<in> set (allowed_keys (pe_type e))) (pe_payload e)"

lemma sanitize_public_payload_in:
  assumes "(k, v) \<in> set (sanitize_public_payload t d)"
  shows "k \<in> set (allowed_keys t)" "\<not> public_secret k" "\<exists>x. v = sanitize_nested 6 x"
  using assms by (auto simp: sanitize_public_payload_def simp del: sanitize_nested.simps)

lemma make_event_clean: "payload_clean (make_event c st a n now)"
proof -
  have "\<not> public_secret k"
    if kv: "(k, v) \<in> set (entries (JObj (sanitize_public_payload (ea_type a) (ea_payload a))))" for k v
  proof (cases "(k, v) \<in> set (sanitize_public_payload (ea_type a) (ea_payload a))")
    case True
    then show ?thesis by (rule sanitize_public_payload_in(2))
  next
    case False
    with kv obtain k' v' where "(k', v') \<in> set (sanitize_public_payload (ea_type a) (ea_payload a))"
      and kv': "(k, v) \<in> set (entries v')" by auto
    from sanitize_public_payload_in(3)[OF this(1)] obtain x where "v' = sanitize_nested 6 x" by blast
    with kv' sanitize_nested_entries show ?thesis by metis
  qed
  moreover have "k \<in> set (allowed_keys (ea_type a))"
    if "(k, v) \<in> set (sanitize_public_payload (ea_type a) (ea_payload a))" for k v
    using sanitize_public_payload_in(1)[OF that] .
  ultimately show ?thesis
    unfolding payload_clean_def make_event_fields by (auto simp: list_all_iff simp del: entries.simps)
qed

section \<open>Any history of the stream\<close>

text \<open>Stores of the run append and read; a crash in the middle of an append loses the last \<open>lost\<close>
  bytes of the line and what comes after the write, among it the index and the manifest; the index
  may be lost, unreadable or stale, and the other files of the run change in any way.\<close>

datatype stream_event =
  EvAppend event_store event_args seconds
| EvCrash event_store event_args seconds nat
| EvRead event_store int seconds
| EvIndex event_index
| EvRun run_disk

definition append_cut :: "event_codecs \<Rightarrow> event_store \<Rightarrow> event_args \<Rightarrow> seconds \<Rightarrow> nat \<Rightarrow> event_disk \<Rightarrow> event_disk" where
  "append_cut c st a now lost d =
     (case decide_event c st a now d of
        (Inr (e, Some keys), d1) \<Rightarrow>
          (let line = log_line (ec_event c) e
           in d1\<lparr>ev_log := append_bytes (take (length line - lost) line) (ev_log d1)\<rparr>)
      | (_, d1) \<Rightarrow> d1)"

fun stream_step :: "event_codecs \<Rightarrow> event_disk \<Rightarrow> stream_event \<Rightarrow> event_disk" where
  "stream_step c d (EvAppend st a now) = snd (append_event c st a now d)"
| "stream_step c d (EvCrash st a now lost) = append_cut c st a now lost d"
| "stream_step c d (EvRead st after now) = snd (read_after c st after now d)"
| "stream_step c d (EvIndex ix) = d\<lparr>ev_index := ix\<rparr>"
| "stream_step c d (EvRun r) = d\<lparr>run_files := r\<rparr>"

fun stream_event_ok :: "string \<Rightarrow> stream_event \<Rightarrow> bool" where
  "stream_event_ok rid (EvAppend st _ _) \<longleftrightarrow> es_run_id st = rid"
| "stream_event_ok rid (EvCrash st _ _ lost) \<longleftrightarrow> es_run_id st = rid \<and> lost \<noteq> 1"
| "stream_event_ok rid (EvRead st _ _) \<longleftrightarrow> es_run_id st = rid"
| "stream_event_ok rid _ \<longleftrightarrow> True"

lemma append_cut_ok:
  assumes "event_codec c" "events_ok c (es_run_id st) es d" "lost \<noteq> 1"
  shows "\<exists>more. events_ok c (es_run_id st) (es @ more) (append_cut c st a now lost d) \<and> list_all payload_clean more"
proof -
  obtain x d1 where dec: "decide_event c st a now d = (x, d1)" by fastforce
  from assms(1,2) dec show ?thesis
  proof (cases rule: decide_event_cases)
    case (Error err)
    with dec show ?thesis by (intro exI[of _ "[]"]) (simp add: append_cut_def)
  next
    case (Old e)
    with dec show ?thesis by (intro exI[of _ "[]"]) (simp add: append_cut_def events_clean_def)
  next
    case (New keys)
    let ?e = "make_event c st a (int (length es) + 1) now"
    let ?line = "log_line (ec_event c) ?e"
    let ?d = "append_cut c st a now lost d"
    have log: "ev_log ?d = append_bytes (take (length ?line - lost) ?line) (ev_log d1)"
      using dec New(1) by (simp add: append_cut_def Let_def)
    show ?thesis
    proof (cases "lost = 0")
      case True
      with write_event_ok[OF assms(1) New(4,2,3), of ?d now] log
      show ?thesis by (intro exI[of _ "[?e]"]) (simp add: events_clean_def make_event_clean)
    next
      case False
      have "0 < length (lc_dump (ec_event c) ?e)" using assms(1) codec_okD(2)[of "ec_event c"] by (simp add: event_codec_def)
      with False assms(3) have k: "length ?line - lost < length (lc_dump (ec_event c) ?e)"
        by (simp add: log_line_def del: length_greater_0_conv)
      from New(4) have "log_bytes (ev_log d1) = log_text (ec_event c) es"
        "numbered_from (ec_event c) (es_run_id st) 1 es" "stream_ok es"
        by (auto simp: events_clean_def events_ok_def log_holds_def)
      with torn_holds[OF this(1,2) k] log show ?thesis
        by (intro exI[of _ "[]"]) (simp add: events_ok_def)
    qed
  qed
qed

lemma read_locked_ok:
  assumes "event_codec c" "events_ok c rid es d" "read_events_locked c rid now d = (r, d')"
  shows "r = Inr es" "events_clean c rid es d'"
proof -
  obtain x d1 where "read_events_unlocked c rid d = (x, d1)" by fastforce
  from read_events_ok[OF assms(1,2) this] assms(3) this
  show "r = Inr es" "events_clean c rid es d'" by (auto simp: read_events_locked_def)
qed

lemma events_none: "event_codec c \<Longrightarrow> events_ok c rid es d \<Longrightarrow> ev_log d = None \<Longrightarrow> es = []"
  by (cases es) (auto simp: events_ok_def log_holds_def log_bytes_def log_text_def log_line_def)

lemma read_after_ok:
  assumes "event_codec c" "events_ok c (es_run_id st) es d" "read_after c st after now d = (r, d')"
  shows "r = Inr (filter (\<lambda>e. after < pe_sequence e) es)" "events_ok c (es_run_id st) es d'"
proof -
  obtain x d1 where "read_events_locked c (es_run_id st) now d = (x, d1)" by fastforce
  note rd = read_locked_ok[OF assms(1,2) this] this
  show "r = Inr (filter (\<lambda>e. after < pe_sequence e) es)"
    using assms(3) rd events_none[OF assms(1,2)]
    by (auto simp: read_after_def split: if_splits)
  show "events_ok c (es_run_id st) es d'"
    using assms(2,3) rd by (auto simp: read_after_def events_clean_def split: if_splits)
qed

lemma stream_step_ok:
  assumes "event_codec c" "events_ok c rid es d" "stream_event_ok rid e"
  shows "\<exists>more. events_ok c rid (es @ more) (stream_step c d e) \<and> list_all payload_clean more"
proof (cases e)
  case (EvAppend st a now)
  then have rid: "es_run_id st = rid" using assms(3) by simp
  obtain r d' where app: "append_event c st a now d = (r, d')" by fastforce
  have "\<exists>more. events_ok c rid (es @ more) d' \<and> list_all payload_clean more"
    using assms(1) assms(2)[folded rid] app
  proof (cases rule: append_event_cases)
    case (Error err)
    then show ?thesis using rid by (intro exI[of _ "[]"]) simp
  next
    case (Old e)
    then show ?thesis using rid by (intro exI[of _ "[]"]) (simp add: events_clean_def)
  next
    case (New e)
    then show ?thesis using rid by (intro exI[of _ "[e]"]) (simp add: events_clean_def make_event_clean)
  qed
  with EvAppend app show ?thesis by simp
next
  case (EvCrash st a now lost)
  then have rid: "es_run_id st = rid" "lost \<noteq> 1" using assms(3) by simp_all
  from append_cut_ok[OF assms(1) assms(2)[folded rid(1)] rid(2)] rid EvCrash show ?thesis by simp
next
  case (EvRead st after now)
  then have rid: "es_run_id st = rid" using assms(3) by simp
  obtain r d' where "read_after c st after now d = (r, d')" by fastforce
  with read_after_ok(2)[OF assms(1) assms(2)[folded rid] this] rid EvRead
  show ?thesis by (intro exI[of _ "[]"]) simp
next
  case (EvIndex ix)
  with assms(2) show ?thesis by (intro exI[of _ "[]"]) (simp add: events_ok_def)
next
  case (EvRun r)
  with assms(2) show ?thesis by (intro exI[of _ "[]"]) (simp add: events_ok_def)
qed

interpretation event_stream:
  machine "stream_step c" "\<lambda>d. event_codec c \<and> (\<exists>more. events_ok c rid (es @ more) d \<and> list_all payload_clean more)"
    "stream_event_ok rid"
  for c rid es
  by unfold_locales (metis append.assoc stream_step_ok list_all_append)

lemma stream_run_ok:
  assumes "event_codec c" "events_ok c rid es d" "list_all (stream_event_ok rid) evs"
  obtains more where "events_ok c rid (es @ more) (run (stream_step c) d evs)" "list_all payload_clean more"
proof -
  have "event_codec c \<and> (\<exists>more. events_ok c rid (es @ more) d \<and> list_all payload_clean more)"
    using assms(1,2) by (intro conjI exI[of _ "[]"]) simp_all
  from event_stream.inv_run[OF this assms(3)] that show thesis by blast
qed

lemma read_all:
  assumes "event_codec c" "events_ok c (es_run_id st) es d"
  shows "fst (read_after c st 0 now d) = Inr es"
proof -
  obtain r d' where rd: "read_after c st 0 now d = (r, d')" by fastforce
  have "0 < pe_sequence e" if "e \<in> set es" for e
    using that events_numbered[OF assms] by (fastforce simp: in_set_conv_nth)
  then have "filter (\<lambda>e. 0 < pe_sequence e) es = es" by (simp add: filter_id_conv)
  with read_after_ok(1)[OF assms rd] rd show ?thesis by simp
qed

lemma append_event_in:
  assumes "event_codec c" "events_ok c (es_run_id st) es d" "append_event c st a now d = (Inr e, d1)"
  obtains more where "events_ok c (es_run_id st) (es @ more) d1" "e \<in> set (es @ more)"
    "pe_dedupe_key e = ea_dedupe_key a"
  using assms(1,2,3)
proof (cases rule: append_event_cases)
  case (Old x)
  with that[of "[]"] show thesis by (simp add: events_clean_def)
next
  case (New x)
  with that[of "[x]"] show thesis by (simp add: events_clean_def)
qed simp

section \<open>A store for the examples\<close>

instance public_stage :: countable by countable_datatype

definition event_code :: "public_event \<Rightarrow> nat" where
  "event_code e = to_nat (pe_event_id e, pe_sequence e, pe_run_id e, pe_type e, pe_timestamp e, pe_stage e,
     pe_payload e, pe_dedupe_key e)"

definition code_event :: "nat \<Rightarrow> public_event" where
  "code_event n =
     (let (event, number, rid, kind, time, stage, pay, key) = from_nat n
      in \<lparr>pe_event_id = event, pe_sequence = number, pe_run_id = rid, pe_type = kind, pe_timestamp = time,
          pe_stage = stage, pe_payload = pay, pe_dedupe_key = key\<rparr>)"

lemma code_event_code [simp]: "code_event (event_code e) = e"
  by (simp add: code_event_def event_code_def)

definition demo_event_codecs :: event_codecs where
  "demo_event_codecs = \<lparr>ec_event = tally_codec event_code code_event pe_sequence pe_run_id, ec_journal = demo_codec,
     ec_sha = (\<lambda>s. s), ec_uuid5 = (\<lambda>s. s)\<rparr>"

lemma demo_event_codecs_ok: "event_codec demo_event_codecs"
  by (simp add: event_codec_def demo_event_codecs_def tally_codec_ok) (simp add: tally_codec_def)

definition demo_stream :: event_store where
  "demo_stream = \<lparr>es_run_id = ''run'', es_fence = None, es_owner = None\<rparr>"

definition demo_event :: "string \<Rightarrow> string \<Rightarrow> event_args" where
  "demo_event t key = \<lparr>ea_type = t, ea_stage = None, ea_payload = [(''status'', JStr ''running''), (''token'', JStr ''x'')],
     ea_dedupe_key = key\<rparr>"

definition empty_stream :: event_disk where
  "empty_stream = \<lparr>run_files = \<lparr>manifest_cell = NoManifest, journal = None, lead_lease = None, research_brief = None\<rparr>,
     ev_log = None, ev_index = None\<rparr>"

lemma empty_stream_ok: "events_ok c rid [] empty_stream"
  by (simp add: events_ok_def empty_stream_def log_holds_def torn_tail_def log_bytes_def log_text_def stream_ok_def)

lemma demo_append_event:
  "append_event demo_event_codecs demo_stream a now empty_stream =
     (let e = make_event demo_event_codecs demo_stream a 1 now
      in (Inr e, empty_stream\<lparr>ev_log := Some (log_line (ec_event demo_event_codecs) e),
            ev_index := Some (1, [(ea_dedupe_key a, 1)])\<rparr>))"
  by (simp add: append_event_def append_sync_def decide_event_def event_guard_def fenced_context_def demo_stream_def
      empty_stream_def read_events_unlocked_def read_log_def load_index_def event_keys_def last_event_def
      resolve_event_def
      cache_event_number_def append_bytes_def log_bytes_def make_event_def Let_def)

section \<open>Properties\<close>

text \<open>C16. A public event that was returned is durable and stays at its place: whatever stores of the run
  do later, with crashes that tear lines anywhere but at the line break, with the index lost or
  stale and the other files changing, a reader gets the events that were there, extended, numbered
  from one on without a gap, with distinct deduplication keys, no event after a terminal one, and
  this event under its number.\<close>

theorem public_event_durable:
  assumes "event_codec c" "events_ok c (es_run_id st) es d"
    and "append_event c st a now d = (Inr e, d1)"
    and "list_all (stream_event_ok (es_run_id st)) evs"
  shows "\<exists>more. fst (read_after c st 0 later (run (stream_step c) d1 evs)) = Inr (es @ more) \<and>
    (es @ more) ! nat (pe_sequence e - 1) = e \<and> pe_sequence e \<le> int (length (es @ more)) \<and>
    map pe_sequence (es @ more) = map int [1..<length (es @ more) + 1] \<and>
    distinct (map pe_dedupe_key (es @ more)) \<and> \<not> list_ex is_terminal_event (butlast (es @ more))"
proof -
  from append_event_in[OF assms(1-3)] obtain m1
    where m1: "events_ok c (es_run_id st) (es @ m1) d1" "e \<in> set (es @ m1)" by blast
  from stream_run_ok[OF assms(1) m1(1) assms(4)] obtain m2
    where ok: "events_ok c (es_run_id st) (es @ m1 @ m2) (run (stream_step c) d1 evs)" by (metis append.assoc)
  let ?all = "es @ m1 @ m2"
  note num = events_numbered[OF assms(1) ok] and seqs = events_seqs[OF assms(1) ok]
  from m1(2) obtain i where i: "i < length ?all" "?all ! i = e" by (metis append.assoc in_set_conv_nth in_set_conv_decomp Un_iff set_append)
  with num[of i] have "nat (pe_sequence e - 1) = i" "pe_sequence e \<le> int (length ?all)" by auto
  with i read_all[OF assms(1) ok, of later] seqs ok show ?thesis
    by (intro exI[of _ "m1 @ m2"]) (simp add: events_ok_def stream_ok_def)
qed

text \<open>An append whose key is taken.\<close>

lemma append_event_known:
  assumes "event_codec c" "events_ok c (es_run_id st) es d" "e \<in> set es" "pe_dedupe_key e = ea_dedupe_key a"
    and "append_event c st a now d = (r, d')"
  shows "events_ok c (es_run_id st) es d'" and "(\<exists>message. r = Inl (EventFence message) \<and> es_fence st \<noteq> None) \<or>
    r = (if pe_type e \<noteq> ea_type a \<and> (is_terminal_event e \<or> ea_type a \<in> set TERMINAL_EVENT_TYPES)
         then Inl TerminalEventConflict else Inr e)"
proof -
  have "events_ok c (es_run_id st) es d' \<and> ((\<exists>message. r = Inl (EventFence message) \<and> es_fence st \<noteq> None) \<or>
    r = (if pe_type e \<noteq> ea_type a \<and> (is_terminal_event e \<or> ea_type a \<in> set TERMINAL_EVENT_TYPES)
         then Inl TerminalEventConflict else Inr e))"
  proof (cases "event_guard c st now d")
    case (Pair g d1)
    have ok1: "events_ok c (es_run_id st) es d1"
      using assms(2) event_guard_log[OF Pair] events_ok_cong by metis
    show ?thesis
    proof (cases g)
      case (Inl x)
      with Pair event_guard_error obtain message where x: "x = EventFence message" by metis
      from Inl Pair have "es_fence st \<noteq> None"
        by (auto simp: event_guard_def fenced_context_def split: option.splits)
      moreover from Inl Pair x assms(5) have "r = Inl x" "ev_log d' = ev_log d1"
        by (auto simp: append_event_def append_sync_def decide_event_def)
      ultimately show ?thesis using x ok1 events_ok_cong by metis
    next
      case (Inr u)
      with Pair have guard: "event_guard c st now d = (Inr u, d1)" by simp
      from decide_event_read[OF assms(1,2) guard, of a] obtain keys d3
        where keys: "\<And>k. dict_get keys k = dict_get (event_keys es) k"
          and clean: "events_clean c (es_run_id st) es d3"
          and dec: "decide_event c st a now d = (resolve_event c st a now es (int (length es)) keys, d3)"
        by metis
      from clean have ok3: "events_ok c (es_run_id st) es d3" by (simp add: events_clean_def)
      from resolve_known[OF assms(1) ok3 keys assms(3,4)] dec assms(5) ok3 show ?thesis
        by (auto simp: append_event_def append_sync_def split: if_splits)
    qed
  qed
  then show "events_ok c (es_run_id st) es d'" and "(\<exists>message. r = Inl (EventFence message) \<and> es_fence st \<noteq> None) \<or>
    r = (if pe_type e \<noteq> ea_type a \<and> (is_terminal_event e \<or> ea_type a \<in> set TERMINAL_EVENT_TYPES)
         then Inl TerminalEventConflict else Inr e)" by blast+
qed

theorem public_event_durable_witness:
  "let e = make_event demo_event_codecs demo_stream (demo_event ''run.started'' ''k1'') 1 5;
       d = snd (append_event demo_event_codecs demo_stream (demo_event ''run.started'' ''k1'') 5 empty_stream)
   in \<exists>more. fst (read_after demo_event_codecs demo_stream 0 9 (run (stream_step demo_event_codecs) d
        [EvCrash demo_stream (demo_event ''run.failed'' ''k2'') 6 3, EvIndex None,
         EvAppend demo_stream (demo_event ''run.completed'' ''k2'') 7])) = Inr ([] @ more) \<and>
      ([] @ more) ! nat (pe_sequence e - 1) = e"
proof -
  let ?a = "demo_event ''run.started'' ''k1''"
  have rid: "es_run_id demo_stream = ''run''" by (simp add: demo_stream_def)
  have app: "append_event demo_event_codecs demo_stream ?a 5 empty_stream =
      (Inr (make_event demo_event_codecs demo_stream ?a 1 5),
       snd (append_event demo_event_codecs demo_stream ?a 5 empty_stream))"
    by (simp add: demo_append_event Let_def)
  have evs: "list_all (stream_event_ok (es_run_id demo_stream))
      [EvCrash demo_stream (demo_event ''run.failed'' ''k2'') 6 3, EvIndex None,
       EvAppend demo_stream (demo_event ''run.completed'' ''k2'') 7]" by simp
  from public_event_durable[OF demo_event_codecs_ok empty_stream_ok app evs, of 9]
  show ?thesis unfolding Let_def by blast
qed

text \<open>C17. Publishing is idempotent: once an event is stored, a later append with its key, by any store of
  the run and after any history, loses its lease, or is refused because the types differ and one of
  them is terminal, or returns the stored event; in each case readers find the events they did.\<close>

theorem public_append_idempotent:
  assumes "event_codec c" "events_ok c (es_run_id st) es d"
    and "append_event c st a now d = (Inr e, d1)"
    and "list_all (stream_event_ok (es_run_id st)) evs"
    and "es_run_id st' = es_run_id st" "ea_dedupe_key a' = ea_dedupe_key a"
    and "append_event c st' a' now' (run (stream_step c) d1 evs) = (r, d2)"
  shows "((\<exists>message. r = Inl (EventFence message) \<and> es_fence st' \<noteq> None) \<or>
      r = (if pe_type e \<noteq> ea_type a' \<and> (is_terminal_event e \<or> ea_type a' \<in> set TERMINAL_EVENT_TYPES)
           then Inl TerminalEventConflict else Inr e)) \<and>
    fst (read_after c st 0 later d2) = fst (read_after c st 0 later (run (stream_step c) d1 evs))"
proof -
  from append_event_in[OF assms(1-3)] obtain m1 where m1: "events_ok c (es_run_id st) (es @ m1) d1"
    "e \<in> set (es @ m1)" "pe_dedupe_key e = ea_dedupe_key a" by blast
  from stream_run_ok[OF assms(1) m1(1) assms(4)] obtain m2
    where ok: "events_ok c (es_run_id st) ((es @ m1) @ m2) (run (stream_step c) d1 evs)" by metis
  let ?all = "(es @ m1) @ m2"
  have e: "e \<in> set ?all" "pe_dedupe_key e = ea_dedupe_key a'" using m1(2,3) assms(6) by auto
  from append_event_known[OF assms(1) _ e assms(7)] ok assms(5)
  have "events_ok c (es_run_id st) ?all d2" and r: "(\<exists>message. r = Inl (EventFence message) \<and> es_fence st' \<noteq> None) \<or>
      r = (if pe_type e \<noteq> ea_type a' \<and> (is_terminal_event e \<or> ea_type a' \<in> set TERMINAL_EVENT_TYPES)
           then Inl TerminalEventConflict else Inr e)" by auto
  with read_all[OF assms(1) this(1)] read_all[OF assms(1) ok] show ?thesis by simp
qed

theorem public_append_idempotent_witness:
  "let e = make_event demo_event_codecs demo_stream (demo_event ''run.started'' ''k1'') 1 5;
       d = snd (append_event demo_event_codecs demo_stream (demo_event ''run.started'' ''k1'') 5 empty_stream);
       r = append_event demo_event_codecs demo_stream (demo_event ''run.completed'' ''k1'') 8 (d\<lparr>ev_index := None\<rparr>)
   in fst r = Inl TerminalEventConflict \<and> fst (read_after demo_event_codecs demo_stream 0 9 (snd r)) = Inr [e]"
proof -
  let ?a = "demo_event ''run.started'' ''k1''" and ?b = "demo_event ''run.completed'' ''k1''"
  let ?e = "make_event demo_event_codecs demo_stream ?a 1 5"
  let ?d = "snd (append_event demo_event_codecs demo_stream ?a 5 empty_stream)"
  let ?r = "append_event demo_event_codecs demo_stream ?b 8 (?d\<lparr>ev_index := None\<rparr>)"
  have app: "append_event demo_event_codecs demo_stream ?a 5 empty_stream = (Inr ?e, ?d)"
    by (simp add: demo_append_event Let_def)
  have "events_ok demo_event_codecs (es_run_id demo_stream) [?e] ?d"
    using demo_event_codecs_ok empty_stream_ok app by (cases rule: append_event_cases) (auto simp: events_clean_def)
  then have ok: "events_ok demo_event_codecs (es_run_id demo_stream) [?e] (?d\<lparr>ev_index := None\<rparr>)"
    by (simp add: events_ok_def)
  have evs: "list_all (stream_event_ok (es_run_id demo_stream)) [EvIndex None]" by simp
  have again: "append_event demo_event_codecs demo_stream ?b 8 (run (stream_step demo_event_codecs) ?d [EvIndex None]) =
      (fst ?r, snd ?r)" by simp
  have same: "es_run_id demo_stream = es_run_id demo_stream" "ea_dedupe_key ?b = ea_dedupe_key ?a"
    by (simp_all add: demo_event_def)
  have types: "ea_type ?a = ''run.started''" "ea_type ?b = ''run.completed''" "es_fence demo_stream = None"
    by (simp_all add: demo_event_def demo_stream_def)
  from public_append_idempotent[OF demo_event_codecs_ok empty_stream_ok app evs same again, of 9]
    read_all[OF demo_event_codecs_ok ok, of 9]
  show ?thesis by (simp add: Let_def types TERMINAL_EVENT_TYPES_def)
qed

text \<open>C19. What clients read holds no secrets: however events are published, no published payload has, at
  any depth, a field with a secret's name, and its fields are those its type allows.\<close>

theorem published_payloads_clean:
  assumes "event_codec c" "events_ok c (es_run_id st) es d" "list_all payload_clean es"
    and "list_all (stream_event_ok (es_run_id st)) evs"
    and "fst (read_after c st after now (run (stream_step c) d evs)) = Inr got" "e \<in> set got"
  shows "list_all (\<lambda>(k, v). \<not> names_secret public_secret_keys k) (entries (JObj (pe_payload e))) \<and>
    list_all (\<lambda>(k, v). k \<in> set (allowed_keys (pe_type e))) (pe_payload e)"
proof -
  from stream_run_ok[OF assms(1,2,4)] obtain more
    where ok: "events_ok c (es_run_id st) (es @ more) (run (stream_step c) d evs)" "list_all payload_clean more" .
  obtain r d' where "read_after c st after now (run (stream_step c) d evs) = (r, d')" by fastforce
  with read_after_ok(1)[OF assms(1) ok(1) this] assms(5,6) have "e \<in> set (es @ more)" by auto
  with assms(3) ok(2) have "payload_clean e" by (auto simp: list_all_iff)
  then show ?thesis by (simp add: payload_clean_def public_secret_def del: entries.simps)
qed

theorem published_payloads_clean_witness:
  "let e = make_event demo_event_codecs demo_stream (demo_event ''run.started'' ''k1'') 1 5
   in list_all (\<lambda>(k, v). \<not> names_secret public_secret_keys k) (entries (JObj (pe_payload e))) \<and>
     list_all (\<lambda>(k, v). k \<in> set (allowed_keys (pe_type e))) (pe_payload e)"
proof -
  let ?a = "demo_event ''run.started'' ''k1''"
  let ?e = "make_event demo_event_codecs demo_stream ?a 1 5"
  let ?d = "snd (append_event demo_event_codecs demo_stream ?a 5 empty_stream)"
  have app: "append_event demo_event_codecs demo_stream ?a 5 empty_stream = (Inr ?e, ?d)"
    by (simp add: demo_append_event Let_def)
  have "events_ok demo_event_codecs (es_run_id demo_stream) [?e] ?d"
    using demo_event_codecs_ok empty_stream_ok app by (cases rule: append_event_cases) (auto simp: events_clean_def)
  from read_all[OF demo_event_codecs_ok this, of 9]
  have got: "fst (read_after demo_event_codecs demo_stream 0 9
      (run (stream_step demo_event_codecs) empty_stream [EvAppend demo_stream ?a 5])) = Inr [?e]" by simp
  have pre: "list_all payload_clean []" "list_all (stream_event_ok (es_run_id demo_stream)) [EvAppend demo_stream ?a 5]"
    "?e \<in> set [?e]" by simp_all
  from published_payloads_clean[OF demo_event_codecs_ok empty_stream_ok pre(1,2) got pre(3)]
  show ?thesis unfolding Let_def .
qed

end
