(* ===== verification/Py_Values.thy ===== *)
theory Py_Values
  imports Json_Access
begin

text \<open>
  Python's operators on JSON values: equality, \<open>max\<close>, \<open>or\<close>, and the dictionary methods \<open>pop\<close> and
  \<open>update\<close>.
\<close>

text \<open>Booleans are integers.\<close>

fun py_int :: "json \<Rightarrow> int option" where
  "py_int (JInt i) = Some i"
| "py_int (JBool b) = Some (if b then 1 else 0)"
| "py_int _ = None"

fun py_number :: "json \<Rightarrow> rat option" where
  "py_number (JInt i) = Some (of_int i)"
| "py_number (JBool b) = Some (if b then 1 else 0)"
| "py_number (JFloat r) = Some r"
| "py_number _ = None"

text \<open>\<open>==\<close>: numbers by value, lists by position, dictionaries by key.\<close>

fun py_eq :: "json \<Rightarrow> json \<Rightarrow> bool" where
  "py_eq (JList []) (JList []) \<longleftrightarrow> True"
| "py_eq (JList (x # xs)) (JList (y # ys)) \<longleftrightarrow> py_eq x y \<and> py_eq (JList xs) (JList ys)"
| "py_eq (JObj d) (JObj d') \<longleftrightarrow> length d = length d' \<and>
     list_all (\<lambda>(k, v). case dict_get d' k of None \<Rightarrow> False | Some w \<Rightarrow> py_eq v w) d"
| "py_eq (JStr s) (JStr s') \<longleftrightarrow> s = s'"
| "py_eq JNull JNull \<longleftrightarrow> True"
| "py_eq v w \<longleftrightarrow> py_number v \<noteq> None \<and> py_number v = py_number w"

text \<open>\<open>max(a, b)\<close> on integers keeps \<open>a\<close> on a tie.\<close>

definition py_max :: "json \<Rightarrow> json \<Rightarrow> json option" where
  "py_max a b = (case (py_int a, py_int b) of (Some i, Some j) \<Rightarrow> Some (if j > i then b else a) | _ \<Rightarrow> None)"

definition jor :: "json \<Rightarrow> json \<Rightarrow> json" where
  "jor v w = (if jtruthy v then v else w)"

definition dict_del :: "'k \<Rightarrow> ('k, 'v) dict \<Rightarrow> ('k, 'v) dict" where
  "dict_del k d = filter (\<lambda>(k', v). k' \<noteq> k) d"

definition dict_merge :: "('k, 'v) dict \<Rightarrow> ('k, 'v) dict \<Rightarrow> ('k, 'v) dict" where
  "dict_merge d d' = fold (\<lambda>(k, v). dict_set k v) d' d"

end
