(* ===== verification/Projection.thy ===== *)
theory Projection
  imports Public_Events Py_Values
begin

text \<open>
  What clients see of a run (\<open>project_public_events\<close> of \<open>events/public.py\<close>): the public events of the
  run reduced, in order, to the current status, stage, plan, tasks, waves, findings, sources and
  pending actions. \<open>proj_state\<close> holds the projection under construction together with the local
  dictionaries of the function; its sets of waves are lists without duplicates. \<open>repr\<close> stands for
  the text of a number, list or dictionary.
\<close>

section \<open>The projection\<close>

type_synonym payload_dict = "(string, json) dict"

record proj_state =
  ps_status :: string
  ps_stage :: "string option"
  ps_stage_index :: int
  ps_plan :: payload_dict
  ps_task_items :: "(string, payload_dict) dict"
  ps_human_action :: "payload_dict option"
  ps_security :: "payload_dict list"
  ps_last_event :: int
  ps_task_statuses :: "(string, string) dict"
  ps_waves :: "string list"
  ps_completed_waves :: "string list"
  ps_findings :: "(string, payload_dict) dict"
  ps_sources :: "(string, payload_dict) dict"

definition empty_projection :: proj_state where
  "empty_projection = \<lparr>ps_status = ''pending'', ps_stage = None, ps_stage_index = 0, ps_plan = [],
     ps_task_items = [], ps_human_action = None, ps_security = [], ps_last_event = 0,
     ps_task_statuses = [], ps_waves = [], ps_completed_waves = [], ps_findings = [], ps_sources = []\<rparr>"

definition set_add :: "'a \<Rightarrow> 'a list \<Rightarrow> 'a list" where
  "set_add x xs = (if x \<in> set xs then xs else xs @ [x])"

text \<open>The first statement of the loop: the status of the run, and what a terminal event clears.\<close>

definition proj_run :: "(json \<Rightarrow> string) \<Rightarrow> public_event \<Rightarrow> proj_state \<Rightarrow> proj_state" where
  "proj_run repr e s =
     (let v = jget ''status'' (pe_payload e)
      in if starts_with (pe_type e) ''run.'' \<and> jtruthy v
         then (let s' = s\<lparr>ps_status := py_text repr v\<rparr>
               in if is_terminal_event e then s'\<lparr>ps_human_action := None, ps_security := []\<rparr> else s')
         else s)"

definition proj_plan_task :: "(json \<Rightarrow> string) \<Rightarrow> payload_dict \<Rightarrow> proj_state \<Rightarrow> json_error + proj_state" where
  "proj_plan_task repr d s =
     res_bind (case dict_get (ps_plan s) ''tasks'' of None \<Rightarrow> Inr [] | Some v \<Rightarrow> raw_objs v) (\<lambda>tasks.
       (let tid = jget ''task_id'' d;
            known = list_ex (\<lambda>item. py_eq (jget ''task_id'' item) tid) tasks;
            tasks' = (if known then tasks else tasks @ [d])
        in Inr (s\<lparr>ps_plan := dict_set ''tasks'' (JList (map JObj tasks')) (ps_plan s),
             ps_task_statuses :=
               dict_set (py_text repr tid) (py_text repr (jget_or ''status'' (JStr ''pending'') d)) (ps_task_statuses s),
             ps_task_items := dict_set (py_text repr tid) d (ps_task_items s)\<rparr>)))"

definition keep_monotone :: "payload_dict \<Rightarrow> payload_dict \<Rightarrow> string \<Rightarrow> payload_dict \<Rightarrow> payload_dict" where
  "keep_monotone previous new key merged =
     (case py_max (jget key previous) (jget key new) of None \<Rightarrow> merged | Some v \<Rightarrow> dict_set key v merged)"

definition merge_task :: "payload_dict \<Rightarrow> payload_dict \<Rightarrow> payload_dict" where
  "merge_task previous d =
     fold (keep_monotone previous d) [''iteration'', ''source_count''] (dict_merge previous d)"

definition proj_task :: "(json \<Rightarrow> string) \<Rightarrow> payload_dict \<Rightarrow> proj_state \<Rightarrow> proj_state" where
  "proj_task repr d s =
     (let tid = py_text repr (jget_or ''task_id'' (JStr []) d);
          status = jget ''status'' d;
          previous = (case dict_get (ps_task_items s) tid of None \<Rightarrow> [] | Some item \<Rightarrow> item)
      in if tid = [] then s
         else s\<lparr>ps_task_statuses := (if jtruthy status then dict_set tid (py_text repr status) (ps_task_statuses s)
                  else ps_task_statuses s),
                ps_task_items := dict_set tid (merge_task previous d) (ps_task_items s)\<rparr>)"

definition human_action :: "payload_dict \<Rightarrow> string \<Rightarrow> payload_dict \<Rightarrow> string list \<Rightarrow> payload_dict" where
  "human_action d kind shown actions =
     [(''action_id'', jget ''action_id'' d), (''type'', JStr kind), (''payload'', JObj shown),
      (''allowed_actions'', jget_or ''allowed_actions'' (JList (map JStr actions)) d)]"

definition proj_approval :: "(json \<Rightarrow> string) \<Rightarrow> payload_dict \<Rightarrow> proj_state \<Rightarrow> proj_state" where
  "proj_approval repr d s =
     (let kind = py_text repr (jor (jget ''approval_type'' d) (JStr ''plan''))
      in s\<lparr>ps_status := ''awaiting_'' @ kind @ ''_approval'',
           ps_human_action := Some (human_action d (kind @ ''_approval'')
             [(''content_markdown'', jget_or ''content_markdown'' (JStr []) d)] [''approve'', ''revise'', ''cancel''])\<rparr>)"

definition proj_clarification :: "payload_dict \<Rightarrow> proj_state \<Rightarrow> proj_state" where
  "proj_clarification d s =
     s\<lparr>ps_status := ''awaiting_clarification'',
       ps_human_action := Some (human_action d ''clarification''
         [(''question'', jget_or ''question'' (JStr []) d)] [''answer'', ''cancel''])\<rparr>"

definition proj_resolved :: "payload_dict \<Rightarrow> proj_state \<Rightarrow> proj_state" where
  "proj_resolved d s =
     (let pending = (case ps_human_action s of None \<Rightarrow> [] | Some p \<Rightarrow> p)
      in s\<lparr>ps_human_action := (if py_eq (jget ''action_id'' pending) (jget ''action_id'' d) then None
             else ps_human_action s),
           ps_status := ''running''\<rparr>)"

definition other_approvals :: "(json \<Rightarrow> string) \<Rightarrow> payload_dict \<Rightarrow> payload_dict list \<Rightarrow> payload_dict list" where
  "other_approvals repr d items =
     (let aid = py_text repr (jor (jget ''approval_id'' d) (JStr []))
      in filter (\<lambda>item. py_text repr (jget ''approval_id'' item) \<noteq> aid) items)"

definition proj_stage :: "(json \<Rightarrow> string) \<Rightarrow> payload_dict \<Rightarrow> proj_state \<Rightarrow> json_error + proj_state" where
  "proj_stage repr d s =
     res_bind (jint (jget_or ''stage_index'' (JInt 0) d)) (\<lambda>i.
       Inr (s\<lparr>ps_stage := Some (py_text repr (jget ''stage_id'' d)), ps_stage_index := i\<rparr>))"

definition proj_source :: "(json \<Rightarrow> string) \<Rightarrow> payload_dict \<Rightarrow> proj_state \<Rightarrow> proj_state" where
  "proj_source repr d s =
     (let key = py_text repr (jor (jget ''source_id'' d) (jor (jget ''url'' d) (JStr [])))
      in if key = [] then s else s\<lparr>ps_sources := dict_set key d (ps_sources s)\<rparr>)"

definition proj_wave :: "(json \<Rightarrow> string) \<Rightarrow> bool \<Rightarrow> payload_dict \<Rightarrow> proj_state \<Rightarrow> proj_state" where
  "proj_wave repr finished d s =
     (let w = py_text repr (jget ''wave_id'' d)
      in s\<lparr>ps_waves := set_add w (ps_waves s),
           ps_completed_waves := (if finished then set_add w (ps_completed_waves s) else ps_completed_waves s)\<rparr>)"

definition proj_step :: "(json \<Rightarrow> string) \<Rightarrow> proj_state \<Rightarrow> public_event \<Rightarrow> json_error + proj_state" where
  "proj_step repr s0 e =
     (let t = pe_type e; d = pe_payload e; s = proj_run repr e (s0\<lparr>ps_last_event := pe_sequence e\<rparr>)
      in if starts_with t ''stage.'' \<and> jtruthy (jget ''stage_id'' d) then proj_stage repr d s
         else if t = ''plan.created'' then Inr (s\<lparr>ps_plan := d\<rparr>)
         else if t = ''plan.revised'' then Inr (s\<lparr>ps_plan := dict_merge (ps_plan s) d\<rparr>)
         else if t = ''plan.task.added'' then proj_plan_task repr d s
         else if starts_with t ''research.task.'' then Inr (proj_task repr d s)
         else if t = ''research.source.discovered'' then Inr (proj_source repr d s)
         else if t = ''research.wave.started'' then Inr (proj_wave repr False d s)
         else if t = ''research.wave.completed'' then Inr (proj_wave repr True d s)
         else if t = ''findings.updated''
           then Inr (s\<lparr>ps_findings := dict_set (py_text repr (jget ''task_id'' d)) d (ps_findings s)\<rparr>)
         else if t = ''approval.required'' then Inr (proj_approval repr d s)
         else if t = ''clarification.required'' then Inr (proj_clarification d s)
         else if t = ''approval.resolved'' \<or> t = ''clarification.resolved'' then Inr (proj_resolved d s)
         else if t = ''security.approval.required''
           then Inr (s\<lparr>ps_security := other_approvals repr d (ps_security s) @ [d]\<rparr>)
         else if t = ''security.approval.resolved''
           then Inr (s\<lparr>ps_security := other_approvals repr d (ps_security s)\<rparr>)
         else Inr s)"

fun proj_events :: "(json \<Rightarrow> string) \<Rightarrow> proj_state \<Rightarrow> public_event list \<Rightarrow> json_error + proj_state" where
  "proj_events repr s [] = Inr s"
| "proj_events repr s (e # es) = res_bind (proj_step repr s e) (\<lambda>s'. proj_events repr s' es)"

section \<open>The result\<close>

definition live_status :: "string \<Rightarrow> string" where
  "live_status st = (if st \<in> {''created'', ''researching'', ''compressing''} then ''running'' else st)"

definition is_live :: "string \<Rightarrow> bool" where
  "is_live st \<longleftrightarrow> live_status st \<in> {''pending'', ''running''}"

text \<open>The tasks of a settled run that lost their last event.\<close>

definition settle_task :: "string \<times> string \<Rightarrow> proj_state \<Rightarrow> proj_state" where
  "settle_task = (\<lambda>(tid, st) s.
     if is_live st
     then s\<lparr>ps_task_statuses := dict_set tid ''cancelled'' (ps_task_statuses s),
            ps_task_items := dict_set tid (dict_set ''status'' (JStr ''cancelled'')
              (case dict_get (ps_task_items s) tid of None \<Rightarrow> [] | Some item \<Rightarrow> item)) (ps_task_items s)\<rparr>
     else s)"

definition settled_status :: "string \<Rightarrow> bool" where
  "settled_status st \<longleftrightarrow> st \<in> {''completed'', ''failed'', ''cancelled''}"

definition settle_tasks :: "proj_state \<Rightarrow> proj_state" where
  "settle_tasks s = (if settled_status (ps_status s) then fold settle_task (ps_task_statuses s) s else s)"

record projection =
  pj_status :: string
  pj_stage :: "string option"
  pj_stage_index :: int
  pj_stage_count :: int
  pj_plan :: payload_dict
  pj_tasks :: "(string, nat) dict"
  pj_waves :: "(string, nat) dict"
  pj_findings :: "payload_dict list"
  pj_task_items :: "(string, payload_dict) dict"
  pj_sources :: "payload_dict list"
  pj_human_action :: "payload_dict option"
  pj_security :: "payload_dict list"
  pj_last_event_id :: int

definition COUNTED_STATUSES :: "string list" where
  "COUNTED_STATUSES = [''pending'', ''running'', ''completed'', ''failed'', ''cancelled'', ''timed_out'']"

definition task_counts :: "(string, string) dict \<Rightarrow> (string, nat) dict" where
  "task_counts statuses =
     (''total'', length statuses) #
     map (\<lambda>key. (key, length (filter (\<lambda>st. live_status st = key) (dict_values statuses)))) COUNTED_STATUSES"

definition projection_of :: "proj_state \<Rightarrow> projection" where
  "projection_of s =
     \<lparr>pj_status = ps_status s, pj_stage = ps_stage s, pj_stage_index = ps_stage_index s, pj_stage_count = 6,
      pj_plan = ps_plan s, pj_tasks = task_counts (ps_task_statuses s),
      pj_waves = [(''total'', length (ps_waves s)), (''completed'', length (ps_completed_waves s))],
      pj_findings = dict_values (ps_findings s), pj_task_items = ps_task_items s,
      pj_sources = dict_values (ps_sources s), pj_human_action = ps_human_action s,
      pj_security = ps_security s, pj_last_event_id = ps_last_event s\<rparr>"

definition project_public_events :: "(json \<Rightarrow> string) \<Rightarrow> public_event list \<Rightarrow> json_error + projection" where
  "project_public_events repr es =
     res_bind (proj_events repr empty_projection es) (\<lambda>s. Inr (projection_of (settle_tasks s)))"

text \<open>\<open>RunEventStore.project\<close>.\<close>

datatype project_error = ProjectEvents event_error | ProjectPayload json_error

definition project_run ::
    "(json \<Rightarrow> string) \<Rightarrow> event_codecs \<Rightarrow> event_store \<Rightarrow> seconds \<Rightarrow> event_disk \<Rightarrow>
      (project_error + projection) \<times> event_disk" where
  "project_run repr c st now d =
     (if ev_log d = None then (Inr (projection_of empty_projection), d)
      else case read_events_locked c (es_run_id st) now d of
        (Inl e, d1) \<Rightarrow> (Inl (ProjectEvents e), d1)
      | (Inr es, d1) \<Rightarrow>
          (case project_public_events repr es of
             Inl e \<Rightarrow> (Inl (ProjectPayload e), d1)
           | Inr p \<Rightarrow> (Inr p, d1)))"

section \<open>Settled runs have no live tasks\<close>

lemma settle_task_simps [simp]:
  "ps_status (settle_task p s) = ps_status s" "ps_human_action (settle_task p s) = ps_human_action s"
  "ps_security (settle_task p s) = ps_security s" "ps_last_event (settle_task p s) = ps_last_event s"
  by (auto simp: settle_task_def split: prod.splits)

lemma settle_fold_simps [simp]:
  "ps_status (fold settle_task ps s) = ps_status s" "ps_human_action (fold settle_task ps s) = ps_human_action s"
  "ps_security (fold settle_task ps s) = ps_security s" "ps_last_event (fold settle_task ps s) = ps_last_event s"
  by (induction ps arbitrary: s) auto

lemma settle_tasks_simps [simp]:
  "ps_status (settle_tasks s) = ps_status s" "ps_human_action (settle_tasks s) = ps_human_action s"
  "ps_security (settle_tasks s) = ps_security s" "ps_last_event (settle_tasks s) = ps_last_event s"
  by (simp_all add: settle_tasks_def)

lemma cancelled_not_live [simp]: "\<not> is_live ''cancelled''"
  by (simp add: is_live_def live_status_def)

text \<open>What one settling step, and all of them, leave under a task.\<close>

lemma settle_task_statuses:
  "dict_get (ps_task_statuses (settle_task (tid, st) s)) x =
    (if is_live st \<and> x = tid then Some ''cancelled'' else dict_get (ps_task_statuses s) x)"
  by (simp add: settle_task_def)

lemma settle_fold_statuses:
  "dict_get (ps_task_statuses (fold settle_task ps s)) x =
    (if list_ex (\<lambda>(tid, st). tid = x \<and> is_live st) ps then Some ''cancelled'' else dict_get (ps_task_statuses s) x)"
proof (induction ps arbitrary: s)
  case (Cons p ps)
  obtain tid st where "p = (tid, st)" by (cases p)
  then show ?case using Cons.IH[of "settle_task p s"] by (auto simp: settle_task_statuses)
qed simp

lemma settle_task_dict_ok: "dict_ok (ps_task_statuses s) \<Longrightarrow> dict_ok (ps_task_statuses (settle_task p s))"
  by (auto simp: settle_task_def split: prod.splits)

lemma settle_fold_dict_ok: "dict_ok (ps_task_statuses s) \<Longrightarrow> dict_ok (ps_task_statuses (fold settle_task ps s))"
  by (induction ps arbitrary: s) (auto simp: settle_task_dict_ok)

lemma settled_not_live:
  assumes "settled_status (ps_status s)" "dict_ok (ps_task_statuses s)"
    and "st \<in> set (dict_values (ps_task_statuses (settle_tasks s)))"
  shows "\<not> is_live st"
proof
  assume live: "is_live st"
  let ?s = "fold settle_task (ps_task_statuses s) s"
  from assms settle_fold_dict_ok obtain x where x: "dict_get (ps_task_statuses ?s) x = Some st"
    by (auto simp: settle_tasks_def dict_values_get)
  show False
  proof (cases "list_ex (\<lambda>(tid, st). tid = x \<and> is_live st) (ps_task_statuses s)")
    case True
    with x settle_fold_statuses[of "ps_task_statuses s" s x] have "st = ''cancelled''" by simp
    with live show False using cancelled_not_live by simp
  next
    case False
    with x settle_fold_statuses[of "ps_task_statuses s" s x] have "(x, st) \<in> set (ps_task_statuses s)"
      by (auto intro: dict_get_in)
    with False live show False by (auto simp: list_ex_iff)
  qed
qed

section \<open>Reducing events\<close>

lemma proj_same_statuses [simp]:
  "ps_task_statuses (proj_run repr e s) = ps_task_statuses s"
  "ps_task_statuses (proj_source repr d s) = ps_task_statuses s"
  "ps_task_statuses (proj_wave repr b d s) = ps_task_statuses s"
  "ps_task_statuses (proj_approval repr d s) = ps_task_statuses s"
  "ps_task_statuses (proj_clarification d s) = ps_task_statuses s"
  "ps_task_statuses (proj_resolved d s) = ps_task_statuses s"
  by (simp_all add: proj_run_def proj_source_def proj_wave_def proj_approval_def proj_clarification_def
      proj_resolved_def Let_def)

lemma proj_statuses_ok:
  "proj_stage repr d s = Inr s' \<Longrightarrow> ps_task_statuses s' = ps_task_statuses s"
  "proj_plan_task repr d s = Inr s' \<Longrightarrow> dict_ok (ps_task_statuses s) \<Longrightarrow> dict_ok (ps_task_statuses s')"
  "dict_ok (ps_task_statuses s) \<Longrightarrow> dict_ok (ps_task_statuses (proj_task repr d s))"
  by (auto simp: proj_stage_def proj_plan_task_def proj_task_def Let_def res_bind_Inr)

lemma proj_step_dict_ok:
  assumes "proj_step repr s e = Inr s'" "dict_ok (ps_task_statuses s)"
  shows "dict_ok (ps_task_statuses s')"
  using assms unfolding proj_step_def Let_def
  by (simp only: split: if_split_asm)
    (auto dest: proj_statuses_ok intro: proj_statuses_ok(3))

lemma proj_events_append:
  "proj_events repr s (es @ fs) = res_bind (proj_events repr s es) (\<lambda>s'. proj_events repr s' fs)"
  by (induction es arbitrary: s) (auto simp: res_bind_def split: sum.splits)

lemma proj_events_dict_ok:
  "proj_events repr s es = Inr s' \<Longrightarrow> dict_ok (ps_task_statuses s) \<Longrightarrow> dict_ok (ps_task_statuses s')"
  by (induction es arbitrary: s) (auto simp: res_bind_Inr dest: proj_step_dict_ok)

text \<open>A terminal event sets the status and clears what was pending.\<close>

lemma proj_step_terminal:
  assumes "proj_step repr s e = Inr s'" "is_terminal_event e" "jtruthy (jget ''status'' (pe_payload e))"
  shows "ps_status s' = py_text repr (jget ''status'' (pe_payload e))" "ps_human_action s' = None" "ps_security s' = []"
    "ps_last_event s' = pe_sequence e"
  using assms
  by (auto simp: proj_step_def proj_run_def is_terminal_event_def TERMINAL_EVENT_TYPES_def starts_with_def Let_def)

lemma task_counts_none:
  assumes "\<And>st. st \<in> set (dict_values statuses) \<Longrightarrow> \<not> is_live st"
  shows "dict_get (task_counts statuses) ''pending'' = Some 0" "dict_get (task_counts statuses) ''running'' = Some 0"
  using assms by (auto simp: task_counts_def COUNTED_STATUSES_def is_live_def filter_empty_conv)

lemma dict_merge_get:
  "dict_get (dict_merge d d') k = (case dict_get (rev d') k of Some v \<Rightarrow> Some v | None \<Rightarrow> dict_get d k)"
proof (induction d' arbitrary: d)
  case (Cons p d')
  then show ?case by (cases p) (auto simp: dict_merge_def map_add_def split: option.splits)
qed (simp add: dict_merge_def)

lemma terminal_projection:
  assumes "project_public_events repr (es @ [e]) = Inr p"
    and "is_terminal_event e" "jget ''status'' (pe_payload e) = JStr st" "settled_status st"
  shows "pj_status p = st \<and> pj_human_action p = None \<and>
    pj_security p = [] \<and> dict_get (pj_tasks p) ''pending'' = Some 0 \<and>
    dict_get (pj_tasks p) ''running'' = Some 0 \<and> pj_last_event_id p = pe_sequence e"
proof -
  from assms(1) obtain s1 s where s1: "proj_events repr empty_projection es = Inr s1"
    and s: "proj_step repr s1 e = Inr s" and p: "p = projection_of (settle_tasks s)"
    by (auto simp: project_public_events_def proj_events_append res_bind_Inr)
  have "dict_ok (ps_task_statuses empty_projection)" by (simp add: empty_projection_def)
  with s1 s have ok: "dict_ok (ps_task_statuses s)" using proj_events_dict_ok proj_step_dict_ok by metis
  have "jtruthy (jget ''status'' (pe_payload e))" using assms(3,4) by (auto simp: settled_status_def)
  note fin = proj_step_terminal[OF s assms(2) this]
  with assms(3,4) have "settled_status (ps_status s)" by (simp add: py_text_def)
  from task_counts_none[OF settled_not_live[OF this ok]] fin p assms(3) show ?thesis
    by (simp add: projection_of_def py_text_def)
qed

text \<open>Events after a terminal one are refused, so it stays the last.\<close>

lemma stream_ends:
  assumes "stream_ok (es @ rest)" "e \<in> set es" "is_terminal_event e"
  shows "rest = [] \<and> (\<exists>before. es = before @ [e])"
proof -
  from assms(2) obtain xs ys where es: "es = xs @ e # ys" by (meson split_list)
  have "ys @ rest = []"
  proof (rule ccontr)
    assume "ys @ rest \<noteq> []"
    then have "butlast (es @ rest) = xs @ e # butlast (ys @ rest)" using es by (simp add: butlast_append)
    with assms(1,3) show False by (simp add: stream_ok_def)
  qed
  with es show ?thesis by auto
qed

section \<open>Progress\<close>

lemma dict_merge_keeps:
  "dict_get d' k = None \<Longrightarrow> dict_get (dict_merge d d') k = dict_get d k"
proof -
  assume "dict_get d' k = None"
  then have "dict_get (rev d') k = None" by (simp add: map_of_eq_None_iff)
  then show ?thesis by (simp add: dict_merge_get)
qed

text \<open>The integers under a counter after a merge.\<close>

lemma jget_set [simp]: "jget k (dict_set k' v d) = (if k = k' then v else jget k d)"
  by (simp add: jget_def)

lemma keep_monotone_other: "k \<noteq> key \<Longrightarrow> jget k (keep_monotone p d key m) = jget k m"
  by (simp add: keep_monotone_def split: option.splits)

lemma merge_task_counter:
  assumes "k = ''iteration'' \<or> k = ''source_count''"
  shows "jget k (merge_task p d) =
    (case py_max (jget k p) (jget k d) of Some v \<Rightarrow> v | None \<Rightarrow> jget k (dict_merge p d))"
  using assms
  by (auto simp: merge_task_def keep_monotone_other) (auto simp: keep_monotone_def split: option.splits)

section \<open>Properties\<close>

text \<open>C18. A finished run stays finished: once a terminal event with an end status was published, any later
  projection of the run, after any further appends, crashes and losses of the index, has that
  status, no pending action or approval, no pending or running task, whatever events the tasks lost,
  and that event as its last.\<close>

theorem finished_run_stays_finished:
  assumes "event_codec c" "events_ok c (es_run_id st) es d"
    and "append_event c st a now d = (Inr e, d1)"
    and "is_terminal_event e" "jget ''status'' (pe_payload e) = JStr status" "settled_status status"
    and "list_all (stream_event_ok (es_run_id st)) evs"
    and "project_run repr c st later (run (stream_step c) d1 evs) = (Inr p, d2)"
  shows "pj_status p = status \<and> pj_human_action p = None \<and>
    pj_security p = [] \<and> dict_get (pj_tasks p) ''pending'' = Some 0 \<and>
    dict_get (pj_tasks p) ''running'' = Some 0 \<and> pj_last_event_id p = pe_sequence e"
proof -
  from append_event_in[OF assms(1-3)] obtain m1
    where m1: "events_ok c (es_run_id st) (es @ m1) d1" "e \<in> set (es @ m1)" by blast
  from stream_run_ok[OF assms(1) m1(1) assms(7)] obtain m2
    where ok: "events_ok c (es_run_id st) ((es @ m1) @ m2) (run (stream_step c) d1 evs)" by metis
  then have "stream_ok ((es @ m1) @ m2)" by (simp add: events_ok_def)
  from stream_ends[OF this m1(2) assms(4)] obtain before where "m2 = []" "es @ m1 = before @ [e]" by blast
  with ok have ok': "events_ok c (es_run_id st) (before @ [e]) (run (stream_step c) d1 evs)" by simp
  obtain r d' where rd: "read_events_locked c (es_run_id st) later (run (stream_step c) d1 evs) = (r, d')" by fastforce
  from read_locked_ok(1)[OF assms(1) ok' rd] rd assms(8) events_none[OF assms(1) ok']
  have "project_public_events repr (before @ [e]) = Inr p"
    by (auto simp: project_run_def split: if_splits sum.splits)
  from terminal_projection[OF this assms(4-6)] show ?thesis .
qed

definition final_event :: event_args where
  "final_event = \<lparr>ea_type = ''run.failed'', ea_stage = None, ea_payload = [(''status'', JStr ''failed'')],
     ea_dedupe_key = ''end''\<rparr>"

theorem finished_run_stays_finished_witness:
  "let d = snd (append_event demo_event_codecs demo_stream final_event 5 empty_stream)
   in \<exists>p. fst (project_run (\<lambda>v. []) demo_event_codecs demo_stream 9 (run (stream_step demo_event_codecs) d [EvIndex None])) = Inr p \<and>
        pj_status p = ''failed'' \<and> pj_last_event_id p = 1"
proof -
  let ?e = "make_event demo_event_codecs demo_stream final_event 1 5"
  let ?d = "snd (append_event demo_event_codecs demo_stream final_event 5 empty_stream)"
  let ?d' = "run (stream_step demo_event_codecs) ?d [EvIndex None]"
  have app: "append_event demo_event_codecs demo_stream final_event 5 empty_stream = (Inr ?e, ?d)"
    by (simp add: demo_append_event Let_def)
  have "sanitize_public_payload ''run.failed'' [(''status'', JStr ''failed'')] = [(''status'', JStr ''failed'')]"
    by code_simp
  then have pay: "pe_payload ?e = [(''status'', JStr ''failed'')]" by (simp add: final_event_def)
  have fin: "is_terminal_event ?e" "jget ''status'' (pe_payload ?e) = JStr ''failed''" "settled_status ''failed''"
    unfolding pay by (simp_all add: is_terminal_event_def TERMINAL_EVENT_TYPES_def final_event_def settled_status_def)
  have evs: "list_all (stream_event_ok (es_run_id demo_stream)) [EvIndex None]" by simp
  have "events_ok demo_event_codecs (es_run_id demo_stream) [?e] ?d"
    using demo_event_codecs_ok empty_stream_ok app by (cases rule: append_event_cases) (auto simp: events_clean_def)
  then have ok: "events_ok demo_event_codecs (es_run_id demo_stream) [?e] ?d'" by (simp add: events_ok_def)
  obtain r d2 where rd: "read_events_locked demo_event_codecs (es_run_id demo_stream) 9 ?d' = (r, d2)" by fastforce
  have "\<exists>p. project_public_events (\<lambda>v. []) [?e] = Inr p"
    by (simp add: project_public_events_def proj_step_def Let_def starts_with_def final_event_def)
  moreover have "ev_log ?d' \<noteq> None" using events_none[OF demo_event_codecs_ok ok] by blast
  ultimately obtain p where p: "project_run (\<lambda>v. []) demo_event_codecs demo_stream 9 ?d' = (Inr p, d2)"
    using read_locked_ok(1)[OF demo_event_codecs_ok ok rd] rd by (auto simp: project_run_def)
  from finished_run_stays_finished[OF demo_event_codecs_ok empty_stream_ok app fin evs p] p
  show ?thesis by (simp add: Let_def)
qed

definition example_event :: "int \<Rightarrow> string \<Rightarrow> payload_dict \<Rightarrow> public_event" where
  "example_event n t d = \<lparr>pe_event_id = [], pe_sequence = n, pe_run_id = ''run'', pe_type = t, pe_timestamp = 0,
     pe_stage = None, pe_payload = d, pe_dedupe_key = []\<rparr>"

text \<open>Progress never runs back: an event of a task whose iteration or source count is an integer, or
  is left out, leaves under that counter of the task an integer at least as large as before.\<close>

lemma task_progress_monotone:
  assumes "dict_get (ps_task_items s) (py_text repr (jget_or ''task_id'' (JStr []) (pe_payload e))) = Some item"
    and "starts_with (pe_type e) ''research.task.''" "proj_step repr s e = Inr s'"
    and "k = ''iteration'' \<or> k = ''source_count''" "py_int (jget k item) = Some i"
    and "dict_get (pe_payload e) k = None \<or> py_int (jget k (pe_payload e)) \<noteq> None"
  shows "\<exists>item' j. dict_get (ps_task_items s') (py_text repr (jget_or ''task_id'' (JStr []) (pe_payload e))) = Some item' \<and>
    py_int (jget k item') = Some j \<and> i \<le> j"
proof -
  let ?d = "pe_payload e"
  let ?tid = "py_text repr (jget_or ''task_id'' (JStr []) ?d)"
  obtain u where t: "pe_type e = ''research.task.'' @ u"
    using assms(2) by (metis append_take_drop_id starts_with_def)
  define s1 where "s1 = proj_run repr e (s\<lparr>ps_last_event := pe_sequence e\<rparr>)"
  have items: "ps_task_items s1 = ps_task_items s" by (simp add: s1_def proj_run_def Let_def)
  have "starts_with (pe_type e) ''stage.'' = False" by (simp add: t starts_with_def)
  with assms(2,3) have s': "s' = proj_task repr ?d s1" by (simp add: proj_step_def Let_def t s1_def)
  show ?thesis
  proof (cases "?tid = []")
    case True
    with s' items assms(1,5) show ?thesis by (simp add: proj_task_def Let_def)
  next
    case False
    with s' items assms(1) have get: "dict_get (ps_task_items s') ?tid = Some (merge_task item ?d)"
      by (simp add: proj_task_def Let_def)
    have "\<exists>j. py_int (jget k (merge_task item ?d)) = Some j \<and> i \<le> j"
    proof (cases "py_int (jget k ?d)")
      case None
      with assms(6) have "dict_get ?d k = None" by simp
      with None assms(5) merge_task_counter[OF assms(4), of item ?d] show ?thesis
        by (simp add: py_max_def jget_def dict_merge_keeps)
    next
      case (Some j)
      with assms(5) merge_task_counter[OF assms(4), of item ?d] show ?thesis by (simp add: py_max_def)
    qed
    with get show ?thesis by blast
  qed
qed

lemma task_progress_monotone_witness:
  "let s = empty_projection\<lparr>ps_task_items := [(''t1'', [(''iteration'', JInt 4)])]\<rparr>;
       e = example_event 7 ''research.task.progress'' [(''task_id'', JStr ''t1''), (''iteration'', JInt 2)]
   in \<exists>s' item' j. proj_step (\<lambda>v. []) s e = Inr s' \<and> dict_get (ps_task_items s') ''t1'' = Some item' \<and>
        py_int (jget ''iteration'' item') = Some j \<and> 4 \<le> j"
proof -
  let ?s = "empty_projection\<lparr>ps_task_items := [(''t1'', [(''iteration'', JInt 4)])]\<rparr>"
  let ?e = "example_event 7 ''research.task.progress'' [(''task_id'', JStr ''t1''), (''iteration'', JInt 2)]"
  have tid: "py_text (\<lambda>v. []) (jget_or ''task_id'' (JStr []) (pe_payload ?e)) = ''t1''"
    by (simp add: example_event_def py_text_def)
  have item: "dict_get (ps_task_items ?s) (py_text (\<lambda>v. []) (jget_or ''task_id'' (JStr []) (pe_payload ?e))) =
      Some [(''iteration'', JInt 4)]" by (simp add: tid)
  have kind: "starts_with (pe_type ?e) ''research.task.''" by (simp add: example_event_def starts_with_def)
  obtain s' where s': "proj_step (\<lambda>v. []) ?s ?e = Inr s'"
    by (simp add: proj_step_def Let_def example_event_def starts_with_def)
  have "py_int (jget ''iteration'' [(''iteration'', JInt 4)]) = Some 4"
    "py_int (jget ''iteration'' (pe_payload ?e)) \<noteq> None" by (simp_all add: example_event_def)
  with task_progress_monotone[OF item kind s', of "''iteration''" 4] s' show ?thesis
    unfolding tid Let_def by blast
qed

end
