(* ===== verification/Quality.thy ===== *)
theory Quality
  imports Json_Access
begin

text \<open>
  The deterministic part of the quality gate: the rigor policies (\<open>quality/policy.py\<close>), the admission of
  a researcher's handoff, the coverage ledger and the risk profile (\<open>quality/contract.py\<close>). Scores and
  floors are exact: the floors that scores are compared with have finite binary expansions, and so
  have averages of four integers. The regular expressions over requirement texts are arguments,
  because they range over scripts beyond the model's characters.
\<close>

section \<open>Rigor policies\<close>

datatype rigor = VeryRelaxed | Relaxed | Balanced | StrictRigor | VeryStrict

fun rigor_value :: "rigor \<Rightarrow> string" where
  "rigor_value VeryRelaxed = ''very_relaxed''"
| "rigor_value Relaxed = ''relaxed''"
| "rigor_value Balanced = ''balanced''"
| "rigor_value StrictRigor = ''strict''"
| "rigor_value VeryStrict = ''very_strict''"

definition RIGORS :: "rigor list" where
  "RIGORS = [VeryRelaxed, Relaxed, Balanced, StrictRigor, VeryStrict]"

record rigor_policy =
  rg_rigor :: rigor
  rg_dimension_floor :: int
  rg_average_floor :: rat
  rg_outer_aggregate_floor :: rat
  rg_outer_critical_floor :: rat

fun QUALITY_RIGOR_POLICIES :: "rigor \<Rightarrow> rigor_policy" where
  "QUALITY_RIGOR_POLICIES VeryRelaxed = \<lparr>rg_rigor = VeryRelaxed, rg_dimension_floor = 2, rg_average_floor = 5 / 2,
     rg_outer_aggregate_floor = 60 / 100, rg_outer_critical_floor = 50 / 100\<rparr>"
| "QUALITY_RIGOR_POLICIES Relaxed = \<lparr>rg_rigor = Relaxed, rg_dimension_floor = 2, rg_average_floor = 3,
     rg_outer_aggregate_floor = 70 / 100, rg_outer_critical_floor = 60 / 100\<rparr>"
| "QUALITY_RIGOR_POLICIES Balanced = \<lparr>rg_rigor = Balanced, rg_dimension_floor = 3, rg_average_floor = 3,
     rg_outer_aggregate_floor = 75 / 100, rg_outer_critical_floor = 70 / 100\<rparr>"
| "QUALITY_RIGOR_POLICIES StrictRigor = \<lparr>rg_rigor = StrictRigor, rg_dimension_floor = 3, rg_average_floor = 4,
     rg_outer_aggregate_floor = 85 / 100, rg_outer_critical_floor = 80 / 100\<rparr>"
| "QUALITY_RIGOR_POLICIES VeryStrict = \<lparr>rg_rigor = VeryStrict, rg_dimension_floor = 4, rg_average_floor = 9 / 2,
     rg_outer_aggregate_floor = 90 / 100, rg_outer_critical_floor = 90 / 100\<rparr>"

datatype quality_error =
  UnknownRigor string | MinScoreNotOneToFive | UnsupportedRiskMode string | QualityJson json_error

definition rigor_of_text :: "string \<Rightarrow> quality_error + rigor" where
  "rigor_of_text text =
     (case List.find (\<lambda>r. rigor_value r = lower (strip text)) RIGORS of
        None \<Rightarrow> Inl (UnknownRigor text) | Some r \<Rightarrow> Inr r)"

definition get_quality_rigor_policy :: "string \<Rightarrow> quality_error + rigor_policy" where
  "get_quality_rigor_policy text = res_bind (rigor_of_text text) (\<lambda>r. Inr (QUALITY_RIGOR_POLICIES r))"

text \<open>\<open>int(value)\<close>: an exception becomes the same \<open>ValueError\<close> as a score out of range.\<close>

definition legacy_score :: "json \<Rightarrow> quality_error + int" where
  "legacy_score v =
     (case jint v of
        Inr i \<Rightarrow> if 1 \<le> i \<and> i \<le> 5 then Inr i else Inl MinScoreNotOneToFive
      | Inl Outside \<Rightarrow> Inl (QualityJson Outside)
      | Inl _ \<Rightarrow> Inl MinScoreNotOneToFive)"

definition LEGACY_MIN_SCORE_RIGOR :: "int \<Rightarrow> rigor" where
  "LEGACY_MIN_SCORE_RIGOR score = RIGORS ! nat (score - 1)"

definition rigor_from_legacy_min_score :: "json \<Rightarrow> quality_error + rigor" where
  "rigor_from_legacy_min_score v = res_bind (legacy_score v) (\<lambda>i. Inr (LEGACY_MIN_SCORE_RIGOR i))"

definition get_run_quality_rigor_policy :: "string \<Rightarrow> string \<Rightarrow> json \<Rightarrow> quality_error + rigor_policy" where
  "get_run_quality_rigor_policy rigor version legacy =
     (if version = ''quality-gate-v2'' \<and> legacy \<noteq> JNull
      then res_bind (legacy_score legacy) (\<lambda>score.
        Inr \<lparr>rg_rigor = LEGACY_MIN_SCORE_RIGOR score, rg_dimension_floor = score, rg_average_floor = of_int score,
             rg_outer_aggregate_floor = 75 / 100, rg_outer_critical_floor = 70 / 100\<rparr>)
      else get_quality_rigor_policy rigor)"

type_synonym scores = "int \<times> int \<times> int \<times> int"

fun score_list :: "scores \<Rightarrow> int list" where
  "score_list (a, b, c, d) = [a, b, c, d]"

fun min_score :: "scores \<Rightarrow> int" where
  "min_score (a, b, c, d) = min a (min b (min c d))"

fun average_score :: "scores \<Rightarrow> rat" where
  "average_score (a, b, c, d) = of_int (a + b + c + d) / 4"

definition scores_meet_runtime_policy :: "scores \<Rightarrow> rigor_policy \<Rightarrow> bool" where
  "scores_meet_runtime_policy s p \<longleftrightarrow> rg_dimension_floor p \<le> min_score s \<and> rg_average_floor p \<le> average_score s"

section \<open>Requirements\<close>

datatype requirement_kind = Factual | Process | Deliverable

text \<open>The two pattern tests of the compiler.\<close>

record kind_patterns =
  process_pattern :: "string \<Rightarrow> bool"
  deliverable_pattern :: "string \<Rightarrow> bool"

definition classify_requirement_kind :: "kind_patterns \<Rightarrow> string \<Rightarrow> requirement_kind" where
  "classify_requirement_kind pats text =
     (if process_pattern pats text then Process
      else if deliverable_pattern pats text then Deliverable else Factual)"

fun kind_of_value :: "json \<Rightarrow> requirement_kind option" where
  "kind_of_value (JStr s) =
     (if s = ''factual'' then Some Factual else if s = ''process'' then Some Process
      else if s = ''deliverable'' then Some Deliverable else None)"
| "kind_of_value _ = None"

definition is_delegable_requirement :: "(json \<Rightarrow> string) \<Rightarrow> kind_patterns \<Rightarrow> (string, json) dict \<Rightarrow> bool" where
  "is_delegable_requirement repr pats d =
     (let kind = kind_of_value (jget ''kind'' d)
      in if kind \<noteq> None \<and> kind \<noteq> Some Factual then False
         else classify_requirement_kind pats (py_text repr (jget_or ''text'' (JStr []) d)) = Factual)"

section \<open>Admission of a handoff\<close>

datatype admission_status = Accepted | AcceptedWithCaveats | Rejected

datatype coverage_status = Supported | Partial | Unsupported

record requirement_coverage =
  rc_requirement_id :: string
  rc_status :: coverage_status
  rc_evidence_ids :: "string list"

record handoff_input =
  hi_coverage :: "requirement_coverage list"
  hi_caveats :: "string list"
  hi_missing_information :: "string list"
  hi_unsupported_claims :: "string list"
  hi_checks_passed :: bool
  hi_scores :: scores
  hi_dimension_floor :: int
  hi_average_floor :: rat
  hi_caveat_admission :: bool
  hi_high_risk :: bool
  hi_failed_closed :: bool
  hi_additional_reasons :: "string list"

record handoff_result =
  hr_status :: admission_status
  hr_accepted :: bool
  hr_caveats :: "string list"
  hr_reasons :: "string list"

text \<open>\<open>coverage_by_id\<close>: the last entry of an identifier counts.\<close>

definition coverage_by_id :: "requirement_coverage list \<Rightarrow> (string, requirement_coverage) dict" where
  "coverage_by_id cs = fold (\<lambda>x. dict_set (rc_requirement_id x) x) cs []"

definition covered :: "requirement_coverage list \<Rightarrow> string \<Rightarrow> bool" where
  "covered cs rid \<longleftrightarrow>
     (case dict_get (coverage_by_id cs) rid of None \<Rightarrow> False | Some x \<Rightarrow> rc_status x = Supported)"

definition hard_reasons :: "handoff_input \<Rightarrow> string list \<Rightarrow> string list" where
  "hard_reasons h owned =
     hi_additional_reasons h @
     (if owned = [] then [''owned_requirements_missing''] else []) @
     (if \<not> hi_checks_passed h then [''deterministic_checks_failed''] else []) @
     (if hi_failed_closed h then [''quality_evaluator_failed_closed''] else []) @
     (if hi_unsupported_claims h \<noteq> [] then [''unsupported_claims''] else []) @
     (if min_score (hi_scores h) < hi_dimension_floor h then [''score_below_dimension_floor''] else []) @
     (if average_score (hi_scores h) < hi_average_floor h then [''score_below_average_floor''] else []) @
     map (\<lambda>rid. ''required_coverage_missing:'' @ rid) (filter (\<lambda>rid. \<not> covered (hi_coverage h) rid) owned)"

definition all_caveats :: "handoff_input \<Rightarrow> string list" where
  "all_caveats h = dedup (filter (\<lambda>s. s \<noteq> []) (map strip (hi_caveats h @ hi_missing_information h)))"

definition resolve_handoff_admission :: "handoff_input \<Rightarrow> string list \<Rightarrow> handoff_result" where
  "resolve_handoff_admission h owned_ids =
     (let owned = dedup owned_ids; reasons = hard_reasons h owned; caveats = all_caveats h
      in if reasons \<noteq> [] then
           \<lparr>hr_status = Rejected, hr_accepted = False, hr_caveats = caveats, hr_reasons = dedup reasons\<rparr>
         else if caveats \<noteq> [] then
           (if \<not> hi_caveat_admission h \<or> hi_high_risk h then
              \<lparr>hr_status = Rejected, hr_accepted = False, hr_caveats = caveats,
               hr_reasons = [if hi_high_risk h then ''high_risk_caveats_disallowed''
                 else ''caveat_admission_disabled'']\<rparr>
            else \<lparr>hr_status = AcceptedWithCaveats, hr_accepted = True, hr_caveats = caveats, hr_reasons = []\<rparr>)
         else \<lparr>hr_status = Accepted, hr_accepted = True, hr_caveats = [], hr_reasons = []\<rparr>)"

section \<open>The coverage ledger\<close>

record ledger_entry =
  le_status :: string
  le_evidence_ids :: "string list"
  le_task_ids :: "string list"
  le_caveats :: "string list"

type_synonym coverage_ledger = "(string, ledger_entry) dict"

record assessment =
  as_status :: admission_status
  as_caveats :: "string list"
  as_coverage :: "requirement_coverage list"

fun coverage_value :: "coverage_status \<Rightarrow> string" where
  "coverage_value Supported = ''supported''"
| "coverage_value Partial = ''partial''"
| "coverage_value Unsupported = ''unsupported''"

text \<open>\<open>statuses.get(status, 0)\<close>.\<close>

definition status_rank :: "string \<Rightarrow> nat" where
  "status_rank s = (if s = ''supported'' then 2 else if s = ''partial'' then 1 else 0)"

definition empty_entry :: ledger_entry where
  "empty_entry = \<lparr>le_status = ''unsupported'', le_evidence_ids = [], le_task_ids = [], le_caveats = []\<rparr>"

definition ledger_entry_of :: "coverage_ledger \<Rightarrow> string \<Rightarrow> ledger_entry" where
  "ledger_entry_of m rid = (case dict_get m rid of None \<Rightarrow> empty_entry | Some e \<Rightarrow> e)"

definition merge_mapped :: "string \<Rightarrow> string list \<Rightarrow> requirement_coverage \<Rightarrow> coverage_ledger \<Rightarrow> coverage_ledger" where
  "merge_mapped task caveats cov m =
     (let cur = ledger_entry_of m (rc_requirement_id cov); new = coverage_value (rc_status cov)
      in dict_set (rc_requirement_id cov)
           \<lparr>le_status = (if status_rank (le_status cur) \<le> status_rank new then new else le_status cur),
            le_evidence_ids = dedup (le_evidence_ids cur @ rc_evidence_ids cov),
            le_task_ids = dedup (le_task_ids cur @ [task]),
            le_caveats = dedup (le_caveats cur @ caveats)\<rparr> m)"

definition merge_unmapped :: "string \<Rightarrow> string list \<Rightarrow> string \<Rightarrow> coverage_ledger \<Rightarrow> coverage_ledger" where
  "merge_unmapped task caveats rid m =
     (let cur = ledger_entry_of m rid
      in dict_set rid
           (cur\<lparr>le_status := (if status_rank (le_status cur) < 1 then ''partial'' else le_status cur),
                le_task_ids := dedup (le_task_ids cur @ [task]),
                le_caveats := dedup (le_caveats cur @ caveats @ [''coverage_mapping_missing''])\<rparr>) m)"

definition merge_coverage_ledger ::
    "coverage_ledger \<Rightarrow> string \<Rightarrow> assessment \<Rightarrow> string list \<Rightarrow> coverage_ledger" where
  "merge_coverage_ledger m task a owned =
     (if as_status a = Rejected then m
      else (let m1 = fold (merge_mapped task (as_caveats a)) (as_coverage a) m
            in fold (merge_unmapped task (as_caveats a))
                 (filter (\<lambda>rid. rid \<notin> rc_requirement_id ` set (as_coverage a))
                   (dedup (filter (\<lambda>s. s \<noteq> []) owned))) m1))"

text \<open>The ledger in the state, as JSON: entries that are not dictionaries are dropped, and the lists are
  taken as written by this function, lists of strings.\<close>

definition read_entry :: "(json \<Rightarrow> string) \<Rightarrow> (string, json) dict \<Rightarrow> json_error + ledger_entry" where
  "read_entry repr d =
     res_bind (raw_strs (jget_or ''evidence_ids'' (JList []) d)) (\<lambda>evidence.
     res_bind (raw_strs (jget_or ''task_ids'' (JList []) d)) (\<lambda>tasks.
     res_bind (raw_strs (jget_or ''caveats'' (JList []) d)) (\<lambda>caveats.
       Inr \<lparr>le_status = py_text repr (jget_or ''status'' (JStr ''unsupported'') d), le_evidence_ids = evidence,
            le_task_ids = tasks, le_caveats = caveats\<rparr>)))"

fun read_ledger :: "(json \<Rightarrow> string) \<Rightarrow> (string, json) dict \<Rightarrow> json_error + coverage_ledger" where
  "read_ledger repr [] = Inr []"
| "read_ledger repr ((k, JObj d) # rest) =
     res_bind (read_entry repr d) (\<lambda>e. res_bind (read_ledger repr rest) (\<lambda>m. Inr ((k, e) # m)))"
| "read_ledger repr ((k, v) # rest) = read_ledger repr rest"

definition entry_json :: "ledger_entry \<Rightarrow> json" where
  "entry_json e = JObj [(''status'', JStr (le_status e)), (''evidence_ids'', JList (map JStr (le_evidence_ids e))),
     (''task_ids'', JList (map JStr (le_task_ids e))), (''caveats'', JList (map JStr (le_caveats e)))]"

definition ledger_json :: "coverage_ledger \<Rightarrow> (string, json) dict" where
  "ledger_json m = map (\<lambda>(k, e). (k, entry_json e)) m"

section \<open>Risk\<close>

record risk_profile =
  rp_level :: string
  rp_categories :: "string list"
  rp_rules :: "string list"

definition HIGH_RISK_RULES :: "(string \<times> string list) list" where
  "HIGH_RISK_RULES =
     [(''medical'', [''medical.diagnosis'', ''medical.treatment'', ''medical.prescription'', ''medical.emergency'']),
      (''legal'', [''legal.advice'', ''legal.litigation'', ''legal.liability'', ''legal.contract'']),
      (''finance'', [''finance.investment'', ''finance.trading'', ''finance.credit'', ''finance.tax'',
        ''finance.insurance''])]"

text \<open>\<open>matches\<close> tells whether the pattern of a rule is found in the text.\<close>

definition classify_research_risk ::
    "(string \<Rightarrow> string \<Rightarrow> bool) \<Rightarrow> string \<Rightarrow> string \<Rightarrow> string list \<Rightarrow> quality_error + risk_profile" where
  "classify_research_risk matches text mode skills =
     (let m = lower (strip mode)
      in if m \<notin> {''auto'', ''high'', ''standard''} then Inl (UnsupportedRiskMode mode)
         else if m = ''high'' then
           Inr \<lparr>rp_level = ''high'', rp_categories = [], rp_rules = [''config.force_high'']\<rparr>
         else if m = ''standard'' then
           Inr \<lparr>rp_level = ''standard'', rp_categories = [], rp_rules = [''config.force_standard'']\<rparr>
         else
           (let from_skills = filter (\<lambda>s. s \<in> fst ` set HIGH_RISK_RULES) (map (lower \<circ> strip) skills);
                hits = concat (map (\<lambda>(category, rules). map (Pair category) (filter (\<lambda>r. matches r text) rules))
                  HIGH_RISK_RULES);
                categories = from_skills @ map fst hits
            in Inr \<lparr>rp_level = (if categories = [] then ''standard'' else ''high''),
                 rp_categories = sort (remdups categories),
                 rp_rules = sort (remdups (map ((@) ''skill.'') from_skills @ map snd hits))\<rparr>))"

section \<open>Admission\<close>

text \<open>What a handoff must satisfy before caveats are looked at.\<close>

definition admissible :: "handoff_input \<Rightarrow> string list \<Rightarrow> bool" where
  "admissible h owned \<longleftrightarrow> hi_additional_reasons h = [] \<and> owned \<noteq> [] \<and> hi_checks_passed h \<and> \<not> hi_failed_closed h \<and>
     hi_unsupported_claims h = [] \<and> hi_dimension_floor h \<le> min_score (hi_scores h) \<and>
     hi_average_floor h \<le> average_score (hi_scores h) \<and> list_all (covered (hi_coverage h)) owned"

lemma dedup_Nil_iff [simp]: "dedup xs = [] \<longleftrightarrow> xs = []"
  by (metis list.set_intros(1) neq_Nil_conv set_dedup set_empty)

lemma hard_reasons_none: "hard_reasons h owned = [] \<longleftrightarrow> admissible h owned"
  by (auto simp: hard_reasons_def admissible_def filter_empty_conv list_all_iff not_less)

lemma admissible_dedup: "admissible h (dedup owned) \<longleftrightarrow> admissible h owned"
  by (simp add: admissible_def list_all_iff)

section \<open>The ledger\<close>

definition ledger_rank :: "coverage_ledger \<Rightarrow> string \<Rightarrow> nat" where
  "ledger_rank m rid = status_rank (le_status (ledger_entry_of m rid))"

lemma status_rank_value [simp]:
  "status_rank (coverage_value Supported) = 2" "status_rank (coverage_value Partial) = 1"
  "status_rank (coverage_value Unsupported) = 0"
  by (simp_all add: status_rank_def)

lemma status_rank_two: "2 \<le> status_rank s \<longleftrightarrow> s = ''supported''"
  by (simp add: status_rank_def)

lemma ledger_rank_mapped:
  "ledger_rank (merge_mapped task cs cov m) rid =
    (if rid = rc_requirement_id cov then max (ledger_rank m rid) (status_rank (coverage_value (rc_status cov)))
     else ledger_rank m rid)"
  by (auto simp: ledger_rank_def merge_mapped_def ledger_entry_of_def Let_def max_def)

lemma ledger_rank_unmapped:
  "ledger_rank (merge_unmapped task cs r m) rid =
    (if rid = r then max (ledger_rank m rid) 1 else ledger_rank m rid)"
  by (auto simp: ledger_rank_def merge_unmapped_def ledger_entry_of_def Let_def max_def status_rank_def)

lemma ledger_rank_mapped_fold:
  "ledger_rank m rid \<le> ledger_rank (fold (merge_mapped task cs) covs m) rid"
proof (induction covs arbitrary: m)
  case (Cons x covs)
  have "ledger_rank m rid \<le> ledger_rank (merge_mapped task cs x m) rid" by (simp add: ledger_rank_mapped)
  also note Cons.IH
  finally show ?case by simp
qed simp

lemma ledger_rank_unmapped_fold:
  "ledger_rank m rid \<le> ledger_rank (fold (merge_unmapped task cs) rids m) rid"
proof (induction rids arbitrary: m)
  case (Cons x rids)
  have "ledger_rank m rid \<le> ledger_rank (merge_unmapped task cs x m) rid" by (simp add: ledger_rank_unmapped)
  also note Cons.IH
  finally show ?case by simp
qed simp

lemma merge_rank: "ledger_rank m rid \<le> ledger_rank (merge_coverage_ledger m task a owned) rid"
  by (auto simp: merge_coverage_ledger_def Let_def
      intro: order_trans[OF ledger_rank_mapped_fold ledger_rank_unmapped_fold])

lemma mapped_fold_supported:
  "cov \<in> set covs \<Longrightarrow> rc_status cov = Supported \<Longrightarrow>
    2 \<le> ledger_rank (fold (merge_mapped task cs) covs m) (rc_requirement_id cov)"
proof (induction covs arbitrary: m)
  case (Cons x covs)
  then show ?case
  proof (cases "x = cov")
    case True
    have "2 \<le> ledger_rank (merge_mapped task cs cov m) (rc_requirement_id cov)"
      using Cons.prems(2) by (simp add: ledger_rank_mapped del: coverage_value.simps)
    also have "\<dots> \<le> ledger_rank (fold (merge_mapped task cs) covs (merge_mapped task cs cov m)) (rc_requirement_id cov)"
      by (rule ledger_rank_mapped_fold)
    finally show ?thesis using True by simp
  qed simp
qed simp

lemma coverage_by_id_in:
  assumes "dict_get (coverage_by_id cs) rid = Some x"
  shows "x \<in> set cs \<and> rc_requirement_id x = rid"
proof -
  have "dict_get (fold (\<lambda>x. dict_set (rc_requirement_id x) x) cs acc) rid = Some x \<Longrightarrow>
      (x \<in> set cs \<and> rc_requirement_id x = rid) \<or> dict_get acc rid = Some x" for acc
    by (induction cs arbitrary: acc) (force split: if_splits)+
  from this[of "[]"] assms show ?thesis by (simp add: coverage_by_id_def)
qed

lemma merge_supported:
  assumes "as_status a \<noteq> Rejected" "covered (as_coverage a) rid"
  shows "2 \<le> ledger_rank (merge_coverage_ledger m task a owned) rid"
proof -
  from assms(2) obtain x where x: "dict_get (coverage_by_id (as_coverage a)) rid = Some x" "rc_status x = Supported"
    by (auto simp: covered_def split: option.splits)
  from coverage_by_id_in[OF x(1)] have "x \<in> set (as_coverage a)" "rc_requirement_id x = rid" by auto
  with mapped_fold_supported[OF this(1) x(2)] assms(1) show ?thesis
    by (auto simp: merge_coverage_ledger_def Let_def intro: order_trans[OF _ ledger_rank_unmapped_fold])
qed

text \<open>Merging handoffs one after the other.\<close>

fun coverage_step :: "coverage_ledger \<Rightarrow> string \<times> assessment \<times> string list \<Rightarrow> coverage_ledger" where
  "coverage_step m (task, a, owned) = merge_coverage_ledger m task a owned"

interpretation coverage: ranked_machine coverage_step "\<lambda>m. True" "\<lambda>e. True" ledger_rank
  by unfold_locales (auto simp: le_fun_def merge_rank)

lemma read_ledger_json: "read_ledger repr (ledger_json m) = Inr m"
proof (induction m)
  case (Cons p m)
  obtain k e where "p = (k, e)" by (cases p)
  moreover have "jget_or ''status'' x [(''status'', JStr s), y, z, w] = JStr s" for x y z w s by simp
  ultimately show ?case using Cons
    by (cases e) (simp add: ledger_json_def entry_json_def read_entry_def py_text_def)
qed (simp add: ledger_json_def)

lemma admitted_supported:
  assumes "hr_accepted (resolve_handoff_admission h owned)" "rid \<in> set owned"
    and "as_coverage a = hi_coverage h" "as_status a = hr_status (resolve_handoff_admission h owned)"
  shows "le_status (ledger_entry_of (run coverage_step (merge_coverage_ledger m task a owned) later) rid) = ''supported''"
proof -
  from assms(1) have "admissible h owned" "hr_status (resolve_handoff_admission h owned) \<noteq> Rejected"
    using hard_reasons_none[of h "dedup owned"] admissible_dedup[of h owned]
    by (auto simp: resolve_handoff_admission_def Let_def split: if_splits)
  with assms(2-4) have "covered (as_coverage a) rid" "as_status a \<noteq> Rejected"
    by (auto simp: admissible_def list_all_iff)
  from merge_supported[OF this(2,1)] have "2 \<le> ledger_rank (merge_coverage_ledger m task a owned) rid" .
  also have "\<dots> \<le> ledger_rank (run coverage_step (merge_coverage_ledger m task a owned) later) rid"
    using coverage.rank_run[where s = "merge_coverage_ledger m task a owned" and es = later]
    by (auto simp: le_fun_def list_all_iff)
  finally show ?thesis by (simp add: ledger_rank_def status_rank_two)
qed

section \<open>Properties\<close>

definition sample_handoff :: handoff_input where
  "sample_handoff = \<lparr>hi_coverage = [\<lparr>rc_requirement_id = ''r1'', rc_status = Supported, rc_evidence_ids = [''e1'']\<rparr>],
     hi_caveats = [], hi_missing_information = [], hi_unsupported_claims = [], hi_checks_passed = True,
     hi_scores = (4, 4, 3, 4), hi_dimension_floor = 3, hi_average_floor = 3, hi_caveat_admission = True,
     hi_high_risk = False, hi_failed_closed = False, hi_additional_reasons = []\<rparr>"

text \<open>A handoff is admitted exactly when every hard rule holds (an owned requirement, all owned
  requirements supported by the last mapping of their identifier, no unsupported claim, the checks and
  the evaluator passed, scores at or above both floors, no other reason) and its caveats are none, or
  are allowed and the risk is not high; a refusal names a reason, an admission none.\<close>

lemma handoff_admission_decides:
  "let r = resolve_handoff_admission h owned
   in (hr_accepted r \<longleftrightarrow> admissible h owned \<and> (all_caveats h = [] \<or> hi_caveat_admission h \<and> \<not> hi_high_risk h)) \<and>
      (hr_status r = Rejected \<longleftrightarrow> hr_reasons r \<noteq> []) \<and> (hr_accepted r \<longleftrightarrow> hr_reasons r = []) \<and>
      (hr_status r = Accepted \<longleftrightarrow> hr_accepted r \<and> all_caveats h = []) \<and>
      (hr_status r = AcceptedWithCaveats \<longleftrightarrow> hr_accepted r \<and> all_caveats h \<noteq> [])"
  using hard_reasons_none[of h "dedup owned"] admissible_dedup[of h owned]
  by (auto simp: resolve_handoff_admission_def Let_def)

lemma handoff_admission_decides_witness:
  "hr_accepted (resolve_handoff_admission sample_handoff [''r1'']) \<longleftrightarrow>
    admissible sample_handoff [''r1''] \<and> (all_caveats sample_handoff = [] \<or> hi_caveat_admission sample_handoff \<and>
      \<not> hi_high_risk sample_handoff)"
  using handoff_admission_decides[of sample_handoff "[''r1'']"] by (simp add: Let_def)

text \<open>Rigor is a scale: scores that satisfy a policy satisfy every laxer one.\<close>

lemma rigor_is_a_scale:
  assumes "i \<le> j" "j < length RIGORS"
    and "scores_meet_runtime_policy s (QUALITY_RIGOR_POLICIES (RIGORS ! j))"
  shows "scores_meet_runtime_policy s (QUALITY_RIGOR_POLICIES (RIGORS ! i))"
proof -
  have "i < 5" "j < 5" using assms(1,2) by (simp_all add: RIGORS_def)
  then have "i \<in> {0, 1, 2, 3, 4}" "j \<in> {0, 1, 2, 3, 4}" by auto
  with assms(1,3) show ?thesis
    by (auto simp: RIGORS_def scores_meet_runtime_policy_def)
qed

lemma rigor_is_a_scale_witness:
  "scores_meet_runtime_policy (4, 4, 3, 5) (QUALITY_RIGOR_POLICIES Relaxed)"
proof -
  have "(1::nat) \<le> 3" "3 < length RIGORS" by (simp_all add: RIGORS_def)
  moreover have "scores_meet_runtime_policy (4, 4, 3, 5) (QUALITY_RIGOR_POLICIES (RIGORS ! 3))" by code_simp
  ultimately have "scores_meet_runtime_policy (4, 4, 3, 5) (QUALITY_RIGOR_POLICIES (RIGORS ! 1))"
    by (rule rigor_is_a_scale)
  then show ?thesis by (simp add: RIGORS_def)
qed

text \<open>The rigor a legacy minimum score is mapped to is not equivalent to it: except for score three, a run
  under the old gate and one under the mapped rigor disagree on some scores between one and five.\<close>

lemma legacy_rigor_differs:
  assumes "score \<in> {1, 2, 4, 5}"
  shows "\<exists>s. list_all (\<lambda>x. 1 \<le> x \<and> x \<le> 5) (score_list s) \<and>
    (\<exists>p. get_run_quality_rigor_policy rigor ''quality-gate-v2'' (JInt score) = Inr p \<and>
       scores_meet_runtime_policy s p \<noteq>
       scores_meet_runtime_policy s (QUALITY_RIGOR_POLICIES (LEGACY_MIN_SCORE_RIGOR score)))"
proof -
  have run: "\<exists>p. get_run_quality_rigor_policy rigor ''quality-gate-v2'' (JInt score) = Inr p \<and>
      rg_dimension_floor p = score \<and> rg_average_floor p = of_int score"
    using assms by (auto simp: get_run_quality_rigor_policy_def legacy_score_def)
  from assms consider "score = 1" | "score = 2" | "score = 4" | "score = 5" by auto
  then show ?thesis
  proof cases
    case 1
    with run show ?thesis
      by (intro exI[of _ "(1, 1, 1, 1)"]) (auto simp: scores_meet_runtime_policy_def LEGACY_MIN_SCORE_RIGOR_def RIGORS_def)
  next
    case 2
    with run show ?thesis
      by (intro exI[of _ "(2, 2, 2, 2)"]) (auto simp: scores_meet_runtime_policy_def LEGACY_MIN_SCORE_RIGOR_def RIGORS_def)
  next
    case 3
    with run show ?thesis
      by (intro exI[of _ "(3, 4, 4, 5)"]) (auto simp: scores_meet_runtime_policy_def LEGACY_MIN_SCORE_RIGOR_def RIGORS_def)
  next
    case 4
    with run show ?thesis
      by (intro exI[of _ "(4, 5, 5, 5)"]) (auto simp: scores_meet_runtime_policy_def LEGACY_MIN_SCORE_RIGOR_def RIGORS_def)
  qed
qed

lemma legacy_rigor_differs_witness:
  "\<exists>s. list_all (\<lambda>x. 1 \<le> x \<and> x \<le> 5) (score_list s) \<and>
    (\<exists>p. get_run_quality_rigor_policy ''balanced'' ''quality-gate-v2'' (JInt 5) = Inr p \<and>
       scores_meet_runtime_policy s p \<noteq> scores_meet_runtime_policy s (QUALITY_RIGOR_POLICIES VeryStrict))"
proof -
  have "(5 :: int) \<in> {1, 2, 4, 5}" by simp
  from legacy_rigor_differs[OF this, of "''balanced''"] show ?thesis
    by (simp add: LEGACY_MIN_SCORE_RIGOR_def RIGORS_def)
qed

end
