(* ===== verification/Completion.thy ===== *)
theory Completion
  imports Quality
begin

text \<open>
  When a research loop may stop (\<open>completion.py\<close>): the facts read from the state, with the evidence
  that passed the security gate (\<open>is_evidence_eligible\<close> of \<open>evidence.py\<close>) and the requirements of the
  coverage contract, and \<open>ResearchCompletionPolicy.evaluate\<close>, which decides on them. The state is a
  dictionary of JSON values; a value of another type than the code expects is \<open>Raises\<close> where Python
  raises.
\<close>

section \<open>Evidence\<close>

text \<open>The pattern of the placeholder: a bracket, the three words apart by white space, a bracket, in any
  case.\<close>

definition skip_word :: "string \<Rightarrow> string \<Rightarrow> string option" where
  "skip_word w s = (if starts_with (lower s) w then Some (drop (length w) s) else None)"

definition skip_spaces :: "nat \<Rightarrow> string \<Rightarrow> string option" where
  "skip_spaces n s = (if n \<le> length (takeWhile py_space s) then Some (dropWhile py_space s) else None)"

definition then_skip :: "string option \<Rightarrow> (string \<Rightarrow> string option) \<Rightarrow> string option" where
  "then_skip r f = (case r of None \<Rightarrow> None | Some s \<Rightarrow> f s)"

definition placeholder_at :: "string \<Rightarrow> bool" where
  "placeholder_at s \<longleftrightarrow>
     foldl then_skip (Some s)
       [skip_word ''['', skip_spaces 0, skip_word ''quarantined'', skip_spaces 1, skip_word ''external'',
        skip_spaces 1, skip_word ''content'', skip_spaces 0, skip_word '']''] \<noteq> None"

fun has_placeholder :: "string \<Rightarrow> bool" where
  "has_placeholder [] \<longleftrightarrow> False"
| "has_placeholder (ch # s) \<longleftrightarrow> placeholder_at (ch # s) \<or> has_placeholder s"

fun is_evidence_eligible :: "(json \<Rightarrow> string) \<Rightarrow> json \<Rightarrow> bool" where
  "is_evidence_eligible repr (JObj d) \<longleftrightarrow>
     jget_or ''security_status'' (JStr ''accepted'') d = JStr ''accepted'' \<and>
     \<not> has_placeholder (py_text repr (jget_or ''claim'' (JStr []) d)) \<and>
     \<not> has_placeholder (py_text repr (jget_or ''supporting_excerpt'' (JStr []) d))"
| "is_evidence_eligible repr v \<longleftrightarrow> False"

fun as_dict :: "json \<Rightarrow> (string, json) dict" where
  "as_dict (JObj d) = d"
| "as_dict v = []"

definition eligible_evidence_records :: "(json \<Rightarrow> string) \<Rightarrow> json list \<Rightarrow> (string, json) dict list" where
  "eligible_evidence_records repr xs = map as_dict (filter (is_evidence_eligible repr) xs)"

text \<open>The outputs of completed tasks add theirs, unless they were rejected.\<close>

fun output_evidence :: "(json \<Rightarrow> string) \<Rightarrow> json \<Rightarrow> json_error + (string, json) dict list" where
  "output_evidence repr (JObj d) =
     (if jget ''admission_status'' d = JStr ''rejected'' then Inr []
      else res_bind (jlist (jget_or ''evidence_registry'' (JList []) d)) (\<lambda>xs.
        Inr (eligible_evidence_records repr xs)))"
| "output_evidence repr v = Inr []"

definition accepted_evidence :: "(json \<Rightarrow> string) \<Rightarrow> (string, json) dict \<Rightarrow> json_error + (string, json) dict list" where
  "accepted_evidence repr state =
     res_bind (jlist (jget_or ''evidence_registry'' (JList []) state)) (\<lambda>xs.
     res_bind (jlist (jget_or ''completed_task_outputs'' (JList []) state)) (\<lambda>outputs.
     res_bind (res_map (output_evidence repr) outputs) (\<lambda>more.
       Inr (eligible_evidence_records repr xs @ concat more))))"

section \<open>Required coverage\<close>

fun raw_requirements :: "json \<Rightarrow> json_error + json list" where
  "raw_requirements (JObj d) = jlist (jget_or ''requirements'' (JList []) d)"
| "raw_requirements v = Inr []"

definition owned_requirement_ids :: "(json \<Rightarrow> string) \<Rightarrow> json list \<Rightarrow> string list" where
  "owned_requirement_ids repr xs = filter (\<lambda>s. s \<noteq> []) (map (py_text repr) xs)"

fun is_dict :: "json \<Rightarrow> bool" where
  "is_dict (JObj d) = True"
| "is_dict v = False"

definition contract_requirement_ids :: "(json \<Rightarrow> string) \<Rightarrow> kind_patterns \<Rightarrow> json list \<Rightarrow> string list" where
  "contract_requirement_ids repr pats items =
     map (\<lambda>v. py_text repr (jget ''requirement_id'' (as_dict v)))
       (filter (\<lambda>v. is_dict v \<and> jtruthy (jget ''requirement_id'' (as_dict v)) \<and>
          is_delegable_requirement repr pats (as_dict v)) items)"

definition required_ids :: "string list \<Rightarrow> string list \<Rightarrow> string list" where
  "required_ids owned contract =
     (let delegable = filter (\<lambda>rid. contract = [] \<or> rid \<in> set contract) owned
      in if delegable \<noteq> [] then delegable else contract)"

fun ledger_supports :: "json \<Rightarrow> string \<Rightarrow> bool" where
  "ledger_supports (JObj ledger) rid \<longleftrightarrow>
     (case dict_get ledger rid of Some (JObj e) \<Rightarrow> jget ''status'' e = JStr ''supported'' | _ \<Rightarrow> False)"
| "ledger_supports v rid \<longleftrightarrow> False"

definition uncovered_from_contract :: "(string, json) dict \<Rightarrow> string list \<Rightarrow> string list" where
  "uncovered_from_contract state rids =
     (case dict_get state ''coverage_ledger'' of
        None \<Rightarrow> []
      | Some ledger \<Rightarrow> filter (\<lambda>rid. \<not> ledger_supports ledger rid) rids)"

section \<open>The facts\<close>

record policy_context =
  pc_succeeded :: bool
  pc_failed :: bool
  pc_evidence_count :: nat
  pc_source_count :: nat
  pc_active_tasks :: int
  pc_conflicts :: "json list"
  pc_uncovered :: "string list"
  pc_has_budget :: bool
  pc_exhausted_reason :: "string option"
  pc_cancelled :: bool

text \<open>The arguments of the runtime.\<close>

record loop_facts =
  lf_succeeded :: bool
  lf_failed :: bool
  lf_active_tasks :: int
  lf_has_budget :: bool
  lf_exhausted_reason :: "string option"
  lf_cancelled :: bool

text \<open>\<open>state.get("result_assessment", {}).get(key, [])\<close>: anything but a dictionary raises.\<close>

fun assessment_list :: "string \<Rightarrow> json \<Rightarrow> json_error + json list" where
  "assessment_list key (JObj d) = jlist (jget_or key (JList []) d)"
| "assessment_list key v = Inl Raises"

definition source_urls :: "(json \<Rightarrow> string) \<Rightarrow> (string, json) dict list \<Rightarrow> string list" where
  "source_urls repr evidence =
     remdups (map (\<lambda>d. py_text repr (jget ''source_url'' d)) (filter (\<lambda>d. jtruthy (jget ''source_url'' d)) evidence))"

definition completion_policy_context ::
    "(json \<Rightarrow> string) \<Rightarrow> kind_patterns \<Rightarrow> (string, json) dict \<Rightarrow> loop_facts \<Rightarrow> json_error + policy_context" where
  "completion_policy_context repr pats state lf =
     res_bind (accepted_evidence repr state) (\<lambda>evidence.
     res_bind (raw_requirements (jget_or ''coverage_contract'' (JObj []) state)) (\<lambda>items.
     res_bind (jlist (jget_or ''requirement_ids'' (JList []) state)) (\<lambda>owned.
     res_bind (assessment_list ''unresolved_conflicts'' (jget_or ''result_assessment'' (JObj []) state)) (\<lambda>conflicts.
     res_bind (res_bind (assessment_list ''uncovered_requirements''
       (jget_or ''result_assessment'' (JObj []) state)) (jmapM jstr)) (\<lambda>uncovered.
       Inr \<lparr>pc_succeeded = lf_succeeded lf, pc_failed = lf_failed lf,
            pc_evidence_count = length evidence, pc_source_count = length (source_urls repr evidence),
            pc_active_tasks = lf_active_tasks lf, pc_conflicts = conflicts,
            pc_uncovered = dedup (uncovered_from_contract state
              (required_ids (owned_requirement_ids repr owned) (contract_requirement_ids repr pats items)) @ uncovered),
            pc_has_budget = lf_has_budget lf, pc_exhausted_reason = lf_exhausted_reason lf,
            pc_cancelled = lf_cancelled lf\<rparr>)))))"

section \<open>The decision\<close>

datatype completion_decision = ContinueWithGaps | Complete | CompletePartial | Terminate

record policy_result =
  pr_action :: completion_decision
  pr_reason :: string
  pr_gaps :: "string list"

record completion_policy =
  cp_min_evidence :: int
  cp_min_sources :: int

definition default_policy :: completion_policy where
  "default_policy = \<lparr>cp_min_evidence = 1, cp_min_sources = 1\<rparr>"

definition policy_gaps :: "completion_policy \<Rightarrow> policy_context \<Rightarrow> string list" where
  "policy_gaps p x =
     (if int (pc_evidence_count x) < cp_min_evidence p then [''accepted_evidence''] else []) @
     (if int (pc_source_count x) < cp_min_sources p then [''independent_sources''] else []) @
     (if pc_active_tasks x \<noteq> 0 then [''active_tasks''] else []) @
     (if pc_conflicts x \<noteq> [] then [''unresolved_conflicts''] else []) @
     (if pc_uncovered x \<noteq> [] then [''coverage_gaps''] else [])"

definition exhausted_text :: "string option \<Rightarrow> string" where
  "exhausted_text r = (case r of None \<Rightarrow> ''budget_exhausted'' | Some s \<Rightarrow> if s = [] then ''budget_exhausted'' else s)"

definition evaluate :: "completion_policy \<Rightarrow> policy_context \<Rightarrow> policy_result" where
  "evaluate p x =
     (let gaps = policy_gaps p x
      in if pc_cancelled x then \<lparr>pr_action = Terminate, pr_reason = ''cancelled'', pr_gaps = []\<rparr>
         else if pc_succeeded x \<and> gaps = [] then
           \<lparr>pr_action = Complete, pr_reason = ''explicit_completion'', pr_gaps = []\<rparr>
         else if \<not> pc_has_budget x then
           \<lparr>pr_action = (if 0 < pc_evidence_count x then CompletePartial else Terminate),
            pr_reason = exhausted_text (pc_exhausted_reason x), pr_gaps = gaps\<rparr>
         else if pc_failed x then
           \<lparr>pr_action = ContinueWithGaps, pr_reason = ''completion_signal_failed'', pr_gaps = gaps\<rparr>
         else if pc_succeeded x then
           \<lparr>pr_action = ContinueWithGaps, pr_reason = ''completion_requirements_unmet'', pr_gaps = gaps\<rparr>
         else if gaps = [] then
           \<lparr>pr_action = ContinueWithGaps, pr_reason = ''explicit_completion_required'',
            pr_gaps = [''explicit_completion'']\<rparr>
         else \<lparr>pr_action = ContinueWithGaps, pr_reason = ''research_gaps_remain'', pr_gaps = gaps\<rparr>)"

section \<open>Properties\<close>

lemma evaluate_complete:
  "pr_action (evaluate p x) = Complete \<longleftrightarrow> \<not> pc_cancelled x \<and> pc_succeeded x \<and> policy_gaps p x = []"
  by (simp add: evaluate_def Let_def)

lemma policy_gaps_none:
  "policy_gaps p x = [] \<longleftrightarrow> cp_min_evidence p \<le> int (pc_evidence_count x) \<and>
     cp_min_sources p \<le> int (pc_source_count x) \<and> pc_active_tasks x = 0 \<and> pc_conflicts x = [] \<and> pc_uncovered x = []"
  by (simp add: policy_gaps_def not_less)

lemma eligible_list: "list_all (\<lambda>d. is_evidence_eligible repr (JObj d)) (eligible_evidence_records repr xs)"
proof -
  have "is_evidence_eligible repr v \<Longrightarrow> is_evidence_eligible repr (JObj (as_dict v))" for v by (cases v) auto
  then show ?thesis by (auto simp: eligible_evidence_records_def list_all_iff simp del: is_evidence_eligible.simps)
qed

lemma output_eligible: "output_evidence repr v = Inr ds \<Longrightarrow> list_all (\<lambda>d. is_evidence_eligible repr (JObj d)) ds"
  using eligible_list by (cases v) (auto simp: res_bind_Inr split: if_splits)

lemma accepted_eligible:
  assumes "accepted_evidence repr state = Inr ds"
  shows "list_all (\<lambda>d. is_evidence_eligible repr (JObj d)) ds"
proof -
  have "res_map (output_evidence repr) xs = Inr more \<Longrightarrow>
      list_all (\<lambda>d. is_evidence_eligible repr (JObj d)) (concat more)" for xs more
    by (induction xs arbitrary: more) (auto simp: res_bind_Inr dest: output_eligible)
  with assms eligible_list show ?thesis by (auto simp: accepted_evidence_def res_bind_Inr)
qed


definition done_state :: "(string, json) dict" where
  "done_state =
     [(''evidence_registry'', JList [JObj [(''claim'', JStr ''c''), (''source_url'', JStr ''https://a'')],
         JObj [(''claim'', JStr ''[ Quarantined external  content]''), (''source_url'', JStr ''https://b'')]]),
      (''coverage_contract'', JObj [(''requirements'', JList [JObj [(''requirement_id'', JStr ''r1''), (''text'', JStr ''t'')]])]),
      (''requirement_ids'', JList [JStr ''r1'']),
      (''coverage_ledger'', JObj (ledger_json [(''r1'', empty_entry\<lparr>le_status := ''supported''\<rparr>)]))]"

definition plain_patterns :: kind_patterns where
  "plain_patterns = \<lparr>process_pattern = (\<lambda>s. False), deliverable_pattern = (\<lambda>s. False)\<rparr>"

definition success_facts :: loop_facts where
  "success_facts = \<lparr>lf_succeeded = True, lf_failed = False, lf_active_tasks = 0, lf_has_budget = True,
     lf_exhausted_reason = None, lf_cancelled = False\<rparr>"


lemma ledger_supports_json:
  "ledger_supports (JObj (ledger_json m)) rid \<longleftrightarrow> le_status (ledger_entry_of m rid) = ''supported''"
proof -
  have "dict_get (ledger_json m) rid = map_option entry_json (dict_get m rid)"
    by (induction m) (auto simp: ledger_json_def)
  then show ?thesis by (simp add: ledger_entry_of_def empty_entry_def entry_json_def split: option.splits)
qed

text \<open>What was admitted stays covered: after an admitted handoff is merged into the ledger of the state,
  whatever handoffs are merged later, none of the requirements it owns is among the uncovered ones
  the completion policy is shown.\<close>

lemma admitted_requirements_stay_covered:
  assumes "hr_accepted (resolve_handoff_admission h owned)" "rid \<in> set owned"
    and "as_coverage a = hi_coverage h" "as_status a = hr_status (resolve_handoff_admission h owned)"
    and "dict_get state ''coverage_ledger'' =
      Some (JObj (ledger_json (run coverage_step (merge_coverage_ledger m task a owned) later)))"
  shows "rid \<notin> set (uncovered_from_contract state rids)"
  using admitted_supported[OF assms(1-4), of m task later] assms(5)
  by (simp add: uncovered_from_contract_def ledger_supports_json del: ledger_supports.simps)

definition late_handoff :: assessment where
  "late_handoff = \<lparr>as_status = AcceptedWithCaveats, as_caveats = [''stale''],
     as_coverage = [\<lparr>rc_requirement_id = ''r1'', rc_status = Unsupported, rc_evidence_ids = []\<rparr>]\<rparr>"

lemma admitted_requirements_stay_covered_witness:
  "''r1'' \<notin> set (uncovered_from_contract [(''coverage_ledger'', JObj (ledger_json
      (run coverage_step (merge_coverage_ledger [] ''t1''
        \<lparr>as_status = Accepted, as_caveats = [], as_coverage = hi_coverage sample_handoff\<rparr> [''r1''])
        [(''t2'', late_handoff, [''r1''])])))] [''r1''])"
proof -
  let ?a = "\<lparr>as_status = Accepted, as_caveats = [], as_coverage = hi_coverage sample_handoff\<rparr>"
  let ?m = "run coverage_step (merge_coverage_ledger [] ''t1'' ?a [''r1'']) [(''t2'', late_handoff, [''r1''])]"
  have "resolve_handoff_admission sample_handoff [''r1''] =
      \<lparr>hr_status = Accepted, hr_accepted = True, hr_caveats = [], hr_reasons = []\<rparr>" by code_simp
  then have pre: "hr_accepted (resolve_handoff_admission sample_handoff [''r1''])" "''r1'' \<in> set [''r1'']"
    "as_coverage ?a = hi_coverage sample_handoff"
    "as_status ?a = hr_status (resolve_handoff_admission sample_handoff [''r1''])" by simp_all
  have "dict_get [(''coverage_ledger'', JObj (ledger_json ?m))] ''coverage_ledger'' = Some (JObj (ledger_json ?m))"
    by simp
  from admitted_requirements_stay_covered[OF pre this] show ?thesis .
qed

text \<open>A loop without budget stops: the policy never answers \<open>continue\<close> to it, it completes in full only
  without a gap, partially exactly when some evidence was admitted; and with budget left it never
  stops without success or a cancellation.\<close>

lemma exhausted_loops_stop:
  "(\<not> pc_has_budget x \<longrightarrow> pr_action (evaluate p x) \<noteq> ContinueWithGaps) \<and>
   (pr_action (evaluate p x) = Terminate \<longleftrightarrow> pc_cancelled x \<or>
      \<not> pc_has_budget x \<and> pc_evidence_count x = 0 \<and> \<not> (pc_succeeded x \<and> policy_gaps p x = [])) \<and>
   (pr_action (evaluate p x) = CompletePartial \<longleftrightarrow> \<not> pc_cancelled x \<and> \<not> pc_has_budget x \<and>
      0 < pc_evidence_count x \<and> \<not> (pc_succeeded x \<and> policy_gaps p x = [])) \<and>
   (pr_action (evaluate p x) = ContinueWithGaps \<longrightarrow> pr_gaps (evaluate p x) \<noteq> [] \<or> pc_failed x)"
  by (auto simp: evaluate_def Let_def)

lemma exhausted_loops_stop_witness:
  "pr_action (evaluate default_policy \<lparr>pc_succeeded = False, pc_failed = False, pc_evidence_count = 2,
     pc_source_count = 1, pc_active_tasks = 0, pc_conflicts = [], pc_uncovered = [''r1''], pc_has_budget = False,
     pc_exhausted_reason = None, pc_cancelled = False\<rparr>) = CompletePartial"
  using exhausted_loops_stop[of "\<lparr>pc_succeeded = False, pc_failed = False, pc_evidence_count = 2,
     pc_source_count = 1, pc_active_tasks = 0, pc_conflicts = [], pc_uncovered = [''r1''], pc_has_budget = False,
     pc_exhausted_reason = None, pc_cancelled = False\<rparr>" default_policy]
  by simp

end
