(* ===== verification/Sandbox_Operations.thy ===== *)
theory Sandbox_Operations
  imports Budgets Mailbox Py_Values
begin

text \<open>
  What the API decides for sandboxed model calls: the replay cache and the request clock
  (\<open>NonceReplayCache\<close> and \<open>validate_timestamp\<close> of \<open>sandbox/crypto.py\<close>), the journal of model operations
  (\<open>sandbox/operations.py\<close>) and the budget and operation routes of the internal router
  (\<open>sandbox/internal_api.py\<close>), which check the caller before they touch either.

  \<open>nonce_cache\<close> is the object's state; its heap is a list sorted by expiry, and \<open>operations\<close> is a run's
  directory of records by the digest of their identifier. HMAC, SHA-256, the JSON of a request, the
  clock readings and the registry of live runs are arguments.
\<close>

section \<open>Replay protection\<close>

type_synonym nonce_key = "string \<times> string"

record nonce_cache =
  nc_seen :: "(nonce_key, seconds) dict"
  nc_expirations :: "(seconds \<times> nonce_key) list"

definition empty_cache :: nonce_cache where
  "empty_cache = \<lparr>nc_seen = [], nc_expirations = []\<rparr>"

datatype sandbox_error =
  NonceInvalid | NonceReplayed | TimestampOutOfRange | RootKeyMissing | ServiceAuthInvalid
| RunNotActive | StaleSandboxFence
| OperationAlreadyTerminal | UnknownOperation string | TerminalMismatch | InvalidTransition
| SandboxBudget budget_error | SandboxTask mailbox_error

fun expire_nonces :: "seconds \<Rightarrow> (nonce_key, seconds) dict \<Rightarrow> (seconds \<times> nonce_key) list \<Rightarrow> nonce_cache" where
  "expire_nonces now seen [] = \<lparr>nc_seen = seen, nc_expirations = []\<rparr>"
| "expire_nonces now seen ((expiry, key) # rest) =
     (if expiry \<le> now
      then expire_nonces now (if dict_get seen key = Some expiry then dict_del key seen else seen) rest
      else \<lparr>nc_seen = seen, nc_expirations = (expiry, key) # rest\<rparr>)"

definition push_expiry :: "seconds \<Rightarrow> nonce_key \<Rightarrow> (seconds \<times> nonce_key) list \<Rightarrow> (seconds \<times> nonce_key) list" where
  "push_expiry expiry key xs = insort_key fst (expiry, key) xs"

definition consume_nonce ::
    "string \<Rightarrow> string \<Rightarrow> seconds \<Rightarrow> seconds \<Rightarrow> nonce_cache \<Rightarrow> (sandbox_error + unit) \<times> nonce_cache" where
  "consume_nonce jti nonce expires now c =
     (if length nonce < 16 \<or> 256 < length nonce then (Inl NonceInvalid, c)
      else (let c1 = expire_nonces now (nc_seen c) (nc_expirations c); key = (jti, nonce)
            in if dict_get (nc_seen c1) key \<noteq> None then (Inl NonceReplayed, c1)
               else (Inr (), \<lparr>nc_seen = dict_set key expires (nc_seen c1),
                              nc_expirations = push_expiry expires key (nc_expirations c1)\<rparr>)))"

definition validate_timestamp :: "seconds \<Rightarrow> seconds \<Rightarrow> sandbox_error + unit" where
  "validate_timestamp timestamp now = (if \<bar>now - timestamp\<bar> > 30 then Inl TimestampOutOfRange else Inr ())"

section \<open>The operation journal\<close>

datatype op_status = OpReserved | OpDispatched | OpCompleted | OpFailed | OpUncertain

record op_record =
  op_task_id :: string
  op_stage :: string
  op_logical_id :: string
  op_attempt :: string
  op_attempts :: "string list"
  op_status :: op_status
  op_outcome :: "(string, json) dict option"
  op_error_type :: "string option"
  op_created_at :: seconds
  op_updated_at :: seconds
  op_version :: int

type_synonym operations = "(string, op_record) dict"

definition RETRYABLE_FAILED_ERROR_TYPES :: "string list" where
  "RETRYABLE_FAILED_ERROR_TYPES = [''rate_limited'', ''transient'', ''model_unavailable'']"

definition retryable_failure :: "op_record \<Rightarrow> bool" where
  "retryable_failure r \<longleftrightarrow> op_status r = OpFailed \<and>
     (case op_error_type r of None \<Rightarrow> False | Some t \<Rightarrow> t \<in> set RETRYABLE_FAILED_ERROR_TYPES)"

definition op_get :: "(string \<Rightarrow> string) \<Rightarrow> string \<Rightarrow> operations \<Rightarrow> op_record option" where
  "op_get sha lid ops = dict_get ops (sha lid)"

record reserve_request =
  rq_task_id :: string
  rq_stage :: string
  rq_logical_id :: string
  rq_attempt :: string

definition new_attempt :: "string \<Rightarrow> seconds \<Rightarrow> op_record \<Rightarrow> op_record" where
  "new_attempt attempt now r =
     (let r1 = r\<lparr>op_attempts := op_attempts r @ [attempt], op_attempt := attempt,
                 op_updated_at := now, op_version := op_version r + 1\<rparr>
      in if retryable_failure r then r1\<lparr>op_status := OpReserved, op_outcome := None, op_error_type := None\<rparr>
         else r1)"

definition op_reserve ::
    "(string \<Rightarrow> string) \<Rightarrow> reserve_request \<Rightarrow> seconds \<Rightarrow> operations \<Rightarrow> (sandbox_error + op_record) \<times> operations" where
  "op_reserve sha q now ops =
     (case op_get sha (rq_logical_id q) ops of
        Some r \<Rightarrow>
          if rq_attempt q \<in> set (op_attempts r) then (Inr r, ops)
          else if op_status r \<in> {OpCompleted, OpUncertain} \<or> op_status r = OpFailed \<and> \<not> retryable_failure r
          then (Inl OperationAlreadyTerminal, ops)
          else (let r' = new_attempt (rq_attempt q) now r in (Inr r', dict_set (sha (rq_logical_id q)) r' ops))
      | None \<Rightarrow>
          (case validate_component (rq_task_id q) ''task_id'' of
             Inl e \<Rightarrow> (Inl (SandboxTask e), ops)
           | Inr task \<Rightarrow>
               (let r = \<lparr>op_task_id = task, op_stage = rq_stage q, op_logical_id = rq_logical_id q,
                         op_attempt = rq_attempt q, op_attempts = [rq_attempt q], op_status = OpReserved,
                         op_outcome = None, op_error_type = None, op_created_at = now, op_updated_at = now,
                         op_version = 1\<rparr>
                in (Inr r, dict_set (sha (rq_logical_id q)) r ops))))"

definition op_transition ::
    "(string \<Rightarrow> string) \<Rightarrow> string \<Rightarrow> op_status set \<Rightarrow> op_status \<Rightarrow> (string, json) dict option \<Rightarrow> string option \<Rightarrow>
      seconds \<Rightarrow> operations \<Rightarrow> (sandbox_error + op_record) \<times> operations" where
  "op_transition sha lid expected status outcome err now ops =
     (case op_get sha lid ops of
        None \<Rightarrow> (Inl (UnknownOperation lid), ops)
      | Some r \<Rightarrow>
          if op_status r = status then
            (if op_outcome r \<noteq> outcome \<or> op_error_type r \<noteq> err then (Inl TerminalMismatch, ops) else (Inr r, ops))
          else if op_status r \<notin> expected then (Inl InvalidTransition, ops)
          else (let r' = r\<lparr>op_status := status, op_outcome := outcome, op_error_type := err,
                           op_updated_at := now, op_version := op_version r + 1\<rparr>
                in (Inr r', dict_set (sha lid) r' ops)))"

section \<open>The internal router\<close>

text \<open>\<open>sr_signature_ok\<close> is the HMAC test of a request under a root key; \<open>live_runs\<close> gives the fence token of
  each live run and its root key, which is empty when none is configured.\<close>

record service_request =
  sr_timestamp :: seconds
  sr_nonce :: string
  sr_run_id :: string
  sr_fence_token :: int
  sr_signature_ok :: "string \<Rightarrow> bool"

type_synonym live_runs = "(string, int \<times> string) dict"

text \<open>The clock is read for the time stamp, for the expiry and inside the cache.\<close>

type_synonym readings = "seconds \<times> seconds \<times> seconds"

definition nonce_scope :: "(int \<Rightarrow> string) \<Rightarrow> int \<Rightarrow> string" where
  "nonce_scope number fence = ''service:'' @ number fence"

definition authorize ::
    "(int \<Rightarrow> string) \<Rightarrow> service_request \<Rightarrow> int \<times> string \<Rightarrow> readings \<Rightarrow> nonce_cache \<Rightarrow>
      (sandbox_error + unit) \<times> nonce_cache" where
  "authorize number q ctx t c =
     (case validate_timestamp (sr_timestamp q) (fst t) of
        Inl e \<Rightarrow> (Inl e, c)
      | Inr _ \<Rightarrow>
          if snd ctx = [] then (Inl RootKeyMissing, c)
          else if \<not> sr_signature_ok q (snd ctx) then (Inl ServiceAuthInvalid, c)
          else consume_nonce (nonce_scope number (fst ctx)) (sr_nonce q) (fst (snd t) + 60) (snd (snd t)) c)"

definition authority ::
    "(int \<Rightarrow> string) \<Rightarrow> live_runs \<Rightarrow> service_request \<Rightarrow> readings \<Rightarrow> nonce_cache \<Rightarrow>
      (sandbox_error + int \<times> string) \<times> nonce_cache" where
  "authority number runs q t c =
     (case dict_get runs (sr_run_id q) of
        None \<Rightarrow> (Inl RunNotActive, c)
      | Some ctx \<Rightarrow>
          (case authorize number q ctx t c of
             (Inl e, c1) \<Rightarrow> (Inl e, c1)
           | (Inr _, c1) \<Rightarrow>
               if sr_fence_token q \<noteq> fst ctx then (Inl StaleSandboxFence, c1) else (Inr ctx, c1)))"

text \<open>The cache belongs to the router; the budget ledger and the journal are files of each run.\<close>

record run_files =
  sb_ledger :: ledger
  sb_operations :: operations

record sandbox_api =
  sb_cache :: nonce_cache
  sb_files :: "string \<Rightarrow> run_files"

datatype op_target = ToDispatched | ToCompleted | ToFailed | ToUncertain

fun target_status :: "op_target \<Rightarrow> op_status" where
  "target_status ToDispatched = OpDispatched"
| "target_status ToCompleted = OpCompleted"
| "target_status ToFailed = OpFailed"
| "target_status ToUncertain = OpUncertain"

fun expected_before :: "op_target \<Rightarrow> op_status set" where
  "expected_before ToDispatched = {OpReserved}"
| "expected_before ToCompleted = {OpDispatched}"
| "expected_before ToFailed = {OpReserved, OpDispatched}"
| "expected_before ToUncertain = {OpReserved, OpDispatched}"

datatype route =
  ReserveBudget reserve_request string int int
| SettleBudget string string int int
| FailBudget string bool
| ReserveTool string
| SettleTool string
| GetOperation string
| TransitionOperation string op_target "(string, json) dict option" "string option"

text \<open>The routes below the authority check, on the files of the run. \<open>gate\<close> is the budget gate the route
  builds from the run's configuration.\<close>

definition budget_result :: "run_files \<Rightarrow> (budget_error + unit) \<times> ledger \<Rightarrow> (sandbox_error + op_record option) \<times> run_files" where
  "budget_result s r =
     (case r of (Inl e, l) \<Rightarrow> (Inl (SandboxBudget e), s\<lparr>sb_ledger := l\<rparr>)
      | (Inr _, l) \<Rightarrow> (Inr None, s\<lparr>sb_ledger := l\<rparr>))"

definition operation_result ::
    "run_files \<Rightarrow> (sandbox_error + op_record) \<times> operations \<Rightarrow> (sandbox_error + op_record option) \<times> run_files" where
  "operation_result s r =
     (case r of (Inl e, ops) \<Rightarrow> (Inl e, s\<lparr>sb_operations := ops\<rparr>)
      | (Inr x, ops) \<Rightarrow> (Inr (Some x), s\<lparr>sb_operations := ops\<rparr>))"

fun serve ::
    "(string \<Rightarrow> string) \<Rightarrow> budget_gate \<Rightarrow> seconds \<Rightarrow> (nat \<Rightarrow> string \<times> seconds) \<Rightarrow> route \<Rightarrow> run_files \<Rightarrow>
      (sandbox_error + op_record option) \<times> run_files" where
  "serve sha gate now stamps (ReserveBudget q model est_in est_out) s =
     (case budget_result s (reserve_model_call gate now stamps (rq_attempt q) est_in est_out model (sb_ledger s)) of
        (Inl e, s1) \<Rightarrow> (Inl e, s1)
      | (Inr _, s1) \<Rightarrow> operation_result s1 (op_reserve sha q now (sb_operations s1)))"
| "serve sha gate now stamps (SettleBudget attempt model tokens_in tokens_out) s =
     budget_result s (settle_model_call gate attempt tokens_in tokens_out model (sb_ledger s))"
| "serve sha gate now stamps (FailBudget attempt uncertain) s =
     budget_result s (fail_model_call gate attempt uncertain (sb_ledger s))"
| "serve sha gate now stamps (ReserveTool lid) s =
     budget_result s (reserve_tool_call gate now (stamps 0) lid (sb_ledger s))"
| "serve sha gate now stamps (SettleTool lid) s = budget_result s (settle_tool_call gate lid (sb_ledger s))"
| "serve sha gate now stamps (GetOperation lid) s = (Inr (op_get sha lid (sb_operations s)), s)"
| "serve sha gate now stamps (TransitionOperation lid target outcome err) s =
     operation_result s (op_transition sha lid (expected_before target) (target_status target) outcome err now
       (sb_operations s))"

record api_call =
  ac_request :: service_request
  ac_route :: route
  ac_times :: readings
  ac_now :: seconds
  ac_stamps :: "nat \<Rightarrow> string \<times> seconds"

definition handle ::
    "(int \<Rightarrow> string) \<Rightarrow> (string \<Rightarrow> string) \<Rightarrow> budget_gate \<Rightarrow> live_runs \<Rightarrow> api_call \<Rightarrow> sandbox_api \<Rightarrow>
      (sandbox_error + op_record option) \<times> sandbox_api" where
  "handle number sha gate runs a s =
     (case authority number runs (ac_request a) (ac_times a) (sb_cache s) of
        (Inl e, c) \<Rightarrow> (Inl e, s\<lparr>sb_cache := c\<rparr>)
      | (Inr _, c) \<Rightarrow>
          (let rid = sr_run_id (ac_request a);
               (res, fs) = serve sha gate (ac_now a) (ac_stamps a) (ac_route a) (sb_files s rid)
           in (res, s\<lparr>sb_cache := c, sb_files := (sb_files s)(rid := fs)\<rparr>)))"

section \<open>The gateway's recovery\<close>

text \<open>What the gateway reads of an operation it finds in the journal: an answer that ends the request, or
  nothing, and it goes on to dispatch.\<close>

datatype recovery = Answer "(string, json) dict" | UncertainDispatch string | GoOn

fun truthy_outcome :: "(string, json) dict option \<Rightarrow> (string, json) dict option" where
  "truthy_outcome None = None"
| "truthy_outcome (Some d) = (if d = [] then None else Some d)"

definition recover_operation :: "op_record option \<Rightarrow> recovery" where
  "recover_operation found =
     (case found of
        None \<Rightarrow> GoOn
      | Some r \<Rightarrow>
          (case (op_status r, truthy_outcome (op_outcome r)) of
             (OpCompleted, Some d) \<Rightarrow> Answer d
           | (OpUncertain, Some d) \<Rightarrow> Answer d
           | (OpFailed, Some d) \<Rightarrow>
               (case jget ''error_type'' d of
                  JStr t \<Rightarrow> if t \<in> set RETRYABLE_FAILED_ERROR_TYPES then GoOn else Answer d
                | _ \<Rightarrow> Answer d)
           | (OpDispatched, _) \<Rightarrow> UncertainDispatch (if op_attempt r = [] then ''unknown'' else op_attempt r)
           | _ \<Rightarrow> GoOn))"

section \<open>Nonces are kept\<close>

lemma dict_get_del: "dict_get (dict_del k d) k' = (if k' = k then None else dict_get d k')"
  by (induction d) (auto simp: dict_del_def)

lemma expire_keeps:
  "dict_get seen key = Some expiry \<Longrightarrow> now < expiry \<Longrightarrow>
    dict_get (nc_seen (expire_nonces now seen heap)) key = Some expiry"
proof (induction now seen heap rule: expire_nonces.induct)
  case (2 now seen expiry' key' rest)
  then have "dict_get (if dict_get seen key' = Some expiry' then dict_del key' seen else seen) key = Some expiry"
    if "expiry' \<le> now" using that by (auto simp: dict_get_del)
  with 2 show ?case by simp
qed simp

lemma consume_keeps:
  assumes "dict_get (nc_seen c) key = Some expiry" "now < expiry"
  shows "dict_get (nc_seen (snd (consume_nonce jti nonce expires now c))) key = Some expiry"
  using expire_keeps[OF assms, of "nc_expirations c"] assms(1)
  by (auto simp: consume_nonce_def Let_def)

lemma consume_refused:
  assumes "dict_get (nc_seen c) (jti, nonce) = Some expiry" "now < expiry"
  shows "\<exists>e. fst (consume_nonce jti nonce expires now c) = Inl e"
  using expire_keeps[OF assms, of "nc_expirations c"] by (auto simp: consume_nonce_def Let_def)

lemma consume_seen:
  assumes "consume_nonce jti nonce expires now c = (Inr (), c')"
  shows "dict_get (nc_seen c') (jti, nonce) = Some expires"
  using assms by (auto simp: consume_nonce_def Let_def split: if_splits)

lemma authorize_cache:
  "snd (authorize number q ctx t c) = c \<or>
   snd (authorize number q ctx t c) =
     snd (consume_nonce (nonce_scope number (fst ctx)) (sr_nonce q) (fst (snd t) + 60) (snd (snd t)) c)"
  by (simp add: authorize_def split: sum.splits)

lemma authority_cache:
  "snd (authority number runs q t c) = c \<or>
   (\<exists>jti nonce expires. snd (authority number runs q t c) =
     snd (consume_nonce jti nonce expires (snd (snd t)) c))"
proof (cases "dict_get runs (sr_run_id q)")
  case (Some ctx)
  then have "snd (authority number runs q t c) = snd (authorize number q ctx t c)"
    by (simp add: authority_def split: prod.splits sum.splits)
  with authorize_cache[of number q ctx t c] show ?thesis by metis
qed (simp add: authority_def)

lemma authority_keeps:
  assumes "dict_get (nc_seen c) key = Some expiry" "snd (snd t) < expiry"
  shows "dict_get (nc_seen (snd (authority number runs q t c))) key = Some expiry"
  using authority_cache[of number runs q t c] consume_keeps[OF assms] assms(1) by metis

lemma authority_accepted:
  assumes "authority number runs q t c = (Inr ctx, c')"
  shows "fst ctx = sr_fence_token q" "\<bar>fst t - sr_timestamp q\<bar> \<le> 30"
    "consume_nonce (nonce_scope number (sr_fence_token q)) (sr_nonce q) (fst (snd t) + 60) (snd (snd t)) c = (Inr (), c')"
  using assms
  by (auto simp: authority_def authorize_def validate_timestamp_def split: option.splits prod.splits sum.splits if_splits)

text \<open>A later sequence of checks, with any live runs.\<close>

fun cache_step :: "(int \<Rightarrow> string) \<Rightarrow> nonce_cache \<Rightarrow> live_runs \<times> service_request \<times> readings \<Rightarrow> nonce_cache" where
  "cache_step number c (runs, q, t) = snd (authority number runs q t c)"

interpretation nonces: machine "cache_step number" "\<lambda>c. dict_get (nc_seen c) key = Some expiry"
    "\<lambda>(runs, q, t). snd (snd t) < expiry"
  for number key expiry
  by unfold_locales (auto simp: authority_keeps)

section \<open>Operations end once\<close>

definition op_final :: "op_record \<Rightarrow> bool" where
  "op_final r \<longleftrightarrow> op_status r \<in> {OpCompleted, OpUncertain} \<or> op_status r = OpFailed \<and> \<not> retryable_failure r"

lemma op_reserve_final:
  "dict_get ops k = Some r \<Longrightarrow> op_final r \<Longrightarrow> dict_get (snd (op_reserve sha q now ops)) k = Some r"
  by (auto simp: op_reserve_def op_get_def op_final_def Let_def split: option.splits sum.splits)

lemma op_transition_final:
  "dict_get ops k = Some r \<Longrightarrow> op_final r \<Longrightarrow>
    dict_get (snd (op_transition sha lid (expected_before target) (target_status target) outcome err now ops)) k = Some r"
  by (cases target) (auto simp: op_transition_def op_get_def op_final_def Let_def split: option.splits)

lemma budget_result_ops [simp]:
  "sb_operations (snd (budget_result s r)) = sb_operations s"
  by (auto simp: budget_result_def split: prod.splits sum.splits)

lemma operation_result_ops [simp]:
  "sb_operations (snd (operation_result s r)) = snd r" "sb_ledger (snd (operation_result s r)) = sb_ledger s"
  by (auto simp: operation_result_def split: prod.splits sum.splits)

lemma serve_final:
  assumes "dict_get (sb_operations s) k = Some r" "op_final r"
  shows "dict_get (sb_operations (snd (serve sha gate now stamps rt s))) k = Some r"
proof (cases rt)
  case (ReserveBudget q model est_in est_out)
  obtain x s1 where b: "budget_result s (reserve_model_call gate now stamps (rq_attempt q) est_in est_out model
      (sb_ledger s)) = (x, s1)" by fastforce
  with budget_result_ops[of s] have "sb_operations s1 = sb_operations s" by (metis snd_conv)
  with assms ReserveBudget b show ?thesis by (cases x) (simp_all add: op_reserve_final)
next
  case (TransitionOperation lid target outcome err)
  with assms show ?thesis by (simp add: op_transition_final)
qed (use assms in simp_all)

fun api_step ::
    "(int \<Rightarrow> string) \<Rightarrow> (string \<Rightarrow> string) \<Rightarrow> sandbox_api \<Rightarrow> budget_gate \<times> live_runs \<times> api_call \<Rightarrow> sandbox_api" where
  "api_step number sha s (gate, runs, a) = snd (handle number sha gate runs a s)"

lemma handle_final:
  assumes "dict_get (sb_operations (sb_files s rid)) k = Some r" "op_final r"
  shows "dict_get (sb_operations (sb_files (snd (handle number sha gate runs a s)) rid)) k = Some r"
proof (cases "authority number runs (ac_request a) (ac_times a) (sb_cache s)")
  case (Pair x c)
  obtain res fs where v: "serve sha gate (ac_now a) (ac_stamps a) (ac_route a) (sb_files s (sr_run_id (ac_request a))) =
      (res, fs)" by fastforce
  with serve_final[OF _ assms(2), of "sb_files s (sr_run_id (ac_request a))"] assms(1)
  have "sr_run_id (ac_request a) = rid \<Longrightarrow> dict_get (sb_operations fs) k = Some r" by (metis snd_conv)
  with Pair v assms(1) show ?thesis by (cases x) (auto simp: handle_def)
qed

interpretation finals: machine "api_step number sha" "\<lambda>s. op_final r \<and> dict_get (sb_operations (sb_files s rid)) k = Some r" "\<lambda>e. True"
  for number sha r k rid
  by unfold_locales (auto simp: handle_final)

section \<open>Properties\<close>


definition example_request :: service_request where
  "example_request = \<lparr>sr_timestamp = 130, sr_nonce = ''0123456789abcdef'', sr_run_id = ''run'', sr_fence_token = 1,
     sr_signature_ok = (\<lambda>key. True)\<rparr>"


text \<open>C32. A model operation ends once: when its record is completed, uncertain or failed for good, no
  sequence of requests to the internal router, valid or not, for any runs and budgets, changes it, so
  recovery keeps giving the same answer.\<close>

theorem operation_outcome_final:
  assumes "op_get sha lid (sb_operations (sb_files s rid)) = Some r" "op_final r"
  shows "op_get sha lid (sb_operations (sb_files (run (api_step number sha) s calls) rid)) = Some r"
proof -
  from assms have "op_final r \<and> dict_get (sb_operations (sb_files s rid)) (sha lid) = Some r" by (simp add: op_get_def)
  from finals.inv_run[OF this, of calls number sha] show ?thesis by (simp add: op_get_def list_all_iff)
qed

definition done_record :: op_record where
  "done_record = \<lparr>op_task_id = ''t'', op_stage = ''researching'', op_logical_id = ''op'', op_attempt = ''a1'',
     op_attempts = [''a1''], op_status = OpCompleted, op_outcome = Some [(''status'', JStr ''completed'')],
     op_error_type = None, op_created_at = 0, op_updated_at = 1, op_version = 3\<rparr>"

definition retry_call :: api_call where
  "retry_call = \<lparr>ac_request = example_request, ac_route = TransitionOperation ''op'' ToFailed None (Some ''transient''),
     ac_times = (130, 130, 130), ac_now = 130, ac_stamps = (\<lambda>i. ([], 0))\<rparr>"

definition done_api :: sandbox_api where
  "done_api = \<lparr>sb_cache = empty_cache,
     sb_files = (\<lambda>rid. \<lparr>sb_ledger = empty_ledger, sb_operations = [(''op'', done_record)]\<rparr>)\<rparr>"

theorem operation_outcome_final_witness:
  "op_get (\<lambda>s. s) ''op'' (sb_operations (sb_files (run (api_step (\<lambda>i. []) (\<lambda>s. s)) done_api
      [(tight_gate, [(''run'', 1, ''key'')], retry_call)]) ''run'')) = Some done_record"
proof -
  have "op_get (\<lambda>s. s) ''op'' (sb_operations (sb_files done_api ''run'')) = Some done_record"
    "op_final done_record" by (simp_all add: op_get_def op_final_def done_record_def done_api_def)
  from operation_outcome_final[OF this] show ?thesis .
qed

text \<open>The gateway dispatches again only what cannot have run: when it goes on after reading the journal,
  the operation is not recorded, was never dispatched, or its recorded answer is missing or one that may
  be retried.\<close>

lemma recovery_never_redispatches:
  assumes "recover_operation (Some r) = GoOn"
  shows "op_status r = OpReserved \<or> truthy_outcome (op_outcome r) = None \<and> op_status r \<noteq> OpDispatched \<or>
    op_status r = OpFailed \<and>
      (\<exists>d t. op_outcome r = Some d \<and> jget ''error_type'' d = JStr t \<and> t \<in> set RETRYABLE_FAILED_ERROR_TYPES)"
proof (cases "op_status r")
  case OpFailed
  with assms show ?thesis
    by (cases "op_outcome r") (auto simp: recover_operation_def split: json.splits if_splits)
qed (use assms in \<open>auto simp: recover_operation_def split: option.splits\<close>)

lemma recovery_never_redispatches_witness:
  "recover_operation (Some (done_record\<lparr>op_status := OpFailed, op_outcome := Some [(''error_type'', JStr ''transient'')]\<rparr>)) =
    GoOn"
proof -
  let ?r = "done_record\<lparr>op_status := OpFailed, op_outcome := Some [(''error_type'', JStr ''transient'')]\<rparr>"
  have "recover_operation (Some ?r) = GoOn" by (simp add: recover_operation_def RETRYABLE_FAILED_ERROR_TYPES_def)
  from this recovery_never_redispatches[OF this] show ?thesis by simp
qed

end
