(* ===== verification/Tool_Schema.thy ===== *)
theory Tool_Schema
  imports ToolProtocol Py_Values
begin

text \<open>
  Validation of the arguments of a tool call against the tool's JSON schema and the configured
  constraints (\<open>_check_value\<close> and \<open>validate_tool_args\<close> of \<open>tools/governance.py\<close>). A check returns the
  first error, nothing, or the exception Python raises when a schema is malformed. \<open>repr\<close> stands for the
  text of a value in a message.
\<close>

section \<open>One value\<close>

definition quoted :: "string \<Rightarrow> string" where
  "quoted s = [CHR 39] @ s @ [CHR 39]"

text \<open>The next check runs when the one before found nothing.\<close>

definition and_then :: "'e + 'a option \<Rightarrow> 'e + 'a option \<Rightarrow> 'e + 'a option" where
  "and_then r s = (case r of Inr None \<Rightarrow> s | _ \<Rightarrow> r)"

fun type_name_of :: "json \<Rightarrow> string" where
  "type_name_of JNull = ''NoneType''"
| "type_name_of (JBool b) = ''bool''"
| "type_name_of (JInt i) = ''int''"
| "type_name_of (JFloat r) = ''float''"
| "type_name_of (JStr s) = ''str''"
| "type_name_of (JList xs) = ''list''"
| "type_name_of (JObj d) = ''dict''"

text \<open>\<open>_PY_TYPE_CHECKS\<close>: no check for an unknown type.\<close>

definition has_type :: "string \<Rightarrow> json \<Rightarrow> bool option" where
  "has_type t v =
     (if t = ''string'' then Some (type_name_of v = ''str'')
      else if t = ''integer'' then Some (type_name_of v = ''int'')
      else if t = ''number'' then Some (type_name_of v \<in> {''int'', ''float''})
      else if t = ''boolean'' then Some (type_name_of v = ''bool'')
      else if t = ''array'' then Some (type_name_of v = ''list'')
      else if t = ''object'' then Some (type_name_of v = ''dict'')
      else None)"

text \<open>The lookup of a type: a list or dictionary is not hashable.\<close>

definition type_check :: "json \<Rightarrow> json \<Rightarrow> json_error + bool option" where
  "type_check t v =
     (if \<not> jtruthy t then Inr None
      else (case t of JStr s \<Rightarrow> Inr (has_type s v) | JList xs \<Rightarrow> Inl Raises | JObj d \<Rightarrow> Inl Raises | _ \<Rightarrow> Inr None))"

definition resolve_spec :: "(string, json) dict \<Rightarrow> (string, json) dict" where
  "resolve_spec spec =
     (case dict_get spec ''anyOf'' of
        Some (JList (JObj d # rest)) \<Rightarrow> dict_merge d (dict_del ''anyOf'' spec)
      | _ \<Rightarrow> spec)"

definition invalid_value :: "string \<Rightarrow> (string, json) dict \<Rightarrow> tool_error" where
  "invalid_value msg detail =
     \<lparr>te_error_type = ValidationError, te_tool_name = [], te_message = msg, te_attempts = None,
      te_retryable = False, te_detail = detail\<rparr>"

text \<open>\<open>value in enum\<close>.\<close>

fun py_in :: "json \<Rightarrow> json \<Rightarrow> json_error + bool" where
  "py_in v (JList es) = Inr (list_ex (py_eq v) es)"
| "py_in v (JStr s) = (case v of JStr p \<Rightarrow> Inr (str_contains s p) | _ \<Rightarrow> Inl Raises)"
| "py_in v (JObj d) =
     (case v of JStr k \<Rightarrow> Inr (dict_get d k \<noteq> None) | JList xs \<Rightarrow> Inl Raises | JObj e \<Rightarrow> Inl Raises | _ \<Rightarrow> Inr False)"
| "py_in v _ = Inl Raises"

definition check_enum ::
    "(json \<Rightarrow> string) \<Rightarrow> string \<Rightarrow> json \<Rightarrow> (string, json) dict \<Rightarrow> json_error + tool_error option" where
  "check_enum repr name v spec =
     (case dict_get spec ''enum'' of
        None \<Rightarrow> Inr None
      | Some e \<Rightarrow>
          res_bind (py_in v e) (\<lambda>found.
            Inr (if found then None
              else Some (invalid_value
                (''Argument '' @ quoted name @ '' must be one of '' @ py_text repr e @ ''; got '' @ repr v)
                [(''argument'', JStr name), (''allowed'', e), (''got'', v)]))))"

definition check_type :: "(json \<Rightarrow> string) \<Rightarrow> string \<Rightarrow> json \<Rightarrow> (string, json) dict \<Rightarrow> json_error + tool_error option" where
  "check_type repr name v spec =
     res_bind (type_check (jget ''type'' spec) v) (\<lambda>r.
       Inr (if r = Some False
         then Some (invalid_value
           (''Argument '' @ quoted name @ '' expected type '' @ quoted (py_text repr (jget ''type'' spec)) @ ''; got '' @ type_name_of v)
           [(''argument'', JStr name), (''expected_type'', jget ''type'' spec), (''got_type'', JStr (type_name_of v))])
         else None))"

text \<open>The bounds: a lower and an upper one, on the value, its length or its number of items.\<close>

datatype bound_kind = NumberBound | LengthBound | ItemsBound

fun low_key :: "bound_kind \<Rightarrow> string" where
  "low_key NumberBound = ''minimum''" | "low_key LengthBound = ''minLength''" | "low_key ItemsBound = ''minItems''"

fun high_key :: "bound_kind \<Rightarrow> string" where
  "high_key NumberBound = ''maximum''" | "high_key LengthBound = ''maxLength''" | "high_key ItemsBound = ''maxItems''"

fun got_key :: "bound_kind \<Rightarrow> string" where
  "got_key NumberBound = ''got''" | "got_key LengthBound = ''got_length''" | "got_key ItemsBound = ''got_items''"

fun bound_words :: "bound_kind \<Rightarrow> string \<times> string" where
  "bound_words NumberBound = ('' must be '', ''; got '')"
| "bound_words LengthBound = ('' length must be '', ''; got length '')"
| "bound_words ItemsBound = ('' must have '', '' items; got '')"

definition bound_error :: "(json \<Rightarrow> string) \<Rightarrow> string \<Rightarrow> bound_kind \<Rightarrow> string \<Rightarrow> string \<Rightarrow> json \<Rightarrow> json \<Rightarrow> tool_error" where
  "bound_error repr name kind rel key bound got =
     invalid_value
       (''Argument '' @ quoted name @ fst (bound_words kind) @ rel @ '' '' @ py_text repr bound @
         snd (bound_words kind) @ py_text repr got)
       [(''argument'', JStr name), (''constraint'', JStr key), (key, bound), (got_key kind, got)]"

text \<open>\<open><\<close> on values: numbers only.\<close>

definition py_less :: "json \<Rightarrow> json \<Rightarrow> json_error + bool" where
  "py_less v w = (case (py_number v, py_number w) of (Some i, Some j) \<Rightarrow> Inr (i < j) | _ \<Rightarrow> Inl Raises)"

definition check_low :: "(json \<Rightarrow> string) \<Rightarrow> string \<Rightarrow> bound_kind \<Rightarrow> json \<Rightarrow> (string, json) dict \<Rightarrow> json_error + tool_error option" where
  "check_low repr name kind got spec =
     (case dict_get spec (low_key kind) of
        None \<Rightarrow> Inr None
      | Some b \<Rightarrow> res_bind (py_less got b) (\<lambda>bad.
          Inr (if bad then Some (bound_error repr name kind ''>='' (low_key kind) b got) else None)))"

definition check_high :: "(json \<Rightarrow> string) \<Rightarrow> string \<Rightarrow> bound_kind \<Rightarrow> json \<Rightarrow> (string, json) dict \<Rightarrow> json_error + tool_error option" where
  "check_high repr name kind got spec =
     (case dict_get spec (high_key kind) of
        None \<Rightarrow> Inr None
      | Some b \<Rightarrow> res_bind (py_less b got) (\<lambda>bad.
          Inr (if bad then Some (bound_error repr name kind ''<='' (high_key kind) b got) else None)))"

text \<open>What is measured, when the schema's type and the value's agree.\<close>

definition measured :: "json \<Rightarrow> json \<Rightarrow> (bound_kind \<times> json) option" where
  "measured t v =
     (case v of
        JInt i \<Rightarrow> if t \<in> {JStr ''integer'', JStr ''number''} then Some (NumberBound, v) else None
      | JFloat r \<Rightarrow> if t \<in> {JStr ''integer'', JStr ''number''} then Some (NumberBound, v) else None
      | JStr s \<Rightarrow> if t = JStr ''string'' then Some (LengthBound, JInt (int (length s))) else None
      | JList xs \<Rightarrow> if t = JStr ''array'' then Some (ItemsBound, JInt (int (length xs))) else None
      | _ \<Rightarrow> None)"

definition check_bounds :: "(json \<Rightarrow> string) \<Rightarrow> string \<Rightarrow> json \<Rightarrow> (string, json) dict \<Rightarrow> json_error + tool_error option" where
  "check_bounds repr name v spec =
     (case measured (jget ''type'' spec) v of
        None \<Rightarrow> Inr None
      | Some (kind, got) \<Rightarrow> and_then (check_low repr name kind got spec) (check_high repr name kind got spec))"

definition check_flat :: "(json \<Rightarrow> string) \<Rightarrow> string \<Rightarrow> json \<Rightarrow> (string, json) dict \<Rightarrow> json_error + tool_error option" where
  "check_flat repr name v spec =
     and_then (check_enum repr name v spec) (and_then (check_type repr name v spec) (check_bounds repr name v spec))"

text \<open>The elements of an array: their type first, then the bounds of strings. The nested check sees a
  string under a schema of type string, so it never reaches the array branch.\<close>

definition item_name :: "string \<Rightarrow> nat \<Rightarrow> string" where
  "item_name name i = name @ ''['' @ decimal i @ '']''"

fun check_item_types :: "string \<Rightarrow> string \<Rightarrow> nat \<Rightarrow> json list \<Rightarrow> tool_error option" where
  "check_item_types name t i [] = None"
| "check_item_types name t i (v # vs) =
     (if has_type t v = Some False
      then Some (invalid_value
        (''Argument '' @ quoted (item_name name i) @ '' expected type '' @ quoted t @
           ''; got '' @ type_name_of v)
        [(''argument'', JStr name), (''index'', JInt (int i)), (''expected_type'', JStr t),
         (''got_type'', JStr (type_name_of v))])
      else check_item_types name t (Suc i) vs)"

fun check_strings :: "(json \<Rightarrow> string) \<Rightarrow> string \<Rightarrow> (string, json) dict \<Rightarrow> nat \<Rightarrow> json list \<Rightarrow> json_error + tool_error option" where
  "check_strings repr name spec i [] = Inr None"
| "check_strings repr name spec i (v # vs) =
     (case v of
        JStr s \<Rightarrow> and_then (check_flat repr (item_name name i) v (resolve_spec spec))
                    (check_strings repr name spec (Suc i) vs)
      | _ \<Rightarrow> check_strings repr name spec (Suc i) vs)"

definition check_items ::
    "(json \<Rightarrow> string) \<Rightarrow> string \<Rightarrow> (string, json) dict \<Rightarrow> json list \<Rightarrow> json_error + tool_error option" where
  "check_items repr name spec vs =
     (case jget ''type'' spec of
        JStr t \<Rightarrow>
          if t = [] then Inr None
          else and_then (Inr (check_item_types name t 0 vs))
                 (if t = ''string'' then check_strings repr name spec 0 vs else Inr None)
      | t \<Rightarrow> res_bind (type_check t JNull) (\<lambda>_. Inr None))"

definition check_value ::
    "(json \<Rightarrow> string) \<Rightarrow> string \<Rightarrow> json \<Rightarrow> (string, json) dict \<Rightarrow> json_error + tool_error option" where
  "check_value repr name v raw =
     (let spec = resolve_spec raw
      in and_then (check_flat repr name v spec)
           (case (jget ''type'' spec = JStr ''array'', v, dict_get spec ''items'') of
              (True, JList vs, Some (JObj item_spec)) \<Rightarrow> check_items repr name item_spec vs
            | _ \<Rightarrow> Inr None))"

section \<open>The arguments of a call\<close>

text \<open>Configured constraints override the schema's; those of the items are merged.\<close>

definition merge_constraint :: "(string, json) dict \<Rightarrow> string \<times> json \<Rightarrow> (string, json) dict \<Rightarrow> (string, json) dict" where
  "merge_constraint spec kv merged =
     (case (fst kv = ''items'', snd kv, dict_get spec ''items'') of
        (True, JObj extra, Some (JObj items)) \<Rightarrow> dict_set ''items'' (JObj (dict_merge items extra)) merged
      | _ \<Rightarrow> dict_set (fst kv) (snd kv) merged)"

definition merged_spec :: "(string, (string, json) dict) dict \<Rightarrow> string \<Rightarrow> (string, json) dict \<Rightarrow> (string, json) dict" where
  "merged_spec extra key spec =
     (case dict_get extra key of None \<Rightarrow> spec | Some cs \<Rightarrow> fold (merge_constraint spec) cs spec)"

definition missing_error :: "(json \<Rightarrow> string) \<Rightarrow> string \<Rightarrow> json list \<Rightarrow> tool_error" where
  "missing_error repr tool missing =
     (invalid_value (''Missing required arguments: '' @ repr (JList missing)) [(''missing'', JList missing)])
       \<lparr>te_tool_name := tool\<rparr>"

definition unexpected_error :: "string \<Rightarrow> string \<Rightarrow> tool_error" where
  "unexpected_error tool key =
     (invalid_value (''Unexpected argument '' @ quoted key @ ''; tool does not accept it'')
       [(''unexpected'', JList [JStr key])])\<lparr>te_tool_name := tool\<rparr>"

fun absent_from :: "(string, json) dict \<Rightarrow> json \<Rightarrow> json_error + bool" where
  "absent_from args (JStr k) = Inr (dict_get args k = None)"
| "absent_from args (JList xs) = Inl Raises"
| "absent_from args (JObj d) = Inl Raises"
| "absent_from args v = Inr True"

definition missing_args :: "(string, json) dict \<Rightarrow> json list \<Rightarrow> json_error + json list" where
  "missing_args args required =
     res_bind (res_map (\<lambda>k. res_bind (absent_from args k) (\<lambda>b. Inr (if b then [k] else []))) required) (\<lambda>ks.
       Inr (concat ks))"

fun check_args ::
    "(json \<Rightarrow> string) \<Rightarrow> string \<Rightarrow> bool \<Rightarrow> (string, json) dict \<Rightarrow> (string, (string, json) dict) dict \<Rightarrow>
      (string, json) dict \<Rightarrow> json_error + tool_error option" where
  "check_args repr tool sealed props extra [] = Inr None"
| "check_args repr tool sealed props extra ((key, v) # rest) =
     (case dict_get props key of
        Some (JObj spec) \<Rightarrow>
          (case check_value repr key v (merged_spec extra key spec) of
             Inl e \<Rightarrow> Inl e
           | Inr (Some err) \<Rightarrow> Inr (Some (err\<lparr>te_tool_name := tool\<rparr>))
           | Inr None \<Rightarrow> check_args repr tool sealed props extra rest)
      | None \<Rightarrow>
          if sealed then Inr (Some (unexpected_error tool key)) else check_args repr tool sealed props extra rest
      | Some JNull \<Rightarrow>
          if sealed then Inr (Some (unexpected_error tool key)) else check_args repr tool sealed props extra rest
      | Some _ \<Rightarrow> check_args repr tool sealed props extra rest)"

text \<open>\<open>schema\<close> is the input schema, absent when the adapter raises; \<open>extra\<close> holds the constraints
  configured for the tool.\<close>

definition validate_tool_args ::
    "(json \<Rightarrow> string) \<Rightarrow> string \<Rightarrow> json option \<Rightarrow> (string, (string, json) dict) dict \<Rightarrow> (string, json) dict \<Rightarrow>
      json_error + tool_error option" where
  "validate_tool_args repr tool schema extra args =
     (case schema of
        Some (JObj s) \<Rightarrow>
          res_bind (jlist (jor (jget_or ''required'' (JList []) s) (JList []))) (\<lambda>required.
          res_bind (missing_args args required) (\<lambda>missing.
            if missing \<noteq> [] then Inr (Some (missing_error repr tool missing))
            else (case jor (jget_or ''properties'' (JObj []) s) (JObj []) of
                    JObj props \<Rightarrow> check_args repr tool (jget ''additionalProperties'' s = JBool False) props extra args
                  | _ \<Rightarrow> if args = [] then Inr None else Inl Raises)))
      | _ \<Rightarrow> Inr None)"

section \<open>What the checks decide\<close>

text \<open>A check that does not raise and finds nothing exactly when \<open>P\<close> holds.\<close>

definition decides :: "'e + 'a option \<Rightarrow> bool \<Rightarrow> bool" where
  "decides r P \<longleftrightarrow> (case r of Inl e \<Rightarrow> False | Inr x \<Rightarrow> (x = None) = P)"

lemma decides_simps [simp]:
  "decides (Inr x) P \<longleftrightarrow> (x = None) = P" "\<not> decides (Inl e) P"
  by (simp_all add: decides_def)

lemma decides_and_then: "decides r P \<Longrightarrow> (P \<Longrightarrow> decides s Q) \<Longrightarrow> decides (and_then r s) (P \<and> Q)"
  by (auto simp: decides_def and_then_def split: sum.splits option.splits)

text \<open>Well-formed schemas: the type is a string, the enumeration a list, the bounds numbers.\<close>

fun is_jstr :: "json \<Rightarrow> bool" where
  "is_jstr (JStr s) = True" | "is_jstr _ = False"

fun is_jlist :: "json \<Rightarrow> bool" where
  "is_jlist (JList xs) = True" | "is_jlist _ = False"

definition wf_key :: "(json \<Rightarrow> bool) \<Rightarrow> string \<Rightarrow> (string, json) dict \<Rightarrow> bool" where
  "wf_key P k spec \<longleftrightarrow> (case dict_get spec k of None \<Rightarrow> True | Some v \<Rightarrow> P v)"

definition wf_flat :: "(string, json) dict \<Rightarrow> bool" where
  "wf_flat spec \<longleftrightarrow> wf_key is_jstr ''type'' spec \<and> wf_key is_jlist ''enum'' spec \<and>
     list_all (\<lambda>kind. wf_key (\<lambda>b. py_number b \<noteq> None) (low_key kind) spec \<and>
       wf_key (\<lambda>b. py_number b \<noteq> None) (high_key kind) spec) [NumberBound, LengthBound, ItemsBound]"

definition wf_spec :: "(string, json) dict \<Rightarrow> bool" where
  "wf_spec raw \<longleftrightarrow>
     (let spec = resolve_spec raw
      in wf_flat spec \<and>
         (case dict_get spec ''items'' of
            Some (JObj item) \<Rightarrow> wf_key is_jstr ''type'' item \<and> wf_flat (resolve_spec item)
          | _ \<Rightarrow> True))"

text \<open>The meaning of a schema.\<close>

definition in_enum :: "json \<Rightarrow> (string, json) dict \<Rightarrow> bool" where
  "in_enum v spec \<longleftrightarrow> (case dict_get spec ''enum'' of Some (JList es) \<Rightarrow> list_ex (py_eq v) es | _ \<Rightarrow> True)"

definition of_type :: "json \<Rightarrow> (string, json) dict \<Rightarrow> bool" where
  "of_type v spec \<longleftrightarrow> (case dict_get spec ''type'' of Some (JStr t) \<Rightarrow> has_type t v \<noteq> Some False | _ \<Rightarrow> True)"

definition at_least :: "json option \<Rightarrow> rat \<Rightarrow> bool" where
  "at_least b x \<longleftrightarrow> (case b of None \<Rightarrow> True | Some v \<Rightarrow> the (py_number v) \<le> x)"

definition at_most :: "json option \<Rightarrow> rat \<Rightarrow> bool" where
  "at_most b x \<longleftrightarrow> (case b of None \<Rightarrow> True | Some v \<Rightarrow> x \<le> the (py_number v))"

definition in_bounds :: "json \<Rightarrow> (string, json) dict \<Rightarrow> bool" where
  "in_bounds v spec \<longleftrightarrow>
     (case measured (jget ''type'' spec) v of
        None \<Rightarrow> True
      | Some (kind, got) \<Rightarrow>
          at_least (dict_get spec (low_key kind)) (the (py_number got)) \<and>
          at_most (dict_get spec (high_key kind)) (the (py_number got)))"

definition conforms_flat :: "json \<Rightarrow> (string, json) dict \<Rightarrow> bool" where
  "conforms_flat v spec \<longleftrightarrow> in_enum v spec \<and> of_type v spec \<and> in_bounds v spec"

definition item_conforms :: "(string, json) dict \<Rightarrow> json \<Rightarrow> bool" where
  "item_conforms item v \<longleftrightarrow> of_type v item \<and>
     (jget ''type'' item = JStr ''string'' \<longrightarrow> conforms_flat v (resolve_spec item))"

definition conforms :: "(string, json) dict \<Rightarrow> json \<Rightarrow> bool" where
  "conforms raw v \<longleftrightarrow>
     (let spec = resolve_spec raw
      in conforms_flat v spec \<and>
         (case (jget ''type'' spec = JStr ''array'', v, dict_get spec ''items'') of
            (True, JList vs, Some (JObj item)) \<Rightarrow> list_all (item_conforms item) vs
          | _ \<Rightarrow> True))"

lemma check_enum_decides: "wf_key is_jlist ''enum'' spec \<Longrightarrow> decides (check_enum repr name v spec) (in_enum v spec)"
  by (auto simp: check_enum_def in_enum_def wf_key_def split: option.splits json.splits)

lemma wf_type_cases:
  assumes "wf_key is_jstr ''type'' spec"
  obtains "dict_get spec ''type'' = None" | t where "dict_get spec ''type'' = Some (JStr t)"
proof (cases "dict_get spec ''type''")
  case (Some v)
  with assms that(2) show ?thesis by (cases v) (auto simp: wf_key_def)
qed (rule that(1))

lemma has_type_Nil [simp]: "has_type [] v = None"
  by (simp add: has_type_def)

lemma check_type_decides: "wf_key is_jstr ''type'' spec \<Longrightarrow> decides (check_type repr name v spec) (of_type v spec)"
  by (erule wf_type_cases) (auto simp: check_type_def type_check_def of_type_def jget_def)

lemma measured_number: "measured t v = Some (kind, got) \<Longrightarrow> py_number got \<noteq> None"
  by (cases v) (auto simp: measured_def split: if_splits)

lemma check_low_decides:
  assumes "wf_key (\<lambda>b. py_number b \<noteq> None) (low_key kind) spec" "py_number got \<noteq> None"
  shows "decides (check_low repr name kind got spec) (at_least (dict_get spec (low_key kind)) (the (py_number got)))"
  using assms by (auto simp: check_low_def at_least_def wf_key_def py_less_def split: option.splits)

lemma check_high_decides:
  assumes "wf_key (\<lambda>b. py_number b \<noteq> None) (high_key kind) spec" "py_number got \<noteq> None"
  shows "decides (check_high repr name kind got spec) (at_most (dict_get spec (high_key kind)) (the (py_number got)))"
  using assms by (auto simp: check_high_def at_most_def wf_key_def py_less_def split: option.splits)

lemma check_bounds_decides:
  assumes "wf_flat spec"
  shows "decides (check_bounds repr name v spec) (in_bounds v spec)"
proof (cases "measured (jget ''type'' spec) v")
  case (Some p)
  obtain kind got where p: "p = (kind, got)" by fastforce
  from assms have "wf_key (\<lambda>b. py_number b \<noteq> None) (low_key kind) spec"
    "wf_key (\<lambda>b. py_number b \<noteq> None) (high_key kind) spec"
    by (cases kind; simp add: wf_flat_def)+
  with Some p measured_number[of _ v kind got] show ?thesis
    by (simp add: check_bounds_def in_bounds_def decides_and_then check_low_decides check_high_decides)
qed (simp add: check_bounds_def in_bounds_def)

lemma check_flat_decides: "wf_flat spec \<Longrightarrow> decides (check_flat repr name v spec) (conforms_flat v spec)"
  unfolding check_flat_def conforms_flat_def
  by (intro decides_and_then check_enum_decides check_type_decides check_bounds_decides) (simp_all add: wf_flat_def)

lemma check_item_types_decides:
  "decides (Inr (check_item_types name t i vs)) (list_all (\<lambda>v. has_type t v \<noteq> Some False) vs)"
  by (induction name t i vs rule: check_item_types.induct) auto

lemma check_strings_decides:
  assumes "wf_flat (resolve_spec item)" "list_all (\<lambda>v. is_jstr v) vs"
  shows "decides (check_strings repr name item i vs) (list_all (\<lambda>v. conforms_flat v (resolve_spec item)) vs)"
  using assms(2)
proof (induction vs arbitrary: i)
  case (Cons v vs)
  then obtain s where "v = JStr s" by (cases v) auto
  with Cons assms(1) show ?case by (simp add: decides_and_then check_flat_decides)
qed simp

lemma string_type: "has_type ''string'' v \<noteq> Some False \<longleftrightarrow> is_jstr v"
  by (cases v) (simp_all add: has_type_def)

lemma check_items_decides:
  assumes "wf_key is_jstr ''type'' item" "wf_flat (resolve_spec item)"
  shows "decides (check_items repr name item vs) (list_all (item_conforms item) vs)"
  using assms(1)
proof (cases rule: wf_type_cases)
  case 1
  then show ?thesis by (simp add: check_items_def jget_def type_check_def item_conforms_def of_type_def list_all_iff)
next
  case (2 t)
  have split: "list_all (item_conforms item) vs \<longleftrightarrow>
      list_all (\<lambda>v. has_type t v \<noteq> Some False) vs \<and>
      (t = ''string'' \<longrightarrow> list_all (\<lambda>v. conforms_flat v (resolve_spec item)) vs)"
    using 2 by (auto simp: item_conforms_def of_type_def jget_def list_all_iff)
  show ?thesis
  proof (cases "t = []")
    case True
    with 2 split show ?thesis by (simp add: check_items_def jget_def list.pred_True)
  next
    case False
    have "decides (and_then (Inr (check_item_types name t 0 vs))
        (if t = ''string'' then check_strings repr name item 0 vs else Inr None))
      (list_all (\<lambda>v. has_type t v \<noteq> Some False) vs \<and>
      (t = ''string'' \<longrightarrow> list_all (\<lambda>v. conforms_flat v (resolve_spec item)) vs))"
      by (intro decides_and_then check_item_types_decides)
        (auto simp: string_type intro!: check_strings_decides assms(2))
    with 2 False split show ?thesis by (simp add: check_items_def jget_def)
  qed
qed

lemma check_value_decides:
  assumes "wf_spec raw"
  shows "decides (check_value repr name v raw) (conforms raw v)"
proof -
  let ?spec = "resolve_spec raw"
  from assms have flat: "wf_flat ?spec" by (simp add: wf_spec_def Let_def)
  show ?thesis
  proof (cases "jget ''type'' ?spec = JStr ''array'' \<and> (\<exists>vs item. v = JList vs \<and> dict_get ?spec ''items'' = Some (JObj item))")
    case True
    then obtain vs item where v: "jget ''type'' ?spec = JStr ''array''" "v = JList vs"
      "dict_get ?spec ''items'' = Some (JObj item)" by blast
    with assms have "wf_key is_jstr ''type'' item" "wf_flat (resolve_spec item)"
      by (simp_all add: wf_spec_def Let_def)
    with v flat show ?thesis
      by (simp add: check_value_def conforms_def Let_def decides_and_then check_flat_decides check_items_decides)
  next
    case False
    then have "check_value repr name v raw = and_then (check_flat repr name v ?spec) (Inr None)"
      "conforms raw v \<longleftrightarrow> conforms_flat v ?spec \<and> True"
      by (auto simp: check_value_def conforms_def Let_def split: json.splits option.splits bool.splits)
    moreover have "decides (and_then (check_flat repr name v ?spec) (Inr None)) (conforms_flat v ?spec \<and> True)"
      by (rule decides_and_then) (simp_all add: check_flat_decides flat)
    ultimately show ?thesis by simp
  qed
qed

text \<open>Required names are strings, and the specifications are well formed with the constraints merged in.\<close>

definition required_of :: "(string, json) dict \<Rightarrow> json list" where
  "required_of s = (case jor (jget_or ''required'' (JList []) s) (JList []) of JList ks \<Rightarrow> ks | _ \<Rightarrow> [])"

definition properties_of :: "(string, json) dict \<Rightarrow> (string, json) dict" where
  "properties_of s = (case jor (jget_or ''properties'' (JObj []) s) (JObj []) of JObj d \<Rightarrow> d | _ \<Rightarrow> [])"

fun is_jobj :: "json \<Rightarrow> bool" where
  "is_jobj (JObj d) = True" | "is_jobj _ = False"

definition wf_schema :: "(string, (string, json) dict) dict \<Rightarrow> (string, json) dict \<Rightarrow> bool" where
  "wf_schema extra s \<longleftrightarrow>
     is_jlist (jor (jget_or ''required'' (JList []) s) (JList [])) \<and> list_all is_jstr (required_of s) \<and>
     is_jobj (jor (jget_or ''properties'' (JObj []) s) (JObj [])) \<and>
     list_all (\<lambda>(key, spec). case spec of JObj d \<Rightarrow> wf_spec (merged_spec extra key d) | _ \<Rightarrow> True) (properties_of s)"

definition arg_conforms ::
    "(string, (string, json) dict) dict \<Rightarrow> (string, json) dict \<Rightarrow> string \<times> json \<Rightarrow> bool" where
  "arg_conforms extra s arg \<longleftrightarrow>
     (case dict_get (properties_of s) (fst arg) of
        Some (JObj spec) \<Rightarrow> conforms (merged_spec extra (fst arg) spec) (snd arg)
      | None \<Rightarrow> jget ''additionalProperties'' s \<noteq> JBool False
      | Some JNull \<Rightarrow> jget ''additionalProperties'' s \<noteq> JBool False
      | Some _ \<Rightarrow> True)"

definition args_conform ::
    "(string, (string, json) dict) dict \<Rightarrow> (string, json) dict \<Rightarrow> (string, json) dict \<Rightarrow> bool" where
  "args_conform extra s args \<longleftrightarrow>
     list_all (\<lambda>k. case k of JStr key \<Rightarrow> dict_get args key \<noteq> None | _ \<Rightarrow> True) (required_of s) \<and>
     list_all (arg_conforms extra s) args"

lemma missing_args_decides:
  "list_all is_jstr ks \<Longrightarrow>
    \<exists>ms. missing_args args ks = Inr ms \<and>
      (ms = [] \<longleftrightarrow> list_all (\<lambda>k. case k of JStr key \<Rightarrow> dict_get args key \<noteq> None | _ \<Rightarrow> True) ks)"
proof (induction ks)
  case (Cons k ks)
  then obtain s where "k = JStr s" by (cases k) auto
  with Cons show ?case by (auto simp: missing_args_def res_bind_Inr)
qed (simp add: missing_args_def)

lemma check_args_decides:
  assumes "list_all (\<lambda>(key, spec). case spec of JObj d \<Rightarrow> wf_spec (merged_spec extra key d) | _ \<Rightarrow> True) (properties_of s)"
  shows "decides (check_args repr tool (jget ''additionalProperties'' s = JBool False) (properties_of s) extra args)
    (list_all (arg_conforms extra s) args)"
proof (induction args)
  case (Cons arg args)
  obtain key v where arg: "arg = (key, v)" by fastforce
  show ?case
  proof (cases "dict_get (properties_of s) key")
    case None
    then have "arg_conforms extra s arg \<longleftrightarrow> jget ''additionalProperties'' s \<noteq> JBool False"
      using arg by (simp add: arg_conforms_def)
    with None Cons arg show ?thesis by (cases "jget ''additionalProperties'' s = JBool False") simp_all
  next
    case (Some w)
    show ?thesis
    proof (cases w)
      case (JObj spec)
      with Some assms have "wf_spec (merged_spec extra key spec)"
        by (auto simp: list_all_iff dest!: dict_get_in)
      note v = check_value_decides[OF this, of repr key v]
      have "arg_conforms extra s arg \<longleftrightarrow> conforms (merged_spec extra key spec) v"
        using Some JObj arg by (simp add: arg_conforms_def)
      with v Cons Some JObj arg show ?thesis
        by (auto simp: decides_def split: sum.splits option.splits)
    next
      case JNull
      then have "arg_conforms extra s arg \<longleftrightarrow> jget ''additionalProperties'' s \<noteq> JBool False"
        using arg Some by (simp add: arg_conforms_def)
      with JNull Some Cons arg show ?thesis by (cases "jget ''additionalProperties'' s = JBool False") simp_all
    qed (use Some Cons arg in \<open>simp_all add: arg_conforms_def[of _ _ "(key, v)"]\<close>)
  qed
qed simp

lemma validate_decides:
  assumes "wf_schema extra s"
  shows "decides (validate_tool_args repr tool (Some (JObj s)) extra args) (args_conform extra s args)"
proof -
  from assms obtain ks d where k: "jor (jget_or ''required'' (JList []) s) (JList []) = JList ks"
    and d: "jor (jget_or ''properties'' (JObj []) s) (JObj []) = JObj d" and strs: "list_all is_jstr ks"
    by (auto simp: wf_schema_def required_of_def elim!: is_jlist.elims is_jobj.elims)
  then have sets: "required_of s = ks" "properties_of s = d" by (simp_all add: required_of_def properties_of_def)
  obtain ms where m: "missing_args args ks = Inr ms"
    "ms = [] \<longleftrightarrow> list_all (\<lambda>k. case k of JStr key \<Rightarrow> dict_get args key \<noteq> None | _ \<Rightarrow> True) ks"
    using missing_args_decides[OF strs] by blast
  from assms have "decides (check_args repr tool (jget ''additionalProperties'' s = JBool False) d extra args)
      (list_all (arg_conforms extra s) args)"
    using check_args_decides[of extra s repr tool args] sets by (simp add: wf_schema_def)
  with k d m sets show ?thesis
    by (cases "ms = []") (simp_all add: validate_tool_args_def args_conform_def)
qed

section \<open>Properties\<close>

text \<open>A tool with a bounded list of queries and an optional limit, as Pydantic describes it.\<close>

definition search_schema :: "(string, json) dict" where
  "search_schema =
     [(''properties'', JObj
        [(''queries'', JObj [(''type'', JStr ''array''), (''maxItems'', JInt 2),
            (''items'', JObj [(''type'', JStr ''string''), (''maxLength'', JInt 5)])]),
         (''limit'', JObj [(''anyOf'', JList [JObj [(''type'', JStr ''integer'')], JObj [(''type'', JStr ''null'')]]),
            (''default'', JNull)])]),
      (''required'', JList [JStr ''queries''])]"



text \<open>An optional argument may not be given as null: only the first alternative of \<open>anyOf\<close> is checked,
  although the schema allows the second.\<close>

lemma optional_null_rejected:
  "validate_tool_args repr ''search'' (Some (JObj search_schema)) []
      [(''queries'', JList [JStr ''a'']), (''limit'', JNull)] =
    Inr (Some ((invalid_value
        (''Argument '' @ quoted ''limit'' @ '' expected type '' @ quoted ''integer'' @
           ''; got NoneType'')
        [(''argument'', JStr ''limit''), (''expected_type'', JStr ''integer''), (''got_type'', JStr ''NoneType'')])
      \<lparr>te_tool_name := ''search''\<rparr>))"
  by code_simp

end
