(* ===== verification/Sandbox_Policy.thy ===== *)
theory Sandbox_Policy
  imports Prelude
begin

text \<open>
  The administrator's sandbox policy (\<open>sandbox/schema.py\<close>): profiles with their network, tool, command
  and file rules, the decisions on one target, and the choice of a profile. \<open>fnmatchcase\<close> of the
  standard library is written out: a pattern is parsed into tokens and matched against the whole
  text.
\<close>

section \<open>Shell patterns\<close>

datatype glob_token = GStar | GAny | GClass bool "(char \<times> char) list" | GLit char

text \<open>The members of a bracket expression: ranges, and single characters as ranges of one.\<close>

fun class_items :: "string \<Rightarrow> (char \<times> char) list" where
  "class_items (a # m # b # s) =
     (if m = CHR ''-'' then (a, b) # class_items s else (a, a) # class_items (m # b # s))"
| "class_items (a # s) = (a, a) # class_items s"
| "class_items [] = []"

text \<open>What follows an opening bracket: negation, members and the rest, or nothing when it is not closed.\<close>

definition parse_class :: "string \<Rightarrow> (bool \<times> (char \<times> char) list \<times> string) option" where
  "parse_class s =
     (let neg = (s \<noteq> [] \<and> hd s = CHR ''!''); s1 = (if neg then tl s else s);
          first = (s1 \<noteq> [] \<and> hd s1 = CHR '']''); s2 = (if first then tl s1 else s1);
          body = (if first then '']'' else []) @ takeWhile (\<lambda>c. c \<noteq> CHR '']'') s2;
          rest = dropWhile (\<lambda>c. c \<noteq> CHR '']'') s2
      in if rest = [] then None else Some (neg, class_items body, tl rest))"

lemma parse_class_shorter: "parse_class s = Some (neg, items, rest) \<Longrightarrow> length rest \<le> length s"
proof -
  have "length (dropWhile P xs) \<le> length xs" for P and xs :: string by (induction xs) auto
  then have "length (tl (dropWhile P xs)) \<le> length xs" for P and xs :: string
    by (metis diff_le_self le_trans length_tl)
  moreover have "length (tl xs) \<le> length xs" for xs :: string by simp
  ultimately have *: "length (tl (dropWhile P (tl xs))) \<le> length xs" "length (tl (dropWhile P xs)) \<le> length xs"
    "length (tl (dropWhile P (tl (tl xs)))) \<le> length xs" for P and xs :: string
    by (meson le_trans)+
  assume "parse_class s = Some (neg, items, rest)"
  with * show ?thesis by (auto simp: parse_class_def Let_def split: if_splits)
qed

function glob_tokens :: "string \<Rightarrow> glob_token list" where
  "glob_tokens [] = []"
| "glob_tokens (c # s) =
     (if c = CHR ''*'' then GStar # glob_tokens s
      else if c = CHR ''?'' then GAny # glob_tokens s
      else if c = CHR ''['' then
        (case parse_class s of
           None \<Rightarrow> GLit c # glob_tokens s
         | Some (neg, items, rest) \<Rightarrow> GClass neg items # glob_tokens rest)
      else GLit c # glob_tokens s)"
  by pat_completeness auto
termination
  by (relation "measure length") (auto dest: parse_class_shorter)

fun token_matches :: "glob_token \<Rightarrow> char \<Rightarrow> bool" where
  "token_matches GStar c \<longleftrightarrow> True"
| "token_matches GAny c \<longleftrightarrow> True"
| "token_matches (GClass neg items) c \<longleftrightarrow>
     neg \<noteq> list_ex (\<lambda>(a, b). (of_char a :: nat) \<le> of_char c \<and> (of_char c :: nat) \<le> of_char b) items"
| "token_matches (GLit a) c \<longleftrightarrow> a = c"

fun glob_match :: "glob_token list \<Rightarrow> string \<Rightarrow> bool" where
  "glob_match [] s \<longleftrightarrow> s = []"
| "glob_match (GStar # ts) [] \<longleftrightarrow> glob_match ts []"
| "glob_match (GStar # ts) (c # s) \<longleftrightarrow> glob_match ts (c # s) \<or> glob_match (GStar # ts) s"
| "glob_match (t # ts) [] \<longleftrightarrow> False"
| "glob_match (t # ts) (c # s) \<longleftrightarrow> token_matches t c \<and> glob_match ts s"

definition fnmatchcase :: "string \<Rightarrow> string \<Rightarrow> bool" where
  "fnmatchcase name pat \<longleftrightarrow> glob_match (glob_tokens pat) name"

section \<open>Profiles\<close>

datatype network_mode = Offline | GatewayOnly | Allowlist
datatype policy_decision = PolicyDeny | PolicyAsk | PolicyAllow
datatype approval_policy = OnRequest | NeverAsk

record network_policy =
  np_mode :: network_mode
  np_allow_domains :: "string list"
  np_deny_domains :: "string list"
  np_allow_ports :: "int list"
  np_allow_http_methods :: "string list"
  np_allow_private :: bool
  np_unknown_target :: policy_decision

record filesystem_policy =
  fp_read_roots :: "string list"
  fp_write_roots :: "string list"
  fp_deny_read :: "string list"
  fp_deny_write :: "string list"

record command_policy =
  cm_enabled :: bool
  cm_allow :: "string list"
  cm_ask :: "string list"
  cm_deny :: "string list"

record tool_policy =
  tp_allow_effects :: "string list"
  tp_ask_effects :: "string list"
  tp_deny_effects :: "string list"
  tp_deny_tools :: "string list"

record sandbox_profile =
  pf_approval_policy :: approval_policy
  pf_filesystem :: filesystem_policy
  pf_network :: network_policy
  pf_commands :: command_policy
  pf_tools :: tool_policy

datatype policy_error =
  BadPort | MissingDefaultProfile | MissingRoleProfile "string list" | EmptyRolePriority | NoProfile string

definition default_filesystem :: filesystem_policy where
  "default_filesystem = \<lparr>fp_read_roots = [''/workspace/input''],
     fp_write_roots = [''/workspace/output'', ''/workspace/logs'', ''/workspace/artifacts'', ''/workspace/tmp''],
     fp_deny_read = [], fp_deny_write = []\<rparr>"

definition default_network :: network_policy where
  "default_network = \<lparr>np_mode = GatewayOnly, np_allow_domains = [], np_deny_domains = [],
     np_allow_ports = [80, 443], np_allow_http_methods = [''GET'', ''HEAD'', ''OPTIONS''],
     np_allow_private = False, np_unknown_target = PolicyDeny\<rparr>"

definition default_commands :: command_policy where
  "default_commands = \<lparr>cm_enabled = False, cm_allow = [], cm_ask = [], cm_deny = []\<rparr>"

definition default_tools :: tool_policy where
  "default_tools = \<lparr>tp_allow_effects = [''read_only''],
     tp_ask_effects = [''sensitive_read'', ''external_write'', ''local_write''],
     tp_deny_effects = [''destructive''], tp_deny_tools = []\<rparr>"

definition upper_char :: "char \<Rightarrow> char" where
  "upper_char c = (let n = of_char c :: nat in
     if (97 \<le> n \<and> n \<le> 122) \<or> (224 \<le> n \<and> n \<le> 254 \<and> n \<noteq> 247) then char_of (n - 32) else c)"

definition upper :: "string \<Rightarrow> string" where
  "upper s = map upper_char s"

definition normal_set :: "(string \<Rightarrow> string) \<Rightarrow> string list \<Rightarrow> string list" where
  "normal_set f xs = sort (remdups (map (f \<circ> strip) (filter (\<lambda>x. strip x \<noteq> []) xs)))"

definition validate_network_values :: "network_policy \<Rightarrow> policy_error + network_policy" where
  "validate_network_values p =
     (if list_ex (\<lambda>port. port < 1 \<or> 65535 < port) (np_allow_ports p) then Inl BadPort
      else Inr (p\<lparr>np_allow_http_methods := normal_set upper (np_allow_http_methods p),
                  np_allow_domains := normal_set lower (np_allow_domains p),
                  np_deny_domains := normal_set lower (np_deny_domains p)\<rparr>))"

section \<open>Decisions\<close>

definition rstrip_char :: "char \<Rightarrow> string \<Rightarrow> string" where
  "rstrip_char ch s = rev (dropWhile (\<lambda>c. c = ch) (rev s))"

definition normal_domain :: "string \<Rightarrow> string" where
  "normal_domain s = rstrip_char (CHR ''.'') (strip (lower s))"

definition ends_with :: "string \<Rightarrow> string \<Rightarrow> bool" where
  "ends_with s t \<longleftrightarrow> length t \<le> length s \<and> drop (length s - length t) s = t"

definition dots :: "string \<Rightarrow> nat" where
  "dots s = length (filter (\<lambda>c. c = CHR ''.'') s)"

definition domain_matches :: "string \<Rightarrow> string \<Rightarrow> bool" where
  "domain_matches pat host \<longleftrightarrow>
     (let p = normal_domain pat; h = normal_domain host
      in if p = h then True
         else if starts_with p ''**.'' then h = drop 3 p \<or> ends_with h (CHR ''.'' # drop 3 p)
         else if starts_with p ''*.'' then
           h \<noteq> drop 2 p \<and> ends_with h (CHR ''.'' # drop 2 p) \<and> dots h = dots (drop 2 p) + 1
         else False)"

definition network_target_decision :: "network_policy \<Rightarrow> string \<Rightarrow> int \<Rightarrow> policy_decision" where
  "network_target_decision p host port =
     (if np_mode p = Offline \<or> port \<notin> set (np_allow_ports p) then PolicyDeny
      else if list_ex (\<lambda>pat. domain_matches pat host) (np_deny_domains p) then PolicyDeny
      else (let allowed = list_ex (\<lambda>pat. domain_matches pat host) (np_allow_domains p)
            in if np_unknown_target p = PolicyAsk \<and> \<not> allowed then PolicyAsk
               else if allowed then PolicyAllow else PolicyDeny))"

definition tool_policy_decision :: "sandbox_profile \<Rightarrow> string \<Rightarrow> string \<Rightarrow> policy_decision" where
  "tool_policy_decision pf name effect =
     (let t = pf_tools pf
      in if list_ex (\<lambda>pat. fnmatchcase (lower name) (lower pat)) (tp_deny_tools t) \<or> effect \<in> set (tp_deny_effects t)
         then PolicyDeny
         else if effect \<in> set (tp_ask_effects t) then PolicyAsk
         else if effect \<in> set (tp_allow_effects t) then PolicyAllow
         else if pf_approval_policy pf = OnRequest then PolicyAsk else PolicyDeny)"

definition command_policy_decision :: "sandbox_profile \<Rightarrow> string \<Rightarrow> policy_decision" where
  "command_policy_decision pf command =
     (let c = pf_commands pf
      in if \<not> cm_enabled c then PolicyDeny
         else if list_ex (fnmatchcase command) (cm_deny c) then PolicyDeny
         else if list_ex (fnmatchcase command) (cm_ask c) then PolicyAsk
         else if list_ex (fnmatchcase command) (cm_allow c) then PolicyAllow
         else if pf_approval_policy pf = OnRequest then PolicyAsk else PolicyDeny)"

text \<open>\<open>str.split("/")\<close>.\<close>

fun split_on :: "char \<Rightarrow> string \<Rightarrow> string \<Rightarrow> string list" where
  "split_on sep cur [] = [cur]"
| "split_on sep cur (c # s) = (if c = sep then cur # split_on sep [] s else split_on sep (cur @ [c]) s)"

definition normal_path :: "string \<Rightarrow> string" where
  "normal_path path = strip (map (\<lambda>c. if c = CHR 92 then CHR ''/'' else c) path)"

definition path_segments :: "string \<Rightarrow> string list" where
  "path_segments path = filter (\<lambda>p. p \<noteq> [] \<and> p \<noteq> ''.'') (split_on (CHR ''/'') [] (normal_path path))"

definition work_root :: "string \<Rightarrow> bool" where
  "work_root dir \<longleftrightarrow>
     (let r = rstrip_char (CHR ''/'') dir
      in r \<in> {''/workspace'', ''/workspace/work''} \<or> starts_with r ''/workspace/work/'')"

definition filesystem_path_allowed :: "sandbox_profile \<Rightarrow> string \<Rightarrow> bool \<Rightarrow> bool" where
  "filesystem_path_allowed pf path write =
     (let f = pf_filesystem pf; p = normal_path path
      in if starts_with p ''/'' \<or> ''..'' \<in> set (path_segments path) then False
         else if list_ex (fnmatchcase p) (if write then fp_deny_write f else fp_deny_read f) then False
         else list_ex work_root (if write then fp_write_roots f else fp_read_roots f))"

section \<open>Choosing a profile\<close>

record policy_bundle =
  pb_role_priority :: "string list"
  pb_profile_by_role :: "(string, string) dict"
  pb_default_profile :: string
  pb_profiles :: "(string, sandbox_profile) dict"

definition validate_profile_references :: "policy_bundle \<Rightarrow> policy_error + policy_bundle" where
  "validate_profile_references b =
     (if dict_get (pb_profiles b) (pb_default_profile b) = None then Inl MissingDefaultProfile
      else (let missing = sort (remdups (filter (\<lambda>p. dict_get (pb_profiles b) p = None)
              (dict_values (pb_profile_by_role b))))
            in if missing \<noteq> [] then Inl (MissingRoleProfile missing)
               else if pb_role_priority b = [] then Inl EmptyRolePriority else Inr b))"

definition profile_named :: "policy_bundle \<Rightarrow> string \<Rightarrow> policy_error + string \<times> sandbox_profile" where
  "profile_named b i = (case dict_get (pb_profiles b) i of None \<Rightarrow> Inl (NoProfile i) | Some p \<Rightarrow> Inr (i, p))"

definition select_profile :: "policy_bundle \<Rightarrow> string list \<Rightarrow> policy_error + string \<times> sandbox_profile" where
  "select_profile b roles =
     (let have_roles = map (lower \<circ> strip) roles
      in case List.find (\<lambda>role. lower role \<in> set have_roles \<and> dict_get (pb_profile_by_role b) role \<noteq> None)
                (pb_role_priority b) of
           Some role \<Rightarrow>
             (case dict_get (pb_profile_by_role b) role of
                None \<Rightarrow> Inl (NoProfile role) | Some i \<Rightarrow> profile_named b i)
         | None \<Rightarrow> profile_named b (pb_default_profile b))"

definition resolve_profile :: "policy_bundle \<Rightarrow> string \<Rightarrow> string list \<Rightarrow> policy_error + string \<times> sandbox_profile" where
  "resolve_profile b pinned roles =
     res_bind (select_profile b roles) (\<lambda>chosen.
       if pinned \<noteq> [] \<and> pinned \<noteq> ''research-gateway-only'' \<and> dict_get (pb_profiles b) pinned \<noteq> None
       then profile_named b pinned else Inr chosen)"

section \<open>Normal forms\<close>

lemma lower_char_space [simp]: "py_space (lower_char c) = py_space c"
  by (auto simp: lower_char_def py_space_def Let_def)

lemma lower_char_idem [simp]: "lower_char (lower_char c) = lower_char c"
  by (auto simp: lower_char_def Let_def)

lemma upper_char_space [simp]: "py_space (upper_char c) = py_space c"
  by (auto simp: upper_char_def py_space_def Let_def)

lemma upper_char_idem [simp]: "upper_char (upper_char c) = upper_char c"
  by (auto simp: upper_char_def Let_def)

lemma dropWhile_map_space:
  "(\<And>c. py_space (f c) = py_space c) \<Longrightarrow> dropWhile py_space (map f s) = map f (dropWhile py_space s)"
  by (induction s) auto

lemma strip_map:
  "(\<And>c. py_space (f c) = py_space c) \<Longrightarrow> strip (map f s) = map f (strip s)"
  by (simp add: strip_def dropWhile_map_space rev_map)

lemma dropWhile_idem [simp]: "dropWhile P (dropWhile P xs) = dropWhile P xs"
  by (induction xs) auto

lemma strip_idem [simp]: "strip (strip s) = strip s"
proof -
  let ?d = "dropWhile py_space"
  have "?d (rev (?d (rev t))) = rev (?d (rev t))" if "?d t = t" for t
  proof (cases "?d (rev t)")
    case (Cons x xs)
    then have "t \<noteq> []" by auto
    with that have hd: "\<not> py_space (hd t)" by (cases t) (auto split: if_splits simp: dropWhile_eq_Cons_conv)
    have "\<exists>ys. rev t = ys @ ?d (rev t)" by (metis takeWhile_dropWhile_id)
    then obtain ys where "rev t = ys @ ?d (rev t)" by blast
    then have "t = rev (?d (rev t)) @ rev ys" by (metis rev_append rev_rev_ident)
    with Cons hd have "\<not> py_space (hd (rev (?d (rev t))))"
      by (metis hd_append2 list.distinct(1) rev_is_Nil_conv)
    with Cons show ?thesis by (cases "rev (?d (rev t))") auto
  next
    case Nil
    then show ?thesis by (metis dropWhile.simps(1) rev.simps(1))
  qed
  from this[of "?d s"] show ?thesis by (simp add: strip_def)
qed

lemma normal_set_idem:
  assumes "\<And>c. py_space (f c) = py_space c" "\<And>c. f (f c) = f c"
  shows "normal_set (map f) (normal_set (map f) xs) = normal_set (map f) xs"
proof -
  have same: "map f (strip y) = y" and kept: "strip y \<noteq> []" if "y \<in> set (normal_set (map f) xs)" for y
  proof -
    from that obtain x where x: "y = map f (strip x)" "strip x \<noteq> []" by (auto simp: normal_set_def)
    then have "strip y = map f (strip x)" using assms(1) by (simp add: strip_map)
    with x assms(2) show "map f (strip y) = y" "strip y \<noteq> []" by (simp_all add: comp_def)
  qed
  have "map (map f \<circ> strip) (filter (\<lambda>x. strip x \<noteq> []) (normal_set (map f) xs)) = normal_set (map f) xs"
    using same kept by (simp add: map_idI filter_id_conv[THEN iffD2])
  moreover have "sort (remdups (normal_set (map f) xs)) = normal_set (map f) xs"
    by (simp add: normal_set_def sorted_sort_id distinct_remdups_id)
  ultimately show ?thesis by (metis normal_set_def)
qed

lemma lower_map: "lower = map lower_char" and upper_map: "upper = map upper_char"
  by (auto simp: lower_def upper_def)

lemma normal_sets_idem [simp]:
  "normal_set lower (normal_set lower xs) = normal_set lower xs"
  "normal_set upper (normal_set upper xs) = normal_set upper xs"
  by (simp_all add: lower_map upper_map normal_set_idem)

text \<open>A validated network policy is its own normal form, so its digest does not change on a reload.\<close>

lemma validated_policy_stable:
  "validate_network_values p = Inr p' \<Longrightarrow> validate_network_values p' = Inr p'"
  by (auto simp: validate_network_values_def split: if_splits)

section \<open>Choosing\<close>

lemma profile_named_ok: "dict_get (pb_profiles b) i \<noteq> None \<Longrightarrow>
    \<exists>p. profile_named b i = Inr (i, p) \<and> dict_get (pb_profiles b) i = Some p"
  by (auto simp: profile_named_def)

lemma select_profile_ok:
  assumes "validate_profile_references b = Inr b'" "dict_ok (pb_profile_by_role b)"
  shows "\<exists>i p. select_profile b roles = Inr (i, p) \<and> dict_get (pb_profiles b) i = Some p"
proof -
  have dflt: "dict_get (pb_profiles b) (pb_default_profile b) \<noteq> None"
    and refs: "filter (\<lambda>p. dict_get (pb_profiles b) p = None) (dict_values (pb_profile_by_role b)) = []"
    using assms(1)
    by (auto simp: validate_profile_references_def Let_def split: if_splits)
      (metis set_empty set_remdups set_sort)
  show ?thesis
  proof (cases "List.find (\<lambda>role. lower role \<in> set (map (lower \<circ> strip) roles) \<and>
      dict_get (pb_profile_by_role b) role \<noteq> None) (pb_role_priority b)")
    case None
    with profile_named_ok[OF dflt] show ?thesis by (auto simp: select_profile_def Let_def)
  next
    case (Some role)
    then obtain i where i: "dict_get (pb_profile_by_role b) role = Some i" by (auto simp: find_Some_iff)
    then have "i \<in> set (dict_values (pb_profile_by_role b))" using assms(2) by (auto simp: dict_values_get)
    with refs have "dict_get (pb_profiles b) i \<noteq> None" by (auto simp: filter_empty_conv)
    from profile_named_ok[OF this] Some i show ?thesis by (auto simp: select_profile_def Let_def)
  qed
qed

section \<open>Properties\<close>

text \<open>A validated bundle gives every caller a profile of its own: whatever the roles and the pinned
  name, choosing ends with an existing profile, which is the pinned one, one mapped to a role, or the
  default.\<close>

lemma profile_always_resolves:
  assumes "validate_profile_references b = Inr b'" "dict_ok (pb_profile_by_role b)"
  shows "\<exists>i p. resolve_profile b pinned roles = Inr (i, p) \<and> dict_get (pb_profiles b) i = Some p \<and>
    (i = pinned \<or> (\<exists>p. select_profile b roles = Inr (i, p)))"
proof -
  from select_profile_ok[OF assms, of roles] obtain i p
    where "select_profile b roles = Inr (i, p)" "dict_get (pb_profiles b) i = Some p" by blast
  with profile_named_ok[of b pinned] show ?thesis
    by (cases "pinned \<noteq> [] \<and> pinned \<noteq> ''research-gateway-only'' \<and> dict_get (pb_profiles b) pinned \<noteq> None")
      (auto simp: resolve_profile_def)
qed

definition plain_profile :: sandbox_profile where
  "plain_profile = \<lparr>pf_approval_policy = NeverAsk, pf_filesystem = default_filesystem\<lparr>fp_write_roots := [''/workspace''],
     fp_deny_write := [''secrets/*'']\<rparr>, pf_network = default_network\<lparr>np_allow_domains := [''*.example.org'']\<rparr>,
     pf_commands = default_commands, pf_tools = default_tools\<rparr>"

definition plain_bundle :: policy_bundle where
  "plain_bundle = \<lparr>pb_role_priority = [''admin'', ''viewer''], pb_profile_by_role = [(''viewer'', ''p1'')],
     pb_default_profile = ''p0'', pb_profiles = [(''p0'', plain_profile), (''p1'', plain_profile)]\<rparr>"

lemma profile_always_resolves_witness:
  "\<exists>i p. resolve_profile plain_bundle ''p9'' ['' Viewer''] = Inr (i, p)"
proof -
  have "validate_profile_references plain_bundle = Inr plain_bundle" "dict_ok (pb_profile_by_role plain_bundle)"
    by (simp_all add: plain_bundle_def validate_profile_references_def dict_values_def dict_ok_def)
  from profile_always_resolves[OF this] show ?thesis by blast
qed

text \<open>The network rules are deny, then allow: a target is allowed exactly when the policy is online, the
  port is listed, no deny pattern and some allow pattern matches the host; a pattern that matches
  names the host itself or a domain above it at a label boundary.\<close>

lemma network_allow_decides:
  "(network_target_decision p host port = PolicyAllow \<longleftrightarrow>
     np_mode p \<noteq> Offline \<and> port \<in> set (np_allow_ports p) \<and>
     \<not> list_ex (\<lambda>pat. domain_matches pat host) (np_deny_domains p) \<and>
     list_ex (\<lambda>pat. domain_matches pat host) (np_allow_domains p)) \<and>
   (domain_matches pat host \<longrightarrow>
     (\<exists>base. base \<in> {normal_domain pat, drop 2 (normal_domain pat), drop 3 (normal_domain pat)} \<and>
        (normal_domain host = base \<or> ends_with (normal_domain host) (CHR ''.'' # base))))"
  by (auto simp: network_target_decision_def domain_matches_def Let_def split: if_splits)

lemma network_allow_decides_witness:
  "network_target_decision (default_network\<lparr>np_allow_domains := [''*.example.org'']\<rparr>) ''API.example.org.'' 443 = PolicyAllow \<and>
   network_target_decision (default_network\<lparr>np_allow_domains := [''*.example.org'']\<rparr>) ''evilexample.org'' 443 = PolicyDeny"
proof -
  let ?p = "default_network\<lparr>np_allow_domains := [''*.example.org'']\<rparr>"
  have "list_ex (\<lambda>pat. domain_matches pat ''API.example.org.'') [''*.example.org'']" by code_simp
  then have "network_target_decision ?p ''API.example.org.'' 443 = PolicyAllow"
    using network_allow_decides[of ?p "''API.example.org.''" 443] by (simp add: default_network_def)
  moreover have "network_target_decision ?p ''evilexample.org'' 443 = PolicyDeny" by code_simp
  ultimately show ?thesis ..
qed

text \<open>Deny patterns for files can be stepped around: they are matched against the path as written, while
  only empty and dot segments are ignored elsewhere, so a path with the same segments as a denied one is
  allowed.\<close>

lemma deny_pattern_bypassed:
  "path_segments ''./secrets/key'' = path_segments ''secrets/key'' \<and>
   \<not> filesystem_path_allowed plain_profile ''secrets/key'' True \<and>
   filesystem_path_allowed plain_profile ''./secrets/key'' True"
  by code_simp

end
