(* ===== verification/Egress.thy ===== *)
theory Egress
  imports Sandbox_Policy Py_Values
begin

text \<open>
  Where a tool may connect: the host and port of a URL as \<open>urlparse\<close> reads them, the hosts a
  configuration allows (\<open>sandbox/policy.py\<close>), and the gateway's decision on the URLs of one call
  (\<open>sandbox/gateway.py\<close>), which asks \<open>network_target_decision\<close> for every one of them. Whether the text
  in brackets is an IPv6 address is an argument, \<open>ip6\<close>.
\<close>

section \<open>URLs\<close>

text \<open>\<open>urlsplit\<close>: leading blanks and control characters are dropped, tabs and line breaks everywhere.\<close>

definition clean_url :: "string \<Rightarrow> string" where
  "clean_url s = filter (\<lambda>c. c \<notin> {CHR 9, CHR 10, CHR 13}) (dropWhile (\<lambda>c. (of_char c :: nat) \<le> 32) s)"

definition ascii_alpha :: "char \<Rightarrow> bool" where
  "ascii_alpha c \<longleftrightarrow> (let n = of_char c :: nat in (65 \<le> n \<and> n \<le> 90) \<or> (97 \<le> n \<and> n \<le> 122))"

definition ascii_digit :: "char \<Rightarrow> bool" where
  "ascii_digit c \<longleftrightarrow> (let n = of_char c :: nat in 48 \<le> n \<and> n \<le> 57)"

definition scheme_char :: "char \<Rightarrow> bool" where
  "scheme_char c \<longleftrightarrow> ascii_alpha c \<or> ascii_digit c \<or> c \<in> {CHR ''+'', CHR ''-'', CHR ''.''}"

text \<open>\<open>str.partition\<close> and the last part of \<open>str.rpartition\<close>.\<close>

definition before :: "char \<Rightarrow> string \<Rightarrow> string" where
  "before c s = takeWhile (\<lambda>x. x \<noteq> c) s"

definition after :: "char \<Rightarrow> string \<Rightarrow> string" where
  "after c s = drop 1 (dropWhile (\<lambda>x. x \<noteq> c) s)"

definition after_last :: "char \<Rightarrow> string \<Rightarrow> string" where
  "after_last c s = rev (takeWhile (\<lambda>x. x \<noteq> c) (rev s))"

definition split_scheme :: "string \<Rightarrow> string \<times> string" where
  "split_scheme u =
     (let s = before (CHR '':'') u
      in if CHR '':'' \<in> set u \<and> s \<noteq> [] \<and> ascii_alpha (hd s) \<and> list_all scheme_char s
         then (lower s, after (CHR '':'') u) else ([], u))"

definition netloc_of :: "string \<Rightarrow> string" where
  "netloc_of rest =
     (if starts_with rest ''//'' then takeWhile (\<lambda>c. c \<notin> {CHR ''/'', CHR ''?'', CHR ''#''}) (drop 2 rest) else [])"

definition bad_brackets :: "(string \<Rightarrow> bool) \<Rightarrow> string \<Rightarrow> bool" where
  "bad_brackets ip6 netloc \<longleftrightarrow>
     (CHR ''['' \<in> set netloc) \<noteq> (CHR '']'' \<in> set netloc) \<or>
     CHR ''['' \<in> set netloc \<and> CHR '']'' \<in> set netloc \<and> \<not> ip6 (before (CHR '']'') (after (CHR ''['') netloc))"

definition host_port :: "string \<Rightarrow> string \<times> string" where
  "host_port netloc =
     (let info = after_last (CHR ''@'') netloc
      in if CHR ''['' \<in> set info
         then (let inner = after (CHR ''['') info
               in (before (CHR '']'') inner, after (CHR '':'') (after (CHR '']'') inner)))
         else (before (CHR '':'') info, after (CHR '':'') info))"

text \<open>The result of \<open>urlparse\<close>: \<open>hostname\<close> is in lower case up to a zone, and absent when empty.\<close>

record parsed_url =
  pu_scheme :: string
  pu_hostname :: "string option"
  pu_port_text :: string

definition urlparse :: "(string \<Rightarrow> bool) \<Rightarrow> string \<Rightarrow> json_error + parsed_url" where
  "urlparse ip6 url =
     (let sr = split_scheme (clean_url url); netloc = netloc_of (snd sr); hp = host_port netloc;
          zone = dropWhile (\<lambda>c. c \<noteq> CHR ''%'') (fst hp)
      in if bad_brackets ip6 netloc then Inl Raises
         else Inr \<lparr>pu_scheme = fst sr,
                   pu_hostname = (if fst hp = [] then None else Some (lower (before (CHR ''%'') (fst hp)) @ zone)),
                   pu_port_text = snd hp\<rparr>)"

definition digits_value :: "string \<Rightarrow> int" where
  "digits_value s = foldl (\<lambda>n c. n * 10 + (of_char c - 48)) 0 s"

definition port_of :: "string \<Rightarrow> json_error + int option" where
  "port_of s =
     (if s = [] then Inr None
      else if \<not> list_all ascii_digit s then Inl Raises
      else if digits_value s \<le> 65535 then Inr (Some (digits_value s)) else Inl Raises)"

definition egress_host_from_url :: "(string \<Rightarrow> bool) \<Rightarrow> string \<Rightarrow> string option" where
  "egress_host_from_url ip6 url =
     (case urlparse ip6 url of Inl _ \<Rightarrow> None | Inr p \<Rightarrow> map_option lower (pu_hostname p))"

definition egress_target_from_url :: "(string \<Rightarrow> bool) \<Rightarrow> string \<Rightarrow> (string \<times> int) option" where
  "egress_target_from_url ip6 url =
     (case urlparse ip6 url of
        Inl _ \<Rightarrow> None
      | Inr p \<Rightarrow>
          if lower (pu_scheme p) \<notin> {''http'', ''https''} then None
          else (case (pu_hostname p, port_of (pu_port_text p)) of
                  (Some host, Inr port) \<Rightarrow>
                    let usual = (if lower (pu_scheme p) = ''https'' then 443 else 80)
                    in Some (lower host, case port of None \<Rightarrow> usual | Some n \<Rightarrow> if n = 0 then usual else n)
                | _ \<Rightarrow> None))"

section \<open>The hosts of a configuration\<close>

text \<open>The fields of \<open>Configuration\<close> that are read; \<open>eg_bundle\<close> is the policy file as loaded.\<close>

record egress_config =
  eg_sandbox_enabled :: bool
  eg_bundle :: "policy_error + policy_bundle"
  eg_profile_id :: string
  eg_models :: "string list"
  eg_search_api :: string
  eg_mcp_url :: "string option"
  eg_browser_url :: "string option"

datatype egress_error = EgressPolicy policy_error | EgressUrl

definition offline_policy :: network_policy where
  "offline_policy = default_network\<lparr>np_mode := Offline, np_unknown_target := PolicyDeny\<rparr>"

definition network_policy_of :: "egress_config \<Rightarrow> egress_error + network_policy" where
  "network_policy_of g =
     (if \<not> eg_sandbox_enabled g then Inr offline_policy
      else (case res_bind (eg_bundle g) (\<lambda>b. resolve_profile b (eg_profile_id g) []) of
              Inl e \<Rightarrow> Inl (EgressPolicy e) | Inr (i, pf) \<Rightarrow> Inr (pf_network pf)))"

fun mode_value :: "network_mode \<Rightarrow> string" where
  "mode_value Offline = ''offline''"
| "mode_value GatewayOnly = ''gateway-only''"
| "mode_value Allowlist = ''allowlist''"

definition network_policy_mode :: "egress_config \<Rightarrow> egress_error + string" where
  "network_policy_mode g =
     (if eg_sandbox_enabled g then res_bind (network_policy_of g) (\<lambda>p. Inr (mode_value (np_mode p)))
      else Inr ''disabled'')"

definition model_host :: "string \<Rightarrow> string list" where
  "model_host name =
     (let m = lower name
      in if starts_with m ''deepseek:'' \<or> starts_with m ''openai:'' \<and> str_contains m ''deepseek'' then [''api.deepseek.com'']
         else if starts_with m ''openai:'' then [''api.openai.com'']
         else if starts_with m ''anthropic:'' then [''api.anthropic.com'']
         else if starts_with m ''google:'' \<or> starts_with m ''gemini:'' then [''generativelanguage.googleapis.com'']
         else if starts_with m ''groq:'' then [''api.groq.com'']
         else [])"

definition search_host :: "string \<Rightarrow> string list" where
  "search_host s =
     (if s = ''tavily'' then [''api.tavily.com''] else if s = ''openai'' then [''api.openai.com'']
      else if s = ''anthropic'' then [''api.anthropic.com''] else [])"

text \<open>The host of a configured server: its URL is parsed unguarded.\<close>

definition server_host :: "(string \<Rightarrow> bool) \<Rightarrow> string option \<Rightarrow> egress_error + string list" where
  "server_host ip6 url =
     (case url of
        None \<Rightarrow> Inr []
      | Some u \<Rightarrow>
          if u = [] then Inr []
          else (case urlparse ip6 u of
                  Inl _ \<Rightarrow> Inl EgressUrl
                | Inr p \<Rightarrow> Inr (case pu_hostname p of None \<Rightarrow> [] | Some h \<Rightarrow> [h])))"

definition allowed_domains :: "(string \<Rightarrow> bool) \<Rightarrow> egress_config \<Rightarrow> egress_error + string list" where
  "allowed_domains ip6 g =
     res_bind (network_policy_of g) (\<lambda>p.
     res_bind (server_host ip6 (eg_mcp_url g)) (\<lambda>mcp.
     res_bind (server_host ip6 (eg_browser_url g)) (\<lambda>browser.
       Inr (sort (remdups (filter (\<lambda>d. d \<noteq> [])
         (np_allow_domains p @ concat (map model_host (eg_models g)) @ search_host (eg_search_api g) @ mcp @ browser)))))))"

section \<open>The gateway's decision\<close>

text \<open>\<open>approved\<close> is what the approval of a target answers.\<close>

datatype target_error = TargetInvalid | TargetDenied string int

fun decide_targets ::
    "sandbox_profile \<Rightarrow> (string \<times> int \<Rightarrow> bool) \<Rightarrow> (string \<times> int) list \<Rightarrow> string list \<Rightarrow> target_error + string list" where
  "decide_targets pf approved [] hosts = Inr hosts"
| "decide_targets pf approved ((host, port) # ts) hosts =
     (let d = network_target_decision (pf_network pf) host port
      in if d = PolicyAllow then decide_targets pf approved ts (hosts @ [host])
         else if d = PolicyDeny \<or> pf_approval_policy pf = NeverAsk then Inl (TargetDenied host port)
         else if \<not> approved (host, port) then Inl (TargetDenied host port)
         else decide_targets pf approved ts (hosts @ [host]))"

definition gateway_targets ::
    "(string \<Rightarrow> bool) \<Rightarrow> sandbox_profile \<Rightarrow> (string \<times> int \<Rightarrow> bool) \<Rightarrow> string list \<Rightarrow> target_error + string list" where
  "gateway_targets ip6 pf approved urls =
     (let parsed = map (egress_target_from_url ip6) urls
      in if None \<in> set parsed then Inl TargetInvalid
         else decide_targets pf approved (sort (remdups (map the parsed))) [])"

section \<open>Facts\<close>

lemma decide_targets_all:
  "decide_targets pf approved ts hosts = Inr hs \<Longrightarrow>
    list_all (\<lambda>t. network_target_decision (pf_network pf) (fst t) (snd t) = PolicyAllow \<or>
      network_target_decision (pf_network pf) (fst t) (snd t) = PolicyAsk \<and>
        pf_approval_policy pf = OnRequest \<and> approved t) ts \<and>
    hs = hosts @ map fst ts"
proof (induction pf approved ts hosts rule: decide_targets.induct)
  case (2 pf approved host port ts hosts)
  then show ?case
    by (cases "network_target_decision (pf_network pf) host port"; cases "pf_approval_policy pf")
      (auto simp: Let_def split: if_splits)
qed simp

lemma gateway_targets_all:
  assumes "gateway_targets ip6 pf approved urls = Inr hosts" and "url \<in> set urls"
  obtains host port where "egress_target_from_url ip6 url = Some (host, port)" and "host \<in> set hosts"
    and "network_target_decision (pf_network pf) host port = PolicyAllow \<or>
      network_target_decision (pf_network pf) host port = PolicyAsk \<and>
        pf_approval_policy pf = OnRequest \<and> approved (host, port)"
proof -
  from assms have some: "None \<notin> set (map (egress_target_from_url ip6) urls)"
    and d: "decide_targets pf approved (sort (remdups (map the (map (egress_target_from_url ip6) urls)))) [] = Inr hosts"
    by (auto simp: gateway_targets_def Let_def split: if_splits)
  obtain host port where t: "egress_target_from_url ip6 url = Some (host, port)"
  proof (cases "egress_target_from_url ip6 url")
    case None
    with assms(2) have "None \<in> set (map (egress_target_from_url ip6) urls)" by (force simp: image_iff)
    with some show ?thesis by blast
  qed (use that in auto)
  let ?ts = "sort (remdups (map the (map (egress_target_from_url ip6) urls)))"
  from assms(2) t have "(host, port) \<in> the ` egress_target_from_url ip6 ` set urls" by (metis image_eqI option.sel)
  then have m: "(host, port) \<in> set ?ts" by (simp add: image_image)
  from decide_targets_all[OF d] have hs: "hosts = map fst ?ts"
    and l: "list_all (\<lambda>t. network_target_decision (pf_network pf) (fst t) (snd t) = PolicyAllow \<or>
      network_target_decision (pf_network pf) (fst t) (snd t) = PolicyAsk \<and>
        pf_approval_policy pf = OnRequest \<and> approved t) ?ts" by simp_all
  from m have "fst (host, port) \<in> set (map fst ?ts)" by (metis image_eqI set_map)
  with hs have "host \<in> set hosts" by simp
  with that[OF t] bspec[OF l[unfolded list_all_iff] m] show ?thesis by simp
qed

end
