(* ===== verification/Governance.thy ===== *)
theory Governance
  imports Tool_Schema Egress
begin

text \<open>
  How a tool call is governed (\<open>tools/governance.py\<close>, the enumerations and the output text of
  \<open>tools/base.py\<close>): who may call which tool, classification of its exceptions, retries, and the
  pipeline \<open>execute_governed_tool_call\<close>. The tool itself is a sequence of outcomes, one per physical
  invocation; the Pydantic model of its input, the random jitter and the text of values (\<open>repr\<close>,
  \<open>dumps\<close>) are arguments. Tracing and the file of the blocked-tool event are left out; that the event
  is written is part of the result.
\<close>

section \<open>Tools and roles\<close>

datatype tool_role = Supervisor | Researcher

fun tool_role_value :: "tool_role \<Rightarrow> string" where
  "tool_role_value Supervisor = ''supervisor''" | "tool_role_value Researcher = ''researcher''"

datatype tool_origin = OriginSystem | OriginSearch | OriginMcp | OriginNative | OriginSkill | OriginBrowser

fun origin_value :: "tool_origin \<Rightarrow> string" where
  "origin_value OriginSystem = ''system''"
| "origin_value OriginSearch = ''search''"
| "origin_value OriginMcp = ''mcp''"
| "origin_value OriginNative = ''provider_native''"
| "origin_value OriginSkill = ''skill''"
| "origin_value OriginBrowser = ''browser''"

definition ORIGINS :: "tool_origin list" where
  "ORIGINS = [OriginSystem, OriginSearch, OriginMcp, OriginNative, OriginSkill, OriginBrowser]"

datatype tool_effect = ReadOnly | SensitiveRead | ExternalWrite | LocalWrite | Destructive

fun effect_value :: "tool_effect \<Rightarrow> string" where
  "effect_value ReadOnly = ''read_only''"
| "effect_value SensitiveRead = ''sensitive_read''"
| "effect_value ExternalWrite = ''external_write''"
| "effect_value LocalWrite = ''local_write''"
| "effect_value Destructive = ''destructive''"

text \<open>A tool as the pipeline sees it. \<open>gt_schema\<close> is its JSON schema, absent when the adapter raises;
  \<open>gt_invalid\<close> the errors of Pydantic on the arguments; \<open>gt_egress_urls\<close> the declared URLs, absent when
  the tool declares none, and raising when it returns something else than a list of strings.\<close>

type_synonym tool_args = "(string, json) dict"

record gov_tool =
  gt_name :: string
  gt_origin :: tool_origin
  gt_effect :: "tool_effect option"
  gt_retryable :: bool
  gt_max_output :: "int option"
  gt_schema :: "json option"
  gt_invalid :: "tool_args \<Rightarrow> json option"
  gt_egress_urls :: "(tool_args \<Rightarrow> string list option) option"
  gt_auth_satisfied :: bool

definition get_tool_effect :: "gov_tool \<Rightarrow> tool_effect" where
  "get_tool_effect t =
     (case gt_effect t of Some e \<Rightarrow> e | None \<Rightarrow> if gt_origin t = OriginMcp then Destructive else ReadOnly)"

text \<open>The configuration that governance reads, and the facts of the run.\<close>

record gov_config =
  gc_supervisor_whitelist :: "string list option"
  gc_researcher_whitelist :: "string list option"
  gc_supervisor_blocked :: "string list"
  gc_researcher_blocked :: "string list"
  gc_constraints :: "(string, (string, tool_args) dict) dict"
  gc_role_tools :: "(string, string list) dict"
  gc_role_origins :: "(string, string list) dict"
  gc_mcp_auth_required :: bool
  gc_require_approval :: bool
  gc_event_log :: bool
  gc_max_output :: int
  gc_egress :: egress_config

text \<open>The authenticated user is an object with attributes or a dictionary; an attribute that is missing
  is \<open>JNull\<close>.\<close>

datatype auth_user = UserObject json json | UserDict tool_args

record run_facts =
  rf_user :: "auth_user option"
  rf_user_permissions :: json
  rf_mcp_tokens :: json
  rf_metadata :: tool_args

section \<open>Permissions\<close>

definition origin_blocklist :: "tool_role \<Rightarrow> gov_config \<Rightarrow> tool_origin list" where
  "origin_blocklist role cfg =
     (let raw = (if role = Supervisor then gc_supervisor_blocked cfg else gc_researcher_blocked cfg)
      in filter (\<lambda>g. origin_value g \<in> set raw) ORIGINS)"

definition resolve_allowed_tools :: "tool_role \<Rightarrow> gov_config \<Rightarrow> string list \<Rightarrow> string list option" where
  "resolve_allowed_tools role cfg assembled =
     map_option (filter (\<lambda>n. n \<in> set assembled))
       (if role = Supervisor then gc_supervisor_whitelist cfg else gc_researcher_whitelist cfg)"

fun texts_of :: "(json \<Rightarrow> string) \<Rightarrow> json \<Rightarrow> string list option" where
  "texts_of repr (JList xs) = Some (map (py_text repr) xs)"
| "texts_of repr v = None"

fun user_roles_value :: "auth_user \<Rightarrow> json" where
  "user_roles_value (UserObject roles effective) = roles"
| "user_roles_value (UserDict d) = jor (jget ''roles'' d) (jget ''permissions'' d)"

definition get_user_permissions :: "(json \<Rightarrow> string) \<Rightarrow> run_facts \<Rightarrow> string list" where
  "get_user_permissions repr rf =
     (let fallback = (case texts_of repr (rf_user_permissions rf) of Some ps \<Rightarrow> ps | None \<Rightarrow> [])
      in case rf_user rf of
           None \<Rightarrow> fallback
         | Some u \<Rightarrow> (case texts_of repr (user_roles_value u) of Some ps \<Rightarrow> ps | None \<Rightarrow> fallback))"

fun user_effective_value :: "auth_user \<Rightarrow> json" where
  "user_effective_value (UserObject roles effective) = effective"
| "user_effective_value (UserDict d) = jor (jget ''effective_permissions'' d) (jget ''permissions'' d)"

definition get_effective_permissions :: "(json \<Rightarrow> string) \<Rightarrow> run_facts \<Rightarrow> bool \<times> string list" where
  "get_effective_permissions repr rf =
     (case rf_user rf of
        None \<Rightarrow> (False, [])
      | Some u \<Rightarrow> (True, case texts_of repr (user_effective_value u) of Some ps \<Rightarrow> ps | None \<Rightarrow> []))"

fun ORIGIN_PERMISSION :: "tool_origin \<Rightarrow> string option" where
  "ORIGIN_PERMISSION OriginSearch = Some ''research.tool.search''"
| "ORIGIN_PERMISSION OriginNative = Some ''research.tool.provider_native''"
| "ORIGIN_PERMISSION OriginMcp = Some ''research.tool.mcp''"
| "ORIGIN_PERMISSION OriginBrowser = Some ''research.tool.browser''"
| "ORIGIN_PERMISSION OriginSkill = Some ''research.tool.skill''"
| "ORIGIN_PERMISSION OriginSystem = None"

definition denied :: "string \<Rightarrow> string \<Rightarrow> tool_args \<Rightarrow> tool_error" where
  "denied name msg detail =
     \<lparr>te_error_type = PermissionDenied, te_tool_name = name, te_message = ''Tool '' @ quoted name @ msg,
      te_attempts = None, te_retryable = False, te_detail = detail\<rparr>"

fun check_user_roles :: "gov_config \<Rightarrow> string \<Rightarrow> tool_origin \<Rightarrow> string list \<Rightarrow> tool_error option" where
  "check_user_roles cfg name g [] = None"
| "check_user_roles cfg name g (r # rs) =
     (if name \<in> set (case dict_get (gc_role_tools cfg) r of None \<Rightarrow> [] | Some ns \<Rightarrow> ns)
      then Some (denied name ('' is blocked for user role '' @ quoted r @ ''.'')
        [(''user_role'', JStr r), (''scope'', JStr ''tool'')])
      else if origin_value g \<in> set (case dict_get (gc_role_origins cfg) r of None \<Rightarrow> [] | Some gs \<Rightarrow> gs)
      then Some (denied name ('' (origin='' @ origin_value g @ '') is blocked for user role '' @ quoted r @ ''.'')
        [(''user_role'', JStr r), (''scope'', JStr ''origin''), (''origin'', JStr (origin_value g))])
      else check_user_roles cfg name g rs)"

definition lacks_permission :: "(json \<Rightarrow> string) \<Rightarrow> run_facts \<Rightarrow> tool_origin \<Rightarrow> string option" where
  "lacks_permission repr rf g =
     (let (authenticated, effective) = get_effective_permissions repr rf
      in case ORIGIN_PERMISSION g of
           None \<Rightarrow> None
         | Some p \<Rightarrow> if authenticated \<and> p \<notin> set effective then Some p else None)"

definition mcp_unauthenticated :: "gov_config \<Rightarrow> run_facts \<Rightarrow> gov_tool \<Rightarrow> bool" where
  "mcp_unauthenticated cfg rf t \<longleftrightarrow>
     gt_origin t = OriginMcp \<and> gc_mcp_auth_required cfg \<and> \<not> gt_auth_satisfied t \<and> \<not> jtruthy (rf_mcp_tokens rf)"

definition check_permission ::
    "(json \<Rightarrow> string) \<Rightarrow> string \<Rightarrow> gov_tool \<Rightarrow> tool_role \<Rightarrow> string list option \<Rightarrow> gov_config \<Rightarrow> run_facts \<Rightarrow>
      tool_error option" where
  "check_permission repr name t role allowed cfg rf =
     (let g = gt_origin t
      in if (case allowed of None \<Rightarrow> False | Some ns \<Rightarrow> name \<notin> set ns)
         then Some (denied name ('' is not in the '' @ tool_role_value role @ '' tool whitelist.'') [(''role'', JStr (tool_role_value role))])
         else case lacks_permission repr rf g of
           Some p \<Rightarrow> Some (denied name '' is not permitted for this user.''
             [(''origin'', JStr (origin_value g)), (''required_permission'', JStr p)])
         | None \<Rightarrow>
             if g \<in> set (origin_blocklist role cfg)
             then Some (denied name ('' (origin='' @ origin_value g @ '') is not permitted for the '' @ tool_role_value role @ ''.'')
               [(''role'', JStr (tool_role_value role)), (''origin'', JStr (origin_value g))])
             else if mcp_unauthenticated cfg rf t
             then Some ((denied name [] [(''origin'', JStr (origin_value OriginMcp)), (''auth_required'', JBool True)])
               \<lparr>te_message := ''MCP tool requires authentication but was not loaded with a valid token.''\<rparr>)
             else check_user_roles cfg name g (get_user_permissions repr rf))"

definition user_role_blocklists_active :: "gov_config \<Rightarrow> bool" where
  "user_role_blocklists_active cfg \<longleftrightarrow> gc_role_tools cfg \<noteq> [] \<or> gc_role_origins cfg \<noteq> []"

text \<open>The fast path: nothing but the authentication of MCP tools could be enforced.\<close>

definition nothing_to_enforce :: "(json \<Rightarrow> string) \<Rightarrow> string list option \<Rightarrow> tool_role \<Rightarrow> gov_config \<Rightarrow> run_facts \<Rightarrow> bool" where
  "nothing_to_enforce repr allowed role cfg rf \<longleftrightarrow>
     allowed = None \<and> origin_blocklist role cfg = [] \<and> \<not> user_role_blocklists_active cfg \<and>
     \<not> fst (get_effective_permissions repr rf)"

definition filter_tools_by_permission ::
    "(json \<Rightarrow> string) \<Rightarrow> gov_tool list \<Rightarrow> tool_role \<Rightarrow> gov_config \<Rightarrow> run_facts \<Rightarrow> gov_tool list" where
  "filter_tools_by_permission repr tools role cfg rf =
     (let allowed = resolve_allowed_tools role cfg (map gt_name tools)
      in if nothing_to_enforce repr allowed role cfg rf then tools
         else filter (\<lambda>t. check_permission repr (gt_name t) t role allowed cfg rf = None) tools)"

section \<open>Exceptions and retries\<close>

text \<open>An exception with what is read of it (\<open>ei_kind\<close> is the first of these classes it belongs to), its cause
  or context, and the members of a group. Its text is absent when \<open>str\<close> raises.\<close>

datatype exc_kind = TimeoutExc | ClientResponseExc | NetworkExc | ToolExc | OtherExc

record exc_info =
  ei_kind :: exc_kind
  ei_type_name :: string
  ei_text :: "string option"
  ei_status :: "int option"
  ei_interaction_url :: "string option"

datatype py_exc = Exc (exc_info: exc_info) (exc_cause: "py_exc option") (exc_members: "py_exc list")

definition status_class :: "int option \<Rightarrow> tool_error_type \<times> bool" where
  "status_class st =
     (case st of
        None \<Rightarrow> (UnknownError, False)
      | Some n \<Rightarrow>
          if n = 429 then (ToolRateLimited, True)
          else if n = 503 \<or> 500 \<le> n then (ServiceUnavailable, True)
          else if n \<in> {408, 425} then (ToolRateLimited, True)
          else (UnknownError, False))"

definition tool_exc_class :: "exc_info \<Rightarrow> tool_error_type \<times> bool" where
  "tool_exc_class i =
     (let msg = lower (case ei_text i of None \<Rightarrow> [] | Some t \<Rightarrow> t)
      in if ei_interaction_url i \<notin> {None, Some []} then (InteractionRequired, False)
         else if str_contains msg ''429'' \<or> str_contains msg ''rate'' then (ToolRateLimited, True)
         else if str_contains msg ''503'' \<or> str_contains msg ''service unavailable'' then (ServiceUnavailable, True)
         else if str_contains msg ''timeout'' \<or> str_contains msg ''timed out'' then (ToolTimeout, True)
         else (UnknownError, False))"

fun classify_retryable_error :: "py_exc \<Rightarrow> tool_error_type \<times> bool"
  and classify_members :: "py_exc list \<Rightarrow> tool_error_type \<times> bool" where
  "classify_retryable_error (Exc i cause members) =
     (case ei_kind i of
        TimeoutExc \<Rightarrow> (ToolTimeout, True)
      | ClientResponseExc \<Rightarrow> status_class (ei_status i)
      | NetworkExc \<Rightarrow> (NetworkError, True)
      | ToolExc \<Rightarrow> tool_exc_class i
      | OtherExc \<Rightarrow> (case cause of Some c \<Rightarrow> classify_retryable_error c | None \<Rightarrow> classify_members members))"
| "classify_members [] = (UnknownError, False)"
| "classify_members (e # es) =
     (let r = classify_retryable_error e in if snd r then r else classify_members es)"

text \<open>What a tool returns: a JSON value (or \<open>None\<close>, or text), a Pydantic model, or another object.\<close>

datatype tool_output = JsonOutput json | ModelOutput string | OtherOutput string

text \<open>One physical invocation: a result, an exception, or a cancellation, which no handler catches.\<close>

datatype call_outcome = Returned tool_output | RaisedExc py_exc | Interrupted

record retry_policy =
  rp_max_retries :: int
  rp_base_delay :: seconds
  rp_max_delay :: seconds

datatype retry_end = Finished tool_output | Exhausted tool_error_type nat py_exc | EndInterrupted

definition backoff :: "retry_policy \<Rightarrow> (nat \<Rightarrow> seconds) \<Rightarrow> nat \<Rightarrow> seconds" where
  "backoff rp jitter attempt = min (rp_max_delay rp) (rp_base_delay rp * 2 ^ attempt) + jitter attempt"

function invoke_tool_with_retry ::
    "(nat \<Rightarrow> call_outcome) \<Rightarrow> (nat \<Rightarrow> seconds) \<Rightarrow> retry_policy \<Rightarrow> nat \<Rightarrow> retry_end \<times> seconds list" where
  "invoke_tool_with_retry call jitter rp attempt =
     (case call attempt of
        Returned out \<Rightarrow> (Finished out, [])
      | Interrupted \<Rightarrow> (EndInterrupted, [])
      | RaisedExc e \<Rightarrow>
          (let (kind, retryable) = classify_retryable_error e
           in if \<not> retryable \<or> rp_max_retries rp \<le> int attempt
              then (Exhausted (if retryable \<and> rp_max_retries rp \<le> int attempt then MaxRetriesExceeded else kind)
                      (attempt + 1) e, [])
              else (let (r, delays) = invoke_tool_with_retry call jitter rp (Suc attempt)
                    in (r, backoff rp jitter attempt # delays))))"
  by pat_completeness auto
termination by (relation "measure (\<lambda>(call, jitter, rp, attempt). nat (rp_max_retries rp - int attempt))") auto

declare invoke_tool_with_retry.simps [simp del]

section \<open>The pipeline\<close>

record gov_call =
  gn_name :: string
  gn_id :: string
  gn_args :: tool_args

record governed =
  go_message :: chat_message
  go_result :: "tool_output option"
  go_error :: "tool_error option"

text \<open>Exceptions that leave the pipeline.\<close>

datatype escape = EscapeRaises json_error | EscapeEgress egress_error | EscapeUrls | EscapeInterrupt

record gov_run =
  gr_outcome :: "escape + governed"
  gr_calls :: nat
  gr_delays :: "seconds list"
  gr_blocked_event :: bool

definition error_result :: "tool_error \<Rightarrow> string \<Rightarrow> governed" where
  "error_result e cid = \<lparr>go_message = to_tool_message e cid, go_result = None, go_error = Some e\<rparr>"

definition plain_error :: "tool_error_type \<Rightarrow> string \<Rightarrow> string \<Rightarrow> tool_args \<Rightarrow> tool_error" where
  "plain_error kind name msg detail =
     \<lparr>te_error_type = kind, te_tool_name = name, te_message = msg, te_attempts = None, te_retryable = False,
      te_detail = detail\<rparr>"

definition meta_texts :: "(json \<Rightarrow> string) \<Rightarrow> string \<Rightarrow> run_facts \<Rightarrow> escape + string list" where
  "meta_texts repr key rf =
     (case jlist (jget_or key (JList []) (rf_metadata rf)) of
        Inl e \<Rightarrow> Inl (EscapeRaises e) | Inr xs \<Rightarrow> Inr (map (py_text repr) xs))"

definition schema_gate :: "(json \<Rightarrow> string) \<Rightarrow> gov_config \<Rightarrow> gov_tool \<Rightarrow> gov_call \<Rightarrow> escape + tool_error option" where
  "schema_gate repr cfg t c =
     (case validate_tool_args repr (gt_name t) (gt_schema t)
        (case dict_get (gc_constraints cfg) (gt_name t) of None \<Rightarrow> [] | Some cs \<Rightarrow> cs) (gn_args c) of
        Inl e \<Rightarrow> Inl (EscapeRaises e) | Inr r \<Rightarrow> Inr r)"

definition model_gate :: "gov_tool \<Rightarrow> gov_call \<Rightarrow> tool_error option" where
  "model_gate t c =
     map_option (\<lambda>errs. plain_error ValidationError (gn_name c) ''Input failed Pydantic validation.'' [(''errors'', errs)])
       (gt_invalid t (gn_args c))"

definition approval_gate ::
    "(json \<Rightarrow> string) \<Rightarrow> tool_role \<Rightarrow> gov_config \<Rightarrow> run_facts \<Rightarrow> gov_tool \<Rightarrow> gov_call \<Rightarrow> escape + tool_error option" where
  "approval_gate repr role cfg rf t c =
     (case meta_texts repr ''approved_sensitive_tool_call_ids'' rf of
        Inl e \<Rightarrow> Inl e
      | Inr approved \<Rightarrow>
          let effect = effect_value (get_tool_effect t)
          in Inr (if role = Researcher \<and> gc_require_approval cfg \<and> get_tool_effect t \<noteq> ReadOnly \<and> gn_id c \<notin> set approved
            then Some (plain_error SensitiveToolApprovalRequired (gn_name c)
              (''Tool '' @ quoted (gn_name c) @ '' has effect '' @ quoted effect @
                 '' and requires explicit approval for this exact tool call.'')
              [(''effect'', JStr effect), (''tool_call_id'', JStr (gn_id c))])
            else None))"

fun first_host :: "(string \<Rightarrow> bool) \<Rightarrow> string list \<Rightarrow> string option" where
  "first_host ip6 [] = None"
| "first_host ip6 (u # us) =
     (case egress_host_from_url ip6 u of Some h \<Rightarrow> Some h | None \<Rightarrow> first_host ip6 us)"

fun browser_url :: "tool_args \<Rightarrow> string list \<Rightarrow> string option" where
  "browser_url args [] = None"
| "browser_url args (k # ks) = (case dict_get args k of Some (JStr s) \<Rightarrow> Some s | _ \<Rightarrow> browser_url args ks)"

definition origin_host :: "(string \<Rightarrow> bool) \<Rightarrow> gov_config \<Rightarrow> gov_tool \<Rightarrow> tool_args \<Rightarrow> string option" where
  "origin_host ip6 cfg t args =
     (if gt_origin t = OriginBrowser then
        (case browser_url args [''url'', ''target_url'', ''href''] of None \<Rightarrow> None | Some u \<Rightarrow> egress_host_from_url ip6 u)
      else if gt_origin t = OriginMcp then
        (case eg_mcp_url (gc_egress cfg) of
           None \<Rightarrow> None | Some u \<Rightarrow> if u = [] then None else egress_host_from_url ip6 u)
      else None)"

definition egress_host_for_tool ::
    "(string \<Rightarrow> bool) \<Rightarrow> gov_config \<Rightarrow> gov_tool \<Rightarrow> tool_args \<Rightarrow> escape + string option" where
  "egress_host_for_tool ip6 cfg t args =
     (case gt_egress_urls t of
        None \<Rightarrow> Inr (origin_host ip6 cfg t args)
      | Some f \<Rightarrow>
          (case f args of
             None \<Rightarrow> Inl EscapeUrls
           | Some us \<Rightarrow>
               (case first_host ip6 us of Some h \<Rightarrow> Inr (Some h) | None \<Rightarrow> Inr (origin_host ip6 cfg t args))))"

definition run_id_text :: "(json \<Rightarrow> string) \<Rightarrow> run_facts \<Rightarrow> string" where
  "run_id_text repr rf = py_text repr (jget_or ''run_id'' (JStr ''default'') (rf_metadata rf))"

definition host_gate ::
    "(json \<Rightarrow> string) \<Rightarrow> (string \<Rightarrow> bool) \<Rightarrow> gov_config \<Rightarrow> run_facts \<Rightarrow> gov_tool \<Rightarrow> string \<Rightarrow> escape + tool_error option" where
  "host_gate repr ip6 cfg rf t host =
     (case network_policy_mode (gc_egress cfg) of
        Inl e \<Rightarrow> Inl (EscapeEgress e)
      | Inr mode \<Rightarrow>
          if mode = ''offline''
          then Inr (Some (plain_error EgressDomainDenied (gt_name t) ''Network access is disabled for this run.''
            [(''domain'', JStr host), (''network_mode'', JStr mode)]))
          else (case allowed_domains ip6 (gc_egress cfg) of
                  Inl e \<Rightarrow> Inl (EscapeEgress e)
                | Inr domains \<Rightarrow>
                    if host \<in> set domains then Inr None
                    else Inr (Some (plain_error EgressDomainDenied (gt_name t)
                      (''Domain '' @ quoted host @ '' is not allowed by sandbox profile '' @
                         quoted (eg_profile_id (gc_egress cfg)) @ ''.'')
                      [(''domain'', JStr host), (''run_id'', JStr (run_id_text repr rf)), (''network_mode'', JStr mode),
                       (''profile_id'', JStr (eg_profile_id (gc_egress cfg))), (''denied'', JBool True)]))))"

definition check_egress_domain ::
    "(json \<Rightarrow> string) \<Rightarrow> (string \<Rightarrow> bool) \<Rightarrow> gov_config \<Rightarrow> run_facts \<Rightarrow> gov_tool \<Rightarrow> gov_call \<Rightarrow> escape + tool_error option" where
  "check_egress_domain repr ip6 cfg rf t c =
     (if \<not> eg_sandbox_enabled (gc_egress cfg) then Inr None
      else (case egress_host_for_tool ip6 cfg t (gn_args c) of
              Inl e \<Rightarrow> Inl e
            | Inr None \<Rightarrow> Inr None
            | Inr (Some host) \<Rightarrow>
                (case meta_texts repr ''sandbox_gateway_authorized_hosts'' rf of
                   Inl e \<Rightarrow> Inl e
                 | Inr hosts \<Rightarrow>
                     if host \<in> set (map lower hosts) then Inr None else host_gate repr ip6 cfg rf t host)))"

text \<open>The gates, in their order.\<close>

definition tool_gates ::
    "(json \<Rightarrow> string) \<Rightarrow> (string \<Rightarrow> bool) \<Rightarrow> tool_role \<Rightarrow> string list option \<Rightarrow> gov_config \<Rightarrow> run_facts \<Rightarrow> gov_tool \<Rightarrow>
      gov_call \<Rightarrow> escape + tool_error option" where
  "tool_gates repr ip6 role allowed cfg rf t c =
     and_then (Inr (check_permission repr (gn_name c) t role allowed cfg rf))
       (and_then (schema_gate repr cfg t c)
         (and_then (Inr (model_gate t c))
           (and_then (approval_gate repr role cfg rf t c)
             (check_egress_domain repr ip6 cfg rf t c))))"

definition serialize_tool_output :: "(json \<Rightarrow> string) \<Rightarrow> tool_output \<Rightarrow> string" where
  "serialize_tool_output dumps out =
     (case out of
        ModelOutput s \<Rightarrow> s
      | OtherOutput s \<Rightarrow> s
      | JsonOutput v \<Rightarrow> (case v of JStr s \<Rightarrow> s | JNull \<Rightarrow> [] | _ \<Rightarrow> dumps v))"

definition output_limit :: "gov_config \<Rightarrow> gov_tool \<Rightarrow> int" where
  "output_limit cfg t =
     min (case gt_max_output t of None \<Rightarrow> gc_max_output cfg | Some n \<Rightarrow> if n = 0 then gc_max_output cfg else n)
       (gc_max_output cfg)"

definition serialize_governed_output :: "(json \<Rightarrow> string) \<Rightarrow> gov_config \<Rightarrow> gov_tool \<Rightarrow> tool_output \<Rightarrow> string" where
  "serialize_governed_output dumps cfg t out =
     (let content = serialize_tool_output dumps out; cap = output_limit cfg t
      in if int (length content) \<le> cap then content
         else py_upto cap content @ [CHR 10] @ ''[truncated '' @ decimal (nat (int (length content) - cap)) @ '' chars]'')"

definition safe_exc_str :: "py_exc \<Rightarrow> string" where
  "safe_exc_str e =
     (let i = exc_info e; text = (case ei_text i of None \<Rightarrow> ei_type_name i @ '' (message unavailable)'' | Some s \<Rightarrow> s)
      in if text = [] then ei_type_name i else text)"

definition success :: "(json \<Rightarrow> string) \<Rightarrow> gov_config \<Rightarrow> gov_tool \<Rightarrow> gov_call \<Rightarrow> tool_output \<Rightarrow> governed" where
  "success dumps cfg t c out =
     \<lparr>go_message = ToolMessage (gn_id c) (Some (gn_name c)) (Text (JStr (serialize_governed_output dumps cfg t out))),
      go_result = Some out, go_error = None\<rparr>"

definition call_failed :: "gov_call \<Rightarrow> py_exc \<Rightarrow> tool_error" where
  "call_failed c e =
     plain_error (fst (classify_retryable_error e)) (gn_name c) (''Tool execution failed: '' @ safe_exc_str e)
       [(''status'', json_opt JInt (ei_status (exc_info e)))]"

definition retries_failed :: "gov_call \<Rightarrow> tool_error_type \<Rightarrow> nat \<Rightarrow> py_exc \<Rightarrow> tool_error" where
  "retries_failed c kind attempts e =
     (plain_error kind (gn_name c)
        (''Tool execution failed after '' @ decimal attempts @ '' attempt(s): '' @ safe_exc_str e)
        [(''status'', json_opt JInt (ei_status (exc_info e))),
         (''interaction_url'', json_opt JStr (ei_interaction_url (exc_info e)))])
       \<lparr>te_attempts := Some (int attempts)\<rparr>"

definition run_tool ::
    "(json \<Rightarrow> string) \<Rightarrow> gov_config \<Rightarrow> bool \<Rightarrow> retry_policy \<Rightarrow> (nat \<Rightarrow> call_outcome) \<Rightarrow> (nat \<Rightarrow> seconds) \<Rightarrow> gov_tool \<Rightarrow>
      gov_call \<Rightarrow> gov_run" where
  "run_tool dumps cfg apply_retry rp call jitter t c =
     (if apply_retry \<and> gt_retryable t then
        (let (r, delays) = invoke_tool_with_retry call jitter rp 0
         in \<lparr>gr_outcome = (case r of
               Finished out \<Rightarrow> Inr (success dumps cfg t c out)
             | Exhausted kind n e \<Rightarrow> Inr (error_result (retries_failed c kind n e) (gn_id c))
             | EndInterrupted \<Rightarrow> Inl EscapeInterrupt),
             gr_calls = length delays + 1, gr_delays = delays, gr_blocked_event = False\<rparr>)
      else
        \<lparr>gr_outcome = (case call 0 of
           Returned out \<Rightarrow> Inr (success dumps cfg t c out)
         | RaisedExc e \<Rightarrow> Inr (error_result (call_failed c e) (gn_id c))
         | Interrupted \<Rightarrow> Inl EscapeInterrupt),
         gr_calls = 1, gr_delays = [], gr_blocked_event = False\<rparr>)"

definition not_found :: "tool_role \<Rightarrow> string \<Rightarrow> tool_error" where
  "not_found role name =
     plain_error ToolNotFound name (''No tool named '' @ quoted name @ '' is registered for the '' @ tool_role_value role @ ''.'')
       [(''role'', JStr (tool_role_value role))]"

definition stopped :: "gov_config \<Rightarrow> gov_call \<Rightarrow> tool_error \<Rightarrow> gov_run" where
  "stopped cfg c e =
     \<lparr>gr_outcome = Inr (error_result e (gn_id c)), gr_calls = 0, gr_delays = [],
      gr_blocked_event = (gc_event_log cfg \<and> te_error_type e = SensitiveToolApprovalRequired)\<rparr>"

definition execute_governed_tool_call ::
    "(json \<Rightarrow> string) \<Rightarrow> (json \<Rightarrow> string) \<Rightarrow> (string \<Rightarrow> bool) \<Rightarrow> (string, gov_tool) dict \<Rightarrow> tool_role \<Rightarrow>
      string list option \<Rightarrow> gov_config \<Rightarrow> run_facts \<Rightarrow> bool \<Rightarrow> retry_policy \<Rightarrow> (nat \<Rightarrow> call_outcome) \<Rightarrow> (nat \<Rightarrow> seconds) \<Rightarrow>
      gov_call \<Rightarrow> gov_run" where
  "execute_governed_tool_call repr dumps ip6 tools role allowed cfg rf apply_retry rp call jitter c =
     (case dict_get tools (gn_name c) of
        None \<Rightarrow> stopped cfg c (not_found role (gn_name c))
      | Some t \<Rightarrow>
          (case tool_gates repr ip6 role allowed cfg rf t c of
             Inl x \<Rightarrow> \<lparr>gr_outcome = Inl x, gr_calls = 0, gr_delays = [], gr_blocked_event = False\<rparr>
           | Inr (Some e) \<Rightarrow> stopped cfg c e
           | Inr None \<Rightarrow> run_tool dumps cfg apply_retry rp call jitter t c))"

section \<open>What the gates let through\<close>

lemma and_then_None: "and_then r s = Inr None \<longleftrightarrow> r = Inr None \<and> s = Inr None"
  by (auto simp: and_then_def split: sum.splits option.splits)

definition whitelisted :: "string list option \<Rightarrow> string \<Rightarrow> bool" where
  "whitelisted allowed name \<longleftrightarrow> (case allowed of None \<Rightarrow> True | Some ns \<Rightarrow> name \<in> set ns)"

definition listed :: "(string, string list) dict \<Rightarrow> string \<Rightarrow> string \<Rightarrow> bool" where
  "listed d r x \<longleftrightarrow> (case dict_get d r of None \<Rightarrow> False | Some xs \<Rightarrow> x \<in> set xs)"

text \<open>What it takes to be permitted.\<close>

definition permitted ::
    "(json \<Rightarrow> string) \<Rightarrow> string \<Rightarrow> gov_tool \<Rightarrow> tool_role \<Rightarrow> string list option \<Rightarrow> gov_config \<Rightarrow> run_facts \<Rightarrow> bool" where
  "permitted repr name t role allowed cfg rf \<longleftrightarrow>
     whitelisted allowed name \<and>
     (rf_user rf = None \<or> (case ORIGIN_PERMISSION (gt_origin t) of None \<Rightarrow> True
        | Some p \<Rightarrow> p \<in> set (snd (get_effective_permissions repr rf)))) \<and>
     origin_value (gt_origin t) \<notin> set (if role = Supervisor then gc_supervisor_blocked cfg else gc_researcher_blocked cfg) \<and>
     \<not> mcp_unauthenticated cfg rf t \<and>
     list_all (\<lambda>r. \<not> listed (gc_role_tools cfg) r name \<and> \<not> listed (gc_role_origins cfg) r (origin_value (gt_origin t)))
       (get_user_permissions repr rf)"

lemma all_origins [simp]: "g \<in> set ORIGINS"
  by (cases g) (simp_all add: ORIGINS_def)

lemma in_blocklist:
  "g \<in> set (origin_blocklist role cfg) \<longleftrightarrow>
    origin_value g \<in> set (if role = Supervisor then gc_supervisor_blocked cfg else gc_researcher_blocked cfg)"
  by (simp add: origin_blocklist_def)

lemma lacks_permission_None:
  "lacks_permission repr rf g = None \<longleftrightarrow>
    rf_user rf = None \<or> (case ORIGIN_PERMISSION g of None \<Rightarrow> True
      | Some p \<Rightarrow> p \<in> set (snd (get_effective_permissions repr rf)))"
  by (auto simp: lacks_permission_def get_effective_permissions_def split: option.splits)

lemma check_user_roles_None:
  "check_user_roles cfg name g rs = None \<longleftrightarrow>
    list_all (\<lambda>r. \<not> listed (gc_role_tools cfg) r name \<and> \<not> listed (gc_role_origins cfg) r (origin_value g)) rs"
  by (induction rs) (auto simp: listed_def split: option.splits)

lemma check_permission_None:
  "check_permission repr name t role allowed cfg rf = None \<longleftrightarrow> permitted repr name t role allowed cfg rf"
proof (cases "lacks_permission repr rf (gt_origin t)")
  case None
  then show ?thesis
    by (simp add: check_permission_def permitted_def Let_def in_blocklist check_user_roles_None whitelisted_def
      lacks_permission_None[symmetric] split: option.splits)
next
  case (Some p)
  then have "lacks_permission repr rf (gt_origin t) \<noteq> None" by simp
  with Some show ?thesis
    unfolding lacks_permission_None by (auto simp: check_permission_def permitted_def Let_def)
qed

definition approval_cleared ::
    "(json \<Rightarrow> string) \<Rightarrow> tool_role \<Rightarrow> gov_config \<Rightarrow> run_facts \<Rightarrow> gov_tool \<Rightarrow> gov_call \<Rightarrow> bool" where
  "approval_cleared repr role cfg rf t c \<longleftrightarrow>
     (\<exists>ids. meta_texts repr ''approved_sensitive_tool_call_ids'' rf = Inr ids \<and>
       (role = Supervisor \<or> \<not> gc_require_approval cfg \<or> get_tool_effect t = ReadOnly \<or> gn_id c \<in> set ids))"

lemma approval_gate_None: "approval_gate repr role cfg rf t c = Inr None \<longleftrightarrow> approval_cleared repr role cfg rf t c"
  by (cases role) (auto simp: approval_gate_def approval_cleared_def Let_def split: sum.splits)

definition host_cleared :: "(json \<Rightarrow> string) \<Rightarrow> (string \<Rightarrow> bool) \<Rightarrow> gov_config \<Rightarrow> run_facts \<Rightarrow> string \<Rightarrow> bool" where
  "host_cleared repr ip6 cfg rf host \<longleftrightarrow>
     (\<exists>hosts. meta_texts repr ''sandbox_gateway_authorized_hosts'' rf = Inr hosts \<and>
       (host \<in> set (map lower hosts) \<or>
        (\<exists>mode domains. network_policy_mode (gc_egress cfg) = Inr mode \<and> mode \<noteq> ''offline'' \<and>
           allowed_domains ip6 (gc_egress cfg) = Inr domains \<and> host \<in> set domains)))"

definition egress_cleared ::
    "(json \<Rightarrow> string) \<Rightarrow> (string \<Rightarrow> bool) \<Rightarrow> gov_config \<Rightarrow> run_facts \<Rightarrow> gov_tool \<Rightarrow> gov_call \<Rightarrow> bool" where
  "egress_cleared repr ip6 cfg rf t c \<longleftrightarrow>
     \<not> eg_sandbox_enabled (gc_egress cfg) \<or>
     (\<exists>h. egress_host_for_tool ip6 cfg t (gn_args c) = Inr h \<and>
       (case h of None \<Rightarrow> True | Some host \<Rightarrow> host_cleared repr ip6 cfg rf host))"

lemma host_gate_None:
  "host_gate repr ip6 cfg rf t host = Inr None \<longleftrightarrow>
    (\<exists>mode domains. network_policy_mode (gc_egress cfg) = Inr mode \<and> mode \<noteq> ''offline'' \<and>
       allowed_domains ip6 (gc_egress cfg) = Inr domains \<and> host \<in> set domains)"
  by (auto simp: host_gate_def split: sum.splits)

lemma check_egress_None: "check_egress_domain repr ip6 cfg rf t c = Inr None \<longleftrightarrow> egress_cleared repr ip6 cfg rf t c"
proof (cases "egress_host_for_tool ip6 cfg t (gn_args c)")
  case (Inr h)
  then show ?thesis
    by (cases h; cases "meta_texts repr ''sandbox_gateway_authorized_hosts'' rf")
      (auto simp: check_egress_domain_def egress_cleared_def host_cleared_def host_gate_None)
qed (simp add: check_egress_domain_def egress_cleared_def)

lemma tool_gates_None:
  "tool_gates repr ip6 role allowed cfg rf t c = Inr None \<longleftrightarrow>
    permitted repr (gn_name c) t role allowed cfg rf \<and> schema_gate repr cfg t c = Inr None \<and>
    gt_invalid t (gn_args c) = None \<and> approval_cleared repr role cfg rf t c \<and> egress_cleared repr ip6 cfg rf t c"
  by (simp add: tool_gates_def and_then_None check_permission_None approval_gate_None check_egress_None model_gate_def)

lemma run_tool_calls [simp]: "gr_calls (run_tool dumps cfg apply_retry rp call jitter t c) \<noteq> 0"
  by (simp add: run_tool_def split: prod.splits)

lemma stopped_calls [simp]: "gr_calls (stopped cfg c e) = 0"
  by (simp add: stopped_def)

lemma execute_calls:
  "0 < gr_calls (execute_governed_tool_call repr dumps ip6 tools role allowed cfg rf apply_retry rp call jitter c) \<longleftrightarrow>
    (\<exists>t. dict_get tools (gn_name c) = Some t \<and> tool_gates repr ip6 role allowed cfg rf t c = Inr None)"
proof (cases "dict_get tools (gn_name c)")
  case (Some t)
  then show ?thesis
    by (cases "tool_gates repr ip6 role allowed cfg rf t c")
      (auto simp: execute_governed_tool_call_def run_tool_calls[THEN neq0_conv[THEN iffD1]] split: option.splits)
qed (simp add: execute_governed_tool_call_def)

lemma execute_idle:
  "gr_calls (execute_governed_tool_call repr dumps ip6 tools role allowed cfg rf apply_retry rp call jitter c) = 0 \<Longrightarrow>
    gr_delays (execute_governed_tool_call repr dumps ip6 tools role allowed cfg rf apply_retry rp call jitter c) = []"
  by (auto simp: execute_governed_tool_call_def stopped_def split: option.splits sum.splits)

section \<open>Retries\<close>

definition retryable_at :: "(nat \<Rightarrow> call_outcome) \<Rightarrow> nat \<Rightarrow> bool" where
  "retryable_at call i \<longleftrightarrow> (case call i of RaisedExc e \<Rightarrow> snd (classify_retryable_error e) | _ \<Rightarrow> False)"

lemma retry_delays:
  assumes "invoke_tool_with_retry call jitter rp attempt = (r, delays)"
  shows "length delays \<le> nat (rp_max_retries rp - int attempt) \<and>
    delays = map (backoff rp jitter) [attempt..<attempt + length delays] \<and>
    list_all (retryable_at call) [attempt..<attempt + length delays]"
  using assms
proof (induction call jitter rp attempt arbitrary: r delays rule: invoke_tool_with_retry.induct)
  case (1 call jitter rp attempt)
  note eq = invoke_tool_with_retry.simps[of call jitter rp attempt]
  show ?case
  proof (cases "retryable_at call attempt \<and> int attempt < rp_max_retries rp")
    case True
    then obtain e where e: "call attempt = RaisedExc e" "snd (classify_retryable_error e)"
      by (auto simp: retryable_at_def split: call_outcome.splits)
    obtain r' ds where rec: "invoke_tool_with_retry call jitter rp (Suc attempt) = (r', ds)" by fastforce
    from e True rec "1.prems" eq have d: "delays = backoff rp jitter attempt # ds"
      by (simp add: split_beta Let_def)
    from True have go: "\<not> (\<not> snd (classify_retryable_error e) \<or> rp_max_retries rp \<le> int attempt)"
      using e(2) by simp
    from "1.IH"[OF e(1) refl prod.collapse go rec]
    have ih: "length ds \<le> nat (rp_max_retries rp - int (Suc attempt))"
      "ds = map (backoff rp jitter) [Suc attempt..<Suc attempt + length ds]"
      "list_all (retryable_at call) [Suc attempt..<Suc attempt + length ds]" by auto
    have up: "[attempt..<attempt + length delays] = attempt # [Suc attempt..<Suc attempt + length ds]"
      using d by (simp add: upt_conv_Cons del: upt_Suc)
    have "map (backoff rp jitter) [attempt..<attempt + length delays] = backoff rp jitter attempt # ds"
      unfolding up using ih(2) by simp
    moreover from True have "nat (rp_max_retries rp - int attempt) = Suc (nat (rp_max_retries rp - int (Suc attempt)))"
      by (auto simp: nat_eq_iff)
    with d ih(1) have "length delays \<le> nat (rp_max_retries rp - int attempt)" by simp
    ultimately show ?thesis using d ih(3) True unfolding up by (simp del: upt_Suc)
  next
    case False
    then have "delays = []"
      using "1.prems" eq by (auto simp: retryable_at_def split_beta Let_def split: call_outcome.splits if_splits)
    then show ?thesis by simp
  qed
qed

section \<open>Properties\<close>


lemma run_tool_bounded:
  assumes "gr = run_tool dumps cfg apply_retry rp call jitter t c"
  shows "gr_calls gr \<le> Suc (if apply_retry \<and> gt_retryable t then nat (rp_max_retries rp) else 0) \<and>
    Suc (length (gr_delays gr)) = gr_calls gr \<and>
    gr_delays gr = map (backoff rp jitter) [0..<length (gr_delays gr)] \<and>
    list_all (retryable_at call) [0..<length (gr_delays gr)]"
proof (cases "apply_retry \<and> gt_retryable t")
  case True
  obtain r ds where inv: "invoke_tool_with_retry call jitter rp 0 = (r, ds)" by fastforce
  with retry_delays[OF inv] True assms show ?thesis by (simp add: run_tool_def)
next
  case False
  with assms have "gr_calls gr = 1" "gr_delays gr = []" by (auto simp: run_tool_def split: prod.splits)
  then show ?thesis by simp
qed

lemma backoff_bounds:
  assumes "0 \<le> rp_base_delay rp" "0 \<le> rp_max_delay rp" "0 \<le> jitter k \<and> jitter k \<le> rp_base_delay rp"
  shows "0 \<le> backoff rp jitter k \<and> backoff rp jitter k \<le> rp_max_delay rp + rp_base_delay rp"
proof -
  have "0 \<le> min (rp_max_delay rp) (rp_base_delay rp * 2 ^ k)" using assms by simp
  moreover have "min (rp_max_delay rp) (rp_base_delay rp * 2 ^ k) \<le> rp_max_delay rp" by simp
  ultimately show ?thesis using assms(3) by (simp add: backoff_def add_mono)
qed

text \<open>C24. Retries are bounded: one governed call makes at most one physical call more than \<open>max_retries\<close>,
  and only one when retries are off or the tool is not retryable; every call but the last raised an
  error classified as retryable, and every pause lies between zero and the longest delay plus the
  jitter.\<close>

theorem governed_retries_bounded:
  assumes "0 \<le> rp_base_delay rp" "0 \<le> rp_max_delay rp" "\<And>k. 0 \<le> jitter k \<and> jitter k \<le> rp_base_delay rp"
    and "gr = execute_governed_tool_call repr dumps ip6 tools role allowed cfg rf apply_retry rp call jitter c"
  shows "gr_calls gr \<le> Suc (nat (rp_max_retries rp)) \<and>
    (\<not> apply_retry \<or> list_all (\<lambda>(n, t). \<not> gt_retryable t) tools \<longrightarrow> gr_calls gr \<le> 1) \<and>
    list_all (retryable_at call) [0..<gr_calls gr - 1] \<and>
    list_all (\<lambda>d. 0 \<le> d \<and> d \<le> rp_max_delay rp + rp_base_delay rp) (gr_delays gr)"
proof (cases "gr_calls gr = 0")
  case True
  then have "gr_delays gr = []" using assms(4) execute_idle by metis
  with True show ?thesis by simp
next
  case False
  with assms(4) execute_calls obtain t where t: "dict_get tools (gn_name c) = Some t"
    "tool_gates repr ip6 role allowed cfg rf t c = Inr None" by (metis gr0I)
  with assms(4) have "gr = run_tool dumps cfg apply_retry rp call jitter t c"
    by (simp add: execute_governed_tool_call_def)
  note b = run_tool_bounded[OF this]
  from b have ds: "gr_delays gr = map (backoff rp jitter) [0..<length (gr_delays gr)]" by blast
  have "list_all (\<lambda>d. 0 \<le> d \<and> d \<le> rp_max_delay rp + rp_base_delay rp) (map (backoff rp jitter) ks)" for ks
    using backoff_bounds[OF assms(1,2,3)] by (simp add: list_all_iff)
  from this[of "[0..<length (gr_delays gr)]"]
  have "list_all (\<lambda>d. 0 \<le> d \<and> d \<le> rp_max_delay rp + rp_base_delay rp) (gr_delays gr)" by (subst ds)
  moreover have "\<not> apply_retry \<or> list_all (\<lambda>(n, t). \<not> gt_retryable t) tools \<Longrightarrow> \<not> (apply_retry \<and> gt_retryable t)"
    using dict_get_in[OF t(1)] by (auto simp: list_all_iff)
  moreover have "length (gr_delays gr) = gr_calls gr - 1" using b[THEN conjunct2, THEN conjunct1] by linarith
  ultimately show ?thesis using b[THEN conjunct1] b[THEN conjunct2, THEN conjunct2, THEN conjunct2] by (auto split: if_splits)
qed


text \<open>A search tool and a configuration without restrictions.\<close>

definition demo_tool :: gov_tool where
  "demo_tool = \<lparr>gt_name = ''search'', gt_origin = OriginSearch, gt_effect = Some ReadOnly, gt_retryable = True,
     gt_max_output = None, gt_schema = Some (JObj search_schema), gt_invalid = (\<lambda>a. None), gt_egress_urls = None,
     gt_auth_satisfied = False\<rparr>"

definition demo_egress :: egress_config where
  "demo_egress = \<lparr>eg_sandbox_enabled = False, eg_bundle = Inl BadPort, eg_profile_id = [], eg_models = [],
     eg_search_api = ''tavily'', eg_mcp_url = None, eg_browser_url = None\<rparr>"

definition open_config :: gov_config where
  "open_config = \<lparr>gc_supervisor_whitelist = None, gc_researcher_whitelist = None, gc_supervisor_blocked = [],
     gc_researcher_blocked = [], gc_constraints = [], gc_role_tools = [], gc_role_origins = [],
     gc_mcp_auth_required = True, gc_require_approval = True, gc_event_log = True, gc_max_output = 256,
     gc_egress = demo_egress\<rparr>"

definition anonymous :: run_facts where
  "anonymous = \<lparr>rf_user = None, rf_user_permissions = JNull, rf_mcp_tokens = JNull, rf_metadata = []\<rparr>"

definition search_call :: gov_call where
  "search_call = \<lparr>gn_name = ''search'', gn_id = ''call_1'', gn_args = [(''queries'', JList [JStr ''cats''])]\<rparr>"

definition demo_policy :: retry_policy where
  "demo_policy = \<lparr>rp_max_retries = 3, rp_base_delay = 1, rp_max_delay = 30\<rparr>"

text \<open>The first invocation times out, the second answers.\<close>

fun flaky :: "nat \<Rightarrow> call_outcome" where
  "flaky i = (if i = 0 then RaisedExc (Exc \<lparr>ei_kind = TimeoutExc, ei_type_name = ''TimeoutError'', ei_text = Some [],
     ei_status = None, ei_interaction_url = None\<rparr> None []) else Returned (JsonOutput (JStr ''found'')))"

definition demo_run :: gov_run where
  "demo_run = execute_governed_tool_call (\<lambda>v. []) (\<lambda>v. []) (\<lambda>s. False) [(''search'', demo_tool)] Researcher None
     open_config anonymous True demo_policy flaky (\<lambda>k. 1 / 2) search_call"

theorem governed_retries_bounded_witness:
  "gr_calls demo_run = 2 \<and> gr_calls demo_run \<le> Suc (nat (rp_max_retries demo_policy)) \<and> gr_delays demo_run = [3 / 2]"
proof -
  have "gr_calls demo_run = 2" "gr_delays demo_run = [3 / 2]" by code_simp+
  moreover have "0 \<le> rp_base_delay demo_policy" "0 \<le> rp_max_delay demo_policy"
    "\<And>k. 0 \<le> (\<lambda>k. 1 / 2 :: seconds) k \<and> (\<lambda>k. 1 / 2) k \<le> rp_base_delay demo_policy"
    by (simp_all add: demo_policy_def)
  from governed_retries_bounded[OF this demo_run_def]
  have "gr_calls demo_run \<le> Suc (nat (rp_max_retries demo_policy))" by blast
  ultimately show ?thesis by simp
qed


text \<open>What is bound is what may run, with one exception: a tool is offered to the model exactly when it was
  assembled and is permitted under the resolved whitelist, or when nothing but the authentication of
  MCP tools could be enforced, where an MCP tool that needs a token it was not loaded with is bound
  although every call of it will be refused.\<close>

lemma bound_tools_are_permitted:
  "t \<in> set (filter_tools_by_permission repr tools role cfg rf) \<longleftrightarrow>
    t \<in> set tools \<and>
    (permitted repr (gt_name t) t role (resolve_allowed_tools role cfg (map gt_name tools)) cfg rf \<or>
     nothing_to_enforce repr (resolve_allowed_tools role cfg (map gt_name tools)) role cfg rf \<and>
       mcp_unauthenticated cfg rf t)"
proof -
  let ?allowed = "resolve_allowed_tools role cfg (map gt_name tools)"
  have "permitted repr (gt_name t) t role ?allowed cfg rf"
    if "nothing_to_enforce repr ?allowed role cfg rf" "\<not> mcp_unauthenticated cfg rf t"
  proof -
    from that(1) have "?allowed = None" "rf_user rf = None" "gc_role_tools cfg = []" "gc_role_origins cfg = []"
      "gt_origin t \<notin> set (origin_blocklist role cfg)"
      by (auto simp: nothing_to_enforce_def user_role_blocklists_active_def get_effective_permissions_def
        split: option.splits)
    with that(2) show ?thesis
      by (simp add: permitted_def whitelisted_def listed_def in_blocklist list_all_iff)
  qed
  then show ?thesis by (auto simp: filter_tools_by_permission_def Let_def check_permission_None)
qed

text \<open>The egress gate of the pipeline looks at one URL only: with a tool that fetches two addresses, the first
  of an allowed host and the second of a host the profile denies, the gate lets the call through, and
  the gateway's decision on the same URLs refuses it.\<close>

definition two_urls :: gov_tool where
  "two_urls = demo_tool\<lparr>gt_egress_urls := Some (\<lambda>a. Some [''https://good.org/a'', ''https://evil.org/b''])\<rparr>"

definition good_network :: network_policy where
  "good_network = default_network\<lparr>np_mode := Allowlist, np_allow_domains := [''good.org''], np_deny_domains := [''evil.org'']\<rparr>"

definition good_profile :: sandbox_profile where
  "good_profile = plain_profile\<lparr>pf_network := good_network\<rparr>"

definition sandboxed_config :: gov_config where
  "sandboxed_config = open_config\<lparr>gc_egress := demo_egress\<lparr>eg_sandbox_enabled := True,
     eg_bundle := Inr \<lparr>pb_role_priority = [''viewer''], pb_profile_by_role = [], pb_default_profile = ''p'',
       pb_profiles = [(''p'', good_profile)]\<rparr>\<rparr>\<rparr>"

text \<open>The egress gate misses later URLs: a call whose tool declares a URL of an allowed host and then one of
  a host on the deny list passes the gate of the pipeline and runs, while the gateway's own decision
  on the same list of URLs denies it.\<close>

lemma later_url_unchecked:
  "0 < gr_calls (execute_governed_tool_call (\<lambda>v. []) (\<lambda>v. []) (\<lambda>s. False) [(''search'', two_urls)] Researcher None
      sandboxed_config anonymous True demo_policy flaky (\<lambda>k. 0) search_call) \<and>
    gateway_targets (\<lambda>s. False) good_profile (\<lambda>t. False) [''https://good.org/a'', ''https://evil.org/b''] =
      Inl (TargetDenied ''evil.org'' 443)"
  by code_simp

text \<open>The list of hosts is compared exactly: a wildcard of the profile, which the gateway honours, allows
  nothing here, and the deny list is not read.\<close>

definition wildcard_config :: gov_config where
  "wildcard_config = sandboxed_config\<lparr>gc_egress := (gc_egress sandboxed_config)\<lparr>
     eg_bundle := Inr \<lparr>pb_role_priority = [''viewer''], pb_profile_by_role = [], pb_default_profile = ''p'',
       pb_profiles = [(''p'', good_profile\<lparr>pf_network := good_network
         \<lparr>np_allow_domains := [''*.good.org'', ''evil.org'']\<rparr>\<rparr>)]\<rparr>\<rparr>\<rparr>"

lemma tool_allowlist_is_exact:
  "network_target_decision (good_network\<lparr>np_allow_domains := [''*.good.org'', ''evil.org'']\<rparr>) ''a.good.org'' 443 =
      PolicyAllow \<and>
    host_gate (\<lambda>v. []) (\<lambda>s. False) wildcard_config anonymous demo_tool ''a.good.org'' \<noteq> Inr None \<and>
    network_target_decision (good_network\<lparr>np_allow_domains := [''*.good.org'', ''evil.org'']\<rparr>) ''evil.org'' 443 =
      PolicyDeny \<and>
    host_gate (\<lambda>v. []) (\<lambda>s. False) wildcard_config anonymous demo_tool ''evil.org'' = Inr None"
  by code_simp

text \<open>A message that merely contains the letters of \<open>rate\<close> makes an error retryable.\<close>

lemma generate_is_rate_limited:
  "classify_retryable_error (Exc \<lparr>ei_kind = ToolExc, ei_type_name = ''ToolException'',
      ei_text = Some ''cannot generate: bad input'', ei_status = None, ei_interaction_url = None\<rparr> None []) =
    (ToolRateLimited, True)"
  by code_simp

end
