(* ===== verification/Query_Steps.thy ===== *)
theory Query_Steps
  imports QueryState ToolProtocol ModelFallback Governance
begin

text \<open>
  The query loop (\<open>query\<close> of \<open>agents/query.py\<close>), first part: messages with their metadata, the parameters,
  the events, the shape of a step and the hooks before a turn. A step gives a trace, the states it saves and the
  events it yields in their order, and how it ends; \<open>move\<close> is the pattern of the code: advance the state,
  save it, yield, go on. A crash is the end of a trace after any element.
\<close>

section \<open>Messages, parameters, events\<close>

text \<open>A message with its \<open>additional_kwargs\<close> (but for the raw tool calls, which are in the body) and
  \<open>response_metadata\<close>.\<close>

record query_message =
  qm_body :: chat_message
  qm_kwargs :: "(string, json) dict"
  qm_meta :: "(string, json) dict"

type_synonym loop_state = "query_message query_state"

definition bodies :: "query_message list \<Rightarrow> chat_message list" where
  "bodies ms = map qm_body ms"

definition calls_of :: "chat_message \<Rightarrow> tool_call list" where
  "calls_of m = (case m of AIMessage calls raw v \<Rightarrow> calls | _ \<Rightarrow> [])"

definition content_of :: "chat_message \<Rightarrow> json" where
  "content_of m =
     (case m of AIMessage calls raw v \<Rightarrow> v | OtherMessage t v \<Rightarrow> v
      | ToolMessage i n c \<Rightarrow> (case c of Text v \<Rightarrow> v | ErrorPayload e \<Rightarrow> JNull))"

definition set_content :: "json \<Rightarrow> chat_message \<Rightarrow> chat_message" where
  "set_content v m =
     (case m of AIMessage calls raw w \<Rightarrow> AIMessage calls raw v | OtherMessage t w \<Rightarrow> OtherMessage t v
      | ToolMessage i n c \<Rightarrow> ToolMessage i n (Text v))"

definition is_ai_body :: "chat_message \<Rightarrow> bool" where
  "is_ai_body m = (case m of AIMessage calls raw v \<Rightarrow> True | _ \<Rightarrow> False)"

definition as_model_message :: "query_message \<Rightarrow> model_message" where
  "as_model_message m = \<lparr>is_ai = is_ai_body (qm_body m), mm_content = content_of (qm_body m),
     additional_kwargs = qm_kwargs m, response_metadata = qm_meta m\<rparr>"

definition sanitize_query_message :: "query_message \<Rightarrow> query_message" where
  "sanitize_query_message m =
     (let s = sanitize_message (as_model_message m)
      in m\<lparr>qm_kwargs := additional_kwargs s, qm_meta := response_metadata s\<rparr>)"

definition is_output_recovery_message :: "(json \<Rightarrow> string) \<Rightarrow> query_message \<Rightarrow> bool" where
  "is_output_recovery_message repr m \<longleftrightarrow>
     py_text repr (jget_or ''query_internal'' (JStr []) (qm_kwargs m)) \<in> {''output_fragment'', ''output_continuation''}"

definition consolidate_output_response ::
    "(json \<Rightarrow> string) \<Rightarrow> query_message list \<Rightarrow> query_message \<Rightarrow> output_recovery \<Rightarrow> query_message list \<times> query_message" where
  "consolidate_output_response repr ms response rec =
     (filter (\<lambda>m. \<not> is_output_recovery_message repr m) ms,
      if pending_fragments rec = [] then response
      else response\<lparr>qm_body := set_content
        (JStr (concat (pending_fragments rec @ [message_text repr (as_model_message response)]))) (qm_body response)\<rparr>)"

text \<open>A tool as the loop sees it.\<close>

record loop_tool =
  lt_effect :: tool_effect
  lt_idempotent :: bool
  lt_concurrency_safe :: bool

text \<open>The parameters; \<open>qp_candidates\<close> are the models with their configured output limit, zero when there
  is none.\<close>

record query_params =
  qp_role :: QueryState.agent_role
  qp_state_key :: string
  qp_run_id :: string
  qp_max_turns :: "int option"
  qp_candidates :: "(string \<times> int) list"
  qp_default_max_tokens :: int
  qp_custom_call :: bool
  qp_model_attempts :: int
  qp_context_attempts :: int
  qp_continuations :: int
  qp_escalation :: bool
  qp_output_overrides :: "(string, int) dict"
  qp_breaker :: bool
  qp_max_batch :: "int option"
  qp_limits :: "rat option list"
  qp_durable_hook :: bool
  qp_acknowledged :: "string list"
  qp_tools :: "(string, loop_tool) dict"

text \<open>The events, with what identifies them.\<close>

datatype query_out =
  Started loop_state bool
| StateChanged loop_state
| DomainEvent "query_message pending_query_event"
| Transition string int "query_message list" "query_message list option" "(string, json) dict"
| Completed terminal_reason "string option" int "query_message list"
| HookCompleted string int "query_message list" "(string, json) dict"
| Request int nat
| ModelRetry int nat
| ModelRecovery int string int
| FallbackTo int string string string
| ModelEvent int query_message "diagnostic list"
| ReplayConfirmation int "string list"
| ToolCalls int "tool_call list" bool

datatype trace_item = Saved loop_state | Yielded query_out

datatype query_error =
  BadLimit | ScopeMismatch | NoCandidate | RouteOutOfRange
| IllegalAdvance advance_error | BadTranscript transcript_error | HookRaised | CompilerRaised
| CheckpointRaised | ModelCallCancelled | NoPendingBatch | BadBatch json_error | BatchCancelledError | BatchRaised

datatype step_end = Next loop_state bool | Finished | Raised query_error

type_synonym step = "trace_item list \<times> step_end"

section \<open>One transition\<close>

text \<open>Advance, save, yield, and go on; and go on after yielding.\<close>

definition move ::
    "loop_state \<Rightarrow> query_message query_action \<Rightarrow> (loop_state \<Rightarrow> query_out list) \<Rightarrow> (loop_state \<Rightarrow> step) \<Rightarrow> step" where
  "move s a outs k =
     (case advance s a of
        Inl e \<Rightarrow> ([], Raised (IllegalAdvance e))
      | Inr s' \<Rightarrow> (Saved s' # map Yielded (outs s') @ fst (k s'), snd (k s')))"

definition yielding :: "query_out list \<Rightarrow> step \<Rightarrow> step" where
  "yielding outs st = (map Yielded outs @ fst st, snd st)"

definition failing :: "query_error \<Rightarrow> step" where
  "failing e = ([], Raised e)"

definition going :: "bool \<Rightarrow> loop_state \<Rightarrow> step" where
  "going resumed s = ([], Next s resumed)"

definition checked :: "(json \<Rightarrow> string) \<Rightarrow> bool \<Rightarrow> query_message list \<Rightarrow> step \<Rightarrow> step" where
  "checked repr pending ms st =
     (case validate_tool_transcript repr pending (bodies ms) of
        Inl e \<Rightarrow> failing (BadTranscript e) | Inr _ \<Rightarrow> st)"

definition act :: "query_phase \<Rightarrow> string \<Rightarrow> (loop_state \<Rightarrow> loop_state) \<Rightarrow> query_message query_action" where
  "act p reason changes = \<lparr>act_phase = p, act_reason = reason, act_changes = changes\<rparr>"

definition calm :: "quality_recovery \<Rightarrow> quality_recovery" where
  "calm q = (if qr_active q then q\<lparr>qr_active := False\<rparr> else q)"

text \<open>\<open>_terminal_state\<close>: an event and a quality state given among the changes are kept.\<close>

definition terminal_action ::
    "terminal_reason \<Rightarrow> string option \<Rightarrow> query_message list \<Rightarrow> quality_recovery option \<Rightarrow>
      query_message pending_query_event option \<Rightarrow> query_message query_action" where
  "terminal_action reason detail ms quality event =
     act TERMINAL (terminal_value reason)
       (\<lambda>s. s\<lparr>quality_rec := (case quality of Some q \<Rightarrow> q | None \<Rightarrow> calm (quality_rec s)),
              query_event := (case event of Some e \<Rightarrow> Some e | None \<Rightarrow> query_event s),
              qs_messages := (if ms = [] then qs_messages s else ms),
              tool_batch := None, terminal := Some \<lparr>qt_reason = reason, qt_detail = detail\<rparr>\<rparr>)"

definition stop_with :: "terminal_reason \<Rightarrow> string option \<Rightarrow> bool \<Rightarrow> loop_state \<Rightarrow> step" where
  "stop_with reason detail resumed s =
     move s (terminal_action reason detail [] None None) (\<lambda>s'. [StateChanged s']) (going resumed)"

definition pending_event_id :: "loop_state \<Rightarrow> string \<Rightarrow> string" where
  "pending_event_id s etype = state_key s @ '':'' @ int_text (revision s + 1) @ '':'' @ etype"

section \<open>Preparing a turn\<close>

record before_result =
  br_messages :: "query_message list"
  br_replace :: "query_message list option"
  br_updates :: "(string, json) dict"
  br_stop :: bool
  br_reason :: string

datatype before_outcome = BeforeNone | BeforeRaises | BeforeGives before_result

definition before_messages :: "before_result \<Rightarrow> query_message list \<Rightarrow> query_message list" where
  "before_messages r ms = (case br_replace r of Some new \<Rightarrow> new | None \<Rightarrow> ms @ br_messages r)"

definition hook_action :: "before_result \<Rightarrow> query_message query_action" where
  "hook_action r = act PREPARING (br_reason r) (\<lambda>s. s\<lparr>qs_messages := before_messages r (qs_messages s)\<rparr>)"

text \<open>The hooks in their order; \<open>go\<close> runs when none stops, \<open>stop\<close> when one does.\<close>

fun before_loop ::
    "before_outcome list \<Rightarrow> (loop_state \<Rightarrow> step) \<Rightarrow> (before_result \<Rightarrow> loop_state \<Rightarrow> step) \<Rightarrow> loop_state \<Rightarrow> step" where
  "before_loop [] go stop s = go s"
| "before_loop (BeforeNone # hs) go stop s = before_loop hs go stop s"
| "before_loop (BeforeRaises # hs) go stop s = failing HookRaised"
| "before_loop (BeforeGives r # hs) go stop s =
     move s (hook_action r)
       (\<lambda>s'. [StateChanged s', Transition (br_reason r) (qs_turn s') (br_messages r) (br_replace r) (br_updates r)])
       (if br_stop r then stop r else before_loop hs go stop)"

definition stop_before :: "(json \<Rightarrow> string) \<Rightarrow> before_result \<Rightarrow> loop_state \<Rightarrow> step" where
  "stop_before repr r s =
     checked repr False (qs_messages s)
       (move s (terminal_action (if br_reason r = ''cancelled'' then terminal_reason.CANCELLED else HOOK_STOPPED)
            (Some (br_reason r)) (qs_messages s) None None)
          (\<lambda>s'. [StateChanged s', HookCompleted (br_reason r) (qs_turn s') (qs_messages s) (br_updates r)])
          (\<lambda>s'. ([], Finished)))"

definition begin_turn :: "int option \<Rightarrow> bool \<Rightarrow> loop_state \<Rightarrow> step" where
  "begin_turn delta resumed s =
     move s (act CALLING_MODEL ''next_turn''
         (\<lambda>s. s\<lparr>qs_turn := qs_turn s + (case delta of None \<Rightarrow> 1 | Some n \<Rightarrow> max 0 n), stop_hook_active := False\<rparr>))
       (\<lambda>s'. [StateChanged s']) (going resumed)"

definition out_of_turns :: "query_params \<Rightarrow> loop_state \<Rightarrow> bool" where
  "out_of_turns P s \<longleftrightarrow> (case qp_max_turns P of None \<Rightarrow> False | Some n \<Rightarrow> n \<le> qs_turn s)"

definition prepare_step ::
    "(json \<Rightarrow> string) \<Rightarrow> query_params \<Rightarrow> before_outcome list \<Rightarrow> int option \<Rightarrow> bool \<Rightarrow> loop_state \<Rightarrow> step" where
  "prepare_step repr P hooks delta resumed s =
     (if out_of_turns P s
      then checked repr False (qs_messages s)
             (move s (terminal_action terminal_reason.MAX_TURNS None (qs_messages s) None None)
               (\<lambda>s'. [StateChanged s']) (going resumed))
      else before_loop hooks (begin_turn delta resumed) (stop_before repr) s)"

end
