(* ===== verification/Query_Model.thy ===== *)
theory Query_Model
  imports Query_Steps
begin

text \<open>
  The query loop, second part: one request to the model with its retries, the recovery of a context that is too
  long, the fall back to the next candidate, escalation and continuation of a truncated answer, what an accepted
  answer becomes, and the hooks that decide whether the run stops.
\<close>

section \<open>Calling the model\<close>

datatype model_outcome = Answer query_message | CallCancelled | CallDeadline | CallBudget | CallTimeout | CallFails

text \<open>The attempts of one request: only a timeout is repeated.\<close>

fun transport :: "(nat \<Rightarrow> model_outcome) \<Rightarrow> int \<Rightarrow> nat \<Rightarrow> nat \<Rightarrow> query_out list \<times> model_outcome" where
  "transport call turn n 0 = ([], call n)"
| "transport call turn n (Suc left) =
     (case call n of
        CallTimeout \<Rightarrow> (let (es, r) = transport call turn (Suc n) left in (ModelRetry turn n # es, r))
      | r \<Rightarrow> ([], r))"

text \<open>What the outside does while the model is called: whether the compiled request fits (nothing when the
  compiler raises), whether the cancellation checkpoint passes, the attempts, the class of the final
  error, the compacted messages, and the registry's choice of a candidate from a start index (nothing when
  the registry raises).\<close>

record model_input =
  mi_fits :: "bool option"
  mi_request_size :: nat
  mi_checkpoint :: bool
  mi_call :: "nat \<Rightarrow> model_outcome"
  mi_error_kind :: model_error_kind
  mi_compacted :: "query_message list"
  mi_next_index :: "int \<Rightarrow> nat option"

fun kind_value :: "model_error_kind \<Rightarrow> string" where
  "kind_value model_error_kind.PROMPT_TOO_LONG = ''prompt_too_long''"
| "kind_value OUTPUT_TRUNCATED = ''output_truncated''"
| "kind_value TRANSIENT = ''transient''"
| "kind_value RATE_LIMITED = ''rate_limited''"
| "kind_value MODEL_UNAVAILABLE = ''model_unavailable''"
| "kind_value AUTH = ''auth''"
| "kind_value INVALID_REQUEST = ''invalid_request''"
| "kind_value INVALID_MEDIA = ''invalid_media''"
| "kind_value model_error_kind.CANCELLED = ''cancelled''"
| "kind_value UNKNOWN = ''unknown''"

definition no_output_recovery :: output_recovery where
  "no_output_recovery = \<lparr>continuation_count = 0, escalation_attempted = False,
     max_output_tokens_override = None, pending_fragments = []\<rparr>"

definition no_context_recovery :: context_recovery where
  "no_context_recovery = \<lparr>cr_attempts = 0, reactive_compact_attempted = False, compaction_generation = 0,
     target_ratio = 1\<rparr>"

definition context_limit :: "query_params \<Rightarrow> int" where
  "context_limit P = max 1 (qp_context_attempts P)"

definition reactive_now :: "context_recovery \<Rightarrow> bool" where
  "reactive_now c \<longleftrightarrow> 2 \<le> cr_attempts c + 1 \<and> \<not> reactive_compact_attempted c"

definition shrink :: "context_recovery \<Rightarrow> context_recovery" where
  "shrink c = \<lparr>cr_attempts = cr_attempts c + 1,
     reactive_compact_attempted = (reactive_compact_attempted c \<or> reactive_now c),
     compaction_generation = compaction_generation c + (if reactive_now c then 1 else 0),
     target_ratio = max (5 / 100) (target_ratio c * (8 / 10))\<rparr>"

definition reproject :: "query_params \<Rightarrow> model_input \<Rightarrow> bool \<Rightarrow> loop_state \<Rightarrow> step" where
  "reproject P mi resumed s =
     (let reactive = reactive_now (context_rec s);
          reason = (if reactive then ''reactive_compact_retry'' else ''context_reproject_retry'')
      in move s (act CALLING_MODEL reason
             (\<lambda>s. s\<lparr>qs_messages := (if reactive then mi_compacted mi else qs_messages s),
                    context_rec := shrink (context_rec s)\<rparr>))
           (\<lambda>s'. [StateChanged s', ModelRecovery (qs_turn s') reason (cr_attempts (context_rec s) + 1)])
           (going resumed))"

definition can_fall_back :: "query_params \<Rightarrow> model_error_kind \<Rightarrow> loop_state \<Rightarrow> bool" where
  "can_fall_back P kind s \<longleftrightarrow>
     kind \<in> {MODEL_UNAVAILABLE, RATE_LIMITED, TRANSIENT} \<and> \<not> qp_custom_call P \<and>
     active_candidate_index s + 1 < int (length (qp_candidates P))"

definition next_candidate :: "query_params \<Rightarrow> model_input \<Rightarrow> loop_state \<Rightarrow> int" where
  "next_candidate P mi s =
     (case (qp_breaker P, mi_next_index mi (active_candidate_index s + 1)) of
        (True, Some i) \<Rightarrow> int i | _ \<Rightarrow> active_candidate_index s + 1)"

definition route_known :: "query_params \<Rightarrow> int \<Rightarrow> bool" where
  "route_known P i \<longleftrightarrow> - int (length (qp_candidates P)) \<le> i \<and> i < int (length (qp_candidates P))"

text \<open>\<open>candidates[i]\<close>: a negative index counts from the end.\<close>

definition candidate_at :: "query_params \<Rightarrow> int \<Rightarrow> string \<times> int" where
  "candidate_at P i = qp_candidates P ! nat (if i < 0 then i + int (length (qp_candidates P)) else i)"

definition candidate_id :: "query_params \<Rightarrow> int \<Rightarrow> string" where
  "candidate_id P i = fst (candidate_at P i)"

definition fall_back :: "query_params \<Rightarrow> model_input \<Rightarrow> bool \<Rightarrow> loop_state \<Rightarrow> step" where
  "fall_back P mi resumed s =
     (let i = next_candidate P mi s
      in move s (act CALLING_MODEL ''model_fallback''
             (\<lambda>s. s\<lparr>qs_messages := map sanitize_query_message (qs_messages s), active_candidate_index := i,
                    output_rec := no_output_recovery\<rparr>))
           (\<lambda>s'. StateChanged s' #
              (if route_known P i
               then [FallbackTo (qs_turn s') (candidate_id P (active_candidate_index s)) (candidate_id P i)
                 (kind_value (mi_error_kind mi))] else []))
           (if route_known P i then going resumed else (\<lambda>s'. failing RouteOutOfRange)))"

definition model_failed :: "query_params \<Rightarrow> model_input \<Rightarrow> bool \<Rightarrow> bool \<Rightarrow> loop_state \<Rightarrow> step" where
  "model_failed P mi timed_out resumed s =
     (let kind = mi_error_kind mi
      in if kind = model_error_kind.PROMPT_TOO_LONG \<and> cr_attempts (context_rec s) < context_limit P
         then reproject P mi resumed s
         else if can_fall_back P kind s then fall_back P mi resumed s
         else stop_with (if kind = model_error_kind.PROMPT_TOO_LONG then terminal_reason.PROMPT_TOO_LONG
                else if timed_out then MODEL_TIMEOUT else MODEL_ERROR) (Some (kind_value kind)) resumed s)"

definition requested_output :: "query_params \<Rightarrow> loop_state \<Rightarrow> int" where
  "requested_output P s =
     (let cap = snd (candidate_at P (active_candidate_index s))
      in case max_output_tokens_override (output_rec s) of
           Some n \<Rightarrow> if n \<noteq> 0 then n else if cap \<noteq> 0 then cap else qp_default_max_tokens P
         | None \<Rightarrow> if cap \<noteq> 0 then cap else qp_default_max_tokens P)"

definition may_escalate :: "query_params \<Rightarrow> loop_state \<Rightarrow> bool" where
  "may_escalate P s \<longleftrightarrow>
     (let requested = requested_output P s;
          most = resolve_model_max_output_tokens (candidate_id P (active_candidate_index s)) (max 1 requested) (qp_output_overrides P)
      in qp_escalation P \<and> 0 < requested \<and> requested < most \<and> \<not> escalation_attempted (output_rec s))"

definition escalate_output :: "query_params \<Rightarrow> bool \<Rightarrow> loop_state \<Rightarrow> step" where
  "escalate_output P resumed s =
     (let requested = requested_output P s;
          most = resolve_model_max_output_tokens (candidate_id P (active_candidate_index s)) (max 1 requested) (qp_output_overrides P)
      in move s (act CALLING_MODEL ''output_token_escalate''
             (\<lambda>s. s\<lparr>output_rec := (output_rec s)\<lparr>escalation_attempted := True,
                      max_output_tokens_override := Some (min most (max (requested * 2) (requested + 4096)))\<rparr>\<rparr>))
           (\<lambda>s'. [StateChanged s']) (going resumed))"

definition fragment_of :: "query_message \<Rightarrow> query_message" where
  "fragment_of m = m\<lparr>qm_kwargs := dict_set ''query_internal'' (JStr ''output_fragment'') (qm_kwargs m)\<rparr>"

definition resume_request :: query_message where
  "resume_request = \<lparr>qm_body = OtherMessage ''human'' (mm_content continuation_message),
     qm_kwargs = additional_kwargs continuation_message, qm_meta = []\<rparr>"

definition continue_answer :: "(json \<Rightarrow> string) \<Rightarrow> query_message \<Rightarrow> bool \<Rightarrow> loop_state \<Rightarrow> step" where
  "continue_answer repr m resumed s =
     move s (act CALLING_MODEL ''output_continuation''
         (\<lambda>s. s\<lparr>qs_messages := qs_messages s @ [fragment_of m, resume_request],
                output_rec := (output_rec s)\<lparr>continuation_count := continuation_count (output_rec s) + 1,
                  pending_fragments := pending_fragments (output_rec s) @ [message_text repr (as_model_message m)]\<rparr>\<rparr>))
       (\<lambda>s'. [StateChanged s']) (going resumed)"

definition truncated_answer :: "(json \<Rightarrow> string) \<Rightarrow> query_params \<Rightarrow> query_message \<Rightarrow> bool \<Rightarrow> loop_state \<Rightarrow> step" where
  "truncated_answer repr P m resumed s =
     (if may_escalate P s then escalate_output P resumed s
      else if continuation_count (output_rec s) < max 0 (qp_continuations P) then continue_answer repr m resumed s
      else stop_with OUTPUT_RECOVERY_EXHAUSTED None resumed s)"

definition call_ctx :: "query_params \<Rightarrow> loop_state \<Rightarrow> call_context" where
  "call_ctx P s = \<lparr>ctx_run_id = qp_run_id P, ctx_role = QueryState.role_value (qp_role P), ctx_turn = qs_turn s\<rparr>"

definition new_batch :: "loop_state \<Rightarrow> tool_call list \<Rightarrow> query_message pending_tool_batch" where
  "new_batch s calls = \<lparr>batch_id = state_key s @ '':'' @ int_text (qs_turn s) @ '':'' @ int_text (revision s + 1),
     tool_calls = calls, committed_tool_call_ids = [], committed_results = [], result_refs = []\<rparr>"

definition accept_answer ::
    "(json \<Rightarrow> string) \<Rightarrow> (json \<Rightarrow> string) \<Rightarrow> query_params \<Rightarrow> query_message \<Rightarrow> bool \<Rightarrow> loop_state \<Rightarrow> step" where
  "accept_answer repr digest P m resumed s =
     (let (canonical, response) = consolidate_output_response repr (qs_messages s) m (output_rec s);
          (body, diags) = canonicalize_ai_tool_calls repr digest (call_ctx P s) (qm_body response);
          final = response\<lparr>qm_body := body\<rparr>;
          fresh = (\<lambda>s. s\<lparr>qs_messages := canonical @ [final], output_rec := no_output_recovery,
                         context_rec := no_context_recovery\<rparr>)
      in move s
           (if calls_of body \<noteq> []
            then act EXECUTING_TOOLS ''next_turn'' (\<lambda>s. (fresh s)\<lparr>tool_batch := Some (new_batch s (calls_of body))\<rparr>)
            else act STOP_GOVERNANCE ''model_response'' fresh)
           (\<lambda>s'. [StateChanged s', ModelEvent (qs_turn s') final diags]) (going resumed))"

definition answered ::
    "(json \<Rightarrow> string) \<Rightarrow> (json \<Rightarrow> string) \<Rightarrow> query_params \<Rightarrow> query_message \<Rightarrow> bool \<Rightarrow> loop_state \<Rightarrow> step" where
  "answered repr digest P m resumed s =
     (if response_was_truncated repr (as_model_message m) \<and> calls_of (qm_body m) = []
      then truncated_answer repr P m resumed s else accept_answer repr digest P m resumed s)"

definition after_call ::
    "(json \<Rightarrow> string) \<Rightarrow> (json \<Rightarrow> string) \<Rightarrow> query_params \<Rightarrow> model_input \<Rightarrow> bool \<Rightarrow> loop_state \<Rightarrow> model_outcome \<Rightarrow> step" where
  "after_call repr digest P mi resumed s r =
     (case r of
        CallCancelled \<Rightarrow>
          move s (terminal_action terminal_reason.CANCELLED (Some ''model_call_cancelled'') (qs_messages s) None None)
            (\<lambda>s'. []) (\<lambda>s'. failing ModelCallCancelled)
      | CallDeadline \<Rightarrow> stop_with DEADLINE_EXCEEDED None resumed s
      | CallBudget \<Rightarrow> stop_with BUDGET_EXHAUSTED None resumed s
      | CallTimeout \<Rightarrow> model_failed P mi True resumed s
      | CallFails \<Rightarrow> model_failed P mi False resumed s
      | Answer m \<Rightarrow> answered repr digest P m resumed s)"

definition model_step ::
    "(json \<Rightarrow> string) \<Rightarrow> (json \<Rightarrow> string) \<Rightarrow> query_params \<Rightarrow> model_input \<Rightarrow> bool \<Rightarrow> loop_state \<Rightarrow> step" where
  "model_step repr digest P mi resumed s =
     (if \<not> route_known P (active_candidate_index s) then failing RouteOutOfRange
      else checked repr True (qs_messages s)
        (case mi_fits mi of
           None \<Rightarrow> failing CompilerRaised
         | Some fits \<Rightarrow>
             yielding [Request (qs_turn s) (mi_request_size mi)]
               (if \<not> fits
                then stop_with terminal_reason.PROMPT_TOO_LONG (Some ''protected_context_exceeds_model_envelope'') resumed s
                else if \<not> mi_checkpoint mi then failing CheckpointRaised
                else (let (retries, r) = transport (mi_call mi) (qs_turn s) 1 (nat (max 1 (qp_model_attempts P) - 1))
                      in yielding retries (after_call repr digest P mi resumed s r)))))"

section \<open>Stopping\<close>

datatype stop_action = StopComplete | StopContinue | StopHalt

record stop_result =
  sr_messages :: "query_message list"
  sr_updates :: "(string, json) dict"
  sr_action :: stop_action
  sr_reason :: string

datatype stop_outcome = StopNone | StopRaises | StopGives stop_result

record stop_verdict =
  sv_messages :: "query_message list"
  sv_updates :: "(string, json) dict"
  sv_action :: stop_action
  sv_reason :: string

text \<open>The hooks add up until one does not complete; the last reason and action count.\<close>

fun stop_loop :: "stop_outcome list \<Rightarrow> stop_verdict \<Rightarrow> stop_verdict option" where
  "stop_loop [] v = Some v"
| "stop_loop (StopNone # hs) v = stop_loop hs v"
| "stop_loop (StopRaises # hs) v = None"
| "stop_loop (StopGives r # hs) v =
     (let v' = \<lparr>sv_messages = sv_messages v @ sr_messages r, sv_updates = dict_merge (sv_updates v) (sr_updates r),
                sv_action = sr_action r, sv_reason = sr_reason r\<rparr>
      in if sr_action r \<noteq> StopComplete then Some v' else stop_loop hs v')"

definition loop_event ::
    "loop_state \<Rightarrow> string \<Rightarrow> string \<Rightarrow> query_message list \<Rightarrow> query_message list \<Rightarrow> (string, json) dict \<Rightarrow> bool option \<Rightarrow>
      (string, json) dict list \<Rightarrow> query_message pending_query_event" where
  "loop_event s etype reason ms extra updates cont diags =
     \<lparr>pe_event_id = pending_event_id s etype, pe_event_type = etype, pe_transition_reason = reason,
      pe_turn = qs_turn s, pe_messages = ms, pe_additional_messages = extra, pe_updates = updates,
      pe_should_continue = cont, pe_protocol_diagnostics = diags\<rparr>"

definition stop_step :: "(json \<Rightarrow> string) \<Rightarrow> stop_outcome list \<Rightarrow> bool \<Rightarrow> loop_state \<Rightarrow> step" where
  "stop_step repr hooks resumed s =
     (case stop_loop hooks \<lparr>sv_messages = [], sv_updates = [], sv_action = StopComplete, sv_reason = ''completed''\<rparr> of
        None \<Rightarrow> failing HookRaised
      | Some v \<Rightarrow>
          let ms = qs_messages s @ sv_messages v
          in if sv_action v = StopContinue
             then move s (act PREPARING ''stop_hook_blocking''
                    (\<lambda>s. s\<lparr>qs_messages := ms, stop_hook_active := True,
                      query_event := Some (loop_event s ''query.transition'' (sv_reason v) (sv_messages v) []
                        (sv_updates v) None [])\<rparr>))
                    (\<lambda>s'. [StateChanged s']) (going resumed)
             else checked repr False ms
                    (move s (terminal_action (if sv_action v = StopHalt then HOOK_STOPPED else COMPLETED)
                        (if sv_action v = StopHalt then Some (sv_reason v) else None) ms None
                        (Some (loop_event s ''query.completed'' (sv_reason v) ms [] (sv_updates v) None [])))
                      (\<lambda>s'. [StateChanged s']) (going resumed)))"

end
