(* ===== verification/Query_Tools.thy ===== *)
theory Query_Tools
  imports Query_Model
begin

text \<open>
  The query loop, third part: a batch of tools from its announcement to the closed transcript, with every
  result committed as it comes, the refusal to replay what is not safe to repeat, and the default executor.
\<close>

section \<open>Executing tools\<close>

text \<open>What a batch did: the results committed, in their order, each saved as it comes; the outcomes and
  diagnostics of the executor; and how the batch or its hook ended. A result without messages leaves
  those of the outcomes.\<close>

record tool_result =
  tr_messages :: "query_message list option"
  tr_additional :: "query_message list"
  tr_updates :: "(string, json) dict"
  tr_continue :: bool
  tr_reason :: "string option"
  tr_quality :: "quality_recovery option"

datatype batch_end = BatchReturned "tool_result option" | BatchCancelled | BatchFailed string

record batch_input =
  bi_commits :: "(tool_call \<times> governed) list"
  bi_outcomes :: "governed list"
  bi_diagnostics :: "diagnostic list"
  bi_end :: batch_end

definition plain_message :: "chat_message \<Rightarrow> query_message" where
  "plain_message m = \<lparr>qm_body = m, qm_kwargs = [], qm_meta = []\<rparr>"

definition call_key :: "(json \<Rightarrow> string) \<Rightarrow> tool_call \<Rightarrow> string" where
  "call_key repr call = call_id_of repr call"

text \<open>The reference of an artifact among the output of a committed result.\<close>

definition committed_result_ref :: "(json \<Rightarrow> string) \<Rightarrow> string \<Rightarrow> governed \<Rightarrow> string option" where
  "committed_result_ref repr cid g =
     (case go_result g of
        Some (JsonOutput (JObj d)) \<Rightarrow>
          (case jget ''artifact_ref'' d of
             JObj a \<Rightarrow>
               let path = strip (py_text repr (jor (jget ''path'' a) (JStr [])));
                   digest = strip (py_text repr (jor (jget ''sha256'' a) (JStr [])))
               in if path = [] \<and> digest = [] then None
                  else Some (cid @ '':'' @ (if path = [] then ''artifact'' else path) @
                    (if digest = [] then [] else ''#sha256='' @ digest))
           | _ \<Rightarrow> None)
      | _ \<Rightarrow> None)"

definition commit_to :: "(json \<Rightarrow> string) \<Rightarrow> tool_call \<Rightarrow> governed \<Rightarrow> query_message pending_tool_batch \<Rightarrow> query_message pending_tool_batch" where
  "commit_to repr call g b =
     b\<lparr>committed_tool_call_ids := committed_tool_call_ids b @ [call_key repr call],
       committed_results := committed_results b @ [plain_message (go_message g)],
       result_refs := result_refs b @ (case committed_result_ref repr (call_key repr call) g of None \<Rightarrow> [] | Some r \<Rightarrow> [r])\<rparr>"

definition commit_action :: "query_message pending_tool_batch \<Rightarrow> query_message query_action" where
  "commit_action b = act EXECUTING_TOOLS ''tool_result_committed'' (\<lambda>s. s\<lparr>tool_batch := Some b\<rparr>)"

text \<open>The commits: each is a transition that is saved at once; \<open>k\<close> gets the batch, the states to announce
  and the state after them.\<close>

fun commit_loop ::
    "(json \<Rightarrow> string) \<Rightarrow> (tool_call \<times> governed) list \<Rightarrow> query_message pending_tool_batch \<Rightarrow> loop_state list \<Rightarrow>
      (query_message pending_tool_batch \<Rightarrow> loop_state list \<Rightarrow> loop_state \<Rightarrow> step) \<Rightarrow> loop_state \<Rightarrow> step" where
  "commit_loop repr [] b done k s = k b done s"
| "commit_loop repr ((call, g) # cs) b done k s =
     (if call_key repr call \<in> set (committed_tool_call_ids b) then commit_loop repr cs b done k s
      else (let b' = commit_to repr call g b
            in move s (commit_action b') (\<lambda>s'. []) (\<lambda>s'. commit_loop repr cs b' (done @ [s']) k s')))"

definition unsafe_calls :: "(json \<Rightarrow> string) \<Rightarrow> query_params \<Rightarrow> query_message pending_tool_batch \<Rightarrow> string list" where
  "unsafe_calls repr P b =
     map (call_key repr)
       (filter (\<lambda>call. call_key repr call \<notin> set (committed_tool_call_ids b) \<and>
          (case dict_get (qp_tools P) (py_text repr (jget_or ''name'' (JStr []) call)) of
             None \<Rightarrow> False | Some t \<Rightarrow> lt_effect t \<noteq> ReadOnly \<and> \<not> lt_idempotent t))
        (tool_calls b))"

fun commas :: "string list \<Rightarrow> string" where
  "commas [] = []"
| "commas [s] = s"
| "commas (s # ss) = s @ '','' @ commas ss"

definition refuse_replay :: "string list \<Rightarrow> bool \<Rightarrow> loop_state \<Rightarrow> step" where
  "refuse_replay unsafe resumed s =
     move s (terminal_action HOOK_STOPPED (Some (''unsafe_tool_replay_requires_approval:'' @ commas unsafe)) [] None None)
       (\<lambda>s'. [StateChanged s', ReplayConfirmation (qs_turn s') unsafe]) (going resumed)"

definition missing_type :: "query_params \<Rightarrow> batch_input \<Rightarrow> nat \<Rightarrow> tool_error_type" where
  "missing_type P bi calls =
     (case bi_end bi of
        BatchCancelled \<Rightarrow> ToolCancelled
      | BatchFailed t \<Rightarrow> RuntimeHookError
      | BatchReturned r \<Rightarrow>
          if qp_max_batch P \<noteq> None \<and> length (bi_outcomes bi) < calls then TaskCapacityExceeded
          else RuntimeMissingResult)"

fun missing_text :: "tool_error_type \<Rightarrow> string" where
  "missing_text ToolCancelled = ''The tool call was cancelled before it completed.''"
| "missing_text RuntimeHookError = ''The tool batch hook failed before returning a result.''"
| "missing_text TaskCapacityExceeded = ''The tool call exceeded the configured batch capacity.''"
| "missing_text e = ''The runtime did not produce a result for this tool call.''"

definition batch_diagnostics :: "batch_input \<Rightarrow> diagnostic list" where
  "batch_diagnostics bi =
     bi_diagnostics bi @
     (case bi_end bi of
        BatchCancelled \<Rightarrow> [\<lparr>code = ''tool_batch_cancelled'', diag_call_id = None, diag_detail = []\<rparr>]
      | BatchFailed t \<Rightarrow> [\<lparr>code = ''tool_batch_hook_error'', diag_call_id = None, diag_detail = [(''error_type'', JStr t)]\<rparr>]
      | BatchReturned r \<Rightarrow> [])"

definition batch_failed :: "batch_input \<Rightarrow> bool" where
  "batch_failed bi = (case bi_end bi of BatchFailed t \<Rightarrow> True | _ \<Rightarrow> False)"

definition batch_result :: "batch_input \<Rightarrow> tool_result option" where
  "batch_result bi = (case bi_end bi of BatchReturned r \<Rightarrow> r | _ \<Rightarrow> None)"

definition result_candidates :: "batch_input \<Rightarrow> query_message list" where
  "result_candidates bi =
     (case batch_result bi of
        Some r \<Rightarrow> (case tr_messages r of Some ms \<Rightarrow> ms | None \<Rightarrow> map (plain_message \<circ> go_message) (bi_outcomes bi))
      | None \<Rightarrow> map (plain_message \<circ> go_message) (bi_outcomes bi))"

definition result_extra :: "batch_input \<Rightarrow> query_message list" where
  "result_extra bi = (case batch_result bi of Some r \<Rightarrow> tr_additional r | None \<Rightarrow> [])"

text \<open>The message of a closed batch keeps the metadata of the one candidate it was copied from.\<close>

definition restore_meta :: "query_message list \<Rightarrow> chat_message \<Rightarrow> query_message" where
  "restore_meta cands m =
     (case filter (\<lambda>c. is_tool (qm_body c) \<and> tool_id (qm_body c) = tool_id m) cands of
        [c] \<Rightarrow> c\<lparr>qm_body := m\<rparr> | _ \<Rightarrow> plain_message m)"

definition diagnostic_json :: "diagnostic \<Rightarrow> (string, json) dict" where
  "diagnostic_json d =
     [(''code'', JStr (code d)), (''tool_call_id'', json_opt JStr (diag_call_id d)), (''detail'', JObj (diag_detail d))]"

definition batch_quality :: "batch_input \<Rightarrow> loop_state \<Rightarrow> quality_recovery" where
  "batch_quality bi s =
     (let q = (case batch_result bi of Some r \<Rightarrow> (case tr_quality r of Some q \<Rightarrow> q | None \<Rightarrow> quality_rec s) | None \<Rightarrow> quality_rec s)
      in if qr_active q \<and> triggering_assessment_revision q = None
         then q\<lparr>triggering_assessment_revision := Some (revision s)\<rparr> else q)"

definition end_batch ::
    "(json \<Rightarrow> string) \<Rightarrow> batch_input \<Rightarrow> closed_batch \<Rightarrow> query_message list \<Rightarrow> query_message list \<Rightarrow> loop_state \<Rightarrow> step" where
  "end_batch repr bi done_batch results extra s =
     (let cancelled = (bi_end bi = BatchCancelled);
          failed = (\<not> batch_is_valid done_batch \<and> \<not> cancelled);
          continue = ((case batch_result bi of Some r \<Rightarrow> tr_continue r | None \<Rightarrow> True) \<and> \<not> failed \<and> \<not> cancelled);
          updates = (case batch_result bi of Some r \<Rightarrow> tr_updates r | None \<Rightarrow> []);
          ms = qs_messages s @ results @ extra;
          event = loop_event s ''query.tool_result'' ''tool_results'' results extra updates (Some continue)
            (map diagnostic_json (cb_diagnostics done_batch));
          announce = (\<lambda>s'. if cancelled then [] else [StateChanged s']);
          after = (\<lambda>s'. if cancelled then failing BatchCancelledError else going False s')
      in checked repr False ms
           (if continue
            then move s (act PREPARING ''next_turn''
                   (\<lambda>s. s\<lparr>qs_messages := ms, tool_batch := None, query_event := Some event,
                          quality_rec := batch_quality bi s\<rparr>)) announce after
            else move s (terminal_action
                   (if cancelled then terminal_reason.CANCELLED else if failed then TOOL_PROTOCOL_VIOLATION else COMPLETED)
                   (case batch_result bi of Some r \<Rightarrow> tr_reason r | None \<Rightarrow> None) ms (Some (batch_quality bi s))
                   (Some event)) announce after))"

definition close_batch :: "(json \<Rightarrow> string) \<Rightarrow> query_params \<Rightarrow> batch_input \<Rightarrow> tool_call list \<Rightarrow> loop_state \<Rightarrow> step" where
  "close_batch repr P bi calls s =
     (case close_tool_batch repr (missing_type P bi (length calls)) (missing_text (missing_type P bi (length calls)))
        (batch_diagnostics bi) calls (bodies (result_candidates bi)) (bodies (result_extra bi)) of
        Inl e \<Rightarrow> failing (BadBatch e)
      | Inr done_batch \<Rightarrow>
          end_batch repr bi done_batch (map (restore_meta (result_candidates bi)) (cb_messages done_batch))
            (filter (\<lambda>m. \<not> is_tool (qm_body m)) (result_extra bi)) s)"

definition after_batch ::
    "(json \<Rightarrow> string) \<Rightarrow> query_params \<Rightarrow> batch_input \<Rightarrow> tool_call list \<Rightarrow> query_message pending_tool_batch \<Rightarrow> loop_state list \<Rightarrow>
      loop_state \<Rightarrow> step" where
  "after_batch repr P bi calls b done s =
     (if batch_failed bi \<and> qp_durable_hook P \<and> committed_tool_call_ids b \<noteq> [] then failing BatchRaised
      else yielding (map StateChanged done) (close_batch repr P bi calls s))"

definition tool_step ::
    "(json \<Rightarrow> string) \<Rightarrow> query_params \<Rightarrow> (query_message pending_tool_batch \<Rightarrow> batch_input) \<Rightarrow> bool \<Rightarrow> loop_state \<Rightarrow> step" where
  "tool_step repr P batch resumed s =
     (case tool_batch s of
        None \<Rightarrow> failing NoPendingBatch
      | Some b \<Rightarrow>
          if resumed \<and> unsafe_calls repr P b \<noteq> [] then refuse_replay (unsafe_calls repr P b) resumed s
          else yielding [ToolCalls (qs_turn s) (tool_calls b) resumed]
                 (commit_loop repr (bi_commits (batch b)) b [] (after_batch repr P (batch b) (tool_calls b)) s))"

section \<open>The default executor\<close>

text \<open>One call: refused by the budget, governed, timed out, or failed unexpectedly.\<close>

datatype call_run = BudgetRefused | Ran governed | RunTimedOut rat | RunCrashed string

definition call_name :: "(json \<Rightarrow> string) \<Rightarrow> tool_call \<Rightarrow> string" where
  "call_name repr call = py_text repr (jget_or ''name'' (JStr ''unknown_tool'') call)"

definition execute_one :: "(json \<Rightarrow> string) \<Rightarrow> tool_call \<Rightarrow> call_run \<Rightarrow> governed" where
  "execute_one repr call r =
     (let name = call_name repr call; cid = call_key repr call
      in case r of
           Ran g \<Rightarrow> g
         | BudgetRefused \<Rightarrow>
             error_result (plain_error ToolBudgetExhausted name
               ''The tool call was skipped because the run budget or deadline was exhausted.'' []) cid
         | RunTimedOut t \<Rightarrow>
             error_result ((plain_error ToolTimeout name ''The tool call exceeded its execution timeout.''
               [(''timeout_seconds'', JFloat t)])\<lparr>te_retryable := True\<rparr>) cid
         | RunCrashed t \<Rightarrow>
             error_result (plain_error InternalError name ''The tool call failed unexpectedly.''
               [(''error_type'', JStr t)]) cid)"

text \<open>A committed result read back: \<open>loads\<close> parses its text, \<open>as_error\<close> validates an error record.\<close>

definition rehydrate :: "(string \<Rightarrow> json option) \<Rightarrow> (json \<Rightarrow> tool_error option) \<Rightarrow> chat_message \<Rightarrow> governed" where
  "rehydrate loads as_error m =
     (case tool_content m of
        ErrorPayload e \<Rightarrow> \<lparr>go_message = m, go_result = None, go_error = Some e\<rparr>
      | Text v \<Rightarrow>
          let out = (case v of JStr s \<Rightarrow> (case loads s of Some w \<Rightarrow> w | None \<Rightarrow> v) | _ \<Rightarrow> v);
              err = (case out of JObj d \<Rightarrow> if jtruthy (jget ''error_type'' d) then as_error out else None | _ \<Rightarrow> None)
          in \<lparr>go_message = m, go_result = (if err = None then Some (JsonOutput out) else None), go_error = err\<rparr>)"

definition committed_results_of ::
    "(string \<Rightarrow> json option) \<Rightarrow> (json \<Rightarrow> tool_error option) \<Rightarrow> query_message pending_tool_batch \<Rightarrow> (string, governed) dict" where
  "committed_results_of loads as_error b =
     fold (\<lambda>m. dict_set (tool_id m) (rehydrate loads as_error m))
       (filter is_tool (bodies (committed_results b))) []"

text \<open>Consecutive safe calls run together, every other call alone.\<close>

fun schedule :: "(tool_call \<Rightarrow> bool) \<Rightarrow> tool_call list \<Rightarrow> tool_call list \<Rightarrow> tool_call list list" where
  "schedule safe [] grp = (if grp = [] then [] else [grp])"
| "schedule safe (c # cs) grp =
     (if safe c then schedule safe cs (grp @ [c])
      else (if grp = [] then [] else [grp]) @ [[c]] @ schedule safe cs [])"

definition runnable_calls :: "query_params \<Rightarrow> tool_call list \<Rightarrow> tool_call list" where
  "runnable_calls P calls = (case qp_max_batch P of None \<Rightarrow> calls | Some n \<Rightarrow> if n = 0 then calls else py_upto n calls)"

definition safe_call :: "(json \<Rightarrow> string) \<Rightarrow> query_params \<Rightarrow> tool_call \<Rightarrow> bool" where
  "safe_call repr P call =
     (case dict_get (qp_tools P) (py_text repr (jget_or ''name'' (JStr []) call)) of
        None \<Rightarrow> False | Some t \<Rightarrow> lt_concurrency_safe t)"

definition capacity_diagnostic :: "(json \<Rightarrow> string) \<Rightarrow> tool_call \<Rightarrow> diagnostic" where
  "capacity_diagnostic repr call =
     \<lparr>code = ''tool_batch_capacity_exceeded'', diag_call_id = Some (call_key repr call), diag_detail = []\<rparr>"

text \<open>\<open>order\<close> is the order in which the calls of a group complete, \<open>runs\<close> what becomes of each call, \<open>cut\<close>
  after how many results the batch is cancelled, \<open>hook\<close> how the hook over the results ends.\<close>

record execution =
  ex_order :: "tool_call list \<Rightarrow> tool_call list"
  ex_runs :: "tool_call \<Rightarrow> call_run"
  ex_cut :: "nat option"
  ex_hook :: batch_end

definition executed_calls ::
    "(json \<Rightarrow> string) \<Rightarrow> query_params \<Rightarrow> execution \<Rightarrow> (string, governed) dict \<Rightarrow> tool_call list \<Rightarrow> tool_call list" where
  "executed_calls repr P ex committed calls =
     concat (map (ex_order ex) (schedule (safe_call repr P)
       (filter (\<lambda>c. dict_get committed (call_key repr c) = None) (runnable_calls P calls)) []))"

definition default_batch ::
    "(json \<Rightarrow> string) \<Rightarrow> (string \<Rightarrow> json option) \<Rightarrow> (json \<Rightarrow> tool_error option) \<Rightarrow> query_params \<Rightarrow> execution \<Rightarrow>
      query_message pending_tool_batch \<Rightarrow> batch_input" where
  "default_batch repr loads as_error P ex b =
     (let committed = committed_results_of loads as_error b;
          commits = map (\<lambda>c. (c, execute_one repr c (ex_runs ex c))) (executed_calls repr P ex committed (tool_calls b))
      in case ex_cut ex of
           Some n \<Rightarrow> \<lparr>bi_commits = take n commits, bi_outcomes = [], bi_diagnostics = [], bi_end = BatchCancelled\<rparr>
         | None \<Rightarrow>
             (let by_id = fold (\<lambda>(c, g). dict_set (call_key repr c) g) commits committed;
                  runnable = runnable_calls P (tool_calls b)
              in \<lparr>bi_commits = commits,
                  bi_outcomes = concat (map (\<lambda>c. case dict_get by_id (call_key repr c) of None \<Rightarrow> [] | Some g \<Rightarrow> [g]) runnable),
                  bi_diagnostics = map (capacity_diagnostic repr) (drop (length runnable) (tool_calls b)),
                  bi_end = ex_hook ex\<rparr>))"

end
