(* ===== verification/Query_Loop.thy ===== *)
theory Query_Loop
  imports Query_Tools
begin

text \<open>
  The query loop itself over the state of \<open>QueryState\<close>. One iteration is \<open>query_step\<close>: it reads the phase
  and what the outside does in that iteration (the hooks, the compiler of the context, the model, the tools:
  \<open>step_input\<close>). The inner loop over the phase that calls the model and the fall through from preparing are
  iterations of their own: no event is pending there. \<open>query_run\<close> is the whole loop.
\<close>

section \<open>The loop\<close>

record step_input =
  si_before :: "before_outcome list"
  si_delta :: "int option"
  si_model :: model_input
  si_stop :: "stop_outcome list"
  si_batch :: "query_message pending_tool_batch \<Rightarrow> batch_input"

definition deliver :: "query_params \<Rightarrow> bool \<Rightarrow> query_message pending_query_event \<Rightarrow> loop_state \<Rightarrow> step" where
  "deliver P resumed e s =
     yielding (if pe_event_id e \<in> set (qp_acknowledged P) then [] else [DomainEvent e])
       (move s (act (qs_phase s) ''domain_event_delivered'' (\<lambda>s. s\<lparr>query_event := None\<rparr>))
         (\<lambda>s'. if pe_event_type e = ''query.completed'' then [] else [StateChanged s'])
         (if pe_event_type e = ''query.completed'' then (\<lambda>s'. ([], Finished)) else going resumed))"

definition completed :: "loop_state \<Rightarrow> step" where
  "completed s =
     (case terminal s of
        None \<Rightarrow> failing (IllegalAdvance TerminalRequiresOutcome)
      | Some t \<Rightarrow> ([Yielded (Completed (qt_reason t) (qt_detail t) (qs_turn s) (qs_messages s))], Finished))"

definition query_step ::
    "(json \<Rightarrow> string) \<Rightarrow> (json \<Rightarrow> string) \<Rightarrow> query_params \<Rightarrow> step_input \<Rightarrow> bool \<Rightarrow> loop_state \<Rightarrow> step" where
  "query_step repr digest P i resumed s =
     (case query_event s of
        Some e \<Rightarrow> deliver P resumed e s
      | None \<Rightarrow>
          (case qs_phase s of
             TERMINAL \<Rightarrow> completed s
           | PREPARING \<Rightarrow> prepare_step repr P (si_before i) (si_delta i) resumed s
           | CALLING_MODEL \<Rightarrow> model_step repr digest P (si_model i) resumed s
           | STOP_GOVERNANCE \<Rightarrow> stop_step repr (si_stop i) resumed s
           | EXECUTING_TOOLS \<Rightarrow> tool_step repr P (si_batch i) resumed s))"

text \<open>The loop over the inputs of its iterations; it is still running when they are used up.\<close>

fun query_loop ::
    "(json \<Rightarrow> string) \<Rightarrow> (json \<Rightarrow> string) \<Rightarrow> query_params \<Rightarrow> step_input list \<Rightarrow> bool \<Rightarrow> loop_state \<Rightarrow> step" where
  "query_loop repr digest P [] resumed s = going resumed s"
| "query_loop repr digest P (i # is) resumed s =
     (case query_step repr digest P i resumed s of
        (tr, Next s' r) \<Rightarrow> (let (tr', e) = query_loop repr digest P is r s' in (tr @ tr', e))
      | (tr, e) \<Rightarrow> (tr, e))"

text \<open>The start: limits, scope and route are checked, the circuit registry may choose another candidate, and
  the state is saved before the first event. \<open>initial\<close> is the state to resume.\<close>

definition fresh_state :: "query_params \<Rightarrow> query_message list \<Rightarrow> int \<Rightarrow> loop_state" where
  "fresh_state P ms turn = (new_query_state (qp_state_key P) (qp_role P) ms)\<lparr>qs_turn := turn\<rparr>"

definition routed :: "query_params \<Rightarrow> nat option \<Rightarrow> loop_state \<Rightarrow> loop_state" where
  "routed P choice s =
     (case (qp_breaker P, choice) of (True, Some i) \<Rightarrow> s\<lparr>active_candidate_index := int i\<rparr> | _ \<Rightarrow> s)"

definition query_run ::
    "(json \<Rightarrow> string) \<Rightarrow> (json \<Rightarrow> string) \<Rightarrow> query_params \<Rightarrow> loop_state option \<Rightarrow> query_message list \<Rightarrow> int \<Rightarrow> nat option \<Rightarrow>
      step_input list \<Rightarrow> step" where
  "query_run repr digest P initial ms turn choice inputs =
     (if list_ex (\<lambda>v. case v of None \<Rightarrow> False | Some x \<Rightarrow> x \<le> 0) (qp_limits P) then failing BadLimit
      else (let s = (case initial of Some s \<Rightarrow> s | None \<Rightarrow> fresh_state P ms turn)
            in if state_key s \<noteq> qp_state_key P \<or> qs_role s \<noteq> qp_role P then failing ScopeMismatch
               else checked repr True (qs_messages s)
                 (if qp_candidates P = [] then failing NoCandidate
                  else if int (length (qp_candidates P)) \<le> active_candidate_index s then failing RouteOutOfRange
                  else (let s0 = routed P choice s;
                            (tr, e) = query_loop repr digest P inputs
                              (initial \<noteq> None \<and> qs_phase s0 = EXECUTING_TOOLS) s0
                        in (Saved s0 # Yielded (Started s0 (initial \<noteq> None)) # tr, e)))))"

end
