(* ===== verification/Query_Safety.thy ===== *)
theory Query_Safety
  imports Query_Loop
begin

text \<open>
  What the query loop promises a caller that can only see its trace: every state it announces was saved
  before, saved states are consecutive transitions, and an event with an effect outside (a domain event,
  the tool calls, the end) is the one the last saved state records. The outbox delivers each event once,
  also over a crash.
\<close>

section \<open>Reading a trace\<close>

definition follows :: "loop_state \<Rightarrow> loop_state \<Rightarrow> bool" where
  "follows s s' \<longleftrightarrow> qs_phase s' \<in> set (legal_next (qs_phase s)) \<and> revision s' = revision s + 1 \<and>
     transition_reason s' \<noteq> None \<and> query_wf s' \<and> state_key s' = state_key s \<and> qs_role s' = qs_role s"

fun current :: "loop_state \<Rightarrow> trace_item list \<Rightarrow> loop_state" where
  "current s [] = s"
| "current s (Saved s' # tr) = current s' tr"
| "current s (Yielded e # tr) = current s tr"

text \<open>What an event may say, given the last saved state and all of them.\<close>

fun grounded :: "loop_state \<Rightarrow> loop_state list \<Rightarrow> query_out \<Rightarrow> bool" where
  "grounded s past (StateChanged x) \<longleftrightarrow> x \<in> set past"
| "grounded s past (DomainEvent e) \<longleftrightarrow> query_event s = Some e"
| "grounded s past (ToolCalls t calls r) \<longleftrightarrow>
     qs_phase s = EXECUTING_TOOLS \<and> qs_turn s = t \<and> map_option tool_calls (tool_batch s) = Some calls"
| "grounded s past (Completed reason detail t ms) \<longleftrightarrow>
     qs_phase s = TERMINAL \<and> terminal s = Some \<lparr>qt_reason = reason, qt_detail = detail\<rparr> \<and>
     qs_turn s = t \<and> qs_messages s = ms"
| "grounded s past (HookCompleted reason t ms u) \<longleftrightarrow>
     qs_phase s = TERMINAL \<and> map_option qt_detail (terminal s) = Some (Some reason) \<and> qs_turn s = t"
| "grounded s past (Request t n) \<longleftrightarrow> qs_phase s = CALLING_MODEL \<and> qs_turn s = t"
| "grounded s past (ModelEvent t m ds) \<longleftrightarrow> qs_turn s = t \<and> m \<in> set (qs_messages s)"
| "grounded s past e \<longleftrightarrow> True"

fun write_ahead :: "loop_state \<Rightarrow> loop_state list \<Rightarrow> trace_item list \<Rightarrow> bool" where
  "write_ahead s past [] \<longleftrightarrow> True"
| "write_ahead s past (Saved s' # tr) \<longleftrightarrow> follows s s' \<and> write_ahead s' (s' # past) tr"
| "write_ahead s past (Yielded e # tr) \<longleftrightarrow> grounded s past e \<and> write_ahead s past tr"

fun saves :: "trace_item list \<Rightarrow> loop_state list" where
  "saves [] = []"
| "saves (Saved s # tr) = s # saves tr"
| "saves (Yielded e # tr) = saves tr"

lemma write_ahead_append [simp]:
  "write_ahead s past (tr @ tr') \<longleftrightarrow>
     write_ahead s past tr \<and> write_ahead (current s tr) (rev (saves tr) @ past) tr'"
  by (induction s past tr rule: write_ahead.induct) auto

lemma current_append [simp]: "current s (tr @ tr') = current (current s tr) tr'"
  by (induction s tr rule: current.induct) auto

lemma saves_append [simp]: "saves (xs @ ys) = saves xs @ saves ys"
  by (induction xs rule: saves.induct) auto

lemma current_saves: "current s tr = last (s # saves tr)"
  by (induction s tr rule: current.induct) auto

text \<open>A step is lawful when its trace is and the state it goes on with is the last one saved.\<close>

fun ends_at :: "loop_state \<Rightarrow> step_end \<Rightarrow> bool" where
  "ends_at s (Next s' r) \<longleftrightarrow> s' = s"
| "ends_at s Finished \<longleftrightarrow> True"
| "ends_at s (Raised e) \<longleftrightarrow> True"

definition lawful :: "loop_state \<Rightarrow> loop_state list \<Rightarrow> step \<Rightarrow> bool" where
  "lawful s past st \<longleftrightarrow> write_ahead s past (fst st) \<and> ends_at (current s (fst st)) (snd st)"

named_theorems lawful_intros

lemma lawful_failing [lawful_intros]: "lawful s past (failing e)"
  by (simp add: lawful_def failing_def)

lemma lawful_finished [lawful_intros]: "lawful s past ([], Finished)"
  by (simp add: lawful_def)

lemma lawful_going [lawful_intros]: "lawful s past (going r s)"
  by (simp add: lawful_def going_def)

lemma lawful_checked [lawful_intros]: "lawful s past st \<Longrightarrow> lawful s past (checked repr p ms st)"
  by (simp add: checked_def lawful_intros split: sum.splits)

lemma yielded_only [simp]: "current s (map Yielded outs) = s" "saves (map Yielded outs) = []"
  by (induction outs) auto

lemma write_ahead_yielded [simp]: "write_ahead s past (map Yielded outs) \<longleftrightarrow> list_all (grounded s past) outs"
  by (induction outs) auto

lemma lawful_yielding [lawful_intros]:
  "list_all (grounded s past) outs \<Longrightarrow> lawful s past st \<Longrightarrow> lawful s past (yielding outs st)"
  by (simp add: lawful_def yielding_def)

lemma advance_follows:
  "advance s a = Inr s' \<Longrightarrow> state_key (act_changes a s) = state_key s \<Longrightarrow>
     qs_role (act_changes a s) = qs_role s \<Longrightarrow> follows s s'"
  by (auto simp: advance_Inr follows_def query_wf_def)

lemma lawful_move [lawful_intros]:
  assumes "state_key (act_changes a s) = state_key s \<and> qs_role (act_changes a s) = qs_role s"
    and "\<And>s'. advance s a = Inr s' \<Longrightarrow> follows s s' \<Longrightarrow> list_all (grounded s' (s' # past)) (outs s') \<and> lawful s' (s' # past) (k s')"
  shows "lawful s past (move s a outs k)"
proof (cases "advance s a")
  case (Inr s')
  with assms advance_follows[OF Inr] show ?thesis by (auto simp: move_def lawful_def)
qed (simp add: move_def lawful_def)

section \<open>Every step is lawful\<close>

lemma act_changes_act [simp]: "act_changes (act p r f) = f" "act_phase (act p r f) = p" "act_reason (act p r f) = r"
  by (simp_all add: act_def)

lemma terminal_action_simps [simp]:
  "act_phase (terminal_action r d ms q e) = TERMINAL"
  "state_key (act_changes (terminal_action r d ms q e) s) = state_key s"
  "qs_role (act_changes (terminal_action r d ms q e) s) = qs_role s"
  "qs_turn (act_changes (terminal_action r d ms q e) s) = qs_turn s"
  "terminal (act_changes (terminal_action r d ms q e) s) = Some \<lparr>qt_reason = r, qt_detail = d\<rparr>"
  "tool_batch (act_changes (terminal_action r d ms q e) s) = None"
  "qs_messages (act_changes (terminal_action r d ms q e) s) = (if ms = [] then qs_messages s else ms)"
  "query_event (act_changes (terminal_action r d ms q e) s) = (case e of Some x \<Rightarrow> Some x | None \<Rightarrow> query_event s)"
  by (simp_all add: terminal_action_def)

lemma lawful_stop_with [lawful_intros]: "lawful s past (stop_with r d resumed s)"
  unfolding stop_with_def by (intro lawful_intros) (auto intro: lawful_intros)

lemma lawful_before_loop:
  "(\<And>s past. lawful s past (go s)) \<Longrightarrow> (\<And>r s past. lawful s past (stop r s)) \<Longrightarrow>
     lawful s past (before_loop hooks go stop s)"
proof (induction hooks go stop s arbitrary: past rule: before_loop.induct)
  case (4 r hs go stop s)
  then show ?case by (auto simp: hook_action_def intro!: lawful_move)
qed (auto intro: lawful_intros)

lemma lawful_prepare: "lawful s past (prepare_step repr P hooks delta resumed s)"
proof -
  have go: "lawful s past (begin_turn delta resumed s)" for s past
    unfolding begin_turn_def by (intro lawful_intros) (auto intro: lawful_intros)
  have stop: "lawful s past (stop_before repr r s)" for r s past
    unfolding stop_before_def by (intro lawful_intros) (auto intro: lawful_intros simp: advance_Inr)
  show ?thesis unfolding prepare_step_def
    by (auto intro!: lawful_intros lawful_before_loop go stop intro: lawful_intros)
qed

lemma transport_grounded: "list_all (grounded s past) (fst (transport call t n k))"
  by (induction call t n k rule: transport.induct)
    (auto simp: case_prod_beta split: model_outcome.splits)

lemma lawful_model_failed: "lawful s past (model_failed P mi timed_out resumed s)"
  unfolding model_failed_def Let_def
  by (auto intro!: lawful_stop_with) (auto simp: reproject_def fall_back_def Let_def intro!: lawful_move intro: lawful_intros)

lemma lawful_truncated: "lawful s past (truncated_answer repr P m resumed s)"
  unfolding truncated_answer_def
  by (auto intro!: lawful_stop_with)
    (auto simp: escalate_output_def continue_answer_def Let_def intro!: lawful_move intro: lawful_intros)

lemma lawful_accept: "lawful s past (accept_answer repr digest P m resumed s)"
  unfolding accept_answer_def Let_def case_prod_beta
  by (rule lawful_move) (auto simp: advance_Inr intro: lawful_intros)

lemma lawful_model_step:
  assumes "qs_phase s = CALLING_MODEL"
  shows "lawful s past (model_step repr digest P mi resumed s)"
proof -
  have "lawful s past (after_call repr digest P mi resumed s r)" for r
    by (cases r) (auto simp: after_call_def answered_def intro!: lawful_stop_with lawful_model_failed
        lawful_truncated lawful_accept lawful_move intro: lawful_intros)
  then show ?thesis using assms unfolding model_step_def Let_def case_prod_beta
    by (auto intro!: lawful_intros transport_grounded split: option.splits)
qed

lemma lawful_stop_step: "lawful s past (stop_step repr hooks resumed s)"
  unfolding stop_step_def Let_def
  by (auto intro!: lawful_move lawful_checked intro: lawful_intros split: option.splits)

lemma lawful_commit_loop:
  "set done \<subseteq> set past \<Longrightarrow>
     (\<And>b done s past. set done \<subseteq> set past \<Longrightarrow> lawful s past (k b done s)) \<Longrightarrow>
     lawful s past (commit_loop repr cs b done k s)"
proof (induction repr cs b "done" k s arbitrary: past rule: commit_loop.induct)
  case (2 repr call g cs b "done" k s)
  show ?case
  proof (cases "call_key repr call \<in> set (committed_tool_call_ids b)")
    case False
    have IH: "lawful s' (s' # past) (commit_loop repr cs (commit_to repr call g b) (done @ [s']) k s')" for s'
      by (rule 2(2)[OF False refl]) (use 2(3) 2(4) in auto)
    from False show ?thesis by (auto simp: Let_def commit_action_def intro!: lawful_move IH)
  qed (use 2 in simp)
qed simp

lemma lawful_close_batch: "lawful s past (close_batch repr P bi calls s)"
  unfolding close_batch_def end_batch_def Let_def
  by (auto intro!: lawful_checked lawful_move intro: lawful_intros split: sum.splits)

lemma lawful_tool_step:
  assumes "qs_phase s = EXECUTING_TOOLS"
  shows "lawful s past (tool_step repr P batch resumed s)"
proof -
  have after: "lawful s past (after_batch repr P bi calls b done s)" if "set done \<subseteq> set past" for bi calls b "done" s past
    using that unfolding after_batch_def
    by (auto intro!: lawful_yielding lawful_close_batch lawful_failing simp: list_all_iff)
  show ?thesis using assms unfolding tool_step_def
    by (auto intro!: lawful_yielding lawful_commit_loop after lawful_failing lawful_move intro: lawful_intros
        simp: refuse_replay_def split: option.splits)
qed

lemma lawful_query_step: "lawful s past (query_step repr digest P i resumed s)"
proof (cases "query_event s")
  case None
  then show ?thesis
    by (cases "qs_phase s")
      (auto simp: query_step_def completed_def lawful_def[of _ _ "(_, Finished)"]
        intro!: lawful_prepare lawful_model_step lawful_stop_step lawful_tool_step
        intro: lawful_intros split: option.splits)
next
  case (Some e)
  then show ?thesis
    by (auto simp: query_step_def deliver_def intro!: lawful_yielding lawful_move intro: lawful_intros)
qed

lemma query_loop_Cons:
  "query_loop repr digest P (i # is) r s =
     (case snd (query_step repr digest P i r s) of
        Next s' r' \<Rightarrow> (fst (query_step repr digest P i r s) @ fst (query_loop repr digest P is r' s'),
                       snd (query_loop repr digest P is r' s'))
      | e \<Rightarrow> query_step repr digest P i r s)"
  by (cases "query_step repr digest P i r s") (auto simp: case_prod_beta split: step_end.splits)

declare query_loop.simps(2) [simp del]

lemma lawful_query_loop: "lawful s past (query_loop repr digest P is r s)"
proof (induction "is" arbitrary: s r past)
  case (Cons i "is")
  from lawful_query_step[of s past repr digest P i r] Cons.IH show ?case
    by (auto simp: query_loop_Cons lawful_def split: step_end.splits)
qed (auto intro: lawful_intros)

section \<open>The checkpoint is ahead of everything the caller sees\<close>

lemma follows_advance:
  "follows s s' \<Longrightarrow> advance s \<lparr>act_phase = qs_phase s', act_reason = the (transition_reason s'), act_changes = (\<lambda>_. s')\<rparr> = Inr s'"
  by (auto simp: follows_def advance_Inr)

lemma write_ahead_history: "write_ahead s past tr \<Longrightarrow> history s (saves tr)"
  by (induction s past tr rule: write_ahead.induct) (auto intro: history.intros follows_advance)

lemma query_run_shape:
  assumes "query_run repr digest P initial ms turn choice is = (Saved s0 # tr, e)"
  shows "\<exists>x r. Yielded (Started s0 x) # fst (query_loop repr digest P is r s0) = tr \<and>
    snd (query_loop repr digest P is r s0) = e \<and>
    s0 = routed P choice (case initial of Some s \<Rightarrow> s | None \<Rightarrow> fresh_state P ms turn)"
  using assms unfolding query_run_def Let_def case_prod_beta checked_def failing_def
  by (auto split: if_splits sum.splits)

definition ask :: query_message where
  "ask = \<lparr>qm_body = OtherMessage ''human'' (JStr ''q''), qm_kwargs = [], qm_meta = []\<rparr>"

definition reply :: query_message where
  "reply = \<lparr>qm_body = AIMessage [] None (JStr ''a''), qm_kwargs = [], qm_meta = []\<rparr>"

definition small_params :: query_params where
  "small_params = \<lparr>qp_role = RESEARCHER, qp_state_key = ''k'', qp_run_id = ''r'', qp_max_turns = Some 2,
     qp_candidates = [(''m'', 100)], qp_default_max_tokens = 100, qp_custom_call = False, qp_model_attempts = 2,
     qp_context_attempts = 2, qp_continuations = 1, qp_escalation = True, qp_output_overrides = [],
     qp_breaker = False, qp_max_batch = None, qp_limits = [], qp_durable_hook = False, qp_acknowledged = [],
     qp_tools = []\<rparr>"

definition small_input :: step_input where
  "small_input = \<lparr>si_before = [], si_delta = None,
     si_model = \<lparr>mi_fits = Some True, mi_request_size = 1, mi_checkpoint = True,
       mi_call = (\<lambda>n. if n = 1 then CallTimeout else Answer reply), mi_error_kind = TRANSIENT, mi_compacted = [],
       mi_next_index = (\<lambda>i. None)\<rparr>,
     si_stop = [], si_batch = (\<lambda>b. \<lparr>bi_commits = [], bi_outcomes = [], bi_diagnostics = [], bi_end = BatchReturned None\<rparr>)\<rparr>"

definition small_run :: step where
  "small_run = query_run demo_repr demo_digest small_params None [ask] 0 None (replicate 4 small_input)"

lemma run_evaluated:
  "case r of (tr, e) \<Rightarrow> tr \<noteq> [] \<and> hd tr = x \<and> Q tr e \<Longrightarrow> r = (x # tl (fst r), snd r) \<and> Q (fst r) (snd r)"
  by (cases r) auto



section \<open>A logic of steps\<close>

text \<open>A step for which every saved state stands in \<open>T\<close> to the one before, every event yielded satisfies \<open>G\<close>
  of the last saved state, an error satisfies \<open>X\<close> and the state it goes on with satisfies \<open>E\<close>.\<close>

fun end_ok :: "(query_error \<Rightarrow> bool) \<Rightarrow> (loop_state \<Rightarrow> bool) \<Rightarrow> step_end \<Rightarrow> bool" where
  "end_ok X E (Next s r) \<longleftrightarrow> E s"
| "end_ok X E Finished \<longleftrightarrow> True"
| "end_ok X E (Raised e) \<longleftrightarrow> X e"

fun trace_ok ::
    "(loop_state \<Rightarrow> loop_state \<Rightarrow> bool) \<Rightarrow> (loop_state \<Rightarrow> query_out \<Rightarrow> bool) \<Rightarrow> loop_state \<Rightarrow> trace_item list \<Rightarrow> bool" where
  "trace_ok T G s [] \<longleftrightarrow> True"
| "trace_ok T G s (Saved s' # tr) \<longleftrightarrow> T s s' \<and> trace_ok T G s' tr"
| "trace_ok T G s (Yielded e # tr) \<longleftrightarrow> G s e \<and> trace_ok T G s tr"

definition step_ok ::
    "(loop_state \<Rightarrow> loop_state \<Rightarrow> bool) \<Rightarrow> (loop_state \<Rightarrow> query_out \<Rightarrow> bool) \<Rightarrow> (query_error \<Rightarrow> bool) \<Rightarrow>
      (loop_state \<Rightarrow> bool) \<Rightarrow> loop_state \<Rightarrow> step \<Rightarrow> bool" where
  "step_ok T G X E s st \<longleftrightarrow> trace_ok T G s (fst st) \<and> end_ok X E (snd st)"

lemma trace_ok_append [simp]: "trace_ok T G s (tr @ tr') \<longleftrightarrow> trace_ok T G s tr \<and> trace_ok T G (current s tr) tr'"
  by (induction s tr rule: current.induct) auto

lemma trace_ok_yielded [simp]: "trace_ok T G s (map Yielded outs) \<longleftrightarrow> list_all (G s) outs"
  by (induction outs) auto

lemma step_ok_simps [simp]:
  "step_ok T G X E s (failing e) \<longleftrightarrow> X e"
  "step_ok T G X E s (going r s) \<longleftrightarrow> E s"
  "step_ok T G X E s ([], Finished)"
  "step_ok T G X E s (yielding outs st) \<longleftrightarrow> list_all (G s) outs \<and> step_ok T G X E s st"
  by (auto simp: step_ok_def failing_def going_def yielding_def)

lemma step_ok_checked:
  "step_ok T G X E s (checked repr p ms st) \<longleftrightarrow>
     (case validate_tool_transcript repr p (bodies ms) of Inl e \<Rightarrow> X (BadTranscript e) | Inr _ \<Rightarrow> step_ok T G X E s st)"
  by (simp add: checked_def split: sum.splits)

lemma step_ok_move:
  assumes "\<And>e. advance s a = Inl e \<Longrightarrow> X (IllegalAdvance e)"
    and "\<And>s'. advance s a = Inr s' \<Longrightarrow> T s s' \<and> list_all (G s') (outs s') \<and> step_ok T G X E s' (k s')"
  shows "step_ok T G X E s (move s a outs k)"
  using assms by (auto simp: move_def step_ok_def split: sum.splits)

definition gives :: "(before_result \<Rightarrow> bool) \<Rightarrow> before_outcome \<Rightarrow> bool" where
  "gives Q h \<longleftrightarrow> (case h of BeforeGives r \<Rightarrow> Q r | _ \<Rightarrow> True)"

lemma step_ok_before:
  assumes "list_all (gives Q) hooks" and "I s" and "X HookRaised"
    and go: "\<And>s. I s \<Longrightarrow> step_ok T G X E s (go s)"
    and stop: "\<And>r s. I s \<Longrightarrow> Q r \<Longrightarrow> step_ok T G X E s (stop r s)"
    and bad: "\<And>r s e. I s \<Longrightarrow> advance s (hook_action r) = Inl e \<Longrightarrow> X (IllegalAdvance e)"
    and ok: "\<And>r s s'. I s \<Longrightarrow> Q r \<Longrightarrow> advance s (hook_action r) = Inr s' \<Longrightarrow>
      T s s' \<and> I s' \<and> G s' (StateChanged s') \<and>
      G s' (Transition (br_reason r) (qs_turn s') (br_messages r) (br_replace r) (br_updates r))"
  shows "step_ok T G X E s (before_loop hooks go stop s)"
  using assms(1,2)
proof (induction hooks arbitrary: s)
  case (Cons h hooks)
  show ?case
  proof (cases h)
    case (BeforeGives r)
    have rest: "list_all (gives Q) hooks" using Cons.prems by simp
    have Q: "Q r" using BeforeGives Cons.prems by (simp add: gives_def)
    have "step_ok T G X E s' (if br_stop r then stop r s' else before_loop hooks go stop s')" if "I s'" for s'
      using stop[OF that Q] Cons.IH[OF rest that] by simp
    with BeforeGives bad[OF Cons.prems(2)] ok[OF Cons.prems(2) Q] show ?thesis
      by (auto intro!: step_ok_move)
  qed (use Cons assms(3) in auto)
qed (use go in auto)

lemma step_ok_commits:
  assumes "list_all (case_prod Q) cs" and "I b done s" and k: "\<And>b done s. I b done s \<Longrightarrow> step_ok T G X E s (k b done s)"
    and bad: "\<And>b done s b' e. I b done s \<Longrightarrow> advance s (commit_action b') = Inl e \<Longrightarrow> X (IllegalAdvance e)"
    and ok: "\<And>b done s call g s'. I b done s \<Longrightarrow> Q call g \<Longrightarrow> call_key repr call \<notin> set (committed_tool_call_ids b) \<Longrightarrow>
      advance s (commit_action (commit_to repr call g b)) = Inr s' \<Longrightarrow>
      T s s' \<and> I (commit_to repr call g b) (done @ [s']) s'"
  shows "step_ok T G X E s (commit_loop repr cs b done k s)"
  using assms(1,2)
proof (induction cs arbitrary: b "done" s)
  case (Cons c cs)
  obtain call g where c: "c = (call, g)" by force
  then have Q: "Q call g" and rest: "list_all (case_prod Q) cs" using Cons.prems by auto
  show ?case
  proof (cases "call_key repr call \<in> set (committed_tool_call_ids b)")
    case False
    from ok[OF Cons.prems(2) Q False] Cons.IH[OF rest] bad[OF Cons.prems(2)] False c show ?thesis
      by (auto simp: Let_def intro!: step_ok_move)
  qed (use Cons.IH[OF rest Cons.prems(2)] c in simp)
qed (use k in simp)

section \<open>The outbox\<close>

definition stamped :: "string \<Rightarrow> int \<Rightarrow> query_message pending_query_event \<Rightarrow> bool" where
  "stamped key r e \<longleftrightarrow> pe_event_id e = key @ '':'' @ int_text r @ '':'' @ pe_event_type e"

text \<open>The pending event of a state saved by the loop carries the revision it was created with.\<close>

definition outbox_ok :: "loop_state \<Rightarrow> bool" where
  "outbox_ok s \<longleftrightarrow> (case query_event s of None \<Rightarrow> True | Some e \<Rightarrow> \<exists>r \<le> revision s. stamped (state_key s) r e)"

fun domain_events :: "trace_item list \<Rightarrow> query_message pending_query_event list" where
  "domain_events [] = []"
| "domain_events (Yielded (DomainEvent e) # tr) = e # domain_events tr"
| "domain_events (_ # tr) = domain_events tr"

definition posted :: "loop_state \<Rightarrow> loop_state \<Rightarrow> bool" where
  "posted s s' \<longleftrightarrow> state_key s' = state_key s \<and> revision s' = revision s + 1 \<and>
     (case query_event s' of None \<Rightarrow> True
      | Some e \<Rightarrow> query_event s = Some e \<or> stamped (state_key s') (revision s') e)"

fun silent :: "loop_state \<Rightarrow> query_out \<Rightarrow> bool" where
  "silent s (DomainEvent e) = False"
| "silent s e = True"

abbreviation quiet :: "loop_state \<Rightarrow> step \<Rightarrow> bool" where
  "quiet \<equiv> step_ok posted silent (\<lambda>_. True) (\<lambda>_. True)"

lemma quiet_move:
  assumes "state_key (act_changes a s) = state_key s"
    and "query_event (act_changes a s) \<in> {None, query_event s} \<or>
      (\<exists>e. query_event (act_changes a s) = Some e \<and> stamped (state_key s) (revision s + 1) e)"
    and "\<And>s'. list_all (silent s') (outs s') \<and> quiet s' (k s')"
  shows "quiet s (move s a outs k)"
proof (rule step_ok_move)
  fix s' assume "advance s a = Inr s'"
  then show "posted s s' \<and> list_all (silent s') (outs s') \<and> quiet s' (k s')"
    using assms by (cases "query_event s") (auto simp: posted_def advance_Inr split: option.splits)
qed simp

lemma quiet_stop_with: "quiet s (stop_with r d resumed s)"
  unfolding stop_with_def by (rule quiet_move) auto

lemma loop_event_stamped: "stamped (state_key s) (revision s + 1) (loop_event s etype reason ms extra u c ds)"
  by (simp add: stamped_def loop_event_def pending_event_id_def)

lemma quiet_checked: "quiet s st \<Longrightarrow> quiet s (checked repr p ms st)"
  by (simp add: step_ok_checked split: sum.splits)

lemma quiet_prepare: "quiet s (prepare_step repr P hooks delta resumed s)"
proof -
  have "quiet s (before_loop hooks (begin_turn delta resumed) (stop_before repr) s)"
  proof (rule step_ok_before[where I = "\<lambda>_. True" and Q = "\<lambda>_. True"])
    fix r s s' assume "advance s (hook_action r) = Inr s'"
    then show "posted s s' \<and> True \<and> silent s' (StateChanged s') \<and>
        silent s' (Transition (br_reason r) (qs_turn s') (br_messages r) (br_replace r) (br_updates r))"
      by (auto simp: posted_def advance_Inr hook_action_def split: option.splits)
  qed (auto simp: begin_turn_def stop_before_def gives_def list_all_iff split: before_outcome.splits
        intro!: quiet_move quiet_checked)
  then show ?thesis by (auto simp: prepare_step_def intro!: quiet_checked quiet_move)
qed

lemma transport_silent: "list_all (silent s) (fst (transport call t n k))"
  by (induction call t n k rule: transport.induct)
    (auto simp: case_prod_beta split: model_outcome.splits)

lemma quiet_model: "quiet s (model_step repr digest P mi resumed s)"
proof -
  have failed: "quiet s (model_failed P mi b resumed s)" for b
    by (auto simp: model_failed_def reproject_def fall_back_def Let_def intro!: quiet_stop_with quiet_move)
  have truncated: "quiet s (truncated_answer repr P m resumed s)" for m
    by (auto simp: truncated_answer_def escalate_output_def continue_answer_def Let_def
        intro!: quiet_stop_with quiet_move)
  have accept: "quiet s (accept_answer repr digest P m resumed s)" for m
    by (auto simp: accept_answer_def Let_def case_prod_beta intro!: quiet_move)
  have "quiet s (after_call repr digest P mi resumed s r)" for r
    by (cases r) (auto simp: after_call_def answered_def intro!: failed truncated accept quiet_stop_with quiet_move)
  then show ?thesis unfolding model_step_def Let_def case_prod_beta
    by (auto intro!: quiet_checked quiet_stop_with transport_silent split: option.splits)
qed

lemma quiet_stop: "quiet s (stop_step repr hooks resumed s)"
  by (auto simp: stop_step_def Let_def loop_event_stamped intro!: quiet_move quiet_checked split: option.splits)

lemma quiet_tools: "quiet s (tool_step repr P batch resumed s)"
proof -
  have close: "quiet s (close_batch repr P bi calls s)" for bi calls s
    by (auto simp: close_batch_def end_batch_def Let_def loop_event_stamped
        intro!: quiet_move quiet_checked split: sum.splits)
  have commits: "quiet s (commit_loop repr cs b done (after_batch repr P bi calls) s)" for cs b "done" bi calls
  proof (rule step_ok_commits[where I = "\<lambda>_ _ _. True" and Q = "\<lambda>_ _. True"])
    fix b "done" s call g s' assume "advance s (commit_action (commit_to repr call g b)) = Inr s'"
    then show "posted s s' \<and> True" by (auto simp: posted_def advance_Inr commit_action_def split: option.splits)
  qed (auto simp: after_batch_def list_all_iff close)
  then show ?thesis
    by (auto simp: tool_step_def refuse_replay_def intro!: quiet_move split: option.splits)
qed

lemma quiet_step: "query_event s = None \<Longrightarrow> quiet s (query_step repr digest P i resumed s)"
  by (cases "qs_phase s")
    (auto simp: query_step_def completed_def quiet_prepare quiet_model quiet_stop quiet_tools step_ok_def[of _ _ _ _ _ "(_, Finished)"]
      split: option.splits)

definition is_digit_char :: "char \<Rightarrow> bool" where
  "is_digit_char c \<longleftrightarrow> (48::nat) \<le> of_char c \<and> of_char c \<le> (57::nat)"

lemma decimal_digits: "list_all is_digit_char (decimal n)"
proof (induction n rule: decimal.induct)
  case (1 n)
  then show ?case by (cases "n < 10") (simp_all add: decimal.simps[of n] is_digit_char_def)
qed

lemma int_text_chars: "CHR '':'' \<notin> set (int_text i)"
  using decimal_digits[of "nat i"] decimal_digits[of "nat (- i)"]
  by (auto simp: int_text_def list_all_iff is_digit_char_def)

lemma int_text_inj: "int_text i = int_text j \<longleftrightarrow> i = j"
proof
  have minus: "decimal n \<noteq> CHR ''-'' # xs" for n xs
  proof
    assume "decimal n = CHR ''-'' # xs"
    with decimal_digits[of n] show False by (simp add: is_digit_char_def)
  qed
  have inj: "m = n" if "decimal m = decimal n" for m n
    using arg_cong[OF that, of decimal_value] by (simp add: decimal_value_decimal)
  assume same: "int_text i = int_text j"
  show "i = j"
  proof (cases "0 \<le> i"; cases "0 \<le> j")
    assume "0 \<le> i" "0 \<le> j"
    then show ?thesis using same inj[of "nat i" "nat j"] by (simp add: int_text_def)
  next
    assume "\<not> 0 \<le> i" "\<not> 0 \<le> j"
    then show ?thesis using same inj[of "nat (- i)" "nat (- j)"] by (simp add: int_text_def)
  qed (use same minus minus[symmetric] in \<open>auto simp: int_text_def\<close>)
qed simp

lemma stamped_unique:
  assumes "stamped key r e" "stamped key r' e'" "pe_event_id e = pe_event_id e'"
  shows "r = r'"
proof -
  have "takeWhile (\<lambda>c. c \<noteq> CHR '':'') (int_text x @ CHR '':'' # t) = int_text x" for x t
    using int_text_chars[of x] by (subst takeWhile_append2) auto
  moreover have "int_text r @ CHR '':'' # pe_event_type e = int_text r' @ CHR '':'' # pe_event_type e'"
    using assms by (simp add: stamped_def)
  ultimately show ?thesis by (metis int_text_inj)
qed

lemma delivered_append [simp]: "domain_events (xs @ ys) = domain_events xs @ domain_events ys"
  by (induction xs rule: domain_events.induct) auto

lemma quiet_trace_from:
  "trace_ok posted silent s tr \<Longrightarrow>
     domain_events tr = [] \<and> state_key (current s tr) = state_key s \<and> revision s \<le> revision (current s tr) \<and>
     (\<forall>e. query_event (current s tr) = Some e \<longrightarrow>
        query_event s = Some e \<or> (\<exists>r. revision s < r \<and> r \<le> revision (current s tr) \<and> stamped (state_key s) r e))"
proof (induction s tr rule: current.induct)
  case (2 s s' tr)
  then have p: "posted s s'" and ih: "trace_ok posted silent s' tr" by auto
  from 2(1)[OF ih] p show ?case by (force simp: posted_def split: option.splits)
next
  case (3 s e tr)
  then show ?case by (cases e) auto
qed auto

lemma quiet_trace:
  "trace_ok posted silent s tr \<Longrightarrow> query_event s = None \<Longrightarrow>
     domain_events tr = [] \<and> state_key (current s tr) = state_key s \<and> revision s \<le> revision (current s tr) \<and>
     (\<forall>e. query_event (current s tr) = Some e \<longrightarrow>
        (\<exists>r. revision s < r \<and> r \<le> revision (current s tr) \<and> stamped (state_key s) r e))"
  using quiet_trace_from[of s tr] by simp

lemma deliver_trace:
  assumes "deliver P resumed e s = (tr, fin)"
  shows "domain_events tr = (if pe_event_id e \<in> set (qp_acknowledged P) then [] else [e]) \<and>
    (\<forall>s' r. fin = Next s' r \<longrightarrow> query_event s' = None \<and> state_key s' = state_key s \<and> revision s' = revision s + 1)"
  using assms
  by (auto simp: deliver_def yielding_def move_def going_def advance_Inr split: sum.splits if_splits)

text \<open>What a loop may still deliver from a state: its pending event or events of later revisions, none
  acknowledged and no two with the same identifier.\<close>

definition delivers :: "query_params \<Rightarrow> loop_state \<Rightarrow> query_message pending_query_event list \<Rightarrow> bool" where
  "delivers P s es \<longleftrightarrow>
     (\<forall>e \<in> set es. query_event s = Some e \<or> (\<exists>q > revision s. stamped (state_key s) q e)) \<and>
     (\<forall>e \<in> set es. pe_event_id e \<notin> set (qp_acknowledged P)) \<and> distinct (map pe_event_id es)"

lemma delivers_earlier:
  assumes "delivers P s' es" and "state_key s' = state_key s" and "revision s \<le> revision s'"
    and "\<forall>e. query_event s' = Some e \<longrightarrow> (\<exists>r. revision s < r \<and> stamped (state_key s) r e)"
  shows "delivers P s es"
  using assms unfolding delivers_def by (metis order.strict_trans1)

lemma delivers_one:
  assumes "delivers P s' es" and "state_key s' = state_key s" and "revision s < revision s'" and "query_event s' = None"
    and "query_event s = Some e" and "outbox_ok s"
  shows "delivers P s ((if pe_event_id e \<in> set (qp_acknowledged P) then [] else [e]) @ es)"
proof -
  from assms(5,6) obtain n where n: "n \<le> revision s" "stamped (state_key s) n e" by (auto simp: outbox_ok_def)
  have later: "\<forall>x \<in> set es. \<exists>q > revision s. stamped (state_key s) q x"
    using assms(1-4) unfolding delivers_def by (metis less_trans option.distinct(1))
  have "pe_event_id e \<noteq> pe_event_id x" if x: "x \<in> set es" for x
  proof
    assume same: "pe_event_id e = pe_event_id x"
    from later x obtain q where "revision s < q" "stamped (state_key s) q x" by blast
    with stamped_unique[OF n(2) _ same] n(1) show False by force
  qed
  then show ?thesis using assms(1,5) later by (auto simp: delivers_def)
qed

lemma loop_delivers:
  "outbox_ok s \<Longrightarrow> delivers P s (domain_events (fst (query_loop repr digest P is r s)))"
proof (induction "is" arbitrary: s r)
  case Nil
  then show ?case by (simp add: going_def delivers_def)
next
  case (Cons i "is")
  obtain tr fin where step: "query_step repr digest P i r s = (tr, fin)" by force
  show ?case
  proof (cases "query_event s")
    case None
    with quiet_step[OF None, of repr digest P i r] step have ok: "trace_ok posted silent s tr" by (simp add: step_ok_def)
    note q = quiet_trace[OF ok None]
    show ?thesis
    proof (cases fin)
      case (Next s' r')
      with lawful_query_step[of s "[]" repr digest P i r] step have s': "s' = current s tr" by (simp add: lawful_def)
      have box: "outbox_ok s'" using q s' by (auto simp: outbox_ok_def split: option.splits)
      have "delivers P s (domain_events (fst (query_loop repr digest P is r' s')))"
        by (rule delivers_earlier[OF Cons.IH[OF box]]) (use q s' in auto)
      then show ?thesis using q Next step by (simp add: query_loop_Cons)
    qed (use q step in \<open>simp_all add: query_loop_Cons delivers_def\<close>)
  next
    case (Some e)
    then have d: "deliver P r e s = (tr, fin)" using step by (simp add: query_step_def)
    note q = deliver_trace[OF d]
    show ?thesis
    proof (cases fin)
      case (Next s' r')
      then have n: "query_event s' = None" "state_key s' = state_key s" "revision s < revision s'" using q by auto
      then have box: "outbox_ok s'" by (simp add: outbox_ok_def)
      have d: "domain_events (fst (query_loop repr digest P (i # is) r s)) =
          (if pe_event_id e \<in> set (qp_acknowledged P) then [] else [e]) @ domain_events (fst (query_loop repr digest P is r' s'))"
        using q Next step by (simp add: query_loop_Cons del: query_loop.simps)
      show ?thesis unfolding d by (rule delivers_one[OF Cons.IH[OF box] n(2,3,1) Some Cons.prems])
    qed (use q step Some in \<open>auto simp: query_loop_Cons delivers_def\<close>)
  qed
qed

lemma outbox_saved:
  "outbox_ok s \<Longrightarrow> list_all outbox_ok (saves (fst (query_loop repr digest P is r s)))"
proof (induction "is" arbitrary: s r)
  case Nil
  then show ?case by (simp add: going_def)
next
  case (Cons i "is")
  obtain tr fin where step: "query_step repr digest P i r s = (tr, fin)" by force
  have "list_all outbox_ok (saves tr)"
  proof (cases "query_event s")
    case None
    have "outbox_ok s \<Longrightarrow> trace_ok posted silent s tr \<Longrightarrow> list_all outbox_ok (saves tr)"
    proof (induction s tr rule: current.induct)
      case (2 s s' tr)
      have "\<exists>r \<le> revision s + 1. stamped key r e" if "\<exists>r \<le> revision s. stamped key r e" for key e
        using that by (meson zle_add1_eq_le order.strict_implies_order)
      with 2(2,3) have "outbox_ok s'" by (auto simp: outbox_ok_def posted_def split: option.splits)
      with 2 show ?case by simp
    qed auto
    with quiet_step[OF None, of repr digest P i r] step Cons.prems show ?thesis by (simp add: step_ok_def)
  next
    case (Some e)
    then have "deliver P r e s = (tr, fin)" using step by (simp add: query_step_def)
    then show ?thesis
      by (auto simp: deliver_def yielding_def move_def going_def advance_Inr outbox_ok_def split: sum.splits if_splits)
  qed
  moreover have "outbox_ok s'" if "fin = Next s' r'" for s' r'
  proof -
    from that lawful_query_step[of s "[]" repr digest P i r] step have s': "s' = current s tr" by (simp add: lawful_def)
    show ?thesis
    proof (cases "saves tr")
      case Nil
      then show ?thesis using s' Cons.prems by (simp add: current_saves)
    next
      case (Cons x xs)
      then show ?thesis using s' calculation by (simp add: current_saves list_all_iff split: if_splits)
    qed
  qed
  ultimately show ?case using Cons.IH step by (cases fin) (auto simp: query_loop_Cons)
qed

text \<open>C3. Outbox: a run that starts from a state whose pending event is its own delivers no two domain events
  with the same identifier and none the caller has acknowledged; every state it saves again has an outbox
  of its own, so that a run resumed after a crash, with what was delivered acknowledged, keeps the promise.\<close>

theorem query_outbox_once:
  assumes "query_run repr digest P initial ms turn choice is = (Saved s0 # tr, e)" and "outbox_ok s0"
  shows "distinct (map pe_event_id (domain_events tr)) \<and>
    list_all (\<lambda>x. pe_event_id x \<notin> set (qp_acknowledged P)) (domain_events tr) \<and> list_all outbox_ok (saves tr)"
proof -
  obtain x r where tr: "tr = Yielded (Started s0 x) # fst (query_loop repr digest P is r s0)"
    using query_run_shape[OF assms(1)] by metis
  show ?thesis using loop_delivers[OF assms(2), of P repr digest "is" r] outbox_saved[OF assms(2), of repr digest P "is" r]
    by (auto simp: tr delivers_def list_all_iff)
qed

theorem query_outbox_once_witness:
  "map pe_event_id (domain_events (tl (fst small_run))) = [''k:3:query.completed''] \<and>
     distinct (map pe_event_id (domain_events (tl (fst small_run)))) \<and> list_all outbox_ok (saves (tl (fst small_run)))"
proof -
  let ?s0 = "fresh_state small_params [ask] 0"
  have "case small_run of (tr, e) \<Rightarrow> tr \<noteq> [] \<and> hd tr = Saved ?s0 \<and> (e = Finished \<and>
      map pe_event_id (domain_events (tl tr)) = [''k:3:query.completed''])" by code_simp
  from run_evaluated[OF this]
  have run: "small_run = (Saved ?s0 # tl (fst small_run), Finished)"
    and ids: "map pe_event_id (domain_events (tl (fst small_run))) = [''k:3:query.completed'']" by metis+
  have ok: "outbox_ok ?s0" by (simp add: outbox_ok_def fresh_state_def new_query_state_def)
  from query_outbox_once[OF run[unfolded small_run_def] ok, folded small_run_def] ids show ?thesis by simp
qed

section \<open>Batches are recorded, and a resumed batch runs nothing twice\<close>

definition batch_wf :: "(json \<Rightarrow> string) \<Rightarrow> query_message pending_tool_batch \<Rightarrow> bool" where
  "batch_wf repr b \<longleftrightarrow>
     list_all is_tool (bodies (committed_results b)) \<and>
     map tool_id (bodies (committed_results b)) = committed_tool_call_ids b \<and>
     distinct (committed_tool_call_ids b) \<and>
     set (committed_tool_call_ids b) \<subseteq> set (map (call_key repr) (tool_calls b))"

definition batched :: "(json \<Rightarrow> string) \<Rightarrow> loop_state \<Rightarrow> bool" where
  "batched repr s \<longleftrightarrow> (case tool_batch s of None \<Rightarrow> True | Some b \<Rightarrow> batch_wf repr b)"

text \<open>A result addressed to one of the calls.\<close>

definition addressed :: "(json \<Rightarrow> string) \<Rightarrow> tool_call list \<Rightarrow> tool_call \<Rightarrow> governed \<Rightarrow> bool" where
  "addressed repr calls c g \<longleftrightarrow>
     is_tool (go_message g) \<and> tool_id (go_message g) = call_key repr c \<and> c \<in> set calls"

definition honest :: "(json \<Rightarrow> string) \<Rightarrow> step_input \<Rightarrow> bool" where
  "honest repr i \<longleftrightarrow> (\<forall>b. list_all (case_prod (addressed repr (tool_calls b))) (bi_commits (si_batch i b)))"

abbreviation recorded :: "(json \<Rightarrow> string) \<Rightarrow> loop_state \<Rightarrow> step \<Rightarrow> bool" where
  "recorded repr \<equiv> step_ok (\<lambda>s s'. batched repr s') (\<lambda>_ _. True) (\<lambda>_. True) (batched repr)"

lemma all_true [simp]: "list_all (\<lambda>_. True) xs"
  by (induction xs) auto

lemma recorded_move:
  assumes "batched repr (act_changes a s)" and "\<And>s'. batched repr s' \<Longrightarrow> recorded repr s' (k s')"
  shows "recorded repr s (move s a outs k)"
proof (rule step_ok_move)
  fix s' assume "advance s a = Inr s'"
  then have "batched repr s'" using assms(1) by (simp add: advance_Inr batched_def)
  with assms(2) show "batched repr s' \<and> list_all (\<lambda>_. True) (outs s') \<and> recorded repr s' (k s')" by simp
qed simp

lemma batched_None [simp]: "tool_batch s = None \<Longrightarrow> batched repr s"
  by (simp add: batched_def)

lemma recorded_checked: "recorded repr s st \<Longrightarrow> recorded repr s (checked repr' p ms st)"
  by (simp add: step_ok_checked split: sum.splits)

lemma batched_same: "batched repr s \<Longrightarrow> tool_batch s' = tool_batch s \<Longrightarrow> batched repr s'"
  by (simp add: batched_def)

lemma recorded_stop_with: "recorded repr s (stop_with r d resumed s)"
  unfolding stop_with_def by (rule recorded_move) auto

lemma commit_wf:
  "batch_wf repr b \<Longrightarrow> addressed repr (tool_calls b) c g \<Longrightarrow> call_key repr c \<notin> set (committed_tool_call_ids b) \<Longrightarrow>
     batch_wf repr (commit_to repr c g b)"
  by (auto simp: batch_wf_def addressed_def commit_to_def bodies_def plain_message_def)

lemma new_batch_wf: "batch_wf repr (new_batch s calls)"
  by (simp add: batch_wf_def new_batch_def bodies_def)

lemma batched_new: "tool_batch s' = Some (new_batch s calls) \<Longrightarrow> batched repr s'"
  by (simp add: batched_def new_batch_wf)

lemma recorded_prepare:
  assumes "batched repr s"
  shows "recorded repr s (prepare_step repr' P hooks delta resumed s)"
proof -
  have "recorded repr s (before_loop hooks (begin_turn delta resumed) (stop_before repr') s)"
  proof (rule step_ok_before[where I = "batched repr" and Q = "\<lambda>_. True"])
    fix r s s' assume "batched repr s" "advance s (hook_action r) = Inr s'"
    then show "batched repr s' \<and> batched repr s' \<and> True \<and> True"
      by (auto simp: batched_def advance_Inr hook_action_def)
  qed (auto simp: begin_turn_def stop_before_def gives_def list_all_iff assms split: before_outcome.splits
        intro!: recorded_move recorded_checked elim: batched_same)
  then show ?thesis by (auto simp: prepare_step_def intro!: recorded_checked recorded_move)
qed

lemma recorded_model:
  assumes "batched repr s"
  shows "recorded repr s (model_step repr' digest P mi resumed s)"
proof -
  have failed: "recorded repr s (model_failed P mi b resumed s)" for b
    using assms by (auto simp: model_failed_def reproject_def fall_back_def Let_def
        intro!: recorded_stop_with recorded_move elim: batched_same)
  have truncated: "recorded repr s (truncated_answer repr' P m resumed s)" for m
    using assms by (auto simp: truncated_answer_def escalate_output_def continue_answer_def Let_def
        intro!: recorded_stop_with recorded_move elim: batched_same)
  have accept: "recorded repr s (accept_answer repr' digest P m resumed s)" for m
    using assms by (auto simp: accept_answer_def Let_def case_prod_beta intro!: recorded_move intro: batched_new elim: batched_same)
  have "recorded repr s (after_call repr' digest P mi resumed s r)" for r
    by (cases r) (auto simp: after_call_def answered_def intro!: failed truncated accept recorded_stop_with recorded_move)
  then show ?thesis unfolding model_step_def Let_def case_prod_beta
    by (auto intro!: recorded_checked recorded_stop_with split: option.splits)
qed

lemma recorded_stop: "batched repr s \<Longrightarrow> recorded repr s (stop_step repr' hooks resumed s)"
  by (auto simp: stop_step_def Let_def intro!: recorded_move recorded_checked elim: batched_same split: option.splits)

lemma recorded_tools:
  assumes "batched repr s" and "\<And>b. list_all (case_prod (addressed repr (tool_calls b))) (bi_commits (batch b))"
  shows "recorded repr s (tool_step repr P batch resumed s)"
proof -
  have close: "recorded repr s (close_batch repr P bi calls s)" for bi calls s
    by (auto simp: close_batch_def end_batch_def Let_def intro!: recorded_move recorded_checked split: sum.splits)
  have commits: "recorded repr s (commit_loop repr (bi_commits (batch b)) b [] (after_batch repr P bi calls) s)"
    if "batch_wf repr b" for b bi calls
  proof (rule step_ok_commits[where I = "\<lambda>b' _ _. batch_wf repr b' \<and> tool_calls b' = tool_calls b"
        and Q = "addressed repr (tool_calls b)"])
    fix b' "done" s call g s'
    assume "batch_wf repr b' \<and> tool_calls b' = tool_calls b" "addressed repr (tool_calls b) call g"
      "call_key repr call \<notin> set (committed_tool_call_ids b')" "advance s (commit_action (commit_to repr call g b')) = Inr s'"
    then show "batched repr s' \<and> batch_wf repr (commit_to repr call g b') \<and> tool_calls (commit_to repr call g b') = tool_calls b"
      using commit_wf[of repr b' call g] by (auto simp: advance_Inr commit_action_def batched_def commit_to_def)
  qed (auto simp: after_batch_def close assms(2) that)
  then show ?thesis using assms(1)
    by (auto simp: tool_step_def refuse_replay_def batched_def[of repr s] intro!: recorded_move split: option.splits)
qed

lemma recorded_step:
  "batched repr s \<Longrightarrow> honest repr i \<Longrightarrow> recorded repr s (query_step repr digest P i resumed s)"
  by (cases "query_event s"; cases "qs_phase s")
    (auto simp: query_step_def deliver_def completed_def recorded_prepare recorded_model recorded_stop recorded_tools honest_def
      step_ok_def[of _ _ _ _ _ "(_, Finished)"] intro!: recorded_move elim: batched_same split: option.splits)

lemma step_ok_loop:
  assumes "\<And>i r s. I s \<Longrightarrow> i \<in> set is \<Longrightarrow> step_ok T G X I s (query_step repr digest P i r s)" and "I s"
  shows "step_ok T G X I s (query_loop repr digest P is r s)"
  using assms
proof (induction "is" arbitrary: s r)
  case (Cons i "is")
  from Cons.prems(1)[OF Cons.prems(2)] have step: "step_ok T G X I s (query_step repr digest P i r s)" by simp
  have IH: "I s' \<Longrightarrow> step_ok T G X I s' (query_loop repr digest P is r' s')" for s' r'
    by (rule Cons.IH) (use Cons.prems(1) in auto)
  from lawful_query_step[of s "[]" repr digest P i r] step IH show ?case
    by (cases "snd (query_step repr digest P i r s)") (auto simp: query_loop_Cons step_ok_def lawful_def)
qed simp

lemma trace_ok_saves: "trace_ok (\<lambda>s s'. Q s') G s tr \<Longrightarrow> list_all Q (saves tr)"
  by (induction s tr rule: current.induct) auto

lemma query_run_step_ok:
  assumes "query_run repr digest P initial ms turn choice is = (Saved s0 # tr, e)" and "I s0"
    and "\<And>s. G s (Started s0 (initial \<noteq> None))"
    and "\<And>i r s. I s \<Longrightarrow> i \<in> set is \<Longrightarrow> step_ok T G X I s (query_step repr digest P i r s)"
  shows "step_ok T G X I s0 (tr, e)"
  using assms(1-3) step_ok_loop[of I "is" T G X repr digest P s0, OF assms(4)]
  unfolding query_run_def Let_def case_prod_beta checked_def failing_def
  by (auto simp: step_ok_def split: if_splits sum.splits)

text \<open>The default executor commits results of its calls only.\<close>

definition ran_for :: "(json \<Rightarrow> string) \<Rightarrow> tool_call \<Rightarrow> call_run \<Rightarrow> bool" where
  "ran_for repr c r \<longleftrightarrow>
     (case r of Ran g \<Rightarrow> is_tool (go_message g) \<and> tool_id (go_message g) = call_key repr c | _ \<Rightarrow> True)"

definition well_run :: "(json \<Rightarrow> string) \<Rightarrow> execution \<Rightarrow> bool" where
  "well_run repr ex \<longleftrightarrow> (\<forall>grp. set (ex_order ex grp) \<subseteq> set grp) \<and> (\<forall>c. ran_for repr c (ex_runs ex c))"

lemma schedule_calls: "set (concat (schedule safe cs grp)) = set cs \<union> set grp"
  by (induction safe cs grp rule: schedule.induct) auto

lemma runnable_subset: "set (runnable_calls P calls) \<subseteq> set calls"
  by (auto simp: runnable_calls_def py_upto_def split: option.splits if_splits dest: in_set_takeD)

lemma executed_subset:
  assumes "well_run repr ex" and "c \<in> set (executed_calls repr P ex committed calls)"
  shows "c \<in> set calls \<and> dict_get committed (call_key repr c) = None"
proof -
  obtain grp where "c \<in> set grp" and g: "grp \<in> set (schedule (safe_call repr P)
      (filter (\<lambda>c. dict_get committed (call_key repr c) = None) (runnable_calls P calls)) [])"
    using assms unfolding executed_calls_def well_run_def by (auto dest: subsetD)
  then have "c \<in> set (concat (schedule (safe_call repr P)
      (filter (\<lambda>c. dict_get committed (call_key repr c) = None) (runnable_calls P calls)) []))" by auto
  then show ?thesis unfolding schedule_calls using runnable_subset[of P calls] by auto
qed

lemma execute_one_addressed:
  "ran_for repr c r \<Longrightarrow> c \<in> set calls \<Longrightarrow> addressed repr calls c (execute_one repr c r)"
  by (cases r) (simp_all add: addressed_def ran_for_def execute_one_def error_result_def to_tool_message_def Let_def is_tool_def)

lemma default_batch_honest:
  assumes "well_run repr ex"
  shows "list_all (case_prod (addressed repr (tool_calls b))) (bi_commits (default_batch repr loads as_error P ex b))"
proof -
  let ?cs = "executed_calls repr P ex (committed_results_of loads as_error b) (tool_calls b)"
  have all: "list_all (case_prod (addressed repr (tool_calls b))) (map (\<lambda>c. (c, execute_one repr c (ex_runs ex c))) ?cs)"
    using executed_subset[OF assms] assms by (auto simp: list_all_iff well_run_def intro!: execute_one_addressed)
  have "list_all Q (take n xs)" if "list_all Q xs" for Q :: "tool_call \<times> governed \<Rightarrow> bool" and n xs
    using that by (auto simp: list_all_iff dest: in_set_takeD)
  with all show ?thesis by (auto simp: default_batch_def Let_def split: option.splits)
qed

text \<open>C6. Recorded batches: when the executor commits results of calls of the batch, every state a run saves
  has a batch whose committed identifiers are those of its committed tool messages, in their order, each
  once, and all of calls of the batch.\<close>

theorem query_batches_recorded:
  assumes "query_run repr digest P initial ms turn choice is = (Saved s0 # tr, e)" and "batched repr s0"
    and "list_all (honest repr) is"
  shows "list_all (batched repr) (saves tr)"
proof -
  have "recorded repr s0 (tr, e)"
    by (rule query_run_step_ok[where I = "batched repr", OF assms(1,2)]) (use assms(3) recorded_step in \<open>auto simp: list_all_iff\<close>)
  then show ?thesis using trace_ok_saves by (auto simp: step_ok_def)
qed

definition call_json :: "string \<Rightarrow> string \<Rightarrow> tool_call" where
  "call_json i n = [(''id'', JStr i), (''name'', JStr n), (''args'', JObj [])]"

definition tool_reply :: query_message where
  "tool_reply = \<lparr>qm_body = AIMessage [call_json ''c1'' ''search'', call_json ''c2'' ''publish''] None (JStr []),
     qm_kwargs = [], qm_meta = []\<rparr>"

definition calm_execution :: execution where
  "calm_execution = \<lparr>ex_order = (\<lambda>g. g), ex_runs = (\<lambda>c. BudgetRefused), ex_cut = None, ex_hook = BatchReturned None\<rparr>"

definition tool_input :: step_input where
  "tool_input = small_input\<lparr>
     si_model := \<lparr>mi_fits = Some True, mi_request_size = 1, mi_checkpoint = True, mi_call = (\<lambda>n. Answer tool_reply),
       mi_error_kind = TRANSIENT, mi_compacted = [], mi_next_index = (\<lambda>i. None)\<rparr>,
     si_batch := default_batch demo_repr (\<lambda>s. None) (\<lambda>j. None) small_params calm_execution\<rparr>"

definition tool_run :: step where
  "tool_run = query_run demo_repr demo_digest small_params None [ask] 0 None (replicate 3 tool_input)"

lemma tool_run_evaluated:
  "case tool_run of (tr, e) \<Rightarrow> tr \<noteq> [] \<and> hd tr = Saved (fresh_state small_params [ask] 0) \<and>
     (map (\<lambda>s. map_option committed_tool_call_ids (tool_batch s)) (saves (tl tr)) =
       [None, Some [], Some [''c1''], Some [''c1'', ''c2''], None] \<and> length (saves (tl tr)) = 5)"
  by code_simp

lemma calm_well_run: "well_run repr calm_execution"
  by (simp add: well_run_def calm_execution_def ran_for_def)

lemma tool_input_honest: "honest demo_repr tool_input"
  unfolding honest_def tool_input_def using default_batch_honest[OF calm_well_run] by simp

theorem query_batches_recorded_witness:
  "map (\<lambda>s. map_option committed_tool_call_ids (tool_batch s)) (saves (tl (fst tool_run))) =
     [None, Some [], Some [''c1''], Some [''c1'', ''c2''], None] \<and>
   list_all (batched demo_repr) (saves (tl (fst tool_run)))"
proof -
  let ?s0 = "fresh_state small_params [ask] 0"
  have run: "tool_run = (Saved ?s0 # tl (fst tool_run), snd tool_run)"
    and ids: "map (\<lambda>s. map_option committed_tool_call_ids (tool_batch s)) (saves (tl (fst tool_run))) =
      [None, Some [], Some [''c1''], Some [''c1'', ''c2''], None]"
    using run_evaluated[OF tool_run_evaluated] by blast+
  have ok: "batched demo_repr ?s0" by (simp add: fresh_state_def new_query_state_def)
  have honest: "list_all (honest demo_repr) (replicate 3 tool_input)"
    by (simp add: tool_input_honest numeral_3_eq_3)
  from query_batches_recorded[OF run[unfolded tool_run_def] ok honest, folded tool_run_def] ids show ?thesis by simp
qed

lemma rehydrated_keys:
  "dict_get (fold (\<lambda>m. dict_set (tool_id m) (f m)) ms d) k = None \<longleftrightarrow> k \<notin> set (map tool_id ms) \<and> dict_get d k = None"
  by (induction ms arbitrary: d) auto

lemma committed_keys:
  assumes "batch_wf repr b"
  shows "dict_get (committed_results_of loads as_error b) k = None \<longleftrightarrow> k \<notin> set (committed_tool_call_ids b)"
proof -
  from assms have "filter is_tool (bodies (committed_results b)) = bodies (committed_results b)"
    and "map tool_id (bodies (committed_results b)) = committed_tool_call_ids b"
    by (auto simp: batch_wf_def list_all_iff filter_id_conv)
  then show ?thesis by (simp add: committed_results_of_def rehydrated_keys)
qed

text \<open>A call whose tool is unknown, only reads, or is idempotent.\<close>

definition replay_safe :: "(json \<Rightarrow> string) \<Rightarrow> query_params \<Rightarrow> tool_call \<Rightarrow> bool" where
  "replay_safe repr P c \<longleftrightarrow>
     (case dict_get (qp_tools P) (py_text repr (jget_or ''name'' (JStr []) c)) of
        None \<Rightarrow> True | Some t \<Rightarrow> lt_effect t = ReadOnly \<or> lt_idempotent t)"

lemma no_unsafe_calls:
  "unsafe_calls repr P b = [] \<Longrightarrow> c \<in> set (tool_calls b) \<Longrightarrow> call_key repr c \<notin> set (committed_tool_call_ids b) \<Longrightarrow>
     replay_safe repr P c"
  by (auto simp: unsafe_calls_def replay_safe_def filter_empty_conv split: option.splits)

definition ask_first :: "query_params \<Rightarrow> loop_state \<Rightarrow> string list \<Rightarrow> trace_item list \<Rightarrow> bool" where
  "ask_first P s unsafe tr \<longleftrightarrow>
     (case tr of
        [Saved s', Yielded (StateChanged s''), Yielded (ReplayConfirmation t ids)] \<Rightarrow>
          s'' = s' \<and> ids = unsafe \<and> t = qs_turn s \<and> qs_phase s' = TERMINAL \<and>
          map_option qt_reason (terminal s') = Some HOOK_STOPPED \<and> tool_batch s' = None
      | _ \<Rightarrow> False)"

text \<open>C5. Resuming a batch: when a call without a committed result belongs to a tool that neither only reads
  nor is idempotent, nothing runs, and the loop stops and asks for confirmation of just these calls;
  otherwise the batch is announced as resumed and every call the default executor then runs is a call of
  the batch without a committed result, of a tool that is unknown, only reads, or is idempotent.\<close>

theorem resumed_batch_runs_safely:
  assumes "query_event s = None" and "qs_phase s = EXECUTING_TOOLS" and "tool_batch s = Some b"
    and "batched repr s" and "well_run repr ex" and "si_batch i = default_batch repr loads as_error P ex"
    and "query_step repr digest P i True s = (tr, e)"
  shows "if unsafe_calls repr P b \<noteq> [] then ask_first P s (unsafe_calls repr P b) tr
    else hd tr = Yielded (ToolCalls (qs_turn s) (tool_calls b) True) \<and>
      list_all (\<lambda>c. c \<in> set (tool_calls b) \<and> call_key repr c \<notin> set (committed_tool_call_ids b) \<and> replay_safe repr P c)
        (executed_calls repr P ex (committed_results_of loads as_error b) (tool_calls b))"
proof (cases "unsafe_calls repr P b = []")
  case True
  from assms(3,4) have wf: "batch_wf repr b" by (simp add: batched_def)
  have "c \<in> set (tool_calls b) \<and> call_key repr c \<notin> set (committed_tool_call_ids b) \<and> replay_safe repr P c"
    if "c \<in> set (executed_calls repr P ex (committed_results_of loads as_error b) (tool_calls b))" for c
    using executed_subset[OF assms(5) that] committed_keys[OF wf] no_unsafe_calls[OF True] by blast
  moreover have "hd tr = Yielded (ToolCalls (qs_turn s) (tool_calls b) True)"
    using assms(1-3,7) True by (auto simp: query_step_def tool_step_def yielding_def)
  ultimately show ?thesis using True by (simp add: list_all_iff)
next
  case False
  then show ?thesis using assms(1-3,7)
    by (auto simp: query_step_def tool_step_def refuse_replay_def move_def going_def advance_Inr ask_first_def
        advance_def terminal_action_def act_def split: sum.splits if_splits)
qed

definition resumable :: loop_state where
  "resumable = (fresh_state small_params [ask, tool_reply] 1)\<lparr>qs_phase := EXECUTING_TOOLS,
     tool_batch := Some \<lparr>batch_id = ''k:1:3'', tool_calls = [call_json ''c1'' ''search'', call_json ''c2'' ''publish''],
       committed_tool_call_ids = [''c1''],
       committed_results = [plain_message (ToolMessage ''c1'' (Some ''search'') (Text (JStr ''found'')))],
       result_refs = []\<rparr>\<rparr>"

definition publishing :: query_params where
  "publishing = small_params\<lparr>qp_tools := [(''publish'', \<lparr>lt_effect = ExternalWrite, lt_idempotent = False, lt_concurrency_safe = False\<rparr>)]\<rparr>"

theorem resumed_batch_runs_safely_witness:
  "unsafe_calls demo_repr publishing (the (tool_batch resumable)) = [''c2''] \<and>
   ask_first publishing resumable [''c2''] (fst (query_step demo_repr demo_digest publishing tool_input True resumable)) \<and>
   map (call_key demo_repr) (executed_calls demo_repr small_params calm_execution
     (committed_results_of (\<lambda>s. None) (\<lambda>j. None) (the (tool_batch resumable))) (tool_calls (the (tool_batch resumable)))) = [''c2'']"
proof -
  let ?b = "the (tool_batch resumable)"
  have b: "tool_batch resumable = Some ?b" "query_event resumable = None" "qs_phase resumable = EXECUTING_TOOLS"
    by (simp_all add: resumable_def fresh_state_def new_query_state_def)
  have wf: "batched demo_repr resumable"
    by code_simp
  let ?i = "tool_input\<lparr>si_batch := default_batch demo_repr (\<lambda>s. None) (\<lambda>j. None) publishing calm_execution\<rparr>"
  have ids: "unsafe_calls demo_repr publishing ?b = [''c2'']" by code_simp
  have run: "fst (query_step demo_repr demo_digest publishing tool_input True resumable) =
      fst (query_step demo_repr demo_digest publishing ?i True resumable)" by code_simp
  have left: "map (call_key demo_repr) (executed_calls demo_repr small_params calm_execution
     (committed_results_of (\<lambda>s. None) (\<lambda>j. None) ?b) (tool_calls ?b)) = [''c2'']" by code_simp
  from resumed_batch_runs_safely[OF b(2,3,1) wf calm_well_run, of ?i "\<lambda>s. None" "\<lambda>j. None" publishing demo_digest] ids run left
  show ?thesis by (cases "query_step demo_repr demo_digest publishing ?i True resumable") simp
qed

end
