(* ===== verification/Query_Transcripts.thy ===== *)
theory Query_Transcripts
  imports Query_Safety
begin

text \<open>
  The query loop and the tool protocol together: with hooks, compactor, model and tools that keep to
  their side, every state saved has a transcript the provider accepts, with an open batch at its end
  exactly while the batch runs, and a run fails only for outside reasons: never on its own transcript,
  batch or transition.
\<close>

section \<open>Transcripts of a state\<close>

definition plain_body :: "chat_message \<Rightarrow> bool" where
  "plain_body m \<longleftrightarrow> \<not> is_tool m \<and> \<not> has_calls m"

text \<open>Closed, with only plain messages among those the recovery of an output adds.\<close>

definition internal_plain :: "(json \<Rightarrow> string) \<Rightarrow> query_message list \<Rightarrow> bool" where
  "internal_plain repr ms \<longleftrightarrow> list_all (\<lambda>m. is_output_recovery_message repr m \<longrightarrow> plain_body (qm_body m)) ms"

definition tidy :: "(json \<Rightarrow> string) \<Rightarrow> query_message list \<Rightarrow> bool" where
  "tidy repr ms \<longleftrightarrow> closed_transcript repr (bodies ms) \<and> internal_plain repr ms"

text \<open>Closed but for a last message that makes the calls.\<close>

definition open_for :: "(json \<Rightarrow> string) \<Rightarrow> tool_call list \<Rightarrow> query_message list \<Rightarrow> bool" where
  "open_for repr calls ms \<longleftrightarrow>
     ms \<noteq> [] \<and> tidy repr (butlast ms) \<and> has_calls (qm_body (last ms)) \<and> ai_calls (qm_body (last ms)) = calls \<and>
     \<not> is_output_recovery_message repr (last ms) \<and>
     ids_ok (expected_ids repr (qm_body (last ms))) \<and> list_all (\<lambda>c. dict_get c ''id'' \<noteq> None) calls"

definition phase_settled ::
    "(json \<Rightarrow> string) \<Rightarrow> query_phase \<Rightarrow> query_message list \<Rightarrow> query_message pending_tool_batch option \<Rightarrow> bool" where
  "phase_settled repr p ms b \<longleftrightarrow>
     (case p of
        TERMINAL \<Rightarrow> tidy repr ms \<or> (\<exists>calls. open_for repr calls ms)
      | EXECUTING_TOOLS \<Rightarrow> (case b of None \<Rightarrow> False | Some x \<Rightarrow> open_for repr (tool_calls x) ms)
      | _ \<Rightarrow> tidy repr ms)"

definition state_ok :: "(json \<Rightarrow> string) \<Rightarrow> loop_state \<Rightarrow> bool" where
  "state_ok repr s \<longleftrightarrow> query_wf s \<and> phase_settled repr (qs_phase s) (qs_messages s) (tool_batch s)"

text \<open>The errors that come from outside.\<close>

fun external :: "query_error \<Rightarrow> bool" where
  "external HookRaised = True"
| "external CompilerRaised = True"
| "external CheckpointRaised = True"
| "external ModelCallCancelled = True"
| "external BatchCancelledError = True"
| "external BatchRaised = True"
| "external RouteOutOfRange = True"
| "external e = False"

section \<open>Building transcripts\<close>

lemma bodies_simps [simp]:
  "bodies [] = []" "bodies (m # ms) = qm_body m # bodies ms" "bodies (xs @ ys) = bodies xs @ bodies ys"
  "length (bodies ms) = length ms"
  by (simp_all add: bodies_def)

lemma plain_closed: "list_all (\<lambda>m. plain_body (qm_body m)) ms \<Longrightarrow> closed_transcript repr (bodies ms)"
  by (induction ms) (auto simp: plain_body_def intro: closed_transcript.intros)

lemma tidy_plain: "list_all (\<lambda>m. plain_body (qm_body m)) ms \<Longrightarrow> tidy repr ms"
  using plain_closed by (auto simp: tidy_def internal_plain_def list_all_iff)

lemma tidy_append: "tidy repr xs \<Longrightarrow> tidy repr ys \<Longrightarrow> tidy repr (xs @ ys)"
  by (auto simp: tidy_def internal_plain_def intro: closed_append)

lemma tidy_valid: "tidy repr ms \<Longrightarrow> validate_tool_transcript repr pending (bodies ms) = Inr ()"
  using closed_checks by (auto simp: tidy_def validate_iff)

lemma internal_plain_filter:
  "internal_plain repr ms \<Longrightarrow> \<not> plain_body (qm_body m) \<Longrightarrow> m \<in> set ms \<Longrightarrow> \<not> is_output_recovery_message repr m"
  by (auto simp: internal_plain_def list_all_iff)

lemma closed_without_plain:
  "closed_transcript repr ms \<Longrightarrow> list_all (\<lambda>(m, b). b \<longrightarrow> plain_body m) (zip ms bs) \<Longrightarrow> length bs = length ms \<Longrightarrow>
     closed_transcript repr (map fst (filter (\<lambda>(m, b). \<not> b) (zip ms bs)))"
proof (induction arbitrary: bs rule: closed_transcript.induct)
  case empty
  then show ?case by (simp add: closed_transcript.empty)
next
  case (plain m ms)
  then obtain b bs' where bs: "bs = b # bs'" by (cases bs) auto
  with plain show ?case by (auto intro: closed_transcript.plain)
next
  case (batch m results ms)
  then obtain b bs' where bs: "bs = b # bs'" by (cases bs) auto
  let ?r = "take (length results) bs'" and ?rest = "drop (length results) bs'"
  have len: "length ?r = length results" "length ?rest = length ms" using batch.prems bs by auto
  have bs': "bs' = ?r @ ?rest" by simp
  have zip: "zip (results @ ms) bs' = zip results ?r @ zip ms ?rest"
    by (subst bs', subst zip_append) (use len in auto)
  from batch.prems bs zip have nb: "\<not> b" using batch.hyps(1) by (auto simp: plain_body_def)
  have "\<not> c" if "(x, c) \<in> set (zip results ?r)" for x c
  proof -
    have "x \<in> set results" using that by (auto dest: set_zip_leftD)
    then have "is_tool x" using batch.hyps(3) by (auto simp: list_all_iff)
    moreover have "c \<longrightarrow> plain_body x" using batch.prems bs zip that by (auto simp: list_all_iff)
    ultimately show ?thesis by (auto simp: plain_body_def)
  qed
  then have "filter (\<lambda>(m, b). \<not> b) (zip results ?r) = zip results ?r" by (auto simp: filter_id_conv)
  then have "map fst (filter (\<lambda>(m, b). \<not> b) (zip (m # results @ ms) bs)) =
      m # results @ map fst (filter (\<lambda>(m, b). \<not> b) (zip ms ?rest))"
    using nb len by (simp add: bs zip)
  moreover have "closed_transcript repr (map fst (filter (\<lambda>(m, b). \<not> b) (zip ms ?rest)))"
    by (rule batch.IH) (use batch.prems bs zip len in auto)
  ultimately show ?case using batch.hyps by (simp add: closed_transcript.batch)
qed

lemma tidy_filter:
  assumes "tidy repr ms"
  shows "tidy repr (filter (\<lambda>m. \<not> is_output_recovery_message repr m) ms)"
proof -
  have z: "zip (bodies ms) (map f ms) = map (\<lambda>m. (qm_body m, f m)) ms" for f :: "query_message \<Rightarrow> bool"
    by (simp add: bodies_def zip_map_map zip_same_conv_map)
  let ?f = "is_output_recovery_message repr"
  have "closed_transcript repr (map fst (filter (\<lambda>(m, b). \<not> b) (zip (bodies ms) (map ?f ms))))"
    by (rule closed_without_plain) (use assms in \<open>auto simp: tidy_def internal_plain_def z list_all_iff\<close>)
  moreover have "map fst (filter (\<lambda>(m, b). \<not> b) (zip (bodies ms) (map ?f ms))) = bodies (filter (\<lambda>m. \<not> ?f m) ms)"
    unfolding z by (simp add: filter_map comp_def bodies_def)
  ultimately show ?thesis using assms by (auto simp: tidy_def internal_plain_def list_all_iff)
qed

lemma open_snoc:
  assumes "tidy repr ms" and "has_calls (qm_body m)" and "ids_ok (expected_ids repr (qm_body m))"
    and "list_all (\<lambda>c. dict_get c ''id'' \<noteq> None) (ai_calls (qm_body m))" and "\<not> is_output_recovery_message repr m"
  shows "open_for repr (ai_calls (qm_body m)) (ms @ [m])"
  using assms by (simp add: open_for_def)

lemma open_checks:
  assumes "has_calls m" and "ids_ok (expected_ids repr m)"
  shows "closed_transcript repr xs \<Longrightarrow> batches_ok repr True (xs @ [m]) \<and> \<not> orphan False (xs @ [m])"
proof (induction rule: closed_transcript.induct)
  case empty
  then show ?case using assms by (simp add: batch_ok_def calls_not_tool)
next
  case (batch x results ms)
  have head: "ms @ [m] = [] \<or> \<not> is_tool (hd (ms @ [m]))"
    using closed_head[OF batch.hyps(5)] calls_not_tool[OF assms(1)] by (cases ms) auto
  then have "takeWhile is_tool (ms @ [m]) = []" by (cases "ms @ [m]") auto
  then have "takeWhile is_tool (results @ ms @ [m]) = results"
    by (simp add: takeWhile_tools[OF batch.hyps(3)])
  with batch show ?case
    by (simp add: batch_ok_def batches_ok_tools calls_not_tool orphan_tools orphan_head[OF head, of True])
qed auto

lemma open_valid:
  assumes "open_for repr calls ms"
  shows "validate_tool_transcript repr True (bodies ms) = Inr ()"
proof -
  have ms: "bodies ms = bodies (butlast ms) @ [qm_body (last ms)]"
    using assms by (metis append_butlast_last_id bodies_simps(1,2,3) open_for_def)
  show ?thesis unfolding ms validate_iff
    by (rule open_checks) (use assms in \<open>auto simp: open_for_def tidy_def\<close>)
qed

lemma phase_settled_valid: "phase_settled repr p ms b \<Longrightarrow> validate_tool_transcript repr True (bodies ms) = Inr ()"
  by (auto simp: phase_settled_def tidy_valid open_valid split: query_phase.splits option.splits)

text \<open>Canonical calls open a batch.\<close>

lemma canonical_open:
  assumes "canonicalize_ai_tool_calls repr digest ctx m = (m', ds)" and "\<not> is_tool m"
  shows "\<not> is_tool m' \<and> (calls_of m' = [] \<longrightarrow> plain_body m') \<and>
    (calls_of m' \<noteq> [] \<longrightarrow> has_calls m' \<and> ai_calls m' = calls_of m' \<and> ids_ok (expected_ids repr m') \<and>
       list_all (\<lambda>c. dict_get c ''id'' \<noteq> None) (ai_calls m'))"
proof (cases m)
  case (AIMessage calls raw v)
  obtain calls' ds' where c: "canonical_calls repr digest ctx 0 calls [] = (calls', ds')" by fastforce
  show ?thesis using assms AIMessage c canonical_ids_unique[of repr digest ctx calls raw v m' ds] canonical_calls_ids[OF c]
    by (auto simp: canonicalize_ai_tool_calls_def calls_of_def is_tool_def has_calls_def plain_body_def split: if_splits)
qed (use assms in \<open>auto simp: canonicalize_ai_tool_calls_def calls_of_def is_tool_def has_calls_def plain_body_def\<close>)

text \<open>Closing the batch closes the transcript.\<close>

lemma close_tidy:
  assumes "open_for repr calls ms" and "close_tool_batch repr mt mm ds calls cands extra = Inr b"
    and "bodies results = cb_messages b" and "list_all (\<lambda>m. \<not> is_output_recovery_message repr m) results"
    and "list_all (\<lambda>m. plain_body (qm_body m)) extra_ms"
  shows "tidy repr (ms @ results @ extra_ms)"
proof -
  have ms: "ms = butlast ms @ [last ms]" using assms(1) by (simp add: open_for_def)
  note b = closed_batch_results[OF assms(2)] and ids = close_tool_batch_Inr[OF assms(2)]
  have "expected_ids repr (qm_body (last ms)) = map (call_id_of repr) calls"
    using assms(1) ids by (auto simp: open_for_def expected_ids_def list_all_iff expected_is_call_id)
  then have "closed_transcript repr (qm_body (last ms) # bodies results @ bodies extra_ms)"
    using assms b plain_closed[OF assms(5)] by (intro closed_transcript.batch) (auto simp: open_for_def)
  then have "closed_transcript repr (bodies (butlast ms) @ bodies (last ms # results @ extra_ms))"
    using assms(1) by (intro closed_append) (auto simp: open_for_def tidy_def)
  moreover have "internal_plain repr (butlast ms @ last ms # results @ extra_ms)"
    using assms by (auto simp: open_for_def tidy_def internal_plain_def list_all_iff)
  ultimately have "tidy repr ((butlast ms @ [last ms]) @ results @ extra_ms)" by (simp add: tidy_def)
  then show ?thesis using ms by simp
qed

section \<open>Inputs that keep to their side\<close>

definition fair_hook :: "(json \<Rightarrow> string) \<Rightarrow> before_result \<Rightarrow> bool" where
  "fair_hook repr r \<longleftrightarrow>
     (case br_replace r of Some ms \<Rightarrow> tidy repr ms | None \<Rightarrow> list_all (\<lambda>m. plain_body (qm_body m)) (br_messages r))"

definition fair_stop :: "stop_outcome \<Rightarrow> bool" where
  "fair_stop h \<longleftrightarrow> (case h of StopGives r \<Rightarrow> list_all (\<lambda>m. plain_body (qm_body m)) (sr_messages r) | _ \<Rightarrow> True)"

definition fair_answer :: "(json \<Rightarrow> string) \<Rightarrow> model_outcome \<Rightarrow> bool" where
  "fair_answer repr r \<longleftrightarrow>
     (case r of Answer m \<Rightarrow> \<not> is_tool (qm_body m) \<and> \<not> is_output_recovery_message repr m | _ \<Rightarrow> True)"

definition fair_model :: "(json \<Rightarrow> string) \<Rightarrow> model_input \<Rightarrow> bool" where
  "fair_model repr mi \<longleftrightarrow> tidy repr (mi_compacted mi) \<and> (\<forall>n. fair_answer repr (mi_call mi n))"

definition fair_batch :: "(json \<Rightarrow> string) \<Rightarrow> batch_input \<Rightarrow> bool" where
  "fair_batch repr bi \<longleftrightarrow>
     list_all (\<lambda>m. \<not> has_calls (qm_body m)) (result_extra bi) \<and>
     list_all (\<lambda>m. \<not> is_output_recovery_message repr m) (result_candidates bi)"

definition fair :: "(json \<Rightarrow> string) \<Rightarrow> step_input \<Rightarrow> bool" where
  "fair repr i \<longleftrightarrow> list_all (gives (fair_hook repr)) (si_before i) \<and> list_all fair_stop (si_stop i) \<and>
     fair_model repr (si_model i) \<and> (\<forall>b. fair_batch repr (si_batch i b))"

section \<open>Every step keeps the transcript\<close>

abbreviation in_order :: "(json \<Rightarrow> string) \<Rightarrow> loop_state \<Rightarrow> step \<Rightarrow> bool" where
  "in_order repr \<equiv> step_ok (\<lambda>s s'. state_ok repr s') (\<lambda>_ _. True) external (state_ok repr)"

lemma keeps_move:
  assumes "act_phase a \<in> set (legal_next (qs_phase s))" and "act_phase a = TERMINAL \<longleftrightarrow> terminal (act_changes a s) \<noteq> None"
    and "phase_settled repr (act_phase a) (qs_messages (act_changes a s)) (tool_batch (act_changes a s))"
    and "\<And>s'. advance s a = Inr s' \<Longrightarrow> state_ok repr s' \<Longrightarrow> in_order repr s' (k s')"
  shows "in_order repr s (move s a outs k)"
proof (rule step_ok_move)
  fix e assume "advance s a = Inl e"
  then show "external (IllegalAdvance e)" using assms(1,2) by (auto simp: advance_def Let_def split: if_splits)
next
  fix s' assume s': "advance s a = Inr s'"
  then have "state_ok repr s'" using assms(3) by (auto simp: advance_Inr state_ok_def)
  with assms(4)[OF s'] show "state_ok repr s' \<and> list_all (\<lambda>_. True) (outs s') \<and> in_order repr s' (k s')" by simp
qed

lemma legal_to_terminal [simp]: "TERMINAL \<in> set (legal_next p)"
  by (cases p) auto

lemma legal_stay [simp]: "p \<in> set (legal_next p)"
  by (cases p) auto

lemma keeps_terminal:
  assumes "tidy repr (if ms = [] then qs_messages s else ms) \<or> (\<exists>calls. open_for repr calls (if ms = [] then qs_messages s else ms))"
    and "\<And>s'. state_ok repr s' \<Longrightarrow> in_order repr s' (k s')"
  shows "in_order repr s (move s (terminal_action r d ms q e) outs k)"
  by (rule keeps_move) (use assms in \<open>auto simp: phase_settled_def split: if_splits\<close>)

lemma keeps_checked:
  "tidy repr ms \<Longrightarrow> in_order repr s st \<Longrightarrow> in_order repr s (checked repr p ms st)"
  by (simp add: step_ok_checked tidy_valid)

lemma alive: "state_ok repr s \<Longrightarrow> qs_phase s \<noteq> TERMINAL \<Longrightarrow> terminal s = None"
  by (simp add: state_ok_def query_wf_def)

lemma state_tidy:
  "state_ok repr s \<Longrightarrow> qs_phase s \<in> {PREPARING, CALLING_MODEL, STOP_GOVERNANCE} \<Longrightarrow> tidy repr (qs_messages s)"
  by (auto simp: state_ok_def phase_settled_def)

lemma keeps_stop_with: "tidy repr (qs_messages s) \<Longrightarrow> in_order repr s (stop_with r d resumed s)"
  unfolding stop_with_def by (rule keeps_terminal) auto

lemma before_tidy: "fair_hook repr r \<Longrightarrow> tidy repr ms \<Longrightarrow> tidy repr (before_messages r ms)"
  by (auto simp: fair_hook_def before_messages_def tidy_plain intro: tidy_append split: option.splits)

lemma keeps_prepare:
  assumes "state_ok repr s" and "qs_phase s = PREPARING" and "list_all (gives (fair_hook repr)) hooks"
  shows "in_order repr s (prepare_step repr P hooks d resumed s)"
proof -
  have "in_order repr s (before_loop hooks (begin_turn d resumed) (stop_before repr) s)"
  proof (rule step_ok_before[where I = "\<lambda>s. state_ok repr s \<and> qs_phase s = PREPARING" and Q = "fair_hook repr"])
    fix x assume "state_ok repr x \<and> qs_phase x = PREPARING"
    then show "in_order repr x (begin_turn d resumed x)"
      unfolding begin_turn_def using alive[of repr x] state_tidy[of repr x] by (intro keeps_move) (auto simp: phase_settled_def)
  next
    fix r x assume "state_ok repr x \<and> qs_phase x = PREPARING"
    then show "in_order repr x (stop_before repr r x)"
      unfolding stop_before_def using state_tidy[of repr x] by (intro keeps_checked keeps_terminal) auto
  next
    fix r x e assume "state_ok repr x \<and> qs_phase x = PREPARING" "advance x (hook_action r) = Inl e"
    then show "external (IllegalAdvance e)"
      using alive[of repr x] by (auto simp: advance_def Let_def hook_action_def split: if_splits)
  next
    fix r x x' assume x: "state_ok repr x \<and> qs_phase x = PREPARING" and r: "fair_hook repr r" and x': "advance x (hook_action r) = Inr x'"
    then show "state_ok repr x' \<and> (state_ok repr x' \<and> qs_phase x' = PREPARING) \<and> True \<and> True"
      using before_tidy[OF r state_tidy[of repr x]] by (auto simp: advance_Inr hook_action_def state_ok_def phase_settled_def)
  qed (use assms in auto)
  then show ?thesis using state_tidy[OF assms(1)] assms(2)
    by (auto simp: prepare_step_def intro!: keeps_checked keeps_terminal)
qed

lemma marker_body [simp]:
  "is_output_recovery_message repr (m\<lparr>qm_body := b\<rparr>) = is_output_recovery_message repr m"
  by (simp add: is_output_recovery_message_def)

lemma dict_get_sanitized: "dict_get (filter (\<lambda>(k, v). \<not> Q k) d) k = (if Q k then None else dict_get d k)"
  by (induction d) auto

lemma sanitized_marker:
  "is_output_recovery_message repr (sanitize_query_message m) \<Longrightarrow> is_output_recovery_message repr m"
  by (auto simp: is_output_recovery_message_def sanitize_query_message_def sanitize_message_def as_model_message_def
      Let_def jget_or_def dict_get_sanitized py_text_def split: if_splits)

lemma sanitized_body [simp]: "qm_body (sanitize_query_message m) = qm_body m"
  by (simp add: sanitize_query_message_def Let_def)

lemma sanitized_tidy:
  assumes "tidy repr ms"
  shows "tidy repr (map sanitize_query_message ms)"
proof -
  have "bodies (map sanitize_query_message ms) = bodies ms" by (simp add: bodies_def)
  moreover have "internal_plain repr (map sanitize_query_message ms)"
    using assms sanitized_marker[of repr] unfolding tidy_def internal_plain_def list_all_iff set_map ball_simps sanitized_body by blast
  ultimately show ?thesis using assms by (simp add: tidy_def)
qed

lemma keeps_model_failed:
  assumes "state_ok repr s" and "qs_phase s = CALLING_MODEL" and "fair_model repr mi"
  shows "in_order repr s (model_failed P mi timed_out resumed s)"
proof -
  note t = state_tidy[OF assms(1)] and a = alive[OF assms(1)]
  have "in_order repr s (reproject P mi resumed s)" unfolding reproject_def Let_def
    by (rule keeps_move) (use t a assms in \<open>auto simp: phase_settled_def fair_model_def\<close>)
  moreover have "in_order repr s (fall_back P mi resumed s)" unfolding fall_back_def Let_def
    by (rule keeps_move) (use t a assms in \<open>auto simp: phase_settled_def sanitized_tidy\<close>)
  ultimately show ?thesis using t assms(2) by (auto simp: model_failed_def Let_def intro!: keeps_stop_with)
qed

lemma truncated_plain: "calls_of m = [] \<Longrightarrow> \<not> is_tool m \<Longrightarrow> plain_body m"
  by (cases m) (auto simp: calls_of_def plain_body_def has_calls_def is_tool_def)

lemma set_content_kept [simp]: "is_tool (set_content v m) = is_tool m" "calls_of (set_content v m) = calls_of m"
  by (cases m; simp add: set_content_def is_tool_def calls_of_def)+

lemma consolidated:
  assumes "consolidate_output_response repr ms m rec = (ms', m')" and "fair_answer repr (Answer m)" and "tidy repr ms"
  shows "tidy repr ms' \<and> \<not> is_tool (qm_body m') \<and> \<not> is_output_recovery_message repr m'"
  using assms tidy_filter by (auto simp: consolidate_output_response_def fair_answer_def split: if_splits)

lemma keeps_accept:
  assumes "state_ok repr s" and "qs_phase s = CALLING_MODEL" and "fair_answer repr (Answer m)"
  shows "in_order repr s (accept_answer repr digest P m resumed s)"
proof -
  note t = state_tidy[OF assms(1)] and a = alive[OF assms(1)]
  obtain ms' m' where c: "consolidate_output_response repr (qs_messages s) m (output_rec s) = (ms', m')" by force
  obtain body ds where b: "canonicalize_ai_tool_calls repr digest (call_ctx P s) (qm_body m') = (body, ds)" by force
  note ok = consolidated[OF c assms(3) t] and calls = canonical_open[OF b]
  let ?final = "m'\<lparr>qm_body := body\<rparr>"
  have plain: "tidy repr (ms' @ [?final])" if "calls_of body = []"
    using ok calls that assms(2) by (auto intro!: tidy_append[OF _ tidy_plain])
  have opens: "open_for repr (calls_of body) (ms' @ [?final])" if "calls_of body \<noteq> []"
    using open_snoc[of repr ms' ?final] ok calls that assms(2) by auto
  show ?thesis unfolding accept_answer_def Let_def c b prod.case
    by (rule keeps_move) (use a assms(2) plain opens in \<open>auto simp: phase_settled_def new_batch_def\<close>)
qed

lemma keeps_answered:
  assumes "state_ok repr s" and "qs_phase s = CALLING_MODEL" and "fair_answer repr (Answer m)"
  shows "in_order repr s (answered repr digest P m resumed s)"
proof -
  note t = state_tidy[OF assms(1)] and a = alive[OF assms(1)]
  have "in_order repr s (escalate_output P resumed s)" unfolding escalate_output_def Let_def
    by (rule keeps_move) (use t a assms in \<open>auto simp: phase_settled_def\<close>)
  moreover have "in_order repr s (continue_answer repr m resumed s)" if "calls_of (qm_body m) = []"
  proof -
    have "plain_body (qm_body m)" using that assms(3) by (auto simp: fair_answer_def intro: truncated_plain)
    then have "tidy repr ([fragment_of m, resume_request])"
      by (intro tidy_plain) (simp add: fragment_of_def resume_request_def plain_body_def is_tool_def has_calls_def)
    then show ?thesis unfolding continue_answer_def
      by (intro keeps_move) (use t a assms in \<open>auto simp: phase_settled_def intro: tidy_append\<close>)
  qed
  ultimately show ?thesis using keeps_accept[OF assms] t assms(2)
    by (auto simp: answered_def truncated_answer_def intro!: keeps_stop_with)
qed

lemma transport_fair: "(\<And>n. fair_answer repr (call n)) \<Longrightarrow> fair_answer repr (snd (transport call turn n k))"
proof (induction call turn n k rule: transport.induct)
  case (2 call turn n left)
  then show ?case using 2(2)[of n] by (cases "call n") (auto simp: case_prod_beta Let_def)
qed simp

lemma keeps_model:
  assumes "state_ok repr s" and "qs_phase s = CALLING_MODEL" and "fair_model repr mi"
  shows "in_order repr s (model_step repr digest P mi resumed s)"
proof -
  note t = state_tidy[OF assms(1)]
  have "in_order repr s (after_call repr digest P mi resumed s r)" if "fair_answer repr r" for r
    by (cases r) (use that t assms in \<open>auto simp: after_call_def intro!: keeps_answered keeps_model_failed keeps_stop_with keeps_terminal\<close>)
  moreover have "fair_answer repr (snd (transport (mi_call mi) n k j))" for n k j
    using assms(3) by (intro transport_fair) (simp add: fair_model_def)
  ultimately show ?thesis unfolding model_step_def Let_def case_prod_beta
    using t assms(2) by (auto intro!: keeps_checked keeps_stop_with split: option.splits)
qed

lemma stop_messages:
  "stop_loop hooks v = Some v' \<Longrightarrow> list_all fair_stop hooks \<Longrightarrow> list_all (\<lambda>m. plain_body (qm_body m)) (sv_messages v) \<Longrightarrow>
     list_all (\<lambda>m. plain_body (qm_body m)) (sv_messages v')"
proof (induction hooks v rule: stop_loop.induct)
  case (4 r hs v)
  then show ?case by (auto simp: Let_def fair_stop_def split: if_splits)
qed auto

lemma keeps_stop:
  assumes "state_ok repr s" and "qs_phase s = STOP_GOVERNANCE" and "list_all fair_stop hooks"
  shows "in_order repr s (stop_step repr hooks resumed s)"
proof (cases "stop_loop hooks \<lparr>sv_messages = [], sv_updates = [], sv_action = StopComplete, sv_reason = ''completed''\<rparr>")
  case (Some v)
  have "tidy repr (qs_messages s @ sv_messages v)"
    using stop_messages[OF Some assms(3)] state_tidy[OF assms(1)] assms(2) by (auto intro!: tidy_append[OF _ tidy_plain])
  then show ?thesis using Some alive[OF assms(1)] assms(2) unfolding stop_step_def Let_def
    by (auto intro!: keeps_checked keeps_terminal keeps_move simp: phase_settled_def)
qed (simp add: stop_step_def)

lemma restored:
  "bodies (map (restore_meta cands) ms) = ms"
  "list_all (\<lambda>m. \<not> is_output_recovery_message repr m) cands \<Longrightarrow>
     list_all (\<lambda>m. \<not> is_output_recovery_message repr m) (map (restore_meta cands) ms)"
proof -
  have body: "qm_body (restore_meta cands m) = m" for m
    by (auto simp: restore_meta_def plain_message_def split: list.splits)
  then show "bodies (map (restore_meta cands) ms) = ms" by (simp add: bodies_def comp_def)
  have plain: "\<not> is_output_recovery_message repr (plain_message m)" for m
    by (simp add: plain_message_def is_output_recovery_message_def py_text_def jget_or_def)
  assume ok: "list_all (\<lambda>m. \<not> is_output_recovery_message repr m) cands"
  have "\<not> is_output_recovery_message repr (restore_meta cands m)" for m
  proof (cases "filter (\<lambda>c. is_tool (qm_body c) \<and> tool_id (qm_body c) = tool_id m) cands")
    case (Cons c cs)
    then have "c \<in> set cands" by (metis filter_is_subset list.set_intros(1) subsetD)
    with ok Cons plain show ?thesis by (auto simp: restore_meta_def list_all_iff split: list.splits)
  qed (simp add: restore_meta_def plain)
  then show "list_all (\<lambda>m. \<not> is_output_recovery_message repr m) (map (restore_meta cands) ms)" by (simp add: list_all_iff)
qed

definition executing :: "(json \<Rightarrow> string) \<Rightarrow> tool_call list \<Rightarrow> query_message pending_tool_batch \<Rightarrow> loop_state \<Rightarrow> bool" where
  "executing repr calls b s \<longleftrightarrow> state_ok repr s \<and> qs_phase s = EXECUTING_TOOLS \<and> tool_calls b = calls \<and>
     open_for repr calls (qs_messages s)"

lemma keeps_close:
  assumes "executing repr calls b s" and "fair_batch repr bi"
  shows "in_order repr s (close_batch repr P bi calls s)"
proof (cases "close_tool_batch repr (missing_type P bi (length calls)) (missing_text (missing_type P bi (length calls)))
    (batch_diagnostics bi) calls (bodies (result_candidates bi)) (bodies (result_extra bi))")
  case (Inl e)
  have "list_all (\<lambda>c. dict_get c ''id'' \<noteq> None) calls" using assms(1) by (simp add: executing_def open_for_def)
  with Inl show ?thesis by (auto simp: close_tool_batch_def Let_def list_all_iff list_ex_iff split: if_splits)
next
  case (Inr db)
  let ?results = "map (restore_meta (result_candidates bi)) (cb_messages db)"
    and ?extra = "filter (\<lambda>m. \<not> is_tool (qm_body m)) (result_extra bi)"
  have clean: "list_all (\<lambda>m. \<not> is_output_recovery_message repr m) ?results"
    using assms(2) by (intro restored(2)) (simp add: fair_batch_def)
  have "list_all (\<lambda>m. plain_body (qm_body m)) ?extra"
    using assms(2) by (auto simp: fair_batch_def plain_body_def list_all_iff)
  from close_tidy[OF _ Inr restored(1) clean this] have "tidy repr (qs_messages s @ ?results @ ?extra)"
    using assms(1) by (simp add: executing_def)
  moreover have "terminal s = None" "qs_phase s = EXECUTING_TOOLS"
    using alive[of repr s] assms(1) by (auto simp: executing_def)
  ultimately show ?thesis unfolding close_batch_def Inr sum.case end_batch_def Let_def
    by (auto intro!: keeps_checked keeps_terminal keeps_move simp: phase_settled_def)
qed

lemma keeps_tools:
  assumes "state_ok repr s" and "qs_phase s = EXECUTING_TOOLS" and fair: "\<And>b. fair_batch repr (batch b)"
  shows "in_order repr s (tool_step repr P batch resumed s)"
proof -
  from assms(1,2) obtain b where b: "tool_batch s = Some b" and opens: "open_for repr (tool_calls b) (qs_messages s)"
    by (auto simp: state_ok_def phase_settled_def split: option.splits)
  have "in_order repr s (commit_loop repr cs b [] (after_batch repr P (batch b) (tool_calls b)) s)" for cs
  proof (rule step_ok_commits[where I = "\<lambda>b' _. executing repr (tool_calls b) b'" and Q = "\<lambda>_ _. True"])
    fix b' "done" x assume "executing repr (tool_calls b) b' x"
    then show "in_order repr x (after_batch repr P (batch b) (tool_calls b) b' done x)"
      using fair by (auto simp: after_batch_def intro!: keeps_close)
  next
    fix b' "done" x b'' e assume "executing repr (tool_calls b) b' x" "advance x (commit_action b'') = Inl e"
    then show "external (IllegalAdvance e)"
      using alive[of repr x] by (auto simp: executing_def advance_def commit_action_def Let_def split: if_splits)
  next
    fix b' "done" x call g x'
    assume "executing repr (tool_calls b) b' x" "advance x (commit_action (commit_to repr call g b')) = Inr x'"
    then show "state_ok repr x' \<and> executing repr (tool_calls b) (commit_to repr call g b') x'"
      by (auto simp: executing_def advance_Inr commit_action_def state_ok_def phase_settled_def commit_to_def)
  qed (use assms opens in \<open>auto simp: executing_def list_all_iff\<close>)
  then show ?thesis using opens b
    by (auto simp: tool_step_def refuse_replay_def intro!: keeps_terminal)
qed

lemma keeps_query_step:
  assumes "state_ok repr s" and "fair repr i"
  shows "in_order repr s (query_step repr digest P i resumed s)"
proof (cases "query_event s")
  case (Some e)
  have "in_order repr s (move s (act (qs_phase s) r (\<lambda>s. s\<lparr>query_event := None\<rparr>)) outs k)"
    if "\<And>s'. state_ok repr s' \<Longrightarrow> in_order repr s' (k s')" for r outs k
    by (rule keeps_move) (use assms(1) that in \<open>auto simp: state_ok_def query_wf_def legal_stay\<close>)
  then show ?thesis using Some by (auto simp: query_step_def deliver_def)
next
  case None
  then show ?thesis using assms
    by (cases "qs_phase s")
      (auto simp: query_step_def completed_def fair_def state_ok_def[of _ s] query_wf_def step_ok_def[of _ _ _ _ _ "(_, Finished)"]
        intro!: keeps_prepare keeps_model keeps_stop keeps_tools split: option.splits)
qed



end
