(* ===== verification/Context_Compiler.thy ===== *)
theory Context_Compiler
  imports Query_Transcripts "HOL-Library.Sublist"
begin

text \<open>
  What a request to the model shows of the history (\<open>agents/context_compiler.py\<close>): results are trimmed,
  a history over the target is cut down to its protected beginning and the newest whole protocol blocks
  that fit, and the compaction of a history puts a note in place of what it leaves out. Counting tokens and
  the definitions of the tools come from the chat library: \<open>tokens\<close> and the text \<open>schema\<close> are arguments, as
  is \<open>dumps\<close>, the text of an error record.
\<close>

section \<open>The envelope\<close>

record envelope =
  context_window_tokens :: int
  reserved_output_tokens :: int
  system_prompt_tokens :: int
  tool_schema_tokens :: int
  safety_margin_tokens :: int

definition available_input_tokens :: "envelope \<Rightarrow> int" where
  "available_input_tokens e = max 0 (context_window_tokens e - reserved_output_tokens e - system_prompt_tokens e -
     tool_schema_tokens e - safety_margin_tokens e)"

record compilation =
  comp_messages :: "query_message list"
  comp_envelope :: envelope
  estimated_input_tokens :: int
  comp_compacted :: bool
  within_budget :: bool

section \<open>Trimming and blocks\<close>

definition trimmed_note :: string where
  "trimmed_note = [CHR 10, CHR 10] @ ''[Tool result trimmed by ContextCompiler]''"

definition result_text :: "(tool_error \<Rightarrow> string) \<Rightarrow> tool_content \<Rightarrow> string option" where
  "result_text dumps c = (case c of Text (JStr s) \<Rightarrow> Some s | Text v \<Rightarrow> None | ErrorPayload e \<Rightarrow> Some (dumps e))"

definition trim_result :: "(tool_error \<Rightarrow> string) \<Rightarrow> int \<Rightarrow> query_message \<Rightarrow> query_message" where
  "trim_result dumps cap m =
     (case qm_body m of
        ToolMessage i n c \<Rightarrow>
          (case result_text dumps c of
             None \<Rightarrow> m
           | Some s \<Rightarrow> if int (length s) \<le> cap then m
               else m\<lparr>qm_body := ToolMessage i n (Text (JStr (py_upto cap s @ trimmed_note)))\<rparr>)
      | _ \<Rightarrow> m)"

definition trim_tool_results :: "(tool_error \<Rightarrow> string) \<Rightarrow> int \<Rightarrow> query_message list \<Rightarrow> query_message list" where
  "trim_tool_results dumps cap ms = map (trim_result dumps cap) ms"

definition is_system :: "query_message \<Rightarrow> bool" where
  "is_system m = (case qm_body m of OtherMessage t v \<Rightarrow> t = ''system'' | _ \<Rightarrow> False)"

fun protected_prefix :: "query_message list \<Rightarrow> query_message list" where
  "protected_prefix [] = []"
| "protected_prefix (m # ms) =
     (if is_system m then m # protected_prefix ms else if is_tool (qm_body m) then [] else [m])"

definition answers :: "(json \<Rightarrow> string) \<Rightarrow> query_message \<Rightarrow> query_message \<Rightarrow> bool" where
  "answers repr m r \<longleftrightarrow> is_tool (qm_body r) \<and> tool_id (qm_body r) \<in> set (expected_ids repr (qm_body m))"

text \<open>Each message that makes calls with the results of these calls right after it.\<close>

function protocol_blocks :: "(json \<Rightarrow> string) \<Rightarrow> query_message list \<Rightarrow> query_message list list" where
  "protocol_blocks repr [] = []"
| "protocol_blocks repr (m # rest) =
     (if \<not> has_calls (qm_body m) then [m] # protocol_blocks repr rest
      else (m # takeWhile (answers repr m) rest) # protocol_blocks repr (dropWhile (answers repr m) rest))"
  by pat_completeness auto
termination
  by (relation "measure (\<lambda>(repr, ms). length ms)") (auto simp: le_imp_less_Suc length_dropWhile_le)

section \<open>The projection\<close>

text \<open>The blocks that hold one of the first \<open>p\<close> messages, and the others.\<close>

fun protect :: "nat \<Rightarrow> 'a list list \<Rightarrow> 'a list list \<times> 'a list list" where
  "protect p [] = ([], [])"
| "protect p (b # bs) =
     (if p = 0 then ([], b # bs) else (b # fst (protect (p - length b) bs), snd (protect (p - length b) bs)))"

text \<open>The newest blocks until \<open>keep\<close> messages are held; the blocks come newest first.\<close>

fun keep_newest :: "int \<Rightarrow> 'a list list \<Rightarrow> int \<Rightarrow> 'a list list \<Rightarrow> 'a list list" where
  "keep_newest keep [] n kept = kept"
| "keep_newest keep (b # bs) n kept =
     (let n' = n + int (length b) in if max 1 keep \<le> n' then b # kept else keep_newest keep bs n' (b # kept))"

text \<open>A block is taken when it still fits with those already taken; the blocks come newest first.\<close>

fun select_blocks :: "('a list \<Rightarrow> int) \<Rightarrow> int \<Rightarrow> 'a list list \<Rightarrow> 'a list list \<Rightarrow> 'a list list" where
  "select_blocks tokens remaining [] sel = sel"
| "select_blocks tokens remaining (b # bs) sel =
     (if remaining < tokens (concat (b # sel)) then select_blocks tokens remaining bs sel
      else select_blocks tokens remaining bs (b # sel))"

definition recent_blocks :: "int option \<Rightarrow> 'a list list \<Rightarrow> 'a list list" where
  "recent_blocks keep bs = (case keep of None \<Rightarrow> bs | Some k \<Rightarrow> keep_newest k (rev bs) 0 [])"

definition project ::
    "(query_message list \<Rightarrow> int) \<Rightarrow> (json \<Rightarrow> string) \<Rightarrow> int \<Rightarrow> int option \<Rightarrow> query_message list \<Rightarrow>
      transcript_error + query_message list" where
  "project tokens repr target keep ms =
     (if ms = [] then Inr []
      else if tokens ms \<le> target then Inr ms
      else (let (prot, others) = protect (length (protected_prefix ms)) (protocol_blocks repr ms);
                remaining = max 0 (target - tokens (concat prot));
                chosen = select_blocks tokens remaining (rev (recent_blocks keep others)) [];
                projected = concat (prot @ chosen)
            in case validate_tool_transcript repr True (bodies projected) of
                 Inl e \<Rightarrow> Inl e | Inr _ \<Rightarrow> Inr projected))"

section \<open>Compilation\<close>

definition request_envelope :: "int \<Rightarrow> int \<Rightarrow> int \<Rightarrow> string \<Rightarrow> envelope" where
  "request_envelope window reserved system_tokens schema =
     \<lparr>context_window_tokens = window, reserved_output_tokens = max 0 reserved, system_prompt_tokens = system_tokens,
      tool_schema_tokens = max 0 (int (length schema div 4)),
      safety_margin_tokens = max 2048 (floor (rat_of_int window * (5 / 100)))\<rparr>"

definition target_of :: "envelope \<Rightarrow> rat \<Rightarrow> int" where
  "target_of e ratio = max 0 (floor (rat_of_int (available_input_tokens e) * max (5 / 100) ratio))"

record compiler =
  cc_overrides :: "(string, int) dict"
  cc_unknown_default :: int
  cc_max_tool_result_chars :: int

definition compile_request ::
    "(query_message list \<Rightarrow> int) \<Rightarrow> (tool_error \<Rightarrow> string) \<Rightarrow> (json \<Rightarrow> string) \<Rightarrow> compiler \<Rightarrow> query_message option \<Rightarrow>
      string \<Rightarrow> string \<Rightarrow> int \<Rightarrow> rat \<Rightarrow> int option \<Rightarrow> query_message list \<Rightarrow> transcript_error + compilation" where
  "compile_request tokens dumps repr cc system schema model reserved ratio keep ms =
     (let normalized = trim_tool_results dumps (cc_max_tool_result_chars cc) ms
      in case validate_tool_transcript repr True (bodies normalized) of
           Inl e \<Rightarrow> Inl e
         | Inr _ \<Rightarrow>
             (let envelope = request_envelope
                    (resolve_model_context_window model (cc_overrides cc) (cc_unknown_default cc)) reserved
                    (case system of None \<Rightarrow> 0 | Some s \<Rightarrow> tokens [s]) schema
              in case project tokens repr (target_of envelope ratio) keep normalized of
                   Inl e \<Rightarrow> Inl e
                 | Inr projected \<Rightarrow>
                     (case validate_tool_transcript repr True (bodies projected) of
                        Inl e \<Rightarrow> Inl e
                      | Inr _ \<Rightarrow>
                          (let request = (case system of None \<Rightarrow> projected | Some s \<Rightarrow> s # projected)
                           in Inr \<lparr>comp_messages = request, comp_envelope = envelope,
                                estimated_input_tokens = tokens request,
                                comp_compacted = (length projected < length normalized),
                                within_budget = (tokens request + tool_schema_tokens envelope +
                                  reserved_output_tokens envelope + safety_margin_tokens envelope
                                  \<le> context_window_tokens envelope)\<rparr>))))"

definition omitted_note :: "nat \<Rightarrow> query_message" where
  "omitted_note n = \<lparr>qm_body = OtherMessage ''system'' (JStr (''[Deterministic context recovery]'' @ [CHR 10] @ decimal n @
     '' older messages were omitted. The authoritative research brief and recent complete tool interactions are retained.'')),
     qm_kwargs = [], qm_meta = []\<rparr>"

definition deterministic_compact ::
    "(query_message list \<Rightarrow> int) \<Rightarrow> (json \<Rightarrow> string) \<Rightarrow> int \<Rightarrow> query_message list \<Rightarrow> transcript_error + query_message list" where
  "deterministic_compact tokens repr target ms =
     (if ms = [] then Inr []
      else (let prot = protected_prefix ms
            in case project tokens repr (max 1 (target div 2)) None (drop (length prot) ms) of
                 Inl e \<Rightarrow> Inl e
               | Inr recent \<Rightarrow>
                   (let compacted = prot @ [omitted_note (length ms - length prot - length recent)] @ recent
                    in case validate_tool_transcript repr True (bodies compacted) of
                         Inl e \<Rightarrow> Inl e | Inr _ \<Rightarrow> Inr compacted)))"

text \<open>The compactor of the query loop: half of what the failed request had available.\<close>

definition fallback_compact ::
    "(query_message list \<Rightarrow> int) \<Rightarrow> (json \<Rightarrow> string) \<Rightarrow> envelope \<Rightarrow> query_message list \<Rightarrow> transcript_error + query_message list" where
  "fallback_compact tokens repr e ms =
     deterministic_compact tokens repr (max 1 (floor (rat_of_int (available_input_tokens e) * (1 / 2)))) ms"

section \<open>Blocks\<close>

lemma concat_blocks: "concat (protocol_blocks repr ms) = ms"
  by (induction repr ms rule: protocol_blocks.induct) auto

text \<open>The blocks of a closed transcript are closed transcripts.\<close>

lemma answered_results:
  assumes "closed_transcript repr (qm_body m # bodies rest)" and "has_calls (qm_body m)"
  shows "closed_transcript repr (bodies (m # takeWhile (answers repr m) rest)) \<and>
    closed_transcript repr (bodies (dropWhile (answers repr m) rest))"
proof -
  from closed_ConsE[OF assms(1)] assms(2) obtain results ms' where b: "bodies rest = results @ ms'"
    and ids: "ids_ok (expected_ids repr (qm_body m))" and tools: "list_all is_tool results"
    and same: "map tool_id results = expected_ids repr (qm_body m)" and rest: "closed_transcript repr ms'" by metis
  let ?r = "take (length results) rest" and ?d = "drop (length results) rest"
  have r: "bodies ?r = results" "bodies ?d = ms'" using b by (simp_all add: bodies_def take_map[symmetric] drop_map[symmetric])
  have all: "list_all (answers repr m) ?r"
  proof -
    have "tool_id (qm_body x) \<in> set (expected_ids repr (qm_body m)) \<and> is_tool (qm_body x)" if "x \<in> set ?r" for x
    proof -
      have "qm_body x \<in> set results" using that r(1) by (metis bodies_def image_eqI list.set_map)
      then show ?thesis using same tools by (metis image_eqI list.set_map list_all_iff)
    qed
    then show ?thesis by (simp add: answers_def list_all_iff)
  qed
  have "?d = [] \<or> \<not> answers repr m (hd ?d)"
    using closed_head[OF rest] r(2) by (cases ?d) (auto simp: answers_def)
  then have "takeWhile (answers repr m) ?d = []" "dropWhile (answers repr m) ?d = ?d" by (cases ?d; simp)+
  moreover have "takeWhile (answers repr m) (?r @ ?d) = ?r @ takeWhile (answers repr m) ?d"
    "dropWhile (answers repr m) (?r @ ?d) = dropWhile (answers repr m) ?d"
    using all takeWhile_append2[of ?r "answers repr m" ?d] dropWhile_append2[of ?r "answers repr m" ?d]
    unfolding list_all_iff by blast+
  ultimately have "takeWhile (answers repr m) rest = ?r" "dropWhile (answers repr m) rest = ?d" by simp_all
  moreover have "closed_transcript repr (qm_body m # results @ [])"
    using assms(2) ids tools same by (intro closed_transcript.batch closed_transcript.empty)
  ultimately show ?thesis using r rest by simp
qed

lemma closed_blocks:
  "closed_transcript repr (bodies ms) \<Longrightarrow> list_all (\<lambda>b. closed_transcript repr (bodies b)) (protocol_blocks repr ms)"
proof (induction repr ms rule: protocol_blocks.induct)
  case (2 repr m rest)
  show ?case
  proof (cases "has_calls (qm_body m)")
    case True
    with answered_results[of repr m rest] 2 show ?thesis by simp
  next
    case False
    with 2 closed_ConsE[of repr "qm_body m" "bodies rest"] have "closed_transcript repr (bodies rest)" "\<not> is_tool (qm_body m)" by auto
    with False 2 show ?thesis by (auto intro: closed_transcript.intros)
  qed
qed simp

lemma closed_concat: "list_all (\<lambda>b. closed_transcript repr (bodies b)) bs \<Longrightarrow> closed_transcript repr (bodies (concat bs))"
  by (induction bs) (auto intro: closed_append closed_transcript.empty)

lemma protect_split: "fst (protect p bs) @ snd (protect p bs) = bs"
  by (induction p bs rule: protect.induct) auto

lemma protect_covers: "p \<le> length (concat bs) \<Longrightarrow> p \<le> length (concat (fst (protect p bs)))"
proof (induction p bs rule: protect.induct)
  case (2 p b bs)
  then have "p - length b \<le> length (concat (fst (protect (p - length b) bs)))" if "p \<noteq> 0" using that by auto
  then show ?case by auto
qed simp

lemma keep_newest_split: "\<exists>xs. keep_newest k bs n kept = xs @ kept \<and> subseq xs (rev bs)"
proof (induction k bs n kept rule: keep_newest.induct)
  case (2 k b bs n kept)
  show ?case
  proof (cases "max 1 k \<le> n + int (length b)")
    case True
    then have "keep_newest k (b # bs) n kept = [b] @ kept \<and> subseq [b] (rev bs @ [b])"
      by (simp add: Let_def list_emb_append2)
    then show ?thesis by (metis rev.simps(2))
  next
    case False
    with 2[OF refl] obtain xs where "keep_newest k (b # bs) n kept = (xs @ [b]) @ kept" "subseq xs (rev bs)" by (auto simp: Let_def)
    moreover have "subseq (xs @ [b]) (rev bs @ [b])" using \<open>subseq xs (rev bs)\<close> by simp
    ultimately show ?thesis by (metis rev.simps(2))
  qed
qed simp

lemma recent_subseq: "subseq (recent_blocks keep bs) bs"
proof (cases keep)
  case (Some k)
  from keep_newest_split[of k "rev bs" 0 "[]"] show ?thesis by (auto simp: recent_blocks_def Some)
qed (simp add: recent_blocks_def)

lemma select_split:
  "\<exists>xs. select_blocks tokens r bs sel = xs @ sel \<and> subseq xs (rev bs) \<and>
     (tokens (concat sel) \<le> r \<longrightarrow> tokens (concat (xs @ sel)) \<le> r)"
proof (induction tokens r bs sel rule: select_blocks.induct)
  case (2 tokens r b bs sel)
  show ?case
  proof (cases "r < tokens (concat (b # sel))")
    case True
    from 2(1)[OF True] obtain xs where "select_blocks tokens r bs sel = xs @ sel" "subseq xs (rev bs)"
      "tokens (concat sel) \<le> r \<longrightarrow> tokens (concat (xs @ sel)) \<le> r" by blast
    with True show ?thesis by (intro exI[of _ xs]) (auto intro: subseq_rev_drop_many list_emb_prefix)
  next
    case False
    from 2(2)[OF False] obtain xs where xs: "select_blocks tokens r bs (b # sel) = xs @ b # sel" "subseq xs (rev bs)"
      "tokens (concat (b # sel)) \<le> r \<longrightarrow> tokens (concat (xs @ b # sel)) \<le> r" by blast
    with False show ?thesis by (intro exI[of _ "xs @ [b]"]) auto
  qed
qed simp

lemma subseq_members: "subseq xs ys \<Longrightarrow> set xs \<subseteq> set ys"
  by (induction rule: list_emb.induct) auto

lemma subseq_concat: "subseq xs ys \<Longrightarrow> subseq (concat xs) (concat ys)"
  by (induction rule: list_emb.induct) (auto intro: list_emb_append_mono list_emb_append2)

section \<open>The projection keeps the protocol\<close>

lemma protected_take: "protected_prefix ms = take (length (protected_prefix ms)) ms"
  by (induction ms rule: protected_prefix.induct) auto

lemma protected_le: "length (protected_prefix ms) \<le> length ms"
  by (induction ms rule: protected_prefix.induct) auto

lemma internal_plain_subset: "internal_plain repr ms \<Longrightarrow> set xs \<subseteq> set ms \<Longrightarrow> internal_plain repr xs"
  by (auto simp: internal_plain_def list_all_iff)

lemma closed_some_blocks:
  "list_all (\<lambda>b. closed_transcript repr (bodies b)) bs \<Longrightarrow> set cs \<subseteq> set bs \<Longrightarrow> closed_transcript repr (bodies (concat cs))"
  by (rule closed_concat) (auto simp: list_all_iff)

definition protected_part :: "(json \<Rightarrow> string) \<Rightarrow> query_message list \<Rightarrow> query_message list" where
  "protected_part repr ms = concat (fst (protect (length (protected_prefix ms)) (protocol_blocks repr ms)))"

lemma projection:
  assumes "tidy repr ms" and "tokens [] = (0::int)"
  shows "\<exists>ms'. project tokens repr target keep ms = Inr ms' \<and> tidy repr ms' \<and> subseq ms' ms \<and>
    take (length (protected_prefix ms)) ms' = protected_prefix ms \<and>
    (ms' = ms \<and> tokens ms \<le> target \<or>
     (\<exists>S. ms' = protected_part repr ms @ S \<and> tokens S \<le> max 0 (target - tokens (protected_part repr ms))))"
proof (cases "ms = [] \<or> tokens ms \<le> target")
  case True
  then show ?thesis using assms protected_take[of ms]
    by (intro exI[of _ ms]) (auto simp: project_def protected_part_def)
next
  case False
  let ?p = "length (protected_prefix ms)" and ?bs = "protocol_blocks repr ms"
  obtain prot others where split: "protect ?p ?bs = (prot, others)" by force
  let ?rem = "max 0 (target - tokens (concat prot))"
  let ?chosen = "select_blocks tokens ?rem (rev (recent_blocks keep others)) []"
  have bs: "prot @ others = ?bs" using protect_split[of ?p ?bs] split by simp
  from select_split[of tokens ?rem "rev (recent_blocks keep others)" "[]"]
  have ch: "subseq ?chosen (recent_blocks keep others)" "tokens (concat ?chosen) \<le> ?rem" using assms(2) by auto
  then have "subseq ?chosen others" using recent_subseq subseq_order.trans by blast
  then have sub: "subseq (prot @ ?chosen) ?bs" by (simp add: bs[symmetric] subseq_append')
  from subseq_concat[OF this] have order: "subseq (concat (prot @ ?chosen)) ms" by (simp only: concat_blocks)
  have members: "set (prot @ ?chosen) \<subseteq> set ?bs" using sub by (rule subseq_members)
  have "set (concat (prot @ ?chosen)) \<subseteq> set ms" using order by (rule subseq_members)
  then have t: "tidy repr (concat (prot @ ?chosen))"
    using closed_some_blocks[OF closed_blocks members] assms(1) internal_plain_subset unfolding tidy_def by blast
  have "?p \<le> length (concat prot)"
    using protect_covers[of ?p ?bs] protected_le[of ms] split by (simp add: concat_blocks)
  moreover have "concat prot @ concat others = ms" using bs concat_blocks[of repr ms] by (metis concat_append)
  moreover have "take ?p (concat prot @ concat others) = take ?p (concat prot)" using \<open>?p \<le> length (concat prot)\<close> by simp
  ultimately have "take ?p (concat prot) = protected_prefix ms" using protected_take[of ms] by simp
  with \<open>?p \<le> length (concat prot)\<close> have keep: "take ?p (concat (prot @ ?chosen)) = protected_prefix ms" by simp
  have "project tokens repr target keep ms = Inr (concat (prot @ ?chosen))"
    using False tidy_valid[OF t, of True] by (simp add: project_def split Let_def)
  moreover have "protected_part repr ms = concat prot" by (simp add: protected_part_def split)
  ultimately show ?thesis using t order keep ch(2) by (intro exI[of _ "concat (prot @ ?chosen)"]) auto
qed

section \<open>Requests\<close>

lemma closed_map:
  assumes "\<And>m. is_tool (f m) = is_tool m" and "\<And>m. is_tool m \<Longrightarrow> tool_id (f m) = tool_id m" and "\<And>m. \<not> is_tool m \<Longrightarrow> f m = m"
  shows "closed_transcript repr ms \<Longrightarrow> closed_transcript repr (map f ms)"
proof (induction rule: closed_transcript.induct)
  case (plain m ms)
  then show ?case using assms by (auto intro: closed_transcript.intros)
next
  case (batch m results ms)
  have "f m = m" using assms(3) calls_not_tool[OF batch.hyps(1)] by blast
  moreover have "list_all is_tool (map f results)" using batch.hyps(3) assms(1) by (simp add: list_all_iff)
  moreover have "map tool_id (map f results) = expected_ids repr m"
    using batch.hyps(3) assms(2) by (simp add: list_all_iff batch.hyps(4)[symmetric])
  ultimately show ?case using batch by (simp add: closed_transcript.batch)
qed (simp add: closed_transcript.empty)

definition trim_body :: "(tool_error \<Rightarrow> string) \<Rightarrow> int \<Rightarrow> chat_message \<Rightarrow> chat_message" where
  "trim_body dumps cap b = qm_body (trim_result dumps cap \<lparr>qm_body = b, qm_kwargs = [], qm_meta = []\<rparr>)"

lemma trim_result_body:
  "qm_body (trim_result dumps cap m) = trim_body dumps cap (qm_body m)"
  "is_output_recovery_message repr (trim_result dumps cap m) = is_output_recovery_message repr m"
  by (auto simp: trim_result_def trim_body_def split: chat_message.splits option.splits)

lemma trim_body_kept:
  "is_tool (trim_body dumps cap b) = is_tool b" "is_tool b \<Longrightarrow> tool_id (trim_body dumps cap b) = tool_id b"
  "\<not> is_tool b \<Longrightarrow> trim_body dumps cap b = b"
  by (cases b; auto simp: trim_result_def trim_body_def is_tool_def split: option.splits)+

lemma trim_tidy: "tidy repr ms \<Longrightarrow> tidy repr (trim_tool_results dumps cap ms)"
proof -
  assume t: "tidy repr ms"
  have "bodies (trim_tool_results dumps cap ms) = map (trim_body dumps cap) (bodies ms)"
    by (simp add: bodies_def trim_tool_results_def trim_result_body(1))
  then have "closed_transcript repr (bodies (trim_tool_results dumps cap ms))"
    using t closed_map[of "trim_body dumps cap", OF trim_body_kept] by (simp add: tidy_def)
  moreover have "plain_body b \<Longrightarrow> plain_body (trim_body dumps cap b)" for b
    using trim_body_kept(3)[of b] by (simp add: plain_body_def)
  ultimately show ?thesis
    using t by (auto simp: tidy_def internal_plain_def trim_tool_results_def list_all_iff trim_result_body)
qed


section \<open>Compaction\<close>

lemma system_plain: "is_system m \<Longrightarrow> plain_body (qm_body m)"
  by (cases "qm_body m") (auto simp: is_system_def plain_body_def is_tool_def has_calls_def)

lemma protected_plain:
  "list_all (\<lambda>m. \<not> has_calls (qm_body m)) (protected_prefix ms) \<Longrightarrow> list_all (\<lambda>m. plain_body (qm_body m)) (protected_prefix ms)"
proof (induction ms rule: protected_prefix.induct)
  case (2 m ms)
  then show ?case using system_plain[of m] by (cases "is_system m") (auto simp: plain_body_def)
qed simp

lemma closed_after_plain:
  "closed_transcript repr (bodies (xs @ ys)) \<Longrightarrow> list_all (\<lambda>m. plain_body (qm_body m)) xs \<Longrightarrow> closed_transcript repr (bodies ys)"
  by (induction xs) (auto simp: plain_body_def elim: closed_ConsE)

text \<open>C8. Compaction: a history in order whose protected beginning makes no tool calls is compacted without
  error to the protected beginning, a note that counts the messages left out, and whole newer blocks in
  their order; the result is in order again, as the query loop needs it.\<close>

theorem compaction_keeps_order:
  assumes "tidy repr ms" and "tokens [] = 0" and "ms \<noteq> []"
    and "list_all (\<lambda>m. \<not> has_calls (qm_body m)) (protected_prefix ms)"
  shows "\<exists>recent. deterministic_compact tokens repr target ms =
      Inr (protected_prefix ms @ [omitted_note (length ms - length (protected_prefix ms) - length recent)] @ recent) \<and>
    tidy repr (protected_prefix ms @ [omitted_note (length ms - length (protected_prefix ms) - length recent)] @ recent) \<and>
    subseq recent (drop (length (protected_prefix ms)) ms)"
proof -
  let ?prot = "protected_prefix ms" and ?rest = "drop (length (protected_prefix ms)) ms"
  have ms: "ms = ?prot @ ?rest" using protected_take[of ms] by (metis append_take_drop_id)
  have plain: "list_all (\<lambda>m. plain_body (qm_body m)) ?prot" by (rule protected_plain[OF assms(4)])
  have "closed_transcript repr (bodies ?rest)"
    using closed_after_plain[OF _ plain, of repr ?rest] assms(1) ms by (simp add: tidy_def)
  moreover have "internal_plain repr ?rest"
    using assms(1) internal_plain_subset[OF _ set_drop_subset] by (simp add: tidy_def)
  ultimately have "tidy repr ?rest" by (simp add: tidy_def)
  from projection[where tokens = tokens and target = "max 1 (target div 2)" and keep = None, OF this assms(2)] obtain recent where
    p: "project tokens repr (max 1 (target div 2)) None ?rest = Inr recent" and ok: "tidy repr recent" "subseq recent ?rest"
    by blast
  let ?note = "omitted_note (length ms - length ?prot - length recent)"
  have "tidy repr [?note]" by (rule tidy_plain) (simp add: omitted_note_def plain_body_def is_tool_def has_calls_def)
  then have t: "tidy repr (?prot @ [?note] @ recent)" using tidy_plain[OF plain] ok(1) by (intro tidy_append)
  then have "deterministic_compact tokens repr target ms = Inr (?prot @ [?note] @ recent)"
    using assms(3) p tidy_valid[OF t, of True] by (simp add: deterministic_compact_def Let_def)
  with t ok(2) show ?thesis by blast
qed

text \<open>A history that begins with tool calls is cut between the calls and their results, and the fail-safe raises.\<close>

lemma compact_breaks_leading_batch:
  "closed_transcript demo_repr (bodies ms) \<and> deterministic_compact (\<lambda>ms. int (length ms)) demo_repr 100 ms = Inl ToolBatchNotClosed"
  if "ms = [\<lparr>qm_body = AIMessage [call_json ''c1'' ''search''] None (JStr []), qm_kwargs = [], qm_meta = []\<rparr>,
      plain_message (ToolMessage ''c1'' None (Text (JStr ''found'')))]" for ms
proof -
  have "validate_tool_transcript demo_repr False (bodies ms) = Inr ()" unfolding that by code_simp
  then have "closed_transcript demo_repr (bodies ms)" by (simp add: validate_iff checks_closed)
  moreover have "deterministic_compact (\<lambda>ms. int (length ms)) demo_repr 100 ms = Inl ToolBatchNotClosed" unfolding that by code_simp
  ultimately show ?thesis ..
qed

section \<open>Witnesses\<close>

definition long_history :: "query_message list" where
  "long_history = ask # concat (replicate 3
     [\<lparr>qm_body = AIMessage [call_json ''c1'' ''search''] None (JStr []), qm_kwargs = [], qm_meta = []\<rparr>,
      plain_message (ToolMessage ''c1'' None (Text (JStr ''found'')))])"

definition message_tokens :: "query_message list \<Rightarrow> int" where
  "message_tokens ms = 10 * int (length ms)"

lemma long_history_tidy: "tidy demo_repr long_history"
proof -
  have "validate_tool_transcript demo_repr False (bodies long_history) = Inr ()" by code_simp
  then have "closed_transcript demo_repr (bodies long_history)" by (simp add: validate_iff checks_closed)
  moreover have "internal_plain demo_repr long_history" unfolding internal_plain_def by code_simp
  ultimately show ?thesis by (simp add: tidy_def)
qed

definition small_compiler :: compiler where
  "small_compiler = \<lparr>cc_overrides = [(''m'', 2100)], cc_unknown_default = 100, cc_max_tool_result_chars = 3\<rparr>"


theorem compaction_keeps_order_witness:
  "\<exists>ms'. deterministic_compact message_tokens demo_repr 80 long_history = Inr ms' \<and> tidy demo_repr ms' \<and> length ms' = 6"
proof -
  have n: "(case deterministic_compact message_tokens demo_repr 80 long_history of Inr ms' \<Rightarrow> length ms' = 6 | Inl e \<Rightarrow> False)"
    by code_simp
  have plain: "list_all (\<lambda>m. \<not> has_calls (qm_body m)) (protected_prefix long_history)" by code_simp
  have ne: "long_history \<noteq> []" by (simp add: long_history_def)
  from compaction_keeps_order[OF long_history_tidy _ ne plain, of message_tokens 80] n show ?thesis
    by (auto simp: message_tokens_def)
qed

end
