(* ===== verification/Query_Termination.thy ===== *)
theory Query_Termination
  imports Query_Safety
begin

text \<open>
  The query loop stops. With a turn limit, no turn that counts for nothing, and a router that never goes
  back to an earlier candidate, every iteration lowers a measure: turns left, then the phase, and while
  the model is called the candidates, continuations, escalation and context retries left. The router is
  an interface, provided by the circuit registry.
\<close>

section \<open>The router of candidates\<close>

locale candidate_router =
  fixes pick :: "int \<Rightarrow> nat option" and count :: nat
  assumes forward: "i < int count \<Longrightarrow> pick i = Some j \<Longrightarrow> i \<le> int j \<and> j < count"
begin

text \<open>Starting behind a candidate, the router makes progress and stays in range.\<close>

lemma beyond: "i + 1 < int count \<Longrightarrow> pick (i + 1) = Some j \<Longrightarrow> i < int j \<and> int j < int count"
  using forward[of "i + 1" j] by simp

lemma fewer_left: "i + 1 < int count \<Longrightarrow> pick (i + 1) = Some j \<Longrightarrow> nat (int count - 1 - int j) < nat (int count - 1 - i)"
  using beyond[of i j] by simp

end

text \<open>The registry chooses among the candidates from the start index on.\<close>

lemma select_in_candidates:
  assumes "select_candidate_index fp clk ids pol start force reg = (Inr (i, tr), reg')"
  shows "\<exists>m. (i, m) \<in> set (candidates ids start)"
proof -
  have ne: "ids \<noteq> []" using assms by (auto simp: select_candidate_index_def)
  obtain res reg1 where scan: "select_scan fp clk pol (candidates ids start) [] reg = (res, reg1)" by force
  note spec = select_scan_spec[OF scan]
  show ?thesis
  proof (cases res)
    case (Inl j)
    with assms scan ne have "j = i" by (auto simp: select_candidate_index_def candidates_def Let_def)
    with spec Inl show ?thesis by auto
  next
    case (Inr new)
    with spec have l2: "list_all2 (snap_of fp pol reg) (candidates ids start) new" by auto
    let ?opens = "filter (\<lambda>x. snap_state (snd (snd x)) = OPEN) new"
    have "i = select_start start (length ids) \<or>
        (\<exists>x xs. ?opens = x # xs \<and> i = fst (min_by (\<lambda>y. opened_key (snap_opened_at (snd (snd y)))) x xs))"
      using assms scan ne Inr
      by (auto simp: select_candidate_index_def candidates_def[symmetric] Let_def case_prod_beta
          split: if_splits list.splits option.splits)
    then show ?thesis
    proof (elim disjE exE conjE)
      fix x xs
      assume o: "?opens = x # xs" and i: "i = fst (min_by (\<lambda>y. opened_key (snap_opened_at (snd (snd y)))) x xs)"
      let ?best = "min_by (\<lambda>y. opened_key (snap_opened_at (snd (snd y)))) x xs"
      have "?best \<in> set ?opens" using min_by_in[of _ x xs] o by (metis list.simps(15))
      then show ?thesis using list_all2_snap_pick[OF l2, of ?best] i by auto
    qed (use start_in_candidates[OF ne, of start] in blast)
  qed
qed

lemma candidates_from: "(i, m) \<in> set (candidates ids start) \<Longrightarrow> select_start start (length ids) \<le> i"
  unfolding candidates_def by (auto simp: in_set_conv_nth nth_enumerate_eq)

definition registry_choice ::
    "(circuit_policy \<Rightarrow> string) \<Rightarrow> (nat \<Rightarrow> seconds) \<Rightarrow> string list \<Rightarrow> circuit_policy \<Rightarrow> bool \<Rightarrow> circuit_registry \<Rightarrow> int \<Rightarrow>
      nat option" where
  "registry_choice fp clk ids pol force reg start =
     (case fst (select_candidate_index fp clk ids pol start force reg) of Inl e \<Rightarrow> None | Inr (i, tr) \<Rightarrow> Some i)"

interpretation registry: candidate_router "registry_choice fp clk ids pol force reg" "length ids"
  for fp clk ids pol force reg
proof
  fix start j
  assume start: "start < int (length ids)" and "registry_choice fp clk ids pol force reg start = Some j"
  then obtain tr where "fst (select_candidate_index fp clk ids pol start force reg) = Inr (j, tr)"
    by (auto simp: registry_choice_def split: sum.splits)
  then obtain reg' where "select_candidate_index fp clk ids pol start force reg = (Inr (j, tr), reg')"
    by (metis prod.collapse)
  from select_in_candidates[OF this] obtain m where m: "(j, m) \<in> set (candidates ids start)" by blast
  then show "start \<le> int j \<and> j < length ids"
    using candidates_from[OF m] candidates_nth[OF m] start by (auto simp: select_start_def)
qed

section \<open>The measure\<close>

definition counters_ok :: "query_params \<Rightarrow> loop_state \<Rightarrow> bool" where
  "counters_ok P s \<longleftrightarrow> 0 \<le> active_candidate_index s \<and> active_candidate_index s < int (length (qp_candidates P)) \<and>
     0 \<le> continuation_count (output_rec s) \<and> 0 \<le> cr_attempts (context_rec s)"

definition tries :: "query_params \<Rightarrow> loop_state \<Rightarrow> nat" where
  "tries P s =
     nat (int (length (qp_candidates P)) - 1 - active_candidate_index s) * (nat (qp_continuations P) + 2) +
     nat (qp_continuations P - continuation_count (output_rec s)) +
     (if escalation_attempted (output_rec s) then 0 else 1) +
     nat (context_limit P - cr_attempts (context_rec s))"

definition most_tries :: "query_params \<Rightarrow> nat" where
  "most_tries P = length (qp_candidates P) * (nat (qp_continuations P) + 2) + nat (context_limit P)"

definition phase_rank :: "query_params \<Rightarrow> loop_state \<Rightarrow> nat" where
  "phase_rank P s =
     (case qs_phase s of TERMINAL \<Rightarrow> 0 | PREPARING \<Rightarrow> 1 | STOP_GOVERNANCE \<Rightarrow> 2 | EXECUTING_TOOLS \<Rightarrow> 2
      | CALLING_MODEL \<Rightarrow> 3 + tries P s)"

definition turns_left :: "query_params \<Rightarrow> loop_state \<Rightarrow> nat" where
  "turns_left P s = (case qp_max_turns P of None \<Rightarrow> 0 | Some m \<Rightarrow> nat (m - qs_turn s))"

definition steps_left :: "query_params \<Rightarrow> loop_state \<Rightarrow> nat" where
  "steps_left P s = 2 * (turns_left P s * (most_tries P + 5) + phase_rank P s) +
     (if query_event s = None then 0 else 1)"

text \<open>Inputs for which turns count and the router is one.\<close>

definition steady :: "query_params \<Rightarrow> step_input \<Rightarrow> bool" where
  "steady P i \<longleftrightarrow> (case si_delta i of None \<Rightarrow> True | Some n \<Rightarrow> 1 \<le> n) \<and>
     candidate_router (mi_next_index (si_model i)) (length (qp_candidates P))"

lemma tries_most: "counters_ok P s \<Longrightarrow> tries P s \<le> most_tries P"
proof -
  assume c: "counters_ok P s"
  let ?L = "nat (qp_continuations P)" and ?N = "length (qp_candidates P)"
  have "nat (int ?N - 1 - active_candidate_index s) \<le> ?N - 1" "0 < ?N" using c by (auto simp: counters_ok_def)
  then have "nat (int ?N - 1 - active_candidate_index s) * (?L + 2) \<le> (?N - 1) * (?L + 2)"
    by (intro mult_le_mono1)
  moreover have "(?N - 1) * (?L + 2) + (?L + 2) = ?N * (?L + 2)" using \<open>0 < ?N\<close>
    by (metis add.commute mult_Suc Suc_diff_1)
  moreover have "nat (qp_continuations P - continuation_count (output_rec s)) \<le> ?L"
    "nat (context_limit P - cr_attempts (context_rec s)) \<le> nat (context_limit P)" using c by (auto simp: counters_ok_def)
  ultimately show ?thesis unfolding tries_def most_tries_def by (auto split: if_splits)
qed

abbreviation lowers :: "query_params \<Rightarrow> nat \<Rightarrow> loop_state \<Rightarrow> step \<Rightarrow> bool" where
  "lowers P n \<equiv> step_ok (\<lambda>_ _. True) (\<lambda>_ _. True) (\<lambda>_. True) (\<lambda>s'. counters_ok P s' \<and> steps_left P s' < n)"

lemma turns_same: "qs_turn s' = qs_turn s \<Longrightarrow> turns_left P s' = turns_left P s"
  by (cases "qp_max_turns P") (simp_all add: turns_left_def)

lemma steps_left_free [simp]:
  "steps_left P (s\<lparr>transition_reason := t\<rparr>) = steps_left P s" "steps_left P (s\<lparr>revision := r\<rparr>) = steps_left P s"
  using turns_same[of "s\<lparr>transition_reason := t\<rparr>" s P] turns_same[of "s\<lparr>revision := r\<rparr>" s P]
  by (cases "qs_phase s"; simp add: steps_left_def phase_rank_def tries_def)+

lemma lowers_going:
  assumes "counters_ok P (act_changes a s)"
    and "steps_left P ((act_changes a s)\<lparr>qs_phase := act_phase a\<rparr>) < n"
  shows "lowers P n s (move s a outs (going r))"
proof (rule step_ok_move)
  fix s' assume "advance s a = Inr s'"
  then show "True \<and> list_all (\<lambda>_. True) (outs s') \<and> lowers P n s' (going r s')"
    using assms by (auto simp: advance_Inr counters_ok_def)
qed simp

lemma lowers_move:
  assumes "\<And>s'. advance s a = Inr s' \<Longrightarrow> lowers P n s' (k s')"
  shows "lowers P n s (move s a outs k)"
  by (rule step_ok_move) (use assms in auto)

lemma lowers_checked: "lowers P n s st \<Longrightarrow> lowers P n s (checked repr p ms st)"
  by (simp add: step_ok_checked split: sum.splits)

text \<open>Within a turn, the phase and the pending event decide.\<close>

definition within_turn :: "query_params \<Rightarrow> loop_state \<Rightarrow> nat" where
  "within_turn P s = 2 * phase_rank P s + (if query_event s = None then 0 else 1)"

lemma steps_left_split: "steps_left P s = 2 * (turns_left P s * (most_tries P + 5)) + within_turn P s"
  by (simp add: steps_left_def within_turn_def)

lemma same_turn:
  "qs_turn s' = qs_turn s \<Longrightarrow> within_turn P s' < within_turn P s \<Longrightarrow> steps_left P s' < steps_left P s"
  using turns_same[of s' s P] by (simp add: steps_left_split)

lemma tries_free [simp]:
  "tries P (s\<lparr>qs_phase := p\<rparr>) = tries P s" "tries P (s\<lparr>query_event := e\<rparr>) = tries P s"
  "tries P (s\<lparr>qs_messages := ms\<rparr>) = tries P s"
  by (simp_all add: tries_def)

lemma counters_free [simp]:
  "counters_ok P (s\<lparr>qs_phase := p\<rparr>) = counters_ok P s" "counters_ok P (s\<lparr>query_event := e\<rparr>) = counters_ok P s"
  "counters_ok P (s\<lparr>qs_messages := ms\<rparr>) = counters_ok P s" "counters_ok P (s\<lparr>tool_batch := b\<rparr>) = counters_ok P s"
  "counters_ok P (s\<lparr>transition_reason := t\<rparr>) = counters_ok P s" "counters_ok P (s\<lparr>revision := n\<rparr>) = counters_ok P s"
  "counters_ok P (act_changes (terminal_action r d ms q ev) s) = counters_ok P s"
  by (simp_all add: counters_ok_def terminal_action_def)

lemma lowers_terminal:
  assumes "counters_ok P s" and "if e = None \<and> query_event s = None then 0 < within_turn P s else 1 < within_turn P s"
  shows "lowers P (steps_left P s) s (move s (terminal_action r d ms q e) outs (going resumed))"
  by (rule lowers_going) (use assms in \<open>auto simp: within_turn_def phase_rank_def split: option.splits if_splits intro!: same_turn\<close>)

lemma lowers_stop_with:
  "counters_ok P s \<Longrightarrow> query_event s = None \<Longrightarrow> qs_phase s = CALLING_MODEL \<Longrightarrow>
     lowers P (steps_left P s) s (stop_with r d resumed s)"
  unfolding stop_with_def by (rule lowers_terminal) (auto simp: within_turn_def phase_rank_def)

text \<open>A new turn pays for the tries of the model.\<close>

lemma new_turn:
  assumes "counters_ok P s'" and "qp_max_turns P = Some m" and "qs_turn s < m" and "qs_turn s < qs_turn s'"
    and "qs_phase s = PREPARING" and "query_event s' = None"
  shows "steps_left P s' < steps_left P s"
proof -
  have "turns_left P s' < turns_left P s" using assms by (simp add: turns_left_def)
  then have "(turns_left P s' + 1) * (most_tries P + 5) \<le> turns_left P s * (most_tries P + 5)" by (intro mult_le_mono1) simp
  then have "turns_left P s' * (most_tries P + 5) + (most_tries P + 5) \<le> turns_left P s * (most_tries P + 5)"
    by (simp only: distrib_right mult_1)
  moreover have "within_turn P s' \<le> 2 * (3 + most_tries P)" "within_turn P s \<ge> 2"
    using tries_most[OF assms(1)] assms(5,6) by (auto simp: within_turn_def phase_rank_def split: query_phase.splits)
  moreover have "2 * a + w < 2 * b + v" if "a + (f + 5) \<le> b" "w \<le> 2 * (3 + f)" "2 \<le> v" for a b f v w :: nat
    using that by simp
  ultimately show ?thesis unfolding steps_left_split by blast
qed

definition at_turn :: "query_params \<Rightarrow> loop_state \<Rightarrow> loop_state \<Rightarrow> bool" where
  "at_turn P s x \<longleftrightarrow> qs_phase x = qs_phase s \<and> query_event x = None \<and> qs_turn x = qs_turn s \<and> counters_ok P x"

lemma at_turn_left:
  "at_turn P s x \<Longrightarrow> query_event s = None \<Longrightarrow> qs_phase s \<noteq> CALLING_MODEL \<Longrightarrow> steps_left P x = steps_left P s"
  using turns_same[of x s P] by (cases "qs_phase s") (auto simp: at_turn_def steps_left_def phase_rank_def)

lemma lowers_prepare:
  assumes "qs_phase s = PREPARING" and "query_event s = None" and "counters_ok P s" and "qp_max_turns P = Some m"
    and delta: "case d of None \<Rightarrow> True | Some n \<Rightarrow> 1 \<le> n"
  shows "lowers P (steps_left P s) s (prepare_step repr P hooks d resumed s)"
proof (cases "m \<le> qs_turn s")
  case True
  then show ?thesis using assms
    by (auto simp: prepare_step_def out_of_turns_def within_turn_def phase_rank_def intro!: lowers_checked lowers_terminal)
next
  case False
  have "lowers P (steps_left P s) s (before_loop hooks (begin_turn d resumed) (stop_before repr) s)"
  proof (rule step_ok_before[where I = "at_turn P s" and Q = "\<lambda>_. True"])
    fix x assume x: "at_turn P s x"
    show "lowers P (steps_left P s) x (begin_turn d resumed x)"
      unfolding begin_turn_def
    proof (rule lowers_going)
      show "counters_ok P (act_changes (act CALLING_MODEL ''next_turn''
          (\<lambda>s. s\<lparr>qs_turn := qs_turn s + (case d of None \<Rightarrow> 1 | Some n \<Rightarrow> max 0 n), stop_hook_active := False\<rparr>)) x)"
        using x by (simp add: at_turn_def counters_ok_def)
      show "steps_left P ((act_changes (act CALLING_MODEL ''next_turn''
          (\<lambda>s. s\<lparr>qs_turn := qs_turn s + (case d of None \<Rightarrow> 1 | Some n \<Rightarrow> max 0 n), stop_hook_active := False\<rparr>)) x)
          \<lparr>qs_phase := act_phase (act CALLING_MODEL ''next_turn''
          (\<lambda>s. s\<lparr>qs_turn := qs_turn s + (case d of None \<Rightarrow> 1 | Some n \<Rightarrow> max 0 n), stop_hook_active := False\<rparr>))\<rparr>) < steps_left P s"
        by (rule new_turn[OF _ assms(4)])
          (use x False assms(1,2) delta in \<open>auto simp: at_turn_def counters_ok_def split: option.splits\<close>)
    qed
  next
    fix r x assume "at_turn P s x"
    show "lowers P (steps_left P s) x (stop_before repr r x)"
      by (auto simp: stop_before_def intro!: lowers_checked lowers_move)
  next
    fix r x x' assume "at_turn P s x" "advance x (hook_action r) = Inr x'"
    then show "True \<and> at_turn P s x' \<and> True \<and> True"
      using assms(1) by (auto simp: at_turn_def advance_Inr hook_action_def)
  qed (use assms in \<open>auto simp: gives_def list_all_iff at_turn_def split: before_outcome.splits\<close>)
  then show ?thesis using False assms(4) by (simp add: prepare_step_def out_of_turns_def)
qed

text \<open>The model: every try lowers what is left of them.\<close>

lemma fewer_tries:
  assumes "qs_phase s = CALLING_MODEL" and "query_event s = None" and "qs_phase s' = CALLING_MODEL" and "query_event s' = None"
    and "qs_turn s' = qs_turn s" and "tries P s' < tries P s"
  shows "steps_left P s' < steps_left P s"
  by (rule same_turn) (use assms in \<open>auto simp: within_turn_def phase_rank_def\<close>)

lemma lowers_reproject:
  assumes "counters_ok P s" and "query_event s = None" and "qs_phase s = CALLING_MODEL"
    and "cr_attempts (context_rec s) < context_limit P"
  shows "lowers P (steps_left P s) s (reproject P mi resumed s)"
  unfolding reproject_def Let_def
  by (rule lowers_going) (use assms in \<open>auto simp: counters_ok_def shrink_def tries_def intro!: fewer_tries\<close>)

lemma next_candidate_forward:
  assumes "candidate_router (mi_next_index mi) (length (qp_candidates P))" and "active_candidate_index s + 1 < int (length (qp_candidates P))"
  shows "active_candidate_index s < next_candidate P mi s \<and> next_candidate P mi s < int (length (qp_candidates P))"
  using candidate_router.beyond[OF assms(1), of "active_candidate_index s"] assms(2)
  by (auto simp: next_candidate_def split: bool.splits option.splits)

lemma fall_back_tries:
  assumes "counters_ok P s" and "active_candidate_index s < i" and "i < int (length (qp_candidates P))"
  shows "tries P (s\<lparr>qs_messages := ms, active_candidate_index := i, output_rec := no_output_recovery\<rparr>) < tries P s"
proof -
  let ?L = "nat (qp_continuations P)" and ?N = "int (length (qp_candidates P))"
  have "nat (?N - 1 - i) + 1 \<le> nat (?N - 1 - active_candidate_index s)" using assms(2,3) by simp
  then have "(nat (?N - 1 - i) + 1) * (?L + 2) \<le> nat (?N - 1 - active_candidate_index s) * (?L + 2)" by (rule mult_le_mono1)
  then have "nat (?N - 1 - i) * (?L + 2) + (?L + 2) \<le> nat (?N - 1 - active_candidate_index s) * (?L + 2)"
    by (simp only: distrib_right mult_1)
  moreover have "tries P (s\<lparr>qs_messages := ms, active_candidate_index := i, output_rec := no_output_recovery\<rparr>) =
      nat (?N - 1 - i) * (?L + 2) + ?L + 1 + nat (context_limit P - cr_attempts (context_rec s))"
    by (simp add: tries_def no_output_recovery_def)
  ultimately show ?thesis unfolding tries_def[of P s] by linarith
qed

lemma lowers_fall_back:
  assumes "counters_ok P s" and "query_event s = None" and "qs_phase s = CALLING_MODEL"
    and "candidate_router (mi_next_index mi) (length (qp_candidates P))" and "can_fall_back P kind s"
  shows "lowers P (steps_left P s) s (fall_back P mi resumed s)"
proof -
  note f = next_candidate_forward[OF assms(4), of s] and c = assms(1,5)
  have nx: "active_candidate_index s < next_candidate P mi s" "next_candidate P mi s < int (length (qp_candidates P))"
    using f c by (auto simp: can_fall_back_def)
  then have known: "route_known P (next_candidate P mi s)" using c by (auto simp: route_known_def counters_ok_def)
  show ?thesis unfolding fall_back_def Let_def
    by (simp add: known, rule lowers_going)
      (use assms nx fall_back_tries[OF assms(1) nx] in \<open>auto simp: counters_ok_def no_output_recovery_def intro!: fewer_tries\<close>)
qed

lemma lowers_model_failed:
  assumes "counters_ok P s" and "query_event s = None" and "qs_phase s = CALLING_MODEL"
    and "candidate_router (mi_next_index mi) (length (qp_candidates P))"
  shows "lowers P (steps_left P s) s (model_failed P mi timed_out resumed s)"
  unfolding model_failed_def Let_def
  by (simp add: lowers_reproject[OF assms(1-3)] lowers_fall_back[OF assms] lowers_stop_with[OF assms(1-3)])

lemma lowers_answered:
  assumes "counters_ok P s" and "query_event s = None" and "qs_phase s = CALLING_MODEL"
  shows "lowers P (steps_left P s) s (answered repr digest P m resumed s)"
proof -
  have "lowers P (steps_left P s) s (escalate_output P resumed s)" if "\<not> escalation_attempted (output_rec s)"
    unfolding escalate_output_def Let_def
    by (rule lowers_going) (use assms that in \<open>auto simp: counters_ok_def tries_def intro!: fewer_tries\<close>)
  moreover have "lowers P (steps_left P s) s (continue_answer repr m resumed s)"
    if "continuation_count (output_rec s) < max 0 (qp_continuations P)"
    unfolding continue_answer_def
    by (rule lowers_going) (use assms that in \<open>auto simp: counters_ok_def tries_def intro!: fewer_tries\<close>)
  moreover have "lowers P (steps_left P s) s (accept_answer repr digest P m resumed s)"
    unfolding accept_answer_def Let_def case_prod_beta
    by (rule lowers_going)
      (use assms in \<open>auto simp: counters_ok_def no_output_recovery_def no_context_recovery_def within_turn_def phase_rank_def
        intro!: same_turn\<close>)
  ultimately show ?thesis
    by (auto simp: answered_def truncated_answer_def may_escalate_def Let_def intro!: lowers_stop_with[OF assms])
qed

lemma lowers_model:
  assumes "counters_ok P s" and "query_event s = None" and "qs_phase s = CALLING_MODEL"
    and "candidate_router (mi_next_index mi) (length (qp_candidates P))"
  shows "lowers P (steps_left P s) s (model_step repr digest P mi resumed s)"
proof -
  have "lowers P (steps_left P s) s (after_call repr digest P mi resumed s r)" for r
    by (cases r) (auto simp: after_call_def lowers_answered[OF assms(1-3)] lowers_model_failed[OF assms]
        lowers_stop_with[OF assms(1-3)] intro!: lowers_move)
  then show ?thesis unfolding model_step_def Let_def case_prod_beta
    by (auto intro!: lowers_checked simp: lowers_stop_with[OF assms(1-3)] split: option.splits)
qed

lemma lowers_stop:
  assumes "counters_ok P s" and "query_event s = None" and "qs_phase s = STOP_GOVERNANCE"
  shows "lowers P (steps_left P s) s (stop_step repr hooks resumed s)"
proof -
  have "lowers P (steps_left P s) s (move s (act PREPARING reason
      (\<lambda>s. s\<lparr>qs_messages := ms, stop_hook_active := True, query_event := Some (e s)\<rparr>)) outs (going resumed))" for reason ms e outs
    by (rule lowers_going) (use assms in \<open>auto simp: counters_ok_def within_turn_def phase_rank_def intro!: same_turn\<close>)
  then show ?thesis unfolding stop_step_def Let_def
    by (auto intro!: lowers_checked lowers_terminal simp: assms within_turn_def phase_rank_def split: option.splits)
qed

lemma lowers_end_batch:
  assumes "at_turn P s x" and "query_event s = None" and "qs_phase s = EXECUTING_TOOLS"
  shows "lowers P (steps_left P s) x (end_batch repr bi done_batch results extra x)"
proof -
  have n: "steps_left P s = steps_left P x" using at_turn_left[OF assms(1,2)] assms(3) by simp
  have x: "counters_ok P x" "query_event x = None" "qs_phase x = EXECUTING_TOOLS" using assms by (auto simp: at_turn_def)
  have go: "lowers P (steps_left P x) x (move x (act PREPARING reason
      (\<lambda>s. s\<lparr>qs_messages := ms, tool_batch := None, query_event := Some e, quality_rec := q s\<rparr>)) outs (going r))" for reason ms e q outs r
    by (rule lowers_going) (use x in \<open>auto simp: counters_ok_def within_turn_def phase_rank_def intro!: same_turn\<close>)
  show ?thesis unfolding end_batch_def Let_def n
    by (cases "bi_end bi = BatchCancelled")
      (auto intro!: lowers_checked lowers_terminal go lowers_move[where k = "\<lambda>_. failing _"] simp: x within_turn_def phase_rank_def)
qed

lemma lowers_tools:
  assumes "counters_ok P s" and "query_event s = None" and "qs_phase s = EXECUTING_TOOLS"
  shows "lowers P (steps_left P s) s (tool_step repr P batch resumed s)"
proof -
  have commits: "lowers P (steps_left P s) s (commit_loop repr cs b [] (after_batch repr P bi calls) s)" for cs b bi calls
  proof (rule step_ok_commits[where I = "\<lambda>_ _. at_turn P s" and Q = "\<lambda>_ _. True"])
    fix b "done" x assume "at_turn P s x"
    then show "lowers P (steps_left P s) x (after_batch repr P bi calls b done x)"
      by (auto simp: after_batch_def close_batch_def intro!: lowers_end_batch[OF _ assms(2,3)] split: sum.splits)
  next
    fix b "done" x call g x' assume "at_turn P s x" "advance x (commit_action (commit_to repr call g b)) = Inr x'"
    then show "True \<and> at_turn P s x'" using assms(3) by (auto simp: at_turn_def advance_Inr commit_action_def)
  qed (use assms in \<open>auto simp: at_turn_def list_all_iff\<close>)
  then show ?thesis
    by (auto simp: tool_step_def refuse_replay_def assms within_turn_def phase_rank_def intro!: lowers_terminal split: option.splits)
qed

lemma lowers_step:
  assumes "counters_ok P s" and "qp_max_turns P = Some m" and "steady P i"
  shows "lowers P (steps_left P s) s (query_step repr digest P i resumed s)"
proof (cases "query_event s")
  case (Some e)
  have "lowers P (steps_left P s) s (move s (act (qs_phase s) ''domain_event_delivered'' (\<lambda>s. s\<lparr>query_event := None\<rparr>)) outs (going resumed))" for outs
    by (rule lowers_going) (use assms Some in \<open>auto simp: within_turn_def phase_rank_def split: query_phase.splits intro!: same_turn\<close>)
  with Some show ?thesis by (auto simp: query_step_def deliver_def intro!: lowers_move)
next
  case None
  then show ?thesis using assms
    by (cases "qs_phase s")
      (auto simp: query_step_def completed_def steady_def step_ok_def[of _ _ _ _ _ "(_, Finished)"]
        intro!: lowers_prepare lowers_model lowers_stop lowers_tools split: option.splits)
qed

lemma loop_ends:
  assumes "qp_max_turns P = Some m"
  shows "counters_ok P s \<Longrightarrow> list_all (steady P) is \<Longrightarrow> steps_left P s < length is \<Longrightarrow>
    snd (query_loop repr digest P is r s) \<noteq> Next s' r'"
proof (induction "is" arbitrary: s r)
  case (Cons i "is")
  have step: "lowers P (steps_left P s) s (query_step repr digest P i r s)"
    using lowers_step[OF Cons.prems(1) assms] Cons.prems(2) by simp
  show ?case
  proof (cases "snd (query_step repr digest P i r s)")
    case (Next x q)
    with step have "counters_ok P x" "steps_left P x < steps_left P s" by (auto simp: step_ok_def)
    with Cons Next show ?thesis by (auto simp: query_loop_Cons)
  qed (auto simp: query_loop_Cons)
qed simp



end
