(* ===== verification/Coordination.thy ===== *)
theory Coordination
  imports TaskState ToolProtocol Sandbox_Policy
begin

text \<open>
  How task events reach the lead (\<open>tasks/coordination.py\<close>, event names of \<open>tasks/events.py\<close>): a task
  update is a message in the inbox of the lead, sent after the snapshot is stored, and the lead renders the
  stored snapshots of the messages it claims, checking the result file of a completed task.

  The payload of a message is text: \<open>pack\<close> and \<open>unpack\<close> are its JSON codec. \<open>sha\<close> is SHA-256, \<open>locate\<close>
  resolves a path of a snapshot below the directory of its run (\<open>None\<close> outside of it), and \<open>files\<close> are the
  files of the run by resolved path; \<open>repr\<close> is the text of a JSON value that is not a string.
\<close>

section \<open>Names\<close>

datatype event_type =
  TASK_CREATED | TASK_STARTED | TASK_PHASE_CHANGE | TASK_COMPLETED | TASK_FAILED | TASK_CANCELLED | TASK_TIMED_OUT
| TASK_UPDATED | TASK_DOMAIN_CONFIRMATION_REQUESTED | TASK_DOMAIN_DECISION | TASK_MAILBOX_DELIVERY_FAILED
| CHECKPOINT_SAVED | CHECKPOINT_LOADED

primrec event_value :: "event_type \<Rightarrow> string" where
  "event_value TASK_CREATED = ''task.created''"
| "event_value TASK_STARTED = ''task.started''"
| "event_value TASK_PHASE_CHANGE = ''task.phase_change''"
| "event_value TASK_COMPLETED = ''task.completed''"
| "event_value TASK_FAILED = ''task.failed''"
| "event_value TASK_CANCELLED = ''task.cancelled''"
| "event_value TASK_TIMED_OUT = ''task.timed_out''"
| "event_value TASK_UPDATED = ''task.updated''"
| "event_value TASK_DOMAIN_CONFIRMATION_REQUESTED = ''task.domain_confirmation_requested''"
| "event_value TASK_DOMAIN_DECISION = ''task.domain_decision''"
| "event_value TASK_MAILBOX_DELIVERY_FAILED = ''task.mailbox_delivery_failed''"
| "event_value CHECKPOINT_SAVED = ''checkpoint.saved''"
| "event_value CHECKPOINT_LOADED = ''checkpoint.loaded''"

primrec status_value :: "task_status \<Rightarrow> string" where
  "status_value TaskPending = ''pending''"
| "status_value TaskRunning = ''running''"
| "status_value WaitingForConfirmation = ''waiting_for_confirmation''"
| "status_value TaskCompleted = ''completed''"
| "status_value TaskFailed = ''failed''"
| "status_value TaskCancelled = ''cancelled''"
| "status_value TaskTimedOut = ''timed_out''"

primrec task_phase_value :: "task_phase \<Rightarrow> string" where
  "task_phase_value Researching = ''researching''"
| "task_phase_value Compressing = ''compressing''"
| "task_phase_value PhaseCompleted = ''completed''"

text \<open>\<open>value.rsplit(".", 1)[-1]\<close>.\<close>

definition after_dot :: "string \<Rightarrow> string" where
  "after_dot s = rev (takeWhile (\<lambda>c. c \<noteq> CHR ''.'') (rev s))"

definition message_types :: "(string, string) dict" where
  "message_types = [(''started'', ''task_started''), (''completed'', ''task_completed''), (''failed'', ''task_failed''),
     (''cancelled'', ''task_cancelled''), (''timed_out'', ''task_timed_out''),
     (''domain_confirmation_requested'', ''domain_approval_request'')]"

definition event_message_type :: "event_type \<Rightarrow> string" where
  "event_message_type e = (case dict_get message_types (after_dot (event_value e)) of Some t \<Rightarrow> t | None \<Rightarrow> ''task_progress'')"

section \<open>Sending\<close>

definition update_payload :: "task_snapshot \<Rightarrow> (string, json) dict" where
  "update_payload x = [(''task_id'', JStr (ts_task_id x)), (''snapshot_version'', JInt (ts_version x)),
     (''status'', JStr (status_value (ts_status x))), (''phase'', JStr (task_phase_value (ts_phase x))),
     (''artifact_path'', json_opt JStr (ts_result_artifact_path x)),
     (''artifact_sha256'', json_opt JStr (ts_result_artifact_sha256 x)),
     (''pending_domain'', json_opt JStr (ts_pending_domain x))]"

definition task_update :: "((string, json) dict \<Rightarrow> string) \<Rightarrow> task_snapshot \<Rightarrow> event_type \<Rightarrow> send_request" where
  "task_update pack x e =
     (let t = event_message_type e
      in \<lparr>req_recipient = ''lead'',
          req_sender = (case ts_assigned_teammate_id x of Some s \<Rightarrow> if s = [] then ''orchestrator'' else s | None \<Rightarrow> ''orchestrator''),
          req_type = t, req_payload = pack (update_payload x),
          req_priority = (if t \<in> {''task_failed'', ''task_cancelled'', ''domain_approval_request''} then 0 else 40),
          req_dedupe_key = Some (ts_task_id x @ '':'' @ t @ '':'' @ int_text (ts_version x))\<rparr>)"

definition publish_task_update ::
    "mailbox_config \<Rightarrow> ((string, json) dict \<Rightarrow> string) \<Rightarrow> string \<Rightarrow> seconds \<Rightarrow> seconds \<Rightarrow> task_snapshot \<Rightarrow> event_type \<Rightarrow>
      inbox_state \<Rightarrow> (mailbox_error + mailbox_message) \<times> inbox_state" where
  "publish_task_update cfg pack new_id created now x e inbox = mailbox_send cfg new_id created now (task_update pack x e) inbox"

section \<open>Claiming\<close>

datatype coordination_error =
  ArtifactMissing string | ArtifactEscapes string | ArtifactUnavailable string | ArtifactMismatch string
| BadMailbox mailbox_error | BadStore store_error

definition verify_result_artifact ::
    "(string \<Rightarrow> string) \<Rightarrow> (string \<Rightarrow> string \<Rightarrow> string option) \<Rightarrow> (string, string) dict \<Rightarrow> string \<Rightarrow> task_snapshot \<Rightarrow>
      coordination_error + unit" where
  "verify_result_artifact sha locate files run_id x =
     (if \<not> truthy (ts_result_artifact_path x) \<or> \<not> truthy (ts_result_artifact_sha256 x)
      then Inl (ArtifactMissing (ts_task_id x))
      else (case validate_component run_id ''run_id'' of
              Inl e \<Rightarrow> Inl (BadMailbox e)
            | Inr rid \<Rightarrow>
           (case locate rid (the (ts_result_artifact_path x)) of
              None \<Rightarrow> Inl (ArtifactEscapes (ts_task_id x))
            | Some file \<Rightarrow>
           (case dict_get files file of
              None \<Rightarrow> Inl (ArtifactUnavailable (ts_task_id x))
            | Some content \<Rightarrow>
                if Some (sha content) \<noteq> ts_result_artifact_sha256 x then Inl (ArtifactMismatch (ts_task_id x))
                else Inr ()))))"

definition shown_result :: "(json \<Rightarrow> string) \<Rightarrow> task_snapshot \<Rightarrow> string" where
  "shown_result repr x =
     (case ts_result x of
        None \<Rightarrow> []
      | Some r \<Rightarrow> if r \<noteq> [] \<and> ts_status x = TaskCompleted then py_text repr (jget_or ''compressed_research'' (JStr []) r) else [])"

definition snapshot_part :: "(json \<Rightarrow> string) \<Rightarrow> task_snapshot \<Rightarrow> string" where
  "snapshot_part repr x =
     ''### '' @ ts_task_id x @ '' - '' @ upper (status_value (ts_status x)) @ [CHR 10] @
     ''Teammate: '' @ (if truthy (ts_assigned_teammate_id x) then the (ts_assigned_teammate_id x) else ''(unassigned)'') @ [CHR 10] @
     ''Topic: '' @ ts_research_topic x @ [CHR 10] @
     ''Version: '' @ int_text (ts_version x) @ [CHR 10] @ shown_result repr x"

definition message_part ::
    "(string \<Rightarrow> string) \<Rightarrow> (string \<Rightarrow> string \<Rightarrow> string option) \<Rightarrow> (string, string) dict \<Rightarrow> (json \<Rightarrow> string) \<Rightarrow>
      (string \<Rightarrow> (string, json) dict) \<Rightarrow> file_store \<Rightarrow> string \<Rightarrow> mailbox_message \<Rightarrow> coordination_error + string" where
  "message_part sha locate files repr unpack store run_id m =
     (let task = py_text repr (jget_or ''task_id'' (JStr []) (unpack (payload m)))
      in case (if task = [] then Inr None else file_get store task (Some run_id)) of
           Inl e \<Rightarrow> Inl (BadStore e)
         | Inr None \<Rightarrow> Inr (msg_type m @ '': task='' @ (if task = [] then ''(none)'' else task))
         | Inr (Some x) \<Rightarrow>
             res_bind (if msg_type m = ''task_completed'' then verify_result_artifact sha locate files run_id x else Inr ())
               (\<lambda>_. Inr (snapshot_part repr x)))"

definition join_parts :: "string list \<Rightarrow> string" where
  "join_parts ps =
     (case ps of [] \<Rightarrow> [] | p # rest \<Rightarrow> p @ concat (map (\<lambda>q. [CHR 10] @ ''---'' @ [CHR 10] @ q) rest))"

definition updates_context :: "string list \<Rightarrow> string" where
  "updates_context parts = (if parts = [] then [] else ''Mailbox task updates:'' @ [CHR 10, CHR 10] @ join_parts parts)"

text \<open>The parts of \<open>claim_lead_updates\<close> after the claim: the messages not processed before, in order.\<close>

definition render_updates ::
    "(mailbox_message \<Rightarrow> coordination_error + string) \<Rightarrow> string list \<Rightarrow> mailbox_message list \<Rightarrow>
      coordination_error + mailbox_message list \<times> string" where
  "render_updates part processed ms =
     (if ms = [] then Inr ([], [])
      else res_bind (res_map part (filter (\<lambda>m. message_id m \<notin> set processed) ms))
             (\<lambda>parts. Inr (ms, updates_context parts)))"

definition claim_lead_updates ::
    "mailbox_config \<Rightarrow> string \<Rightarrow> seconds \<Rightarrow> (mailbox_message \<Rightarrow> coordination_error + string) \<Rightarrow> string list \<Rightarrow>
      inbox_state \<Rightarrow> (coordination_error + mailbox_message list \<times> string) \<times> inbox_state" where
  "claim_lead_updates cfg consumer now part processed inbox =
     (case mailbox_claim cfg ''lead'' consumer 20 now inbox of
        (Inl e, inbox') \<Rightarrow> (Inl (BadMailbox e), inbox')
      | (Inr ms, inbox') \<Rightarrow> (render_updates part processed ms, inbox'))"

text \<open>With a timeout the lead waits for a first message (\<open>polls\<close> as in \<open>wait_and_claim\<close>).\<close>

definition await_lead_updates ::
    "mailbox_config \<Rightarrow> string \<Rightarrow> seconds \<Rightarrow> (seconds \<times> seconds \<times> (inbox_state \<Rightarrow> inbox_state)) list \<Rightarrow>
      (mailbox_message \<Rightarrow> coordination_error + string) \<Rightarrow> string list \<Rightarrow>
      inbox_state \<Rightarrow> (coordination_error + mailbox_message list \<times> string) option \<times> inbox_state" where
  "await_lead_updates cfg consumer deadline polls part processed inbox =
     (case wait_and_claim cfg ''lead'' consumer 20 deadline polls inbox of
        (None, inbox') \<Rightarrow> (None, inbox')
      | (Some (Inl e), inbox') \<Rightarrow> (Some (Inl (BadMailbox e)), inbox')
      | (Some (Inr ms), inbox') \<Rightarrow> (Some (render_updates part processed ms), inbox'))"

definition ack_lead_updates ::
    "mailbox_config \<Rightarrow> string \<Rightarrow> string list \<Rightarrow> seconds \<Rightarrow> inbox_state \<Rightarrow> (mailbox_error + unit) \<times> inbox_state" where
  "ack_lead_updates cfg consumer ids now inbox =
     (if ids = [] then (Inr (), inbox) else mailbox_ack cfg ''lead'' consumer ids now inbox)"

section \<open>What the lead accepts\<close>

lemma completed_message_type: "event_message_type e = ''task_completed'' \<longleftrightarrow> e = TASK_COMPLETED"
  by (cases e; hypsubst; code_simp)

lemma res_map_error: "m \<in> set ms \<Longrightarrow> f m = Inl e \<Longrightarrow> \<exists>e'. res_map f ms = Inl e'"
  by (induction ms) (auto simp: res_bind_def split: sum.splits)

lemma res_map_fine: "(\<And>m. m \<in> set ms \<Longrightarrow> \<exists>y. f m = Inr y) \<Longrightarrow> \<exists>ys. res_map f ms = Inr ys"
  by (induction ms) (fastforce simp: res_bind_def split: sum.splits)+

text \<open>One claimed message that cannot be rendered hides the whole batch, which stays leased to the consumer.\<close>

lemma bad_message_blocks_claim:
  assumes "mailbox_claim cfg ''lead'' consumer 20 now inbox = (Inr ms, inbox')"
    and "m \<in> set ms" and "message_id m \<notin> set processed" and "part m = Inl e"
  shows "\<exists>e'. claim_lead_updates cfg consumer now part processed inbox = (Inl e', inbox')"
proof -
  from assms(2,3) have "m \<in> set (filter (\<lambda>m. message_id m \<notin> set processed) ms)" by simp
  from res_map_error[where f = part, OF this assms(4)] assms(1,2) show ?thesis
    by (auto simp: claim_lead_updates_def render_updates_def res_bind_def)
qed

end
