(* ===== verification/Task_World.thy ===== *)
theory Task_World
  imports Coordination Checkpoint
begin

text \<open>
  What a research task shares with the coroutines and processes around it (\<open>tasks/executor.py\<close>, with the
  tools of \<open>tasks/async_tools.py\<close>, the pool and the routes that touch a running task): the record in the
  registry, its cancellation event and control queue, the state store, the checkpoints of the run, its
  result files, the inbox of the lead and the event logs; and how a state change is announced.

  A coroutine is a function from a world to a result and a world; the result is an exception or a value.
  \<open>CancelledExn\<close> is \<open>asyncio.CancelledError\<close>, which is no \<open>Exception\<close>. Everything that decides how a call
  goes is an input: clocks, the failures of each I/O operation, what other coroutines do while the
  executor waits (\<open>task_action\<close>), what \<open>asyncio.wait\<close> reports, and what the researcher returns. An injected
  \<open>CancelledExn\<close> is also what a crash at that await leaves behind. Spans, metrics and the texts of
  events beyond what identifies them are left out.
\<close>

section \<open>The world of a task\<close>

datatype exn = TimeoutExn | CancelledExn | ErrorExn string

datatype control = ControlUpdate string | ControlMarker

record 'm researcher_state =
  rs_messages :: "'m list"
  rs_research_topic :: string
  rs_tool_call_iterations :: int
  rs_memory_context :: "string option"
  rs_requirement_ids :: "string list"
  rs_coverage_contract :: "(string, json) dict"
  rs_research_risk_profile :: "(string, json) dict"
  rs_next_step :: string
  rs_fence_token :: "int option"
  rs_committed_tool_call_ids :: "string list"
  rs_artifact_refs :: "(string, json) dict list"
  rs_completion_decision :: "(string, json) dict"
  rs_compressed_research :: "string option"
  rs_raw_notes :: "string list"
  rs_pending_tool_results :: "(string, json) dict list"
  rs_research_complete_requested :: bool
  rs_research_complete_succeeded :: bool
  rs_result_assessment :: "(string, json) dict"
  rs_permission_denials :: "(string, json) dict list"
  rs_candidate_registry :: "(string, json) dict list"
  rs_document_registry :: "(string, json) dict list"
  rs_evidence_registry :: "(string, json) dict list"
  rs_web_research_iterations :: "(string, json) dict list"
  rs_applied_query_event_ids :: "string list"
  rs_query_state :: "(string, json) dict option"

record public_note =
  pn_type :: string
  pn_key :: string
  pn_status :: string

record 'm world =
  w_record :: task_record
  w_cancelled :: bool
  w_queue :: "control list"
  w_state :: "'m researcher_state"
  w_store :: file_store
  w_checkpoints :: checkpoint_dir
  w_artifacts :: "(string, string) dict"
  w_inbox :: inbox_state
  w_events :: "(event_type \<times> string) list"
  w_public :: "public_note list"
  w_invocations :: nat

text \<open>\<open>w_invocations\<close> counts the times the researcher was started; the code has no such counter. The
  library of a task: its configuration, the codec of messages, the JSON codec of payloads and results,
  SHA-256, and the texts of errors.\<close>

record 'm setting =
  xc_run_id :: string
  xc_fence_token :: int
  xc_meta_fence :: int
  xc_event_log :: bool
  xc_has_manager :: bool
  xc_checkpoint_enabled :: bool
  xc_quality_evaluation :: bool
  xc_timeout_text :: string
  xc_mailbox :: mailbox_config
  xc_human :: "string \<Rightarrow> 'm"
  xc_encode :: "'m \<Rightarrow> (string, json) dict"
  xc_decode :: "(string, json) dict list \<Rightarrow> exn + 'm list"
  xc_pack :: "(string, json) dict \<Rightarrow> string"
  xc_dumps :: "(string, json) dict \<Rightarrow> string"
  xc_sha :: "string \<Rightarrow> string"
  xc_error_text :: "store_error \<Rightarrow> string"
  xc_checkpoint_text :: "checkpoint_error \<Rightarrow> string"

type_synonym ('m, 'a) outcome = "(exn + 'a) \<times> 'm world"

definition and_next :: "('m, 'a) outcome \<Rightarrow> ('a \<Rightarrow> 'm world \<Rightarrow> ('m, 'b) outcome) \<Rightarrow> ('m, 'b) outcome" where
  "and_next r f = (case r of (Inl x, w) \<Rightarrow> (Inl x, w) | (Inr a, w) \<Rightarrow> f a w)"

definition fallible :: "exn option \<Rightarrow> 'm world \<Rightarrow> ('m, unit) outcome" where
  "fallible fault w = (case fault of Some x \<Rightarrow> (Inl x, w) | None \<Rightarrow> (Inr (), w))"

text \<open>\<open>registry.update_status\<close> on the task, whose record the registry holds.\<close>

definition mark_status :: "task_status \<Rightarrow> (task_record \<Rightarrow> task_record) \<Rightarrow> 'm world \<Rightarrow> 'm world" where
  "mark_status st extra w = w\<lparr>w_record := extra (w_record w\<lparr>tr_status := st\<rparr>)\<rparr>"

lemma mark_status_is_update:
  "dict_get reg i = Some (w_record w) \<Longrightarrow> dict_get (update_status i st extra reg) i = Some (w_record (mark_status st extra w))"
  by (simp add: update_status_def mark_status_def)

definition exn_text :: "exn \<Rightarrow> string" where
  "exn_text x = (case x of ErrorExn s \<Rightarrow> s | _ \<Rightarrow> [])"

section \<open>What other coroutines do to the task\<close>

definition store_record :: "int \<Rightarrow> seconds \<Rightarrow> 'm world \<Rightarrow> (store_error + task_snapshot) \<times> 'm world" where
  "store_record fence now w =
     (case update_from_record file_get file_upsert (w_store w) (w_record w) fence now of
        (r, st) \<Rightarrow> (r, w\<lparr>w_store := st\<rparr>))"

datatype task_action =
  CancelTask bool seconds string
| DeliverCancel
| DeliverUpdate string seconds
| DirectUpdate string seconds
| QueueFeedback string
| TakeControls
| RequireApproval "string option" string
| ResolveApproval
| LoseLease string seconds string

definition notify_lead :: "'m setting \<Rightarrow> string \<Rightarrow> seconds \<Rightarrow> task_snapshot \<Rightarrow> event_type \<Rightarrow> 'm world \<Rightarrow> (mailbox_error + mailbox_message) \<times> 'm world" where
  "notify_lead c new_id now x e w =
     (case publish_task_update (xc_mailbox c) (xc_pack c) new_id now now x e (w_inbox w) of
        (r, inbox) \<Rightarrow> (r, w\<lparr>w_inbox := inbox\<rparr>))"

definition add_pending :: "string \<Rightarrow> task_record \<Rightarrow> task_record" where
  "add_pending s r = r\<lparr>tr_pending_update_instructions := tr_pending_update_instructions r @ [s]\<rparr>"

definition queue_update :: "'m setting \<Rightarrow> string \<Rightarrow> seconds \<Rightarrow> 'm world \<Rightarrow> 'm world" where
  "queue_update c s now w =
     (if s \<in> set (tr_pending_update_instructions (w_record w)) then w\<lparr>w_queue := w_queue w @ [ControlUpdate s]\<rparr>
      else (case store_record (xc_meta_fence c) now (w\<lparr>w_record := add_pending s (w_record w)\<rparr>) of
              (Inl _, w') \<Rightarrow> w' | (Inr _, w') \<Rightarrow> w'\<lparr>w_queue := w_queue w' @ [ControlUpdate s]\<rparr>))"

text \<open>\<open>handle_cancel_research_task\<close>: with an active pool a control message is sent instead of setting the
  event, which \<open>DeliverCancel\<close> does later.\<close>

definition cancel_task :: "'m setting \<Rightarrow> bool \<Rightarrow> seconds \<Rightarrow> string \<Rightarrow> 'm world \<Rightarrow> 'm world" where
  "cancel_task c pool now new_id w =
     (if \<not> task_active (tr_status (w_record w)) then w
      else (let w' = mark_status TaskCancelled (\<lambda>r. r\<lparr>tr_completed_at := Some now\<rparr>)
                       (w\<lparr>w_cancelled := w_cancelled w \<or> \<not> pool\<rparr>)
            in case store_record (xc_meta_fence c) now w' of
                 (Inl _, w'') \<Rightarrow> w''
               | (Inr x, w'') \<Rightarrow> snd (notify_lead c new_id now x TASK_CANCELLED w'')))"

text \<open>\<open>handle_update_research_task\<close> without a pool, and \<open>_queue_task_feedback_if_possible\<close>.\<close>

definition direct_update :: "'m setting \<Rightarrow> string \<Rightarrow> seconds \<Rightarrow> 'm world \<Rightarrow> 'm world" where
  "direct_update c s now w = (if tr_status (w_record w) = TaskRunning then queue_update c s now w else w)"

definition queue_feedback :: "string \<Rightarrow> 'm world \<Rightarrow> 'm world" where
  "queue_feedback s w =
     (if tr_status (w_record w) = TaskRunning then w\<lparr>w_queue := w_queue w @ [ControlUpdate s]\<rparr> else w)"

definition require_approval :: "string option \<Rightarrow> string \<Rightarrow> 'm world \<Rightarrow> 'm world" where
  "require_approval domain tool w =
     (let w' = w\<lparr>w_record := w_record w\<lparr>tr_pending_domain := domain, tr_pending_domain_tool := Some tool\<rparr>\<rparr>
      in if tr_status (w_record w) = TaskRunning then mark_status WaitingForConfirmation (\<lambda>r. r) w' else w')"

definition resolve_last_approval :: "'m world \<Rightarrow> 'm world" where
  "resolve_last_approval w =
     (let w' = w\<lparr>w_record := w_record w\<lparr>tr_pending_domain := None, tr_pending_domain_tool := None\<rparr>\<rparr>
      in if tr_status (w_record w) = WaitingForConfirmation then mark_status TaskRunning (\<lambda>r. r) w' else w')"

text \<open>The heartbeat of a pool that lost its lease.\<close>

definition lose_lease :: "'m setting \<Rightarrow> string \<Rightarrow> seconds \<Rightarrow> string \<Rightarrow> 'm world \<Rightarrow> 'm world" where
  "lose_lease c s now new_id w =
     (if \<not> task_active (tr_status (w_record w)) then w
      else (case store_record (xc_meta_fence c) now
                   (mark_status TaskFailed (\<lambda>r. r\<lparr>tr_error_message := Some (''Lead lease lost: '' @ s)\<rparr>) (w\<lparr>w_cancelled := True\<rparr>)) of
              (Inl _, w') \<Rightarrow> w'
            | (Inr x, w') \<Rightarrow> snd (notify_lead c new_id now x TASK_FAILED w')))"

text \<open>\<open>TakeControls\<close> is the before-turn hook of the researcher, which empties the queue.\<close>

fun task_act :: "'m setting \<Rightarrow> task_action \<Rightarrow> 'm world \<Rightarrow> 'm world" where
  "task_act c (CancelTask pool now new_id) w = cancel_task c pool now new_id w"
| "task_act c DeliverCancel w = w\<lparr>w_cancelled := True\<rparr>"
| "task_act c (DeliverUpdate s now) w = queue_update c s now w"
| "task_act c (DirectUpdate s now) w = direct_update c s now w"
| "task_act c (QueueFeedback s) w = queue_feedback s w"
| "task_act c TakeControls w = w\<lparr>w_queue := []\<rparr>"
| "task_act c (RequireApproval domain tool) w = require_approval domain tool w"
| "task_act c ResolveApproval w = resolve_last_approval w"
| "task_act c (LoseLease s now new_id) w = lose_lease c s now new_id w"

definition task_acts :: "'m setting \<Rightarrow> task_action list \<Rightarrow> 'm world \<Rightarrow> 'm world" where
  "task_acts c as w = fold (task_act c) as w"

section \<open>State changes\<close>

text \<open>What decides how one \<open>_emit_state_change\<close> goes: the clock, the failures of the event log, of the
  store, of the activity stream and the metrics, the public publication that fails, of the message to
  the lead (\<open>em_mail\<close>: the lock) and of its log line, what others do before and after the snapshot is
  stored, the identifier of the message, and the public sources and summary of the findings.\<close>

record emit_input =
  em_now :: seconds
  em_log :: "exn option"
  em_before :: "task_action list"
  em_store :: "exn option"
  em_after :: "task_action list"
  em_activity :: "exn option"
  em_public :: "(nat \<times> exn) option"
  em_sources :: "string list"
  em_summary :: bool
  em_metrics :: "exn option"
  em_mail :: "exn option"
  em_mail_log :: "exn option"
  em_message_id :: string

definition log_event :: "'m setting \<Rightarrow> exn option \<Rightarrow> event_type \<Rightarrow> string \<Rightarrow> 'm world \<Rightarrow> ('m, unit) outcome" where
  "log_event c fault e phase w =
     (if \<not> xc_event_log c then (Inr (), w)
      else and_next (fallible fault w) (\<lambda>_ w. (Inr (), w\<lparr>w_events := w_events w @ [(e, phase)]\<rparr>)))"

definition public_type :: "bool \<Rightarrow> event_type \<Rightarrow> string option" where
  "public_type quality e =
     (case e of
        TASK_STARTED \<Rightarrow> Some ''research.task.started''
      | TASK_COMPLETED \<Rightarrow> Some (if quality then ''research.task.progress'' else ''research.task.completed'')
      | TASK_FAILED \<Rightarrow> Some ''research.task.failed''
      | TASK_CANCELLED \<Rightarrow> Some ''research.task.cancelled''
      | TASK_TIMED_OUT \<Rightarrow> Some ''research.task.timed_out''
      | TASK_UPDATED \<Rightarrow> Some ''research.task.progress''
      | TASK_PHASE_CHANGE \<Rightarrow> Some ''research.task.progress''
      | TASK_DOMAIN_CONFIRMATION_REQUESTED \<Rightarrow> Some ''research.task.progress''
      | TASK_DOMAIN_DECISION \<Rightarrow> Some ''research.task.progress''
      | _ \<Rightarrow> None)"

text \<open>\<open>event_type.value.removeprefix("task.")\<close>; every type with a public form begins so.\<close>

definition event_transition :: "event_type \<Rightarrow> string" where
  "event_transition e = (if starts_with ''task.'' (event_value e) then drop 5 (event_value e) else event_value e)"

definition main_note :: "bool \<Rightarrow> task_record \<Rightarrow> task_snapshot \<Rightarrow> event_type \<Rightarrow> string \<Rightarrow> public_note" where
  "main_note quality r x e t =
     \<lparr>pn_type = t,
      pn_key = ''task:'' @ tr_task_id r @ '':'' @
        (if t = ''research.task.progress'' then event_transition e @ '':'' @ int_text (ts_version x) else event_transition e),
      pn_status = (if e = TASK_COMPLETED \<and> quality then ''running'' else status_value (tr_status r))\<rparr>"

definition finding_notes :: "task_record \<Rightarrow> string list \<Rightarrow> bool \<Rightarrow> public_note list" where
  "finding_notes r sources summary =
     map (\<lambda>i. \<lparr>pn_type = ''research.source.discovered'', pn_key = ''source:'' @ i, pn_status = []\<rparr>) sources @
     [if summary then \<lparr>pn_type = ''findings.updated'', pn_key = ''task:'' @ tr_task_id r @ '':findings'', pn_status = []\<rparr>
      else \<lparr>pn_type = ''research.task.completed'', pn_key = ''task:'' @ tr_task_id r @ '':summary:unavailable'',
            pn_status = status_value (tr_status r)\<rparr>]"

definition public_notes :: "bool \<Rightarrow> emit_input \<Rightarrow> task_record \<Rightarrow> task_snapshot \<Rightarrow> event_type \<Rightarrow> public_note list" where
  "public_notes quality i r x e =
     (case public_type quality e of
        None \<Rightarrow> []
      | Some t \<Rightarrow> main_note quality r x e t #
          (if e = TASK_COMPLETED \<and> \<not> quality \<and> tr_result r \<noteq> None \<and> tr_result r \<noteq> Some []
           then finding_notes r (em_sources i) (em_summary i) else []))"

definition publish_notes :: "(nat \<times> exn) option \<Rightarrow> public_note list \<Rightarrow> 'm world \<Rightarrow> ('m, unit) outcome" where
  "publish_notes fault ps w =
     (if ps = [] then (Inr (), w)
      else (case fault of
              None \<Rightarrow> (Inr (), w\<lparr>w_public := w_public w @ ps\<rparr>)
            | Some (n, x) \<Rightarrow> (Inl x, w\<lparr>w_public := w_public w @ take n ps\<rparr>)))"

text \<open>A message that cannot be sent is logged and forgotten; a cancellation is not.\<close>

definition try_notify :: "'m setting \<Rightarrow> emit_input \<Rightarrow> task_snapshot \<Rightarrow> event_type \<Rightarrow> string \<Rightarrow> 'm world \<Rightarrow> ('m, unit) outcome" where
  "try_notify c i x e phase w =
     (case em_mail i of
        Some CancelledExn \<Rightarrow> (Inl CancelledExn, w)
      | Some y \<Rightarrow> log_event c (em_mail_log i) TASK_MAILBOX_DELIVERY_FAILED phase w
      | None \<Rightarrow>
          (case notify_lead c (em_message_id i) (em_now i) x e w of
             (Inl err, w') \<Rightarrow> log_event c (em_mail_log i) TASK_MAILBOX_DELIVERY_FAILED phase w'
           | (Inr m, w') \<Rightarrow> (Inr (), w')))"

text \<open>What follows once the snapshot is stored.\<close>

definition spread_change :: "'m setting \<Rightarrow> emit_input \<Rightarrow> task_snapshot \<Rightarrow> event_type \<Rightarrow> string \<Rightarrow> bool \<Rightarrow> 'm world \<Rightarrow> ('m, unit) outcome" where
  "spread_change c i x e phase notify w =
     and_next (fallible (em_activity i) (task_acts c (em_after i) w)) (\<lambda>_ w.
     and_next (publish_notes (em_public i) (public_notes (xc_quality_evaluation c) i (w_record w) x e) w) (\<lambda>_ w.
     and_next (fallible (em_metrics i) w) (\<lambda>_ w.
       if notify then try_notify c i x e phase w else (Inr (), w))))"

definition emit_state_change :: "'m setting \<Rightarrow> emit_input \<Rightarrow> event_type \<Rightarrow> string option \<Rightarrow> bool \<Rightarrow> 'm world \<Rightarrow> ('m, unit) outcome" where
  "emit_state_change c i e given notify w =
     (let phase = (case given of Some p \<Rightarrow> p | None \<Rightarrow> task_phase_value (tr_phase (w_record w)))
      in and_next (log_event c (em_log i) e phase w) (\<lambda>_ w.
         and_next (fallible (em_store i) (task_acts c (em_before i) w)) (\<lambda>_ w.
         case store_record (xc_meta_fence c) (em_now i) w of
           (Inl err, w) \<Rightarrow> (Inl (ErrorExn (xc_error_text c err)), w)
         | (Inr x, w) \<Rightarrow> spread_change c i x e phase notify w)))"

end
