(* ===== verification/Executor.thy ===== *)
theory Executor
  imports Task_World
begin

text \<open>
  The background executor of research tasks (\<open>tasks/executor.py\<close>) in the world of \<open>Task_World\<close>: its
  checkpoints, the state a task starts from, \<open>run_task_with_control\<close> with its three iterations and the
  handlers around them, and \<open>run_task\<close>, the executor without controls.
\<close>

section \<open>Checkpoints of the executor\<close>

definition or_list :: "'a list \<Rightarrow> 'a list \<Rightarrow> 'a list" where
  "or_list xs ys = (if xs = [] then ys else xs)"

definition make_checkpoint :: "'m setting \<Rightarrow> 'm world \<Rightarrow> researcher_checkpoint" where
  "make_checkpoint c w =
     (let r = w_record w; s = w_state w
      in \<lparr>ck_task_id = tr_task_id r, ck_phase = task_phase_value (tr_phase r), ck_schema_version = 4,
          ck_next_step = rs_next_step s, ck_fence_token = xc_fence_token c,
          ck_committed_tool_call_ids = rs_committed_tool_call_ids s, ck_artifact_refs = rs_artifact_refs s,
          ck_completion_decision = rs_completion_decision s, ck_messages_snapshot = map (xc_encode c) (rs_messages s),
          ck_tool_call_iterations = rs_tool_call_iterations s, ck_completed_queries = [], ck_fetched_sources = [],
          ck_compressed_research = None, ck_research_topic = tr_research_topic r, ck_run_id = tr_run_id r,
          ck_user_id = tr_user_id r, ck_memory_context = tr_memory_context r, ck_query_state = rs_query_state s,
          ck_requirement_ids = or_list (rs_requirement_ids s) (tr_requirement_ids r),
          ck_coverage_contract = or_list (rs_coverage_contract s) (tr_coverage_contract r),
          ck_research_risk_profile = or_list (rs_research_risk_profile s) (tr_research_risk_profile r),
          ck_raw_notes = rs_raw_notes s, ck_pending_tool_results = rs_pending_tool_results s,
          ck_research_complete_requested = rs_research_complete_requested s,
          ck_research_complete_succeeded = rs_research_complete_succeeded s,
          ck_result_assessment = rs_result_assessment s, ck_permission_denials = rs_permission_denials s,
          ck_candidate_registry = rs_candidate_registry s, ck_document_registry = rs_document_registry s,
          ck_evidence_registry = rs_evidence_registry s, ck_web_research_iterations = rs_web_research_iterations s,
          ck_applied_query_event_ids = rs_applied_query_event_ids s, ck_timestamp = 0\<rparr>)"

record save_input =
  sv_now :: seconds
  sv_fault :: "exn option"
  sv_emit :: emit_input

definition write_checkpoint :: "'m setting \<Rightarrow> save_input \<Rightarrow> 'm world \<Rightarrow> ('m, unit) outcome" where
  "write_checkpoint c i w =
     (case checkpoint_save (sv_now i) (make_checkpoint c w) (w_checkpoints w) of
        (Inl e, d) \<Rightarrow> (Inl (ErrorExn (xc_checkpoint_text c e)), w)
      | (Inr _, d) \<Rightarrow> (Inr (), w\<lparr>w_checkpoints := d\<rparr>))"

definition save_checkpoint :: "'m setting \<Rightarrow> save_input \<Rightarrow> 'm world \<Rightarrow> ('m, unit) outcome" where
  "save_checkpoint c i w =
     (if \<not> xc_has_manager c \<or> \<not> xc_checkpoint_enabled c then (Inr (), w)
      else (let phase = task_phase_value (tr_phase (w_record w))
            in and_next (and_next (fallible (sv_fault i) w) (\<lambda>_. write_checkpoint c i)) (\<lambda>_ w.
               emit_state_change c (sv_emit i) CHECKPOINT_SAVED (Some phase) False w)))"

section \<open>The state a task starts from\<close>

definition first_state :: "'m setting \<Rightarrow> task_record \<Rightarrow> 'm researcher_state" where
  "first_state c r =
     \<lparr>rs_messages = [xc_human c (tr_research_topic r)], rs_research_topic = tr_research_topic r,
      rs_tool_call_iterations = 0, rs_memory_context = tr_memory_context r, rs_requirement_ids = tr_requirement_ids r,
      rs_coverage_contract = tr_coverage_contract r, rs_research_risk_profile = tr_research_risk_profile r,
      rs_next_step = ''model'', rs_fence_token = None, rs_committed_tool_call_ids = [], rs_artifact_refs = [],
      rs_completion_decision = [], rs_compressed_research = None, rs_raw_notes = [], rs_pending_tool_results = [],
      rs_research_complete_requested = False, rs_research_complete_succeeded = False, rs_result_assessment = [],
      rs_permission_denials = [], rs_candidate_registry = [], rs_document_registry = [], rs_evidence_registry = [],
      rs_web_research_iterations = [], rs_applied_query_event_ids = [], rs_query_state = None\<rparr>"

definition restored_state :: "researcher_checkpoint \<Rightarrow> task_record \<Rightarrow> 'm list \<Rightarrow> 'm researcher_state" where
  "restored_state k r ms =
     \<lparr>rs_messages = ms, rs_research_topic = or_list (ck_research_topic k) (tr_research_topic r),
      rs_tool_call_iterations = ck_tool_call_iterations k,
      rs_memory_context = (if truthy (ck_memory_context k) then ck_memory_context k else tr_memory_context r),
      rs_requirement_ids = or_list (ck_requirement_ids k) (tr_requirement_ids r),
      rs_coverage_contract = or_list (ck_coverage_contract k) (tr_coverage_contract r),
      rs_research_risk_profile = or_list (ck_research_risk_profile k) (tr_research_risk_profile r),
      rs_next_step = ck_next_step k, rs_fence_token = Some (ck_fence_token k),
      rs_committed_tool_call_ids = ck_committed_tool_call_ids k, rs_artifact_refs = ck_artifact_refs k,
      rs_completion_decision = ck_completion_decision k, rs_compressed_research = ck_compressed_research k,
      rs_raw_notes = ck_raw_notes k, rs_pending_tool_results = ck_pending_tool_results k,
      rs_research_complete_requested = ck_research_complete_requested k,
      rs_research_complete_succeeded = ck_research_complete_succeeded k,
      rs_result_assessment = ck_result_assessment k, rs_permission_denials = ck_permission_denials k,
      rs_candidate_registry = ck_candidate_registry k, rs_document_registry = ck_document_registry k,
      rs_evidence_registry = ck_evidence_registry k, rs_web_research_iterations = ck_web_research_iterations k,
      rs_applied_query_event_ids = ck_applied_query_event_ids k, rs_query_state = ck_query_state k\<rparr>"

text \<open>Nothing catches an exception of this part: it ends the executor with the task still running.\<close>

definition start_state :: "'m setting \<Rightarrow> seconds \<Rightarrow> exn option \<Rightarrow> emit_input \<Rightarrow> 'm world \<Rightarrow> ('m, unit) outcome" where
  "start_state c now fault i w =
     (if \<not> xc_has_manager c \<or> \<not> xc_checkpoint_enabled c then (Inr (), w\<lparr>w_state := first_state c (w_record w)\<rparr>)
      else and_next (fallible fault w) (\<lambda>_ w.
        case checkpoint_load now (tr_task_id (w_record w)) (w_checkpoints w) of
          Inl e \<Rightarrow> (Inl (ErrorExn (xc_checkpoint_text c e)), w)
        | Inr None \<Rightarrow> (Inr (), w\<lparr>w_state := first_state c (w_record w)\<rparr>)
        | Inr (Some k) \<Rightarrow>
            and_next (emit_state_change c i CHECKPOINT_LOADED (Some (ck_phase k)) False w) (\<lambda>_ w.
            case xc_decode c (ck_messages_snapshot k) of
              Inl x \<Rightarrow> (Inl x, w)
            | Inr ms \<Rightarrow> (Inr (), w\<lparr>w_state := restored_state k (w_record w) ms,
                w_record := w_record w\<lparr>tr_phase := (if ck_phase k = ''compressing'' then Compressing else Researching)\<rparr>\<rparr>))))"

section \<open>One iteration\<close>

fun drain_queue :: "control list \<Rightarrow> string list \<Rightarrow> string list" where
  "drain_queue [] instrs = instrs"
| "drain_queue (ControlUpdate s # q) instrs = drain_queue q (if s \<in> set instrs then instrs else instrs @ [s])"
| "drain_queue (ControlMarker # q) instrs = drain_queue q instrs"

definition instruction_message :: "'m setting \<Rightarrow> string \<Rightarrow> 'm" where
  "instruction_message c s = xc_human c (''[Supervisor Instruction] '' @ s)"

definition instructions_of :: "'m world \<Rightarrow> string list" where
  "instructions_of w = drain_queue (w_queue w) (tr_pending_update_instructions (w_record w))"

definition add_messages :: "'m setting \<Rightarrow> string list \<Rightarrow> 'm world \<Rightarrow> 'm world" where
  "add_messages c ss w = w\<lparr>w_state := w_state w\<lparr>rs_messages := rs_messages (w_state w) @ map (instruction_message c) ss\<rparr>\<rparr>"

definition drain :: "'m setting \<Rightarrow> 'm world \<Rightarrow> 'm world" where
  "drain c w =
     add_messages c (instructions_of w)
       (w\<lparr>w_record := w_record w\<lparr>tr_pending_update_instructions := []\<rparr>, w_queue := []\<rparr>)"

fun announce :: "'m setting \<Rightarrow> (nat \<Rightarrow> emit_input) \<Rightarrow> string list \<Rightarrow> 'm world \<Rightarrow> ('m, unit) outcome" where
  "announce c i [] w = (Inr (), w)"
| "announce c i (s # ss) w =
     and_next (emit_state_change c (i 0) TASK_UPDATED None False w) (\<lambda>_. announce c (\<lambda>n. i (n + 1)) ss)"

text \<open>While the researcher runs, other coroutines act and the query loop saves its states through
  \<open>_save_query_state\<close>; a failed save is the concern of the researcher.\<close>

record query_note =
  qn_snapshot :: "(string, json) dict"
  qn_turn :: int
  qn_committed :: "string list"
  qn_phase :: string

datatype during = Action task_action | QuerySaved query_note save_input

definition save_query_state :: "'m setting \<Rightarrow> query_note \<Rightarrow> save_input \<Rightarrow> 'm world \<Rightarrow> ('m, unit) outcome" where
  "save_query_state c q i w =
     save_checkpoint c i
       (w\<lparr>w_state := w_state w\<lparr>rs_query_state := Some (qn_snapshot q), rs_tool_call_iterations := qn_turn q,
            rs_committed_tool_call_ids := qn_committed q, rs_next_step := qn_phase q\<rparr>\<rparr>)"

fun happen :: "'m setting \<Rightarrow> during \<Rightarrow> 'm world \<Rightarrow> 'm world" where
  "happen c (Action a) w = task_act c a w"
| "happen c (QuerySaved q i) w = snd (save_query_state c q i w)"

definition happens :: "'m setting \<Rightarrow> during list \<Rightarrow> 'm world \<Rightarrow> 'm world" where
  "happens c ds w = fold (happen c) ds w"

text \<open>What decides an iteration: \<open>it_seen\<close> is whether \<open>asyncio.wait\<close> reports the cancellation and the control
  message as done (each only if it is there), \<open>it_rest\<close> happens until the research task and the other two
  are settled, and \<open>it_outcome\<close> is how the research ends.\<close>

record iteration_input =
  it_save :: save_input
  it_updates :: "nat \<Rightarrow> emit_input"
  it_during :: "during list"
  it_cancel_seen :: bool
  it_control_seen :: bool
  it_rest :: "during list"
  it_outcome :: "exn + (string, json) dict"
  it_tail_save :: save_input
  it_control_emit :: emit_input
  it_now :: seconds
  it_open :: "exn option"
  it_persist :: "exn option"
  it_delete_now :: seconds
  it_delete :: "exn option"
  it_done :: emit_input

datatype verdict = Again | Returned

section \<open>Success\<close>

definition durable_result :: "task_record \<Rightarrow> (string, json) dict \<Rightarrow> (string, json) dict" where
  "durable_result r res =
     [(''schema_version'', JInt 2), (''task_id'', JStr (tr_task_id r)), (''research_topic'', JStr (tr_research_topic r)),
      (''requirement_ids'', JList (map JStr (tr_requirement_ids r))), (''coverage_contract'', JObj (tr_coverage_contract r)),
      (''research_risk_profile'', JObj (tr_research_risk_profile r)),
      (''compressed_research'', jget_or ''compressed_research'' (JStr []) res),
      (''raw_notes'', jget_or ''raw_notes'' (JList []) res), (''metrics'', jget_or ''metrics'' (JObj []) res),
      (''candidate_registry'', jget_or ''candidate_registry'' (JList []) res),
      (''document_registry'', jget_or ''document_registry'' (JList []) res),
      (''evidence_registry'', jget_or ''evidence_registry'' (JList []) res),
      (''web_research_iterations'', jget_or ''web_research_iterations'' (JList []) res)]"

text \<open>\<open>metrics.get("sources_read", source_count)\<close>. Metrics that are no dictionary raise; a count that is no
  integer would be stored as it is, which is outside the model and taken as the old count.\<close>

definition sources_read :: "(string, json) dict \<Rightarrow> int \<Rightarrow> exn + int" where
  "sources_read res old =
     (case jget_or ''metrics'' (JObj []) res of
        JObj m \<Rightarrow> Inr (case dict_get m ''sources_read'' of Some (JInt n) \<Rightarrow> n | _ \<Rightarrow> old)
      | _ \<Rightarrow> Inl (ErrorExn ''object has no attribute get''))"

definition result_file :: "string \<Rightarrow> string" where
  "result_file task = ''context/artifacts/research_tasks/'' @ task @ ''.json''"

text \<open>\<open>_RUN_ID_RE\<close> without double dots.\<close>

definition artifact_id_ok :: "string \<Rightarrow> bool" where
  "artifact_id_ok s \<longleftrightarrow> (case s of [] \<Rightarrow> False | a # rest \<Rightarrow> ascii_alnum a \<and> length rest \<le> 127 \<and>
     list_all (\<lambda>b. ascii_alnum b \<or> b \<in> set ''._-'') rest) \<and> \<not> str_contains ''..'' s"

definition persist_task_result :: "'m setting \<Rightarrow> exn option \<Rightarrow> string \<Rightarrow> (string, json) dict \<Rightarrow> 'm world \<Rightarrow> ('m, string) outcome" where
  "persist_task_result c fault task res w =
     (if \<not> artifact_id_ok task then (Inl (ErrorExn (''Invalid task_id: '' @ task)), w)
      else and_next (fallible fault w) (\<lambda>_ w.
        (Inr (xc_sha c (xc_dumps c res)), w\<lparr>w_artifacts := dict_set (result_file task) (xc_dumps c res) (w_artifacts w)\<rparr>)))"

definition delete_checkpoint :: "'m setting \<Rightarrow> seconds \<Rightarrow> exn option \<Rightarrow> 'm world \<Rightarrow> ('m, unit) outcome" where
  "delete_checkpoint c now fault w =
     (if \<not> xc_has_manager c then (Inr (), w)
      else and_next (fallible fault w) (\<lambda>_ w.
        case checkpoint_delete now (tr_task_id (w_record w)) (Some (xc_fence_token c)) (w_checkpoints w) of
          (Inl e, d) \<Rightarrow> (Inl (ErrorExn (xc_checkpoint_text c e)), w)
        | (Inr _, d) \<Rightarrow> (Inr (), w\<lparr>w_checkpoints := d\<rparr>)))"

definition complete_task :: "'m setting \<Rightarrow> iteration_input \<Rightarrow> (string, json) dict \<Rightarrow> 'm world \<Rightarrow> ('m, verdict) outcome" where
  "complete_task c i res w =
     (let r = w_record w; dur = durable_result r res
      in case sources_read res (tr_source_count r) of
           Inl x \<Rightarrow> (Inl x, w)
         | Inr n \<Rightarrow>
             (let w = mark_status TaskCompleted (\<lambda>r. r\<lparr>tr_phase := PhaseCompleted, tr_completed_at := Some (it_now i),
                        tr_result := Some dur, tr_source_count := n\<rparr>) w
              in and_next (fallible (it_open i) w) (\<lambda>_ w.
                 and_next (persist_task_result c (it_persist i) (tr_task_id r) dur w) (\<lambda>digest w.
                 and_next (delete_checkpoint c (it_delete_now i) (it_delete i)
                    (w\<lparr>w_record := w_record w\<lparr>tr_result_artifact_path := Some (result_file (tr_task_id r)),
                         tr_result_artifact_sha256 := Some digest\<rparr>\<rparr>)) (\<lambda>_ w.
                 and_next (emit_state_change c (it_done i) TASK_COMPLETED (Some ''completed'') True w) (\<lambda>_ w.
                   (Inr Returned, w)))))))"

definition finish_research :: "'m setting \<Rightarrow> iteration_input \<Rightarrow> 'm world \<Rightarrow> ('m, verdict) outcome" where
  "finish_research c i w =
     (case it_outcome i of
        Inl x \<Rightarrow> (Inl x, w)
      | Inr res \<Rightarrow>
          if w_cancelled w then and_next (save_checkpoint c (it_tail_save i) w) (\<lambda>_ w. (Inr Returned, w))
          else complete_task c i res w)"

section \<open>The executor\<close>

definition announce_control :: "'m setting \<Rightarrow> iteration_input \<Rightarrow> string \<Rightarrow> 'm world \<Rightarrow> ('m, verdict) outcome" where
  "announce_control c i s w =
     and_next (save_checkpoint c (it_tail_save i)
       (add_messages c [s] (w\<lparr>w_record := w_record w\<lparr>tr_pending_update_instructions :=
          remove1 s (tr_pending_update_instructions (w_record w))\<rparr>\<rparr>))) (\<lambda>_ w.
     and_next (emit_state_change c (it_control_emit i) TASK_UPDATED None False w) (\<lambda>_ w. (Inr Again, w)))"

text \<open>What follows \<open>asyncio.wait\<close>.\<close>

definition settle_wait :: "'m setting \<Rightarrow> iteration_input \<Rightarrow> 'm world \<Rightarrow> ('m, verdict) outcome" where
  "settle_wait c i w =
     (if it_cancel_seen i \<and> w_cancelled w
      then and_next (save_checkpoint c (it_tail_save i) (happens c (it_rest i) w)) (\<lambda>_ w. (Inr Returned, w))
      else (case (it_control_seen i, w_queue w) of
              (True, ControlUpdate s # q) \<Rightarrow> announce_control c i s (happens c (it_rest i) (w\<lparr>w_queue := q\<rparr>))
            | (True, ControlMarker # q) \<Rightarrow> finish_research c i (happens c (it_rest i) (w\<lparr>w_queue := q\<rparr>))
            | _ \<Rightarrow> finish_research c i (happens c (it_rest i) w)))"

definition supervise :: "'m setting \<Rightarrow> iteration_input \<Rightarrow> 'm world \<Rightarrow> ('m, verdict) outcome" where
  "supervise c i w = settle_wait c i (happens c (it_during i) (w\<lparr>w_invocations := w_invocations w + 1\<rparr>))"

definition iteration :: "'m setting \<Rightarrow> iteration_input \<Rightarrow> 'm world \<Rightarrow> ('m, verdict) outcome" where
  "iteration c i w =
     (if w_cancelled w then and_next (save_checkpoint c (it_save i) w) (\<lambda>_ w. (Inr Returned, w))
      else (let instrs = instructions_of w
            in and_next (save_checkpoint c (it_save i) (drain c w)) (\<lambda>_ w.
               and_next (announce c (it_updates i) instrs w) (\<lambda>_. supervise c i))))"

fun iterations :: "'m setting \<Rightarrow> iteration_input list \<Rightarrow> 'm world \<Rightarrow> ('m, unit) outcome" where
  "iterations c [] w = (Inl (ErrorExn ''Task exceeded 3 supervisor-update restarts''), w)"
| "iterations c (i # is) w =
     and_next (iteration c i w) (\<lambda>v w. if v = Returned then (Inr (), w) else iterations c is w)"

text \<open>The inputs of a whole task: its start, the three iterations its loop allows, and how an exception
  of the loop is recorded.\<close>

record task_input =
  ti_started :: seconds
  ti_start :: emit_input
  ti_start_failed :: emit_input
  ti_load_now :: seconds
  ti_load :: "exn option"
  ti_loaded :: emit_input
  ti_one :: iteration_input
  ti_two :: iteration_input
  ti_three :: iteration_input
  ti_ended :: seconds
  ti_final_save :: save_input
  ti_final :: emit_input

definition record_end :: "'m setting \<Rightarrow> task_input \<Rightarrow> task_status \<Rightarrow> string \<Rightarrow> event_type \<Rightarrow> 'm world \<Rightarrow> ('m, unit) outcome" where
  "record_end c t st msg e w =
     and_next (save_checkpoint c (ti_final_save t)
       (mark_status st (\<lambda>r. r\<lparr>tr_error_message := Some msg, tr_completed_at := Some (ti_ended t)\<rparr>) w))
       (\<lambda>_. emit_state_change c (ti_final t) e None True)"

definition handle_exception :: "'m setting \<Rightarrow> task_input \<Rightarrow> exn \<Rightarrow> 'm world \<Rightarrow> ('m, unit) outcome" where
  "handle_exception c t x w =
     (case x of
        TimeoutExn \<Rightarrow> record_end c t TaskTimedOut (''Task exceeded '' @ xc_timeout_text c @ ''s timeout.'') TASK_TIMED_OUT w
      | CancelledExn \<Rightarrow> (Inl CancelledExn, w)
      | ErrorExn s \<Rightarrow> record_end c t TaskFailed s TASK_FAILED w)"

text \<open>The last attempt to record a failed start: what goes wrong in it is ignored.\<close>

definition record_start_failure :: "'m setting \<Rightarrow> int \<Rightarrow> emit_input \<Rightarrow> seconds \<Rightarrow> string \<Rightarrow> 'm world \<Rightarrow> ('m, unit) outcome" where
  "record_start_failure c fence i now s w =
     (let w = mark_status TaskFailed (\<lambda>r. r\<lparr>tr_error_message := Some (''Unable to publish task start: '' @ s),
                tr_completed_at := Some now\<rparr>) w
      in case em_store i of
           Some CancelledExn \<Rightarrow> (Inl CancelledExn, w)
         | Some _ \<Rightarrow> (Inr (), w)
         | None \<Rightarrow>
             (case store_record fence (em_now i) (task_acts c (em_before i) w) of
                (Inl _, w) \<Rightarrow> (Inr (), w)
              | (Inr x, w) \<Rightarrow>
                  (case em_mail i of
                     Some CancelledExn \<Rightarrow> (Inl CancelledExn, w)
                   | Some _ \<Rightarrow> (Inr (), w)
                   | None \<Rightarrow> (Inr (), snd (notify_lead c (em_message_id i) (em_now i) x TASK_FAILED w)))))"

definition announce_start :: "'m setting \<Rightarrow> task_input \<Rightarrow> 'm world \<Rightarrow> ('m, unit) outcome" where
  "announce_start c t w =
     emit_state_change c (ti_start t) TASK_STARTED None True
       (mark_status TaskRunning (\<lambda>r. r\<lparr>tr_started_at := Some (ti_started t)\<rparr>) w)"

definition start_task :: "'m setting \<Rightarrow> int \<Rightarrow> task_input \<Rightarrow> ('m world \<Rightarrow> ('m, unit) outcome) \<Rightarrow> 'm world \<Rightarrow> ('m, unit) outcome" where
  "start_task c fence t rest w =
     (case announce_start c t w of
        (Inl CancelledExn, w) \<Rightarrow> (Inl CancelledExn, w)
      | (Inl x, w) \<Rightarrow> record_start_failure c fence (ti_start_failed t) (ti_ended t) (exn_text x) w
      | (Inr _, w) \<Rightarrow> rest w)"

definition guarded :: "'m setting \<Rightarrow> task_input \<Rightarrow> ('m, unit) outcome \<Rightarrow> ('m, unit) outcome" where
  "guarded c t r = (case r of (Inl x, w) \<Rightarrow> handle_exception c t x w | (Inr _, w) \<Rightarrow> (Inr (), w))"

definition run_task_with_control :: "'m setting \<Rightarrow> task_input \<Rightarrow> 'm world \<Rightarrow> ('m, unit) outcome" where
  "run_task_with_control c t =
     start_task c (xc_fence_token c) t (\<lambda>w.
       and_next (start_state c (ti_load_now t) (ti_load t) (ti_loaded t) w)
         (\<lambda>_ w. guarded c t (iterations c [ti_one t, ti_two t, ti_three t] w)))"

text \<open>\<open>run_task\<close>, the executor without controls: of the first iteration it uses how the research ends.
  The result is kept as the researcher returned it, and no result file is written.\<close>

definition simple_body :: "'m setting \<Rightarrow> iteration_input \<Rightarrow> 'm world \<Rightarrow> ('m, unit) outcome" where
  "simple_body c i w =
     (if w_cancelled w then (Inr (), w)
      else (let w = happens c (it_during i) (w\<lparr>w_invocations := w_invocations w + 1\<rparr>)
            in case it_outcome i of
                 Inl x \<Rightarrow> (Inl x, w)
               | Inr res \<Rightarrow>
                   if w_cancelled w then (Inr (), w)
                   else (case sources_read res (tr_source_count (w_record w)) of
                           Inl x \<Rightarrow> (Inl x, w)
                         | Inr n \<Rightarrow>
                             emit_state_change c (it_done i) TASK_COMPLETED (Some ''completed'') True
                               (mark_status TaskCompleted (\<lambda>r. r\<lparr>tr_phase := PhaseCompleted,
                                  tr_completed_at := Some (it_now i), tr_result := Some res, tr_source_count := n\<rparr>) w))))"

definition simple_end :: "'m setting \<Rightarrow> task_input \<Rightarrow> task_status \<Rightarrow> string \<Rightarrow> event_type \<Rightarrow> 'm world \<Rightarrow> ('m, unit) outcome" where
  "simple_end c t st msg e w =
     emit_state_change c (ti_final t) e None True
       (mark_status st (\<lambda>r. r\<lparr>tr_error_message := Some msg, tr_completed_at := Some (ti_ended t)\<rparr>) w)"

definition run_task :: "'m setting \<Rightarrow> task_input \<Rightarrow> 'm world \<Rightarrow> ('m, unit) outcome" where
  "run_task c t =
     start_task c (xc_meta_fence c) t (\<lambda>w.
       case simple_body c (ti_one t) w of
         (Inl TimeoutExn, w) \<Rightarrow> simple_end c t TaskTimedOut (''Task exceeded '' @ xc_timeout_text c @ ''s timeout.'') TASK_TIMED_OUT w
       | (Inl (ErrorExn s), w) \<Rightarrow> simple_end c t TaskFailed s TASK_FAILED w
       | (Inl CancelledExn, w) \<Rightarrow> (Inl CancelledExn, w)
       | (Inr _, w) \<Rightarrow> (Inr (), w))"

end
