(* ===== verification/Executor_Safety.thy ===== *)
theory Executor_Safety
  imports Executor
begin

text \<open>
  What the executor of a task keeps, whatever fails and whatever other coroutines do. The locales state
  what an invariant has to stand: \<open>emit_invariant\<close> the changes of one announced state change,
  \<open>save_invariant\<close> those of a checkpoint and of the time the researcher runs, \<open>run_invariant\<close> those of the
  loop of \<open>run_task_with_control\<close>. Shown with them: how often the researcher runs and that the end of a task
  is recorded.
\<close>

section \<open>Coroutines\<close>

lemma and_next_simps [simp]:
  "and_next (Inl x, w) f = (Inl x, w)" "and_next (Inr a, w) f = f a w"
  by (simp_all add: and_next_def)

lemma fallible_simps [simp]: "fallible None w = (Inr (), w)" "fallible (Some x) w = (Inl x, w)"
  by (simp_all add: fallible_def)

lemma snd_fallible [simp]: "snd (fallible f w) = w"
  by (cases f) simp_all

lemma and_next_keeps: "I (snd r) \<Longrightarrow> (\<And>a w. I w \<Longrightarrow> I (snd (f a w))) \<Longrightarrow> I (snd (and_next r f))"
  by (cases r; cases "fst r") auto

lemma and_next_Inr: "and_next r f = (Inr b, w') \<longleftrightarrow> (\<exists>a w. r = (Inr a, w) \<and> f a w = (Inr b, w'))"
  by (auto simp: and_next_def split: prod.splits sum.splits)

text \<open>Every action of the inputs satisfies \<open>P\<close>.\<close>

definition emit_by :: "(task_action \<Rightarrow> bool) \<Rightarrow> emit_input \<Rightarrow> bool" where
  "emit_by P i \<longleftrightarrow> list_all P (em_before i) \<and> list_all P (em_after i)"

definition save_by :: "(task_action \<Rightarrow> bool) \<Rightarrow> save_input \<Rightarrow> bool" where
  "save_by P i \<longleftrightarrow> emit_by P (sv_emit i)"

fun during_by :: "(task_action \<Rightarrow> bool) \<Rightarrow> during \<Rightarrow> bool" where
  "during_by P (Action a) \<longleftrightarrow> P a"
| "during_by P (QuerySaved q i) \<longleftrightarrow> save_by P i"

definition iteration_by :: "(task_action \<Rightarrow> bool) \<Rightarrow> iteration_input \<Rightarrow> bool" where
  "iteration_by P i \<longleftrightarrow> save_by P (it_save i) \<and> (\<forall>n. emit_by P (it_updates i n)) \<and> list_all (during_by P) (it_during i) \<and>
     list_all (during_by P) (it_rest i) \<and> save_by P (it_tail_save i) \<and> emit_by P (it_control_emit i) \<and> emit_by P (it_done i)"

definition task_by :: "(task_action \<Rightarrow> bool) \<Rightarrow> task_input \<Rightarrow> bool" where
  "task_by P t \<longleftrightarrow> emit_by P (ti_start t) \<and> emit_by P (ti_start_failed t) \<and> emit_by P (ti_loaded t) \<and>
     list_all (iteration_by P) [ti_one t, ti_two t, ti_three t] \<and> save_by P (ti_final_save t) \<and> emit_by P (ti_final t)"

lemma by_all [simp]: "emit_by (\<lambda>_. True) i" "save_by (\<lambda>_. True) j" "during_by (\<lambda>_. True) d" "iteration_by (\<lambda>_. True) k" "task_by (\<lambda>_. True) t"
proof -
  have d: "during_by (\<lambda>_. True) d" for d by (cases d) (auto simp: save_by_def emit_by_def list_all_iff)
  show "emit_by (\<lambda>_. True) i" "save_by (\<lambda>_. True) j" "during_by (\<lambda>_. True) d" "iteration_by (\<lambda>_. True) k" "task_by (\<lambda>_. True) t"
    using d by (auto simp: emit_by_def save_by_def iteration_by_def task_by_def list_all_iff)
qed

section \<open>Invariants\<close>

locale emit_invariant =
  fixes c :: "'m setting" and P :: "task_action \<Rightarrow> bool" and E :: "event_type \<Rightarrow> bool" and I :: "'m world \<Rightarrow> bool"
  assumes acted: "I w \<Longrightarrow> P a \<Longrightarrow> I (task_act c a w)"
    and logged: "I w \<Longrightarrow> I (w\<lparr>w_events := es\<rparr>)"
    and published: "I w \<Longrightarrow> I (w\<lparr>w_public := ps\<rparr>)"
    and stored: "I w \<Longrightarrow> I (snd (store_record f now w))"
    and told: "I w \<Longrightarrow> E e \<Longrightarrow> I (snd (notify_lead c new_id now x e w))"
begin

lemmas keeps_next = and_next_keeps[where I = I]

lemma keeps_acts: "I w \<Longrightarrow> list_all P as \<Longrightarrow> I (task_acts c as w)"
  unfolding task_acts_def by (induction as arbitrary: w) (auto intro: acted)

lemma keeps_log: "I w \<Longrightarrow> I (snd (log_event c f e ph w))"
  by (auto simp: log_event_def intro!: keeps_next logged)

lemma keeps_publish: "I w \<Longrightarrow> I (snd (publish_notes f ps w))"
  by (auto simp: publish_notes_def intro!: published split: option.split)

lemma keeps_notify: "I w \<Longrightarrow> E e \<Longrightarrow> I (snd (try_notify c i x e ph w))"
  using told[of w e "em_message_id i" "em_now i" x]
  by (auto simp: try_notify_def intro!: keeps_log split: option.split exn.split prod.split sum.split)

lemma keeps_spread:
  "I w \<Longrightarrow> emit_by P i \<Longrightarrow> (notify \<Longrightarrow> E e) \<Longrightarrow> I (snd (spread_change c i x e ph notify w))"
  unfolding spread_change_def emit_by_def by (auto intro!: keeps_next keeps_publish keeps_notify keeps_acts)

lemma keeps_emit:
  assumes "I w" and "emit_by P i" and "notify \<Longrightarrow> E e"
  shows "I (snd (emit_state_change c i e ph notify w))"
  unfolding emit_state_change_def Let_def
proof (intro keeps_next keeps_log assms(1), goal_cases)
  case (1 u w)
  then show ?case using assms(2) by (auto simp: emit_by_def intro: keeps_acts)
next
  case (2 u w v w')
  show ?case
  proof (cases "store_record (xc_meta_fence c) (em_now i) w'")
    case (Pair r w1)
    with stored[OF 2(2), of "xc_meta_fence c" "em_now i"] have "I w1" by simp
    with assms Pair show ?thesis by (cases r) (simp_all add: keeps_spread)
  qed
qed

end

locale save_invariant = emit_invariant +
  assumes checkpointed: "I w \<Longrightarrow> I (snd (write_checkpoint c i w))"
    and restated: "I w \<Longrightarrow> I (w\<lparr>w_state := s\<rparr>)"
begin

lemma keeps_save: "I w \<Longrightarrow> save_by P i \<Longrightarrow> I (snd (save_checkpoint c i w))"
  unfolding save_checkpoint_def Let_def save_by_def
  by (auto intro!: keeps_next keeps_emit checkpointed)

lemma keeps_happen: "I w \<Longrightarrow> during_by P d \<Longrightarrow> I (happen c d w)"
  by (cases d) (auto simp: save_query_state_def intro!: acted keeps_save restated)

lemma keeps_happens: "I w \<Longrightarrow> list_all (during_by P) ds \<Longrightarrow> I (happens c ds w)"
  unfolding happens_def by (induction ds arbitrary: w) (auto intro: keeps_happen)

lemma keeps_complete:
  assumes "I w" and "iteration_by P i" and "E TASK_COMPLETED"
    and rec: "\<And>w r. I w \<Longrightarrow> I (w\<lparr>w_record := r\<rparr>)" and art: "\<And>w a. I w \<Longrightarrow> I (w\<lparr>w_artifacts := a\<rparr>)"
    and del: "\<And>w d. I w \<Longrightarrow> I (w\<lparr>w_checkpoints := d\<rparr>)"
  shows "I (snd (complete_task c i res w))"
proof -
  have delete: "I (snd (delete_checkpoint c now f w))" if "I w" for now f w
    using that by (auto simp: delete_checkpoint_def split: prod.split sum.split intro!: keeps_next del)
  have persist: "I (snd (persist_task_result c f t d w))" if "I w" for f t d w
    using that by (auto simp: persist_task_result_def intro!: keeps_next art)
  have fin: "emit_by P (it_done i)" using assms(2) by (simp add: iteration_by_def)
  show ?thesis
    unfolding complete_task_def Let_def mark_status_def
    using assms(1,3) fin by (auto split: sum.split intro!: keeps_next persist delete rec keeps_emit)
qed

lemma keeps_announce: "I w \<Longrightarrow> (\<And>n. emit_by P (i n)) \<Longrightarrow> I (snd (announce c i ss w))"
  by (induction ss arbitrary: i w) (auto intro!: keeps_next keeps_emit)

end

text \<open>An iteration keeps \<open>I\<close> when the loop goes on; however it ends, the weaker \<open>X\<close> holds.\<close>

definition ends_in :: "('m world \<Rightarrow> bool) \<Rightarrow> ('m world \<Rightarrow> bool) \<Rightarrow> ('m, verdict) outcome \<Rightarrow> bool" where
  "ends_in I X r \<longleftrightarrow> X (snd r) \<and> (fst r = Inr Again \<longrightarrow> I (snd r))"

lemma and_next_ends:
  "I (snd r) \<Longrightarrow> (\<And>w. I w \<Longrightarrow> X w) \<Longrightarrow> (\<And>a w. I w \<Longrightarrow> ends_in I X (f a w)) \<Longrightarrow> ends_in I X (and_next r f)"
  by (cases r; cases "fst r") (auto simp: ends_in_def)

locale run_invariant = save_invariant c P E I for c :: "'m setting" and P E I +
  fixes X :: "'m world \<Rightarrow> bool"
  assumes weaker: "I w \<Longrightarrow> X w"
    and listed: "I w \<Longrightarrow> I (w\<lparr>w_record := w_record w\<lparr>tr_pending_update_instructions := ss\<rparr>\<rparr>)"
    and queued: "I w \<Longrightarrow> I (w\<lparr>w_queue := q\<rparr>)"
    and completed: "I w \<Longrightarrow> iteration_by P i \<Longrightarrow> X (snd (complete_task c i res w))"
begin

lemmas ends_next = and_next_ends[where I = I and X = X, OF _ weaker]

lemma ends_returned: "I w \<Longrightarrow> ends_in I X (Inr v, w)"
  by (simp add: ends_in_def weaker)

lemma complete_not_again: "fst (complete_task c i res w) \<noteq> Inr Again"
  by (auto simp: complete_task_def Let_def and_next_def split: sum.split prod.split)

lemma keeps_finish: "I w \<Longrightarrow> iteration_by P i \<Longrightarrow> ends_in I X (finish_research c i w)"
  using completed[of w i] complete_not_again[of i _ w]
  by (auto simp: finish_research_def iteration_by_def split: sum.split intro!: ends_next keeps_save ends_returned)
    (auto simp: ends_in_def weaker iteration_by_def)

lemma keeps_messages: "I w \<Longrightarrow> I (add_messages c ss w)"
  unfolding add_messages_def by (rule restated)

lemma keeps_control: "I w \<Longrightarrow> iteration_by P i \<Longrightarrow> ends_in I X (announce_control c i s w)"
  unfolding announce_control_def iteration_by_def
  by (intro ends_next ends_returned keeps_save keeps_messages listed keeps_emit) auto

lemma keeps_settle:
  assumes "I w" and "iteration_by P i"
  shows "ends_in I X (settle_wait c i w)"
proof -
  have rest: "I w' \<Longrightarrow> I (happens c (it_rest i) w')" for w' using assms(2) by (auto simp: iteration_by_def intro: keeps_happens)
  have seen: "ends_in I X (and_next (save_checkpoint c (it_tail_save i) (happens c (it_rest i) w)) (\<lambda>_ w. (Inr Returned, w)))"
    using assms(2) by (intro ends_next ends_returned keeps_save rest assms(1)) (auto simp: iteration_by_def)
  have go: "ends_in I X (finish_research c i (happens c (it_rest i) w'))" if "I w'" for w'
    by (rule keeps_finish[OF rest[OF that] assms(2)])
  have control: "ends_in I X (announce_control c i s (happens c (it_rest i) (w\<lparr>w_queue := q\<rparr>)))" for s q
    by (rule keeps_control[OF rest[OF queued[OF assms(1)]] assms(2)])
  show ?thesis
  proof (cases "it_control_seen i")
    case True
    show ?thesis
    proof (cases "w_queue w")
      case Nil
      then show ?thesis using True seen go[OF assms(1)] by (simp add: settle_wait_def)
    next
      case (Cons x q)
      then show ?thesis using True seen control[of _ q] go[OF queued[OF assms(1), of q]] by (cases x) (simp_all add: settle_wait_def)
    qed
  qed (use seen go[OF assms(1)] in \<open>simp add: settle_wait_def\<close>)
qed

lemma keeps_drain: "I w \<Longrightarrow> I (drain c w)"
  unfolding drain_def by (intro keeps_messages) (use queued[OF listed, of w] in simp)

end

locale task_invariant = run_invariant +
  assumes invoked: "I w \<Longrightarrow> I (w\<lparr>w_invocations := n\<rparr>)"
begin

lemma keeps_supervise: "I w \<Longrightarrow> iteration_by P i \<Longrightarrow> ends_in I X (supervise c i w)"
  unfolding supervise_def by (rule keeps_settle) (auto simp: iteration_by_def intro!: keeps_happens invoked)

lemma keeps_iteration: "I w \<Longrightarrow> iteration_by P i \<Longrightarrow> ends_in I X (iteration c i w)"
  unfolding iteration_def Let_def
  by (auto simp: iteration_by_def intro!: ends_next ends_returned keeps_save keeps_drain keeps_announce keeps_supervise)

lemma keeps_iterations: "I w \<Longrightarrow> list_all (iteration_by P) is \<Longrightarrow> X (snd (iterations c is w))"
proof (induction "is" arbitrary: w)
  case (Cons i "is")
  obtain r w1 where i: "iteration c i w = (r, w1)" by force
  with keeps_iteration[of w i] Cons.prems have "X w1" "r = Inr Again \<Longrightarrow> I w1" by (auto simp: ends_in_def)
  with Cons i show ?case by (cases r; cases "projr r") auto
qed (simp add: weaker)

end

section \<open>What the elementary steps change\<close>

lemma store_record_world:
  "snd (store_record f now w) = w\<lparr>w_store := snd (update_from_record file_get file_upsert (w_store w) (w_record w) f now)\<rparr>"
  by (simp add: store_record_def case_prod_beta)

lemma notify_lead_world:
  "snd (notify_lead c i now x e w) =
     w\<lparr>w_inbox := snd (publish_task_update (xc_mailbox c) (xc_pack c) i now now x e (w_inbox w))\<rparr>"
  by (simp add: notify_lead_def case_prod_beta)

lemma write_checkpoint_world: "\<exists>d. snd (write_checkpoint c i w) = w\<lparr>w_checkpoints := d\<rparr>"
  by (cases "checkpoint_save (sv_now i) (make_checkpoint c w) (w_checkpoints w)"; cases "fst (checkpoint_save (sv_now i) (make_checkpoint c w) (w_checkpoints w))")
    (auto simp: write_checkpoint_def intro: exI[of _ "w_checkpoints w"])

lemma delete_checkpoint_world: "\<exists>d. snd (delete_checkpoint c now f w) = w\<lparr>w_checkpoints := d\<rparr>"
proof -
  have same: "\<exists>d. w = w\<lparr>w_checkpoints := d\<rparr>" by (rule exI[of _ "w_checkpoints w"]) simp
  show ?thesis
    by (cases f; cases "checkpoint_delete now (tr_task_id (w_record w)) (Some (xc_fence_token c)) (w_checkpoints w)";
        cases "fst (checkpoint_delete now (tr_task_id (w_record w)) (Some (xc_fence_token c)) (w_checkpoints w))")
      (use same in \<open>auto simp: delete_checkpoint_def\<close>)
qed

text \<open>What the task is about, which nobody changes.\<close>

definition brief :: "task_record \<Rightarrow> string \<times> string option \<times> string list \<times> (string, json) dict \<times> (string, json) dict" where
  "brief r = (tr_research_topic r, tr_memory_context r, tr_requirement_ids r, tr_coverage_contract r, tr_research_risk_profile r)"

text \<open>Actions change the record, the store, the inbox, the event and the queue, through these steps.\<close>

lemma act_closed:
  assumes "I w"
    and rec: "\<And>w r. I w \<Longrightarrow> tr_task_id r = tr_task_id (w_record w) \<Longrightarrow> tr_run_id r = tr_run_id (w_record w) \<Longrightarrow>
      (task_terminal (tr_status (w_record w)) \<longrightarrow> tr_status r = tr_status (w_record w)) \<Longrightarrow>
      (tr_status r = TaskCompleted \<longrightarrow> tr_status (w_record w) = TaskCompleted) \<Longrightarrow>
      tr_result_artifact_path r = tr_result_artifact_path (w_record w) \<Longrightarrow>
      tr_result_artifact_sha256 r = tr_result_artifact_sha256 (w_record w) \<Longrightarrow>
      set (tr_pending_update_instructions (w_record w)) \<subseteq> set (tr_pending_update_instructions r) \<Longrightarrow>
      (tr_status r \<in> {TaskCancelled, TaskFailed, TaskTimedOut} \<Longrightarrow> tr_status (w_record w) \<noteq> tr_status r \<Longrightarrow> ends) \<Longrightarrow>
      brief r = brief (w_record w) \<Longrightarrow> I (w\<lparr>w_record := r\<rparr>)"
    and queue: "\<And>w q. I w \<Longrightarrow> I (w\<lparr>w_queue := q\<rparr>)"
    and cancel: "\<And>w. I w \<Longrightarrow> I (w\<lparr>w_cancelled := True\<rparr>)"
    and store: "\<And>w f now. I w \<Longrightarrow> I (snd (store_record f now w))"
    and tell: "\<And>w i now x e. I w \<Longrightarrow> e \<noteq> TASK_COMPLETED \<Longrightarrow> I (snd (notify_lead c i now x e w))"
    and kind: "(\<exists>p n i. a = CancelTask p n i) \<or> (\<exists>s n i. a = LoseLease s n i) \<Longrightarrow> ends"
  shows "I (task_act c a w)"
proof -
  have qu: "I (queue_update c s now w)" if "I w" for s now w
  proof (cases "s \<in> set (tr_pending_update_instructions (w_record w))")
    case False
    have "I (w\<lparr>w_record := add_pending s (w_record w)\<rparr>)" by (rule rec[OF that]) (auto simp: add_pending_def brief_def)
    from store[OF this] show ?thesis using False
      by (auto simp: queue_update_def split: prod.split sum.split intro!: queue) (metis snd_conv)+
  qed (simp add: queue_update_def queue that)
  show ?thesis
  proof (cases a)
    case (CancelTask pool now i)
    with kind have ends by blast
    let ?w = "mark_status TaskCancelled (\<lambda>r. r\<lparr>tr_completed_at := Some now\<rparr>) (w\<lparr>w_cancelled := w_cancelled w \<or> \<not> pool\<rparr>)"
    have "I (w\<lparr>w_cancelled := w_cancelled w \<or> \<not> pool\<rparr>)"
      using cancel[OF assms(1)] assms(1) by (cases pool) simp_all
    then have "I ?w" if "task_active (tr_status (w_record w))"
      unfolding mark_status_def using that \<open>ends\<close>
      by (intro rec) (auto simp: task_active_def task_terminal_def brief_def)
    then show ?thesis using CancelTask assms(1) store[of ?w "xc_meta_fence c" now]
      by (auto simp: cancel_task_def Let_def split: prod.split sum.split intro!: tell)
  next
    case (LoseLease s now i)
    with kind have ends by blast
    let ?w = "mark_status TaskFailed (\<lambda>r. r\<lparr>tr_error_message := Some (''Lead lease lost: '' @ s)\<rparr>) (w\<lparr>w_cancelled := True\<rparr>)"
    have "I ?w" if "task_active (tr_status (w_record w))"
      unfolding mark_status_def using that \<open>ends\<close>
      by (intro rec cancel assms(1)) (auto simp: task_active_def task_terminal_def brief_def)
    then show ?thesis using LoseLease assms(1) store[of ?w "xc_meta_fence c" now]
      by (auto simp: lose_lease_def split: prod.split sum.split intro!: tell)
  qed (auto simp: assms(1) qu queue cancel direct_update_def queue_feedback_def require_approval_def
      resolve_last_approval_def mark_status_def Let_def task_terminal_def brief_def intro!: rec)
qed

section \<open>How often the researcher runs\<close>

lemma counted_act: "w_invocations (task_act c a w) = w_invocations w"
  by (rule act_closed[where ends = True and I = "\<lambda>w'. w_invocations w' = w_invocations w"])
    (simp_all add: store_record_world notify_lead_world)

lemma counted_checkpoint: "w_invocations (snd (write_checkpoint c i w)) = w_invocations w"
  using write_checkpoint_world[of c i w] by auto

interpretation counted: save_invariant c "\<lambda>_. True" "\<lambda>_. True" "\<lambda>w. w_invocations w = n" for c n
  by unfold_locales (simp_all add: counted_act counted_checkpoint store_record_world notify_lead_world)

interpretation counting: run_invariant c "\<lambda>_. True" "\<lambda>_. True" "\<lambda>w. w_invocations w = n" "\<lambda>w. w_invocations w = n" for c n
  by unfold_locales (auto intro: counted.keeps_complete)

lemma iteration_invokes: "w_invocations (snd (iteration c i w)) \<le> w_invocations w + 1"
proof (cases "w_cancelled w")
  case False
  let ?n = "w_invocations w"
  have super: "w_invocations (snd (supervise c i w')) = Suc ?n" if "w_invocations w' = ?n" for w'
    unfolding supervise_def
    by (rule counting.keeps_settle[THEN ends_in_def[THEN iffD1], THEN conjunct1])
      (auto simp: that list_all_iff intro!: counted.keeps_happens)
  obtain r w1 where s: "save_checkpoint c (it_save i) (drain c w) = (r, w1)" by force
  have n1: "w_invocations w1 = ?n" using counted.keeps_save[of "drain c w" ?n "it_save i" c] s by (simp add: counting.keeps_drain)
  obtain q w2 where a: "announce c (it_updates i) (instructions_of w) w1 = (q, w2)" by force
  have n2: "w_invocations w2 = ?n" using counted.keeps_announce[of w1 ?n "it_updates i" c "instructions_of w"] n1 a by simp
  show ?thesis using False n1 n2 super[OF n2] by (cases r; cases q) (simp_all add: iteration_def Let_def s a)
next
  case True
  obtain r w1 where s: "save_checkpoint c (it_save i) w = (r, w1)" by force
  then have "w_invocations w1 = w_invocations w" using counted.keeps_save[of w "w_invocations w" "it_save i" c] by simp
  then show ?thesis using True by (cases r) (simp_all add: iteration_def s)
qed

lemma iterations_invoke: "w_invocations (snd (iterations c is w)) \<le> w_invocations w + length is"
proof (induction "is" arbitrary: w)
  case (Cons i "is")
  obtain r w1 where s: "iteration c i w = (r, w1)" by force
  with iteration_invokes[of c i w] Cons[of w1] show ?case by (cases r) (auto intro: le_trans)
qed simp

section \<open>The snapshot of the task\<close>

definition slot_path :: "task_record \<Rightarrow> string \<times> string" where
  "slot_path r = (or_default (tr_run_id r), tr_task_id r)"

definition slot :: "'m world \<Rightarrow> task_snapshot option" where
  "slot w = dict_get (w_store w) (slot_path (w_record w))"

definition snapshot_of :: "task_record \<Rightarrow> task_snapshot \<Rightarrow> bool" where
  "snapshot_of r x \<longleftrightarrow> ts_task_id x = tr_task_id r \<and> ts_status x = tr_status r \<and>
     ts_pending_update_instructions x = tr_pending_update_instructions r \<and>
     ts_result_artifact_path x = tr_result_artifact_path r \<and> ts_result_artifact_sha256 x = tr_result_artifact_sha256 r"

lemma snapshot_of_record: "snapshot_of r (from_record r v f t)" "snapshot_of r (from_record r v f t\<lparr>ts_version := n\<rparr>)"
  by (simp_all add: snapshot_of_def from_record_def)

text \<open>Storing the record fails and changes nothing, or finds a final snapshot of another status and keeps
  it, or replaces the snapshot.\<close>

lemma store_record_cases:
  assumes "store_record f now w = (r, w')"
  obtains (failed) e where "r = Inl e" "w' = w"
  | (kept) x where "r = Inr x" "w' = w" "slot w = Some x" "task_terminal (ts_status x)" "ts_status x \<noteq> tr_status (w_record w)"
  | (written) x st where "r = Inr x" "w' = w\<lparr>w_store := st\<rparr>" "slot w' = Some x" "snapshot_of (w_record w) x"
      "\<And>y. slot w = Some y \<Longrightarrow> task_terminal (ts_status y) \<Longrightarrow> ts_status y = tr_status (w_record w)"
proof -
  let ?r = "w_record w" and ?p = "slot_path (w_record w)"
  show thesis
  proof (cases "file_get (w_store w) (tr_task_id ?r) (Some (or_default (tr_run_id ?r)))")
    case (Inl e)
    then show ?thesis using assms failed by (auto simp: store_record_def update_from_record_def)
  next
    case (Inr cur)
    let ?x = "from_record ?r (case cur of None \<Rightarrow> 1 | Some k \<Rightarrow> ts_version k + 1) f now"
    have path: "task_paths (ts_run_id ?x) (ts_task_id ?x) = Inr ?p"
      using Inr by (auto simp: file_get_def task_paths_def truthy_def or_default_def from_record_def slot_path_def
          validate_component_def split: if_splits sum.splits)
    have r: "r = fst (file_upsert (w_store w) ?x)" "w' = w\<lparr>w_store := snd (file_upsert (w_store w) ?x)\<rparr>"
      using assms by (auto simp: store_record_def update_from_record_def Inr case_prod_beta)
    show ?thesis
    proof (cases "slot w")
      case None
      then show ?thesis using r path snapshot_of_record(1)
        by (intro written[of ?x "dict_set ?p ?x (w_store w)"]) (auto simp: file_upsert_def slot_def)
    next
      case (Some k)
      then have k: "dict_get (w_store w) ?p = Some k" by (simp add: slot_def)
      consider "ts_fence_token ?x < ts_fence_token k"
        | "\<not> ts_fence_token ?x < ts_fence_token k" "task_terminal (ts_status k)" "ts_status ?x \<noteq> ts_status k"
        | "\<not> ts_fence_token ?x < ts_fence_token k" "\<not> (task_terminal (ts_status k) \<and> ts_status ?x \<noteq> ts_status k)" by blast
      then show ?thesis
      proof cases
        case 1
        then show ?thesis using r path k by (intro failed) (auto simp: file_upsert_def)
      next
        case 2
        then show ?thesis using r path k Some by (intro kept[of k]) (auto simp: file_upsert_def from_record_def)
      next
        case 3
        let ?y = "bump_version k ?x"
        have "snapshot_of ?r ?y" using snapshot_of_record by (simp add: bump_version_def)
        moreover have "ts_status ?x = tr_status ?r" by (simp add: from_record_def)
        ultimately show ?thesis using 3 r path k Some
          by (intro written[of ?y "dict_set ?p ?y (w_store w)"]) (auto simp: file_upsert_def slot_def Let_def)
      qed
    qed
  qed
qed

section \<open>How a task ends\<close>

lemma slot_other [simp]:
  "slot (w\<lparr>w_queue := q\<rparr>) = slot w" "slot (w\<lparr>w_cancelled := b\<rparr>) = slot w" "slot (w\<lparr>w_inbox := x\<rparr>) = slot w"
  "slot (w\<lparr>w_events := es\<rparr>) = slot w" "slot (w\<lparr>w_public := ps\<rparr>) = slot w" "slot (w\<lparr>w_checkpoints := d\<rparr>) = slot w"
  "slot (w\<lparr>w_state := s\<rparr>) = slot w" "slot (w\<lparr>w_invocations := n\<rparr>) = slot w" "slot (w\<lparr>w_artifacts := a\<rparr>) = slot w"
  by (simp_all add: slot_def)

lemma slot_record: "tr_task_id r = tr_task_id (w_record w) \<Longrightarrow> tr_run_id r = tr_run_id (w_record w) \<Longrightarrow> slot (w\<lparr>w_record := r\<rparr>) = slot w"
  by (simp add: slot_def slot_path_def)

definition ended :: "'m world \<Rightarrow> bool" where
  "ended w \<longleftrightarrow> task_terminal (tr_status (w_record w))"

definition end_stored :: "'m world \<Rightarrow> bool" where
  "end_stored w \<longleftrightarrow> ended w \<and> (\<exists>x. slot w = Some x \<and> task_terminal (ts_status x))"

lemma end_stored_again:
  assumes "ended w" and "store_record f now w = (Inr x, w')"
  shows "end_stored w'"
  using assms by (cases rule: store_record_cases[OF assms(2)]) (auto simp: end_stored_def ended_def snapshot_of_def)

lemma ended_store: "ended w \<Longrightarrow> ended (snd (store_record f now w))"
  by (simp add: ended_def store_record_world)

lemma end_stored_store:
  assumes "end_stored w"
  shows "end_stored (snd (store_record f now w))"
proof -
  obtain r w' where s: "store_record f now w = (r, w')" by force
  then show ?thesis using assms end_stored_again[of w f now _ w']
    by (cases r; cases rule: store_record_cases[OF s]) (auto simp: end_stored_def)
qed

lemma ended_other [simp]:
  "ended (w\<lparr>w_queue := q\<rparr>) = ended w" "ended (w\<lparr>w_cancelled := b\<rparr>) = ended w" "ended (w\<lparr>w_inbox := x\<rparr>) = ended w"
  "ended (w\<lparr>w_events := es\<rparr>) = ended w" "ended (w\<lparr>w_public := ps\<rparr>) = ended w" "ended (w\<lparr>w_checkpoints := d\<rparr>) = ended w"
  "ended (w\<lparr>w_state := s\<rparr>) = ended w"
  by (simp_all add: ended_def)

lemma end_stored_other [simp]:
  "end_stored (w\<lparr>w_queue := q\<rparr>) = end_stored w" "end_stored (w\<lparr>w_cancelled := b\<rparr>) = end_stored w"
  "end_stored (w\<lparr>w_inbox := x\<rparr>) = end_stored w" "end_stored (w\<lparr>w_events := es\<rparr>) = end_stored w"
  "end_stored (w\<lparr>w_public := ps\<rparr>) = end_stored w" "end_stored (w\<lparr>w_checkpoints := d\<rparr>) = end_stored w"
  "end_stored (w\<lparr>w_state := s\<rparr>) = end_stored w"
  by (simp_all add: end_stored_def)

lemma ended_act: "ended w \<Longrightarrow> ended (task_act c a w)"
  by (rule act_closed[where ends = True and I = ended]) (auto simp: ended_store notify_lead_world, auto simp: ended_def)

lemma end_stored_act: "end_stored w \<Longrightarrow> end_stored (task_act c a w)"
  by (rule act_closed[where ends = True and I = end_stored])
    (auto simp: end_stored_store notify_lead_world, auto simp: end_stored_def ended_def slot_record)

lemma flagged_act: "w_cancelled w \<Longrightarrow> w_cancelled (task_act c a w)"
  by (rule act_closed[where ends = True and I = w_cancelled]) (auto simp: store_record_world notify_lead_world)

lemma checkpoint_only:
  "(\<And>d. I (w\<lparr>w_checkpoints := d\<rparr>) = I w) \<Longrightarrow> I (snd (write_checkpoint c i w)) = I w"
  using write_checkpoint_world[of c i w] by auto

interpretation ended: save_invariant c "\<lambda>_. True" "\<lambda>_. True" ended for c
  by unfold_locales (simp_all add: ended_act ended_store notify_lead_world checkpoint_only[of ended])

interpretation end_stored: save_invariant c "\<lambda>_. True" "\<lambda>_. True" end_stored for c
  by unfold_locales (simp_all add: end_stored_act end_stored_store notify_lead_world checkpoint_only[of end_stored])

interpretation flagged: save_invariant c "\<lambda>_. True" "\<lambda>_. True" w_cancelled for c
  by unfold_locales (simp_all add: flagged_act store_record_world notify_lead_world checkpoint_only[of w_cancelled])

text \<open>A state change that raises nothing was logged, stored and spread.\<close>

lemma emit_Inr:
  assumes "emit_state_change c i e ph notify w = (Inr (), w')"
  obtains p w1 x w2 where "log_event c (em_log i) e p w = (Inr (), w1)"
    "store_record (xc_meta_fence c) (em_now i) (task_acts c (em_before i) w1) = (Inr x, w2)"
    "spread_change c i x e p notify w2 = (Inr (), w')"
proof -
  let ?p = "case ph of Some p \<Rightarrow> p | None \<Rightarrow> task_phase_value (tr_phase (w_record w))"
  obtain u w1 where l: "log_event c (em_log i) e ?p w = (u, w1)" by force
  obtain r w2 where s: "store_record (xc_meta_fence c) (em_now i) (task_acts c (em_before i) w1) = (r, w2)" by force
  from assms l s have "u = Inr ()" by (cases u) (simp_all add: emit_state_change_def Let_def)
  moreover from assms l s this have "em_store i = None" by (cases "em_store i") (simp_all add: emit_state_change_def Let_def)
  moreover from assms l s calculation obtain x where "r = Inr x" by (cases r) (simp_all add: emit_state_change_def Let_def)
  ultimately show thesis using that[of ?p w1 x w2] assms l s by (simp add: emit_state_change_def Let_def)
qed

text \<open>An announced end is stored.\<close>

lemma emit_stores_end:
  assumes "emit_state_change c i e ph notify w = (Inr (), w')" and "ended w"
  shows "end_stored w'"
proof (rule emit_Inr[OF assms(1)])
  fix p w1 x w2
  assume l: "log_event c (em_log i) e p w = (Inr (), w1)"
    and s: "store_record (xc_meta_fence c) (em_now i) (task_acts c (em_before i) w1) = (Inr x, w2)"
    and r: "spread_change c i x e p notify w2 = (Inr (), w')"
  have "ended w1" using ended.keeps_log[of w c "em_log i" e p] assms(2) l by simp
  then have "ended (task_acts c (em_before i) w1)" by (rule ended.keeps_acts) (simp add: list_all_iff)
  from end_stored_again[OF this s] have "end_stored w2" .
  then show ?thesis using end_stored.keeps_spread[of w2 i notify c x e p] r by simp
qed

lemma save_flagged:
  "and_next (save_checkpoint c i w) (\<lambda>_ w. (Inr b, w)) = (Inr v, w') \<Longrightarrow> w_cancelled w \<Longrightarrow> w_cancelled w'"
  using flagged.keeps_save[of w i c] by (auto simp: and_next_Inr)

lemma complete_stored:
  assumes "complete_task c i res w = (Inr v, w')"
  shows "end_stored w'"
proof -
  from assms obtain n where n: "sources_read res (tr_source_count (w_record w)) = Inr n"
    by (auto simp: complete_task_def Let_def split: sum.splits)
  let ?d = "durable_result (w_record w) res"
  let ?w = "mark_status TaskCompleted (\<lambda>r. r\<lparr>tr_phase := PhaseCompleted, tr_completed_at := Some (it_now i),
      tr_result := Some ?d, tr_source_count := n\<rparr>) w"
  from assms obtain digest w1 w2 where
    p: "persist_task_result c (it_persist i) (tr_task_id (w_record w)) ?d ?w = (Inr digest, w1)"
    and d: "delete_checkpoint c (it_delete_now i) (it_delete i) (w1\<lparr>w_record := w_record w1\<lparr>tr_result_artifact_path :=
       Some (result_file (tr_task_id (w_record w))), tr_result_artifact_sha256 := Some digest\<rparr>\<rparr>) = (Inr (), w2)"
    and e: "emit_state_change c (it_done i) TASK_COMPLETED (Some ''completed'') True w2 = (Inr (), w')"
    by (cases "it_open i") (auto simp: complete_task_def Let_def n and_next_Inr)
  have "tr_status (w_record w1) = TaskCompleted"
    using p by (cases "it_persist i") (auto simp: persist_task_result_def mark_status_def split: if_splits)
  moreover obtain cps where "w2 = (w1\<lparr>w_record := w_record w1\<lparr>tr_result_artifact_path :=
       Some (result_file (tr_task_id (w_record w))), tr_result_artifact_sha256 := Some digest\<rparr>\<rparr>)\<lparr>w_checkpoints := cps\<rparr>"
    using d delete_checkpoint_world by (metis snd_conv)
  ultimately have "ended w2" by (simp add: ended_def task_terminal_def)
  with emit_stores_end[OF e] show ?thesis .
qed

lemma finish_returned: "finish_research c i w = (Inr v, w') \<Longrightarrow> w_cancelled w' \<or> end_stored w'"
  by (auto simp: finish_research_def dest: complete_stored save_flagged split: sum.splits if_splits)

lemma control_again: "announce_control c i s w = (Inr v, w') \<Longrightarrow> v = Again"
  by (auto simp: announce_control_def and_next_Inr)

lemma settle_unseen:
  assumes "\<not> (it_cancel_seen i \<and> w_cancelled w)"
  shows "settle_wait c i w =
    (if it_control_seen i then
       (case w_queue w of
          ControlUpdate s # q \<Rightarrow> announce_control c i s (happens c (it_rest i) (w\<lparr>w_queue := q\<rparr>))
        | ControlMarker # q \<Rightarrow> finish_research c i (happens c (it_rest i) (w\<lparr>w_queue := q\<rparr>))
        | [] \<Rightarrow> finish_research c i (happens c (it_rest i) w))
     else finish_research c i (happens c (it_rest i) w))"
  unfolding settle_wait_def if_not_P[OF assms] by (simp split: list.split control.split)

lemma settle_returned:
  assumes "settle_wait c i w = (Inr Returned, w')"
  shows "w_cancelled w' \<or> end_stored w'"
proof (cases "it_cancel_seen i \<and> w_cancelled w")
  case True
  have "w_cancelled (happens c (it_rest i) w)"
    by (rule flagged.keeps_happens) (use True in \<open>simp_all add: list_all_iff\<close>)
  then show ?thesis using assms True by (simp add: settle_wait_def) (drule save_flagged, simp_all)
next
  case False
  from assms show ?thesis unfolding settle_unseen[OF False]
    by (auto dest: finish_returned control_again split: if_splits list.splits control.splits)
qed

lemma iteration_returned:
  assumes "iteration c i w = (Inr Returned, w')"
  shows "w_cancelled w' \<or> end_stored w'"
proof (cases "w_cancelled w")
  case True
  then show ?thesis using assms by (simp add: iteration_def) (drule save_flagged, simp_all)
next
  case False
  then show ?thesis using assms settle_returned by (auto simp: iteration_def Let_def and_next_Inr supervise_def)
qed

lemma iterations_returned: "iterations c is w = (Inr (), w') \<Longrightarrow> w_cancelled w' \<or> end_stored w'"
proof (induction "is" arbitrary: w)
  case (Cons i "is")
  then obtain v w1 where v: "iteration c i w = (Inr v, w1)" by (auto simp: and_next_Inr)
  then show ?case using Cons by (cases v) (auto dest: iteration_returned)
qed simp

lemma record_end_returned:
  assumes "record_end c t st msg e w = (Inr (), w')" and "task_terminal st"
  shows "end_stored w'"
proof -
  let ?w = "mark_status st (\<lambda>r. r\<lparr>tr_error_message := Some msg, tr_completed_at := Some (ti_ended t)\<rparr>) w"
  from assms(1) obtain w1 where s: "save_checkpoint c (ti_final_save t) ?w = (Inr (), w1)"
    and e: "emit_state_change c (ti_final t) e None True w1 = (Inr (), w')"
    by (auto simp: record_end_def and_next_Inr)
  have "ended ?w" using assms(2) by (simp add: ended_def mark_status_def)
  then have "ended w1" using ended.keeps_save[of ?w "ti_final_save t" c] s by simp
  with emit_stores_end[OF e] show ?thesis .
qed

lemma guarded_returned:
  assumes "guarded c t (iterations c is w) = (Inr (), w')"
  shows "w_cancelled w' \<or> end_stored w'"
proof -
  obtain r w1 where i: "iterations c is w = (r, w1)" by force
  show ?thesis
  proof (cases r)
    case (Inl x)
    then show ?thesis using assms i record_end_returned[of c t _ _ _ w1 w']
      by (cases x) (auto simp: guarded_def handle_exception_def task_terminal_def)
  next
    case (Inr u)
    then show ?thesis using assms i iterations_returned[of c "is" w w1] by (simp add: guarded_def)
  qed
qed

lemma start_failure_ended: "ended (snd (record_start_failure c f i now s w))"
proof -
  let ?w = "mark_status TaskFailed (\<lambda>r. r\<lparr>tr_error_message := Some (''Unable to publish task start: '' @ s), tr_completed_at := Some now\<rparr>) w"
  have e: "ended ?w" by (simp add: ended_def mark_status_def task_terminal_def)
  then have "ended (task_acts c (em_before i) ?w)" by (rule ended.keeps_acts) (simp add: list_all_iff)
  from ended_store[OF this, of f "em_now i"] show ?thesis using e
    by (auto simp: record_start_failure_def Let_def notify_lead_world split: option.split exn.split prod.split sum.split)
qed

lemma counted_start:
  "w_invocations (snd (announce_start c t w)) = w_invocations w"
  "w_invocations (snd (record_start_failure c f i now s w)) = w_invocations w"
proof -
  show "w_invocations (snd (announce_start c t w)) = w_invocations w"
    unfolding announce_start_def by (rule counted.keeps_emit) (simp_all add: mark_status_def)
  let ?w = "mark_status TaskFailed (\<lambda>r. r\<lparr>tr_error_message := Some (''Unable to publish task start: '' @ s), tr_completed_at := Some now\<rparr>) w"
  have "w_invocations (task_acts c (em_before i) ?w) = w_invocations w"
    by (rule counted.keeps_acts) (simp_all add: mark_status_def list_all_iff)
  then show "w_invocations (snd (record_start_failure c f i now s w)) = w_invocations w"
    using store_record_world[of f "em_now i" "task_acts c (em_before i) ?w"]
    by (auto simp: record_start_failure_def Let_def notify_lead_world mark_status_def split: option.split exn.split prod.split sum.split)
qed

lemma counted_load: "w_invocations (snd (start_state c now f i w)) = w_invocations w"
proof -
  let ?k = "\<lambda>k w. and_next (emit_state_change c i CHECKPOINT_LOADED (Some (ck_phase k)) False w) (\<lambda>_ w.
      case xc_decode c (ck_messages_snapshot k) of
        Inl x \<Rightarrow> (Inl x, w)
      | Inr ms \<Rightarrow> (Inr (), w\<lparr>w_state := restored_state k (w_record w) ms,
          w_record := w_record w\<lparr>tr_phase := (if ck_phase k = ''compressing'' then Compressing else Researching)\<rparr>\<rparr>))"
  have "w_invocations (snd (?k k w)) = w_invocations w" for k
    by (intro counted.keeps_next counted.keeps_emit) (auto split: sum.split)
  then show ?thesis
    by (cases f; cases "checkpoint_load now (tr_task_id (w_record w)) (w_checkpoints w)")
      (simp_all add: start_state_def split: option.split)
qed

lemma counted_guarded: "w_invocations (snd (guarded c t r)) = w_invocations (snd r)"
proof -
  have "w_invocations (snd (record_end c t st m e w)) = w_invocations w" for st m e w
    unfolding record_end_def by (intro counted.keeps_next counted.keeps_save counted.keeps_emit) (simp_all add: mark_status_def)
  then show ?thesis by (auto simp: guarded_def handle_exception_def split: prod.split sum.split exn.split)
qed


section \<open>A task to evaluate\<close>

definition calm_emit :: emit_input where
  "calm_emit = \<lparr>em_now = 1, em_log = None, em_before = [], em_store = None, em_after = [], em_activity = None,
     em_public = None, em_sources = [], em_summary = True, em_metrics = None, em_mail = None, em_mail_log = None,
     em_message_id = ''m1''\<rparr>"

definition calm_save :: save_input where
  "calm_save = \<lparr>sv_now = 1, sv_fault = None, sv_emit = calm_emit\<rparr>"

definition calm_iteration :: iteration_input where
  "calm_iteration = \<lparr>it_save = calm_save, it_updates = (\<lambda>_. calm_emit), it_during = [], it_cancel_seen = True,
     it_control_seen = True, it_rest = [], it_outcome = Inr [(''compressed_research'', JStr ''found'')],
     it_tail_save = calm_save, it_control_emit = calm_emit, it_now = 2, it_open = None, it_persist = None,
     it_delete_now = 2, it_delete = None, it_done = calm_emit\<rparr>"

definition calm_task :: task_input where
  "calm_task = \<lparr>ti_started = 1, ti_start = calm_emit, ti_start_failed = calm_emit, ti_load_now = 1, ti_load = None,
     ti_loaded = calm_emit, ti_one = calm_iteration, ti_two = calm_iteration, ti_three = calm_iteration, ti_ended = 3,
     ti_final_save = calm_save, ti_final = calm_emit\<rparr>"

definition small_mailbox :: mailbox_config where
  "small_mailbox = \<lparr>mb_run_id = ''r1'', claim_lease_seconds = 10, max_delivery_attempts = 3, acked_retention_seconds = 100,
     compaction_threshold = 50\<rparr>"

text \<open>Messages are texts; a dictionary is packed into its task.\<close>

definition small_setting :: "string setting" where
  "small_setting = \<lparr>xc_run_id = ''r1'', xc_fence_token = 1, xc_meta_fence = 1, xc_event_log = True, xc_has_manager = True,
     xc_checkpoint_enabled = True, xc_quality_evaluation = False, xc_timeout_text = ''60'', xc_mailbox = small_mailbox,
     xc_human = (\<lambda>s. s), xc_encode = (\<lambda>s. [(''content'', JStr s)]),
     xc_decode = (\<lambda>ds. case jmapM (\<lambda>d. jstr (jget ''content'' d)) ds of Inl e \<Rightarrow> Inl (ErrorExn []) | Inr ms \<Rightarrow> Inr ms),
     xc_pack = (\<lambda>d. py_text (\<lambda>_. []) (jget ''task_id'' d)), xc_dumps = (\<lambda>d. py_text (\<lambda>_. []) (jget ''task_id'' d)),
     xc_sha = (\<lambda>s. ''h'' @ s), xc_error_text = (\<lambda>e. ''store''), xc_checkpoint_text = (\<lambda>e. ''checkpoint'')\<rparr>"

definition small_record :: task_record where
  "small_record = new_task_record ''t1'' 0 ''topic'' ''r1'' None ''title'' ''wave-1'' ''p1'' [] [] []"

definition small_world :: "string world" where
  "small_world = \<lparr>w_record = small_record, w_cancelled = False, w_queue = [], w_state = first_state small_setting small_record,
     w_store = [], w_checkpoints = [], w_artifacts = [],
     w_inbox = \<lparr>inbox_file = None, dead_letters = [], corrupted_marker = False\<rparr>, w_events = [], w_public = [], w_invocations = 0\<rparr>"

lemma small_run:
  "case run_task_with_control small_setting calm_task small_world of (r, w) \<Rightarrow> r = Inr () \<and> \<not> w_cancelled w \<and>
     fst (announce_start small_setting calm_task small_world) = Inr () \<and> w_invocations w = 1 \<and>
     tr_status (w_record w) = TaskCompleted \<and> map snd (w_artifacts w) = [''t1''] \<and> w_checkpoints w = []"
  by code_simp


end
