(* ===== verification/Executor_Delivery.thy ===== *)
theory Executor_Delivery
  imports Executor_Safety
begin

text \<open>
  What the lead can rely on when a task reports its completion. While the task runs, its snapshot is not
  final and no completion is announced (\<open>running\<close>); \<open>complete_task\<close> writes the result file before the record
  names it (\<open>sealed\<close>), stores the completed snapshot before it announces it (\<open>sealed\<close> and \<open>slot_complete\<close>),
  and what the handlers do after a failure leaves an announced completion as it is (\<open>closing\<close>). Each is an
  invariant in the sense of \<open>Executor_Safety\<close>, and all imply \<open>claimable\<close>. A cancellation through the pool
  breaks the contract: \<open>cancelled_completion_blocks_lead\<close>.
\<close>

section \<open>What the lead finds\<close>

definition lead_messages :: "'m world \<Rightarrow> mailbox_message list" where
  "lead_messages w = (case inbox_file (w_inbox w) of None \<Rightarrow> [] | Some mb \<Rightarrow> messages mb)"

text \<open>A message that says the task \<open>k\<close> completed, for a decoder \<open>u\<close> of payloads.\<close>

definition completion_of :: "(string \<Rightarrow> (string, json) dict) \<Rightarrow> string \<Rightarrow> mailbox_message \<Rightarrow> bool" where
  "completion_of u k m \<longleftrightarrow> msg_type m = ''task_completed'' \<and> dict_get (u (payload m)) ''task_id'' = Some (JStr k)"

definition told_completed :: "(string \<Rightarrow> (string, json) dict) \<Rightarrow> 'm world \<Rightarrow> bool" where
  "told_completed u w \<longleftrightarrow> list_ex (completion_of u (tr_task_id (w_record w))) (lead_messages w)"

definition result_kept :: "'m setting \<Rightarrow> 'm world \<Rightarrow> string option \<Rightarrow> string option \<Rightarrow> bool" where
  "result_kept c w path digest \<longleftrightarrow>
     (let file = result_file (tr_task_id (w_record w))
      in path = Some file \<and> (case dict_get (w_artifacts w) file of None \<Rightarrow> False | Some content \<Rightarrow> digest = Some (xc_sha c content)))"

definition slot_complete :: "'m world \<Rightarrow> bool" where
  "slot_complete w \<longleftrightarrow> (case slot w of None \<Rightarrow> False | Some x \<Rightarrow> ts_status x = TaskCompleted)"

definition slot_open :: "'m world \<Rightarrow> bool" where
  "slot_open w \<longleftrightarrow> (case slot w of None \<Rightarrow> True | Some x \<Rightarrow> \<not> task_terminal (ts_status x))"

definition slot_kept :: "'m setting \<Rightarrow> 'm world \<Rightarrow> bool" where
  "slot_kept c w \<longleftrightarrow> (case slot w of None \<Rightarrow> True | Some x \<Rightarrow>
     ts_status x = TaskCompleted \<longrightarrow> result_kept c w (ts_result_artifact_path x) (ts_result_artifact_sha256 x))"

definition same_task :: "task_record \<Rightarrow> 'm world \<Rightarrow> bool" where
  "same_task k w \<longleftrightarrow> tr_task_id (w_record w) = tr_task_id k \<and> tr_run_id (w_record w) = tr_run_id k"

section \<open>The phases of a task\<close>

definition claimable :: "'m setting \<Rightarrow> (string \<Rightarrow> (string, json) dict) \<Rightarrow> task_record \<Rightarrow> 'm world \<Rightarrow> bool" where
  "claimable c u k w \<longleftrightarrow> same_task k w \<and> slot_kept c w \<and> (told_completed u w \<longrightarrow> slot_complete w)"

definition running :: "(string \<Rightarrow> (string, json) dict) \<Rightarrow> task_record \<Rightarrow> 'm world \<Rightarrow> bool" where
  "running u k w \<longleftrightarrow> same_task k w \<and> \<not> task_terminal (tr_status (w_record w)) \<and> slot_open w \<and> \<not> told_completed u w"

definition sealed :: "'m setting \<Rightarrow> (string \<Rightarrow> (string, json) dict) \<Rightarrow> task_record \<Rightarrow> 'm world \<Rightarrow> bool" where
  "sealed c u k w \<longleftrightarrow> claimable c u k w \<and> tr_status (w_record w) = TaskCompleted \<and> (slot_open w \<or> slot_complete w) \<and>
     result_kept c w (tr_result_artifact_path (w_record w)) (tr_result_artifact_sha256 (w_record w))"

definition closing :: "'m setting \<Rightarrow> (string \<Rightarrow> (string, json) dict) \<Rightarrow> task_record \<Rightarrow> 'm world \<Rightarrow> bool" where
  "closing c u k w \<longleftrightarrow> claimable c u k w \<and> ended w \<and> tr_status (w_record w) \<noteq> TaskCompleted"

lemmas phase_defs = running_def sealed_def closing_def claimable_def

lemma running_claimable: "running u k w \<Longrightarrow> claimable c u k w"
  by (auto simp: running_def claimable_def slot_open_def slot_kept_def task_terminal_def split: option.splits)

section \<open>How the steps change what the lead finds\<close>

lemma found_other [simp]:
  "told_completed u (w\<lparr>w_queue := q\<rparr>) = told_completed u w" "told_completed u (w\<lparr>w_cancelled := b\<rparr>) = told_completed u w"
  "told_completed u (w\<lparr>w_events := es\<rparr>) = told_completed u w" "told_completed u (w\<lparr>w_public := ps\<rparr>) = told_completed u w"
  "told_completed u (w\<lparr>w_checkpoints := d\<rparr>) = told_completed u w" "told_completed u (w\<lparr>w_state := s\<rparr>) = told_completed u w"
  "told_completed u (w\<lparr>w_store := st\<rparr>) = told_completed u w" "told_completed u (w\<lparr>w_artifacts := a\<rparr>) = told_completed u w"
  "told_completed u (w\<lparr>w_invocations := n\<rparr>) = told_completed u w"
  by (simp_all add: told_completed_def lead_messages_def)

lemma kept_other [simp]:
  "result_kept c (w\<lparr>w_queue := q\<rparr>) = result_kept c w" "result_kept c (w\<lparr>w_cancelled := b\<rparr>) = result_kept c w"
  "result_kept c (w\<lparr>w_events := es\<rparr>) = result_kept c w" "result_kept c (w\<lparr>w_public := ps\<rparr>) = result_kept c w"
  "result_kept c (w\<lparr>w_checkpoints := d\<rparr>) = result_kept c w" "result_kept c (w\<lparr>w_state := s\<rparr>) = result_kept c w"
  "result_kept c (w\<lparr>w_store := st\<rparr>) = result_kept c w" "result_kept c (w\<lparr>w_inbox := i\<rparr>) = result_kept c w"
  "result_kept c (w\<lparr>w_invocations := n\<rparr>) = result_kept c w"
  by (auto simp: result_kept_def fun_eq_iff)

lemma named_record:
  assumes "tr_task_id r = tr_task_id (w_record w)" and "tr_run_id r = tr_run_id (w_record w)"
  shows "told_completed u (w\<lparr>w_record := r\<rparr>) = told_completed u w" "result_kept c (w\<lparr>w_record := r\<rparr>) = result_kept c w"
    "slot (w\<lparr>w_record := r\<rparr>) = slot w" "same_task k (w\<lparr>w_record := r\<rparr>) = same_task k w"
  using assms by (auto simp: told_completed_def result_kept_def fun_eq_iff slot_record lead_messages_def same_task_def)

lemma phase_other [simp]:
  "claimable c u k (w\<lparr>w_queue := q\<rparr>) = claimable c u k w" "claimable c u k (w\<lparr>w_cancelled := b\<rparr>) = claimable c u k w"
  "claimable c u k (w\<lparr>w_events := es\<rparr>) = claimable c u k w" "claimable c u k (w\<lparr>w_public := ps\<rparr>) = claimable c u k w"
  "claimable c u k (w\<lparr>w_checkpoints := d\<rparr>) = claimable c u k w" "claimable c u k (w\<lparr>w_state := s\<rparr>) = claimable c u k w"
  "claimable c u k (w\<lparr>w_invocations := n\<rparr>) = claimable c u k w"
  by (simp_all add: claimable_def slot_kept_def slot_complete_def same_task_def split: option.split)

lemma slot_parts:
  "slot w' = slot w \<Longrightarrow> slot_open w' = slot_open w" "slot w' = slot w \<Longrightarrow> slot_complete w' = slot_complete w"
  "slot w' = slot w \<Longrightarrow> result_kept c w' = result_kept c w \<Longrightarrow> slot_kept c w' = slot_kept c w"
  by (simp_all add: slot_open_def slot_complete_def slot_kept_def split: option.split)

text \<open>A message can only be added, and only the one of the event.\<close>

lemma send_op_messages:
  "m \<in> set (messages (snd (send_op cfg i t now r mb))) \<Longrightarrow> m \<in> set (messages mb) \<or> msg_type m = req_type r"
  using compact_subset[of cfg now] by (fastforce simp: send_op_def Let_def split: option.splits)

lemma mailbox_send_messages:
  assumes "m \<in> set (case inbox_file (snd (mailbox_send cfg i t now r st)) of None \<Rightarrow> [] | Some mb \<Rightarrow> messages mb)"
  shows "m \<in> set (case inbox_file st of None \<Rightarrow> [] | Some mb \<Rightarrow> messages mb) \<or> msg_type m = req_type r"
proof (cases "load_locked (req_recipient r) st")
  case (Pair q st')
  then have same: "inbox_file st' = inbox_file st" by (auto simp: load_locked_def split: option.splits if_splits)
  show ?thesis
  proof (cases q)
    case (Inl e)
    then show ?thesis using assms Pair same by (auto simp: mailbox_send_def validate_component_def split: if_splits)
  next
    case (Inr mb)
    then have "messages mb = (case inbox_file st of None \<Rightarrow> [] | Some mb \<Rightarrow> messages mb)"
      using Pair by (auto simp: load_locked_def split: option.splits if_splits)
    then show ?thesis using assms Pair Inr send_op_messages[of m cfg i t now r mb]
      by (auto simp: mailbox_send_def validate_component_def case_prod_beta split: if_splits)
  qed
qed

lemma send_messages:
  "m \<in> set (lead_messages (snd (notify_lead c i now x e w))) \<Longrightarrow> m \<in> set (lead_messages w) \<or> msg_type m = event_message_type e"
  using mailbox_send_messages[of m "xc_mailbox c" i now now "task_update (xc_pack c) x e" "w_inbox w"]
  by (simp add: lead_messages_def notify_lead_world publish_task_update_def task_update_def Let_def)

lemma told_after:
  assumes "told_completed u (snd (notify_lead c i now x e w))" and "e \<noteq> TASK_COMPLETED"
  shows "told_completed u w"
proof -
  have "w_record (snd (notify_lead c i now x e w)) = w_record w" by (simp add: notify_lead_world)
  with assms show ?thesis
    by (auto simp: told_completed_def list_ex_iff completion_of_def dest!: send_messages simp: completed_message_type)
qed

lemma claimable_told:
  assumes "claimable c u k w" and "e = TASK_COMPLETED \<Longrightarrow> slot_complete w"
  shows "claimable c u k (snd (notify_lead c i now x e w))"
  using assms told_after[of u c i now x e w] slot_parts[of "snd (notify_lead c i now x e w)" w]
  by (auto simp: claimable_def notify_lead_world same_task_def)

text \<open>The record of the task may be stored whenever it is not completed, or its result is kept.\<close>

lemma store_slot:
  assumes "store_record f now w = (r, w')" and "slot_open w \<or> slot_complete w" and "slot_kept c w"
    and "tr_status (w_record w) = TaskCompleted"
    and "result_kept c w (tr_result_artifact_path (w_record w)) (tr_result_artifact_sha256 (w_record w))"
  shows "slot_kept c w' \<and> (slot_open w' \<or> slot_complete w') \<and> (isl r \<longrightarrow> w' = w) \<and> (\<not> isl r \<longrightarrow> slot_complete w')"
  using assms(2-5)
  by (cases rule: store_record_cases[OF assms(1)])
    (auto simp: slot_open_def slot_complete_def slot_kept_def snapshot_of_def split: option.splits)

section \<open>Each phase is an invariant\<close>

text \<open>What the others may do: anything but ending the task.\<close>

fun hands_off :: "task_action \<Rightarrow> bool" where
  "hands_off (CancelTask pool now i) \<longleftrightarrow> False"
| "hands_off (LoseLease s now i) \<longleftrightarrow> False"
| "hands_off _ \<longleftrightarrow> True"

abbreviation no_completion :: "event_type \<Rightarrow> bool" where
  "no_completion e \<equiv> e \<noteq> TASK_COMPLETED"

lemma same_task_parts:
  "w_record w' = w_record w \<Longrightarrow> same_task k w' = same_task k w"
  "w_record w' = w_record w \<Longrightarrow> w_inbox w' = w_inbox w \<Longrightarrow> told_completed u w' = told_completed u w"
  "w_record w' = w_record w \<Longrightarrow> w_artifacts w' = w_artifacts w \<Longrightarrow> result_kept c w' = result_kept c w"
  by (auto simp: same_task_def told_completed_def lead_messages_def result_kept_def fun_eq_iff)

lemma running_other [simp]:
  "running u k (w\<lparr>w_queue := q\<rparr>) = running u k w" "running u k (w\<lparr>w_cancelled := b\<rparr>) = running u k w"
  "running u k (w\<lparr>w_events := es\<rparr>) = running u k w" "running u k (w\<lparr>w_public := ps\<rparr>) = running u k w"
  "running u k (w\<lparr>w_checkpoints := d\<rparr>) = running u k w" "running u k (w\<lparr>w_state := s\<rparr>) = running u k w"
  "running u k (w\<lparr>w_invocations := n\<rparr>) = running u k w"
  by (simp_all add: running_def slot_open_def same_task_def)

lemma running_store:
  assumes "running u k w"
  shows "running u k (snd (store_record f now w))"
proof -
  obtain r w' where s: "store_record f now w = (r, w')" by force
  show ?thesis using assms s
    by (cases rule: store_record_cases[OF s]) (auto simp: running_def slot_open_def snapshot_of_def same_task_def)
qed

lemma running_told: "running u k w \<Longrightarrow> no_completion e \<Longrightarrow> running u k (snd (notify_lead c i now x e w))"
  using told_after[of u c i now x e w] by (auto simp: running_def notify_lead_world slot_open_def same_task_def)

lemma running_record:
  "running u k w \<Longrightarrow> tr_task_id r = tr_task_id (w_record w) \<Longrightarrow> tr_run_id r = tr_run_id (w_record w) \<Longrightarrow>
    \<not> task_terminal (tr_status r) \<Longrightarrow> running u k (w\<lparr>w_record := r\<rparr>)"
  by (simp add: running_def named_record slot_open_def)

lemma running_status: "running u k w \<Longrightarrow> \<not> task_terminal (tr_status (w_record w))"
  by (simp add: running_def)

lemma running_act: "running u k w \<Longrightarrow> hands_off a \<Longrightarrow> running u k (task_act c a w)"
  by (rule act_closed[where ends = False and I = "running u k"])
    (auto intro: running_store running_told, auto intro!: running_record dest: running_status simp: task_terminal_def)

lemma sealed_other [simp]:
  "sealed c u k (w\<lparr>w_queue := q\<rparr>) = sealed c u k w" "sealed c u k (w\<lparr>w_cancelled := b\<rparr>) = sealed c u k w"
  "sealed c u k (w\<lparr>w_events := es\<rparr>) = sealed c u k w" "sealed c u k (w\<lparr>w_public := ps\<rparr>) = sealed c u k w"
  "sealed c u k (w\<lparr>w_checkpoints := d\<rparr>) = sealed c u k w"
  by (simp_all add: sealed_def slot_open_def slot_complete_def)

lemma sealed_after:
  assumes "sealed c u k w" and "store_record f now w = (r, w')"
  shows "sealed c u k w' \<and> (isl r \<or> slot_complete w')"
proof -
  obtain st where "w' = w\<lparr>w_store := st\<rparr>" using assms(2) store_record_world[of f now w] by auto
  then show ?thesis using assms(1) store_slot[OF assms(2), of c]
    by (cases "isl r") (auto simp: sealed_def claimable_def same_task_def)
qed

lemma sealed_store: "sealed c u k w \<Longrightarrow> sealed c u k (snd (store_record f now w))"
  using sealed_after[of c u k w f now] by (cases "store_record f now w") auto

lemma sealed_told:
  "sealed c u k w \<Longrightarrow> (e = TASK_COMPLETED \<Longrightarrow> slot_complete w) \<Longrightarrow> sealed c u k (snd (notify_lead c i now x e w))"
  using claimable_told[of c u k w e i now x] by (auto simp: sealed_def notify_lead_world slot_open_def slot_complete_def)

lemma sealed_record:
  assumes "sealed c u k w" and n: "tr_task_id r = tr_task_id (w_record w)" "tr_run_id r = tr_run_id (w_record w)"
    and "tr_status r = TaskCompleted" and "tr_result_artifact_path r = tr_result_artifact_path (w_record w)"
    and "tr_result_artifact_sha256 r = tr_result_artifact_sha256 (w_record w)"
  shows "sealed c u k (w\<lparr>w_record := r\<rparr>)"
  using assms named_record[OF n] slot_parts[of "w\<lparr>w_record := r\<rparr>" w]
  by (simp add: sealed_def claimable_def)

lemma sealed_status: "sealed c u k w \<Longrightarrow> tr_status (w_record w) = TaskCompleted"
  by (simp add: sealed_def)

lemma sealed_act: "sealed c u k w \<Longrightarrow> hands_off a \<Longrightarrow> sealed c u k (task_act c a w)"
  by (rule act_closed[where ends = False and I = "sealed c u k"])
    (auto intro: sealed_store sealed_told, auto intro!: sealed_record dest: sealed_status simp: task_terminal_def)

lemma closing_other [simp]:
  "closing c u k (w\<lparr>w_queue := q\<rparr>) = closing c u k w" "closing c u k (w\<lparr>w_cancelled := b\<rparr>) = closing c u k w"
  "closing c u k (w\<lparr>w_events := es\<rparr>) = closing c u k w" "closing c u k (w\<lparr>w_public := ps\<rparr>) = closing c u k w"
  "closing c u k (w\<lparr>w_checkpoints := d\<rparr>) = closing c u k w" "closing c u k (w\<lparr>w_state := s\<rparr>) = closing c u k w"
  by (simp_all add: closing_def)

text \<open>A record that is not completed never replaces a completed snapshot.\<close>

lemma closing_store:
  assumes "closing c u k w"
  shows "closing c u k (snd (store_record f now w))"
proof -
  obtain r w' where s: "store_record f now w = (r, w')" by force
  show ?thesis using assms s
    by (cases rule: store_record_cases[OF s])
      (auto simp: closing_def claimable_def ended_def slot_kept_def slot_complete_def snapshot_of_def same_task_def
        task_terminal_def split: option.splits)
qed

lemma closing_told: "closing c u k w \<Longrightarrow> no_completion e \<Longrightarrow> closing c u k (snd (notify_lead c i now x e w))"
  using claimable_told[of c u k w e i now x] by (auto simp: closing_def notify_lead_world ended_def)

lemma claimable_record:
  assumes "claimable c u k w" and n: "tr_task_id r = tr_task_id (w_record w)" "tr_run_id r = tr_run_id (w_record w)"
  shows "claimable c u k (w\<lparr>w_record := r\<rparr>)"
  using assms(1) named_record[OF n] slot_parts[of "w\<lparr>w_record := r\<rparr>" w] by (simp add: claimable_def)

lemma closing_record:
  "claimable c u k w \<Longrightarrow> tr_task_id r = tr_task_id (w_record w) \<Longrightarrow> tr_run_id r = tr_run_id (w_record w) \<Longrightarrow>
    task_terminal (tr_status r) \<Longrightarrow> tr_status r \<noteq> TaskCompleted \<Longrightarrow> closing c u k (w\<lparr>w_record := r\<rparr>)"
  using claimable_record[of c u k w r] by (simp add: closing_def ended_def)

lemma closing_parts:
  "closing c u k w \<Longrightarrow> claimable c u k w" "closing c u k w \<Longrightarrow> task_terminal (tr_status (w_record w))"
  "closing c u k w \<Longrightarrow> tr_status (w_record w) \<noteq> TaskCompleted"
  by (simp_all add: closing_def ended_def)

lemma closing_act: "closing c u k w \<Longrightarrow> hands_off a \<Longrightarrow> closing c u k (task_act c a w)"
  by (rule act_closed[where ends = False and I = "closing c u k"])
    (auto intro: closing_store closing_told, auto intro!: closing_record dest: closing_parts)

interpretation running: save_invariant c hands_off no_completion "running u k" for c u k
  by unfold_locales (auto intro: running_act running_store running_told simp: checkpoint_only[of "running u k"])

interpretation sealed: emit_invariant c hands_off no_completion "sealed c u k" for c u k
  by unfold_locales (auto intro: sealed_act sealed_store sealed_told)

interpretation closing: save_invariant c hands_off no_completion "closing c u k" for c u k
  by unfold_locales (auto intro: closing_act closing_store closing_told simp: checkpoint_only[of "closing c u k"])

definition announced :: "'m setting \<Rightarrow> (string \<Rightarrow> (string, json) dict) \<Rightarrow> task_record \<Rightarrow> 'm world \<Rightarrow> bool" where
  "announced c u k w \<longleftrightarrow> sealed c u k w \<and> slot_complete w"

lemma announced_store:
  assumes "announced c u k w"
  shows "announced c u k (snd (store_record f now w))"
proof -
  obtain r w' where s: "store_record f now w = (r, w')" by force
  have "slot_kept c w" using assms by (simp add: announced_def sealed_def claimable_def)
  then show ?thesis using assms s sealed_after[of c u k w f now r w'] store_slot[OF s, of c]
    by (cases "isl r") (auto simp: announced_def sealed_def)
qed

lemma announced_told: "announced c u k w \<Longrightarrow> announced c u k (snd (notify_lead c i now x e w))"
  using sealed_told[of c u k w e i now x] slot_parts(2)[of "snd (notify_lead c i now x e w)" w]
  by (auto simp: announced_def notify_lead_world)

lemma announced_other [simp]:
  "announced c u k (w\<lparr>w_queue := q\<rparr>) = announced c u k w" "announced c u k (w\<lparr>w_cancelled := b\<rparr>) = announced c u k w"
  "announced c u k (w\<lparr>w_events := es\<rparr>) = announced c u k w" "announced c u k (w\<lparr>w_public := ps\<rparr>) = announced c u k w"
  by (simp_all add: announced_def slot_complete_def)

lemma announced_record:
  assumes "announced c u k w" and n: "tr_task_id r = tr_task_id (w_record w)" "tr_run_id r = tr_run_id (w_record w)"
    and "tr_status r = TaskCompleted" and "tr_result_artifact_path r = tr_result_artifact_path (w_record w)"
    and "tr_result_artifact_sha256 r = tr_result_artifact_sha256 (w_record w)"
  shows "announced c u k (w\<lparr>w_record := r\<rparr>)"
  using assms named_record(3)[OF n] sealed_record[of c u k w r] slot_parts(2)[of "w\<lparr>w_record := r\<rparr>" w]
  by (simp add: announced_def)

lemma announced_status: "announced c u k w \<Longrightarrow> tr_status (w_record w) = TaskCompleted"
  by (simp add: announced_def sealed_def)

lemma announced_act: "announced c u k w \<Longrightarrow> hands_off a \<Longrightarrow> announced c u k (task_act c a w)"
  by (rule act_closed[where ends = False and I = "announced c u k"])
    (auto intro: announced_store announced_told, auto intro!: announced_record dest: announced_status simp: task_terminal_def)

interpretation announced: emit_invariant c hands_off "\<lambda>_. True" "announced c u k" for c u k
  by unfold_locales (auto intro: announced_act announced_store announced_told)

section \<open>Completing a task\<close>

lemma announce_completed:
  assumes "sealed c u k w" and "emit_by hands_off i"
  shows "sealed c u k (snd (emit_state_change c i TASK_COMPLETED ph True w))"
  unfolding emit_state_change_def Let_def
proof (intro sealed.keeps_next sealed.keeps_log assms(1), goal_cases)
  case (1 v w)
  then show ?case using assms(2) by (auto simp: emit_by_def intro: sealed.keeps_acts)
next
  case (2 v w v' w')
  show ?case
  proof (cases "store_record (xc_meta_fence c) (em_now i) w'")
    case (Pair r w1)
    with sealed_after[OF 2(2) Pair] have "sealed c u k w1" "\<not> isl r \<Longrightarrow> announced c u k w1" by (auto simp: announced_def)
    then show ?thesis using Pair announced.keeps_spread[where c = c and u = u and k = k and w = w1 and i = i and notify = True and e = TASK_COMPLETED] assms(2)
      by (cases r) (auto simp: announced_def)
  qed
qed

lemma running_completes:
  assumes "running u k w" and i: "iteration_by hands_off i"
  shows "claimable c u k (snd (complete_task c i res w))"
proof (cases "sources_read res (tr_source_count (w_record w))")
  case (Inl x)
  then show ?thesis using running_claimable[OF assms(1)] by (simp add: complete_task_def Let_def)
next
  case (Inr n)
  let ?d = "durable_result (w_record w) res" and ?t = "tr_task_id (w_record w)"
  let ?r = "(w_record w\<lparr>tr_status := TaskCompleted\<rparr>)\<lparr>tr_phase := PhaseCompleted, tr_completed_at := Some (it_now i),
      tr_result := Some ?d, tr_source_count := n\<rparr>"
  let ?w = "w\<lparr>w_record := ?r\<rparr>"
  let ?a = "dict_set (result_file ?t) (xc_dumps c ?d) (w_artifacts w)" and ?h = "xc_sha c (xc_dumps c ?d)"
  let ?f = "w\<lparr>w_artifacts := ?a, w_record := ?r\<rparr>"
  let ?s = "?f\<lparr>w_record := ?r\<lparr>tr_result_artifact_path := Some (result_file ?t), tr_result_artifact_sha256 := Some ?h\<rparr>\<rparr>"
  have marked: "claimable c u k ?w" by (rule claimable_record[OF running_claimable[OF assms(1)]]) simp_all
  have filed: "claimable c u k (?f\<lparr>w_record := q\<rparr>)" "slot_open (?f\<lparr>w_record := q\<rparr>)"
    if "tr_task_id q = ?t" "tr_run_id q = tr_run_id (w_record w)" for q
  proof -
    have "slot (?f\<lparr>w_record := q\<rparr>) = slot w" using that by (simp add: slot_def slot_path_def)
    moreover have "told_completed u (?f\<lparr>w_record := q\<rparr>) = told_completed u w"
      using that by (simp add: told_completed_def lead_messages_def)
    ultimately show "claimable c u k (?f\<lparr>w_record := q\<rparr>)" "slot_open (?f\<lparr>w_record := q\<rparr>)"
      using assms(1) that
      by (auto simp: running_def claimable_def slot_open_def slot_kept_def same_task_def task_terminal_def split: option.splits)
  qed
  have s: "sealed c u k ?s" using filed[of "w_record ?s"] by (simp add: sealed_def result_kept_def)
  have delete: "sealed c u k (snd (delete_checkpoint c now f w1))" if "sealed c u k w1" for now f w1
    using that delete_checkpoint_world[of c now f w1] by auto
  have "sealed c u k (snd (and_next (delete_checkpoint c (it_delete_now i) (it_delete i) ?s) (\<lambda>_ w.
      and_next (emit_state_change c (it_done i) TASK_COMPLETED (Some ''completed'') True w) (\<lambda>_ w. (Inr Returned, w)))))"
    using i by (intro sealed.keeps_next delete s announce_completed) (auto simp: iteration_by_def)
  then show ?thesis using marked Inr
    by (cases "it_open i"; cases "it_persist i") (auto simp: complete_task_def Let_def mark_status_def persist_task_result_def sealed_def)
qed

lemma running_listed: "running u k w \<Longrightarrow> running u k (w\<lparr>w_record := w_record w\<lparr>tr_pending_update_instructions := ss\<rparr>\<rparr>)"
  by (rule running_record) (auto dest: running_status)

interpretation loop: task_invariant c hands_off no_completion "running u k" "claimable c u k" for c u k
  by unfold_locales (auto intro: running_claimable running_completes running_listed)

section \<open>The whole task\<close>

lemma record_end_claimable:
  assumes "claimable c u k w" and t: "task_by hands_off t" and "st \<in> {TaskFailed, TaskTimedOut}" and "no_completion e"
  shows "claimable c u k (snd (record_end c t st msg e w))"
proof -
  have "closing c u k (mark_status st (\<lambda>r. r\<lparr>tr_error_message := Some msg, tr_completed_at := Some (ti_ended t)\<rparr>) w)"
    unfolding mark_status_def using assms(1,3) by (intro closing_record) (auto simp: task_terminal_def)
  then have "closing c u k (snd (record_end c t st msg e w))"
    unfolding record_end_def using t assms(4)
    by (intro closing.keeps_next closing.keeps_save closing.keeps_emit) (auto simp: task_by_def)
  then show ?thesis by (rule closing_parts)
qed

lemma guarded_claimable:
  assumes "claimable c u k (snd r)" and "task_by hands_off t"
  shows "claimable c u k (snd (guarded c t r))"
  using assms record_end_claimable[of c u k "snd r" t]
  by (auto simp: guarded_def handle_exception_def split: prod.split sum.split exn.split)

lemma start_failure_claimable:
  assumes "claimable c u k w" and i: "emit_by hands_off i"
  shows "claimable c u k (snd (record_start_failure c f i now s w))"
proof -
  let ?w = "mark_status TaskFailed (\<lambda>r. r\<lparr>tr_error_message := Some (''Unable to publish task start: '' @ s), tr_completed_at := Some now\<rparr>) w"
  have c: "closing c u k ?w"
    unfolding mark_status_def using assms(1) by (intro closing_record) (auto simp: task_terminal_def)
  obtain r w1 where st: "store_record f (em_now i) (task_acts c (em_before i) ?w) = (r, w1)" by force
  have "closing c u k (snd (store_record f (em_now i) (task_acts c (em_before i) ?w)))"
    using i by (intro closing_store closing.keeps_acts c) (simp add: emit_by_def)
  then have w1: "closing c u k w1" using st by simp
  have told: "closing c u k (snd (notify_lead c n now' x TASK_FAILED w1))" for n now' x by (rule closing_told[OF w1]) simp
  show ?thesis using c w1 told st
    by (auto simp: record_start_failure_def Let_def split: option.split exn.split sum.split intro: closing_parts)
qed

lemma start_state_running:
  assumes "running u k w" and i: "emit_by hands_off i"
  shows "running u k (snd (start_state c now f i w))"
proof -
  have "running u k (snd (and_next (emit_state_change c i CHECKPOINT_LOADED (Some (ck_phase x)) False w) (\<lambda>_ w.
      case xc_decode c (ck_messages_snapshot x) of
        Inl y \<Rightarrow> (Inl y, w)
      | Inr ms \<Rightarrow> (Inr (), w\<lparr>w_state := restored_state x (w_record w) ms,
          w_record := w_record w\<lparr>tr_phase := (if ck_phase x = ''compressing'' then Compressing else Researching)\<rparr>\<rparr>))))" for x
    using assms by (intro running.keeps_next running.keeps_emit) (auto split: sum.split dest: running_status intro!: running_record)
  then show ?thesis using assms(1)
    by (cases f; cases "checkpoint_load now (tr_task_id (w_record w)) (w_checkpoints w)")
      (simp_all add: start_state_def split: option.split)
qed

lemma announce_start_running:
  assumes "slot_open w" and "\<not> told_completed u w" and t: "task_by hands_off t"
  shows "running u (w_record w) (snd (announce_start c t w))"
  unfolding announce_start_def
proof (rule running.keeps_emit)
  show "running u (w_record w) (mark_status TaskRunning (\<lambda>r. r\<lparr>tr_started_at := Some (ti_started t)\<rparr>) w)"
    using assms(1,2) by (simp add: mark_status_def running_def named_record slot_open_def same_task_def task_terminal_def)
qed (use t in \<open>simp_all add: task_by_def\<close>)

lemma task_claimable:
  assumes "slot_open w" and "\<not> told_completed u w" and t: "task_by hands_off t"
  shows "claimable c u (w_record w) (snd (run_task_with_control c t w))"
proof -
  let ?k = "w_record w"
  obtain q w1 where a: "announce_start c t w = (q, w1)" by force
  have r1: "running u ?k w1" using announce_start_running[OF assms, of c] a by simp
  have acts: "emit_by hands_off (ti_start_failed t)" "emit_by hands_off (ti_loaded t)"
    "list_all (iteration_by hands_off) [ti_one t, ti_two t, ti_three t]" using t by (simp_all add: task_by_def)
  show ?thesis
  proof (cases q)
    case (Inl x)
    have "claimable c u ?k (snd (record_start_failure c (xc_fence_token c) (ti_start_failed t) (ti_ended t) (exn_text x) w1))"
      by (rule start_failure_claimable[OF running_claimable[OF r1] acts(1)])
    then show ?thesis using Inl a running_claimable[OF r1]
      by (cases x) (auto simp: run_task_with_control_def start_task_def)
  next
    case (Inr v)
    obtain l w2 where l: "start_state c (ti_load_now t) (ti_load t) (ti_loaded t) w1 = (l, w2)" by force
    have r2: "running u ?k w2" using start_state_running[OF r1 acts(2), of c "ti_load_now t" "ti_load t"] l by simp
    have "claimable c u ?k (snd (guarded c t (iterations c [ti_one t, ti_two t, ti_three t] w2)))"
      by (rule guarded_claimable[OF loop.keeps_iterations[OF r2 acts(3)] t])
    then show ?thesis using Inr a l running_claimable[OF r2]
      by (cases l) (auto simp: run_task_with_control_def start_task_def)
  qed
qed

text \<open>C10. A result the lead can use: unless somebody ends the task (a cancellation or a lost lease), every
  message in the inbox of the lead that says the task completed is accepted when the lead claims it, after
  any failure of the executor and any crash: the stored snapshot is completed, its result file exists and
  has the recorded digest. For a task whose snapshot is not final and whose completion was not announced before.\<close>

theorem lead_accepts_completions:
  assumes "run_task_with_control c t w = (r, w')" and "task_by hands_off t"
    and "slot_open w" and "\<not> told_completed u w"
    and id: "tr_task_id (w_record w) = task" "tr_run_id (w_record w) = rid" "valid_component task" "valid_component rid"
    and loc: "locate rid (result_file task) = Some (result_file task)" and sha: "\<And>s. xc_sha c s \<noteq> []"
    and m: "m \<in> set (lead_messages w')" "completion_of u task m"
  shows "\<exists>x. file_get (w_store w') task (Some rid) = Inr (Some x) \<and> ts_status x = TaskCompleted \<and>
    message_part (xc_sha c) locate (w_artifacts w') repr u (w_store w') rid m = Inr (snapshot_part repr x)"
proof -
  have d: "claimable c u (w_record w) w'" using task_claimable[OF assms(3,4,2), of c] assms(1) by simp
  then have same: "tr_task_id (w_record w') = task" "tr_run_id (w_record w') = rid" using id by (simp_all add: claimable_def same_task_def)
  have "told_completed u w'" using m same by (auto simp: told_completed_def list_ex_iff)
  with d obtain x where x: "slot w' = Some x" "ts_status x = TaskCompleted"
    "result_kept c w' (ts_result_artifact_path x) (ts_result_artifact_sha256 x)"
    by (auto simp: claimable_def slot_complete_def slot_kept_def split: option.splits)
  have ne: "task \<noteq> []" "rid \<noteq> []" using id by (auto simp: valid_component_def safe_component_def)
  have g: "file_get (w_store w') task (Some rid) = Inr (Some x)"
    using x(1) id same ne by (simp add: file_get_def task_paths_def validate_component_def truthy_def slot_def slot_path_def or_default_def)
  obtain content where "ts_result_artifact_path x = Some (result_file task)"
    "dict_get (w_artifacts w') (result_file task) = Some content" "ts_result_artifact_sha256 x = Some (xc_sha c content)"
    using x(3) same(1) by (auto simp: result_kept_def Let_def split: option.splits)
  moreover have "result_file task \<noteq> []" by (simp add: result_file_def)
  ultimately have f: "verify_result_artifact (xc_sha c) locate (w_artifacts w') rid x = Inr ()"
    using loc sha[of content] id(4) by (simp add: verify_result_artifact_def truthy_def validate_component_def)
  show ?thesis using g x(2) f m(2) ne
    by (auto simp: message_part_def completion_of_def jget_or_def py_text_def res_bind_def)
qed

definition small_unpack :: "string \<Rightarrow> (string, json) dict" where
  "small_unpack s = [(''task_id'', JStr s)]"

definition lead_part :: "string world \<Rightarrow> mailbox_message \<Rightarrow> coordination_error + string" where
  "lead_part w = message_part (xc_sha small_setting) (\<lambda>rid file. Some file) (w_artifacts w) (\<lambda>_. []) small_unpack (w_store w) ''r1''"

lemma small_told:
  "case run_task_with_control small_setting calm_task small_world of (r, w) \<Rightarrow>
     list_ex (completion_of small_unpack ''t1'') (lead_messages w)"
  by code_simp

theorem lead_accepts_completions_witness:
  "case run_task_with_control small_setting calm_task small_world of (r, w) \<Rightarrow>
     list_ex (\<lambda>m. completion_of small_unpack ''t1'' m \<and> \<not> isl (lead_part w m)) (lead_messages w)"
proof (cases "run_task_with_control small_setting calm_task small_world")
  case (Pair r w)
  have "slot_open small_world" "\<not> told_completed small_unpack small_world" by code_simp+
  moreover have "tr_task_id (w_record small_world) = ''t1''" "tr_run_id (w_record small_world) = ''r1''"
    "valid_component ''t1''" "valid_component ''r1''" by code_simp+
  moreover have "task_by hands_off calm_task"
    by (simp add: calm_task_def calm_iteration_def calm_save_def calm_emit_def task_by_def iteration_by_def save_by_def emit_by_def)
  moreover have "xc_sha small_setting s \<noteq> []" for s by (simp add: small_setting_def)
  ultimately have "\<not> isl (lead_part w m)" if "m \<in> set (lead_messages w)" "completion_of small_unpack ''t1'' m" for m
    using lead_accepts_completions[OF Pair, of small_unpack "''t1''" "''r1''" "\<lambda>rid file. Some file" m "\<lambda>_. []"] that
    by (auto simp: lead_part_def)
  then show ?thesis using small_told Pair by (auto simp: list_ex_iff)
qed

text \<open>A task cancelled through the pool while its researcher finishes: the event that stops the executor is not set
  yet, so the executor completes the task, whose stored snapshot stays cancelled without a result file, and
  announces the completion all the same. The lead cannot claim a batch with this message.\<close>

definition late_cancel :: task_input where
  "late_cancel = calm_task\<lparr>ti_one := calm_iteration\<lparr>it_during := [Action (CancelTask True 2 ''m9'')]\<rparr>\<rparr>"

lemma cancelled_completion_blocks_lead:
  "case run_task_with_control small_setting late_cancel small_world of (r, w) \<Rightarrow>
     r = Inr () \<and> tr_status (w_record w) = TaskCompleted \<and> map_option ts_status (slot w) = Some TaskCancelled \<and>
     list_ex (\<lambda>m. completion_of small_unpack ''t1'' m \<and> lead_part w m = Inl (ArtifactMissing ''t1'')) (lead_messages w)"
  by code_simp

text \<open>What raises while the checkpoint is loaded is caught nowhere: the task stays running.\<close>

lemma failed_load_leaves_running:
  "case run_task_with_control small_setting (calm_task\<lparr>ti_load := Some (ErrorExn ''disk'')\<rparr>) small_world of (r, w) \<Rightarrow>
     r = Inl (ErrorExn ''disk'') \<and> tr_status (w_record w) = TaskRunning \<and> map_option ts_status (slot w) = Some TaskRunning"
  by code_simp

text \<open>A public event that fails after the completed snapshot is stored: the record and the message to the lead
  say failed, the store says completed, and nobody announces the result.\<close>

lemma late_failure_splits_state:
  "case run_task_with_control small_setting (calm_task\<lparr>ti_one := calm_iteration\<lparr>it_done := calm_emit\<lparr>em_public := Some (0, ErrorExn ''log'')\<rparr>\<rparr>\<rparr>)
       small_world of (r, w) \<Rightarrow>
     r = Inr () \<and> tr_status (w_record w) = TaskFailed \<and> map_option ts_status (slot w) = Some TaskCompleted \<and>
     map msg_type (lead_messages w) = [''task_started'', ''task_failed'']"
  by code_simp

end
