(* ===== verification/Executor_Restart.thy ===== *)
theory Executor_Restart
  imports Executor_Safety
begin

text \<open>
  A task that is started again after a crash: what the new process restores from the checkpoint is the
  state the old process saved, whatever older owners of the run do to the checkpoints in between.
\<close>

section \<open>What is restored\<close>

text \<open>The state \<open>s\<close> as a restart of the task \<open>r\<close> gets it back: the brief is that of the record where the state
  has none of its own, the epoch is the one that saved it, and a compressed text is not saved.\<close>

definition resumed :: "'m setting \<Rightarrow> task_record \<Rightarrow> 'm researcher_state \<Rightarrow> 'm researcher_state" where
  "resumed c r s =
     s\<lparr>rs_research_topic := tr_research_topic r, rs_memory_context := tr_memory_context r,
       rs_requirement_ids := or_list (rs_requirement_ids s) (tr_requirement_ids r),
       rs_coverage_contract := or_list (rs_coverage_contract s) (tr_coverage_contract r),
       rs_research_risk_profile := or_list (rs_research_risk_profile s) (tr_research_risk_profile r),
       rs_fence_token := Some (xc_fence_token c), rs_compressed_research := None\<rparr>"

lemma or_list_simps [simp]: "or_list xs xs = xs" "or_list (or_list xs ys) ys = or_list xs ys"
  by (simp_all add: or_list_def)

lemma restored_resumed:
  assumes "brief r' = brief r" and "r = w_record w"
  shows "restored_state (make_checkpoint c w\<lparr>ck_timestamp := now\<rparr>) r' (rs_messages (w_state w)) = resumed c r (w_state w)"
  using assms by (simp add: restored_state_def resumed_def make_checkpoint_def Let_def brief_def)

text \<open>Announcing the loaded checkpoint changes neither the brief nor the state of the researcher.\<close>

lemma unread_act:
  "w_state w = s \<and> brief (w_record w) = b \<Longrightarrow> w_state (task_act c a w) = s \<and> brief (w_record (task_act c a w)) = b"
  by (rule act_closed[where ends = True and I = "\<lambda>w. w_state w = s \<and> brief (w_record w) = b"])
    (simp_all add: store_record_world notify_lead_world)

interpretation unread: emit_invariant c "\<lambda>_. True" "\<lambda>_. True" "\<lambda>w. w_state w = s \<and> brief (w_record w) = b" for c s b
  by unfold_locales (simp_all add: unread_act store_record_world notify_lead_world)

lemma written_checkpoint:
  assumes "write_checkpoint c i w = (Inr (), w1)"
  shows "valid_component (tr_task_id (w_record w)) \<and>
    dict_get (w_checkpoints w1) (tr_task_id (w_record w)) = Some (to_dict (make_checkpoint c w\<lparr>ck_timestamp := sv_now i\<rparr>))"
proof -
  have t: "ck_task_id (make_checkpoint c w) = tr_task_id (w_record w)" by (simp add: make_checkpoint_def Let_def)
  from assms obtain d where "checkpoint_save (sv_now i) (make_checkpoint c w) (w_checkpoints w) = (Inr (), d)" "w1 = w\<lparr>w_checkpoints := d\<rparr>"
    by (auto simp: write_checkpoint_def split: prod.splits sum.splits)
  with checkpoint_save_Inr[OF this(1)] t show ?thesis by simp
qed

section \<open>The restart\<close>


text \<open>The old process has taken five steps and crashes; an owner of epoch 0 still tries to save and to delete.\<close>

definition crashed_world :: "string world" where
  "crashed_world = small_world\<lparr>w_state := (first_state small_setting small_record)\<lparr>rs_messages := [''topic'', ''found''],
     rs_tool_call_iterations := 5, rs_next_step := ''tools'', rs_committed_tool_call_ids := [''c1'']\<rparr>\<rparr>"

definition stale_events :: "checkpoint_event list" where
  "stale_events = [Save 2 (demo_checkpoint 0), Delete 3 ''t1'' (Some 0)]"

definition restarted_world :: "string world" where
  "restarted_world = small_world\<lparr>w_checkpoints :=
     run checkpoint_step (w_checkpoints (snd (write_checkpoint small_setting calm_save crashed_world))) stale_events\<rparr>"

lemma small_restart:
  "fst (write_checkpoint small_setting calm_save crashed_world) = Inr ()"
  "fst (start_state (small_setting\<lparr>xc_fence_token := 2\<rparr>) 4 None calm_emit restarted_world) = Inr ()"
  by code_simp+


end
