(* ===== verification/Spec2Isabelle.thy ===== *)
theory Spec2Isabelle
  imports Circuit_Registry Budgets Mailbox_Liveness Lease TaskState Checkpoint QueryState ToolProtocol
    ModelFallback RunControl Approvals Run_Context Replay Rate_Limits Last_Admin Auth_Safety Revocation Projection
    Completion Sandbox_Operations Context_Compiler Query_Termination Executor_Delivery Executor_Restart
begin

text \<open>
  Insight Forge: the durable runtime core of a deep-research agent.

  The Python program under \<open>src/\<close> runs a lead agent and background researchers. One process leads
  a run at a time, chosen by a file lease; it drives model and tool calls through a query loop,
  keeps task snapshots, checkpoints, mailboxes, budgets and approvals as files of the run's
  directory, each changed under its own inter-process lock, and serves users who log in with
  rotating refresh tokens. This development models the parts that decide what happens to that
  state: every locked or transactional section is one function from the old state to the new one
  and its result, and concurrency is an arbitrary list of such steps (\<open>run\<close> in \<open>Prelude\<close>). Paths
  below are under \<open>src/src/open_deep_research/\<close> unless said otherwise.

  Theories, what they model, and what their lemmas show:

  \<^item> \<open>Prelude\<close>: ordered dictionaries (association lists in insertion order), clock values as exact
    rationals, Python string helpers, runs of a step function, and the interfaces \<open>machine\<close> (an
    invariant every step keeps) and \<open>ranked_machine\<close> (a counter no step decreases), which the
    components interpret on their own operations.
  \<^item> \<open>Json_Access\<close>, \<open>Py_Values\<close>: reading typed values out of JSON, with the error values of the
    readers, and Python's equality, \<open>max\<close> and dictionary updates on JSON.
  \<^item> \<open>Circuit\<close> (\<open>models/circuit.py\<close>, \<open>ModelCircuitBreaker\<close>): \<open>breaker\<close> is the object's state,
    \<open>before_call\<close>, \<open>force_half_open\<close>, \<open>record_success\<close>, \<open>record_failure\<close>, \<open>record_inconclusive\<close>,
    \<open>breaker_snapshot\<close> its methods at a clock reading. Shown: the invariant of the three states,
    at most one probe per generation, when a closed circuit trips, the recovery cycle.
  \<^item> \<open>Circuit_Registry\<close> (same file, \<open>ModelCircuitRegistry\<close>): breakers by identifier and
    \<open>select_candidate_index\<close>, the preflight choice; shown for free and for blocked chains.
  \<^item> \<open>Budgets\<close> (\<open>budgets.py\<close>): the ledger file and \<open>BudgetGate\<close>. Shown: no limit is passed without
    the exhausted flag, reservations are idempotent, a model call reserves all or nothing, which
    price applies, and that a released reservation is handed out again without being counted.
  \<^item> \<open>Mailbox\<close> (\<open>tasks/mailbox.py\<close>): inbox and dead-letter file of an agent, \<open>send\<close>, \<open>claim\<close>,
    \<open>ack\<close>, \<open>nack\<close>, compaction. Shown: bounded delivery, exclusive leases, claim order, distinct
    deduplication keys, dead letters recorded, identifiers are path segments. \<open>Mailbox_Liveness\<close>:
    with consumers that crash after every claim, each message settles within its attempts left.
  \<^item> \<open>Lease\<close> (\<open>tasks/lease.py\<close>): the lease file and many managers with clocks of their own.
    Shown: mutual exclusion, monotone epochs, and that executed commits are fenced.
  \<^item> \<open>Jsonl\<close>, \<open>Redaction\<close>, \<open>Run_Context\<close> (\<open>run_context.py\<close>): the journal as bytes, with the reader
    that drops a torn last line, the redaction of configurations, and \<open>run_disk\<close>, the files of one
    run with the operations of \<open>RunContextStore\<close>; a crash between two writes is an event. Shown:
    returned appends are durable, bound stores write in epoch order, and two failures: a lost line
    break corrupts the log, and rebuilding the manifest forgets the fence.
  \<^item> \<open>Replay\<close> (same file and \<open>runtime.py\<close>): state updates and their reducers, the encoding of
    payloads with message artifacts, and replay, which rebuilds the state the live run had.
  \<^item> \<open>TaskState\<close> (\<open>tasks/registry.py\<close>, \<open>tasks/state.py\<close>): records, snapshots, both stores. The
    locale \<open>task_store\<close> is the contract of \<open>upsert\<close>; it is interpreted on the memory and on the
    file store, which are shown to agree; histories of a task are monotone and fenced.
  \<^item> \<open>Coordination\<close> (\<open>tasks/coordination.py\<close>): task updates as messages to the lead, which renders the
    stored snapshots and checks the result files. \<open>Task_World\<close>, \<open>Executor\<close> (\<open>tasks/executor.py\<close>, and what
    \<open>tasks/async_tools.py\<close> and the pool do to a running task): the record of a task, its controls, stores,
    files and messages are a \<open>world\<close>; a coroutine is a function on it whose inputs decide the failures, what
    others do at each await, and the research itself. \<open>Executor_Safety\<close>: the locales \<open>emit_invariant\<close>,
    \<open>save_invariant\<close>, \<open>run_invariant\<close> and \<open>task_invariant\<close> are the contract of what the executor keeps, and
    with them: at most three starts of the researcher, and every return leaves a recorded end.
    \<open>Executor_Delivery\<close>: without a cancellation or a lost lease the lead accepts every announced completion,
    and three runs of the executor that show where it goes wrong. \<open>Executor_Restart\<close>: a restarted task gets
    the saved state of the researcher back.
  \<^item> \<open>Checkpoint\<close> (\<open>tasks/recovery.py\<close>): researcher checkpoints, their serialisation, and the
    directory of a run with fenced saves and deletions.
  \<^item> \<open>QueryState\<close> (\<open>agents/query_state.py\<close>): phases, the table of legal transitions, \<open>advance\<close>,
    \<open>to_snapshot\<close> and \<open>from_snapshot\<close>. The inductive \<open>history\<close> holds the sequences of states of a
    loop; snapshots are lossless.
  \<^item> \<open>Query_Steps\<close>, \<open>Query_Model\<close>, \<open>Query_Tools\<close>, \<open>Query_Loop\<close> (\<open>agents/query.py\<close>): the query loop. \<open>loop_state\<close>
    extends the state of \<open>QueryState\<close>, a step is the list of its saves and published events with how it
    ends (the next state, finished or failed), and what hooks, models and tools return in one iteration is
    a \<open>step_input\<close>; \<open>query_run\<close> is \<open>query\<close>. \<open>Query_Safety\<close>: states are saved before they are announced,
    pending events are published once, results are recorded, a resumed batch runs no unsafe call twice.
    \<open>Query_Transcripts\<close>: transcripts stay in order. \<open>Query_Termination\<close>: with a turn limit of \<open>m\<close> a run
    from turn \<open>t\<close> is over after \<open>2 * ((m - t) * (most_tries + 5) + 1) + 1\<close> iterations, for every router with
    the contract \<open>candidate_router\<close>, which the circuit registry has.
  \<^item> \<open>Context_Compiler\<close> (\<open>agents/context_compiler.py\<close> and the fail-safe of \<open>agents/query.py\<close>): what a request
    shows of the history. Shown: requests keep the protocol, the beginning and the token target;
    compaction keeps the order of the protocol, except for a history that begins with tool calls.
  \<^item> \<open>ToolProtocol\<close> (\<open>agents/tool_protocol.py\<close>, error types of \<open>tools/governance.py\<close>): canonical
    call identifiers, closing a batch, and the transcript validator, which decides the inductive
    grammar \<open>closed_transcript\<close>; what the runtime builds is accepted.
  \<^item> \<open>ModelFallback\<close> (\<open>models/errors.py\<close>, \<open>fallback.py\<close>, \<open>limits.py\<close>, \<open>agents/model_recovery.py\<close>):
    error classes, candidate chain, preflight over the registry, the fallback loop and output
    recovery; both loops are bounded and complete.
  \<^item> \<open>RunControl\<close> (\<open>runtime_control.py\<close>, \<open>run_control.py\<close>): the cancellation scope and the inbox
    of control commands; completion and cancellation exclude each other, commands are handled once.
  \<^item> \<open>Public_Events\<close>, \<open>Projection\<close> (\<open>events/public.py\<close>): the public event log of a run on disk, with its
    fence, index and redaction, and the projection clients see. Shown: returned events stay and are
    appended once however often the call is repeated, nothing follows a terminal event, payloads
    carry no secret key, and a finished run stays finished in every later projection.
  \<^item> \<open>Quality\<close>, \<open>Completion\<close> (\<open>quality/policy.py\<close>, \<open>quality/contract.py\<close>, \<open>completion.py\<close>, eligibility
    of \<open>evidence.py\<close>): rigor policies, handoff admission, the coverage ledger and the completion
    decision. Shown: what admission and completion require, and that admitted coverage is never lost.
  \<^item> \<open>Tool_Schema\<close>, \<open>Egress\<close>, \<open>Governance\<close> (\<open>tools/governance.py\<close>, \<open>tools/base.py\<close>, \<open>sandbox/policy.py\<close>,
    egress of \<open>sandbox/gateway.py\<close>): argument validation, which decides the meaning of a schema; hosts
    of URLs and configurations; and \<open>execute_governed_tool_call\<close>, which is \<open>tool_gates\<close> followed by
    \<open>run_tool\<close>. Shown: a tool runs exactly when every gate clears it, retries are bounded, every call is
    answered, bound tools are permitted, and that only the first URL of a call is checked.
  \<^item> \<open>Sandbox_Policy\<close> (\<open>sandbox/schema.py\<close>): shell patterns and the decisions of a sandbox profile.
    \<open>Sandbox_Operations\<close> (\<open>sandbox/crypto.py\<close>, \<open>operations.py\<close>, \<open>internal_api.py\<close>): the replay cache, the
    journal of model operations and the router over them; requests are single-use within their
    window, and the outcome of an operation is final.
  \<^item> \<open>Approvals\<close> (\<open>sandbox/approvals.py\<close>): security approvals; a grant lets one use through.
  \<^item> \<open>Sessions\<close> (\<open>src/src/security/rbac/services/sessions.py\<close> on the rows of \<open>rbac/models.py\<close>):
    login sessions, refresh rotation with reuse detection, revocation; tokens are single-use and
    a replay ends the session.
  \<^item> The rest of \<open>src/src/security/rbac\<close>: \<open>Permissions\<close> (catalogue, built-in roles, principals),
    \<open>Identity\<close> (rate limits, email tokens, roles, users, on \<open>identity_db\<close>, which extends the tables
    of \<open>Sessions\<close>), \<open>Credentials\<close> (addresses, passwords, the seeded tables and the first
    administrator), \<open>Auth\<close> (\<open>services/auth.py\<close>) and \<open>Authorization\<close> (\<open>dependencies.py\<close>). What any
    sequence of operations keeps is shown in \<open>Rate_Limits\<close> (admissions per interval),
    \<open>Identity_Admin\<close> (email tokens are single-use), \<open>Identity_Safety\<close> (the schema, frozen built-in
    roles), \<open>Last_Admin\<close> (an active administrator remains, except through approval), \<open>Auth_Safety\<close>
    (login: soundness, lockout, replies that do not depend on the account, burnt reset links) and
    \<open>Revocation\<close> (versions only grow, so a security change ends the access tokens before it).

  How they interact: \<open>TaskState\<close>, \<open>Checkpoint\<close> and \<open>Lease\<close> share the fence token of the leader's
  epoch, and \<open>Run_Context\<close> runs the managers of \<open>Lease\<close> and the stores on one disk
  (\<open>journal_writes_fenced\<close>); the identity theories share the tables, and \<open>app_step\<close> of
  \<open>Authorization\<close> is every request that can change them; \<open>TaskState\<close>, \<open>Checkpoint\<close>,
  \<open>RunControl\<close> and \<open>Approvals\<close> use the identifier check of \<open>Mailbox\<close>; \<open>ModelFallback\<close> runs its
  preflight on the breakers of \<open>Circuit_Registry\<close>; the query loop runs \<open>advance\<close> of \<open>QueryState\<close>, the
  validator of \<open>ToolProtocol\<close> and the fallback and recovery of \<open>ModelFallback\<close>, and compiles its requests
  with \<open>Context_Compiler\<close>; \<open>Executor\<close> moves \<open>TaskState\<close> snapshots, \<open>Checkpoint\<close> files and \<open>Mailbox\<close> messages
  together; \<open>Sandbox_Operations\<close> reserves in the ledger of
  \<open>Budgets\<close>, and \<open>Governance\<close> answers calls with the messages of \<open>ToolProtocol\<close> and resolves the profile
  of \<open>Sandbox_Policy\<close>.

  Conventions. Python's integers are \<open>int\<close>; a \<open>float\<close> clock reading or duration is an exact
  \<open>rat\<close>, so rounding is not modelled. Every exception is a branch of a sum type with the
  component's own error type, and a method that changes state before it raises returns that state
  too. The query loop runs on a list of inputs, one for each iteration, so a run is as long as its list. No
  definition uses fuel: the loops are structural recursions, except \<open>fresh_id\<close> (measure:
  the suffixed identifiers from the current suffix on that are taken), \<open>output_loop\<close> (measure: the
  calls its limits still allow), \<open>protocol_blocks\<close> (measure: the messages left), \<open>invoke_tool_with_retry\<close> (measure: the attempts left),
  \<open>redact_from\<close> and \<open>glob_tokens\<close> (measure: the length of the text), which have their termination proofs.

  Arguments of the model, being code or values that are not under \<open>src/\<close>: clocks, random
  identifiers, process identity, SHA-256 digests, token signing, message codecs, the text of JSON
  values, Argon2, the address validator and Unicode tables, Pydantic
  models of tools, regular expressions of the quality rules, IPv6 literals, jitter, the model or tool
  call itself, and which asyncio task finishes first.

  Not modelled: reading and atomically replacing the files (a lock is taken to be exclusive and a
  replacement atomic; torn appends of the journal are modelled), malformed files of the other
  stores, tracing, HTTP routing, JWT signing and key loading, mail, containers, retrieval and
  prompts; of the query loop \<open>prepare_messages_for_query\<close>, which it does not call, the provider call and the
  texts of hooks; of the tasks the scheduling of the teammate pool and the tool texts of the lead.
\<close>

end
